(* ===== verification/Base.thy ===== *)
theory Base
  imports Main "HOL-Library.Word"
begin

text \<open>
  The prelude of the development: the named collections its proofs share, the Python
  dictionary as a map (\<open>d.get(k, default)\<close>, the sum of a dictionary's values), byte
  strings, and the interface locales that several components interpret: a labelled
  transition system with an invariant, and a codec with a round trip.
\<close>

section \<open>Collections\<close>

named_theorems frame_simps
  \<open>what an operation leaves unchanged, as equations on the fields of the state\<close>

named_theorems ledger_intros
  \<open>preservation of the credit ledger, one rule per operation\<close>

section \<open>Bytes\<close>

type_synonym byte = "8 word"
type_synonym bytes = "byte list"

text \<open>
  A Python \<open>str\<close> whose characters are all below 256 is an Isabelle \<open>string\<close>: one
  \<open>char\<close> per code point. \<open>latin1\<close> is \<open>s.encode('latin-1')\<close> on such a string and
  \<open>of_latin1\<close> is \<open>b.decode('latin-1')\<close>, the byte tunnel of PEP 3333.
\<close>

definition latin1 :: "string \<Rightarrow> bytes" where
  "latin1 s = map (\<lambda>c. of_nat (of_char c)) s"

definition of_latin1 :: "bytes \<Rightarrow> string" where
  "of_latin1 b = map (\<lambda>w. char_of (unat w)) b"

lemma of_latin1_latin1 [simp]: "of_latin1 (latin1 s) = s"
proof -
  have "unat (of_nat (of_char c :: nat) :: byte) = of_char c" for c :: char
    by (simp add: unat_of_nat of_char_mod_256)
  then show ?thesis
    by (simp add: of_latin1_def latin1_def o_def)
qed

lemma latin1_of_latin1 [simp]: "latin1 (of_latin1 b) = b"
proof -
  have *: "of_nat (of_char (char_of (unat w) :: char)) = w" for w :: byte
  proof -
    have "unat w < 256" using unsigned_less [where 'b = 8 and 'a = nat, of w] by simp
    then show ?thesis by (simp add: of_char_of)
  qed
  have "map (\<lambda>w. of_nat (of_char (char_of (unat w) :: char))) b = b"
    by (induction b) (simp_all only: list.map *)
  then show ?thesis
    by (simp add: of_latin1_def latin1_def o_def)
qed

lemma length_latin1 [simp]: "length (latin1 s) = length s"
  by (simp add: latin1_def)

section \<open>Dictionaries\<close>

text \<open>\<open>d.get(k, default)\<close>.\<close>

definition getd :: "('k \<rightharpoonup> 'v) \<Rightarrow> 'k \<Rightarrow> 'v \<Rightarrow> 'v" where
  "getd m k d = (case m k of None \<Rightarrow> d | Some v \<Rightarrow> v)"

lemma getd_simps [simp]:
  "m k = None \<Longrightarrow> getd m k d = d"
  "m k = Some v \<Longrightarrow> getd m k d = v"
  "getd (m(k \<mapsto> v)) k d = v"
  "getd (m(k := None)) k d = d"
  "j \<noteq> k \<Longrightarrow> getd (m(k := w)) j d = getd m j d"
  "getd Map.empty k d = d"
  by (simp_all add: getd_def)

text \<open>
  The sum of the values of a dictionary with finitely many keys (every Python
  dictionary): what \<open>sum(d.values())\<close> is.
\<close>

definition dsum :: "('k \<rightharpoonup> int) \<Rightarrow> int" where
  "dsum m = (\<Sum>k\<in>dom m. getd m k 0)"

lemma dsum_empty [simp]: "dsum Map.empty = 0"
  by (simp add: dsum_def)

lemma dsum_update: "finite (dom m) \<Longrightarrow> dsum (m(k \<mapsto> v)) = dsum m - getd m k 0 + v"
proof -
  assume fin: "finite (dom m)"
  have "dsum (m(k \<mapsto> v)) = v + (\<Sum>j\<in>dom m - {k}. getd (m(k \<mapsto> v)) j 0)"
    using fin by (simp add: dsum_def sum.insert_remove)
  also have "(\<Sum>j\<in>dom m - {k}. getd (m(k \<mapsto> v)) j 0) = (\<Sum>j\<in>dom m - {k}. getd m j 0)"
    by (rule sum.cong) auto
  also have "\<dots> = dsum m - getd m k 0"
    using fin by (auto simp: dsum_def sum_diff1 getd_def domIff split: option.splits)
  finally show ?thesis by (simp del: fun_upd_apply)
qed

lemma dsum_remove: "finite (dom m) \<Longrightarrow> dsum (m(k := None)) = dsum m - getd m k 0"
proof -
  assume fin: "finite (dom m)"
  have "dsum (m(k := None)) = (\<Sum>j\<in>dom m - {k}. getd m j 0)"
    unfolding dsum_def by (rule sum.cong) auto
  also have "\<dots> = dsum m - getd m k 0"
    using fin by (auto simp: dsum_def sum_diff1 getd_def domIff split: option.splits)
  finally show ?thesis .
qed

lemma dsum_nonneg: "\<forall>k v. m k = Some v \<longrightarrow> 0 \<le> v \<Longrightarrow> 0 \<le> dsum m"
  by (force simp: dsum_def getd_def intro!: sum_nonneg)

lemma getd_le_dsum:
  assumes "finite (dom m)" and nn: "\<forall>k v. m k = Some v \<longrightarrow> 0 \<le> v"
  shows "getd m k 0 \<le> dsum m"
proof (cases "m k")
  case None
  then show ?thesis using dsum_nonneg [OF nn] by simp
next
  case (Some v)
  then have "k \<in> dom m" by auto
  moreover have "\<And>j. j \<in> dom m \<Longrightarrow> 0 \<le> getd m j 0"
    using nn by (auto simp: getd_def)
  ultimately show ?thesis
    unfolding dsum_def using assms(1) by (intro member_le_sum) auto
qed

section \<open>Interface: a labelled transition system with an invariant\<close>

text \<open>
  Every long-lived component of the program is a state and labelled steps. Its safety
  properties are invariants: true at the start, kept by each step. A run is a list of
  labels; \<open>run_inv\<close> is the one induction all components share.
\<close>

inductive lts_run :: "('s \<Rightarrow> 'l \<Rightarrow> 's \<Rightarrow> bool) \<Rightarrow> 's \<Rightarrow> 'l list \<Rightarrow> 's \<Rightarrow> bool"
  for step :: "'s \<Rightarrow> 'l \<Rightarrow> 's \<Rightarrow> bool" where
  run_nil: "lts_run step s [] s"
| run_snoc: "lts_run step s ls t \<Longrightarrow> step t l u \<Longrightarrow> lts_run step s (ls @ [l]) u"

inductive_simps lts_run_Nil [simp]: "lts_run step s [] t"
inductive_cases lts_run_snocE: "lts_run step s (ls @ [l]) u"

lemma lts_run_one: "step s l t \<Longrightarrow> lts_run step s [l] t"
  using run_snoc [OF run_nil] by fastforce

lemma lts_run_cons:
  assumes "lts_run step t ls u" and "step s l t"
  shows "lts_run step s (l # ls) u"
  using assms
proof (induction rule: lts_run.induct)
  case (run_nil t)
  then show ?case by (rule lts_run_one)
next
  case (run_snoc t ls u l' v)
  then show ?case using lts_run.run_snoc [of step s "l # ls" u l' v] by simp
qed

lemma lts_run_cons_split:
  assumes "lts_run step s (l # ls) u"
  shows "\<exists>t. step s l t \<and> lts_run step t ls u"
proof -
  have "\<exists>t. step s l t \<and> lts_run step t ls u" if "lts_run step s ks u" "ks = l # ls" for ks u ls
    using that
  proof (induction arbitrary: ls rule: lts_run.induct)
    case (run_snoc s ks v l' w)
    then show ?case
      by (cases ks) (fastforce intro: lts_run.intros)+
  qed simp
  then show ?thesis using assms by blast
qed

locale lts_invariant =
  fixes start :: "'s \<Rightarrow> bool"
    and step :: "'s \<Rightarrow> 'l \<Rightarrow> 's \<Rightarrow> bool"
    and good :: "'s \<Rightarrow> bool"
  assumes start_good: "start s \<Longrightarrow> good s"
    and step_good: "good s \<Longrightarrow> step s l t \<Longrightarrow> good t"
begin

lemma run_keeps: "lts_run step s ls t \<Longrightarrow> good s \<Longrightarrow> good t"
  by (induction rule: lts_run.induct) (auto intro: step_good)

lemma run_good: "lts_run step s ls t \<Longrightarrow> start s \<Longrightarrow> good t"
  by (blast intro: run_keeps start_good)

end

section \<open>Interface: a codec\<close>

text \<open>
  An encoder and a decoder that agree on the valid values. What a client needs of them
  (the encoder loses nothing; a decoded list of encodings) follows once, here.
\<close>

locale codec =
  fixes valid :: "'a \<Rightarrow> bool"
    and enc :: "'a \<Rightarrow> 'b"
    and dec :: "'b \<Rightarrow> 'a option"
  assumes dec_enc: "valid x \<Longrightarrow> dec (enc x) = Some x"
begin

lemma enc_inject: "valid x \<Longrightarrow> valid y \<Longrightarrow> enc x = enc y \<Longrightarrow> x = y"
  using dec_enc by (metis option.inject)

lemma enc_inj_on: "inj_on enc {x. valid x}"
  by (auto simp: inj_on_def intro: enc_inject)

lemma map_dec_enc: "list_all valid xs \<Longrightarrow> map (\<lambda>x. dec (enc x)) xs = map Some xs"
  by (induction xs) (auto simp: dec_enc)

end

end
