(* ===== verification/Credit_Windows.thy ===== *)
theory Credit_Windows
  imports Base
begin

text \<open>
  The two credit windows of the executor (m0_shim.py): \<open>_exec_credits\<close>, one window of
  \<open>_ASGI_CREDIT_WINDOW\<close> bytes per streaming slot; \<open>_exec_global_credit\<close>, one window of
  \<open>_ASGI_TOTAL_WINDOW\<close> bytes for every slot together; and \<open>_exec_inflight\<close>, what each
  slot has charged to the global window and not been refunded. The operations here are
  the bookkeeping the shim's functions share: the charge at the end of \<open>_emit\<close> and
  \<open>_ws_spend\<close>, the refund of \<open>_on_ack\<close>, and the release of a slot's bytes by
  \<open>_exec_on_disconnect\<close> and \<open>_exec_cleanup_slot\<close>.
\<close>

type_synonym slot = int

record win =
  credits :: "slot \<rightharpoonup> int"
  global_credit :: int
  inflight :: "slot \<rightharpoonup> int"

definition ASGI_CREDIT_WINDOW :: int where "ASGI_CREDIT_WINDOW = 64 * 1024"
definition ASGI_CHUNK_SPLIT :: nat where "ASGI_CHUNK_SPLIT = 32 * 1024"
definition ASGI_TOTAL_WINDOW :: int where "ASGI_TOTAL_WINDOW = 128 * 1024"

lemmas window_consts = ASGI_CREDIT_WINDOW_def ASGI_TOTAL_WINDOW_def ASGI_CHUNK_SPLIT_def

section \<open>Operations\<close>

text \<open>
  The three assignments that charge a slot \<open>n\<close> bytes. \<open>_exec_credits[slot] -= n\<close>
  raises \<open>KeyError\<close> on a slot with no window: \<open>None\<close>.
\<close>

definition charge :: "slot \<Rightarrow> int \<Rightarrow> ('a win_scheme) \<Rightarrow> ('a win_scheme) option" where
  "charge slot n w =
     (case credits w slot of
        None \<Rightarrow> None
      | Some c \<Rightarrow> Some (w\<lparr>credits := (credits w)(slot \<mapsto> c - n),
                        global_credit := global_credit w - n,
                        inflight := (inflight w)(slot \<mapsto> getd (inflight w) slot 0 + n)\<rparr>))"

text \<open>A new stream's window is seeded whole.\<close>

definition open_window :: "slot \<Rightarrow> ('a win_scheme) \<Rightarrow> 'a win_scheme" where
  "open_window slot w = w\<lparr>credits := (credits w)(slot \<mapsto> ASGI_CREDIT_WINDOW)\<rparr>"

text \<open>The slot's half of an ack of \<open>n\<close> bytes: credited, clamped to the window.\<close>

definition ack_credit :: "slot \<Rightarrow> int \<Rightarrow> ('a win_scheme) \<Rightarrow> 'a win_scheme" where
  "ack_credit slot n w =
     (case credits w slot of
        None \<Rightarrow> w
      | Some c \<Rightarrow>
          w\<lparr>credits := (credits w)(slot \<mapsto>
              (if c + n > ASGI_CREDIT_WINDOW then ASGI_CREDIT_WINDOW else c + n))\<rparr>)"

text \<open>The global half: refunded up to what the slot has in flight. Also says how much.\<close>

definition ack_refund :: "slot \<Rightarrow> int \<Rightarrow> ('a win_scheme) \<Rightarrow> int \<times> ('a win_scheme)" where
  "ack_refund slot n w =
     (let spent = getd (inflight w) slot 0;
          refund = (if n < spent then n else spent)
      in if refund \<noteq> 0
         then (refund, w\<lparr>inflight := (inflight w)(slot \<mapsto> spent - refund),
                          global_credit := global_credit w + refund\<rparr>)
         else (refund, w))"

text \<open>\<open>stranded = _exec_inflight.pop(slot, 0)\<close>, returned to the global window.\<close>

definition release :: "slot \<Rightarrow> ('a win_scheme) \<Rightarrow> int \<times> ('a win_scheme)" where
  "release slot w =
     (let stranded = getd (inflight w) slot 0;
          w' = w\<lparr>inflight := (inflight w)(slot := None)\<rparr>
      in if stranded \<noteq> 0
         then (stranded, w'\<lparr>global_credit := global_credit w + stranded\<rparr>)
         else (stranded, w'))"

section \<open>The ledger\<close>

text \<open>
  What holds at every moment: no slot's window is over-full, the global window is never
  overdrawn, and with all that is in flight it is exactly \<open>_ASGI_TOTAL_WINDOW\<close>. (A
  slot's own window can be overdrawn: \<open>_emit\<close> and \<open>_ws_spend\<close> test it before they wait
  for the global one and not again after.)
\<close>

definition ledger :: "('a win_scheme) \<Rightarrow> bool" where
  "ledger w \<longleftrightarrow>
     finite (dom (inflight w)) \<and>
     (\<forall>s n. inflight w s = Some n \<longrightarrow> 0 \<le> n) \<and>
     (\<forall>s c. credits w s = Some c \<longrightarrow> c \<le> ASGI_CREDIT_WINDOW) \<and>
     0 \<le> global_credit w \<and>
     global_credit w + dsum (inflight w) = ASGI_TOTAL_WINDOW"

text \<open>
  The ledger as an interface: its clients (the HTTP cycle and the socket) only charge,
  open, ack and release, and rest on these laws.
\<close>

locale credit_ledger =
  fixes ok :: "'w \<Rightarrow> bool"
    and free :: "'w \<Rightarrow> int"
    and room :: "'w \<Rightarrow> slot \<Rightarrow> int"
    and owed :: "'w \<Rightarrow> slot \<Rightarrow> int"
    and chg :: "slot \<Rightarrow> int \<Rightarrow> 'w \<Rightarrow> 'w option"
    and opn :: "slot \<Rightarrow> 'w \<Rightarrow> 'w"
    and ack :: "slot \<Rightarrow> int \<Rightarrow> 'w \<Rightarrow> 'w"
    and rel :: "slot \<Rightarrow> 'w \<Rightarrow> 'w"
    and cap total :: int
  assumes ok_bounds: "ok w \<Longrightarrow> 0 \<le> free w \<and> 0 \<le> owed w s \<and> free w + owed w s \<le> total"
    and ok_charge: "ok w \<Longrightarrow> chg s n w = Some w' \<Longrightarrow> 0 \<le> n \<Longrightarrow> n \<le> free w \<Longrightarrow>
      ok w' \<and> free w' = free w - n \<and> owed w' s = owed w s + n"
    and ok_open: "ok w \<Longrightarrow> ok (opn s w) \<and> room (opn s w) s = cap \<and> free (opn s w) = free w"
    and ok_ack: "ok w \<Longrightarrow> 0 \<le> n \<Longrightarrow> ok (ack s n w) \<and> free (ack s n w) = free w + min n (owed w s)"
    and ok_release: "ok w \<Longrightarrow> ok (rel s w) \<and> owed (rel s w) s = 0 \<and> free (rel s w) = free w + owed w s"
begin

lemma release_after_charge:
  assumes "ok w" and "chg s n w = Some w'" and "0 \<le> n" "n \<le> free w"
  shows "free (rel s w') = free w + owed w s"
  using ok_charge [OF assms] ok_release [of w' s] by simp

lemma ack_after_charge:
  assumes "ok w" and "chg s n w = Some w'" and "0 \<le> n" "n \<le> free w"
  shows "free (ack s n w') = free w"
  using ok_charge [OF assms] ok_ack [of w' n s] ok_bounds [OF assms(1), of s] assms(3) by simp

lemma never_over_total: "ok w \<Longrightarrow> free w \<le> total"
  using ok_bounds [of w undefined] by linarith

end

lemma ledgerD:
  assumes "ledger w"
  shows "0 \<le> global_credit w" "finite (dom (inflight w))" "0 \<le> getd (inflight w) s 0"
    "global_credit w + dsum (inflight w) = ASGI_TOTAL_WINDOW"
    "credits w s = Some c \<Longrightarrow> c \<le> ASGI_CREDIT_WINDOW"
  using assms by (auto simp: ledger_def getd_def split: option.splits)

lemma ledger_owed_le: "ledger w \<Longrightarrow> global_credit w + getd (inflight w) s 0 \<le> ASGI_TOTAL_WINDOW"
  using getd_le_dsum [of "inflight w" s] by (auto simp: ledger_def)

lemma ledger_charge [ledger_intros]:
  assumes "ledger w" and "charge s n w = Some w'" and "0 \<le> n"
    and "n \<le> global_credit w"
  shows "ledger w'"
  using assms ledgerD(3) [OF assms(1), of s]
  by (auto simp: ledger_def charge_def dsum_update simp del: fun_upd_apply
      split: option.splits if_splits)
     (auto split: if_splits simp: ASGI_CREDIT_WINDOW_def; fastforce)+

lemma ledger_open [ledger_intros]: "ledger w \<Longrightarrow> ledger (open_window s w)"
  by (auto simp: ledger_def open_window_def window_consts)

lemma ledger_ack_credit [ledger_intros]: "ledger w \<Longrightarrow> 0 \<le> n \<Longrightarrow> ledger (ack_credit s n w)"
  by (force simp: ledger_def ack_credit_def window_consts split: option.splits if_splits)

lemma ledger_move:
  \<comment> \<open>bytes of one slot move from in flight back to the global window\<close>
  assumes "ledger w" and "inflight w' = (inflight w)(s := v)" and "credits w' = credits w"
    and "global_credit w' = global_credit w + getd (inflight w) s 0 - (case v of None \<Rightarrow> 0 | Some n \<Rightarrow> n)"
    and "\<And>n. v = Some n \<Longrightarrow> 0 \<le> n \<and> n \<le> getd (inflight w) s 0"
  shows "ledger w'"
proof (cases v)
  case None
  with assms ledgerD(3) [OF assms(1), of s] show ?thesis
    by (auto simp: ledger_def dsum_remove simp del: fun_upd_apply) (auto split: if_splits)
next
  case (Some n)
  with assms ledgerD(3) [OF assms(1), of s] show ?thesis
    by (auto simp: ledger_def dsum_update simp del: fun_upd_apply) (auto split: if_splits)
qed

lemma ack_refund_unfold:
  assumes "ledger w" and "0 \<le> n"
  shows "fst (ack_refund s n w) = min n (getd (inflight w) s 0)"
    and "global_credit (snd (ack_refund s n w)) = global_credit w + min n (getd (inflight w) s 0)"
  using assms ledgerD(3) [OF assms(1), of s] by (auto simp: ack_refund_def Let_def)

lemma ledger_ack_refund [ledger_intros]:
  assumes "ledger w" and "0 \<le> n"
  shows "ledger (snd (ack_refund s n w))"
proof (cases "min n (getd (inflight w) s 0) = 0")
  case True
  with assms ledgerD(3) [OF assms(1), of s] show ?thesis
    by (auto simp: ack_refund_def Let_def min_def split: if_splits)
next
  case False
  show ?thesis
    using assms False ledgerD(3) [OF assms(1), of s]
    by (intro ledger_move [OF assms(1), where s = s
          and v = "Some (getd (inflight w) s 0 - min n (getd (inflight w) s 0))"])
       (auto simp: ack_refund_def Let_def min_def split: if_splits)
qed

lemma release_simps:
  "fst (release s w) = getd (inflight w) s 0"
  "global_credit (snd (release s w)) = global_credit w + getd (inflight w) s 0"
  "inflight (snd (release s w)) = (inflight w)(s := None)"
  "credits (snd (release s w)) = credits w"
  by (auto simp: release_def Let_def)

lemma ledger_release [ledger_intros]: "ledger w \<Longrightarrow> ledger (snd (release s w))"
  by (erule ledger_move [where s = s and v = None]) (simp_all add: release_simps)

interpretation windows: credit_ledger
  "ledger :: win \<Rightarrow> bool" global_credit "\<lambda>w s. getd (credits w) s 0"
  "\<lambda>w s. getd (inflight w) s 0" charge open_window
  "\<lambda>s n w. snd (ack_refund s n (ack_credit s n w))" "\<lambda>s w. snd (release s w)"
  ASGI_CREDIT_WINDOW ASGI_TOTAL_WINDOW
proof unfold_locales
  fix w :: win and s n
  assume w: "ledger w"
  show "0 \<le> global_credit w \<and> 0 \<le> getd (inflight w) s 0 \<and>
      global_credit w + getd (inflight w) s 0 \<le> ASGI_TOTAL_WINDOW"
    using ledgerD(1,3) [OF w] ledger_owed_le [OF w] by blast
  show "ledger (open_window s w) \<and> getd (credits (open_window s w)) s 0 = ASGI_CREDIT_WINDOW \<and>
      global_credit (open_window s w) = global_credit w"
    using ledger_open [OF w, of s] by (simp add: open_window_def)
  show "ledger (snd (release s w)) \<and> getd (inflight (snd (release s w))) s 0 = 0 \<and>
      global_credit (snd (release s w)) = global_credit w + getd (inflight w) s 0"
    using ledger_release [OF w, of s] by (simp add: release_simps)
next
  fix w w' :: win and s n
  assume "ledger w" and "charge s n w = Some w'" and "0 \<le> n" and "n \<le> global_credit w"
  moreover from this have "ledger w'" by (rule ledger_charge)
  ultimately show "ledger w' \<and> global_credit w' = global_credit w - n \<and>
      getd (inflight w') s 0 = getd (inflight w) s 0 + n"
    by (auto simp: charge_def split: option.splits)
next
  fix w :: win and s n
  assume w: "ledger w" and n: "(0::int) \<le> n"
  have a: "ledger (ack_credit s n w)" by (rule ledger_ack_credit [OF w n])
  have "inflight (ack_credit s n w) = inflight w" "global_credit (ack_credit s n w) = global_credit w"
    by (simp_all add: ack_credit_def split: option.split)
  then show "ledger (snd (ack_refund s n (ack_credit s n w))) \<and>
      global_credit (snd (ack_refund s n (ack_credit s n w)))
        = global_credit w + min n (getd (inflight w) s 0)"
    using ledger_ack_refund [OF a n, of s] ack_refund_unfold(2) [OF a n, of s] by simp
qed

end
