(* ===== verification/Py_Text.thy ===== *)
theory Py_Text
  imports Base
begin

text \<open>
  The text operations of the Python standard library that the modelled code calls:
  \<open>sep.join\<close>, \<open>s.split(c)\<close>, \<open>s.rstrip(c)\<close> on strings, \<open>int.from_bytes\<close> and
  \<open>struct.pack\<close> for little-endian integers, and UTF-8: \<open>s.encode('utf-8')\<close> and
  \<open>b.decode('utf-8', 'replace')\<close>. A \<open>str\<close> that may hold any code point is a
  \<open>ustr\<close>, the list of its code points.
\<close>

section \<open>Split, join, strip\<close>

text \<open>\<open>s.split(c)\<close> for one character \<open>c\<close>: never empty.\<close>

fun split_on :: "'a \<Rightarrow> 'a list \<Rightarrow> 'a list list" where
  "split_on c [] = [[]]"
| "split_on c (x # xs) =
     (if x = c then [] # split_on c xs
      else (case split_on c xs of [] \<Rightarrow> [[x]] | w # ws \<Rightarrow> (x # w) # ws))"

text \<open>\<open>sep.join(parts)\<close>.\<close>

fun join :: "'a list \<Rightarrow> 'a list list \<Rightarrow> 'a list" where
  "join sep [] = []"
| "join sep [w] = w"
| "join sep (w # v # ws) = w @ sep @ join sep (v # ws)"

text \<open>\<open>s.rstrip(c)\<close>.\<close>

definition rstrip_of :: "'a \<Rightarrow> 'a list \<Rightarrow> 'a list" where
  "rstrip_of c s = rev (dropWhile (\<lambda>x. x = c) (rev s))"

lemma split_on_not_Nil [simp]: "split_on c s \<noteq> []"
  by (induction s) (auto split: list.splits)

lemma join_Cons: "ws \<noteq> [] \<Longrightarrow> join sep (w # ws) = w @ sep @ join sep ws"
  by (cases ws) auto

lemma join_split_on [simp]: "join [c] (split_on c s) = s"
proof (induction s)
  case (Cons x xs)
  then show ?case
    by (cases "split_on c xs"; cases "tl (split_on c xs)") (auto simp: join_Cons)
qed simp

lemma split_on_parts: "w \<in> set (split_on c s) \<Longrightarrow> c \<notin> set w"
proof (induction s arbitrary: w)
  case (Cons x xs)
  obtain v vs where v: "split_on c xs = v # vs"
    by (cases "split_on c xs") auto
  show ?case
  proof (cases "x = c")
    case True
    with Cons show ?thesis by auto
  next
    case False
    with Cons.prems v have "w = x # v \<or> w \<in> set vs" by simp
    with Cons.IH v False show ?thesis by auto
  qed
qed simp

lemma split_on_id: "c \<notin> set w \<Longrightarrow> split_on c w = [w]"
  by (induction w) auto

lemma split_on_append: "c \<notin> set w \<Longrightarrow> split_on c (w @ c # s) = w # split_on c s"
  by (induction w) auto

lemma split_on_join:
  "ws \<noteq> [] \<Longrightarrow> \<forall>w\<in>set ws. c \<notin> set w \<Longrightarrow> split_on c (join [c] ws) = ws"
proof (induction ws)
  case (Cons w ws)
  then show ?case
    by (cases "ws = []") (auto simp: join_Cons split_on_id split_on_append)
qed simp

lemma rstrip_of_snoc [simp]:
  "rstrip_of c (s @ [x]) = (if x = c then rstrip_of c s else s @ [x])"
  by (simp add: rstrip_of_def)

lemma rstrip_of_Nil [simp]: "rstrip_of c [] = []"
  by (simp add: rstrip_of_def)

section \<open>Little-endian integers\<close>

text \<open>\<open>int.from_bytes(b, 'little')\<close>, and with \<open>signed=True\<close>.\<close>

fun from_le :: "bytes \<Rightarrow> int" where
  "from_le [] = 0"
| "from_le (b # bs) = uint b + 256 * from_le bs"

definition from_le_signed :: "bytes \<Rightarrow> int" where
  "from_le_signed bs =
     (let n = from_le bs; m = 256 ^ length bs in if m \<le> 2 * n then n - m else n)"

text \<open>
  The \<open>n\<close>-byte little-endian encoding of \<open>x mod 256 ^ n\<close>: what \<open>struct.pack\<close>
  writes for \<open><q\<close> and \<open><H\<close>, for a value the format accepts.
\<close>

fun to_le :: "nat \<Rightarrow> int \<Rightarrow> bytes" where
  "to_le 0 x = []"
| "to_le (Suc n) x = word_of_int x # to_le n (x div 256)"

lemma length_to_le [simp]: "length (to_le n x) = n"
  by (induction n arbitrary: x) auto

lemma from_le_to_le: "from_le (to_le n x) = x mod 256 ^ n"
proof (induction n arbitrary: x)
  case (Suc n)
  have "uint (word_of_int x :: byte) = x mod 256"
    by (simp add: uint_word_of_int)
  moreover have "x mod (256 * 256 ^ n) = 256 * (x div 256 mod 256 ^ n) + x mod 256"
    by (simp add: zmod_zmult2_eq)
  ultimately show ?case using Suc by simp
qed simp

lemma from_le_bounds: "0 \<le> from_le bs \<and> from_le bs < 256 ^ length bs"
proof (induction bs)
  case (Cons b bs)
  have "0 \<le> uint b" "uint b < 256"
    using unsigned_less [where 'b = 8 and 'a = int, of b] by simp_all
  with Cons show ?case by simp
qed simp

lemma from_le_signed_to_le:
  assumes "- (256 ^ n) \<le> 2 * x" and "2 * x < 256 ^ n"
  shows "from_le_signed (to_le n x) = x"
proof (cases "0 \<le> x")
  case True
  with assms have "x mod 256 ^ n = x" by (simp add: mod_pos_pos_trivial)
  with assms show ?thesis by (simp add: from_le_signed_def from_le_to_le Let_def)
next
  case False
  have "x mod 256 ^ n = x + 256 ^ n"
  proof -
    have "(x + 256 ^ n) mod 256 ^ n = x + 256 ^ n"
      using assms False by (intro mod_pos_pos_trivial) auto
    then show ?thesis by simp
  qed
  with assms show ?thesis by (simp add: from_le_signed_def from_le_to_le Let_def)
qed

interpretation le_signed: codec
  "\<lambda>x. - (256 ^ n) \<le> 2 * x \<and> 2 * x < 256 ^ n" "to_le n" "\<lambda>b. Some (from_le_signed b)"
  for n :: nat
  by unfold_locales (simp add: from_le_signed_to_le)

section \<open>UTF-8\<close>

type_synonym ustr = "nat list"

text \<open>\<open>u8\<close> is a byte of a number below 256; \<open>str_of\<close> the code points of a literal.\<close>

definition u8 :: "nat \<Rightarrow> byte" where
  "u8 n = of_nat n"

definition str_of :: "string \<Rightarrow> ustr" where
  "str_of s = map of_char s"

text \<open>The code points UTF-8 can carry: everything but the surrogates.\<close>

definition scalar :: "nat \<Rightarrow> bool" where
  "scalar c \<longleftrightarrow> c < 0xD800 \<or> (0xE000 \<le> c \<and> c < 0x110000)"

definition utf8_char :: "nat \<Rightarrow> nat list" where
  "utf8_char c =
     (if c < 0x80 then [c]
      else if c < 0x800 then [0xC0 + c div 64, 0x80 + c mod 64]
      else if c < 0x10000 then [0xE0 + c div 4096, 0x80 + c div 64 mod 64, 0x80 + c mod 64]
      else [0xF0 + c div 262144, 0x80 + c div 4096 mod 64, 0x80 + c div 64 mod 64,
            0x80 + c mod 64])"

text \<open>\<open>s.encode('utf-8')\<close>; \<open>None\<close> is the \<open>UnicodeEncodeError\<close> of a lone surrogate.\<close>

definition utf8_encode :: "ustr \<Rightarrow> bytes option" where
  "utf8_encode s =
     (if list_all scalar s then Some (map u8 (concat (map utf8_char s))) else None)"

text \<open>
  \<open>b.decode('utf-8', 'replace')\<close>: each maximal prefix of an ill-formed sequence becomes
  one U+FFFD and decoding resumes at the offending byte.
\<close>

definition cont_byte :: "nat \<Rightarrow> bool" where
  "cont_byte b \<longleftrightarrow> 0x80 \<le> b \<and> b < 0xC0"

definition second_of_3 :: "nat \<Rightarrow> nat \<Rightarrow> bool" where
  "second_of_3 a b \<longleftrightarrow> (if a = 0xE0 then 0xA0 \<le> b \<and> b < 0xC0
     else if a = 0xED then 0x80 \<le> b \<and> b < 0xA0 else cont_byte b)"

definition second_of_4 :: "nat \<Rightarrow> nat \<Rightarrow> bool" where
  "second_of_4 a b \<longleftrightarrow> (if a = 0xF0 then 0x90 \<le> b \<and> b < 0xC0
     else if a = 0xF4 then 0x80 \<le> b \<and> b < 0x90 else cont_byte b)"

fun utf8_scan :: "nat list \<Rightarrow> ustr" where
  "utf8_scan [] = []"
| "utf8_scan (a # xs) =
     (if a < 0x80 then a # utf8_scan xs
      else if 0xC2 \<le> a \<and> a < 0xE0 then
        (case xs of
           b # ys \<Rightarrow>
             if cont_byte b then ((a - 0xC0) * 64 + (b - 0x80)) # utf8_scan ys
             else 0xFFFD # utf8_scan (b # ys)
         | [] \<Rightarrow> [0xFFFD])
      else if 0xE0 \<le> a \<and> a < 0xF0 then
        (case xs of
           [] \<Rightarrow> [0xFFFD]
         | [b] \<Rightarrow> if second_of_3 a b then [0xFFFD] else 0xFFFD # utf8_scan [b]
         | b # c # ys \<Rightarrow>
             if \<not> second_of_3 a b then 0xFFFD # utf8_scan (b # c # ys)
             else if cont_byte c
             then ((a - 0xE0) * 4096 + (b - 0x80) * 64 + (c - 0x80)) # utf8_scan ys
             else 0xFFFD # utf8_scan (c # ys))
      else if 0xF0 \<le> a \<and> a < 0xF5 then
        (case xs of
           [] \<Rightarrow> [0xFFFD]
         | [b] \<Rightarrow> if second_of_4 a b then [0xFFFD] else 0xFFFD # utf8_scan [b]
         | [b, c] \<Rightarrow>
             if \<not> second_of_4 a b then 0xFFFD # utf8_scan [b, c]
             else if cont_byte c then [0xFFFD] else 0xFFFD # utf8_scan [c]
         | b # c # d # ys \<Rightarrow>
             if \<not> second_of_4 a b then 0xFFFD # utf8_scan (b # c # d # ys)
             else if \<not> cont_byte c then 0xFFFD # utf8_scan (c # d # ys)
             else if cont_byte d
             then ((a - 0xF0) * 262144 + (b - 0x80) * 4096 + (c - 0x80) * 64 + (d - 0x80))
                  # utf8_scan ys
             else 0xFFFD # utf8_scan (d # ys))
      else 0xFFFD # utf8_scan xs)"

definition utf8_decode_replace :: "bytes \<Rightarrow> ustr" where
  "utf8_decode_replace b = utf8_scan (map unat b)"

text \<open>The characters \<open>str.splitlines\<close> ends a line at.\<close>

definition line_break :: "nat \<Rightarrow> bool" where
  "line_break c \<longleftrightarrow> (10 \<le> c \<and> c \<le> 13) \<or> (28 \<le> c \<and> c \<le> 30) \<or> c = 0x85 \<or> c = 0x2028 \<or> c = 0x2029"

fun splitlines :: "ustr \<Rightarrow> ustr list" where
  "splitlines [] = []"
| "splitlines [c] = (if line_break c then [[]] else [[c]])"
| "splitlines (c # d # cs) =
     (if c = 13 \<and> d = 10 then [] # splitlines cs
      else if line_break c then [] # splitlines (d # cs)
      else (case splitlines (d # cs) of [] \<Rightarrow> [[c]] | l # ls \<Rightarrow> (c # l) # ls))"

text \<open>The digits of a code point in base 64, which UTF-8 writes.\<close>

lemma div_digit: "c div 4096 = c div 64 div 64" "c div 262144 = c div 64 div 64 div 64"
  for c :: nat
  by (simp_all add: div_mult2_eq [symmetric])

lemma digit_sum: "q div 64 * 64 + q mod 64 = q" for q :: nat
  by simp

lemma utf8_char_bound: "scalar c \<Longrightarrow> b \<in> set (utf8_char c) \<Longrightarrow> b < 256"
proof -
  assume sc: "scalar c" and b: "b \<in> set (utf8_char c)"
  have m: "q mod 64 < 64" for q :: nat by simp
  have "c < 0x800 \<Longrightarrow> c div 64 < 32" "c < 0x10000 \<Longrightarrow> c div 4096 < 16"
    "c < 0x110000 \<Longrightarrow> c div 262144 < 5"
    by (simp_all add: less_mult_imp_div_less)
  moreover have "c < 0x110000" using sc by (auto simp: scalar_def)
  ultimately show "b < 256"
    using b m [of c] m [of "c div 64"] m [of "c div 4096"]
    by (auto simp: utf8_char_def split: if_splits)
qed

lemma utf8_scan_char:
  assumes "scalar c"
  shows "utf8_scan (utf8_char c @ xs) = c # utf8_scan xs"
proof -
  define q where "q = c div 64"
  have c: "q * 64 + c mod 64 = c" by (simp add: q_def)
  consider (one) "c < 0x80" | (two) "0x80 \<le> c" "c < 0x800"
    | (three) "0x800 \<le> c" "c < 0x10000" | (four) "0x10000 \<le> c" "c < 0x110000"
    using assms by (force simp: scalar_def)
  then show ?thesis
  proof cases
    case one
    then show ?thesis by (simp add: utf8_char_def)
  next
    case two
    have "2 \<le> q" "q < 32"
      using two div_le_mono [of 128 c 64] by (simp_all add: q_def less_mult_imp_div_less)
    then show ?thesis using two c by (simp add: utf8_char_def cont_byte_def flip: q_def)
  next
    case three
    let ?a = "q div 64" and ?b = "q mod 64"
    have q: "32 \<le> q" "q < 1024"
      using three div_le_mono [of 2048 c 64] by (simp_all add: q_def less_mult_imp_div_less)
    have sur: "q < 864 \<or> 896 \<le> q"
      using assms div_le_mono [of 57344 c 64] three
      by (auto simp: scalar_def q_def less_mult_imp_div_less)
    have a: "?a < 16" using q by simp
    have s: "?a * 64 + ?b = q" by (rule digit_sum)
    have b: "second_of_3 (0xE0 + ?a) (0x80 + ?b)"
      using q s sur unfolding second_of_3_def cont_byte_def by (auto; linarith)
    have "?a * 4096 + ?b * 64 + c mod 64 = c" using s c by linarith
    then show ?thesis
      using three a b by (simp add: utf8_char_def cont_byte_def div_digit flip: q_def)
  next
    case four
    define r where "r = q div 64"
    let ?a = "r div 64" and ?b = "r mod 64"
    have q: "1024 \<le> q" "q < 17408"
      using four div_le_mono [of 65536 c 64] by (simp_all add: q_def less_mult_imp_div_less)
    have r: "16 \<le> r" "r < 272"
      using q div_le_mono [of 1024 q 64] by (simp_all add: r_def less_mult_imp_div_less)
    have a: "?a < 5" using r by simp
    have s: "?a * 64 + ?b = r" "r * 64 + q mod 64 = q" by (simp_all add: r_def)
    have b: "second_of_4 (0xF0 + ?a) (0x80 + ?b)"
      using r s unfolding second_of_4_def cont_byte_def by (auto; linarith)
    have "?a * 262144 + ?b * 4096 + q mod 64 * 64 + c mod 64 = c" using s c by linarith
    then show ?thesis
      using four a b
      by (simp add: utf8_char_def cont_byte_def div_digit flip: q_def r_def)
  qed
qed

lemma utf8_roundtrip:
  assumes "utf8_encode s = Some b"
  shows "utf8_decode_replace b = s"
proof -
  from assms have s: "list_all scalar s" and b: "b = map u8 (concat (map utf8_char s))"
    by (auto simp: utf8_encode_def split: if_splits)
  have "\<forall>x \<in> set (concat (map utf8_char s)). x < 256"
    using s by (auto simp: list_all_iff dest: utf8_char_bound)
  then have "map unat b = concat (map utf8_char s)"
    unfolding b list.map_comp by (intro map_idI) (auto simp: u8_def unat_of_nat)
  moreover have "utf8_scan (concat (map utf8_char s)) = s"
    using s by (induction s) (simp_all add: utf8_scan_char)
  ultimately show ?thesis by (simp add: utf8_decode_replace_def)
qed

lemma utf8_ascii: "list_all (\<lambda>c. c < 128) s \<Longrightarrow> utf8_encode s = Some (map u8 s)"
proof -
  assume a: "list_all (\<lambda>c. c < 128) s"
  then have "list_all scalar s" by (auto simp: list_all_iff scalar_def)
  moreover have "concat (map utf8_char s) = s" using a by (induction s) (simp_all add: utf8_char_def)
  ultimately show ?thesis by (simp add: utf8_encode_def)
qed

text \<open>The bytes of a text, and those below 128 among them.\<close>

definition utf8_bytes :: "ustr \<Rightarrow> bytes" where
  "utf8_bytes s = map u8 (concat (map utf8_char s))"

lemma utf8_bytes_simps [simp]:
  "utf8_bytes [] = []" "utf8_bytes (a @ b) = utf8_bytes a @ utf8_bytes b"
  by (simp_all add: utf8_bytes_def)

lemma utf8_bytes_newline [simp]: "utf8_bytes [10] = [10]"
  by (simp add: utf8_bytes_def utf8_char_def u8_def)

lemma utf8_encode_bytes: "utf8_encode s = Some b \<longleftrightarrow> list_all scalar s \<and> b = utf8_bytes s"
  by (auto simp: utf8_encode_def utf8_bytes_def)

lemma utf8_char_high: "b \<in> set (utf8_char c) \<Longrightarrow> b = c \<or> 128 \<le> b"
  by (auto simp: utf8_char_def split: if_splits)

lemma utf8_bytes_below:
  assumes "list_all scalar l" and "w \<in> set (utf8_bytes l)" and "unat w < 128"
  shows "unat w \<in> set l"
proof -
  from assms(2) obtain c b where c: "c \<in> set l" and b: "b \<in> set (utf8_char c)" and w: "w = u8 b"
    by (auto simp: utf8_bytes_def)
  have "b < 256" using assms(1) c b utf8_char_bound by (auto simp: list_all_iff)
  then have "unat w = b" using w by (simp add: u8_def unat_of_nat)
  then show ?thesis using utf8_char_high [OF b] assms(3) c by auto
qed

text \<open>
  \<open>b.decode('utf-8')\<close>: strict, so it succeeds on exactly the bytes that encode a text,
  which are the bytes that decoding and encoding give back.
\<close>

definition utf8_decode_strict :: "bytes \<Rightarrow> ustr option" where
  "utf8_decode_strict b =
     (let s = utf8_decode_replace b in if utf8_encode s = Some b then Some s else None)"

lemma utf8_decode_strict_encode: "utf8_encode s = Some b \<Longrightarrow> utf8_decode_strict b = Some s"
  by (simp add: utf8_decode_strict_def Let_def utf8_roundtrip)

lemma utf8_decode_strict_only: "utf8_decode_strict b = Some s \<Longrightarrow> utf8_encode s = Some b"
  by (simp add: utf8_decode_strict_def Let_def split: if_splits)

lemma splitlines_nonempty: "splitlines (d # cs) \<noteq> []"
  by (cases cs) (auto split: list.splits)

text \<open>The three ways a text of two characters or more is split.\<close>

lemma splitlines_cases:
  obtains "c = 13" "d = 10" "splitlines (c # d # cs) = [] # splitlines cs"
  | "c \<noteq> 13 \<or> d \<noteq> 10" "line_break c" "splitlines (c # d # cs) = [] # splitlines (d # cs)"
  | l ls where "\<not> line_break c" "splitlines (d # cs) = l # ls" "splitlines (c # d # cs) = (c # l) # ls"
proof -
  have br: "line_break 13" by (simp add: line_break_def)
  show ?thesis
  proof (cases "c = 13 \<and> d = 10")
    case True
    show ?thesis by (rule that(1)) (use True in auto)
  next
    case False
    show ?thesis
    proof (cases "line_break c")
      case True
      show ?thesis by (rule that(2)) (use False True in auto)
    next
      case l: False
      obtain x xs where "splitlines (d # cs) = x # xs"
        using splitlines_nonempty [of d cs] by (cases "splitlines (d # cs)") auto
      then show ?thesis by (intro that(3) [of x xs]) (use False l in auto)
    qed
  qed
qed

lemma splitlines_clean: "\<forall>l\<in>set (splitlines s). \<forall>c\<in>set l. \<not> line_break c"
proof (induction s rule: length_induct)
  case (1 s)
  show ?case
  proof (cases s rule: splitlines.cases)
    case (3 a d cs)
    have ih: "\<forall>l\<in>set (splitlines cs). \<forall>c\<in>set l. \<not> line_break c"
      "\<forall>l\<in>set (splitlines (d # cs)). \<forall>c\<in>set l. \<not> line_break c"
      using 1 [rule_format, of cs] 1 [rule_format, of "d # cs"] unfolding 3 by auto
    show ?thesis unfolding 3
      by (cases rule: splitlines_cases [of a d cs]) (use ih in \<open>simp_all del: splitlines.simps\<close>)
  qed simp_all
qed

lemma splitlines_join:
  "\<forall>c\<in>set s. line_break c \<longrightarrow> c = 10 \<Longrightarrow> s = [] \<or> last s \<noteq> 10 \<Longrightarrow> join [10] (splitlines s) = s"
proof (induction s rule: length_induct)
  case (1 s)
  show ?case
  proof (cases s rule: splitlines.cases)
    case (3 c d cs)
    have ih: "join [10] (splitlines (d # cs)) = d # cs"
      using 1(1) [rule_format, of "d # cs"] 1(2,3) unfolding 3 by (simp del: splitlines.simps)
    have br: "line_break c \<Longrightarrow> c = 10" using 1(2) unfolding 3 by simp
    then have c13: "c \<noteq> 13" by (auto simp: line_break_def)
    show ?thesis unfolding 3
    proof (cases rule: splitlines_cases [of c d cs])
      case 1
      with c13 show "join [10] (splitlines (c # d # cs)) = c # d # cs" by simp
    next
      case 2
      then have "c = 10" using br by blast
      with 2(3) ih splitlines_nonempty [of d cs] show "join [10] (splitlines (c # d # cs)) = c # d # cs"
        by (simp add: join_Cons del: splitlines.simps)
    next
      case (3 l ls)
      with ih show "join [10] (splitlines (c # d # cs)) = c # d # cs"
        by (cases ls) (simp_all del: splitlines.simps)
    qed
  qed (use 1 in \<open>auto simp: line_break_def\<close>)
qed

interpretation utf8: codec
  "\<lambda>s. list_all scalar s" "\<lambda>s. the (utf8_encode s)" "\<lambda>b. Some (utf8_decode_replace b)"
  by unfold_locales (simp add: utf8_roundtrip utf8_encode_def)

end
