(* ===== verification/Py_Numbers.thy ===== *)
theory Py_Numbers
  imports Py_Text
begin

text \<open>
  Numbers as text, the way the modelled code reads and writes them: \<open>'%d'\<close> and \<open>str(n)\<close>,
  \<open>int(s)\<close>, and the \<open>strip\<close>, \<open>lower\<close> and \<open>replace\<close> of Latin-1 strings.
\<close>

section \<open>Strings\<close>

text \<open>White space as \<open>str.strip\<close> and \<open>int\<close> take it, in Latin-1.\<close>

definition py_space :: "char \<Rightarrow> bool" where
  "py_space c \<longleftrightarrow> (let n = of_char c :: nat in
     (9 \<le> n \<and> n \<le> 13) \<or> (28 \<le> n \<and> n \<le> 32) \<or> n = 0x85 \<or> n = 0xA0)"

definition py_strip :: "string \<Rightarrow> string" where
  "py_strip s = rev (dropWhile py_space (rev (dropWhile py_space s)))"

text \<open>\<open>s.lower()\<close> on Latin-1.\<close>

definition lower_char :: "char \<Rightarrow> char" where
  "lower_char c = (let n = of_char c :: nat in
     if (65 \<le> n \<and> n \<le> 90) \<or> (192 \<le> n \<and> n \<le> 222 \<and> n \<noteq> 215) then char_of (n + 32) else c)"

definition py_lower :: "string \<Rightarrow> string" where
  "py_lower s = map lower_char s"

text \<open>\<open>s.replace(a, b)\<close> for two characters, and \<open>s.startswith(p)\<close>, \<open>s.endswith(p)\<close>.\<close>

definition replace_char :: "char \<Rightarrow> char \<Rightarrow> string \<Rightarrow> string" where
  "replace_char a b s = map (\<lambda>c. if c = a then b else c) s"

definition starts_with :: "'a list \<Rightarrow> 'a list \<Rightarrow> bool" where
  "starts_with p s \<longleftrightarrow> take (length p) s = p"

definition ends_with :: "'a list \<Rightarrow> 'a list \<Rightarrow> bool" where
  "ends_with p s \<longleftrightarrow> starts_with (rev p) (rev s)"

text \<open>\<open>needle in s\<close>, and \<open>s.partition(sep)\<close> (\<open>None\<close> where the separator is not there).\<close>

fun contains :: "'a list \<Rightarrow> 'a list \<Rightarrow> bool" where
  "contains p [] = (p = [])"
| "contains p (x # xs) = (starts_with p (x # xs) \<or> contains p xs)"

fun cut_at :: "'a list \<Rightarrow> 'a list \<Rightarrow> ('a list \<times> 'a list) option" where
  "cut_at sep [] = (if sep = [] then Some ([], []) else None)"
| "cut_at sep (x # xs) =
     (if starts_with sep (x # xs) then Some ([], drop (length sep) (x # xs))
      else (case cut_at sep xs of None \<Rightarrow> None | Some (a, b) \<Rightarrow> Some (x # a, b)))"

lemma starts_with_append [simp]: "starts_with p (p @ s)"
  by (simp add: starts_with_def)

lemma starts_with_iff: "starts_with p s \<longleftrightarrow> (\<exists>t. s = p @ t)"
  by (auto simp: starts_with_def) (metis append_take_drop_id)

lemma ends_with_iff: "ends_with p s \<longleftrightarrow> (\<exists>t. s = t @ p)"
  unfolding ends_with_def starts_with_iff by (metis rev_append rev_rev_ident)

lemma cut_at_join: "cut_at sep s = Some (a, b) \<Longrightarrow> s = a @ sep @ b"
proof (induction s arbitrary: a)
  case (Cons x xs)
  then show ?case
    by (auto simp: starts_with_iff split: if_splits option.splits)
qed (auto split: if_splits)

lemma contains_iff: "contains p s \<longleftrightarrow> (\<exists>a b. s = a @ p @ b)"
proof (induction s)
  case (Cons x xs)
  have "(\<exists>a b. x # xs = a @ p @ b) \<longleftrightarrow> starts_with p (x # xs) \<or> (\<exists>a b. xs = a @ p @ b)"
    by (auto simp: starts_with_iff Cons_eq_append_conv) 
  then show ?case using Cons by simp
qed auto

lemma contains_cut_at: "contains p s \<longleftrightarrow> cut_at p s \<noteq> None"
  by (induction s) (auto split: option.split)

section \<open>Decimal numbers\<close>

fun show_nat :: "nat \<Rightarrow> string" where
  "show_nat n = (if n < 10 then [char_of (48 + n)]
                 else show_nat (n div 10) @ [char_of (48 + n mod 10)])"

declare show_nat.simps [simp del]

definition show_int :: "int \<Rightarrow> string" where
  "show_int i = (if i < 0 then CHR ''-'' # show_nat (nat (- i)) else show_nat (nat i))"

definition digit_val :: "char \<Rightarrow> int option" where
  "digit_val c = (let n = of_char c :: nat in if 48 \<le> n \<and> n \<le> 57 then Some (int n - 48) else None)"

fun digits_val :: "int \<Rightarrow> string \<Rightarrow> int option" where
  "digits_val acc [] = Some acc"
| "digits_val acc (c # cs) =
     (if c = CHR ''_'' then
        (case cs of [] \<Rightarrow> None
         | d # ds \<Rightarrow> (case digit_val d of None \<Rightarrow> None | Some v \<Rightarrow> digits_val (10 * acc + v) ds))
      else (case digit_val c of None \<Rightarrow> None | Some v \<Rightarrow> digits_val (10 * acc + v) cs))"

text \<open>
  \<open>int(s)\<close>: blanks around, a sign, digits with single underscores between them; \<open>None\<close> is
  the \<open>ValueError\<close>. (Of the digits Python accepts, Latin-1 has the ASCII ones.)
\<close>

definition py_int :: "string \<Rightarrow> int option" where
  "py_int s =
     (let t = py_strip s;
          (sign, u) = (case t of [] \<Rightarrow> (1, [])
             | c # cs \<Rightarrow> if c = CHR ''-'' then (-1, cs) else if c = CHR ''+'' then (1, cs) else (1, t))
      in case u of [] \<Rightarrow> None
         | c # cs \<Rightarrow> (case digit_val c of None \<Rightarrow> None
              | Some v \<Rightarrow> map_option (\<lambda>n. sign * n) (digits_val v cs)))"

text \<open>\<open>s.isdigit()\<close>, for the ASCII digits.\<close>

definition is_digits :: "string \<Rightarrow> bool" where
  "is_digits s \<longleftrightarrow> s \<noteq> [] \<and> list_all (\<lambda>c. digit_val c \<noteq> None) s"

lemma of_char_digit: "n < 10 \<Longrightarrow> of_char (char_of (48 + n :: nat) :: char) = (48 + n :: nat)"
  by simp

lemma digit_val_digit: "n < 10 \<Longrightarrow> digit_val (char_of (48 + n)) = Some (int n)"
  by (simp add: digit_val_def Let_def)

lemma digit_not_sign: "n < 10 \<Longrightarrow> (char_of (48 + n :: nat) :: char) \<notin> {CHR ''_'', CHR ''-'', CHR ''+''}"
  by (auto dest!: arg_cong [where f = "of_char :: char \<Rightarrow> nat"])

lemma digit_not_space: "n < 10 \<Longrightarrow> \<not> py_space (char_of (48 + n :: nat))"
  by (simp add: py_space_def Let_def)

text \<open>The digits of a number are digits, the first of them there, and they read back.\<close>

definition digit_char :: "char \<Rightarrow> bool" where
  "digit_char c \<longleftrightarrow> (\<exists>n<10. c = char_of (48 + n :: nat))"

lemma show_nat_digits: "list_all digit_char (show_nat n) \<and> show_nat n \<noteq> []"
proof (induction n rule: show_nat.induct)
  case (1 n)
  then show ?case
    by (cases "n < 10") (auto simp: show_nat.simps [of n] digit_char_def intro: exI [of _ "n mod 10"])
qed

lemma digit_char_facts:
  assumes "digit_char c"
  shows "c \<noteq> CHR ''_''" "c \<noteq> CHR ''-''" "c \<noteq> CHR ''+''" "\<not> py_space c" "\<exists>v. digit_val c = Some v"
  using assms digit_not_sign digit_not_space digit_val_digit by (auto simp: digit_char_def)

lemma digits_val_snoc:
  "list_all digit_char cs \<Longrightarrow> n < 10 \<Longrightarrow>
    digits_val acc (cs @ [char_of (48 + n)]) = map_option (\<lambda>m. 10 * m + int n) (digits_val acc cs)"
proof (induction cs arbitrary: acc)
  case (Cons c cs)
  then show ?case using digit_char_facts [of c] by auto
next
  case Nil
  then show ?case using digit_not_sign digit_val_digit by auto
qed

lemma show_nat_reads:
  "\<exists>c cs v. show_nat n = c # cs \<and> digit_val c = Some v \<and> digits_val v cs = Some (int n)"
proof (induction n rule: show_nat.induct)
  case (1 n)
  show ?case
  proof (cases "n < 10")
    case True
    then show ?thesis by (simp add: show_nat.simps [of n] digit_val_digit)
  next
    case False
    from 1 [OF False] obtain c cs v where
      h: "show_nat (n div 10) = c # cs" "digit_val c = Some v" "digits_val v cs = Some (int (n div 10))"
      by blast
    have "list_all digit_char cs" using show_nat_digits [of "n div 10"] h(1) by simp
    moreover have "10 * int (n div 10) + int (n mod 10) = int n"
      unfolding of_nat_div of_nat_mod by simp
    ultimately have "digits_val v (cs @ [char_of (48 + n mod 10)]) = Some (int n)"
      using digits_val_snoc [of cs "n mod 10" v] h(3) by simp
    then show ?thesis using h False by (simp add: show_nat.simps [of n])
  qed
qed

lemma dropWhile_none: "list_all (\<lambda>c. \<not> P c) s \<Longrightarrow> dropWhile P s = s"
  by (cases s) auto

lemma py_strip_same: "list_all (\<lambda>c. \<not> py_space c) s \<Longrightarrow> py_strip s = s"
proof -
  assume a: "list_all (\<lambda>c. \<not> py_space c) s"
  then have "list_all (\<lambda>c. \<not> py_space c) (rev s)" by (simp add: list_all_iff)
  then show ?thesis using a by (simp add: py_strip_def dropWhile_none)
qed

lemma show_nat_no_space: "list_all (\<lambda>c. \<not> py_space c) (show_nat n)"
  using show_nat_digits [of n] digit_char_facts(4) by (auto simp: list_all_iff)

lemma py_int_show_int [simp]: "py_int (show_int i) = Some i"
proof -
  obtain c cs v where h: "show_nat (nat \<bar>i\<bar>) = c # cs" "digit_val c = Some v"
    "digits_val v cs = Some \<bar>i\<bar>"
    using show_nat_reads [of "nat \<bar>i\<bar>"] by auto
  have c: "c \<noteq> CHR ''-''" "c \<noteq> CHR ''+''" and sp: "list_all (\<lambda>c. \<not> py_space c) (c # cs)"
    using show_nat_digits [of "nat \<bar>i\<bar>"] show_nat_no_space [of "nat \<bar>i\<bar>"] h(1)
      digit_char_facts(2,3) by simp_all
  have m: "\<not> py_space (CHR ''-'')" by (simp add: py_space_def)
  show ?thesis
  proof (cases "i < 0")
    case True
    then have "show_int i = CHR ''-'' # c # cs" using h(1) by (simp add: show_int_def)
    moreover have "py_strip (CHR ''-'' # c # cs) = CHR ''-'' # c # cs"
      by (rule py_strip_same) (use m sp in simp)
    ultimately show ?thesis using h True by (simp add: py_int_def Let_def)
  next
    case False
    then have "show_int i = c # cs" using h(1) by (simp add: show_int_def)
    then show ?thesis using h c py_strip_same [OF sp] False by (simp add: py_int_def Let_def)
  qed
qed

interpretation decimal: codec "\<lambda>_. True" show_int py_int
  by unfold_locales simp

end
