(* ===== verification/Bus_Subs.thy ===== *)
theory Bus_Subs
  imports Py_Numbers
begin

text \<open>
  The pub/sub object an ASGI application finds at \<open>scope['state']['m0']\<close>
  (class \<open>_M0Broadcast\<close> in m0_shim.py) and \<open>_m0_dispatch\<close>, which fans a bus frame out
  to this loop's subscriptions. \<open>_m0_subs\<close> maps a channel to the set of the
  subscribers' bounded \<open>asyncio.Queue\<close>s; the set is a list without duplicates, and the
  queues live in a store, since a subscriber keeps its queue after it leaves the set.
\<close>

type_synonym qid = nat

record subq =
  q_max :: int
  q_items :: "(int \<times> bytes) list"

record bus =
  m0_subs :: "ustr \<rightharpoonup> qid list"
  sub_queues :: "qid \<rightharpoonup> subq"

datatype bus_error = ValueError string | UnicodeEncodeError | UnicodeDecodeError

text \<open>A channel or payload argument: \<open>str\<close> or \<open>bytes\<close>.\<close>

datatype str_or_bytes = PyStr ustr | PyBytes bytes

definition as_bytes :: "str_or_bytes \<Rightarrow> bytes option" where
  "as_bytes a = (case a of PyStr s \<Rightarrow> utf8_encode s | PyBytes b \<Rightarrow> Some b)"

section \<open>The bus from the environment\<close>

text \<open>
  \<open>_M0Broadcast.__init__\<close>: the worker channels' descriptors from \<open>M0_BUS_WRITE_FDS\<close>
  (\<open>None\<close> where one is not a number, which raises out of it), and \<open>active\<close>.
\<close>

definition parse_fds :: "string \<Rightarrow> int list option" where
  "parse_fds env =
     those (map py_int (filter (\<lambda>x. py_strip x \<noteq> []) (split_on (CHR '','') env)))"

definition bus_active :: "int list \<Rightarrow> bool" where
  "bus_active fds \<longleftrightarrow> fds \<noteq> []"

section \<open>Publishing\<close>

definition MAX_FRAME :: nat where "MAX_FRAME = 65536"

text \<open>\<open>struct.pack('<qH', event_id, len(channel)) + channel + payload\<close>.\<close>

definition pack_frame :: "int \<Rightarrow> bytes \<Rightarrow> bytes \<Rightarrow> bytes" where
  "pack_frame event_id url frame =
     to_le 8 event_id @ to_le 2 (int (length url)) @ url @ frame"

text \<open>
  \<open>m0_shared_fetch_add\<close> is C: \<open>fetch_add\<close> is the value it returns, with the counter
  after it. \<open>None\<close> stands for an object with no shared counter (\<open>_next_id is None\<close>).
\<close>

definition take_id :: "int option \<Rightarrow> int \<times> int option" where
  "take_id ctr = (case ctr of None \<Rightarrow> (-1, None) | Some n \<Rightarrow> (n + 1, Some (n + 1)))"

text \<open>
  \<open>_M0Broadcast.publish\<close>: what it returns or raises, the counter after it (an id taken
  for a frame that turns out too large is spent), and the datagrams written, one per
  worker channel in \<open>_fds\<close> (a write that fails is dropped, so what is listed is what
  was attempted).
\<close>

definition m0_publish ::
    "nat list \<Rightarrow> int option \<Rightarrow> str_or_bytes \<Rightarrow> str_or_bytes
      \<Rightarrow> (bus_error + int) \<times> int option \<times> (nat \<times> bytes) list" where
  "m0_publish fds ctr channel payload =
     (case as_bytes channel of None \<Rightarrow> (Inl UnicodeEncodeError, ctr, [])
      | Some url \<Rightarrow>
        (case as_bytes payload of None \<Rightarrow> (Inl UnicodeEncodeError, ctr, [])
         | Some data \<Rightarrow>
           if take 1 url = [1] \<or> length url > 65535 then (Inr (-1), ctr, [])
           else
             let (event_id, ctr') = take_id ctr;
                 frame = pack_frame event_id url data
             in if length frame > MAX_FRAME
                then (Inl (ValueError ''m0 publish frame exceeds 65536 bytes''), ctr', [])
                else (Inr event_id, ctr', map (\<lambda>fd. (fd, frame)) fds)))"

section \<open>Subscribing and dispatch\<close>

text \<open>\<open>_M0Broadcast.subscribe\<close>: a fresh queue \<open>q\<close> joins the channel's set.\<close>

definition m0_subscribe :: "qid \<Rightarrow> str_or_bytes \<Rightarrow> int \<Rightarrow> bus \<Rightarrow> bus_error + bus" where
  "m0_subscribe q channel max_queue b =
     (case (case channel of PyStr s \<Rightarrow> Some s | PyBytes d \<Rightarrow> utf8_decode_strict d) of
        None \<Rightarrow> Inl UnicodeDecodeError
      | Some ch \<Rightarrow>
          if take 1 ch = [1]
          then Inl (ValueError ''m0 subscribe channel may not begin with 0x01 (reserved for internal control frames)'')
          else Inr (b\<lparr>m0_subs := (m0_subs b)(ch \<mapsto> getd (m0_subs b) ch [] @ [q]),
                      sub_queues := (sub_queues b)(q \<mapsto> \<lparr>q_max = max_queue, q_items = []\<rparr>)\<rparr>))"

text \<open>\<open>_Sub.aclose\<close>: leave the set; the last one out removes the channel.\<close>

definition m0_unsubscribe :: "qid \<Rightarrow> ustr \<Rightarrow> bus \<Rightarrow> bus" where
  "m0_unsubscribe q ch b =
     (case m0_subs b ch of None \<Rightarrow> b
      | Some qs \<Rightarrow>
          let qs' = removeAll q qs
          in b\<lparr>m0_subs := (m0_subs b)(ch := (if qs' = [] then None else Some qs'))\<rparr>)"

text \<open>\<open>asyncio.Queue.full\<close>; a bound of zero or less is no bound.\<close>

definition q_full :: "subq \<Rightarrow> bool" where
  "q_full q \<longleftrightarrow> 0 < q_max q \<and> q_max q \<le> int (length (q_items q))"

text \<open>One subscriber's share of a frame: drop the oldest when full, then put.\<close>

definition deliver :: "int \<times> bytes \<Rightarrow> subq \<Rightarrow> subq" where
  "deliver m q =
     (let q1 = (if q_full q then q\<lparr>q_items := tl (q_items q)\<rparr> else q)
      in if q_full q1 then q1 else q1\<lparr>q_items := q_items q1 @ [m]\<rparr>)"

fun deliver_all :: "int \<times> bytes \<Rightarrow> qid list \<Rightarrow> (qid \<rightharpoonup> subq) \<Rightarrow> (qid \<rightharpoonup> subq)" where
  "deliver_all m [] qs = qs"
| "deliver_all m (i # is) qs = deliver_all m is (qs(i := map_option (deliver m) (qs i)))"

definition m0_dispatch :: "int \<Rightarrow> ustr \<Rightarrow> bytes \<Rightarrow> bus \<Rightarrow> bus" where
  "m0_dispatch event_id url frame b =
     (case m0_subs b url of None \<Rightarrow> b
      | Some qs \<Rightarrow> b\<lparr>sub_queues := deliver_all (event_id, frame) qs (sub_queues b)\<rparr>)"

section \<open>A slow consumer keeps the newest frames\<close>

lemma deliver_items:
  assumes "0 < q_max q" and "int (length (q_items q)) \<le> q_max q"
  shows "q_items (deliver m q) =
      drop (length (q_items q) + 1 - nat (q_max q)) (q_items q @ [m])"
    and "q_max (deliver m q) = q_max q"
proof -
  show "q_items (deliver m q) =
      drop (length (q_items q) + 1 - nat (q_max q)) (q_items q @ [m])"
  proof (cases "q_full q")
    case True
    with assms have len: "length (q_items q) = nat (q_max q)" by (auto simp: q_full_def)
    with assms(1) obtain x xs where xs: "q_items q = x # xs" by (cases "q_items q") auto
    with len assms True show ?thesis by (auto simp: deliver_def q_full_def Let_def)
  next
    case False
    with assms show ?thesis by (auto simp: deliver_def q_full_def Let_def)
  qed
  show "q_max (deliver m q) = q_max q" by (simp add: deliver_def Let_def)
qed

lemma deliver_bounded:
  "0 < q_max q \<Longrightarrow> int (length (q_items q)) \<le> q_max q \<Longrightarrow>
    int (length (q_items (deliver m q))) \<le> q_max (deliver m q)"
  by (auto simp: deliver_items)

lemma fold_deliver:
  assumes "0 < q_max q" and "int (length (q_items q)) \<le> q_max q"
  shows "q_items (fold deliver ms q) =
      drop (length (q_items q) + length ms - nat (q_max q)) (q_items q @ ms)"
  using assms
proof (induction ms arbitrary: q)
  case (Cons m ms)
  let ?q = "deliver m q"
  have b: "int (length (q_items ?q)) \<le> q_max ?q" and p: "0 < q_max ?q"
    using deliver_bounded [OF Cons.prems] deliver_items(2) [OF Cons.prems] Cons.prems by auto
  have "q_items (fold deliver ms ?q) =
      drop (length (q_items ?q) + length ms - nat (q_max q)) (q_items ?q @ ms)"
    using Cons.IH [OF p b] deliver_items(2) [OF Cons.prems] by simp
  then show ?case
    using Cons.prems deliver_items [OF Cons.prems, of m]
    by (simp add: drop_append) (cases "length (q_items q) + 1 \<le> nat (q_max q)"; simp add: nat_le_iff add.commute)
qed simp

lemma deliver_all_other: "i \<notin> set is \<Longrightarrow> deliver_all m is qs i = qs i"
  by (induction "is" arbitrary: qs) auto

lemma deliver_all_in:
  "distinct is \<Longrightarrow> i \<in> set is \<Longrightarrow> deliver_all m is qs i = map_option (deliver m) (qs i)"
  by (induction "is" arbitrary: qs) (auto simp: deliver_all_other)

end
