(* ===== verification/Exec_State.thy ===== *)
theory Exec_State
  imports Credit_Windows Bus_Subs
begin

text \<open>
  The state of one ASGI executor (m0_shim.py, "the executor mode"): the module globals of
  one bridge namespace, owned by one thread, and the asyncio objects they refer to. The
  globals that are dictionaries keyed by slot are maps; an \<open>asyncio\<close> object (a task, an
  event, a future, a queue) is a number into a store, because the code keeps references
  to such objects across the slot's reuse and the difference is what its rules are about.

  A coroutine that is suspended at an \<open>await\<close> is a \<open>frame\<close> with what it waits for, in
  \<open>parked\<close>. Nothing else runs while the code between two awaits does, so each such
  segment is one function on the state.
\<close>

type_synonym tid = nat
type_synonym eid = nat
type_synonym fid = nat
type_synonym header = "bytes \<times> bytes"

section \<open>Exceptions and the log text\<close>

datatype exn_kind = CancelledError | ClientDisconnected | RuntimeError | KeyError | OtherError

record exn =
  ex_kind :: exn_kind
  ex_name :: string
  ex_text :: string

definition runtime_error :: "string \<Rightarrow> exn" where
  "runtime_error m = \<lparr>ex_kind = RuntimeError, ex_name = ''RuntimeError'', ex_text = m\<rparr>"

definition client_disconnected :: exn where
  "client_disconnected =
     \<lparr>ex_kind = ClientDisconnected, ex_name = ''ClientDisconnected'', ex_text = ''''\<rparr>"

definition key_error :: exn where
  "key_error = \<lparr>ex_kind = KeyError, ex_name = ''KeyError'', ex_text = ''slot''\<rparr>"

definition NL :: char where "NL = CHR 0x0A"

text \<open>
  \<open>_describe\<close>, from the exception and what \<open>traceback.format_exception\<close> and
  \<open>format_exception_only\<close> render for it: the summary once, at the top, then the
  traceback without the summary it ends with, its notes kept. (\<open>format_exception_only\<close>
  renders at least one line.)
\<close>

definition describe :: "exn \<Rightarrow> string list \<Rightarrow> string list \<Rightarrow> string" where
  "describe e formatted only =
     (let head = ex_name e @ '': '' @ ex_text e;
          lines = split_on NL (rstrip_of NL (concat formatted));
          summary = split_on NL (rstrip_of NL (case only of [] \<Rightarrow> [] | s # _ \<Rightarrow> s));
          notes = sum_list (map (\<lambda>item. length (split_on NL (rstrip_of NL item))) (tl only));
          k = length lines - notes;
          cut = (if notes \<le> length lines \<and> length summary \<le> k \<and>
                    take (length summary) (drop (k - length summary) lines) = summary
                 then take (k - length summary) lines @ drop k lines
                 else lines)
      in head @ [NL] @ join [NL] cut)"

section \<open>Events handed to the port\<close>

datatype ev =
    EvJob int
  | EvDone slot int "header list option" bytes
  | EvErr slot string
  | EvStreamStart slot int "header list option" bytes
  | EvStreamChunk slot bytes
  | EvStreamEnd slot
  | EvStreamAbort slot
  | EvStreamNote slot string
  | EvLog int string
  | EvWsAccept slot
  | EvWsReject slot
  | EvWsSend slot nat bytes
  | EvWsClose slot int
  | EvWsAck slot int

section \<open>Messages\<close>

text \<open>
  What the application passes to \<open>send\<close>, by its \<open>type\<close>; \<open>None\<close> is a key the
  application left out (or gave as \<open>None\<close>, for a body). Any other type is ignored.
\<close>

datatype asgi_msg =
    HttpResponseStart "int option" "header list option"
  | HttpResponseBody "bytes option" "bool option"
  | WebsocketAccept
  | WebsocketSend "bytes option" "ustr option"
  | WebsocketClose "int option"
  | OtherMessage string

text \<open>What \<open>receive\<close> answers.\<close>

datatype recv_msg =
    HttpRequest bytes
  | HttpDisconnect
  | WsConnect
  | WsText ustr
  | WsBytes bytes
  | WsDisconnect int

section \<open>Tasks, requests, sockets\<close>

datatype outcome =
    Returned "(int \<times> header list option \<times> bytes) option"
  | Raised exn
  | WasCancelled

text \<open>
  A task of this loop: the slot its done-callback closes over, whether that callback is
  \<open>_Cycle.done\<close> or the one of \<open>_task_done\<close>, the three marks the shim stores on the task
  object, whether \<open>cancel()\<close> has been called, and its result once it is done.
\<close>

record task =
  t_slot :: slot
  t_is_cycle :: bool
  m0_disconnected :: bool
  m0_streaming :: bool
  m0_ws :: bool
  t_cancel :: bool
  t_outcome :: "outcome option"

text \<open>
  class \<open>_Cycle\<close>, field by field. A cycle is named by its own task's number: \<open>spawn\<close> and
  \<open>run\<close> both set \<open>self.task\<close> before the application can call anything.
\<close>

record cycle =
  c_slot :: slot
  c_body :: bytes
  c_delivered :: bool
  c_status :: "int option"
  c_headers :: "header list option"
  c_chunks :: "bytes list"
  c_total :: nat
  c_streaming :: bool
  c_aborted :: bool
  c_completed :: bool
  c_head :: bool

text \<open>The cells of one \<open>_serve_one_ws\<close> call, which belong to the socket, not to its slot.\<close>

record sock =
  s_slot :: slot
  s_inbox :: qid
  s_connected :: bool
  s_resolved :: bool
  s_consumed :: int
  s_ended :: "recv_msg option"
  s_accepted :: bool
  s_closed :: bool

section \<open>Suspended coroutines\<close>

text \<open>Where a credit wait stands: before the slot is read, in its loop, or in the global one.\<close>

datatype wait_pc = AtTop | AtSlotCredit eid | AtGlobalCredit

datatype frame =
    FEmit tid wait_pc "bytes list" "bytes list" bool
    \<comment> \<open>\<open>_emit\<close>: pieces of the current data, data still to emit, final body\<close>
  | FEmitDropped tid "bytes list" bool
    \<comment> \<open>in \<open>_dropped()\<close> inside \<open>_emit\<close>, with the data still to emit\<close>
  | FDropped
    \<comment> \<open>in \<open>_dropped()\<close> at the top of \<open>send\<close>\<close>
  | FHttpReceive tid
  | FWsReceive tid
  | FWsSend tid wait_pc nat bytes
  | FWsClose tid wait_pc int

datatype wait = ForYield | ForEvent eid | ForFuture fid | ForQueue qid

text \<open>How a segment of a coroutine ends.\<close>

datatype answer = NoneValue | Message recv_msg

datatype seg = Ret answer | Throw exn | Park frame wait

datatype callback = RunFlush | RunFinishAndStop | RunDrainAndStop | RunTaskDone tid

text \<open>
  Where the shutdown drain stands (\<open>_finish_and_stop\<close>, or \<open>_drain_and_stop\<close> when the
  first component is true): stepping the port's drain, in one of the three bounded waits
  of \<open>_gather_in_flight\<close> on a set of tasks, in its last \<open>sleep(0)\<close>, or over.
\<close>

datatype drain_pc =
    DrainIdle
  | DrainStepping
  | DrainWaitAll bool "tid set"
  | DrainWaitRest bool "tid set"
  | DrainWaitCancelled bool "tid set"
  | DrainLast bool
  | DrainOver

section \<open>The namespace\<close>

record loop_objects = win +
  evt_flag :: "eid \<Rightarrow> bool"
  fut_done :: "fid \<Rightarrow> bool"
  inboxes :: "qid \<Rightarrow> (recv_msg \<times> int) list"
  parked :: "nat \<rightharpoonup> frame \<times> wait \<times> bool"
  soon :: "callback list"
  later_stop :: "tid list"
  fresh :: nat

record port_state = loop_objects +
  dispatched :: "ev list"
  flush_armed :: bool
  draining :: bool
  closed :: bool
  start_drain :: bool
  port_stops :: "ev list \<Rightarrow> bool"
  flush_stops :: "ev list \<Rightarrow> bool"

record xst = port_state +
  credit_evts :: "slot \<rightharpoonup> eid"
  disconnects :: "slot \<rightharpoonup> fid"
  stream_tasks :: "slot \<rightharpoonup> tid"
  slot_task :: "slot \<rightharpoonup> tid"
  ws_inbox :: "slot \<rightharpoonup> qid"
  exec_tasks :: "tid set"
  global_evt :: "eid option"
  task_of :: "tid \<rightharpoonup> task"
  cycle_of :: "tid \<rightharpoonup> cycle"
  sock_of :: "tid \<rightharpoonup> sock"
  bus_of :: bus
  sub_reading :: bool
  ack_reading :: bool
  drain_at :: drain_pc
  tb_format :: "exn \<Rightarrow> string list"
  tb_only :: "exn \<Rightarrow> string list"

text \<open>
  The module as first executed, and the port the Mojo side sets (\<open>set_port\<close>): \<open>dispatch\<close>
  and \<open>flush\<close> answer whether the server is stopping, after the events so far.
\<close>

definition fresh_namespace ::
    "(ev list \<Rightarrow> bool) \<Rightarrow> (ev list \<Rightarrow> bool) \<Rightarrow> (exn \<Rightarrow> string list) \<Rightarrow> (exn \<Rightarrow> string list) \<Rightarrow> xst" where
  "fresh_namespace stops fstops fmt only =
     \<lparr>credits = Map.empty, global_credit = ASGI_TOTAL_WINDOW, inflight = Map.empty,
      evt_flag = (\<lambda>_. False), fut_done = (\<lambda>_. False), inboxes = (\<lambda>_. []),
      parked = Map.empty, soon = [], later_stop = [], fresh = 0,
      dispatched = [], flush_armed = False, draining = False, closed = False,
      start_drain = False, port_stops = stops, flush_stops = fstops,
      credit_evts = Map.empty, disconnects = Map.empty, stream_tasks = Map.empty,
      slot_task = Map.empty, ws_inbox = Map.empty, exec_tasks = {}, global_evt = None,
      task_of = Map.empty, cycle_of = Map.empty, sock_of = Map.empty,
      bus_of = \<lparr>m0_subs = Map.empty, sub_queues = Map.empty\<rparr>,
      sub_reading = False, ack_reading = False, drain_at = DrainIdle, tb_format = fmt, tb_only = only\<rparr>"

section \<open>Asyncio primitives\<close>

definition new_id :: "('a loop_objects_scheme) \<Rightarrow> nat \<times> ('a loop_objects_scheme)" where
  "new_id st = (fresh st, st\<lparr>fresh := Suc (fresh st)\<rparr>)"

text \<open>\<open>asyncio.Event()\<close>: a new event starts cleared.\<close>

definition new_event :: "('a loop_objects_scheme) \<Rightarrow> eid \<times> ('a loop_objects_scheme)" where
  "new_event st = (fresh st, st\<lparr>fresh := Suc (fresh st), evt_flag := (evt_flag st)(fresh st := False)\<rparr>)"

text \<open>\<open>Event.set()\<close> wakes every coroutine waiting on it, \<open>Event.clear()\<close> wakes none.\<close>

definition wake :: "(wait \<Rightarrow> bool) \<Rightarrow> (nat \<rightharpoonup> frame \<times> wait \<times> bool) \<Rightarrow> (nat \<rightharpoonup> frame \<times> wait \<times> bool)" where
  "wake p m = (\<lambda>i. map_option (\<lambda>(f, w, woken). (f, w, woken \<or> p w)) (m i))"

definition set_event :: "eid \<Rightarrow> ('a loop_objects_scheme) \<Rightarrow> 'a loop_objects_scheme" where
  "set_event e st = st\<lparr>evt_flag := (evt_flag st)(e := True),
                      parked := wake (\<lambda>w. w = ForEvent e) (parked st)\<rparr>"

definition clear_event :: "eid \<Rightarrow> ('a loop_objects_scheme) \<Rightarrow> 'a loop_objects_scheme" where
  "clear_event e st = st\<lparr>evt_flag := (evt_flag st)(e := False)\<rparr>"

definition resolve_future :: "fid \<Rightarrow> ('a loop_objects_scheme) \<Rightarrow> 'a loop_objects_scheme" where
  "resolve_future f st = st\<lparr>fut_done := (fut_done st)(f := True),
                           parked := wake (\<lambda>w. w = ForFuture f) (parked st)\<rparr>"

definition queue_put :: "qid \<Rightarrow> recv_msg \<times> int \<Rightarrow> ('a loop_objects_scheme) \<Rightarrow> 'a loop_objects_scheme" where
  "queue_put q m st = st\<lparr>inboxes := (inboxes st)(q := inboxes st q @ [m]),
                        parked := wake (\<lambda>w. w = ForQueue q) (parked st)\<rparr>"

definition call_soon :: "callback \<Rightarrow> ('a loop_objects_scheme) \<Rightarrow> 'a loop_objects_scheme" where
  "call_soon c st = st\<lparr>soon := soon st @ [c]\<rparr>"

definition set_global_evt :: "xst \<Rightarrow> xst" where
  "set_global_evt st = (case global_evt st of None \<Rightarrow> st | Some e \<Rightarrow> set_event e st)"

definition upd_task :: "tid \<Rightarrow> (task \<Rightarrow> task) \<Rightarrow> xst \<Rightarrow> xst" where
  "upd_task t f st = st\<lparr>task_of := (task_of st)(t := map_option f (task_of st t))\<rparr>"

definition upd_cycle :: "tid \<Rightarrow> (cycle \<Rightarrow> cycle) \<Rightarrow> xst \<Rightarrow> xst" where
  "upd_cycle c f st = st\<lparr>cycle_of := (cycle_of st)(c := map_option f (cycle_of st c))\<rparr>"

definition upd_sock :: "tid \<Rightarrow> (sock \<Rightarrow> sock) \<Rightarrow> xst \<Rightarrow> xst" where
  "upd_sock t f st = st\<lparr>sock_of := (sock_of st)(t := map_option f (sock_of st t))\<rparr>"

definition task_done :: "xst \<Rightarrow> tid \<Rightarrow> bool" where
  "task_done st t = (case task_of st t of None \<Rightarrow> True | Some k \<Rightarrow> t_outcome k \<noteq> None)"

text \<open>\<open>Task.cancel()\<close> on a task that is not done asks it to stop; what the application
  does with the request is the application's.\<close>

definition cancel_task :: "tid \<Rightarrow> xst \<Rightarrow> xst" where
  "cancel_task t st = (if task_done st t then st else upd_task t (\<lambda>k. k\<lparr>t_cancel := True\<rparr>) st)"

end
