(* ===== verification/Exec_Core.thy ===== *)
theory Exec_Core
  imports Exec_State
begin

text \<open>
  The executor's shared operations (m0_shim.py): the event port (\<open>_exec_put\<close>,
  \<open>_flush\<close>), the ownership test \<open>_task_gone\<close>, the loop's notifications about a slot
  (\<open>_exec_on_disconnect\<close>, \<open>_exec_on_ws_message\<close>, the acks of \<open>_on_ack\<close>), the
  slot's clean-up, and the datagrams of the submit and ack channels, parsed as
  \<open>_on_submit\<close> and \<open>_on_ack\<close> parse them.
\<close>

section \<open>The port\<close>

text \<open>
  \<open>_exec_put\<close>: dispatch, arm one flush per loop iteration, and start the drain on the
  dispatch that says the server is stopping. Once \<open>_exec_closed\<close> is set the port is
  gone and the event is dropped.
\<close>

definition arm_flush :: "xst \<Rightarrow> xst" where
  "arm_flush st = (if flush_armed st then st else call_soon RunFlush (st\<lparr>flush_armed := True\<rparr>))"

definition exec_put :: "ev \<Rightarrow> xst \<Rightarrow> xst" where
  "exec_put e st =
     (if closed st then st
      else
        let st1 = st\<lparr>dispatched := dispatched st @ [e]\<rparr>;
            st2 = arm_flush st1
        in if port_stops st (dispatched st1) \<and> \<not> draining st2
           then call_soon RunFinishAndStop (st2\<lparr>draining := True\<rparr>)
           else st2)"

text \<open>\<open>_start_drain\<close> of \<open>run_forever_inverted\<close>, where one is installed.\<close>

definition start_drain_op :: "xst \<Rightarrow> xst" where
  "start_drain_op st =
     (if draining st then st else call_soon RunDrainAndStop (st\<lparr>draining := True\<rparr>))"

definition flush_op :: "xst \<Rightarrow> xst" where
  "flush_op st =
     (let st1 = st\<lparr>flush_armed := False\<rparr>
      in if closed st1 then st1
         else if flush_stops st1 (dispatched st1) \<and> \<not> draining st1 \<and> start_drain st1
         then start_drain_op st1 else st1)"

section \<open>Who has gone\<close>

text \<open>
  \<open>_task_gone(owner)\<close>: stamped by the disconnect tag, or finished. A number that names
  no task is no live connection.
\<close>

definition task_gone :: "xst \<Rightarrow> tid \<Rightarrow> bool" where
  "task_gone st t = (case task_of st t of None \<Rightarrow> True
     | Some k \<Rightarrow> m0_disconnected k \<or> t_outcome k \<noteq> None)"

section \<open>Notifications about a slot\<close>

text \<open>\<open>stranded = _exec_inflight.pop(slot, 0)\<close> and the wake-up that goes with it.\<close>

definition release_slot :: "slot \<Rightarrow> xst \<Rightarrow> xst" where
  "release_slot slot st =
     (let (stranded, st1) = release slot st
      in if stranded \<noteq> 0 then set_global_evt st1 else st1)"

definition mark_owner_gone :: "slot \<Rightarrow> xst \<Rightarrow> xst" where
  "mark_owner_gone slot st = (case slot_task st slot of None \<Rightarrow> st
     | Some t \<Rightarrow> upd_task t (\<lambda>k. k\<lparr>m0_disconnected := True\<rparr>) st)"

definition resolve_disconnect :: "slot \<Rightarrow> xst \<Rightarrow> xst" where
  "resolve_disconnect slot st = (case disconnects st slot of None \<Rightarrow> st
     | Some f \<Rightarrow> if fut_done st f then st else resolve_future f st)"

definition wake_slot :: "slot \<Rightarrow> xst \<Rightarrow> xst" where
  "wake_slot slot st = (case credit_evts st slot of None \<Rightarrow> st | Some e \<Rightarrow> set_event e st)"

definition tell_inbox :: "slot \<Rightarrow> int \<Rightarrow> xst \<Rightarrow> xst" where
  "tell_inbox slot code st = (case ws_inbox st slot of None \<Rightarrow> st
     | Some q \<Rightarrow> queue_put q (WsDisconnect (if code \<noteq> 0 then code else 1006), 0) st)"

definition cancel_stream :: "slot \<Rightarrow> xst \<Rightarrow> xst" where
  "cancel_stream slot st = (case stream_tasks st slot of None \<Rightarrow> st
     | Some t \<Rightarrow> cancel_task t st)"

definition exec_on_disconnect :: "slot \<Rightarrow> int \<Rightarrow> xst \<Rightarrow> xst" where
  "exec_on_disconnect slot code st =
     cancel_stream slot (wake_slot slot (tell_inbox slot code
       (resolve_disconnect slot (release_slot slot (mark_owner_gone slot st)))))"

definition WS_TAG_HEADER :: nat where "WS_TAG_HEADER = 10"
definition WS_IN_WINDOW :: int where "WS_IN_WINDOW = 65536"

definition exec_on_ws_message :: "slot \<Rightarrow> nat \<Rightarrow> bytes \<Rightarrow> xst \<Rightarrow> xst" where
  "exec_on_ws_message slot opcode payload st =
     (case ws_inbox st slot of None \<Rightarrow> st
      | Some q \<Rightarrow>
          let n = int WS_TAG_HEADER + int (length payload);
              cost = (if n > WS_IN_WINDOW then WS_IN_WINDOW else n);
              msg = (if opcode = 1 then WsText (utf8_decode_replace payload) else WsBytes payload)
          in queue_put q (msg, cost) st)"

text \<open>\<open>_exec_cleanup_slot\<close>.\<close>

definition exec_cleanup_slot :: "slot \<Rightarrow> xst \<Rightarrow> xst" where
  "exec_cleanup_slot slot st =
     (let st1 = release_slot slot st
      in st1\<lparr>credits := (credits st1)(slot := None),
             credit_evts := (credit_evts st1)(slot := None),
             disconnects := (disconnects st1)(slot := None),
             stream_tasks := (stream_tasks st1)(slot := None),
             ws_inbox := (ws_inbox st1)(slot := None)\<rparr>)"

text \<open>The body of \<open>_on_ack\<close> for one ack of \<open>n\<close> bytes.\<close>

definition exec_on_ack :: "slot \<Rightarrow> int \<Rightarrow> xst \<Rightarrow> xst" where
  "exec_on_ack slot n st =
     (let st1 = (case credits st slot of None \<Rightarrow> st
                 | Some _ \<Rightarrow> wake_slot slot (ack_credit slot n st));
          (refund, st2) = ack_refund slot n st1
      in if refund \<noteq> 0 then set_global_evt st2 else st2)"

section \<open>The two channels\<close>

text \<open>
  The kinds of submit datagram, as \<open>_on_submit\<close> tells them apart, in its order: a job,
  a batch of jobs, a disconnect (with a close code or without), a WebSocket message, a
  bus frame; anything else ends the reader as the channel's end does.
\<close>

datatype submit =
    SubJob int
  | SubBatch "int list"
  | SubDisconnect slot int
  | SubWsMessage slot nat bytes
  | SubBusFrame int ustr bytes
  | SubUnknown

fun slots_of :: "bytes \<Rightarrow> int list" where
  "slots_of [] = []"
| "slots_of b = from_le_signed (take 8 b) # slots_of (drop 8 b)"

definition TAG_DISCONNECT :: byte where "TAG_DISCONNECT = 1"
definition TAG_WS_MESSAGE :: byte where "TAG_WS_MESSAGE = 2"
definition TAG_BUS_FRAME :: byte where "TAG_BUS_FRAME = 3"
definition TAG_JOB_BATCH :: byte where "TAG_JOB_BATCH = 4"

lemmas tag_defs = TAG_DISCONNECT_def TAG_WS_MESSAGE_def TAG_BUS_FRAME_def TAG_JOB_BATCH_def

definition field :: "nat \<Rightarrow> nat \<Rightarrow> bytes \<Rightarrow> bytes" where
  "field i j b = drop i (take j b)"

definition parse_submit :: "bytes \<Rightarrow> submit" where
  "parse_submit d =
     (if length d = 8 then SubJob (from_le_signed d)
      else if 9 \<le> length d \<and> d ! 0 = TAG_JOB_BATCH \<and> (length d - 1) mod 8 = 0
      then SubBatch (slots_of (drop 1 d))
      else if (length d = 9 \<or> length d = 11) \<and> d ! 0 = TAG_DISCONNECT
      then SubDisconnect (from_le_signed (field 1 9 d))
             (if length d = 11 then from_le (field 9 11 d) else 0)
      else if WS_TAG_HEADER \<le> length d \<and> d ! 0 = TAG_WS_MESSAGE
      then SubWsMessage (from_le_signed (field 1 9 d)) (unat (d ! 9)) (drop WS_TAG_HEADER d)
      else if 11 \<le> length d \<and> d ! 0 = TAG_BUS_FRAME
      then let ulen = nat (from_le (field 9 11 d))
           in SubBusFrame (from_le_signed (field 1 9 d))
                (utf8_decode_replace (field 11 (11 + ulen) d)) (drop (11 + ulen) d)
      else SubUnknown)"

definition put_jobs :: "int list \<Rightarrow> xst \<Rightarrow> xst" where
  "put_jobs js st = fold (\<lambda>j. exec_put (EvJob j)) js st"

text \<open>One datagram read by \<open>_on_submit\<close>; \<open>None\<close> is an \<open>OSError\<close> from the read.\<close>

definition on_submit :: "bytes option \<Rightarrow> xst \<Rightarrow> xst" where
  "on_submit d st =
     (case d of None \<Rightarrow> exec_put (EvJob (-1)) (st\<lparr>sub_reading := False\<rparr>)
      | Some d \<Rightarrow>
        (case parse_submit d of
           SubJob j \<Rightarrow> exec_put (EvJob j) st
         | SubBatch js \<Rightarrow> put_jobs js st
         | SubDisconnect slot code \<Rightarrow> exec_on_disconnect slot code st
         | SubWsMessage slot opcode payload \<Rightarrow> exec_on_ws_message slot opcode payload st
         | SubBusFrame eid url frame \<Rightarrow> st\<lparr>bus_of := m0_dispatch eid url frame (bus_of st)\<rparr>
         | SubUnknown \<Rightarrow> exec_put (EvJob (-1)) (st\<lparr>sub_reading := False\<rparr>)))"

text \<open>
  \<open>_on_submit\<close> itself: every datagram the channel holds, in order, stopping where it
  removes its own reader. The list ends where the read would block.
\<close>

fun submit_reader :: "bytes option list \<Rightarrow> xst \<Rightarrow> xst" where
  "submit_reader [] st = st"
| "submit_reader (None # ds) st = on_submit None st"
| "submit_reader (Some d # ds) st =
     (if parse_submit d = SubUnknown then on_submit (Some d) st
      else submit_reader ds (on_submit (Some d) st))"

text \<open>
  \<open>_exec_on_disconnect_direct\<close>: what is on the channel is read first. (The reader is
  installed by the call that makes the shared event.)
\<close>

definition exec_on_disconnect_direct :: "bytes option list \<Rightarrow> slot \<Rightarrow> int \<Rightarrow> xst \<Rightarrow> xst" where
  "exec_on_disconnect_direct pending slot code st =
     exec_on_disconnect slot code
       (if global_evt st \<noteq> None then submit_reader pending st else st)"

text \<open>One datagram read by \<open>_on_ack\<close> (unsigned slot and count); a short one is ignored.\<close>

definition on_ack :: "bytes option \<Rightarrow> xst \<Rightarrow> xst" where
  "on_ack d st =
     (case d of None \<Rightarrow> st\<lparr>ack_reading := False\<rparr>
      | Some d \<Rightarrow> if length d < 8 then st
                  else exec_on_ack (from_le (field 0 4 d)) (from_le (field 4 8 d)) st)"

text \<open>\<open>asgi_executor_init\<close>: the shared event, and the two readers.\<close>

definition asgi_executor_init :: "bool \<Rightarrow> xst \<Rightarrow> xst" where
  "asgi_executor_init has_ack st =
     (let (e, st1) = new_event st
      in st1\<lparr>global_evt := Some e, sub_reading := True, ack_reading := has_ack\<rparr>)"

end
