(* ===== verification/Http_Cycle.thy ===== *)
theory Http_Cycle
  imports Exec_Core
begin

text \<open>
  One HTTP request on the executor (class \<open>_Cycle\<close> of m0_shim.py, with \<open>spawn\<close> and
  \<open>_on_task_done\<close>): buffered until the application sends a body with
  \<open>more_body=True\<close>, then a credit-gated producer of chunks. Each method is cut at its
  awaits: a segment is one function on the state and says whether the coroutine returned,
  raised, or is parked with a frame; \<open>resume_http\<close> continues a frame.
\<close>

definition ASGI_BUFFER_CAP :: nat where "ASGI_BUFFER_CAP = 16 * 1024 * 1024"

section \<open>Emitting data under the two windows\<close>

text \<open>
  What one piece comes to: sent, dropped (the connection has gone: a yielding no-op),
  waiting, or the \<open>KeyError\<close> of a slot that has no window.
\<close>

datatype piece_result =
    PieceSent xst
  | PieceDropped xst
  | PieceWaits xst wait wait_pc
  | PieceKeyError xst

text \<open>After both waits: ask once more, charge, and hand the chunk to the port.\<close>

definition emit_charge :: "tid \<Rightarrow> slot \<Rightarrow> bytes \<Rightarrow> xst \<Rightarrow> piece_result" where
  "emit_charge c slot p st =
     (if task_gone st c then PieceDropped st
      else (case charge slot (int (length p)) st of
              None \<Rightarrow> PieceKeyError st
            | Some st1 \<Rightarrow> PieceSent (exec_put (EvStreamChunk slot p) st1)))"

text \<open>\<open>while _exec_global_credit[0] < len(piece)\<close>, from its test on.\<close>

definition emit_global :: "tid \<Rightarrow> slot \<Rightarrow> bytes \<Rightarrow> xst \<Rightarrow> piece_result" where
  "emit_global c slot p st =
     (if global_credit st < int (length p)
      then (if task_gone st c then PieceDropped st
            else (case global_evt st of
                    None \<Rightarrow> PieceKeyError st
                  | Some e \<Rightarrow> PieceWaits (clear_event e st) (ForEvent e) AtGlobalCredit))
      else emit_charge c slot p st)"

text \<open>\<open>while _exec_credits.get(slot, 0) < len(piece)\<close>, holding the event \<open>e\<close>.\<close>

definition emit_credit :: "tid \<Rightarrow> slot \<Rightarrow> eid \<Rightarrow> bytes \<Rightarrow> xst \<Rightarrow> piece_result" where
  "emit_credit c slot e p st =
     (if getd (credits st) slot 0 < int (length p)
      then (if task_gone st c then PieceDropped st
            else PieceWaits (clear_event e st) (ForEvent e) (AtSlotCredit e))
      else emit_global c slot p st)"

definition emit_piece :: "tid \<Rightarrow> slot \<Rightarrow> wait_pc \<Rightarrow> bytes \<Rightarrow> xst \<Rightarrow> piece_result" where
  "emit_piece c slot pc p st =
     (case pc of
        AtTop \<Rightarrow>
          if task_gone st c then PieceDropped st
          else (case credit_evts st slot of
                  None \<Rightarrow> PieceKeyError st
                | Some e \<Rightarrow> emit_credit c slot e p st)
      | AtSlotCredit e \<Rightarrow> emit_credit c slot e p st
      | AtGlobalCredit \<Rightarrow> emit_global c slot p st)"

text \<open>\<open>data\<close> cut every \<open>_ASGI_CHUNK_SPLIT\<close> bytes.\<close>

function split_every :: "nat \<Rightarrow> 'a list \<Rightarrow> 'a list list" where
  "split_every n xs = (if xs = [] \<or> n = 0 then [] else take n xs # split_every n (drop n xs))"
  by pat_completeness auto
termination by (relation "measure (\<lambda>(n, xs). length xs)") auto

declare split_every.simps [simp del]

definition pieces_of :: "bytes \<Rightarrow> bytes list" where
  "pieces_of data = split_every ASGI_CHUNK_SPLIT data"

text \<open>
  The final body of a stream, after its data: end it on the wire now, and let a later
  disconnect no longer cancel the application's background work.
\<close>

definition end_stream :: "tid \<Rightarrow> slot \<Rightarrow> xst \<Rightarrow> xst" where
  "end_stream c slot st =
     (let st1 = upd_cycle c (\<lambda>y. y\<lparr>c_completed := True\<rparr>) st;
          st2 = (if stream_tasks st1 slot = Some c
                 then st1\<lparr>stream_tasks := (stream_tasks st1)(slot := None)\<rparr> else st1)
      in if task_gone st2 c then st2 else exec_put (EvStreamEnd slot) st2)"

definition after_emit :: "tid \<Rightarrow> slot \<Rightarrow> bool \<Rightarrow> xst \<Rightarrow> xst \<times> seg" where
  "after_emit c slot final st = ((if final then end_stream c slot st else st), Ret NoneValue)"

text \<open>
  The loop of \<open>_emit\<close> over the pieces of one \<open>data\<close>, then what \<open>send\<close> has left: more
  \<open>data\<close>, and the end of the stream after a final body.
\<close>

fun emit_pieces :: "tid \<Rightarrow> slot \<Rightarrow> wait_pc \<Rightarrow> bytes list \<Rightarrow> bytes list \<Rightarrow> bool \<Rightarrow> xst
    \<Rightarrow> (xst \<times> seg) + xst" where
  "emit_pieces c slot pc [] ds final st = Inr st"
| "emit_pieces c slot pc (p # ps) ds final st =
     (case emit_piece c slot pc p st of
        PieceSent st1 \<Rightarrow> emit_pieces c slot AtTop ps ds final st1
      | PieceDropped st1 \<Rightarrow> Inl (st1, Park (FEmitDropped c ds final) ForYield)
      | PieceWaits st1 w pc1 \<Rightarrow> Inl (st1, Park (FEmit c pc1 (p # ps) ds final) w)
      | PieceKeyError st1 \<Rightarrow> Inl (st1, Throw key_error))"

fun emit_all :: "tid \<Rightarrow> slot \<Rightarrow> bytes list \<Rightarrow> bool \<Rightarrow> xst \<Rightarrow> xst \<times> seg" where
  "emit_all c slot [] final st = after_emit c slot final st"
| "emit_all c slot (d # ds) final st =
     (case emit_pieces c slot AtTop (pieces_of d) ds final st of
        Inl r \<Rightarrow> r
      | Inr st1 \<Rightarrow> emit_all c slot ds final st1)"

definition emit_from :: "tid \<Rightarrow> slot \<Rightarrow> wait_pc \<Rightarrow> bytes list \<Rightarrow> bytes list \<Rightarrow> bool \<Rightarrow> xst \<Rightarrow> xst \<times> seg" where
  "emit_from c slot pc ps ds final st =
     (case emit_pieces c slot pc ps ds final st of
        Inl r \<Rightarrow> r
      | Inr st1 \<Rightarrow> emit_all c slot ds final st1)"

text \<open>
  What every step of an emission keeps, the emission keeps: one rule for all the
  invariants, from what one piece does.
\<close>

fun piece_state :: "piece_result \<Rightarrow> xst" where
  "piece_state (PieceSent st) = st"
| "piece_state (PieceDropped st) = st"
| "piece_state (PieceWaits st w pc) = st"
| "piece_state (PieceKeyError st) = st"

lemma emit_pieces_keeps:
  assumes piece: "\<And>pc p s. P s \<Longrightarrow> P (piece_state (emit_piece c slot pc p s))" and "P st"
  shows "case emit_pieces c slot pc ps ds final st of Inl r \<Rightarrow> P (fst r) | Inr s \<Rightarrow> P s"
  using assms(2)
proof (induction ps arbitrary: pc st)
  case (Cons p ps)
  from piece [OF Cons.prems, of pc p] show ?case
    using Cons.IH [of _ AtTop] by (cases "emit_piece c slot pc p st") auto
qed simp

lemma emit_all_keeps:
  assumes piece: "\<And>pc p s. P s \<Longrightarrow> P (piece_state (emit_piece c slot pc p s))"
    and fin: "\<And>s. final \<Longrightarrow> P s \<Longrightarrow> P (end_stream c slot s)" and "P st"
  shows "P (fst (emit_all c slot ds final st))"
  using assms(3)
proof (induction ds arbitrary: st)
  case Nil
  then show ?case using fin by (simp add: after_emit_def)
next
  case (Cons d ds)
  have "case emit_pieces c slot AtTop (pieces_of d) ds final st of Inl r \<Rightarrow> P (fst r) | Inr s \<Rightarrow> P s"
    by (rule emit_pieces_keeps [OF piece Cons.prems])
  then show ?case using Cons.IH by (auto split: sum.splits)
qed

lemma emit_from_keeps:
  assumes piece: "\<And>pc p s. P s \<Longrightarrow> P (piece_state (emit_piece c slot pc p s))"
    and fin: "\<And>s. final \<Longrightarrow> P s \<Longrightarrow> P (end_stream c slot s)" and "P st"
  shows "P (fst (emit_from c slot pc ps ds final st))"
proof -
  have "case emit_pieces c slot pc ps ds final st of Inl r \<Rightarrow> P (fst r) | Inr s \<Rightarrow> P s"
    by (rule emit_pieces_keeps [OF piece assms(3)])
  then show ?thesis
    using emit_all_keeps [OF piece fin] by (auto simp: emit_from_def split: sum.splits)
qed

section \<open>send\<close>

definition no_content :: "bool \<Rightarrow> int \<Rightarrow> bool" where
  "no_content head status \<longleftrightarrow> head \<or> status < 200 \<or> status \<in> {204, 304}"

text \<open>
  A first \<open>more_body=True\<close> on a response that may carry no content (a HEAD, 1xx, 204,
  304): answered now with no body.
\<close>

definition answer_head :: "tid \<Rightarrow> slot \<Rightarrow> int \<Rightarrow> header list option \<Rightarrow> xst \<Rightarrow> xst" where
  "answer_head c slot status hs st =
     (let st1 = upd_cycle c (\<lambda>y. y\<lparr>c_completed := True, c_chunks := [], c_total := 0\<rparr>) st;
          st2 = exec_put (EvDone slot status hs []) st1
      in case disconnects st2 slot of
           None \<Rightarrow> st2\<lparr>later_stop := later_stop st2 @ [c]\<rparr>
         | Some f \<Rightarrow> if fut_done st2 f then st2\<lparr>later_stop := later_stop st2 @ [c]\<rparr>
                     else resolve_future f st2)"

text \<open>The switch to streaming: marks and windows go to this request's own task and slot.\<close>

definition start_stream :: "tid \<Rightarrow> slot \<Rightarrow> int \<Rightarrow> header list option \<Rightarrow> xst \<Rightarrow> xst" where
  "start_stream c slot status hs st =
     (let st1 = upd_cycle c (\<lambda>y. y\<lparr>c_streaming := True\<rparr>) st;
          st2 = upd_task c (\<lambda>k. k\<lparr>m0_streaming := True\<rparr>) st1;
          st3 = open_window slot (st2\<lparr>stream_tasks := (stream_tasks st2)(slot \<mapsto> c)\<rparr>);
          (e, st4) = new_event st3;
          st5 = st4\<lparr>credit_evts := (credit_evts st4)(slot \<mapsto> e)\<rparr>;
          st6 = exec_put (EvStreamStart slot status hs []) st5
      in upd_cycle c (\<lambda>y. y\<lparr>c_chunks := [], c_total := 0\<rparr>) st6)"

definition nonempty :: "bytes \<Rightarrow> bytes list" where
  "nonempty b = (if b = [] then [] else [b])"

definition send_body :: "tid \<Rightarrow> cycle \<Rightarrow> bytes \<Rightarrow> bool \<Rightarrow> xst \<Rightarrow> xst \<times> seg" where
  "send_body c y chunk more_body st =
     (if c_streaming y then emit_all c (c_slot y) (nonempty chunk) (\<not> more_body) st
      else if more_body then
        (case c_status y of
           None \<Rightarrow> (st, Throw (runtime_error
             ''ASGI streamed a body chunk before http.response.start''))
         | Some status \<Rightarrow>
             if no_content (c_head y) status
             then (answer_head c (c_slot y) status (c_headers y) st, Ret NoneValue)
             else emit_all c (c_slot y) (c_chunks y @ nonempty chunk) False
                    (start_stream c (c_slot y) status (c_headers y) st))
      else
        (case c_status y of
           None \<Rightarrow> (st, Throw (runtime_error
             ''ASGI sent http.response.body before http.response.start''))
         | Some status \<Rightarrow>
             let y1 = (if chunk = [] then y
                       else y\<lparr>c_chunks := c_chunks y @ [chunk], c_total := c_total y + length chunk\<rparr>)
             in if chunk \<noteq> [] \<and> ASGI_BUFFER_CAP < c_total y1
                then (upd_cycle c (\<lambda>_. y1) st, Throw (runtime_error
                  ''ASGI response body exceeded the buffered bridge cap (16777216 bytes)''))
                else (exec_put (EvDone (c_slot y) status (c_headers y) (concat (c_chunks y1)))
                        (upd_cycle c (\<lambda>_. y1\<lparr>c_completed := True, c_chunks := []\<rparr>) st),
                      Ret NoneValue)))"

text \<open>\<open>_Cycle.send\<close>, by whichever task calls it.\<close>

definition http_send :: "tid \<Rightarrow> asgi_msg \<Rightarrow> xst \<Rightarrow> xst \<times> seg" where
  "http_send c m st =
     (case cycle_of st c of
        None \<Rightarrow> (st, Ret NoneValue)
      | Some y \<Rightarrow>
          if c_completed y \<or> task_done st c then (st, Park FDropped ForYield)
          else (case m of
              HttpResponseStart status hs \<Rightarrow>
                (upd_cycle c (\<lambda>y. y\<lparr>c_status := Some (case status of None \<Rightarrow> 500 | Some s \<Rightarrow> s),
                                   c_headers := Some (case hs of None \<Rightarrow> [] | Some h \<Rightarrow> h)\<rparr>) st,
                 Ret NoneValue)
            | HttpResponseBody body more_b \<Rightarrow>
                send_body c y (case body of None \<Rightarrow> [] | Some b \<Rightarrow> b) (more_b = Some True) st
            | _ \<Rightarrow> (st, Ret NoneValue)))"

section \<open>receive\<close>

definition http_receive :: "tid \<Rightarrow> xst \<Rightarrow> xst \<times> seg" where
  "http_receive c st =
     (case cycle_of st c of
        None \<Rightarrow> (st, Ret NoneValue)
      | Some y \<Rightarrow>
          if \<not> c_delivered y
          then (upd_cycle c (\<lambda>y. y\<lparr>c_delivered := True\<rparr>) st, Ret (Message (HttpRequest (c_body y))))
          else if c_completed y \<or> task_gone st c then (st, Ret (Message HttpDisconnect))
          else (case disconnects st (c_slot y) of
                  Some f \<Rightarrow> if fut_done st f then (st, Ret (Message HttpDisconnect))
                            else (st, Park (FHttpReceive c) (ForFuture f))
                | None \<Rightarrow>
                    let (f, st1) = new_id st
                    in (st1\<lparr>disconnects := (disconnects st1)(c_slot y \<mapsto> f),
                            fut_done := (fut_done st1)(f := False)\<rparr>,
                        Park (FHttpReceive c) (ForFuture f))))"

section \<open>Continuing a suspended call\<close>

definition slot_of_cycle :: "tid \<Rightarrow> xst \<Rightarrow> slot" where
  "slot_of_cycle c st = (case cycle_of st c of None \<Rightarrow> 0 | Some y \<Rightarrow> c_slot y)"

definition resume_http :: "frame \<Rightarrow> xst \<Rightarrow> xst \<times> seg" where
  "resume_http f st =
     (case f of
        FEmit c pc ps ds final \<Rightarrow> emit_from c (slot_of_cycle c st) pc ps ds final st
      | FEmitDropped c ds final \<Rightarrow> emit_all c (slot_of_cycle c st) ds final st
      | FHttpReceive c \<Rightarrow> (st, Ret (Message HttpDisconnect))
      | _ \<Rightarrow> (st, Ret NoneValue))"

section \<open>The request's task: spawn, run, done\<close>

definition new_cycle :: "slot \<Rightarrow> bytes \<Rightarrow> bool \<Rightarrow> cycle" where
  "new_cycle slot body head =
     \<lparr>c_slot = slot, c_body = body, c_delivered = False, c_status = None, c_headers = None,
      c_chunks = [], c_total = 0, c_streaming = False, c_aborted = False,
      c_completed = False, c_head = head\<rparr>"

definition new_task :: "slot \<Rightarrow> bool \<Rightarrow> task" where
  "new_task slot is_cycle =
     \<lparr>t_slot = slot, t_is_cycle = is_cycle, m0_disconnected = False, m0_streaming = False,
      m0_ws = False, t_cancel = False, t_outcome = None\<rparr>"

text \<open>\<open>spawn\<close>; \<open>head\<close> is the scope's \<open>method == 'HEAD'\<close>, which \<open>run\<close> reads first.\<close>

definition spawn :: "slot \<Rightarrow> bool \<Rightarrow> bytes \<Rightarrow> xst \<Rightarrow> tid \<times> xst" where
  "spawn slot head body st =
     (let st1 = st\<lparr>disconnects := (disconnects st)(slot := None),
                   stream_tasks := (stream_tasks st)(slot := None)\<rparr>;
          (t, st2) = new_id st1
      in (t, st2\<lparr>cycle_of := (cycle_of st2)(t \<mapsto> new_cycle slot body head),
                 task_of := (task_of st2)(t \<mapsto> new_task slot True),
                 exec_tasks := insert t (exec_tasks st2),
                 slot_task := (slot_task st2)(slot \<mapsto> t)\<rparr>))"

text \<open>
  \<open>run\<close> after the application has returned (\<open>None\<close>) or raised: the \<open>finally\<close> block,
  then the task's result; the done-callback is scheduled.
\<close>

definition finish_outcome :: "cycle \<Rightarrow> exn option \<Rightarrow> outcome" where
  "finish_outcome y raised =
     (case raised of
        Some e \<Rightarrow> if ex_kind e = CancelledError then WasCancelled else Raised e
      | None \<Rightarrow>
          if c_streaming y \<or> c_completed y then Returned None
          else (case c_status y of
                  None \<Rightarrow> Raised (runtime_error
                    ''ASGI application completed without sending http.response.start'')
                | Some s \<Rightarrow> Returned (Some (s, c_headers y, concat (c_chunks y)))))"

definition run_finish :: "tid \<Rightarrow> exn option \<Rightarrow> xst \<Rightarrow> xst" where
  "run_finish c raised st =
     (case cycle_of st c of
        None \<Rightarrow> st
      | Some y \<Rightarrow>
          let st1 = (if raised \<noteq> None then upd_cycle c (\<lambda>y. y\<lparr>c_aborted := True\<rparr>) st else st);
              st2 = (if c_streaming y \<and> \<not> c_completed y \<and> \<not> task_gone st1 c
                     then exec_put (if raised \<noteq> None then EvStreamAbort (c_slot y)
                                    else EvStreamEnd (c_slot y)) st1
                     else st1)
          in call_soon (RunTaskDone c)
               (upd_task c (\<lambda>k. k\<lparr>t_outcome := Some (finish_outcome y raised)\<rparr>) st2))"

definition describe_in :: "xst \<Rightarrow> exn \<Rightarrow> string" where
  "describe_in st e = describe e (tb_format st e) (tb_only st e)"

text \<open>The owner's clean-up: only while the slot is still this task's.\<close>

definition drop_ownership :: "slot \<Rightarrow> tid \<Rightarrow> xst \<Rightarrow> xst" where
  "drop_ownership slot t st =
     (let st1 = st\<lparr>exec_tasks := exec_tasks st - {t}\<rparr>
      in if slot_task st1 slot = Some t
         then exec_cleanup_slot slot (st1\<lparr>slot_task := (slot_task st1)(slot := None)\<rparr>)
         else st1)"

definition on_task_done :: "slot \<Rightarrow> tid \<Rightarrow> xst \<Rightarrow> xst" where
  "on_task_done slot t st =
     (case task_of st t of
        None \<Rightarrow> st
      | Some k \<Rightarrow>
          let st1 = drop_ownership slot t st
          in if m0_streaming k
             then (case t_outcome k of
                     Some (Raised e) \<Rightarrow>
                       if ex_kind e \<noteq> ClientDisconnected
                       then exec_put (EvStreamNote slot (describe_in st e)) st1 else st1
                   | _ \<Rightarrow> st1)
             else (case t_outcome k of
                     Some WasCancelled \<Rightarrow> exec_put (EvErr slot ''cancelled'') st1
                   | Some (Raised e) \<Rightarrow> exec_put (EvErr slot (describe_in st e)) st1
                   | Some (Returned (Some (s, hs, b))) \<Rightarrow> exec_put (EvDone slot s hs b) st1
                   | _ \<Rightarrow> st1))"

text \<open>\<open>_Cycle.done\<close>.\<close>

definition cycle_done :: "tid \<Rightarrow> xst \<Rightarrow> xst" where
  "cycle_done t st =
     (case (cycle_of st t, task_of st t) of
        (Some y, Some k) \<Rightarrow>
          if \<not> c_completed y then on_task_done (c_slot y) t st
          else
            let st1 = drop_ownership (c_slot y) t st
            in (case t_outcome k of
                  Some (Raised e) \<Rightarrow>
                    if ex_kind e \<noteq> ClientDisconnected
                    then exec_put (EvLog (c_slot y)
                           (''request raised after its response: '' @ describe_in st e)) st1
                    else st1
                | _ \<Rightarrow> st1)
      | _ \<Rightarrow> st)"

text \<open>\<open>_stop_unheard\<close>, the timer a HEAD answered early leaves behind.\<close>

definition stop_unheard :: "tid \<Rightarrow> xst \<Rightarrow> xst" where
  "stop_unheard c st = cancel_task c (st\<lparr>later_stop := remove1 c (later_stop st)\<rparr>)"

end
