(* ===== verification/Ws_Socket.thy ===== *)
theory Ws_Socket
  imports Http_Cycle
begin

text \<open>
  One WebSocket on the executor (\<open>_serve_one_ws\<close>, \<open>_ws_spend\<close>, \<open>spawn_ws\<close> of
  m0_shim.py). The handshake's 101 is held by the loop until the application accepts;
  frames go out under the same two credit windows as a stream's chunks, and inbound
  messages are acked as the application consumes them.
\<close>

section \<open>Outbound credit\<close>

text \<open>The bytes the loop queues for a message: a header of 2, 4 or 10 and the payload.\<close>

definition ws_frame_bytes :: "nat \<Rightarrow> nat" where
  "ws_frame_bytes n = (if n \<le> 125 then n + 2 else if n \<le> 0xFFFF then n + 4 else n + 10)"

datatype spend_result =
    Spent xst
  | SpendGone xst
  | SpendWaits xst wait wait_pc
  | SpendKeyError xst

text \<open>A message larger than the window is charged the whole window.\<close>

definition ws_cost :: "nat \<Rightarrow> int" where
  "ws_cost nbytes = (if ASGI_CREDIT_WINDOW < int nbytes then ASGI_CREDIT_WINDOW else int nbytes)"

definition spend_charge :: "slot \<Rightarrow> tid \<Rightarrow> int \<Rightarrow> xst \<Rightarrow> spend_result" where
  "spend_charge slot owner n st =
     (if task_gone st owner then SpendGone st
      else (case charge slot n st of None \<Rightarrow> SpendKeyError st | Some st1 \<Rightarrow> Spent st1))"

definition spend_global :: "slot \<Rightarrow> tid \<Rightarrow> int \<Rightarrow> xst \<Rightarrow> spend_result" where
  "spend_global slot owner n st =
     (if global_credit st < n
      then (if task_gone st owner then SpendGone st
            else (case global_evt st of
                    None \<Rightarrow> SpendKeyError st
                  | Some e \<Rightarrow> SpendWaits (clear_event e st) (ForEvent e) AtGlobalCredit))
      else spend_charge slot owner n st)"

definition spend_credit :: "slot \<Rightarrow> tid \<Rightarrow> eid \<Rightarrow> int \<Rightarrow> xst \<Rightarrow> spend_result" where
  "spend_credit slot owner e n st =
     (if getd (credits st) slot 0 < n
      then (if task_gone st owner then SpendGone st
            else SpendWaits (clear_event e st) (ForEvent e) (AtSlotCredit e))
      else spend_global slot owner n st)"

text \<open>\<open>_ws_spend\<close>, from the top or from one of its waits.\<close>

definition ws_spend :: "slot \<Rightarrow> tid \<Rightarrow> wait_pc \<Rightarrow> nat \<Rightarrow> xst \<Rightarrow> spend_result" where
  "ws_spend slot owner pc nbytes st =
     (case pc of
        AtTop \<Rightarrow> (case credit_evts st slot of
            None \<Rightarrow> Spent st
          | Some e \<Rightarrow> spend_credit slot owner e (ws_cost nbytes) st)
      | AtSlotCredit e \<Rightarrow> spend_credit slot owner e (ws_cost nbytes) st
      | AtGlobalCredit \<Rightarrow> spend_global slot owner (ws_cost nbytes) st)"

section \<open>send\<close>

definition unicode_error :: exn where
  "unicode_error = \<lparr>ex_kind = OtherError, ex_name = ''UnicodeEncodeError'', ex_text = ''utf-8''\<rparr>"

definition msg_type :: "asgi_msg \<Rightarrow> string" where
  "msg_type m = (case m of
      HttpResponseStart _ _ \<Rightarrow> ''http.response.start''
    | HttpResponseBody _ _ \<Rightarrow> ''http.response.body''
    | WebsocketAccept \<Rightarrow> ''websocket.accept''
    | WebsocketSend _ _ \<Rightarrow> ''websocket.send''
    | WebsocketClose _ \<Rightarrow> ''websocket.close''
    | OtherMessage t \<Rightarrow> t)"

definition ws_put_frame :: "tid \<Rightarrow> slot \<Rightarrow> wait_pc \<Rightarrow> nat \<Rightarrow> bytes \<Rightarrow> xst \<Rightarrow> xst \<times> seg" where
  "ws_put_frame t slot pc opcode payload st =
     (case ws_spend slot t pc (ws_frame_bytes (length payload)) st of
        Spent st1 \<Rightarrow>
          if task_gone st1 t then (st1, Throw client_disconnected)
          else (exec_put (EvWsSend slot opcode payload) st1, Ret NoneValue)
      | SpendGone st1 \<Rightarrow> (st1, Throw client_disconnected)
      | SpendWaits st1 w pc1 \<Rightarrow> (st1, Park (FWsSend t pc1 opcode payload) w)
      | SpendKeyError st1 \<Rightarrow> (st1, Throw key_error))"

text \<open>The close frame; a client that goes meanwhile makes it a no-op.\<close>

definition ws_put_close :: "tid \<Rightarrow> slot \<Rightarrow> wait_pc \<Rightarrow> int \<Rightarrow> xst \<Rightarrow> xst \<times> seg" where
  "ws_put_close t slot pc code st =
     (case ws_spend slot t pc (ws_frame_bytes 2) st of
        Spent st1 \<Rightarrow>
          if task_gone st1 t then (st1, Ret NoneValue)
          else (exec_put (EvWsClose slot code) st1, Ret NoneValue)
      | SpendGone st1 \<Rightarrow> (st1, Ret NoneValue)
      | SpendWaits st1 w pc1 \<Rightarrow> (st1, Park (FWsClose t pc1 code) w)
      | SpendKeyError st1 \<Rightarrow> (st1, Throw key_error))"

definition ws_accept :: "tid \<Rightarrow> slot \<Rightarrow> xst \<Rightarrow> xst" where
  "ws_accept t slot st =
     (let st1 = open_window slot (upd_sock t (\<lambda>s. s\<lparr>s_accepted := True\<rparr>) st);
          (e, st2) = new_event st1;
          st3 = upd_sock t (\<lambda>s. s\<lparr>s_resolved := True\<rparr>)
                  (st2\<lparr>credit_evts := (credit_evts st2)(slot \<mapsto> e)\<rparr>)
      in exec_put (EvWsAccept slot) st3)"

definition ws_close :: "tid \<Rightarrow> sock \<Rightarrow> int \<Rightarrow> xst \<Rightarrow> xst \<times> seg" where
  "ws_close t s code st =
     (let st1 = upd_sock t (\<lambda>s. s\<lparr>s_closed := True,
                  s_ended := (if s_ended s = None then Some (WsDisconnect code) else s_ended s)\<rparr>) st
      in if s_accepted s then ws_put_close t (s_slot s) AtTop code st1
         else (exec_put (EvWsReject (s_slot s)) (upd_sock t (\<lambda>s. s\<lparr>s_resolved := True\<rparr>) st1),
               Ret NoneValue))"

definition ws_send :: "tid \<Rightarrow> asgi_msg \<Rightarrow> xst \<Rightarrow> xst \<times> seg" where
  "ws_send t m st =
     (case sock_of st t of
        None \<Rightarrow> (st, Ret NoneValue)
      | Some s \<Rightarrow>
          if task_gone st t
          then (case m of WebsocketClose _ \<Rightarrow> (st, Ret NoneValue)
                        | _ \<Rightarrow> (st, Throw client_disconnected))
          else if s_closed s
          then (case m of WebsocketClose _ \<Rightarrow> (st, Ret NoneValue)
                | _ \<Rightarrow> (st, Throw (runtime_error
                    (''ASGI sent '' @ [CHR 0x27] @ msg_type m @ [CHR 0x27]
                     @ '' after its own websocket.close''))))
          else (case m of
              WebsocketAccept \<Rightarrow> (ws_accept t (s_slot s) st, Ret NoneValue)
            | WebsocketSend data text \<Rightarrow>
                if \<not> s_accepted s
                then (st, Throw (runtime_error ''websocket.send before websocket.accept''))
                else (case data of
                    Some b \<Rightarrow> ws_put_frame t (s_slot s) AtTop 2 b st
                  | None \<Rightarrow> (case utf8_encode (case text of None \<Rightarrow> [] | Some u \<Rightarrow> u) of
                        None \<Rightarrow> (st, Throw unicode_error)
                      | Some b \<Rightarrow> ws_put_frame t (s_slot s) AtTop 1 b st))
            | WebsocketClose code \<Rightarrow>
                ws_close t s (case code of None \<Rightarrow> 1000 | Some c \<Rightarrow> c) st
            | _ \<Rightarrow> (st, Ret NoneValue)))"

section \<open>receive\<close>

text \<open>What follows \<open>await inbox.get()\<close>.\<close>

definition ws_consume :: "tid \<Rightarrow> sock \<Rightarrow> recv_msg \<Rightarrow> int \<Rightarrow> xst \<Rightarrow> xst \<times> seg" where
  "ws_consume t s msg cost st =
     (let st1 = (case msg of
                   WsDisconnect _ \<Rightarrow> upd_sock t (\<lambda>s. s\<lparr>s_ended := Some msg\<rparr>) st
                 | _ \<Rightarrow> st);
          st2 = (if cost \<noteq> 0 \<and> \<not> task_gone st1 t
                 then exec_put (EvWsAck (s_slot s) (s_consumed s + cost))
                        (upd_sock t (\<lambda>s. s\<lparr>s_consumed := s_consumed s + cost\<rparr>) st1)
                 else st1)
      in (st2, Ret (Message msg)))"

definition ws_get :: "tid \<Rightarrow> sock \<Rightarrow> xst \<Rightarrow> xst \<times> seg" where
  "ws_get t s st =
     (case inboxes st (s_inbox s) of
        [] \<Rightarrow> (st, Park (FWsReceive t) (ForQueue (s_inbox s)))
      | (msg, cost) # rest \<Rightarrow>
          ws_consume t s msg cost (st\<lparr>inboxes := (inboxes st)(s_inbox s := rest)\<rparr>))"

definition ws_receive :: "tid \<Rightarrow> xst \<Rightarrow> xst \<times> seg" where
  "ws_receive t st =
     (case sock_of st t of
        None \<Rightarrow> (st, Ret NoneValue)
      | Some s \<Rightarrow>
          if \<not> s_connected s
          then (upd_sock t (\<lambda>s. s\<lparr>s_connected := True\<rparr>) st, Ret (Message WsConnect))
          else (case s_ended s of
                  Some m \<Rightarrow> (st, Ret (Message m))
                | None \<Rightarrow> ws_get t s st))"

definition resume_ws :: "frame \<Rightarrow> xst \<Rightarrow> xst \<times> seg" where
  "resume_ws f st =
     (case f of
        FWsReceive t \<Rightarrow> (case sock_of st t of None \<Rightarrow> (st, Ret NoneValue) | Some s \<Rightarrow> ws_get t s st)
      | FWsSend t pc opcode payload \<Rightarrow>
          (case sock_of st t of None \<Rightarrow> (st, Ret NoneValue)
           | Some s \<Rightarrow> ws_put_frame t (s_slot s) pc opcode payload st)
      | FWsClose t pc code \<Rightarrow>
          (case sock_of st t of None \<Rightarrow> (st, Ret NoneValue)
           | Some s \<Rightarrow> ws_put_close t (s_slot s) pc code st)
      | _ \<Rightarrow> (st, Ret NoneValue))"

section \<open>The socket's task\<close>

text \<open>\<open>spawn_ws\<close>: the task and its marks; the socket's cells appear with its first step.\<close>

definition spawn_ws :: "slot \<Rightarrow> xst \<Rightarrow> tid \<times> xst" where
  "spawn_ws slot st =
     (let st1 = st\<lparr>stream_tasks := (stream_tasks st)(slot := None)\<rparr>;
          (t, st2) = new_id st1
      in (t, st2\<lparr>task_of := (task_of st2)(t \<mapsto> (new_task slot False)\<lparr>m0_streaming := True, m0_ws := True\<rparr>),
                 exec_tasks := insert t (exec_tasks st2),
                 slot_task := (slot_task st2)(slot \<mapsto> t),
                 disconnects := (disconnects st2)(slot := None)\<rparr>))"

text \<open>The first step of \<open>_serve_one_ws\<close>: a fresh inbox, registered for the slot.\<close>

definition ws_start :: "tid \<Rightarrow> xst \<Rightarrow> xst" where
  "ws_start t st =
     (case (task_of st t, sock_of st t) of
        (Some k, None) \<Rightarrow>
          let (q, st1) = new_id st
          in st1\<lparr>inboxes := (inboxes st1)(q := []),
                 ws_inbox := (ws_inbox st1)(t_slot k \<mapsto> q),
                 sock_of := (sock_of st1)(t \<mapsto>
                   \<lparr>s_slot = t_slot k, s_inbox = q, s_connected = False, s_resolved = False,
                    s_consumed = 0, s_ended = None, s_accepted = False, s_closed = False\<rparr>)\<rparr>
      | _ \<Rightarrow> st)"

text \<open>The end of \<open>_serve_one_ws\<close>: its \<open>finally\<close>, then the task's result.\<close>

definition ws_failed :: "exn option \<Rightarrow> bool" where
  "ws_failed raised = (case raised of None \<Rightarrow> False
     | Some e \<Rightarrow> ex_kind e \<noteq> CancelledError \<and> ex_kind e \<noteq> ClientDisconnected)"

definition ws_outcome :: "exn option \<Rightarrow> outcome" where
  "ws_outcome raised = (case raised of None \<Rightarrow> Returned None
     | Some e \<Rightarrow> if ex_kind e = CancelledError then WasCancelled else Raised e)"

definition ws_finish :: "tid \<Rightarrow> exn option \<Rightarrow> xst \<Rightarrow> xst" where
  "ws_finish t raised st =
     (case sock_of st t of
        None \<Rightarrow> st
      | Some s \<Rightarrow>
          let st1 = (if task_gone st t then st
                     else if s_accepted s \<and> \<not> s_closed s
                     then exec_put (EvWsClose (s_slot s) (if ws_failed raised then 1011 else 1000)) st
                     else if \<not> s_resolved s then exec_put (EvWsReject (s_slot s)) st
                     else st)
          in call_soon (RunTaskDone t)
               (upd_task t (\<lambda>k. k\<lparr>t_outcome := Some (ws_outcome raised)\<rparr>) st1))"

section \<open>The socket's scope\<close>

text \<open>\<open>_ws_subprotocols\<close>: the first such header's items, stripped, empty ones dropped.\<close>

fun ws_subprotocols :: "header list \<Rightarrow> string list" where
  "ws_subprotocols [] = []"
| "ws_subprotocols ((name, val) # hs) =
     (if name = latin1 ''sec-websocket-protocol''
      then filter (\<lambda>p. p \<noteq> []) (map py_strip (split_on (CHR '','') (of_latin1 val)))
      else ws_subprotocols hs)"

record ws_scope =
  sc_root_path :: string
  sc_server :: "string \<times> int"
  sc_client :: "(string \<times> int) option"
  sc_http_version :: string
  sc_path :: ustr
  sc_raw_path :: bytes
  sc_query :: bytes
  sc_headers :: "header list"
  sc_subprotocols :: "string list"

text \<open>
  The scope \<open>spawn_ws\<close> builds. \<open>'replace'\<close> on encoding turns a code point UTF-8 cannot
  carry into \<open>?\<close>.
\<close>

definition utf8_encode_replace :: "ustr \<Rightarrow> bytes" where
  "utf8_encode_replace s = map u8 (concat (map (\<lambda>c. if scalar c then utf8_char c else [0x3F]) s))"

definition ws_scope_of ::
    "string \<Rightarrow> string \<times> int \<Rightarrow> ustr \<Rightarrow> bytes \<Rightarrow> string \<Rightarrow> header list \<Rightarrow> string \<Rightarrow> int \<Rightarrow> ws_scope" where
  "ws_scope_of root server path query protocol hs host port =
     \<lparr>sc_root_path = root, sc_server = server,
      sc_client = (if host \<noteq> [] then Some (host, port) else None),
      sc_http_version = last (split_on (CHR ''/'') protocol),
      sc_path = path, sc_raw_path = utf8_encode_replace path, sc_query = query,
      sc_headers = hs, sc_subprotocols = ws_subprotocols hs\<rparr>"

end
