(* ===== verification/Exec_Drain.thy ===== *)
theory Exec_Drain
  imports Ws_Socket
begin

text \<open>
  The shutdown drain of the executor (m0_shim.py: \<open>_gather_in_flight\<close>,
  \<open>_finish_and_stop\<close>, \<open>_drain_and_stop\<close>, and the callbacks of
  \<open>run_forever_inverted\<close> that start it). Each wait has a timeout, so each is one step of
  the drain: the step runs when every task it waits for is done or its time is up, and
  looks at the tasks as they are then.
\<close>

definition not_done :: "xst \<Rightarrow> tid set \<Rightarrow> tid set" where
  "not_done st ts = Set.filter (\<lambda>t. \<not> task_done st t) ts"

definition is_ws_task :: "xst \<Rightarrow> tid \<Rightarrow> bool" where
  "is_ws_task st t = (case task_of st t of None \<Rightarrow> False | Some k \<Rightarrow> m0_ws k)"

text \<open>\<open>for t in pending: t.cancel()\<close>.\<close>

definition cancel_all :: "tid set \<Rightarrow> xst \<Rightarrow> xst" where
  "cancel_all ts st =
     st\<lparr>task_of := (\<lambda>t. if t \<in> ts \<and> \<not> task_done st t
                        then map_option (\<lambda>k. k\<lparr>t_cancel := True\<rparr>) (task_of st t)
                        else task_of st t)\<rparr>"

definition cancelled_text :: "nat \<Rightarrow> string" where
  "cancelled_text n =
     ''cancelled '' @ show_nat n @ '' task(s) still running 3.0 s into the drain''"

definition stuck_text :: "nat \<Rightarrow> string" where
  "stuck_text n = show_nat n @
     '' task(s) still running after their cancellation; leaving them to the process exit''"

text \<open>The start of \<open>_gather_in_flight\<close>: nothing in flight, or the first wait.\<close>

definition gather_start :: "bool \<Rightarrow> xst \<Rightarrow> xst" where
  "gather_start inverted st =
     st\<lparr>drain_at := (if exec_tasks st = {} then DrainLast inverted
                     else DrainWaitAll inverted (exec_tasks st))\<rparr>"

text \<open>The first wait is over: the sockets still running are cancelled.\<close>

definition gather_rest :: "bool \<Rightarrow> tid set \<Rightarrow> xst \<Rightarrow> xst" where
  "gather_rest inverted waited st =
     (let pending = not_done st waited;
          st1 = cancel_all (Set.filter (is_ws_task st) pending) st;
          rest = not_done st1 (exec_tasks st1)
      in st1\<lparr>drain_at := (if rest = {} then DrainLast inverted else DrainWaitRest inverted rest)\<rparr>)"

text \<open>The second wait is over: every task still running is cancelled, and named.\<close>

definition gather_cancel :: "bool \<Rightarrow> tid set \<Rightarrow> xst \<Rightarrow> xst" where
  "gather_cancel inverted waited st =
     (let pending = not_done st waited
      in if pending = {} then st\<lparr>drain_at := DrainLast inverted\<rparr>
         else (exec_put (EvLog (-1) (cancelled_text (card pending))) (cancel_all pending st))
                \<lparr>drain_at := DrainWaitCancelled inverted pending\<rparr>)"

text \<open>The third wait is over: what swallowed its cancellation is named and left.\<close>

definition gather_stuck :: "bool \<Rightarrow> tid set \<Rightarrow> xst \<Rightarrow> xst" where
  "gather_stuck inverted waited st =
     (let stuck = not_done st waited;
          st1 = (if stuck = {} then st else exec_put (EvLog (-1) (stuck_text (card stuck))) st)
      in st1\<lparr>drain_at := DrainLast inverted\<rparr>)"

text \<open>
  One step of the drain. \<open>stepped\<close> is what \<open>_port.drain_step()\<close> answers, asked only
  while the port's own drain is being stepped. The last step closes the port for good
  and stops the loop.
\<close>

definition drain_step :: "bool \<Rightarrow> xst \<Rightarrow> xst" where
  "drain_step stepped st =
     (case drain_at st of
        DrainIdle \<Rightarrow> st
      | DrainStepping \<Rightarrow> if stepped then gather_start True st else st
      | DrainWaitAll iv ts \<Rightarrow> gather_rest iv ts st
      | DrainWaitRest iv ts \<Rightarrow> gather_cancel iv ts st
      | DrainWaitCancelled iv ts \<Rightarrow> gather_stuck iv ts st
      | DrainLast iv \<Rightarrow> st\<lparr>closed := True, drain_at := DrainOver\<rparr>
      | DrainOver \<Rightarrow> st)"

text \<open>
  The callbacks \<open>_on_backend\<close> and \<open>_tick\<close> of the inverted loop, given what
  \<open>_port.pass_()\<close> answered: any of them may be the one that reads the shutdown.
\<close>

definition on_backend :: "bool \<Rightarrow> xst \<Rightarrow> xst" where
  "on_backend stopping st =
     (if draining st then st
      else if stopping then start_drain_op st
      else arm_flush st)"

definition on_tick :: "bool \<Rightarrow> xst \<Rightarrow> xst" where
  "on_tick stopping st =
     (if draining st then st else if stopping then start_drain_op st else st)"

definition run_forever_inverted :: "xst \<Rightarrow> xst" where
  "run_forever_inverted st = st\<lparr>start_drain := True\<rparr>"

section \<open>The drain ends\<close>

text \<open>How many steps the drain has left once the port has finished its own.\<close>

fun drain_left :: "drain_pc \<Rightarrow> nat" where
  "drain_left DrainIdle = 0"
| "drain_left DrainStepping = 5"
| "drain_left (DrainWaitAll _ _) = 4"
| "drain_left (DrainWaitRest _ _) = 3"
| "drain_left (DrainWaitCancelled _ _) = 2"
| "drain_left (DrainLast _) = 1"
| "drain_left DrainOver = 0"

lemma drain_step_left:
  assumes "0 < drain_left (drain_at st)"
  shows "drain_left (drain_at (drain_step True st)) < drain_left (drain_at st)"
  using assms
  by (cases "drain_at st")
     (auto simp: drain_step_def gather_start_def gather_rest_def gather_cancel_def
        gather_stuck_def Let_def)

lemma drain_step_not_idle:
  "drain_at st \<noteq> DrainIdle \<Longrightarrow> drain_at (drain_step b st) \<noteq> DrainIdle"
  by (cases "drain_at st")
     (auto simp: drain_step_def gather_start_def gather_rest_def gather_cancel_def
        gather_stuck_def Let_def)

lemma drain_over_closed:
  assumes "drain_at st \<noteq> DrainOver" and "drain_at (drain_step b st) = DrainOver"
  shows "closed (drain_step b st)"
  using assms
  by (cases "drain_at st")
     (auto simp: drain_step_def gather_start_def gather_rest_def gather_cancel_def
        gather_stuck_def Let_def split: if_splits)

lemma drain_over_stays: "drain_at st = DrainOver \<Longrightarrow> drain_step b st = st"
  by (simp add: drain_step_def)

lemma drain_closes:
  assumes "drain_at st \<noteq> DrainIdle" and "drain_at st \<noteq> DrainOver"
    and "drain_left (drain_at st) \<le> n"
  shows "closed ((drain_step True ^^ n) st) \<and> drain_at ((drain_step True ^^ n) st) = DrainOver"
  using assms
proof (induction n arbitrary: st)
  case 0
  then show ?case by (cases "drain_at st") auto
next
  case (Suc n)
  let ?t = "drain_step True st"
  have pos: "0 < drain_left (drain_at st)"
    using Suc.prems by (cases "drain_at st") auto
  have le: "drain_left (drain_at ?t) \<le> n"
    using drain_step_left [OF pos] Suc.prems(3) by simp
  have idle: "drain_at ?t \<noteq> DrainIdle" by (rule drain_step_not_idle [OF Suc.prems(1)])
  show ?case
  proof (cases "drain_at ?t = DrainOver")
    case True
    have "(drain_step True ^^ n) ?t = ?t"
      by (induction n) (simp_all add: drain_over_stays [OF True])
    then show ?thesis
      using True drain_over_closed [OF Suc.prems(2) True] by (simp add: funpow_swap1)
  next
    case False
    then show ?thesis using Suc.IH [OF idle False le] by (simp add: funpow_swap1)
  qed
qed

end
