(* ===== verification/Exec_System.thy ===== *)
theory Exec_System
  imports Exec_Drain
begin

text \<open>
  The executor as a whole: the actions that can happen between two awaits, in any order,
  and the runs they make. The applications are unknown, so any call they may make at any
  moment is an action; so is any datagram the loop may send. \<open>exec_act\<close> is what the shim
  does about each, \<open>xstep\<close> the step relation.
\<close>

section \<open>Actions\<close>

datatype act =
    ActSpawn slot bool bytes
  | ActSpawnWs slot
  | ActWsStart tid
  | ActSubmit "bytes option"
  | ActAck "bytes option"
  | ActDisconnect slot int
  | ActSend tid asgi_msg
  | ActReceive tid
  | ActFinish tid "exn option"
  | ActResume nat
  | ActCancelCall nat
  | ActCallback
  | ActTimer tid
  | ActDrain bool
  | ActBackend bool
  | ActTick bool

text \<open>A suspended segment is parked under a fresh number; a \<open>sleep(0)\<close> is always ready.\<close>

definition settle :: "xst \<times> seg \<Rightarrow> xst" where
  "settle r =
     (case r of
        (st, Park f w) \<Rightarrow>
          let (i, st1) = new_id st
          in st1\<lparr>parked := (parked st1)(i \<mapsto> (f, w, w = ForYield))\<rparr>
      | (st, _) \<Rightarrow> st)"

definition is_cycle_frame :: "frame \<Rightarrow> bool" where
  "is_cycle_frame f = (case f of
     FEmit _ _ _ _ _ \<Rightarrow> True | FEmitDropped _ _ _ \<Rightarrow> True | FDropped \<Rightarrow> True
   | FHttpReceive _ \<Rightarrow> True | _ \<Rightarrow> False)"

definition resume :: "frame \<Rightarrow> xst \<Rightarrow> xst \<times> seg" where
  "resume f st = (if is_cycle_frame f then resume_http f st else resume_ws f st)"

definition unpark :: "nat \<Rightarrow> xst \<Rightarrow> xst" where
  "unpark i st = st\<lparr>parked := (parked st)(i := None)\<rparr>"

definition run_callback :: "callback \<Rightarrow> xst \<Rightarrow> xst" where
  "run_callback cb st =
     (case cb of
        RunFlush \<Rightarrow> flush_op st
      | RunFinishAndStop \<Rightarrow> gather_start False st
      | RunDrainAndStop \<Rightarrow> st\<lparr>drain_at := DrainStepping\<rparr>
      | RunTaskDone t \<Rightarrow>
          (case task_of st t of
             None \<Rightarrow> st
           | Some k \<Rightarrow> if t_is_cycle k then cycle_done t st else on_task_done (t_slot k) t st))"

definition send_op :: "tid \<Rightarrow> asgi_msg \<Rightarrow> xst \<Rightarrow> xst \<times> seg" where
  "send_op t m st = (if cycle_of st t \<noteq> None then http_send t m st else ws_send t m st)"

definition receive_op :: "tid \<Rightarrow> xst \<Rightarrow> xst \<times> seg" where
  "receive_op t st = (if cycle_of st t \<noteq> None then http_receive t st else ws_receive t st)"

definition finish_op :: "tid \<Rightarrow> exn option \<Rightarrow> xst \<Rightarrow> xst" where
  "finish_op t e st = (if cycle_of st t \<noteq> None then run_finish t e st else ws_finish t e st)"

definition exec_act :: "act \<Rightarrow> xst \<Rightarrow> xst" where
  "exec_act a st =
     (case a of
        ActSpawn slot head body \<Rightarrow> snd (spawn slot head body st)
      | ActSpawnWs slot \<Rightarrow> snd (spawn_ws slot st)
      | ActWsStart t \<Rightarrow> ws_start t st
      | ActSubmit d \<Rightarrow> on_submit d st
      | ActAck d \<Rightarrow> on_ack d st
      | ActDisconnect slot code \<Rightarrow> exec_on_disconnect slot code st
      | ActSend t m \<Rightarrow> settle (send_op t m st)
      | ActReceive t \<Rightarrow> settle (receive_op t st)
      | ActFinish t e \<Rightarrow> finish_op t e st
      | ActResume i \<Rightarrow> (case parked st i of None \<Rightarrow> st
                         | Some (f, w, b) \<Rightarrow> settle (resume f (unpark i st)))
      | ActCancelCall i \<Rightarrow> unpark i st
      | ActCallback \<Rightarrow> (case soon st of [] \<Rightarrow> st
                        | cb # cbs \<Rightarrow> run_callback cb (st\<lparr>soon := cbs\<rparr>))
      | ActTimer t \<Rightarrow> stop_unheard t st
      | ActDrain b \<Rightarrow> drain_step b st
      | ActBackend b \<Rightarrow> on_backend b st
      | ActTick b \<Rightarrow> on_tick b st)"

text \<open>
  When an action can happen. The loop never recycles a slot in the middle of a request
  (m0-http's offload.mojo): a slot is given to a new connection once the old request has
  been answered and is over, once its stream's client has gone, or once the socket is
  closed or gone. An application finishes once. A parked call runs on when it is woken, or
  is cancelled with the task that made it.
\<close>

definition slot_free :: "xst \<Rightarrow> slot \<Rightarrow> bool" where
  "slot_free st slot =
     (case slot_task st slot of None \<Rightarrow> True
      | Some t \<Rightarrow>
          (case cycle_of st t of None \<Rightarrow> False
           | Some y \<Rightarrow> c_completed y \<or> (c_streaming y \<and> task_gone st t))
          \<or> (case sock_of st t of None \<Rightarrow> False | Some s \<Rightarrow> s_closed s \<or> task_gone st t))"

definition enabled :: "act \<Rightarrow> xst \<Rightarrow> bool" where
  "enabled a st =
     (case a of
        ActSpawn slot _ _ \<Rightarrow> slot_free st slot
      | ActSpawnWs slot \<Rightarrow> slot_free st slot
      | ActWsStart t \<Rightarrow> sock_of st t = None \<and> cycle_of st t = None \<and> \<not> task_done st t
      | ActSubmit _ \<Rightarrow> sub_reading st
      | ActAck _ \<Rightarrow> ack_reading st
      | ActFinish t _ \<Rightarrow> \<not> task_done st t \<and> (cycle_of st t \<noteq> None \<or> sock_of st t \<noteq> None)
      | ActResume i \<Rightarrow> (case parked st i of None \<Rightarrow> False | Some (f, w, b) \<Rightarrow> b)
      | ActTimer t \<Rightarrow> t \<in> set (later_stop st)
      | _ \<Rightarrow> True)"

inductive xstep :: "xst \<Rightarrow> act \<Rightarrow> xst \<Rightarrow> bool" where
  act: "enabled a st \<Longrightarrow> xstep st a (exec_act a st)"

inductive_cases xstepE: "xstep st a st'"

text \<open>
  A serving executor: the module, the port, and \<open>asgi_executor_init\<close>.
\<close>

inductive serving :: "xst \<Rightarrow> bool" where
  serving: "serving (asgi_executor_init has_ack (fresh_namespace stops fstops fmt only))"

text \<open>Running a list of actions, for evaluation.\<close>

fun exec_acts :: "act list \<Rightarrow> xst \<Rightarrow> xst option" where
  "exec_acts [] st = Some st"
| "exec_acts (a # as) st = (if enabled a st then exec_acts as (exec_act a st) else None)"

lemma exec_acts_run: "exec_acts as st = Some st' \<Longrightarrow> lts_run xstep st as st'"
proof (induction "as" arbitrary: st)
  case Nil
  then show ?case by (simp add: run_nil)
next
  case (Cons a as)
  then have "enabled a st" and "lts_run xstep (exec_act a st) as st'"
    by (auto split: if_splits)
  then show ?case by (auto intro: lts_run_cons xstep.act)
qed

text \<open>A serving executor that never stops, to run examples on.\<close>

definition quiet_server :: xst where
  "quiet_server = asgi_executor_init True
     (fresh_namespace (\<lambda>_. False) (\<lambda>_. False) (\<lambda>_. []) (\<lambda>_. []))"

lemma quiet_server_serving: "serving quiet_server"
  unfolding quiet_server_def by (rule serving.serving)

definition after :: "act list \<Rightarrow> xst" where
  "after as = (case exec_acts as quiet_server of None \<Rightarrow> quiet_server | Some st \<Rightarrow> st)"

definition runs :: "act list \<Rightarrow> bool" where
  "runs as = (case exec_acts as quiet_server of None \<Rightarrow> False | Some st \<Rightarrow> True)"

lemma runs_after: "runs as \<Longrightarrow> lts_run xstep quiet_server as (after as)"
  by (auto simp: runs_def after_def intro: exec_acts_run split: option.splits)

lemma wake_upd:
  "wake p Map.empty = Map.empty" "wake p (m(i := None)) = (wake p m)(i := None)"
  "wake p (m(i \<mapsto> (f, w, b))) = (wake p m)(i \<mapsto> (f, w, b \<or> p w))"
  by (auto simp: wake_def)

text \<open>The definitions that evaluate an example run.\<close>

lemmas exec_eval = runs_def after_def quiet_server_def asgi_executor_init_def fresh_namespace_def
  new_event_def new_id_def set_event_def clear_event_def resolve_future_def queue_put_def wake_upd
  call_soon_def set_global_evt_def upd_task_def upd_cycle_def upd_sock_def task_done_def cancel_task_def
  charge_def open_window_def ack_credit_def ack_refund_def release_def window_consts
  arm_flush_def exec_put_def start_drain_op_def flush_op_def task_gone_def release_slot_def
  mark_owner_gone_def resolve_disconnect_def wake_slot_def tell_inbox_def cancel_stream_def
  exec_on_disconnect_def exec_cleanup_slot_def exec_on_ack_def
  emit_charge_def emit_global_def emit_credit_def emit_piece_def emit_from_def after_emit_def
  end_stream_def no_content_def answer_head_def start_stream_def nonempty_def send_body_def
  http_send_def http_receive_def slot_of_cycle_def resume_http_def new_cycle_def new_task_def
  spawn_def finish_outcome_def run_finish_def drop_ownership_def on_task_done_def cycle_done_def
  stop_unheard_def
  ws_put_frame_def ws_put_close_def ws_frame_bytes_def ws_cost_def ws_spend_def spend_charge_def spend_global_def
  spend_credit_def ws_accept_def ws_close_def
  ws_send_def ws_consume_def ws_get_def ws_receive_def resume_ws_def spawn_ws_def ws_start_def
  ws_failed_def ws_outcome_def ws_finish_def
  settle_def is_cycle_frame_def resume_def unpark_def run_callback_def send_op_def receive_op_def
  finish_op_def exec_act_def slot_free_def enabled_def Let_def ASGI_BUFFER_CAP_def latin1_def

end
