(* ===== verification/Exec_Ledger.thy ===== *)
theory Exec_Ledger
  imports Exec_System
begin

text \<open>
  The credit ledger is kept by every action of the executor, so it holds in every
  reachable state: a \<open>lts_invariant\<close> interpreted on \<open>xstep\<close>. The operations that do not
  touch the windows are dealt with by frame equations, the others by the rules of
  \<open>ledger_intros\<close>.
\<close>

section \<open>Frame equations\<close>

lemma ledger_frame [simp, frame_simps]:
  "ledger (set_event e w) = ledger w"
  "ledger (clear_event e w) = ledger w"
  "ledger (resolve_future f w) = ledger w"
  "ledger (queue_put q m w) = ledger w"
  "ledger (call_soon cb w) = ledger w"
  "ledger (snd (new_id w)) = ledger w"
  "ledger (snd (new_event w)) = ledger w"
  for w :: "'a loop_objects_scheme"
  by (simp_all add: ledger_def set_event_def clear_event_def resolve_future_def queue_put_def
      call_soon_def new_id_def new_event_def)

lemma ledger_fields [simp, frame_simps]:
  fixes w :: xst
  shows "ledger (w\<lparr>fresh := x1\<rparr>) = ledger w"
    "ledger (w\<lparr>parked := x2\<rparr>) = ledger w"
    "ledger (w\<lparr>soon := x3\<rparr>) = ledger w"
    "ledger (w\<lparr>later_stop := x4\<rparr>) = ledger w"
    "ledger (w\<lparr>inboxes := x5\<rparr>) = ledger w"
    "ledger (w\<lparr>fut_done := x6\<rparr>) = ledger w"
    "ledger (w\<lparr>dispatched := x7\<rparr>) = ledger w"
    "ledger (w\<lparr>flush_armed := x8\<rparr>) = ledger w"
    "ledger (w\<lparr>draining := x9\<rparr>) = ledger w"
    "ledger (w\<lparr>closed := x10\<rparr>) = ledger w"
    "ledger (w\<lparr>start_drain := x11\<rparr>) = ledger w"
    "ledger (w\<lparr>credit_evts := x12\<rparr>) = ledger w"
    "ledger (w\<lparr>disconnects := x13\<rparr>) = ledger w"
    "ledger (w\<lparr>stream_tasks := x14\<rparr>) = ledger w"
    "ledger (w\<lparr>slot_task := x15\<rparr>) = ledger w"
    "ledger (w\<lparr>ws_inbox := x16\<rparr>) = ledger w"
    "ledger (w\<lparr>exec_tasks := x17\<rparr>) = ledger w"
    "ledger (w\<lparr>global_evt := x18\<rparr>) = ledger w"
    "ledger (w\<lparr>task_of := x19\<rparr>) = ledger w"
    "ledger (w\<lparr>cycle_of := x20\<rparr>) = ledger w"
    "ledger (w\<lparr>sock_of := x21\<rparr>) = ledger w"
    "ledger (w\<lparr>bus_of := x22\<rparr>) = ledger w"
    "ledger (w\<lparr>sub_reading := x23\<rparr>) = ledger w"
    "ledger (w\<lparr>ack_reading := x24\<rparr>) = ledger w"
    "ledger (w\<lparr>drain_at := x25\<rparr>) = ledger w"
  by (simp_all add: ledger_def)

lemma ledger_closed_slot: "ledger w \<Longrightarrow> ledger (w\<lparr>credits := (credits w)(s := None)\<rparr>)"
  by (auto simp: ledger_def)

lemma ledger_ops [simp, frame_simps]:
  "ledger (set_global_evt st) = ledger st"
  "ledger (upd_task t ft st) = ledger st"
  "ledger (upd_cycle c fc st) = ledger st"
  "ledger (upd_sock t fs st) = ledger st"
  "ledger (cancel_task t st) = ledger st"
  "ledger (arm_flush st) = ledger st"
  "ledger (exec_put e st) = ledger st"
  "ledger (start_drain_op st) = ledger st"
  "ledger (flush_op st) = ledger st"
  "ledger (mark_owner_gone slot st) = ledger st"
  "ledger (resolve_disconnect slot st) = ledger st"
  "ledger (wake_slot slot st) = ledger st"
  "ledger (tell_inbox slot code st) = ledger st"
  "ledger (cancel_stream slot st) = ledger st"
  "ledger (exec_on_ws_message slot opcode payload st) = ledger st"
proof -
  show arm: "ledger (arm_flush st) = ledger st" for st
    by (simp add: arm_flush_def)
  show task: "ledger (upd_task t ft st) = ledger st" for t ft st
    by (simp add: upd_task_def)
  show canc: "ledger (cancel_task t st) = ledger st" for t st
    by (simp add: cancel_task_def task)
  show "ledger (exec_put e st) = ledger st"
    by (simp add: exec_put_def Let_def arm)
  show drain: "ledger (start_drain_op st) = ledger st" for st
    by (simp add: start_drain_op_def)
  show "ledger (flush_op st) = ledger st"
    by (simp add: flush_op_def Let_def drain)
  show "ledger (cancel_stream slot st) = ledger st"
    by (simp add: cancel_stream_def canc split: option.split)
  show "ledger (mark_owner_gone slot st) = ledger st"
    by (simp add: mark_owner_gone_def task split: option.split)
qed (simp_all add: set_global_evt_def upd_cycle_def upd_sock_def resolve_disconnect_def
      wake_slot_def tell_inbox_def exec_on_ws_message_def Let_def split: option.split)

section \<open>The operations that move credit\<close>

lemma ledger_release_slot [ledger_intros]: "ledger st \<Longrightarrow> ledger (release_slot slot st)"
  using ledger_release [of st slot]
  by (cases "release slot st") (simp add: release_slot_def)

lemma ledger_cleanup [ledger_intros]: "ledger st \<Longrightarrow> ledger (exec_cleanup_slot slot st)"
  by (simp add: exec_cleanup_slot_def Let_def ledger_release_slot ledger_closed_slot)

lemma ledger_disconnect [ledger_intros]: "ledger st \<Longrightarrow> ledger (exec_on_disconnect slot code st)"
  by (simp add: exec_on_disconnect_def ledger_release_slot)

lemma ledger_on_ack [ledger_intros]:
  assumes "ledger st" and "0 \<le> n"
  shows "ledger (exec_on_ack slot n st)"
proof -
  let ?st1 = "case credits st slot of None \<Rightarrow> st | Some _ \<Rightarrow> wake_slot slot (ack_credit slot n st)"
  have "ledger ?st1" using assms by (auto simp: ledger_ack_credit split: option.split)
  then have "ledger (snd (ack_refund slot n ?st1))" using assms(2) by (rule ledger_ack_refund)
  then show ?thesis
    by (cases "ack_refund slot n ?st1") (simp add: exec_on_ack_def Let_def)
qed

lemma ledger_put_jobs [simp]: "ledger (put_jobs js st) = ledger st"
  unfolding put_jobs_def by (induction js arbitrary: st) simp_all

lemma ledger_on_submit [ledger_intros]: "ledger st \<Longrightarrow> ledger (on_submit d st)"
  by (auto simp: on_submit_def ledger_disconnect split: option.split submit.split)

lemma ledger_ack_datagram [ledger_intros]: "ledger st \<Longrightarrow> ledger (on_ack d st)"
  using from_le_bounds by (auto simp: on_ack_def intro: ledger_on_ack split: option.split)

section \<open>The HTTP cycle\<close>

lemma ledger_emit_charge:
  "ledger st \<Longrightarrow> int (length p) \<le> global_credit st \<Longrightarrow>
    ledger (piece_state (emit_charge c slot p st))"
  by (auto simp: emit_charge_def intro: ledger_charge split: option.split)

lemma ledger_emit_piece [ledger_intros]:
  "ledger st \<Longrightarrow> ledger (piece_state (emit_piece c slot pc p st))"
  by (auto simp: emit_piece_def emit_credit_def emit_global_def ledger_emit_charge
      split: wait_pc.split option.split)

lemma ledger_end_stream [ledger_intros]: "ledger st \<Longrightarrow> ledger (end_stream c slot st)"
  by (simp add: end_stream_def Let_def)

lemma ledger_emit_all [ledger_intros]: "ledger st \<Longrightarrow> ledger (fst (emit_all c slot ds final st))"
  by (rule emit_all_keeps [OF ledger_emit_piece ledger_end_stream])

lemma ledger_emit_from [ledger_intros]:
  "ledger st \<Longrightarrow> ledger (fst (emit_from c slot pc ps ds final st))"
  by (rule emit_from_keeps [OF ledger_emit_piece ledger_end_stream])

lemma ledger_start_stream [ledger_intros]: "ledger st \<Longrightarrow> ledger (start_stream c slot s hs st)"
  by (simp add: start_stream_def Let_def new_event_def ledger_open case_prod_beta
      del: fun_upd_apply)
     (simp add: ledger_def open_window_def upd_task_def upd_cycle_def window_consts)

lemma ledger_answer_head [simp]: "ledger (answer_head c slot s hs st) = ledger st"
  by (simp add: answer_head_def Let_def split: option.split)

lemma ledger_http_send [ledger_intros]: "ledger st \<Longrightarrow> ledger (fst (http_send c m st))"
  by (auto simp: http_send_def send_body_def Let_def ledger_emit_all ledger_start_stream
      split: option.split asgi_msg.split)

lemma ledger_http_receive [ledger_intros]: "ledger st \<Longrightarrow> ledger (fst (http_receive c st))"
  by (auto simp: http_receive_def Let_def new_id_def split: option.split)

lemma ledger_resume_http [ledger_intros]: "ledger st \<Longrightarrow> ledger (fst (resume_http f st))"
  by (auto simp: resume_http_def ledger_emit_all ledger_emit_from split: frame.split)

lemma ledger_drop_ownership [ledger_intros]: "ledger st \<Longrightarrow> ledger (drop_ownership slot t st)"
  by (simp add: drop_ownership_def Let_def ledger_cleanup)

lemma ledger_on_task_done [ledger_intros]: "ledger st \<Longrightarrow> ledger (on_task_done slot t st)"
  by (auto simp: on_task_done_def Let_def ledger_drop_ownership
      split: option.split outcome.split)

lemma ledger_cycle_done [ledger_intros]: "ledger st \<Longrightarrow> ledger (cycle_done t st)"
  by (auto simp: cycle_done_def Let_def ledger_drop_ownership ledger_on_task_done
      split: option.split outcome.split)

lemma ledger_run_finish [simp]: "ledger (run_finish c e st) = ledger st"
  by (simp add: run_finish_def Let_def split: option.split)

lemma ledger_spawn [simp]: "ledger (snd (spawn slot head body st)) = ledger st"
  by (simp add: spawn_def Let_def new_id_def)

section \<open>The socket\<close>

lemma ledger_ws_spend [ledger_intros]:
  assumes "ledger st"
  shows "case ws_spend slot t pc n st of Spent s \<Rightarrow> ledger s | SpendGone s \<Rightarrow> ledger s
    | SpendWaits s w p \<Rightarrow> ledger s | SpendKeyError s \<Rightarrow> ledger s"
proof -
  have "0 \<le> ws_cost n" by (simp add: ws_cost_def window_consts)
  then show ?thesis
    using assms
    by (auto simp: ws_spend_def spend_credit_def spend_global_def spend_charge_def
        intro: ledger_charge split: wait_pc.split option.split)
qed

lemma ledger_ws_put_frame [ledger_intros]:
  "ledger st \<Longrightarrow> ledger (fst (ws_put_frame t slot pc opcode payload st))"
  using ledger_ws_spend [of st slot t pc "ws_frame_bytes (length payload)"]
  by (auto simp: ws_put_frame_def split: spend_result.splits)

lemma ledger_ws_put_close [ledger_intros]:
  "ledger st \<Longrightarrow> ledger (fst (ws_put_close t slot pc code st))"
  using ledger_ws_spend [of st slot t pc "ws_frame_bytes 2"]
  by (auto simp: ws_put_close_def split: spend_result.splits)

lemma ledger_ws_accept [ledger_intros]: "ledger st \<Longrightarrow> ledger (ws_accept t slot st)"
  by (simp add: ws_accept_def Let_def new_event_def)
     (simp add: ledger_def open_window_def upd_sock_def window_consts)

lemma ledger_ws_send [ledger_intros]: "ledger st \<Longrightarrow> ledger (fst (ws_send t m st))"
  by (auto simp: ws_send_def ws_close_def Let_def ledger_ws_accept ledger_ws_put_frame
      ledger_ws_put_close split: option.split asgi_msg.split)

lemma ledger_ws_get [simp]: "ledger (fst (ws_get t s st)) = ledger st"
  by (auto simp: ws_get_def ws_consume_def Let_def split: list.split recv_msg.split)

lemma ledger_ws_receive [simp]: "ledger (fst (ws_receive t st)) = ledger st"
  by (auto simp: ws_receive_def split: option.split)

lemma ledger_resume_ws [ledger_intros]: "ledger st \<Longrightarrow> ledger (fst (resume_ws f st))"
  by (auto simp: resume_ws_def ledger_ws_put_frame ledger_ws_put_close
      split: frame.split option.split)

lemma ledger_ws_task [simp]:
  "ledger (snd (spawn_ws slot st)) = ledger st"
  "ledger (ws_start t st) = ledger st"
  "ledger (ws_finish t e st) = ledger st"
  by (auto simp: spawn_ws_def ws_start_def ws_finish_def Let_def new_id_def split: option.split)

section \<open>The drain and the system\<close>

lemma ledger_cancel_all [simp]: "ledger (cancel_all ts st) = ledger st"
  by (simp add: cancel_all_def)

lemma ledger_drain [simp]:
  "ledger (gather_start iv st) = ledger st"
  "ledger (drain_step b st) = ledger st"
  "ledger (on_backend b st) = ledger st"
  "ledger (on_tick b st) = ledger st"
  by (simp_all add: gather_start_def drain_step_def gather_rest_def gather_cancel_def
      gather_stuck_def on_backend_def on_tick_def Let_def split: drain_pc.split)

lemma ledger_settle [simp]: "ledger (settle r) = ledger (fst r)"
  by (cases r) (auto simp: settle_def Let_def new_id_def split: seg.split)

lemma ledger_run_callback [ledger_intros]: "ledger st \<Longrightarrow> ledger (run_callback cb st)"
  by (auto simp: run_callback_def ledger_cycle_done ledger_on_task_done
      split: callback.split option.split)

lemma ledger_exec_act [ledger_intros]: "ledger st \<Longrightarrow> ledger (exec_act a st)"
  by (auto simp: exec_act_def send_op_def receive_op_def finish_op_def resume_def unpark_def
      stop_unheard_def ledger_intros split: act.split option.split list.split)

lemma ledger_serving: "serving st \<Longrightarrow> ledger st"
  by (erule serving.cases)
     (simp add: asgi_executor_init_def new_event_def fresh_namespace_def ledger_def window_consts)

interpretation exec_ledger: lts_invariant serving xstep "ledger :: xst \<Rightarrow> bool"
  by unfold_locales (auto intro: ledger_serving ledger_exec_act elim!: xstepE)

end
