(* ===== verification/Exec_Events.thy ===== *)
theory Exec_Events
  imports Exec_Ledger
begin

text \<open>
  What each action hands to the port, and on whose behalf. \<open>emits Q st st'\<close> says that the
  events dispatched between two states all satisfy \<open>Q\<close>; the lemmas compose it along the
  shim's functions. The result is the isolation the shim's ownership rules are for: a
  connection that has gone produces no byte, frame or ending on its slot.
\<close>

definition emits :: "(ev \<Rightarrow> bool) \<Rightarrow> xst \<Rightarrow> xst \<Rightarrow> bool" where
  "emits Q st st' \<longleftrightarrow> (\<exists>es. dispatched st' = dispatched st @ es \<and> list_all Q es)"

lemma emits_refl [simp, intro]: "emits Q st st"
  by (auto simp: emits_def)

lemma emits_same: "dispatched st' = dispatched st \<Longrightarrow> emits Q st st'"
  by (auto simp: emits_def)

lemma emits_trans: "emits Q st st1 \<Longrightarrow> emits Q st1 st2 \<Longrightarrow> emits Q st st2"
  by (fastforce simp: emits_def)

lemma emits_mono: "emits Q st st' \<Longrightarrow> (\<And>e. Q e \<Longrightarrow> R e) \<Longrightarrow> emits R st st'"
  by (auto simp: emits_def list_all_iff)

section \<open>What leaves the event log alone\<close>

lemma dispatched_frame [simp]:
  "dispatched (set_event e st) = dispatched st"
  "dispatched (clear_event e st) = dispatched st"
  "dispatched (resolve_future f st) = dispatched st"
  "dispatched (queue_put q m st) = dispatched st"
  "dispatched (call_soon cb st) = dispatched st"
  "dispatched (snd (new_id st)) = dispatched st"
  "dispatched (snd (new_event st)) = dispatched st"
  "dispatched (set_global_evt st1) = dispatched st1"
  "dispatched (upd_task t ft st1) = dispatched st1"
  "dispatched (upd_cycle c fc st1) = dispatched st1"
  "dispatched (upd_sock t fs st1) = dispatched st1"
  "dispatched (arm_flush st1) = dispatched st1"
  "dispatched (start_drain_op st1) = dispatched st1"
  "dispatched (open_window slot st) = dispatched st"
  for st :: "'a port_state_scheme"
  by (simp_all add: set_event_def clear_event_def resolve_future_def queue_put_def call_soon_def
      new_id_def new_event_def set_global_evt_def upd_task_def upd_cycle_def upd_sock_def
      arm_flush_def start_drain_op_def open_window_def split: option.split)

lemma dispatched_ops [simp]:
  "dispatched (cancel_task t st) = dispatched st"
  "dispatched (flush_op st) = dispatched st"
  "dispatched (mark_owner_gone slot st) = dispatched st"
  "dispatched (resolve_disconnect slot st) = dispatched st"
  "dispatched (wake_slot slot st) = dispatched st"
  "dispatched (tell_inbox slot code st) = dispatched st"
  "dispatched (cancel_stream slot st) = dispatched st"
  "dispatched (exec_on_ws_message slot opcode payload st) = dispatched st"
  by (simp_all add: cancel_task_def flush_op_def mark_owner_gone_def resolve_disconnect_def
      wake_slot_def tell_inbox_def cancel_stream_def exec_on_ws_message_def Let_def
      split: option.split)

lemma dispatched_put [simp]:
  "dispatched (exec_put e st) = (if closed st then dispatched st else dispatched st @ [e])"
  by (auto simp: exec_put_def Let_def)

lemma emits_put: "Q e \<Longrightarrow> emits Q st (exec_put e st)"
  by (auto simp: emits_def)

lemma emits_after_put: "emits Q st1 st \<Longrightarrow> Q e \<Longrightarrow> emits Q st1 (exec_put e st)"
  by (rule emits_trans [OF _ emits_put])

lemma emits_put_same: "Q e \<Longrightarrow> dispatched st1 = dispatched st \<Longrightarrow> emits Q st (exec_put e st1)"
  by (auto simp: emits_def)

lemma dispatched_release [simp]:
  "dispatched (snd (release slot st)) = dispatched st"
  "dispatched (snd (ack_refund slot n st)) = dispatched st"
  "dispatched (ack_credit slot n st) = dispatched st"
  for st :: "'a port_state_scheme"
  by (auto simp: release_def ack_refund_def ack_credit_def Let_def split: option.split)

lemma dispatched_charge: "charge slot n st = Some st' \<Longrightarrow> dispatched st' = dispatched st"
  for st :: "'a port_state_scheme"
  by (auto simp: charge_def split: option.splits)

lemma dispatched_slot_ops [simp]:
  "dispatched (release_slot slot st) = dispatched st"
  "dispatched (exec_cleanup_slot slot st) = dispatched st"
  "dispatched (exec_on_disconnect slot code st) = dispatched st"
  "dispatched (exec_on_ack slot n st) = dispatched st"
  "dispatched (on_ack d st) = dispatched st"
  "dispatched (drop_ownership slot t st) = dispatched st"
proof -
  show rel: "dispatched (release_slot slot st) = dispatched st" for slot st
    using dispatched_release(1) [of slot st]
    by (cases "release slot st") (auto simp: release_slot_def)
  show cl: "dispatched (exec_cleanup_slot slot st) = dispatched st" for slot st
    by (simp add: exec_cleanup_slot_def Let_def rel)
  show "dispatched (exec_on_disconnect slot code st) = dispatched st"
    by (simp add: exec_on_disconnect_def rel)
  show ack: "dispatched (exec_on_ack slot n st) = dispatched st" for slot n st
  proof -
    let ?st1 = "case credits st slot of None \<Rightarrow> st | Some _ \<Rightarrow> wake_slot slot (ack_credit slot n st)"
    have "dispatched (snd (ack_refund slot n ?st1)) = dispatched st"
      by (simp split: option.split)
    then show ?thesis
      by (cases "ack_refund slot n ?st1") (simp add: exec_on_ack_def Let_def)
  qed
  show "dispatched (on_ack d st) = dispatched st"
    by (simp add: on_ack_def ack split: option.split)
  show "dispatched (drop_ownership slot t st) = dispatched st"
    by (simp add: drop_ownership_def Let_def cl)
qed

section \<open>Tasks are left alone by the port and the windows\<close>

lemma task_of_frame [simp]:
  "task_of (exec_put e st) = task_of st"
  "task_of (clear_event ev st) = task_of st"
  "task_of (set_event ev st) = task_of st"
  "task_of (open_window slot st) = task_of st"
  "task_of (upd_cycle c fc st) = task_of st"
  "task_of (upd_sock t fs st) = task_of st"
  "task_of (snd (new_event st)) = task_of st"
  "task_of (snd (new_id st)) = task_of st"
  by (simp_all add: exec_put_def arm_flush_def call_soon_def clear_event_def set_event_def
      open_window_def upd_cycle_def upd_sock_def new_event_def new_id_def Let_def)

lemma task_of_charge: "charge slot n st = Some st' \<Longrightarrow> task_of st' = task_of st"
  for st :: xst
  by (auto simp: charge_def split: option.splits)

lemma gone_frame [simp]:
  "task_gone (exec_put e st) t = task_gone st t"
  "task_gone (clear_event ev st) t = task_gone st t"
  "task_gone (open_window slot st) t = task_gone st t"
  "task_gone (upd_cycle c fc st) t = task_gone st t"
  "task_gone (upd_sock c fs st) t = task_gone st t"
  by (simp_all add: task_gone_def)

section \<open>The segments of a connection that has gone\<close>

text \<open>The events that put something on the connection's slot beyond its one completion.\<close>

definition data_event :: "ev \<Rightarrow> bool" where
  "data_event e = (case e of
     EvStreamChunk _ _ \<Rightarrow> True | EvStreamEnd _ \<Rightarrow> True | EvStreamAbort _ \<Rightarrow> True
   | EvWsAccept _ \<Rightarrow> True | EvWsReject _ \<Rightarrow> True | EvWsSend _ _ _ \<Rightarrow> True
   | EvWsClose _ _ \<Rightarrow> True | EvWsAck _ _ \<Rightarrow> True | _ \<Rightarrow> False)"

lemma data_event_simps [simp]:
  "data_event (EvStreamChunk s b)" "data_event (EvStreamEnd s)" "data_event (EvStreamAbort s)"
  "data_event (EvWsAccept s)" "data_event (EvWsReject s)" "data_event (EvWsSend s n b)"
  "data_event (EvWsClose s c)" "data_event (EvWsAck s c)"
  "\<not> data_event (EvDone s i hs b)" "\<not> data_event (EvErr s m)"
  "\<not> data_event (EvStreamStart s i hs b)" "\<not> data_event (EvStreamNote s m)"
  "\<not> data_event (EvLog i m)" "\<not> data_event (EvJob j)"
  by (simp_all add: data_event_def)

definition quiet :: "xst \<Rightarrow> xst \<Rightarrow> bool" where
  "quiet st st' \<longleftrightarrow> emits (\<lambda>e. \<not> data_event e) st st'"

lemma quiet_same: "dispatched st' = dispatched st \<Longrightarrow> quiet st st'"
  by (simp add: quiet_def emits_same)

lemma quiet_trans: "quiet st st1 \<Longrightarrow> quiet st1 st2 \<Longrightarrow> quiet st st2"
  unfolding quiet_def by (rule emits_trans)

lemma gone_emit_piece:
  assumes "task_gone st c"
  shows "task_gone (piece_state (emit_piece c slot pc p st)) c
    \<and> dispatched (piece_state (emit_piece c slot pc p st)) = dispatched st"
  using assms
  by (auto simp: emit_piece_def emit_credit_def emit_global_def emit_charge_def
      split: wait_pc.split option.split)

lemma gone_end_stream:
  "task_gone st c \<Longrightarrow> task_gone (end_stream c slot st) c
    \<and> dispatched (end_stream c slot st) = dispatched st"
  by (simp add: end_stream_def Let_def task_gone_def upd_cycle_def)

lemma gone_emit_all:
  assumes "task_gone st c"
  shows "dispatched (fst (emit_all c slot ds final st)) = dispatched st"
    and "dispatched (fst (emit_from c slot pc ps ds final st)) = dispatched st"
proof -
  let ?P = "\<lambda>s. task_gone s c \<and> dispatched s = dispatched st"
  have piece: "?P s \<Longrightarrow> ?P (piece_state (emit_piece c slot pc p s))" for pc p s
    using gone_emit_piece [of s c slot pc p] by simp
  have fin: "?P s \<Longrightarrow> ?P (end_stream c slot s)" for s
    using gone_end_stream [of s c slot] by simp
  show "dispatched (fst (emit_all c slot ds final st)) = dispatched st"
    using emit_all_keeps [of ?P c slot final st ds, OF piece fin] assms by simp
  show "dispatched (fst (emit_from c slot pc ps ds final st)) = dispatched st"
    using emit_from_keeps [of ?P c slot final st pc ps ds, OF piece fin] assms by simp
qed

lemma dispatched_start_stream:
  "dispatched (start_stream c slot s hs st) =
     (if closed st then dispatched st else dispatched st @ [EvStreamStart slot s hs []])"
  by (simp add: start_stream_def Let_def new_event_def open_window_def upd_task_def upd_cycle_def)

lemma gone_start_stream: "task_gone (start_stream c slot s hs st) c = task_gone st c"
  by (auto simp: start_stream_def Let_def task_gone_def new_event_def upd_task_def
      open_window_def split: option.split)

lemma dispatched_answer_head:
  "dispatched (answer_head c slot s hs st) =
     (if closed st then dispatched st else dispatched st @ [EvDone slot s hs []])"
  by (simp add: answer_head_def Let_def upd_cycle_def split: option.split)

lemma gone_http_send: "task_gone st c \<Longrightarrow> quiet st (fst (http_send c m st))"
  by (auto simp: http_send_def send_body_def Let_def quiet_def emits_def gone_emit_all
      gone_start_stream dispatched_start_stream dispatched_answer_head
      split: option.split asgi_msg.split)

lemma gone_http_receive: "dispatched (fst (http_receive c st)) = dispatched st"
  by (auto simp: http_receive_def Let_def new_id_def split: option.split)

lemma gone_run_finish: "task_gone st c \<Longrightarrow> dispatched (run_finish c e st) = dispatched st"
  by (auto simp: run_finish_def Let_def split: option.split)

lemma gone_ws_spend:
  assumes "task_gone st t"
  shows "case ws_spend slot t pc n st of
      Spent s \<Rightarrow> task_gone s t \<and> dispatched s = dispatched st
    | SpendGone s \<Rightarrow> dispatched s = dispatched st
    | SpendWaits s w p \<Rightarrow> dispatched s = dispatched st
    | SpendKeyError s \<Rightarrow> dispatched s = dispatched st"
  using assms
  by (auto simp: ws_spend_def spend_credit_def spend_global_def spend_charge_def
      split: wait_pc.split option.split)

lemma gone_ws_put:
  assumes "task_gone st t"
  shows "dispatched (fst (ws_put_frame t slot pc opcode payload st)) = dispatched st"
    and "dispatched (fst (ws_put_close t slot pc code st)) = dispatched st"
  using gone_ws_spend [OF assms, of slot pc "ws_frame_bytes (length payload)"]
    gone_ws_spend [OF assms, of slot pc "ws_frame_bytes 2"]
  by (auto simp: ws_put_frame_def ws_put_close_def split: spend_result.splits)

lemma gone_ws_send: "task_gone st t \<Longrightarrow> dispatched (fst (ws_send t m st)) = dispatched st"
  by (auto simp: ws_send_def split: option.split asgi_msg.split)

lemma gone_ws_get: "task_gone st t \<Longrightarrow> dispatched (fst (ws_get t s st)) = dispatched st"
  by (auto simp: ws_get_def ws_consume_def Let_def task_gone_def split: list.split recv_msg.split)

lemma gone_ws_receive: "task_gone st t \<Longrightarrow> dispatched (fst (ws_receive t st)) = dispatched st"
  by (auto simp: ws_receive_def gone_ws_get split: option.split)

lemma gone_ws_finish: "task_gone st t \<Longrightarrow> dispatched (ws_finish t e st) = dispatched st"
  by (auto simp: ws_finish_def Let_def split: option.split)

lemma quiet_task_done:
  "quiet st (on_task_done slot t st)" "quiet st (cycle_done t st)"
proof -
  show q: "quiet st (on_task_done slot t st)" for slot
    by (auto simp: on_task_done_def Let_def quiet_def emits_def split: option.split outcome.split)
  show "quiet st (cycle_done t st)"
    using q by (auto simp: cycle_done_def Let_def quiet_def emits_def
        split: option.split outcome.split)
qed

section \<open>Whose action it is\<close>

fun frame_owner :: "frame \<Rightarrow> tid option" where
  "frame_owner (FEmit c _ _ _ _) = Some c"
| "frame_owner (FEmitDropped c _ _) = Some c"
| "frame_owner FDropped = None"
| "frame_owner (FHttpReceive c) = Some c"
| "frame_owner (FWsReceive t) = Some t"
| "frame_owner (FWsSend t _ _ _) = Some t"
| "frame_owner (FWsClose t _ _) = Some t"

definition actor :: "act \<Rightarrow> xst \<Rightarrow> tid option" where
  "actor a st =
     (case a of
        ActSend t _ \<Rightarrow> Some t
      | ActReceive t \<Rightarrow> Some t
      | ActFinish t _ \<Rightarrow> Some t
      | ActResume i \<Rightarrow> (case parked st i of None \<Rightarrow> None | Some (f, w, b) \<Rightarrow> frame_owner f)
      | ActCallback \<Rightarrow> (case soon st of RunTaskDone t # _ \<Rightarrow> Some t | _ \<Rightarrow> None)
      | _ \<Rightarrow> None)"

definition emitted :: "act \<Rightarrow> xst \<Rightarrow> ev list" where
  "emitted a st = drop (length (dispatched st)) (dispatched (exec_act a st))"

lemma dispatched_settle [simp]: "dispatched (settle r) = dispatched (fst r)"
  by (cases r) (auto simp: settle_def Let_def new_id_def split: seg.split)

lemma gone_resume:
  assumes "task_gone st t" and "frame_owner f = Some t"
  shows "dispatched (fst (resume f st)) = dispatched st"
  using assms
  by (cases f)
     (auto simp: resume_def is_cycle_frame_def resume_http_def resume_ws_def gone_emit_all
        gone_ws_put gone_ws_get split: option.split)

lemma gone_exec_act:
  assumes gone: "task_gone st t" and act: "actor a st = Some t"
  shows "quiet st (exec_act a st)"
proof (cases a)
  case (ActSend u m)
  then have "u = t" using act by (simp add: actor_def)
  then show ?thesis
    using ActSend gone_http_send [OF gone, of m] gone_ws_send [OF gone, of m]
    by (auto simp: exec_act_def send_op_def quiet_def emits_def)
next
  case (ActReceive u)
  then have "u = t" using act by (simp add: actor_def)
  then show ?thesis
    using ActReceive gone_http_receive [of t st] gone_ws_receive [OF gone]
    by (auto simp: exec_act_def receive_op_def intro: quiet_same)
next
  case (ActFinish u e)
  then have "u = t" using act by (simp add: actor_def)
  then show ?thesis
    using ActFinish gone_run_finish [OF gone] gone_ws_finish [OF gone]
    by (auto simp: exec_act_def finish_op_def intro: quiet_same)
next
  case (ActResume i)
  then obtain f w b where f: "parked st i = Some (f, w, b)" and own: "frame_owner f = Some t"
    using act by (auto simp: actor_def split: option.splits)
  have "task_gone (unpark i st) t" using gone by (simp add: task_gone_def unpark_def)
  then have "dispatched (fst (resume f (unpark i st))) = dispatched st"
    using gone_resume [OF _ own] by (simp add: unpark_def)
  then show ?thesis using ActResume f by (simp add: exec_act_def quiet_same)
next
  case ActCallback
  then obtain cbs where cb: "soon st = RunTaskDone t # cbs"
    using act by (auto simp: actor_def split: list.splits callback.splits)
  have "quiet (st\<lparr>soon := cbs\<rparr>) (run_callback (RunTaskDone t) (st\<lparr>soon := cbs\<rparr>))"
    by (auto simp: run_callback_def quiet_task_done quiet_same split: option.split)
  then show ?thesis using ActCallback cb by (simp add: exec_act_def quiet_def emits_def)
qed (use act in \<open>simp_all add: actor_def\<close>)

end
