(* ===== verification/Exec_Once.thy ===== *)
theory Exec_Once
  imports Exec_Events
begin

text \<open>
  Exactly one completion per request. A request is answered in one of four ways: at its
  final body or its early HEAD answer (\<open>EvDone\<close>), by the head of a stream
  (\<open>EvStreamStart\<close>), or by its done-callback (\<open>EvDone\<close> or \<open>EvErr\<close>). The loop reuses
  the slot after the first, so a second one would answer another client's request. The
  invariant ties the number of completions a request has made so far to its flags, its
  task and the queue of callbacks, and every action keeps it.
\<close>

definition completion :: "ev \<Rightarrow> bool" where
  "completion e = (case e of EvDone _ _ _ _ \<Rightarrow> True | EvErr _ _ \<Rightarrow> True
     | EvStreamStart _ _ _ _ \<Rightarrow> True | _ \<Rightarrow> False)"

lemma completion_simps [simp]:
  "completion (EvDone s i hs b)" "completion (EvErr s m)" "completion (EvStreamStart s i hs b)"
  "\<not> completion (EvStreamChunk s b)" "\<not> completion (EvStreamEnd s)"
  "\<not> completion (EvStreamAbort s)" "\<not> completion (EvStreamNote s m)"
  "\<not> completion (EvLog i m)" "\<not> completion (EvJob j)" "\<not> completion (EvWsAccept s)"
  "\<not> completion (EvWsReject s)" "\<not> completion (EvWsSend s n b)"
  "\<not> completion (EvWsClose s c)" "\<not> completion (EvWsAck s c)"
  by (simp_all add: completion_def)

definition n_completions :: "ev list \<Rightarrow> nat" where
  "n_completions es = length (filter completion es)"

text \<open>The completions a run has made on behalf of one task.\<close>

fun completions :: "tid \<Rightarrow> act list \<Rightarrow> xst \<Rightarrow> nat" where
  "completions t [] st = 0"
| "completions t (a # as) st =
     (if actor a st = Some t then n_completions (emitted a st) else 0)
       + completions t as (exec_act a st)"

section \<open>What the invariant looks at\<close>

text \<open>
  One task's view of the state: its request's flags, its own mark and result, how many
  times its done-callback is queued, and whether a suspended emission is its own.
\<close>

definition flags :: "tid \<Rightarrow> xst \<Rightarrow> (bool \<times> bool) option" where
  "flags t st = map_option (\<lambda>y. (c_streaming y, c_completed y)) (cycle_of st t)"

definition core :: "tid \<Rightarrow> xst \<Rightarrow> (bool \<times> bool \<times> outcome option) option" where
  "core t st = map_option (\<lambda>k. (t_is_cycle k, m0_streaming k, t_outcome k)) (task_of st t)"

definition emitting :: "tid \<Rightarrow> frame \<Rightarrow> bool" where
  "emitting t f = (case f of FEmit c _ _ _ _ \<Rightarrow> c = t | FEmitDropped c _ _ \<Rightarrow> c = t | _ \<Rightarrow> False)"

definition suspended_in :: "tid \<Rightarrow> (nat \<rightharpoonup> frame \<times> wait \<times> bool) \<Rightarrow> bool" where
  "suspended_in t m \<longleftrightarrow> (\<exists>i f w b. m i = Some (f, w, b) \<and> emitting t f)"

definition suspended :: "tid \<Rightarrow> xst \<Rightarrow> bool" where
  "suspended t st \<longleftrightarrow> suspended_in t (parked st)"

definition queued :: "tid \<Rightarrow> xst \<Rightarrow> nat" where
  "queued t st = count_list (soon st) (RunTaskDone t)"

text \<open>
  The request's number of completions, by its phase, while the port is open; and what the
  fields must agree on.
\<close>

definition once :: "tid \<Rightarrow> nat \<Rightarrow> xst \<Rightarrow> bool" where
  "once t n st \<longleftrightarrow>
     (fresh st \<le> t \<longrightarrow> cycle_of st t = None \<and> task_of st t = None) \<and>
     (case (flags t st, core t st) of
        (None, None) \<Rightarrow> n = 0 \<and> queued t st = 0 \<and> \<not> suspended t st
      | (None, Some (is_cycle, mark, r)) \<Rightarrow>
          n = 0 \<and> \<not> is_cycle \<and> mark \<and> \<not> suspended t st
      | (Some _, None) \<Rightarrow> False
      | (Some (streaming, completed), Some (is_cycle, mark, r)) \<Rightarrow>
          is_cycle \<and> mark = streaming \<and>
          (suspended t st \<longrightarrow> streaming) \<and>
          queued t st \<le> 1 \<and> (0 < queued t st \<longrightarrow> r \<noteq> None) \<and>
          (r = Some (Returned None) \<longrightarrow> streaming \<or> completed) \<and>
          n \<le> 1 \<and>
          (\<not> streaming \<and> \<not> completed \<and> (r = None \<or> 0 < queued t st) \<longrightarrow> n = 0) \<and>
          (\<not> closed st \<longrightarrow>
             (streaming \<or> completed \<or> (r \<noteq> None \<and> queued t st = 0) \<longrightarrow> n = 1)))"

text \<open>The invariant depends on the view only.\<close>

definition same_view :: "tid \<Rightarrow> xst \<Rightarrow> xst \<Rightarrow> bool" where
  "same_view t st st' \<longleftrightarrow>
     flags t st' = flags t st \<and> core t st' = core t st \<and> queued t st' = queued t st \<and>
     (suspended t st' \<longrightarrow> suspended t st) \<and> (closed st \<longrightarrow> closed st') \<and>
     fresh st \<le> fresh st'"

lemma same_view_refl [simp]: "same_view t st st"
  by (simp add: same_view_def)

lemma same_view_trans: "same_view t st st1 \<Longrightarrow> same_view t st1 st2 \<Longrightarrow> same_view t st st2"
  by (auto simp: same_view_def)

lemma same_view_once: "same_view t st st' \<Longrightarrow> once t n st \<Longrightarrow> once t n st'"
  unfolding same_view_def once_def
  by (cases "flags t st"; cases "core t st")
     (auto simp: flags_def core_def split: prod.splits)

section \<open>What each operation leaves of the view\<close>

text \<open>The view as one value, so that one equation per operation frames all of it.\<close>

definition vw where
  "vw t st = (flags t st, core t st, queued t st, suspended t st, closed st, fresh st)"

lemmas vw_defs = vw_def flags_def core_def queued_def suspended_def

lemma suspended_wake [simp]: "suspended_in t (wake p m) = suspended_in t m"
  by (force simp: wake_def suspended_in_def)

lemma count_list_snoc [simp]: "count_list (xs @ [x]) y = count_list xs y + (if x = y then 1 else 0)"
  by (induction xs) auto

lemma vw_fields [simp]:
  fixes w :: xst
  shows "vw t (w\<lparr>credits := x1\<rparr>) = vw t w"
    "vw t (w\<lparr>inflight := x2\<rparr>) = vw t w"
    "vw t (w\<lparr>global_credit := x3\<rparr>) = vw t w"
    "vw t (w\<lparr>later_stop := x4\<rparr>) = vw t w"
    "vw t (w\<lparr>inboxes := x5\<rparr>) = vw t w"
    "vw t (w\<lparr>fut_done := x6\<rparr>) = vw t w"
    "vw t (w\<lparr>dispatched := x7\<rparr>) = vw t w"
    "vw t (w\<lparr>flush_armed := x8\<rparr>) = vw t w"
    "vw t (w\<lparr>draining := x9\<rparr>) = vw t w"
    "vw t (w\<lparr>start_drain := x10\<rparr>) = vw t w"
    "vw t (w\<lparr>credit_evts := x11\<rparr>) = vw t w"
    "vw t (w\<lparr>disconnects := x12\<rparr>) = vw t w"
    "vw t (w\<lparr>stream_tasks := x13\<rparr>) = vw t w"
    "vw t (w\<lparr>slot_task := x14\<rparr>) = vw t w"
    "vw t (w\<lparr>ws_inbox := x15\<rparr>) = vw t w"
    "vw t (w\<lparr>exec_tasks := x16\<rparr>) = vw t w"
    "vw t (w\<lparr>global_evt := x17\<rparr>) = vw t w"
    "vw t (w\<lparr>sock_of := x18\<rparr>) = vw t w"
    "vw t (w\<lparr>bus_of := x19\<rparr>) = vw t w"
    "vw t (w\<lparr>sub_reading := x20\<rparr>) = vw t w"
    "vw t (w\<lparr>ack_reading := x21\<rparr>) = vw t w"
    "vw t (w\<lparr>drain_at := x22\<rparr>) = vw t w"
  by (simp_all add: vw_defs)

lemma vw_prims [simp]:
  fixes st :: xst
  shows "vw t (set_event e st) = vw t st" "vw t (clear_event e st) = vw t st"
    "vw t (resolve_future f st) = vw t st" "vw t (queue_put q m st) = vw t st"
    "vw t (open_window slot st) = vw t st" "vw t (upd_sock c fs st) = vw t st"
  by (simp_all add: set_event_def clear_event_def resolve_future_def queue_put_def
      open_window_def upd_sock_def vw_defs)

lemma vw_call_soon [simp]: "cb \<noteq> RunTaskDone t \<Longrightarrow> vw t (call_soon cb st) = vw t st"
  by (simp add: call_soon_def vw_defs)

lemma vw_upd_task:
  "(\<And>k. t_is_cycle (f k) = t_is_cycle k \<and> m0_streaming (f k) = m0_streaming k
      \<and> t_outcome (f k) = t_outcome k) \<Longrightarrow> vw t (upd_task c f st) = vw t st"
  by (cases "task_of st t") (auto simp: upd_task_def vw_defs)

lemma vw_ops [simp]:
  "vw t (cancel_task c st) = vw t st" "vw t (mark_owner_gone slot st) = vw t st"
  "vw t (set_global_evt st) = vw t st" "vw t (arm_flush st) = vw t st"
  "vw t (exec_put e st) = vw t st" "vw t (start_drain_op st) = vw t st"
  "vw t (flush_op st) = vw t st" "vw t (resolve_disconnect slot st) = vw t st"
  "vw t (wake_slot slot st) = vw t st" "vw t (tell_inbox slot code st) = vw t st"
  "vw t (cancel_stream slot st) = vw t st"
  "vw t (exec_on_ws_message slot opcode payload st) = vw t st"
proof -
  show canc: "vw t (cancel_task c st) = vw t st" for c
    by (simp add: cancel_task_def vw_upd_task)
  show "vw t (mark_owner_gone slot st) = vw t st"
    by (simp add: mark_owner_gone_def vw_upd_task split: option.split)
  show arm: "vw t (arm_flush st) = vw t st" for st
    by (simp add: arm_flush_def)
  show "vw t (exec_put e st) = vw t st"
    by (simp add: exec_put_def Let_def arm)
  show drain: "vw t (start_drain_op st) = vw t st" for st
    by (simp add: start_drain_op_def)
  show "vw t (flush_op st) = vw t st"
    by (simp add: flush_op_def Let_def drain)
  show "vw t (cancel_stream slot st) = vw t st"
    by (simp add: cancel_stream_def canc split: option.split)
qed (simp_all add: set_global_evt_def resolve_disconnect_def wake_slot_def tell_inbox_def
      exec_on_ws_message_def Let_def split: option.split)

lemma vw_windows [simp]:
  fixes st :: xst
  shows "vw t (snd (release slot st)) = vw t st" "vw t (snd (ack_refund slot n st)) = vw t st"
    "vw t (ack_credit slot n st) = vw t st"
  by (auto simp: release_def ack_refund_def ack_credit_def Let_def split: option.split)

lemma vw_charge: "charge slot n st = Some st' \<Longrightarrow> vw t st' = vw t st" for st :: xst
  by (auto simp: charge_def split: option.splits)

lemma vw_slot_ops [simp]:
  "vw t (release_slot slot st) = vw t st" "vw t (exec_cleanup_slot slot st) = vw t st"
  "vw t (exec_on_disconnect slot code st) = vw t st" "vw t (exec_on_ack slot n st) = vw t st"
  "vw t (on_ack d st) = vw t st" "vw t (drop_ownership slot c st) = vw t st"
  "vw t (put_jobs js st) = vw t st" "vw t (on_submit d st) = vw t st"
proof -
  show rel: "vw t (release_slot slot st) = vw t st" for slot st
    using vw_windows(1) [of t slot st] by (cases "release slot st") (auto simp: release_slot_def)
  show cl: "vw t (exec_cleanup_slot slot st) = vw t st" for slot st
    by (simp add: exec_cleanup_slot_def Let_def rel)
  show dis: "vw t (exec_on_disconnect slot code st) = vw t st" for slot code st
    by (simp add: exec_on_disconnect_def rel)
  show ack: "vw t (exec_on_ack slot n st) = vw t st" for slot n st
  proof -
    let ?st1 = "case credits st slot of None \<Rightarrow> st | Some _ \<Rightarrow> wake_slot slot (ack_credit slot n st)"
    have "vw t (snd (ack_refund slot n ?st1)) = vw t st"
      by (simp split: option.split)
    then show ?thesis
      by (cases "ack_refund slot n ?st1") (simp add: exec_on_ack_def Let_def)
  qed
  show "vw t (on_ack d st) = vw t st" by (simp add: on_ack_def ack split: option.split)
  show "vw t (drop_ownership slot c st) = vw t st" by (simp add: drop_ownership_def Let_def cl)
  show jobs: "vw t (put_jobs js st) = vw t st" for js
    unfolding put_jobs_def by (induction js arbitrary: st) simp_all
  show "vw t (on_submit d st) = vw t st"
    by (simp add: on_submit_def dis jobs split: option.split submit.split)
qed

section \<open>Emitting\<close>

text \<open>
  What an emission for task \<open>c\<close> may do: nothing to any view, but for completing \<open>c\<close>,
  and no completion among its events.
\<close>

definition same_or_completed :: "('a \<times> bool) option \<times> 'b \<Rightarrow> ('a \<times> bool) option \<times> 'b \<Rightarrow> bool" where
  "same_or_completed v v' \<longleftrightarrow>
     v' = v \<or> (\<exists>s k r. v = (Some (s, k), r) \<and> v' = (Some (s, True), r))"

lemma same_or_completed_refl [simp]: "same_or_completed v v"
  by (simp add: same_or_completed_def)

lemma same_or_completed_trans:
  "same_or_completed u v \<Longrightarrow> same_or_completed v w \<Longrightarrow> same_or_completed u w"
  by (auto simp: same_or_completed_def)

definition only_completes :: "tid \<Rightarrow> xst \<Rightarrow> xst \<Rightarrow> bool" where
  "only_completes c st st' \<longleftrightarrow>
     (\<forall>t. t \<noteq> c \<longrightarrow> vw t st' = vw t st) \<and>
     same_or_completed (vw c st) (vw c st') \<and>
     emits (\<lambda>e. \<not> completion e) st st'"

lemma only_completes_refl [simp]: "only_completes c st st"
  by (simp add: only_completes_def)

lemma only_completes_trans:
  "only_completes c st st1 \<Longrightarrow> only_completes c st1 st2 \<Longrightarrow> only_completes c st st2"
  unfolding only_completes_def
  by (metis emits_trans same_or_completed_trans)

lemma only_completes_vw:
  "(\<And>t. vw t st' = vw t st) \<Longrightarrow> emits (\<lambda>e. \<not> completion e) st st' \<Longrightarrow> only_completes c st st'"
  by (simp add: only_completes_def)

lemma emit_piece_vw:
  "vw t (piece_state (emit_piece c slot pc p st)) = vw t st"
  "emits (\<lambda>e. \<not> completion e) st (piece_state (emit_piece c slot pc p st))"
  by (auto simp: emit_piece_def emit_credit_def emit_global_def emit_charge_def vw_charge
      emits_def dispatched_charge split: wait_pc.split option.split)

lemma vw_complete:
  "vw t (upd_cycle c (\<lambda>y. y\<lparr>c_completed := True\<rparr>) st) =
    (if t = c then (map_option (\<lambda>(s, k). (s, True)) (flags c st), snd (vw c st)) else vw t st)"
  by (cases "cycle_of st c") (auto simp: upd_cycle_def vw_defs)

lemma vw_end_stream:
  "vw t (end_stream c slot st) =
    (if t = c then (map_option (\<lambda>(s, k). (s, True)) (flags c st), snd (vw c st)) else vw t st)"
  by (simp add: end_stream_def Let_def vw_complete del: map_option_case)

lemma end_stream_only_completes: "only_completes c st (end_stream c slot st)"
proof -
  have "same_or_completed (vw c st) (vw c (end_stream c slot st))"
    unfolding same_or_completed_def vw_end_stream
    by (cases "flags c st") (auto simp: vw_def)
  moreover have "emits (\<lambda>e. \<not> completion e) st (end_stream c slot st)"
    by (auto simp: end_stream_def Let_def emits_def)
  ultimately show ?thesis by (simp add: only_completes_def vw_end_stream)
qed

lemma emit_only_completes:
  "only_completes c st (fst (emit_all c slot ds final st))"
  "only_completes c st (fst (emit_from c slot pc ps ds final st))"
proof -
  have piece: "only_completes c st s \<Longrightarrow>
      only_completes c st (piece_state (emit_piece c slot pc p s))" for pc p s
    by (erule only_completes_trans) (rule only_completes_vw; rule emit_piece_vw)
  have fin: "only_completes c st s \<Longrightarrow> only_completes c st (end_stream c slot s)" for s
    by (erule only_completes_trans) (rule end_stream_only_completes)
  show "only_completes c st (fst (emit_all c slot ds final st))"
    by (rule emit_all_keeps [where P = "only_completes c st"]) (simp_all add: piece fin)
  show "only_completes c st (fst (emit_from c slot pc ps ds final st))"
    by (rule emit_from_keeps [where P = "only_completes c st"]) (simp_all add: piece fin)
qed

text \<open>A segment for \<open>c\<close> parks no emission of another task.\<close>

definition parks_own :: "tid \<Rightarrow> xst \<times> seg \<Rightarrow> bool" where
  "parks_own c r \<longleftrightarrow> (\<forall>f w t. snd r = Park f w \<longrightarrow> emitting t f \<longrightarrow> t = c)"

lemma emit_pieces_parks:
  "emit_pieces c slot pc ps ds final st = Inl r \<Longrightarrow> parks_own c r"
  by (induction ps arbitrary: pc st)
     (auto simp: parks_own_def emitting_def split: piece_result.splits)

lemma emit_all_parks: "parks_own c (emit_all c slot ds final st)"
proof (induction ds arbitrary: st)
  case Nil
  then show ?case by (simp add: after_emit_def parks_own_def)
next
  case (Cons d ds)
  then show ?case
    using emit_pieces_parks [of c slot AtTop "pieces_of d" ds final st]
    by (auto split: sum.split)
qed

lemma emit_from_parks: "parks_own c (emit_from c slot pc ps ds final st)"
  using emit_pieces_parks [of c slot pc ps ds final st] emit_all_parks
  by (auto simp: emit_from_def split: sum.split)

lemma parks_own_simps [simp]:
  "parks_own c (st, Ret x)" "parks_own c (st, Throw e)" "parks_own c (st, Park FDropped w)"
  "parks_own c (st, Park (FHttpReceive u) w)" "parks_own c (st, Park (FWsReceive u) w)"
  "parks_own c (st, Park (FWsSend u pc n b) w)" "parks_own c (st, Park (FWsClose u pc i) w)"
  by (simp_all add: parks_own_def emitting_def)

section \<open>Steps of others\<close>

lemma same_view_vw: "vw t st' = vw t st \<Longrightarrow> same_view t st st'"
  by (simp add: vw_def same_view_def)

lemma same_view_fresh: "vw t st' = vw t (st\<lparr>fresh := n\<rparr>) \<Longrightarrow> fresh st \<le> n \<Longrightarrow> same_view t st st'"
  by (simp add: vw_defs same_view_def)

lemma same_view_settle:
  assumes "same_view t st (fst r)" and "parks_own c r" and "c \<noteq> t"
  shows "same_view t st (settle r)"
proof (cases "snd r")
  case (Park f w)
  have "\<not> emitting t f" using assms(2,3) Park by (auto simp: parks_own_def)
  then have "same_view t (fst r) (settle r)"
    using Park by (cases r)
      (auto simp: settle_def new_id_def same_view_def flags_def core_def queued_def
        suspended_def suspended_in_def split: if_splits)
  then show ?thesis using assms(1) same_view_trans by blast
qed (use assms(1) in \<open>cases r; simp add: settle_def\<close>)+

lemma only_completes_other:
  "only_completes c st st' \<Longrightarrow> t \<noteq> c \<Longrightarrow> same_view t st st'"
  by (simp add: only_completes_def same_view_vw)

lemma vw_upd_cycle_other: "t \<noteq> c \<Longrightarrow> vw t (upd_cycle c f st) = vw t st"
  by (simp add: upd_cycle_def vw_defs)

lemma vw_upd_task_other: "t \<noteq> c \<Longrightarrow> vw t (upd_task c f st) = vw t st"
  by (simp add: upd_task_def vw_defs)

lemma start_stream_other: "t \<noteq> c \<Longrightarrow> same_view t st (start_stream c slot s hs st)"
  by (rule same_view_fresh [where n = "Suc (fresh st)"])
     (auto simp: start_stream_def Let_def new_event_def upd_cycle_def upd_task_def
        open_window_def vw_defs exec_put_def arm_flush_def call_soon_def)

lemma answer_head_other: "t \<noteq> c \<Longrightarrow> vw t (answer_head c slot s hs st) = vw t st"
  by (simp add: answer_head_def Let_def vw_upd_cycle_other split: option.split)

lemma http_send_other:
  assumes "t \<noteq> c"
  shows "same_view t st (fst (http_send c m st))" and "parks_own c (http_send c m st)"
proof -
  have emit: "same_view t s (fst (emit_all c slot ds final s))" for slot ds final s
    by (rule only_completes_other [OF emit_only_completes(1) assms])
  have start: "same_view t st (fst (emit_all c slot ds final (start_stream c slot s hs st)))"
    for slot ds final s hs
    by (rule same_view_trans [OF start_stream_other [OF assms] emit])
  show "same_view t st (fst (http_send c m st))"
    by (auto simp: http_send_def send_body_def Let_def emit start vw_upd_cycle_other assms
        answer_head_other intro: same_view_vw split: option.split asgi_msg.split)
  show "parks_own c (http_send c m st)"
    by (auto simp: http_send_def send_body_def Let_def emit_all_parks
        split: option.split asgi_msg.split)
qed

lemma http_receive_view:
  "same_view t st (fst (http_receive c st))" "parks_own u (http_receive c st)"
proof -
  have deliver: "same_view t st (upd_cycle c (\<lambda>y. y\<lparr>c_delivered := True\<rparr>) st)"
    by (cases "cycle_of st c") (auto simp: upd_cycle_def vw_defs intro!: same_view_vw)
  show "same_view t st (fst (http_receive c st))"
    by (auto simp: http_receive_def Let_def new_id_def deliver vw_defs
        intro: same_view_vw same_view_fresh [where n = "Suc (fresh st)"] split: option.split)
  show "parks_own u (http_receive c st)"
    by (auto simp: http_receive_def Let_def new_id_def split: option.split)
qed

lemma ws_spend_vw:
  "case ws_spend slot u pc n st of Spent s \<Rightarrow> vw t s = vw t st | SpendGone s \<Rightarrow> vw t s = vw t st
    | SpendWaits s w p \<Rightarrow> vw t s = vw t st | SpendKeyError s \<Rightarrow> vw t s = vw t st"
  by (auto simp: ws_spend_def spend_credit_def spend_global_def spend_charge_def vw_charge
      split: wait_pc.split option.split)

lemma ws_put_view:
  "vw t (fst (ws_put_frame u slot pc opcode payload st)) = vw t st"
  "parks_own c (ws_put_frame u slot pc opcode payload st)"
  "vw t (fst (ws_put_close u slot pc code st)) = vw t st"
  "parks_own c (ws_put_close u slot pc code st)"
  using ws_spend_vw [where slot = slot and u = u and pc = pc and st = st and t = t
      and n = "ws_frame_bytes (length payload)"]
    ws_spend_vw [where slot = slot and u = u and pc = pc and st = st and t = t
      and n = "ws_frame_bytes 2"]
  by (auto simp: ws_put_frame_def ws_put_close_def split: spend_result.splits)

lemma ws_accept_view: "same_view t st (ws_accept u slot st)"
  by (rule same_view_fresh [where n = "Suc (fresh st)"])
     (auto simp: ws_accept_def Let_def new_event_def upd_sock_def open_window_def vw_defs
        exec_put_def arm_flush_def call_soon_def)

lemma ws_send_view:
  "same_view t st (fst (ws_send u m st))" "parks_own c (ws_send u m st)"
  by (auto simp: ws_send_def ws_close_def Let_def ws_put_view ws_accept_view
      intro: same_view_vw split: option.split asgi_msg.split)

lemma ws_get_view: "vw t (fst (ws_get u s st)) = vw t st" "parks_own c (ws_get u s st)"
  by (auto simp: ws_get_def ws_consume_def Let_def split: list.split recv_msg.split)

lemma ws_receive_view:
  "same_view t st (fst (ws_receive u st))" "parks_own c (ws_receive u st)"
  by (auto simp: ws_receive_def ws_get_view intro: same_view_vw split: option.split)

end
