(* ===== verification/Exec_Once_Run.thy ===== *)
theory Exec_Once_Run
  imports Exec_Once
begin

text \<open>
  The invariant \<open>once\<close> is kept by every action: the steps of other tasks leave its view
  alone, the task's own steps move it from phase to phase, and the number of completions
  moves with it.
\<close>

section \<open>Completions among the events of one step\<close>

lemma n_completions_new:
  assumes "emits (\<lambda>e. \<not> completion e) st st'"
  shows "n_completions (drop (length (dispatched st)) (dispatched st')) = 0"
  using assms by (auto simp: emits_def n_completions_def list_all_iff filter_empty_conv)

definition new_completions :: "xst \<Rightarrow> xst \<Rightarrow> nat" where
  "new_completions st st' = n_completions (drop (length (dispatched st)) (dispatched st'))"

lemma new_completions_none: "emits (\<lambda>e. \<not> completion e) st st' \<Longrightarrow> new_completions st st' = 0"
  by (simp add: new_completions_def n_completions_new)

lemma new_completions_then_none:
  assumes "dispatched st1 = dispatched st @ es" and "emits (\<lambda>e. \<not> completion e) st1 st'"
  shows "new_completions st st' = n_completions es"
  using assms
  by (auto simp: emits_def new_completions_def n_completions_def list_all_iff filter_empty_conv)

section \<open>Moves of the invariant\<close>

lemma once_unfold_cycle:
  assumes "flags t st = Some (s, k)" and "core t st = Some (ic, m, r)"
  shows "once t n st \<longleftrightarrow>
     t < fresh st \<and> ic \<and> m = s \<and> (suspended t st \<longrightarrow> s) \<and>
     queued t st \<le> 1 \<and> (0 < queued t st \<longrightarrow> r \<noteq> None) \<and>
     (r = Some (Returned None) \<longrightarrow> s \<or> k) \<and> n \<le> 1 \<and>
     (\<not> s \<and> \<not> k \<and> (r = None \<or> 0 < queued t st) \<longrightarrow> n = 0) \<and>
     (\<not> closed st \<longrightarrow> (s \<or> k \<or> (r \<noteq> None \<and> queued t st = 0) \<longrightarrow> n = 1))"
proof -
  have "cycle_of st t \<noteq> None" using assms by (auto simp: flags_def)
  then have "(fresh st \<le> t \<longrightarrow> cycle_of st t = None \<and> task_of st t = None) \<longleftrightarrow> t < fresh st"
    by auto
  then show ?thesis
    unfolding once_def assms by (simp only: prod.case option.case)
qed

lemma once_core:
  assumes "once t n st" and "flags t st = Some (s, k)"
  obtains r where "core t st = Some (True, s, r)"
  using assms unfolding once_def by (cases "core t st") auto

lemma once_answered:
  assumes on: "once t n st" and fl: "flags t st = Some (False, False)"
    and co: "core t st = Some (ic, m, None)"
    and "flags t st' = Some (s, k)" and "s \<or> k" and "core t st' = Some (ic, s, None)"
    and "queued t st' = queued t st" and "suspended t st' \<longrightarrow> suspended t st"
    and "closed st' = closed st" and "fresh st \<le> fresh st'"
    and "j = (if closed st then 0 else 1)"
  shows "once t (n + j) st'"
  using on assms(5,7-)
  unfolding once_unfold_cycle [OF fl co] once_unfold_cycle [OF assms(4,6)]
  by (simp split: if_splits)

lemma settle_view:
  assumes "snd r = Park f w"
  shows "flags t (settle r) = flags t (fst r)" "core t (settle r) = core t (fst r)"
    "queued t (settle r) = queued t (fst r)" "closed (settle r) = closed (fst r)"
    "fresh (settle r) = Suc (fresh (fst r))"
    "suspended t (settle r) \<longrightarrow> suspended t (fst r) \<or> emitting t f"
  using assms
  by (cases r; auto simp: settle_def new_id_def flags_def core_def queued_def
        suspended_def suspended_in_def split: if_splits)+

lemma settle_no_park: "(\<And>f w. snd r \<noteq> Park f w) \<Longrightarrow> settle r = fst r"
  by (cases r; cases "snd r") (auto simp: settle_def)

lemma once_settle:
  assumes on: "once t n (fst r)" and sk: "flags t (fst r) = Some (s, k)"
    and em: "\<And>f w. snd r = Park f w \<Longrightarrow> emitting t f \<Longrightarrow> s"
  shows "once t n (settle r)"
proof (cases "\<exists>f w. snd r = Park f w")
  case True
  then obtain f w where park: "snd r = Park f w" by blast
  obtain q where q: "core t (fst r) = Some (True, s, q)" using once_core [OF on sk] .
  have "flags t (settle r) = Some (s, k)" "core t (settle r) = Some (True, s, q)"
    using settle_view [OF park] sk q by simp_all
  from once_unfold_cycle [OF this] show ?thesis
    using on settle_view(3-6) [OF park] settle_view(3,6) [OF park, of t] em [OF park] unfolding once_unfold_cycle [OF sk q] by auto
qed (use on settle_no_park in metis)

lemma once_stream:
  assumes on: "once t n st" and fl: "flags t st = Some (True, k)"
    and oc: "only_completes t st st'"
  shows "once t n st' \<and> (\<exists>k'. flags t st' = Some (True, k'))"
proof -
  obtain q where q: "core t st = Some (True, True, q)" using once_core [OF on fl] .
  from oc have "same_or_completed (vw t st) (vw t st')"
    by (simp add: only_completes_def)
  then obtain k' where v: "flags t st' = Some (True, k')" "snd (vw t st') = snd (vw t st)"
    using fl by (auto simp: same_or_completed_def vw_def)
  then have co: "core t st' = Some (True, True, q)" using q by (simp add: vw_def)
  show ?thesis
    using on v unfolding once_unfold_cycle [OF fl q] once_unfold_cycle [OF v(1) co]
    by (simp add: vw_def)
qed

text \<open>
  A step of \<open>t\<close> as a segment: \<open>step_once\<close> says that the invariant moves from \<open>n\<close> by the
  completions the segment makes.
\<close>

definition step_once :: "tid \<Rightarrow> nat \<Rightarrow> xst \<Rightarrow> xst \<Rightarrow> bool" where
  "step_once t n st st' \<longleftrightarrow> once t (n + new_completions st st') st'"

lemma step_once_idle:
  assumes on: "once t n st" and fl: "flags t st = Some (s, k)"
    and sv: "same_view t st (fst r)" and d: "dispatched (fst r) = dispatched st"
    and em: "\<And>f w. snd r = Park f w \<Longrightarrow> \<not> emitting t f"
  shows "step_once t n st (settle r)"
proof -
  have "new_completions st (settle r) = 0"
    using d by (intro new_completions_none emits_same) simp
  moreover have "once t n (settle r)"
    using em sv fl by (intro once_settle [OF same_view_once [OF sv on]]) (auto simp: same_view_def)
  ultimately show ?thesis by (simp add: step_once_def)
qed

lemma once_emission:
  assumes on: "once t n st" and fl: "flags t st = Some (True, k)"
    and oc: "only_completes t st (fst r)"
  shows "once t n (settle r)"
  using once_stream [OF on fl oc] by (auto intro: once_settle)

lemma step_once_emission:
  assumes "once t n st" and "flags t st = Some (True, k)" and oc: "only_completes t st (fst r)"
  shows "step_once t n st (settle r)"
proof -
  have "new_completions st (settle r) = 0"
    using oc by (intro new_completions_none) (auto simp: only_completes_def emits_def)
  then show ?thesis using once_emission [OF assms] by (simp add: step_once_def)
qed

section \<open>Sending\<close>

lemma start_stream_view:
  assumes "cycle_of st c = Some y" and "task_of st c = Some k"
  shows "flags c (start_stream c slot s hs st) = Some (True, c_completed y)"
    and "core c (start_stream c slot s hs st) = Some (t_is_cycle k, True, t_outcome k)"
    and "queued c (start_stream c slot s hs st) = queued c st"
    and "suspended c (start_stream c slot s hs st) = suspended c st"
    and "closed (start_stream c slot s hs st) = closed st"
    and "fresh (start_stream c slot s hs st) = Suc (fresh st)"
  using assms
  by (auto simp: start_stream_def Let_def new_event_def upd_cycle_def upd_task_def
      open_window_def vw_defs exec_put_def arm_flush_def call_soon_def)

lemma answer_head_view:
  assumes "cycle_of st c = Some y"
  shows "flags c (answer_head c slot s hs st) = Some (c_streaming y, True)"
    and "core c (answer_head c slot s hs st) = core c st"
    and "queued c (answer_head c slot s hs st) = queued c st"
    and "suspended c (answer_head c slot s hs st) = suspended c st"
    and "closed (answer_head c slot s hs st) = closed st"
    and "fresh (answer_head c slot s hs st) = fresh st"
  using assms
  by (auto simp: answer_head_def Let_def resolve_future_def upd_cycle_def vw_defs exec_put_def
      arm_flush_def call_soon_def split: option.split)

text \<open>The four ways \<open>send\<close> deals with a body.\<close>

lemma step_once_answer:
  assumes on: "once t n st" and fl: "flags t st = Some (False, False)"
    and co: "core t st = Some (ic, m, None)"
    and v: "flags t st' = Some (False, True)" "core t st' = core t st"
      "queued t st' = queued t st" "suspended t st' = suspended t st"
      "closed st' = closed st" "fresh st' = fresh st"
    and d: "dispatched st' = (if closed st then dispatched st else dispatched st @ [EvDone s i h b])"
  shows "step_once t n st st'"
proof -
  have "new_completions st st' = (if closed st then 0 else 1)"
    using d by (simp add: new_completions_def n_completions_def)
  moreover have "core t st' = Some (ic, False, None)"
    using v(2) co once_core [OF on fl] by force
  ultimately show ?thesis
    using once_answered [OF on fl co v(1)] v unfolding step_once_def by simp
qed

lemma step_once_switch:
  assumes on: "once t n st" and y: "cycle_of st t = Some y" and k: "task_of st t = Some k"
    and open1: "t_outcome k = None" "\<not> c_completed y" "\<not> c_streaming y"
    and oc: "only_completes t (start_stream t slot status hs st) (fst r)"
  shows "step_once t n st (settle r)"
proof -
  let ?s = "start_stream t slot status hs st"
  let ?j = "if closed st then 0 else Suc 0"
  have fl: "flags t st = Some (False, False)" using y open1 by (simp add: flags_def)
  have co: "core t st = Some (t_is_cycle k, m0_streaming k, None)"
    using k open1 by (simp add: core_def)
  note sv = start_stream_view [OF y k, of slot status hs]
  have "once t (n + ?j) ?s"
    by (rule once_answered [OF on fl co sv(1)]) (use sv open1 in auto)
  then have "once t (n + ?j) (settle r)" by (rule once_emission [OF _ sv(1) oc])
  moreover have "new_completions st (settle r) = ?j"
    using oc
    by (subst new_completions_then_none [where ?st1.0 = ?s and es =
          "if closed st then [] else [EvStreamStart slot status hs []]"])
       (auto simp: dispatched_start_stream only_completes_def emits_def n_completions_def)
  ultimately show ?thesis by (simp add: step_once_def)
qed

lemma buffered_view:
  assumes "cycle_of st t = Some y"
  shows "same_view t st (upd_cycle t (\<lambda>_. y\<lparr>c_chunks := a, c_total := b\<rparr>) st)"
    and "same_view t st (upd_cycle t (\<lambda>y. y\<lparr>c_status := s, c_headers := h\<rparr>) st)"
    and "flags t (upd_cycle t (\<lambda>_. y\<lparr>c_chunks := a, c_total := b, c_completed := True\<rparr>) st)
      = Some (c_streaming y, True)"
    and "vw t (upd_cycle t (\<lambda>_. z) st) = (Some (c_streaming z, c_completed z), snd (vw t st))"
  using assms by (auto simp: upd_cycle_def vw_defs same_view_def)

lemma upd_cycle_fields:
  "dispatched (upd_cycle t f st) = dispatched st" "closed (upd_cycle t f st) = closed st"
  by (simp_all add: upd_cycle_def)

lemma step_once_send_body:
  assumes on: "once t n st" and y: "cycle_of st t = Some y" and k: "task_of st t = Some k"
    and live: "t_outcome k = None" "\<not> c_completed y"
  shows "step_once t n st (settle (send_body t y chunk more_body st))"
proof (cases "c_streaming y")
  case True
  have "flags t st = Some (True, c_completed y)" using y True by (simp add: flags_def)
  from step_once_emission [OF on this emit_only_completes(1)] True show ?thesis
    by (simp add: send_body_def)
next
  case False
  have fl: "flags t st = Some (False, False)" using y live False by (simp add: flags_def)
  have co: "core t st = Some (t_is_cycle k, m0_streaming k, None)"
    using k live by (simp add: core_def)
  note idle = step_once_idle [OF on fl]
  note answer = step_once_answer [OF on fl co]
  have head: "step_once t n st (answer_head t (c_slot y) s hs st)" for s hs
    by (rule answer) (use answer_head_view [OF y, of "c_slot y" s hs] False in
      \<open>auto simp: dispatched_answer_head\<close>)
  have final: "step_once t n st (exec_put (EvDone sl s hs b) (upd_cycle t (\<lambda>_. z) st))"
    if "c_streaming z = False" "c_completed z = True" for sl s hs b z
  proof -
    have v: "vw t (exec_put (EvDone sl s hs b) (upd_cycle t (\<lambda>_. z) st))
        = (Some (False, True), snd (vw t st))"
      using buffered_view(4) [OF y] that by simp
    show ?thesis
      by (rule answer [where s = sl and i = s and h = hs and b = b])
         (use v [unfolded vw_def] in \<open>simp_all add: upd_cycle_fields\<close>)
  qed
  have throw: "step_once t n st (settle (s, Throw e))" if "same_view t st s" "dispatched s = dispatched st" for s e
    using idle [of "(s, Throw e)"] that by simp
  show ?thesis
  proof (cases "c_status y")
    case None
    then show ?thesis using False throw by (simp add: send_body_def)
  next
    case (Some status)
    show ?thesis
    proof (cases more_body)
      case True
      then show ?thesis
        using Some False head live
          step_once_switch [OF on y k live(1,2) False emit_only_completes(1)]
        by (simp add: send_body_def settle_def)
    next
      case body: False
      have over: "same_view t st (upd_cycle t (\<lambda>_. y\<lparr>c_chunks := a, c_total := b\<rparr>) st)" for a b
        by (rule buffered_view(1) [OF y])
      show ?thesis
        using Some False body throw [OF over] final
        by (simp add: send_body_def settle_def Let_def upd_cycle_def)
    qed
  qed
qed


lemma step_once_send:
  assumes on: "once t n st" and c: "cycle_of st t \<noteq> None"
  shows "step_once t n st (settle (http_send t m st))"
proof -
  obtain y where y: "cycle_of st t = Some y" using c by blast
  then have fl: "flags t st = Some (c_streaming y, c_completed y)" by (simp add: flags_def)
  obtain q where "core t st = Some (True, c_streaming y, q)" using once_core [OF on fl] .
  then obtain k where k: "task_of st t = Some k" "t_outcome k = q" by (auto simp: core_def)
  note idle = step_once_idle [OF on fl]
  show ?thesis
  proof (cases "c_completed y \<or> task_done st t")
    case True
    then show ?thesis using idle [of "(st, Park FDropped ForYield)"] y
      by (simp add: http_send_def emitting_def)
  next
    case False
    then have "t_outcome k = None" using k by (simp add: task_done_def)
    then have body: "step_once t n st (settle (send_body t y b e st))" for b e
      using step_once_send_body [OF on y k(1)] False by blast
    have start: "step_once t n st (settle (upd_cycle t (\<lambda>y. y\<lparr>c_status := s, c_headers := h\<rparr>) st, Ret x))"
      for s h x
      using idle [of "(upd_cycle t (\<lambda>y. y\<lparr>c_status := s, c_headers := h\<rparr>) st, Ret x)"]
        buffered_view(2) [OF y] by (simp add: upd_cycle_fields)
    have ret: "step_once t n st (settle (st, Ret x))" for x
      using idle [of "(st, Ret x)"] by simp
    show ?thesis
      using False y by (cases m) (auto simp: http_send_def intro: body start ret)
  qed
qed

section \<open>The end of a request\<close>

lemma step_once_same_view:
  assumes "once t n st" and "same_view t st st'" and "emits (\<lambda>e. \<not> completion e) st st'"
  shows "step_once t n st st'"
  using assms by (simp add: step_once_def new_completions_none same_view_once)

lemma emits_exec_put: "\<not> completion e \<Longrightarrow> emits (\<lambda>e. \<not> completion e) st (exec_put e st)"
  by (simp add: emits_def)

lemma run_finish_view:
  assumes y: "cycle_of st t = Some y" and k: "task_of st t = Some k"
  shows "flags t (run_finish t e st) = flags t st"
    and "core t (run_finish t e st) =
      Some (t_is_cycle k, m0_streaming k, Some (finish_outcome y e))"
    and "queued t (run_finish t e st) = Suc (queued t st)"
    and "suspended t (run_finish t e st) = suspended t st"
    and "closed (run_finish t e st) = closed st" and "fresh (run_finish t e st) = fresh st"
    and "emits (\<lambda>e. \<not> completion e) st (run_finish t e st)"
  using assms
  by (auto simp: run_finish_def Let_def upd_cycle_def upd_task_def vw_defs emits_def exec_put_def
      arm_flush_def call_soon_def)

lemma finish_outcome_none: "finish_outcome y e = Returned None \<Longrightarrow> c_streaming y \<or> c_completed y"
  by (auto simp: finish_outcome_def split: option.splits if_splits)

lemma step_once_finish:
  assumes on: "once t n st" and y: "cycle_of st t = Some y" and busy: "\<not> task_done st t"
  shows "step_once t n st (run_finish t e st)"
proof -
  obtain k where k: "task_of st t = Some k" "t_outcome k = None"
    using busy by (auto simp: task_done_def split: option.splits)
  have fl: "flags t st = Some (c_streaming y, c_completed y)" using y by (simp add: flags_def)
  have co: "core t st = Some (t_is_cycle k, m0_streaming k, None)" using k by (simp add: core_def)
  note v = run_finish_view [OF y k(1), of e]
  have "once t n (run_finish t e st)"
    using on v(3-6) finish_outcome_none [of y e]
    unfolding once_unfold_cycle [OF fl co] once_unfold_cycle [OF v(1) [unfolded fl] v(2)] by auto
  then show ?thesis using v(7) by (simp add: step_once_def new_completions_none)
qed

text \<open>The view after the head of the callback queue has been taken.\<close>

lemma queued_pop:
  "soon st = cb # cbs \<Longrightarrow>
     queued t st = queued t (st\<lparr>soon := cbs\<rparr>) + (if cb = RunTaskDone t then 1 else 0)"
  by (simp add: queued_def)

text \<open>
  The done-callback of a request: one completion exactly when neither its stream nor its
  final body was the answer and the port is open.
\<close>

lemma done_emits:
  assumes y: "cycle_of st t = Some y" and k: "task_of st t = Some k"
    and r: "t_outcome k \<noteq> None" "t_outcome k = Some (Returned None) \<longrightarrow> c_streaming y \<or> c_completed y"
    and mark: "m0_streaming k = c_streaming y"
  shows "new_completions st (cycle_done t st) =
    (if c_streaming y \<or> c_completed y \<or> closed st then 0 else 1)"
proof -
  have q: "new_completions st (exec_put e st1) = (if closed st then 0 else n_completions [e])"
    if "dispatched st1 = dispatched st" "closed st1 = closed st" for e st1
    using that by (simp add: new_completions_def n_completions_def)
  have z: "new_completions st st1 = 0" if "dispatched st1 = dispatched st" for st1
    using that by (simp add: new_completions_def n_completions_def)
  have d: "dispatched (drop_ownership s t st) = dispatched st"
    "closed (drop_ownership s t st) = closed st" for s
    using vw_slot_ops(6) [of t s t st] by (simp_all add: vw_def)
  show ?thesis
    using assms
    by (auto simp: cycle_done_def on_task_done_def Let_def q z d n_completions_def
        split: outcome.splits option.splits)
qed

lemma cycle_done_vw: "vw u (cycle_done t st) = vw u st" "vw u (on_task_done s t st) = vw u st"
proof -
  show o: "vw u (on_task_done s t st) = vw u st" for s
    by (simp add: on_task_done_def Let_def split: option.split outcome.split)
  show "vw u (cycle_done t st) = vw u st"
    by (simp add: cycle_done_def Let_def o split: option.split outcome.split)
qed


lemma step_once_done:
  assumes on: "once t n st" and soon: "soon st = RunTaskDone t # cbs"
  shows "step_once t n st (run_callback (RunTaskDone t) (st\<lparr>soon := cbs\<rparr>))"
proof -
  let ?p = "st\<lparr>soon := cbs\<rparr>"
  have q: "queued t st = Suc (queued t ?p)" using queued_pop [OF soon] by simp
  have eq: "flags t ?p = flags t st" "core t ?p = core t st" "suspended t ?p = suspended t st"
    "closed ?p = closed st" "fresh ?p = fresh st" "task_of ?p = task_of st" "cycle_of ?p = cycle_of st"
    by (simp_all add: vw_defs)
  have nc: "new_completions st s = new_completions ?p s" for s by (simp add: new_completions_def)
  show ?thesis
  proof (cases "task_of st t")
    case None
    then have co: "core t st = None" by (simp add: core_def)
    then show ?thesis using on q unfolding once_def by (cases "flags t st") auto
  next
    case (Some k)
    then have co: "core t st = Some (t_is_cycle k, m0_streaming k, t_outcome k)"
      by (simp add: core_def)
    show ?thesis
    proof (cases "cycle_of st t")
      case None
      then have fl: "flags t st = None" by (simp add: flags_def)
      have ws: "\<not> t_is_cycle k" "m0_streaming k" "n = 0" "\<not> suspended t st"
        using on unfolding once_def fl co by simp_all
      have "new_completions ?p (on_task_done (t_slot k) t ?p) = 0"
        using ws vw_slot_ops(6) [of t "t_slot k" t ?p]
        by (intro new_completions_none)
           (auto simp: on_task_done_def Let_def Some emits_def vw_def split: option.split outcome.split)
      moreover have "once t n (on_task_done (t_slot k) t ?p)"
      proof -
        let ?s = "on_task_done (t_slot k) t ?p"
        have v: "flags t ?s = None" "core t ?s = core t st" "suspended t ?s = suspended t st"
          "fresh ?s = fresh st"
          using cycle_done_vw(2) [of t "t_slot k" t ?p] eq fl by (simp_all add: vw_def)
        have "cycle_of ?s t = None" "task_of ?s t = None \<longleftrightarrow> task_of st t = None"
          using v(1,2) by (auto simp: flags_def core_def)
        then show ?thesis
          using on v unfolding once_def fl co by (simp add: co)
      qed
      ultimately show ?thesis using ws Some by (simp add: run_callback_def step_once_def nc)
    next
      case y: (Some y)
      then have fl: "flags t st = Some (c_streaming y, c_completed y)" by (simp add: flags_def)
      have inv0: "t_is_cycle k" "m0_streaming k = c_streaming y" "t_outcome k \<noteq> None"
        "t_outcome k = Some (Returned None) \<longrightarrow> c_streaming y \<or> c_completed y"
        using on q unfolding once_unfold_cycle [OF fl co] by auto
      let ?s = "cycle_done t ?p"
      have v: "flags t ?s = Some (c_streaming y, c_completed y)"
        "core t ?s = Some (t_is_cycle k, m0_streaming k, t_outcome k)"
        "queued t ?s = queued t ?p" "suspended t ?s = suspended t st" "closed ?s = closed st"
        "fresh ?s = fresh st"
        using cycle_done_vw(1) [of t t ?p] eq fl co by (simp_all add: vw_def)
      have "new_completions ?p ?s = (if c_streaming y \<or> c_completed y \<or> closed st then 0 else 1)"
        using done_emits [of ?p t y k] y Some inv0 by simp
      moreover have "once t (n + (if c_streaming y \<or> c_completed y \<or> closed st then 0 else 1)) ?s"
        using on q v(3-6) unfolding once_unfold_cycle [OF fl co] once_unfold_cycle [OF v(1,2)] by auto
      ultimately show ?thesis using Some inv0(1) by (simp add: run_callback_def step_once_def nc)
    qed
  qed
qed

section \<open>Continuing a call\<close>

lemma unpark_view:
  "flags t (unpark i st) = flags t st" "core t (unpark i st) = core t st"
  "queued t (unpark i st) = queued t st" "closed (unpark i st) = closed st"
  "fresh (unpark i st) = fresh st" "dispatched (unpark i st) = dispatched st"
  "suspended t (unpark i st) \<longrightarrow> suspended t st"
  by (auto simp: unpark_def flags_def core_def queued_def suspended_def suspended_in_def
      split: if_splits)

lemma unpark_same_view: "same_view t st (unpark i st)"
  by (simp add: same_view_def unpark_view)

lemma resume_ws_view:
  "vw t (fst (resume_ws f st)) = vw t st" "parks_own c (resume_ws f st)"
  by (auto simp: resume_ws_def ws_put_view ws_get_view split: frame.split option.split)

definition ws_event :: "ev \<Rightarrow> bool" where
  "ws_event e = (case e of EvWsAccept _ \<Rightarrow> True | EvWsReject _ \<Rightarrow> True | EvWsSend _ _ _ \<Rightarrow> True
     | EvWsClose _ _ \<Rightarrow> True | EvWsAck _ _ \<Rightarrow> True | _ \<Rightarrow> False)"

lemma ws_spend_dispatched:
  "case ws_spend slot u pc n st of Spent s \<Rightarrow> dispatched s = dispatched st
    | SpendGone s \<Rightarrow> dispatched s = dispatched st
    | SpendWaits s w p \<Rightarrow> dispatched s = dispatched st | SpendKeyError s \<Rightarrow> dispatched s = dispatched st"
  by (auto simp: ws_spend_def spend_credit_def spend_global_def spend_charge_def dispatched_charge
      split: wait_pc.split option.split)

lemma ws_put_emits:
  "emits (\<lambda>e. \<not> completion e) st (fst (ws_put_frame u slot pc opcode payload st))"
  "emits (\<lambda>e. \<not> completion e) st (fst (ws_put_close u slot pc code st))"
  using ws_spend_dispatched [where slot = slot and u = u and pc = pc and st = st
      and n = "ws_frame_bytes (length payload)"]
    ws_spend_dispatched [where slot = slot and u = u and pc = pc and st = st
      and n = "ws_frame_bytes 2"]
  by (auto simp: ws_put_frame_def ws_put_close_def emits_def split: spend_result.splits)

lemma ws_get_emits: "emits (\<lambda>e. \<not> completion e) st (fst (ws_get u s st))"
  by (auto simp: ws_get_def ws_consume_def Let_def emits_def split: list.split recv_msg.split)

lemma ws_emits:
  "emits (\<lambda>e. \<not> completion e) st (fst (ws_send u m st))"
  "emits (\<lambda>e. \<not> completion e) st (fst (ws_receive u st))"
  "emits (\<lambda>e. \<not> completion e) st (ws_finish u e st)"
  "emits (\<lambda>e. \<not> completion e) st (fst (resume_ws f st))"
proof -
  have base: "emits Q st st'" if "emits Q st1 st'" "dispatched st1 = dispatched st" for Q st st1 st'
    using that by (auto simp: emits_def)
  have acc: "emits (\<lambda>e. \<not> completion e) st (ws_accept u slot st)" for slot
    by (auto simp: ws_accept_def Let_def new_event_def upd_sock_def open_window_def emits_def)
  have cl: "emits (\<lambda>e. \<not> completion e) st (fst (ws_close u s code st))" for s code
    by (auto simp: ws_close_def Let_def intro: base [OF ws_put_emits(2)] base [OF emits_exec_put])
  show "emits (\<lambda>e. \<not> completion e) st (fst (ws_send u m st))"
    by (auto simp: ws_send_def acc cl ws_put_emits split: option.split asgi_msg.split)
  show "emits (\<lambda>e. \<not> completion e) st (fst (ws_receive u st))"
    by (auto simp: ws_receive_def ws_get_emits intro: emits_same split: option.split)
  show "emits (\<lambda>e. \<not> completion e) st (ws_finish u e st)"
    by (auto simp: ws_finish_def Let_def emits_def upd_task_def call_soon_def split: option.split)
  show "emits (\<lambda>e. \<not> completion e) st (fst (resume_ws f st))"
    by (auto simp: resume_ws_def ws_put_emits ws_get_emits split: frame.split option.split)
qed

lemma resume_parks: "parks_own (case frame_owner f of None \<Rightarrow> c | Some u \<Rightarrow> u) (resume f st)"
  by (cases f)
     (auto simp: resume_def is_cycle_frame_def resume_http_def emit_from_parks emit_all_parks
        resume_ws_view)

lemma resume_other: "frame_owner f \<noteq> Some t \<Longrightarrow> same_view t st (fst (resume f st))"
  by (cases f)
     (auto simp: resume_def is_cycle_frame_def resume_http_def resume_ws_view
        intro: only_completes_other emit_only_completes same_view_vw)

section \<open>Every action\<close>

lemma step_once_other:
  assumes "once t n st" and "same_view t st (exec_act a st)"
  shows "once t n (exec_act a st)"
  using assms same_view_once by blast

lemma spawn_once:
  assumes on: "once t n st"
  shows "once t n (snd (spawn slot head body st))" "once t n (snd (spawn_ws slot st))"
proof -
  have fresh0: "flags t st = None \<and> core t st = None" if "t = fresh st"
    using on that by (simp add: once_def flags_def core_def)
  have n0: "n = 0 \<and> queued t st = 0 \<and> \<not> suspended t st" if "t = fresh st"
    using on fresh0 [OF that] by (simp add: once_def)
  show "once t n (snd (spawn slot head body st))"
  proof (cases "t = fresh st")
    case True
    have v: "flags t (snd (spawn slot head body st)) = Some (False, False)"
      "core t (snd (spawn slot head body st)) = Some (True, False, None)"
      "queued t (snd (spawn slot head body st)) = queued t st"
      "suspended t (snd (spawn slot head body st)) = suspended t st"
      "fresh (snd (spawn slot head body st)) = Suc (fresh st)"
      using True by (simp_all add: spawn_def Let_def new_id_def new_cycle_def new_task_def vw_defs)
    show ?thesis using n0 [OF True] v unfolding once_unfold_cycle [OF v(1,2)]
      by (simp add: True)
  next
    case False
    then have "same_view t st (snd (spawn slot head body st))"
      by (intro same_view_fresh [where n = "Suc (fresh st)"])
         (simp_all add: spawn_def Let_def new_id_def vw_defs)
    then show ?thesis using on same_view_once by blast
  qed
  show "once t n (snd (spawn_ws slot st))"
  proof (cases "t = fresh st")
    case True
    then show ?thesis using n0 fresh0 on
      by (simp add: once_def spawn_ws_def Let_def new_id_def new_task_def flags_def core_def
          suspended_def)
  next
    case False
    then have "same_view t st (snd (spawn_ws slot st))"
      by (intro same_view_fresh [where n = "Suc (fresh st)"])
         (simp_all add: spawn_ws_def Let_def new_id_def vw_defs)
    then show ?thesis using on same_view_once by blast
  qed
qed

lemma same_view_soon: "soon st = cb # cbs \<Longrightarrow> cb \<noteq> RunTaskDone t \<Longrightarrow> same_view t st (st\<lparr>soon := cbs\<rparr>)"
  by (simp add: same_view_def queued_def flags_def core_def suspended_def)

lemma vw_gather_start: "vw t (gather_start b st) = vw t st"
  by (simp add: gather_start_def)

lemma callback_other:
  assumes "soon st = cb # cbs" and "cb \<noteq> RunTaskDone t"
  shows "same_view t st (run_callback cb (st\<lparr>soon := cbs\<rparr>))"
  by (rule same_view_trans [OF same_view_soon [OF assms] same_view_vw])
     (simp add: run_callback_def vw_gather_start cycle_done_vw split: callback.split option.split)

lemma core_cancel_all: "core t (cancel_all ts st) = core t st"
  by (cases "task_of st t") (simp_all add: cancel_all_def core_def)

lemma vw_cancel_all: "vw t (cancel_all ts st) = vw t st"
  using core_cancel_all [of t ts st]
  by (simp add: vw_def) (simp add: cancel_all_def flags_def queued_def suspended_def)

lemma drain_view: "same_view t st (drain_step b st)"
proof -
  have "vw t (gather_rest iv ts st) = vw t st" "vw t (gather_cancel iv ts st) = vw t st"
    "vw t (gather_stuck iv ts st) = vw t st" for iv ts
    by (simp_all add: gather_rest_def gather_cancel_def gather_stuck_def Let_def vw_cancel_all)
  then have step: "same_view t st (gather_rest iv ts st)" "same_view t st (gather_cancel iv ts st)"
    "same_view t st (gather_stuck iv ts st)" "same_view t st (gather_start iv st)" for iv ts
    by (simp_all add: same_view_vw vw_gather_start)
  have closes: "same_view t st (st\<lparr>closed := True, drain_at := pc\<rparr>)" for pc
    by (simp add: same_view_def flags_def core_def queued_def suspended_def)
  show ?thesis
    by (cases "drain_at st") (simp_all add: drain_step_def step closes)
qed

lemma ws_finish_once:
  assumes on: "once t n st" and "u = t \<Longrightarrow> cycle_of st t = None \<and> \<not> task_done st t"
  shows "once t n (ws_finish u e st)"
proof (cases "u = t")
  case False
  then have "vw t (ws_finish u e st) = vw t st"
    by (simp add: ws_finish_def Let_def vw_upd_task_other split: option.split)
  then show ?thesis using on same_view_once same_view_vw by blast
next
  case True
  then obtain k where k: "task_of st t = Some k" and c: "cycle_of st t = None"
    using assms(2) by (auto simp: task_done_def split: option.splits)
  have on': "t < fresh st" "\<not> t_is_cycle k" "m0_streaming k" "n = 0" "\<not> suspended t st"
    using on k c by (auto simp: once_def flags_def core_def)
  show ?thesis
  proof (cases "sock_of st t")
    case None
    then show ?thesis using True on by (simp add: ws_finish_def)
  next
    case (Some s)
    obtain st1 where w: "ws_finish t e st = call_soon (RunTaskDone t)
         (upd_task t (\<lambda>k. k\<lparr>t_outcome := Some (ws_outcome e)\<rparr>) st1)" and v: "vw t st1 = vw t st"
      using Some by (auto simp: ws_finish_def Let_def)
    have "flags t (ws_finish t e st) = None"
      "core t (ws_finish t e st) = Some (False, True, Some (ws_outcome e))"
      "fresh (ws_finish t e st) = fresh st" "suspended t (ws_finish t e st) = suspended t st"
      using v k c on' unfolding w
      by (auto simp: vw_defs upd_task_def call_soon_def)
    then show ?thesis using on' True by (simp add: once_def)
  qed
qed

definition kept :: "tid \<Rightarrow> bool \<Rightarrow> nat \<Rightarrow> xst \<Rightarrow> xst \<Rightarrow> bool" where
  "kept t mine n st s \<longleftrightarrow> once t (n + (if mine then new_completions st s else 0)) s"

lemma step_or_once: "once t n s \<Longrightarrow> new_completions st s = 0 \<Longrightarrow> kept t b n st s"
  by (simp add: kept_def)

lemma kept_simps: "kept t True n st s = step_once t n st s" "kept t False n st s = once t n s"
  by (simp_all add: kept_def step_once_def)

lemma once_settle_same:
  assumes on: "once t n st" and sv: "same_view t st (fst r)" and pk: "parks_own u r"
    and no: "\<And>f w. snd r = Park f w \<Longrightarrow> \<not> emitting t f"
  shows "once t n (settle r)"
proof -
  have "same_view t st (settle r)"
  proof (cases "u = t")
    case True
    have "parks_own (Suc t) r" using pk no True by (auto simp: parks_own_def)
    then show ?thesis by (rule same_view_settle [OF sv]) simp
  next
    case False
    then show ?thesis by (rule same_view_settle [OF sv pk])
  qed
  then show ?thesis using on same_view_once by blast
qed

lemma once_send:
  assumes on: "once t n st"
  shows "kept t (u = t) n st (settle (send_op u m st))"
proof (cases "cycle_of st u")
  case None
  have pk: "parks_own (Suc t) (ws_send u m st)" by (rule ws_send_view)
  have sv: "same_view t st (settle (ws_send u m st))"
    by (rule same_view_settle [OF ws_send_view(1) pk]) simp
  then have "once t n (settle (ws_send u m st))" using on same_view_once by blast
  moreover have "new_completions st (settle (ws_send u m st)) = 0"
    using ws_emits(1) [of st u m] by (intro new_completions_none) (simp add: emits_def)
  moreover have "send_op u m st = ws_send u m st" using None by (simp add: send_op_def)
  ultimately show ?thesis by (metis step_or_once)
next
  case (Some y)
  show ?thesis
  proof (cases "u = t")
    case True
    then show ?thesis using step_once_send [OF on] Some by (simp add: send_op_def kept_simps)
  next
    case False
    then have "t \<noteq> u" by simp
    then have "same_view t st (settle (http_send u m st))"
      by (intro same_view_settle [OF http_send_other(1) http_send_other(2) False])
    then show ?thesis
      using False Some same_view_once [OF _ on] by (simp add: send_op_def kept_simps)
  qed
qed

lemma once_receive:
  assumes on: "once t n st"
  shows "kept t (u = t) n st (settle (receive_op u st))"
proof -
  have pk: "parks_own (Suc t) (receive_op u st)"
    by (simp add: receive_op_def http_receive_view ws_receive_view)
  have "same_view t st (settle (receive_op u st))"
    by (rule same_view_settle [OF _ pk])
       (simp_all add: receive_op_def http_receive_view ws_receive_view)
  then have "once t n (settle (receive_op u st))" using on same_view_once by blast
  moreover have "new_completions st (settle (receive_op u st)) = 0"
    using ws_emits(2) [of st u] gone_http_receive [of u st]
    by (intro new_completions_none) (auto simp: receive_op_def emits_def)
  ultimately show ?thesis by (rule step_or_once)
qed

lemma once_finish:
  assumes on: "once t n st" and en: "\<not> task_done st u" "cycle_of st u \<noteq> None \<or> sock_of st u \<noteq> None"
  shows "kept t (u = t) n st (finish_op u e st)"
proof (cases "cycle_of st u")
  case None
  have "once t n (ws_finish u e st)" using None en by (intro ws_finish_once [OF on]) simp
  moreover have "finish_op u e st = ws_finish u e st" using None by (simp add: finish_op_def)
  ultimately show ?thesis
    using new_completions_none [OF ws_emits(3) [of st u e]] by (metis step_or_once)
next
  case (Some y)
  show ?thesis
  proof (cases "u = t")
    case True
    then show ?thesis using step_once_finish [OF on _ en(1)[unfolded True]] Some
      by (simp add: finish_op_def kept_simps)
  next
    case False
    then have "vw t (run_finish u e st) = vw t st"
      by (simp add: run_finish_def Let_def vw_upd_task_other vw_upd_cycle_other split: option.split)
    then show ?thesis using False Some same_view_once [OF same_view_vw on]
      by (simp add: finish_op_def kept_simps)
  qed
qed

lemma step_once_resume:
  assumes on: "once t n st" and p: "parked st i = Some (f, w, b)"
  shows "kept t (frame_owner f = Some t) n st (settle (resume f (unpark i st)))"
proof -
  let ?p = "unpark i st"
  have on': "once t n ?p" by (rule same_view_once [OF unpark_same_view on])
  have nc: "new_completions st s = new_completions ?p s" for s
    by (simp add: new_completions_def unpark_view)
  show ?thesis
  proof (cases "emitting t f")
    case True
    have "suspended t st" using p True by (auto simp: suspended_def suspended_in_def)
    then have "flags t st \<noteq> Some (False, k)" "flags t st \<noteq> None" for k
      using on unfolding once_def by (auto split: option.splits prod.splits)
    then obtain k where fl: "flags t ?p = Some (True, k)"
      by (auto simp: unpark_view) (metis (full_types) option.exhaust surj_pair)
    have oc: "only_completes t ?p (fst (resume f ?p))"
      using True by (cases f) (auto simp: emitting_def resume_def is_cycle_frame_def
          resume_http_def emit_only_completes)
    have "frame_owner f = Some t" using True by (cases f) (auto simp: emitting_def)
    then show ?thesis using step_once_emission [OF on' fl oc] by (simp add: kept_simps step_once_def nc)
  next
    case False
    have sv: "same_view t ?p (fst (resume f ?p))"
      using False by (cases f) (auto simp: emitting_def resume_def is_cycle_frame_def
          resume_http_def resume_ws_view intro: same_view_vw only_completes_other
          emit_only_completes)
    have pk: "parks_own (case frame_owner f of None \<Rightarrow> Suc t | Some u \<Rightarrow> u) (resume f ?p)"
      by (rule resume_parks)
    have no: "\<not> emitting t g" if "snd (resume f ?p) = Park g v" for g v
      using that False pk resume_ws_view(2) [of "Suc t" f ?p] 
      by (cases f) (auto simp: parks_own_def emitting_def resume_def is_cycle_frame_def
          resume_http_def split: frame.splits)
    have keeps: "once t n (settle (resume f ?p))" by (rule once_settle_same [OF on' sv pk no])
    have "new_completions st (settle (resume f ?p)) = 0" if "frame_owner f = Some t"
      unfolding nc using that False ws_emits(4) [of ?p f]
      by (intro new_completions_none, cases f)
         (auto simp: emitting_def resume_def is_cycle_frame_def resume_http_def emits_def)
    then show ?thesis using keeps by (simp add: kept_def)
  qed
qed

section \<open>Runs\<close>

lemma once_exec_act:
  assumes on: "once t n st" and en: "enabled a st"
  shows "kept t (actor a st = Some t) n st (exec_act a st)"
proof (cases a)
  case (ActSend u m)
  then show ?thesis using once_send [OF on, of u m] by (simp add: exec_act_def actor_def)
next
  case (ActReceive u)
  then show ?thesis using once_receive [OF on, of u] by (simp add: exec_act_def actor_def)
next
  case (ActFinish u e)
  then show ?thesis using once_finish [OF on, of u e] en
    by (simp add: exec_act_def actor_def enabled_def)
next
  case (ActResume i)
  then obtain f w b where p: "parked st i = Some (f, w, b)"
    using en by (auto simp: enabled_def split: option.splits)
  show ?thesis
    using ActResume p step_once_resume [OF on p] by (simp add: exec_act_def actor_def)
next
  case (ActCancelCall i)
  then show ?thesis
    using same_view_once [OF unpark_same_view on] by (simp add: exec_act_def actor_def kept_simps)
next
  case ActCallback
  show ?thesis
  proof (cases "soon st")
    case Nil
    then show ?thesis using ActCallback on by (simp add: exec_act_def actor_def kept_simps)
  next
    case (Cons cb cbs)
    show ?thesis
    proof (cases "cb = RunTaskDone t")
      case True
      then show ?thesis
        using step_once_done [OF on, of cbs] Cons ActCallback by (simp add: exec_act_def actor_def kept_simps)
    next
      case False
      then show ?thesis
        using same_view_once [OF callback_other [OF Cons False] on] Cons ActCallback
        by (cases cb) (simp_all add: exec_act_def actor_def kept_simps)
    qed
  qed
next
  case (ActTimer u)
  have "vw t (stop_unheard u st) = vw t st" by (simp add: stop_unheard_def)
  then show ?thesis
    using ActTimer same_view_once [OF same_view_vw on] by (simp add: exec_act_def actor_def kept_simps)
next
  case (ActDrain b)
  then show ?thesis
    using same_view_once [OF drain_view on] by (simp add: exec_act_def actor_def kept_simps)
next
  case (ActWsStart u)
  have "same_view t st (ws_start u st)"
    by (auto simp: ws_start_def Let_def new_id_def vw_defs
        intro: same_view_fresh [where n = "Suc (fresh st)"] split: option.split)
  then show ?thesis
    using ActWsStart same_view_once on by (simp add: exec_act_def actor_def kept_simps)
next
  case (ActBackend b)
  have "vw t (on_backend b st) = vw t st" by (simp add: on_backend_def)
  then show ?thesis
    using ActBackend same_view_once [OF same_view_vw on] by (simp add: exec_act_def actor_def kept_simps)
next
  case (ActTick b)
  have "vw t (on_tick b st) = vw t st" by (simp add: on_tick_def)
  then show ?thesis
    using ActTick same_view_once [OF same_view_vw on] by (simp add: exec_act_def actor_def kept_simps)
qed (use same_view_once [OF same_view_vw on] spawn_once [OF on] in
    \<open>simp_all add: exec_act_def actor_def kept_simps\<close>)

lemma once_serving: "serving st \<Longrightarrow> once t 0 st"
  by (auto simp: serving.simps asgi_executor_init_def Let_def new_event_def fresh_namespace_def
      once_def flags_def core_def queued_def suspended_def suspended_in_def)

lemma once_completions:
  assumes "lts_run xstep st as st'" and "once t n st"
  shows "once t (n + completions t as st) st'"
  using assms
proof (induction "as" arbitrary: st n)
  case Nil
  then show ?case by (auto elim: lts_run.cases)
next
  case (Cons a as)
  have "xstep st a (exec_act a st) \<and> lts_run xstep (exec_act a st) as st'"
    using Cons.prems(1) lts_run_cons_split by (metis xstep.cases)
  then have en: "enabled a st" and run: "lts_run xstep (exec_act a st) as st'"
    by (auto elim: xstepE)
  have "new_completions st (exec_act a st) = n_completions (emitted a st)"
    by (simp add: emitted_def new_completions_def)
  then have "once t (n + (if actor a st = Some t then n_completions (emitted a st) else 0))
      (exec_act a st)"
    using once_exec_act [OF Cons.prems(2) en] by (simp only: kept_def)
  from Cons.IH [OF run this] show ?case by (simp add: add.assoc)
qed

section \<open>The property\<close>

text \<open>
  C1. A request is answered once: over any run of a serving executor, whatever the
  applications and the loop do in whatever order, the number of completions (final
  response, error, or stream head) made for one request's task is at most one; and once
  its task is done, its done-callback has run and the port is still open, it is exactly one.
\<close>

theorem answered_once:
  assumes "serving st0" and "lts_run xstep st0 as st"
  shows "completions t as st0 \<le> 1 \<and>
    (cycle_of st t \<noteq> None \<and> task_done st t \<and> RunTaskDone t \<notin> set (soon st) \<and> \<not> closed st
      \<longrightarrow> completions t as st0 = 1)"
proof -
  let ?n = "completions t as st0"
  have on: "once t ?n st"
    using once_completions [OF assms(2) once_serving [OF assms(1)]] by simp
  have "?n \<le> 1" using on unfolding once_def by (auto split: option.splits prod.splits)
  moreover have "?n = 1"
    if c: "cycle_of st t \<noteq> None" and d: "task_done st t" and q: "RunTaskDone t \<notin> set (soon st)"
      and o: "\<not> closed st"
  proof -
    obtain y where "cycle_of st t = Some y" using c by blast
    then have fl: "flags t st = Some (c_streaming y, c_completed y)" by (simp add: flags_def)
    obtain r where co: "core t st = Some (True, c_streaming y, r)" using once_core [OF on fl] .
    have "r \<noteq> None" using co d by (auto simp: core_def task_done_def)
    moreover have "queued t st = 0" using q by (simp add: queued_def count_list_0_iff)
    ultimately show ?thesis using on o unfolding once_unfold_cycle [OF fl co] by simp
  qed
  ultimately show ?thesis by blast
qed

definition one_request :: "act list" where
  "one_request = [ActSpawn 3 False (latin1 ''hi''), ActSend 1 (HttpResponseStart (Some 200) None),
     ActSend 1 (HttpResponseBody (Some (latin1 ''ok'')) None), ActFinish 1 None,
     ActCallback, ActCallback]"

theorem answered_once_witness:
  "completions 1 one_request quiet_server \<le> 1 \<and> completions 1 one_request quiet_server = 1"
proof -
  have "runs one_request"
    by (simp add: one_request_def exec_eval)
  moreover have "cycle_of (after one_request) 1 \<noteq> None \<and> task_done (after one_request) 1 \<and>
      RunTaskDone 1 \<notin> set (soon (after one_request)) \<and> \<not> closed (after one_request)"
    by (simp add: one_request_def exec_eval)
  ultimately show ?thesis
    using answered_once [OF quiet_server_serving runs_after, of one_request 1] by blast
qed

end
