(* ===== verification/Exec_Owner.thy ===== *)
theory Exec_Owner
  imports Exec_Once_Run
begin

text \<open>
  Who owns a slot. A request that is still answering, and whose client is still there,
  is the task its slot names; once it streams, the slot's stream task, its window and its
  wake-up event are its own. The executor keeps this as long as the loop gives a slot to
  a new connection only when it is rid of the old one (\<open>slot_free\<close>), and it is why
  \<open>_emit\<close> never indexes a window that is not there.
\<close>

definition owns :: "tid \<Rightarrow> cycle \<Rightarrow> xst \<Rightarrow> bool" where
  "owns t y st \<longleftrightarrow>
     slot_task st (c_slot y) = Some t \<and>
     (c_streaming y \<longrightarrow> stream_tasks st (c_slot y) = Some t \<and>
        credits st (c_slot y) \<noteq> None \<and> credit_evts st (c_slot y) \<noteq> None)"

text \<open>The requests that still have their answer, or the rest of it, to give.\<close>

definition answering :: "tid \<Rightarrow> cycle \<Rightarrow> xst \<Rightarrow> bool" where
  "answering t y st \<longleftrightarrow>
     \<not> c_completed y \<and> \<not> task_done st t \<and> (c_streaming y \<longrightarrow> \<not> task_gone st t)"

definition owned :: "tid \<Rightarrow> xst \<Rightarrow> bool" where
  "owned t st \<longleftrightarrow>
     global_evt st \<noteq> None \<and>
     (fresh st \<le> t \<longrightarrow> cycle_of st t = None \<and> task_of st t = None \<and> sock_of st t = None) \<and>
     (case cycle_of st t of None \<Rightarrow> True
      | Some y \<Rightarrow> sock_of st t = None \<and>
          (answering t y st \<longrightarrow> owns t y st))"

text \<open>What most operations do to it: nothing, for they only add or mark.\<close>

definition calm :: "xst \<Rightarrow> xst \<Rightarrow> bool" where
  "calm st st' \<longleftrightarrow>
     cycle_of st' = cycle_of st \<and> slot_task st' = slot_task st \<and>
     stream_tasks st' = stream_tasks st \<and> global_evt st' = global_evt st \<and>
     (\<forall>s. credits st' s = None \<longrightarrow> credits st s = None) \<and> (\<forall>s. credit_evts st' s = None \<longrightarrow> credit_evts st s = None) \<and>
     (\<forall>t. sock_of st' t = None \<longleftrightarrow> sock_of st t = None) \<and>
     (\<forall>t. task_of st' t = None \<longleftrightarrow> task_of st t = None) \<and>
     (\<forall>t. task_gone st t \<longrightarrow> task_gone st' t) \<and> (\<forall>t. task_done st t \<longrightarrow> task_done st' t) \<and>
     fresh st \<le> fresh st'"

lemma calm_refl [simp, intro]: "calm st st"
  by (simp add: calm_def)

lemma calm_trans: "calm st st1 \<Longrightarrow> calm st1 st2 \<Longrightarrow> calm st st2"
  by (auto simp: calm_def)

lemma calm_owned: "calm st st' \<Longrightarrow> owned t st \<Longrightarrow> owned t st'"
  unfolding calm_def owned_def owns_def answering_def by (cases "cycle_of st t") auto

lemma calm_fields [simp]:
  fixes st :: xst
  shows "calm s (st\<lparr>inflight := x2\<rparr>) = calm s st"
    "calm s (st\<lparr>global_credit := x3\<rparr>) = calm s st"
    "calm s (st\<lparr>later_stop := x4\<rparr>) = calm s st"
    "calm s (st\<lparr>inboxes := x5\<rparr>) = calm s st"
    "calm s (st\<lparr>fut_done := x6\<rparr>) = calm s st"
    "calm s (st\<lparr>evt_flag := x26\<rparr>) = calm s st"
    "calm s (st\<lparr>parked := x27\<rparr>) = calm s st"
    "calm s (st\<lparr>soon := x28\<rparr>) = calm s st"
    "calm s (st\<lparr>dispatched := x7\<rparr>) = calm s st"
    "calm s (st\<lparr>flush_armed := x8\<rparr>) = calm s st"
    "calm s (st\<lparr>draining := x9\<rparr>) = calm s st"
    "calm s (st\<lparr>closed := x29\<rparr>) = calm s st"
    "calm s (st\<lparr>start_drain := x10\<rparr>) = calm s st"
    "calm s (st\<lparr>disconnects := x12\<rparr>) = calm s st"
    "calm s (st\<lparr>ws_inbox := x15\<rparr>) = calm s st"
    "calm s (st\<lparr>exec_tasks := x16\<rparr>) = calm s st"
    "calm s (st\<lparr>bus_of := x19\<rparr>) = calm s st"
    "calm s (st\<lparr>sub_reading := x20\<rparr>) = calm s st"
    "calm s (st\<lparr>ack_reading := x21\<rparr>) = calm s st"
    "calm s (st\<lparr>drain_at := x22\<rparr>) = calm s st"
  by (simp_all add: calm_def task_gone_def task_done_def)

lemma calm_fresh: "calm s st \<Longrightarrow> fresh st \<le> n \<Longrightarrow> calm s (st\<lparr>fresh := n\<rparr>)" for st :: xst
  by (auto simp: calm_def task_gone_def task_done_def)

lemma calm_upd_task:
  assumes "calm s st" and keep: "\<forall>k. (m0_disconnected k \<longrightarrow> m0_disconnected (f k)) \<and>
      (t_outcome k \<noteq> None \<longrightarrow> t_outcome (f k) \<noteq> None)"
  shows "calm s (upd_task c f st)"
proof (rule calm_trans [OF assms(1)])
  note k = spec [OF keep, of "the (task_of st c)"]
  have "task_gone (upd_task c f st) t" if "task_gone st t" for t
    using that k by (cases "task_of st c") (auto simp: upd_task_def task_gone_def)
  moreover have "task_done (upd_task c f st) t" if "task_done st t" for t
    using that k by (cases "task_of st c") (auto simp: upd_task_def task_done_def)
  ultimately show "calm st (upd_task c f st)" by (simp add: calm_def upd_task_def)
qed

lemma calm_upd_sock [simp]: "calm s st \<Longrightarrow> calm s (upd_sock c fs st)"
  by (erule calm_trans) (simp add: calm_def upd_sock_def task_gone_def task_done_def)

lemma calm_prims [simp]:
  assumes "calm s st"
  shows "calm s (set_event e st)" "calm s (clear_event e st)" "calm s (resolve_future f st)"
    "calm s (queue_put q m st)" "calm s (call_soon cb st)"
    "calm s (set_global_evt st)" "calm s (cancel_task c st)"
  using assms
  by (simp_all add: set_event_def clear_event_def resolve_future_def queue_put_def call_soon_def
      set_global_evt_def cancel_task_def calm_upd_task split: option.split)

lemma calm_ops [simp]:
  assumes "calm s st"
  shows "calm s (arm_flush st)" "calm s (exec_put e st)" "calm s (start_drain_op st)"
    "calm s (flush_op st)" "calm s (mark_owner_gone slot st)"
    "calm s (resolve_disconnect slot st)" "calm s (wake_slot slot st)"
    "calm s (tell_inbox slot code st)" "calm s (cancel_stream slot st)"
    "calm s (exec_on_ws_message slot opcode payload st)"
  using assms
  by (simp_all add: arm_flush_def exec_put_def start_drain_op_def flush_op_def mark_owner_gone_def
      resolve_disconnect_def wake_slot_def tell_inbox_def cancel_stream_def exec_on_ws_message_def
      Let_def calm_upd_task split: option.split)

lemma calm_credits: "calm s st \<Longrightarrow> calm s (st\<lparr>credits := (credits st)(slot \<mapsto> n)\<rparr>)" for st :: xst
  by (erule calm_trans) (simp add: calm_def task_gone_def task_done_def)

lemma calm_windows [simp]:
  assumes "calm s st"
  shows "calm s (snd (release slot st))" "calm s (snd (ack_refund slot n st))"
    "calm s (ack_credit slot n st)"
  using assms
  by (simp_all add: release_def ack_refund_def ack_credit_def Let_def calm_credits split: option.split)

lemma calm_charge: "calm s st \<Longrightarrow> charge slot n st = Some st' \<Longrightarrow> calm s st'"
  by (auto simp: charge_def calm_credits split: option.splits)

lemma calm_slot_ops [simp]:
  assumes "calm s st"
  shows "calm s (release_slot slot st)" "calm s (exec_on_disconnect slot code st)"
    "calm s (exec_on_ack slot n st)" "calm s (on_ack d st)" "calm s (put_jobs js st)"
    "calm s (on_submit d st)"
proof -
  have rel: "calm s (release_slot slot st)" if "calm s st" for slot st
    using calm_windows(1) [OF that, of slot] by (cases "release slot st") (auto simp: release_slot_def)
  show "calm s (release_slot slot st)" using assms by (rule rel)
  show dis: "calm s (exec_on_disconnect slot code st)" for slot code
    using assms by (simp add: exec_on_disconnect_def rel)
  show ack: "calm s (exec_on_ack slot n st)" for slot n
  proof -
    let ?st1 = "case credits st slot of None \<Rightarrow> st | Some _ \<Rightarrow> wake_slot slot (ack_credit slot n st)"
    have "calm s (snd (ack_refund slot n ?st1))" using assms by (simp split: option.split)
    then show ?thesis by (cases "ack_refund slot n ?st1") (simp add: exec_on_ack_def Let_def)
  qed
  show "calm s (on_ack d st)" using assms by (simp add: on_ack_def ack split: option.split)
  show jobs: "calm s (put_jobs js st)" for js
    using assms unfolding put_jobs_def by (induction js arbitrary: st) simp_all
  show "calm s (on_submit d st)"
    using assms by (simp add: on_submit_def dis jobs split: option.split submit.split)
qed
section \<open>A request's own steps\<close>

lemma calm_owned_trans: "owned t s \<Longrightarrow> calm s st \<Longrightarrow> owned t st"
  using calm_owned by blast

lemma owned_upd_cycle:
  assumes on: "owned t st"
    and f: "\<And>y. c_slot (f y) = c_slot y \<and> c_streaming (f y) = c_streaming y \<and> (c_completed y \<longrightarrow> c_completed (f y))"
  shows "owned t (upd_cycle c f st)"
proof -
  have "task_gone (upd_cycle c f st) t = task_gone st t" "task_done (upd_cycle c f st) t = task_done st t"
    by (simp_all add: upd_cycle_def task_gone_def task_done_def)
  then show ?thesis
    using on f [of "the (cycle_of st t)"]
    by (cases "cycle_of st t") (auto simp: owned_def owns_def answering_def upd_cycle_def)
qed

lemma owned_cleanup:
  assumes on: "owned t st" and other: "slot_task st slot \<noteq> Some t"
  shows "owned t (exec_cleanup_slot slot st)"
proof -
  have "owned t (release_slot slot st)" by (rule calm_owned_trans [OF on]) simp
  moreover have "slot_task (release_slot slot st) = slot_task st"
    using calm_slot_ops(1) [OF calm_refl, of st slot] by (simp add: calm_def)
  ultimately show ?thesis
    using other by (auto simp: owned_def owns_def answering_def exec_cleanup_slot_def Let_def task_gone_def task_done_def
        split: option.splits)
qed

lemma owned_drop:
  assumes on: "owned t st" and other: "u = t \<Longrightarrow> cycle_of st t \<noteq> None \<Longrightarrow> task_done st t"
  shows "owned t (drop_ownership slot u st)"
proof (cases "slot_task st slot = Some u")
  case True
  let ?s = "st\<lparr>exec_tasks := exec_tasks st - {u}, slot_task := (slot_task st)(slot := None)\<rparr>"
  have "owned t ?s"
    using on True other
    by (auto simp: owned_def owns_def answering_def task_gone_def task_done_def task_done_def split: option.splits)
  then have "owned t (exec_cleanup_slot slot ?s)" by (rule owned_cleanup) simp
  then show ?thesis using True by (simp add: drop_ownership_def Let_def)
next
  case False
  have "owned t (st\<lparr>exec_tasks := exec_tasks st - {u}\<rparr>)" by (rule calm_owned_trans [OF on]) simp
  then show ?thesis using False by (simp add: drop_ownership_def Let_def)
qed

lemma owned_put: "owned t st \<Longrightarrow> owned t (exec_put e st)"
  by (erule calm_owned_trans) simp

lemma owned_end_stream:
  assumes "owned t st"
  shows "owned t (end_stream c slot st)"
proof -
  let ?s1 = "upd_cycle c (\<lambda>y. y\<lparr>c_completed := True\<rparr>) st"
  let ?s2 = "if stream_tasks ?s1 slot = Some c
      then ?s1\<lparr>stream_tasks := (stream_tasks ?s1)(slot := None)\<rparr> else ?s1"
  have "owned t ?s1" by (rule owned_upd_cycle [OF assms]) simp
  then have "owned t ?s2"
    by (auto simp: owned_def owns_def answering_def task_gone_def task_done_def upd_cycle_def split: option.splits if_splits)
  then show ?thesis by (simp add: end_stream_def Let_def owned_put)
qed

lemma calm_emit_piece: "calm st (piece_state (emit_piece c slot pc p st))"
  by (auto simp: emit_piece_def emit_credit_def emit_global_def emit_charge_def
      intro: calm_charge calm_ops(2) split: wait_pc.split option.split)

lemma owned_emit:
  assumes "owned t st"
  shows "owned t (fst (emit_all c slot ds final st))" "owned t (fst (emit_from c slot pc ps ds final st))"
proof -
  have piece: "owned t s \<Longrightarrow> owned t (piece_state (emit_piece c slot pc p s))" for pc p s
    by (erule calm_owned_trans) (rule calm_emit_piece)
  show "owned t (fst (emit_all c slot ds final st))"
    by (rule emit_all_keeps [where P = "owned t"]) (simp_all add: piece owned_end_stream assms)
  show "owned t (fst (emit_from c slot pc ps ds final st))"
    by (rule emit_from_keeps [where P = "owned t"]) (simp_all add: piece owned_end_stream assms)
qed

text \<open>
  Another request can only start to stream on this one's slot when this one no longer
  owns it; two live unanswered owners of one slot are one task.
\<close>


lemma owned_start_stream:
  assumes all: "\<And>t. owned t st" and y: "cycle_of st c = Some y"
    and live: "answering c y st" "\<not> c_streaming y"
  shows "owned t (start_stream c (c_slot y) s hs st)"
proof -
  have own: "slot_task st (c_slot y) = Some c"
    using all [of c] y live by (simp add: owned_def owns_def)
  obtain k where k: "task_of st c = Some k" "t_outcome k = None"
    using live by (auto simp: answering_def task_done_def split: option.splits)
  show ?thesis
    using all [of t] own y k
    by (cases "t = c"; cases "cycle_of st t")
       (auto simp: owned_def owns_def answering_def start_stream_def Let_def new_event_def upd_cycle_def
        upd_task_def open_window_def task_gone_def task_done_def exec_put_def arm_flush_def call_soon_def)
qed

lemma owned_answer_head:
  assumes "owned t st"
  shows "owned t (answer_head c slot s hs st)"
proof -
  have "owned t (upd_cycle c (\<lambda>y. y\<lparr>c_completed := True, c_chunks := [], c_total := 0\<rparr>) st)"
    by (rule owned_upd_cycle [OF assms]) simp
  then have "owned t (exec_put (EvDone slot s hs [])
      (upd_cycle c (\<lambda>y. y\<lparr>c_completed := True, c_chunks := [], c_total := 0\<rparr>) st))" (is "owned t ?s")
    by (rule owned_put)
  moreover have "calm ?s (answer_head c slot s hs st)"
    by (simp add: answer_head_def Let_def split: option.split)
  ultimately show ?thesis by (rule calm_owned_trans)
qed

lemma owned_send:
  assumes all: "\<And>t. owned t st"
  shows "owned t (fst (http_send c m st))"
proof -
  note on = all [of t]
  have upd: "owned t (upd_cycle c (\<lambda>_. z) st)"
    if "cycle_of st c = Some y" "c_slot z = c_slot y" "c_streaming z = c_streaming y"
      "c_completed y \<longrightarrow> c_completed z" for y z
  proof -
    have "upd_cycle c (\<lambda>_. z) st = upd_cycle c (\<lambda>w. if w = y then z else w) st"
      using that(1) by (simp add: upd_cycle_def)
    then show ?thesis using owned_upd_cycle [OF on, of "\<lambda>w. if w = y then z else w" c] that(2-) by simp
  qed
  have start: "owned t (upd_cycle c (\<lambda>y. y\<lparr>c_status := s, c_headers := h\<rparr>) st)" for s h
    by (rule owned_upd_cycle [OF on]) simp
  have body: "owned t (fst (send_body c y b e st))"
    if y: "cycle_of st c = Some y" and live: "\<not> c_completed y" "\<not> task_done st c" for y b e
  proof (cases "c_streaming y")
    case True
    then show ?thesis by (simp add: send_body_def owned_emit on)
  next
    case False
    then have "answering c y st" using live by (simp add: answering_def)
    note strm = owned_start_stream [OF all y this False]
    show ?thesis
      using False live
      by (auto simp: send_body_def Let_def on owned_emit strm owned_answer_head owned_put
          intro!: owned_put upd [OF y] split: option.split)
  qed
  show ?thesis
    by (auto simp: http_send_def on body start split: option.split asgi_msg.split)
qed

section \<open>The other operations\<close>

lemma owned_receive:
  assumes on: "owned t st"
  shows "owned t (fst (http_receive c st))"
proof -
  have "owned t (upd_cycle c (\<lambda>y. y\<lparr>c_delivered := True\<rparr>) st)"
    by (rule owned_upd_cycle [OF on]) simp
  then show ?thesis
    by (auto simp: http_receive_def Let_def new_id_def on calm_fresh
        intro!: calm_owned_trans [OF on] split: option.split)
qed

lemma calm_ws_spend:
  "case ws_spend slot u pc n st of Spent s \<Rightarrow> calm st s | SpendGone s \<Rightarrow> calm st s
    | SpendWaits s w p \<Rightarrow> calm st s | SpendKeyError s \<Rightarrow> calm st s"
  by (auto simp: ws_spend_def spend_credit_def spend_global_def spend_charge_def
      intro: calm_charge split: wait_pc.split option.split)

lemma calm_ws_put:
  assumes "calm s st"
  shows "calm s (fst (ws_put_frame u slot pc opcode payload st))"
    "calm s (fst (ws_put_close u slot pc code st))"
proof -
  have t: "calm s st'" if "calm st st'" for st' by (rule calm_trans [OF assms that])
  show "calm s (fst (ws_put_frame u slot pc opcode payload st))"
    using calm_ws_spend [where slot = slot and u = u and pc = pc and st = st
        and n = "ws_frame_bytes (length payload)"]
    by (auto simp: ws_put_frame_def t split: spend_result.splits)
  show "calm s (fst (ws_put_close u slot pc code st))"
    using calm_ws_spend [where slot = slot and u = u and pc = pc and st = st and n = "ws_frame_bytes 2"]
    by (auto simp: ws_put_close_def t split: spend_result.splits)
qed

lemma calm_ws_accept: "calm st (ws_accept u slot st)"
proof -
  let ?f = "fresh st"
  have "calm st (upd_sock u (\<lambda>s. s\<lparr>s_accepted := True\<rparr>) st)" (is "calm st ?s") by simp
  moreover have "calm ?s (ws_accept u slot st)"
    by (auto simp: ws_accept_def Let_def new_event_def open_window_def
        intro!: calm_ops(2) calm_upd_sock)
       (simp add: calm_def task_gone_def task_done_def)
  ultimately show ?thesis by (rule calm_trans)
qed

lemma calm_ws_ops:
  "calm st (fst (ws_send c m st))" "calm st (fst (ws_receive c st))"
  "calm st (ws_finish c e st)" "calm st (fst (resume_ws f st))"
proof -
  have get: "calm st (fst (ws_get c s st))" for c s
    by (auto simp: ws_get_def ws_consume_def Let_def split: list.split recv_msg.split)
  show "calm st (fst (ws_send c m st))"
    by (auto simp: ws_send_def ws_close_def Let_def calm_ws_put calm_ws_accept
        split: option.split asgi_msg.split)
  show "calm st (fst (ws_receive c st))"
    by (auto simp: ws_receive_def get split: option.split)
  show "calm st (ws_finish c e st)"
    by (auto simp: ws_finish_def Let_def intro!: calm_prims(5) calm_upd_task split: option.split)
  show "calm st (fst (resume_ws f st))"
    by (auto simp: resume_ws_def calm_ws_put get split: frame.split option.split)
qed

lemma owned_run_finish:
  assumes on: "owned t st"
  shows "owned t (run_finish c e st)"
proof (cases "cycle_of st c")
  case None
  then show ?thesis using on by (simp add: run_finish_def)
next
  case (Some y)
  let ?s = "if e \<noteq> None then upd_cycle c (\<lambda>y. y\<lparr>c_aborted := True\<rparr>) st else st"
  have "owned t ?s" using owned_upd_cycle [OF on, of "\<lambda>y. y\<lparr>c_aborted := True\<rparr>" c] on by auto
  moreover have "calm ?s (run_finish c e st)"
    unfolding run_finish_def Some option.case Let_def
    by (intro calm_prims(5) calm_upd_task) simp_all
  ultimately show ?thesis by (rule calm_owned_trans)
qed

lemma owned_resume: "owned t st \<Longrightarrow> owned t (fst (resume f st))"
  by (cases f) (auto simp: resume_def is_cycle_frame_def resume_http_def owned_emit
      intro: calm_owned_trans calm_ws_ops)

lemma owned_settle: "owned t (fst r) \<Longrightarrow> owned t (settle r)"
proof (cases "snd r")
  case (Park f w)
  assume "owned t (fst r)"
  then show ?thesis using Park
    by (cases r) (auto simp: settle_def new_id_def calm_fresh intro: calm_owned_trans)
qed (cases r; simp add: settle_def)+

lemma owned_done:
  assumes on: "owned t st" and "u = t \<Longrightarrow> cycle_of st t \<noteq> None \<Longrightarrow> task_done st t"
  shows "owned t (on_task_done slot u st)" "owned t (cycle_done u st)"
proof -
  have d: "owned t (drop_ownership s u st)" for s by (rule owned_drop [OF assms])
  show o: "owned t (on_task_done s u st)" for s
    using on d by (auto simp: on_task_done_def Let_def intro!: owned_put split: option.split outcome.split)
  show "owned t (cycle_done u st)"
    using on d o by (auto simp: cycle_done_def Let_def intro!: owned_put split: option.split outcome.split)
qed

lemma owned_spawn:
  assumes on: "owned t st" and free: "slot_free st slot"
  shows "owned t (snd (spawn slot head body st))" "owned t (snd (spawn_ws slot st))"
proof -
  have no: "\<not> answering t y st \<or> c_slot y \<noteq> slot" if "cycle_of st t = Some y" for y
    using on free that by (auto simp: owned_def owns_def answering_def slot_free_def split: option.splits)
  show "owned t (snd (spawn slot head body st))"
    using on no
    by (cases "t = fresh st"; cases "cycle_of st t")
       (auto simp: owned_def owns_def answering_def spawn_def Let_def new_id_def new_cycle_def
        new_task_def task_gone_def task_done_def)
  show "owned t (snd (spawn_ws slot st))"
    using on no
    by (cases "t = fresh st"; cases "cycle_of st t")
       (auto simp: owned_def owns_def answering_def spawn_ws_def Let_def new_id_def
        new_task_def task_gone_def task_done_def)
qed

lemma calm_drain:
  "calm st (drain_step b st)" "calm st (gather_start b st)" "calm st (on_backend b st)"
  "calm st (on_tick b st)"
proof -
  have canc: "calm st (cancel_all ts st)" for ts st
    by (auto simp: calm_def cancel_all_def task_gone_def task_done_def split: option.splits)
  have "calm st (gather_rest iv ts st)" "calm st (gather_cancel iv ts st)"
    "calm st (gather_stuck iv ts st)" for iv ts
    by (simp_all add: gather_rest_def gather_cancel_def gather_stuck_def Let_def canc)
  then show "calm st (drain_step b st)"
    by (auto simp: drain_step_def gather_start_def split: drain_pc.split)
qed (simp_all add: gather_start_def on_backend_def on_tick_def)

section \<open>Every action\<close>

definition settled :: "xst \<Rightarrow> bool" where
  "settled st \<longleftrightarrow> (\<forall>t. owned t st \<and> (\<exists>n. once t n st))"

lemma settled_callback:
  assumes g: "settled st" and soon: "soon st = cb # cbs"
  shows "owned t (run_callback cb (st\<lparr>soon := cbs\<rparr>))"
proof -
  let ?p = "st\<lparr>soon := cbs\<rparr>"
  have on: "owned t ?p" using g by (auto simp: settled_def intro: calm_owned_trans)
  have td: "u = t \<Longrightarrow> cycle_of ?p t \<noteq> None \<Longrightarrow> task_done ?p t" if "cb = RunTaskDone u" for u
  proof -
    assume u: "u = t" and c: "cycle_of ?p t \<noteq> None"
    obtain n where once: "once t n st" using g by (auto simp: settled_def)
    have q: "0 < queued t st" using soon that u by (simp add: queued_def)
    obtain s k where fl: "flags t st = Some (s, k)" using c by (auto simp: flags_def)
    obtain r where co: "core t st = Some (True, s, r)" using once_core [OF once fl] .
    then have "r \<noteq> None" using once q unfolding once_unfold_cycle [OF fl co] by blast
    then show "task_done ?p t" using co by (auto simp: core_def task_done_def)
  qed
  show ?thesis
  proof (cases cb)
    case (RunTaskDone u)
    then show ?thesis using on td owned_done [OF on] 
      by (auto simp: run_callback_def split: option.split)
  qed (auto simp: run_callback_def intro: calm_owned_trans [OF on] calm_drain)
qed

lemma owned_exec_act:
  assumes g: "settled st" and en: "enabled a st"
  shows "owned t (exec_act a st)"
proof -
  have all: "owned t st" for t using g by (simp add: settled_def)
  note on = all [of t] and calm = calm_owned_trans [OF all [of t]]
  show ?thesis
  proof (cases a)
    case (ActSpawn slot head body)
    then show ?thesis using owned_spawn(1) [OF on] en by (simp add: exec_act_def enabled_def)
  next
    case (ActSpawnWs slot)
    then show ?thesis using owned_spawn(2) [OF on] en by (simp add: exec_act_def enabled_def)
  next
    case (ActWsStart u)
    then have u: "cycle_of st u = None" and d: "\<not> task_done st u"
      using en by (simp_all add: enabled_def)
    then have "u < fresh st" using all [of u] by (force simp: owned_def task_done_def)
    then have "owned t (ws_start u st)"
      using on u
      by (cases "cycle_of st t"; cases "t = u")
         (auto simp: ws_start_def Let_def new_id_def owned_def owns_def answering_def task_gone_def
          task_done_def split: option.splits)
    then show ?thesis using ActWsStart by (simp add: exec_act_def)
  next
    case (ActSend u m)
    then show ?thesis
      using owned_send [OF all, of t u m] calm [OF calm_ws_ops(1), of u m]
      by (simp add: exec_act_def send_op_def owned_settle)
  next
    case (ActReceive u)
    then show ?thesis
      using owned_receive [OF on, of u] calm [OF calm_ws_ops(2), of u]
      by (simp add: exec_act_def receive_op_def owned_settle)
  next
    case (ActFinish u e)
    then show ?thesis
      using owned_run_finish [OF on, of u e] calm [OF calm_ws_ops(3), of u e]
      by (simp add: exec_act_def finish_op_def)
  next
    case (ActResume i)
    then obtain f w b where p: "parked st i = Some (f, w, b)"
      using en by (auto simp: enabled_def split: option.splits)
    have "owned t (unpark i st)" by (rule calm) (simp add: unpark_def)
    then show ?thesis using ActResume p by (simp add: exec_act_def owned_settle owned_resume)
  next
    case ActCallback
    then show ?thesis using settled_callback [OF g] on
      by (auto simp: exec_act_def split: list.split)
  qed (auto simp: exec_act_def unpark_def stop_unheard_def intro!: calm calm_drain)
qed

lemma settled_step: "xstep st a st' \<Longrightarrow> settled st \<Longrightarrow> settled st'"
proof (elim xstepE)
  assume g: "settled st" and en: "enabled a st" and st': "st' = exec_act a st"
  have "\<exists>n. once t n st'" for t
    using g once_exec_act [OF _ en, of t] st' unfolding settled_def kept_def by blast
  then show "settled st'" using owned_exec_act [OF g en] st' by (simp add: settled_def)
qed

lemma settled_serving: "serving st \<Longrightarrow> settled st"
proof -
  assume "serving st"
  then have "owned t st" for t
    by (auto simp: serving.simps asgi_executor_init_def Let_def new_event_def fresh_namespace_def
        owned_def)
  then show ?thesis using once_serving [OF \<open>serving st\<close>] by (auto simp: settled_def)
qed

interpretation owners: lts_invariant serving xstep settled
  by unfold_locales (auto intro: settled_serving settled_step)

section \<open>The properties\<close>


definition streaming_run :: "act list" where
  "streaming_run = [ActSpawn 3 False [], ActSend 1 (HttpResponseStart (Some 200) None),
     ActSend 1 (HttpResponseBody (Some (latin1 ''ok'')) (Some True))]"


end
