(* ===== verification/Exec_Stream.thy ===== *)
theory Exec_Stream
  imports Exec_Owner
begin

text \<open>
  What a stream's client reads. Every call of \<open>send\<close> on a streaming response cuts its data
  into pieces, and every piece becomes one chunk, in order; where the call has to wait, what
  it has not yet sent is exactly what its frame keeps. So nothing is lost, repeated or
  reordered, whatever else runs while the call waits.
\<close>

section \<open>Pieces\<close>

lemma split_every_Nil [simp]: "split_every n [] = []"
  by (subst split_every.simps) simp

lemma concat_split_every: "0 < n \<Longrightarrow> concat (split_every n xs) = xs"
  by (induction n xs rule: split_every.induct) (subst split_every.simps, simp)

lemma split_every_length:
  "p \<in> set (split_every n xs) \<Longrightarrow> 0 < length p \<and> length p \<le> n"
proof (induction n xs rule: split_every.induct)
  case (1 n xs)
  then show ?case
    by (cases "xs = [] \<or> n = 0") (subst (asm) split_every.simps, auto)+
qed

lemma pieces_of_concat: "concat (pieces_of d) = d"
  by (simp add: pieces_of_def concat_split_every window_consts)

lemma pieces_of_length: "p \<in> set (pieces_of d) \<Longrightarrow> 0 < length p \<and> length p \<le> 32768"
  unfolding pieces_of_def by (drule split_every_length) (simp add: window_consts)

section \<open>One piece\<close>

definition put_if_open :: "ev list \<Rightarrow> xst \<Rightarrow> ev list" where
  "put_if_open es st = (if closed st then dispatched st else dispatched st @ es)"

lemma closed_emit_piece: "closed (piece_state (emit_piece c slot pc p st)) = closed st"
  using emit_piece_vw(1) [of undefined c slot pc p st] by (simp add: vw_def)

lemma emit_piece_events:
  "dispatched (piece_state (emit_piece c slot pc p st)) =
     (case emit_piece c slot pc p st of
        PieceSent _ \<Rightarrow> put_if_open [EvStreamChunk slot p] st | _ \<Rightarrow> dispatched st)"
  by (auto simp: emit_piece_def emit_credit_def emit_global_def emit_charge_def put_if_open_def
      dispatched_charge split: wait_pc.split option.split)
     (auto simp: charge_def split: option.splits)

section \<open>A call\<close>

text \<open>What a frame has still to send, and the segment's account of its data.\<close>

fun unsent :: "seg \<Rightarrow> bytes" where
  "unsent (Park (FEmit c pc ps ds final) w) = concat ps @ concat ds"
| "unsent _ = []"

text \<open>
  \<open>accounted slot st r ps ds\<close>: the chunks the segment dispatched, followed by what its
  frame keeps, are the data it started with, or its client has gone or it failed.
\<close>

definition chunks :: "slot \<Rightarrow> ev list \<Rightarrow> bytes" where
  "chunks slot es = concat (map (\<lambda>e. case e of EvStreamChunk s b \<Rightarrow> if s = slot then b else [] | _ \<Rightarrow> []) es)"

lemma chunks_simps [simp]:
  "chunks slot [] = []" "chunks slot (EvStreamChunk slot b # es) = b @ chunks slot es"
  "chunks slot (EvStreamEnd s # es) = chunks slot es"
  "chunks slot (xs @ ys) = chunks slot xs @ chunks slot ys"
  by (simp_all add: chunks_def)

definition accounted :: "slot \<Rightarrow> xst \<Rightarrow> xst \<times> seg \<Rightarrow> bytes \<Rightarrow> bool" where
  "accounted slot st r data \<longleftrightarrow>
     (\<exists>es. dispatched (fst r) = dispatched st @ es \<and>
        (case snd r of
           Ret _ \<Rightarrow> chunks slot es = data
         | Park (FEmit _ _ _ _ _) _ \<Rightarrow> chunks slot es @ unsent (snd r) = data
         | _ \<Rightarrow> \<exists>rest. chunks slot es @ rest = data))"

lemma accounted_prefix:
  assumes "dispatched st1 = dispatched st @ es" and "accounted slot st1 r data"
  shows "accounted slot st r (chunks slot es @ data)"
proof -
  obtain es' where d: "dispatched (fst r) = dispatched st1 @ es'"
    and c: "case snd r of Ret _ \<Rightarrow> chunks slot es' = data
         | Park (FEmit _ _ _ _ _) _ \<Rightarrow> chunks slot es' @ unsent (snd r) = data
         | _ \<Rightarrow> \<exists>rest. chunks slot es' @ rest = data"
    using assms(2) by (auto simp: accounted_def)
  show ?thesis
    unfolding accounted_def
    by (rule exI [of _ "es @ es'"]) (use c d assms(1) in \<open>auto split: seg.splits frame.splits\<close>)
qed

lemma emit_pieces_accounted:
  assumes "\<not> closed st"
  shows "case emit_pieces c slot pc ps ds final st of
      Inl r \<Rightarrow> accounted slot st r (concat ps @ concat ds) \<and> (\<forall>a. snd r \<noteq> Ret a)
    | Inr st1 \<Rightarrow> \<not> closed st1 \<and> (\<exists>es. dispatched st1 = dispatched st @ es \<and> chunks slot es = concat ps)"
  using assms
proof (induction ps arbitrary: pc st)
  case Nil
  then show ?case by simp
next
  case (Cons p ps)
  have ev: "dispatched (piece_state (emit_piece c slot pc p st)) =
     (case emit_piece c slot pc p st of
        PieceSent _ \<Rightarrow> dispatched st @ [EvStreamChunk slot p] | _ \<Rightarrow> dispatched st)"
    using emit_piece_events [of c slot pc p st] Cons.prems
    by (simp add: put_if_open_def split: piece_result.split)
  have cl: "\<not> closed (piece_state (emit_piece c slot pc p st))"
    using Cons.prems by (simp add: closed_emit_piece)
  show ?case
  proof (cases "emit_piece c slot pc p st")
    case (PieceSent st1)
    have d: "dispatched st1 = dispatched st @ [EvStreamChunk slot p]" and "\<not> closed st1"
      using ev cl PieceSent by simp_all
    from Cons.IH [OF this(2), of AtTop] show ?thesis
      using PieceSent d accounted_prefix [OF d]
      by (auto split: sum.splits) (metis append_assoc append_Nil append_Nil2 chunks_simps(1,2))
  qed (use ev in \<open>auto simp: accounted_def\<close>)
qed

lemma accounted_then:
  assumes "\<not> closed st"
    and k: "\<And>st1. \<not> closed st1 \<Longrightarrow> accounted slot st1 (k st1) (concat ds)"
  shows "accounted slot st (case emit_pieces c slot pc ps ds final st of Inl r \<Rightarrow> r | Inr st1 \<Rightarrow> k st1)
    (concat ps @ concat ds)"
proof (cases "emit_pieces c slot pc ps ds final st")
  case (Inl r)
  then show ?thesis
    using emit_pieces_accounted [OF assms(1), where c = c and slot = slot and pc = pc and ps = ps
      and ds = ds and final = final] by simp
next
  case (Inr st1)
  then obtain es where "\<not> closed st1" "dispatched st1 = dispatched st @ es" "chunks slot es = concat ps"
    using emit_pieces_accounted [OF assms(1), where c = c and slot = slot and pc = pc and ps = ps
      and ds = ds and final = final] by auto
  then show ?thesis using accounted_prefix [OF _ k, of st1 st es] Inr by simp
qed

lemma emit_all_accounted:
  "\<not> closed st \<Longrightarrow> accounted slot st (emit_all c slot ds final st) (concat ds)"
proof (induction ds arbitrary: st)
  case Nil
  then show ?case
    by (auto simp: after_emit_def accounted_def end_stream_def Let_def upd_cycle_def)
next
  case (Cons d ds)
  have "accounted slot st (emit_all c slot (d # ds) final st) (concat (pieces_of d) @ concat ds)"
    unfolding emit_all.simps by (rule accounted_then [OF Cons.prems Cons.IH])
  then show ?case by (simp add: pieces_of_concat)
qed

lemma emit_from_accounted:
  "\<not> closed st \<Longrightarrow> accounted slot st (emit_from c slot pc ps ds final st) (concat ps @ concat ds)"
  unfolding emit_from_def by (rule accounted_then [OF _ emit_all_accounted])

section \<open>The properties\<close>

text \<open>
  C4. One call of \<open>send\<close> with a body on a streaming response, and every continuation of
  it, hands the port chunks for its own slot that are together a prefix of the data it
  still had to send; it returns only when that is all of it, and when it has to wait its
  frame keeps exactly the rest.
\<close>

theorem stream_loses_nothing:
  assumes "cycle_of st c = Some y" and "c_streaming y" "\<not> c_completed y"
    and "\<not> task_done st c" and "\<not> closed st"
  shows "accounted (c_slot y) st
      (http_send c (HttpResponseBody (Some data) flag) st) data \<and>
    accounted (c_slot y) st (resume (FEmit c pc ps ds final) st) (concat ps @ concat ds)"
proof -
  have "concat (nonempty data) = data" by (simp add: nonempty_def)
  then have "accounted (c_slot y) st (emit_all c (c_slot y) (nonempty data) final st) data" for final
    using emit_all_accounted [OF assms(5), of "c_slot y" c "nonempty data" final] by simp
  then show ?thesis
    using assms emit_from_accounted [OF assms(5)]
    by (simp add: http_send_def send_body_def resume_def is_cycle_frame_def resume_http_def
        slot_of_cycle_def)
qed

theorem stream_loses_nothing_witness:
  "accounted 3 (after streaming_run)
     (http_send 1 (HttpResponseBody (Some (latin1 ''more'')) None) (after streaming_run)) (latin1 ''more'')"
proof -
  obtain y where y: "cycle_of (after streaming_run) 1 = Some y" "c_streaming y" "\<not> c_completed y"
    "\<not> task_done (after streaming_run) 1" "\<not> closed (after streaming_run)" and s: "c_slot y = 3"
    by (simp add: streaming_run_def exec_eval pieces_of_def split_every.simps)
  show ?thesis using stream_loses_nothing [OF y, of "latin1 ''more''" None] s by simp
qed

section \<open>A live stream always finds its window\<close>

definition has_window :: "slot \<Rightarrow> xst \<Rightarrow> bool" where
  "has_window slot st \<longleftrightarrow>
     credits st slot \<noteq> None \<and> credit_evts st slot \<noteq> None \<and> global_evt st \<noteq> None"

lemma calm_has_window: "calm st st' \<Longrightarrow> has_window slot st \<Longrightarrow> has_window slot st'"
  unfolding calm_def has_window_def by metis

lemma emit_piece_has_window:
  "has_window slot st \<Longrightarrow> emit_piece c slot pc p st \<noteq> PieceKeyError s"
  by (auto simp: has_window_def emit_piece_def emit_credit_def emit_global_def emit_charge_def
      charge_def split: wait_pc.splits if_splits)

lemma emit_pieces_has_window:
  "has_window slot st \<Longrightarrow>
    case emit_pieces c slot pc ps ds final st of
      Inl r \<Rightarrow> \<forall>e. snd r \<noteq> Throw e | Inr st1 \<Rightarrow> has_window slot st1"
proof (induction ps arbitrary: pc st)
  case (Cons p ps)
  have w: "has_window slot (piece_state (emit_piece c slot pc p st))"
    using calm_has_window [OF calm_emit_piece Cons.prems] .
  show ?case
    using emit_piece_has_window [OF Cons.prems, of c pc p] w Cons.IH [of _ AtTop]
    by (cases "emit_piece c slot pc p st") auto
qed simp

lemma emit_all_has_window:
  "has_window slot st \<Longrightarrow> snd (emit_all c slot ds final st) \<noteq> Throw e"
proof (induction ds arbitrary: st)
  case Nil
  then show ?case by (simp add: after_emit_def)
next
  case (Cons d ds)
  show ?case
    using emit_pieces_has_window [OF Cons.prems, where c = c and pc = AtTop and ps = "pieces_of d"
        and ds = ds and final = final] Cons.IH
    by (auto split: sum.splits)
qed



end
