(* ===== verification/Exec_Props.thy ===== *)
theory Exec_Props
  imports Exec_Stream
begin

text \<open>
  What the executor's operations promise their callers: the two windows' ledger over
  whole runs, the silence of a connection that has gone, what a disconnect does, and that
  nothing reaches the port once it is closed.
\<close>

section \<open>The windows\<close>

text \<open>
  C3. Over any run of a serving executor the outbound bytes are accounted for to the byte:
  the global window is never overdrawn, what is in flight on each slot is never negative,
  the two together are always the whole 131072, and no slot is credited past its own
  65536.
\<close>

theorem windows_conserved:
  assumes "serving st0" and "lts_run xstep st0 as st"
  shows "0 \<le> global_credit st \<and> global_credit st + dsum (inflight st) = 131072 \<and>
    0 \<le> getd (inflight st) s 0 \<and> getd (credits st) s 0 \<le> 65536"
proof -
  have l: "ledger st" by (rule exec_ledger.run_good [OF assms(2,1)])
  have "getd (credits st) s 0 \<le> 65536"
    using ledgerD(5) [OF l, of s] by (cases "credits st s") (simp_all add: getd_def window_consts)
  then show ?thesis using ledgerD(1,4) [OF l] ledgerD(3) [OF l, of s] by (simp add: window_consts)
qed

theorem windows_conserved_witness:
  "global_credit (after streaming_run) + dsum (inflight (after streaming_run)) = 131072 \<and>
   inflight (after streaming_run) 3 = Some 2"
proof -
  have "runs streaming_run" "inflight (after streaming_run) 3 = Some 2"
    by (simp_all add: streaming_run_def exec_eval pieces_of_def split_every.simps)
  then show ?thesis
    using windows_conserved [OF quiet_server_serving runs_after, of streaming_run 3] by simp
qed

section \<open>A client that has gone\<close>


definition gone_run :: "act list" where
  "gone_run = streaming_run @ [ActDisconnect 3 0]"


section \<open>A disconnect\<close>

definition wakes :: "wait \<Rightarrow> xst \<Rightarrow> xst \<Rightarrow> bool" where
  "wakes v st st' \<longleftrightarrow> (\<forall>i f b. parked st i = Some (f, v, b) \<longrightarrow> parked st' i = Some (f, v, True))"

definition stays :: "xst \<Rightarrow> xst \<Rightarrow> bool" where
  "stays st st' \<longleftrightarrow>
     (\<forall>i f w. parked st i = Some (f, w, True) \<longrightarrow> parked st' i = Some (f, w, True)) \<and>
     (\<forall>i f w b. parked st i = Some (f, w, b) \<longrightarrow> (\<exists>b'. parked st' i = Some (f, w, b')))"

lemma stays_wake: "parked st' = wake p (parked st) \<Longrightarrow> stays st st'"
  by (auto simp: stays_def wake_def)

lemma wakes_wake: "parked st' = wake p (parked st) \<Longrightarrow> p v \<Longrightarrow> wakes v st st'"
  by (auto simp: wakes_def wake_def)

lemma stays_same: "parked st' = parked st \<Longrightarrow> stays st st'"
  by (simp add: stays_def)

lemma stays_trans: "stays st st1 \<Longrightarrow> stays st1 st2 \<Longrightarrow> stays st st2"
  unfolding stays_def by meson

lemma wakes_stays: "wakes v st st1 \<Longrightarrow> stays st1 st2 \<Longrightarrow> wakes v st st2"
  unfolding stays_def wakes_def by meson

lemma stays_wakes: "stays st st1 \<Longrightarrow> wakes v st1 st2 \<Longrightarrow> wakes v st st2"
  unfolding stays_def wakes_def by meson

lemma stays_ops:
  "stays st (mark_owner_gone slot st)" "stays st (release_slot slot st)"
  "stays st (resolve_disconnect slot st)" "stays st (tell_inbox slot code st)"
  "stays st (wake_slot slot st)" "stays st (cancel_stream slot st)"
proof -
  have glob: "stays st (set_global_evt st1)" if "parked st1 = parked st" for st1
    using that by (auto simp: set_global_evt_def set_event_def intro: stays_wake stays_same
        split: option.split)
  show "stays st (release_slot slot st)"
    by (auto simp: release_slot_def release_def Let_def intro: glob stays_same)
qed (auto simp: mark_owner_gone_def resolve_disconnect_def tell_inbox_def wake_slot_def
      cancel_stream_def cancel_task_def upd_task_def resolve_future_def queue_put_def set_event_def
      intro: stays_same stays_wake split: option.split)

lemmas disconnect_defs = mark_owner_gone_def release_slot_def release_def resolve_disconnect_def
  tell_inbox_def wake_slot_def cancel_stream_def cancel_task_def upd_task_def set_global_evt_def
  set_event_def resolve_future_def queue_put_def Let_def

text \<open>The steps of \<open>_exec_on_disconnect\<close>, and the parts of the state each leaves alone.\<close>

lemma mark_owner_frame:
  "inflight (mark_owner_gone s st) = inflight st" "global_credit (mark_owner_gone s st) = global_credit st"
  "credits (mark_owner_gone s st) = credits st" "evt_flag (mark_owner_gone s st) = evt_flag st"
  "fut_done (mark_owner_gone s st) = fut_done st" "inboxes (mark_owner_gone s st) = inboxes st"
  "credit_evts (mark_owner_gone s st) = credit_evts st" "ws_inbox (mark_owner_gone s st) = ws_inbox st"
  "disconnects (mark_owner_gone s st) = disconnects st" "stream_tasks (mark_owner_gone s st) = stream_tasks st"
  by (simp_all add: mark_owner_gone_def upd_task_def split: option.split)

lemma release_slot_frame:
  "credits (release_slot s st) = credits st" "fut_done (release_slot s st) = fut_done st"
  "inboxes (release_slot s st) = inboxes st" "credit_evts (release_slot s st) = credit_evts st"
  "ws_inbox (release_slot s st) = ws_inbox st" "disconnects (release_slot s st) = disconnects st"
  "stream_tasks (release_slot s st) = stream_tasks st" "task_of (release_slot s st) = task_of st"
  by (simp_all add: release_slot_def release_def set_global_evt_def set_event_def Let_def split: option.split)

lemma release_slot_effect:
  "inflight (release_slot s st) = (inflight st)(s := None)"
  "global_credit (release_slot s st) = global_credit st + getd (inflight st) s 0"
  by (simp_all add: release_slot_def release_def set_global_evt_def set_event_def Let_def split: option.split)

lemma resolve_frame:
  "inflight (resolve_disconnect s st) = inflight st" "global_credit (resolve_disconnect s st) = global_credit st"
  "credits (resolve_disconnect s st) = credits st" "inboxes (resolve_disconnect s st) = inboxes st"
  "credit_evts (resolve_disconnect s st) = credit_evts st" "ws_inbox (resolve_disconnect s st) = ws_inbox st"
  "stream_tasks (resolve_disconnect s st) = stream_tasks st" "task_of (resolve_disconnect s st) = task_of st"
  by (simp_all add: resolve_disconnect_def resolve_future_def split: option.split)

lemma tell_inbox_frame:
  "inflight (tell_inbox s c st) = inflight st" "global_credit (tell_inbox s c st) = global_credit st"
  "credits (tell_inbox s c st) = credits st" "fut_done (tell_inbox s c st) = fut_done st"
  "credit_evts (tell_inbox s c st) = credit_evts st" "stream_tasks (tell_inbox s c st) = stream_tasks st"
  "task_of (tell_inbox s c st) = task_of st"
  by (simp_all add: tell_inbox_def queue_put_def split: option.split)

lemma wake_slot_frame:
  "inflight (wake_slot s st) = inflight st" "global_credit (wake_slot s st) = global_credit st"
  "credits (wake_slot s st) = credits st" "fut_done (wake_slot s st) = fut_done st"
  "inboxes (wake_slot s st) = inboxes st" "stream_tasks (wake_slot s st) = stream_tasks st"
  "task_of (wake_slot s st) = task_of st"
  by (simp_all add: wake_slot_def set_event_def split: option.split)

lemma cancel_stream_frame:
  "inflight (cancel_stream s st) = inflight st" "global_credit (cancel_stream s st) = global_credit st"
  "credits (cancel_stream s st) = credits st" "fut_done (cancel_stream s st) = fut_done st"
  "inboxes (cancel_stream s st) = inboxes st"
  by (simp_all add: cancel_stream_def cancel_task_def upd_task_def split: option.split)

lemmas disconnect_frames = mark_owner_frame release_slot_frame release_slot_effect resolve_frame
  tell_inbox_frame wake_slot_frame cancel_stream_frame

lemma disconnect_wakes:
  "credit_evts st slot = Some e \<Longrightarrow> wakes (ForEvent e) st (exec_on_disconnect slot code st)"
  "ws_inbox st slot = Some q \<Longrightarrow> wakes (ForQueue q) st (exec_on_disconnect slot code st)"
  "disconnects st slot = Some f \<Longrightarrow> \<not> fut_done st f \<Longrightarrow>
     wakes (ForFuture f) st (exec_on_disconnect slot code st)"
proof -
  let ?r1 = "mark_owner_gone slot st"
  let ?r2 = "release_slot slot ?r1"
  let ?r3 = "resolve_disconnect slot ?r2"
  let ?r4 = "tell_inbox slot code ?r3"
  let ?r5 = "wake_slot slot ?r4"
  let ?r6 = "cancel_stream slot ?r5"
  have r: "exec_on_disconnect slot code st = ?r6" by (simp add: exec_on_disconnect_def)
  have s2: "stays st ?r2" using stays_trans [OF stays_ops(1) stays_ops(2)] .
  have s3: "stays st ?r3" using stays_trans [OF s2 stays_ops(3)] .
  have s4: "stays st ?r4" using stays_trans [OF s3 stays_ops(4)] .
  have t4: "stays ?r4 ?r6" using stays_trans [OF stays_ops(5) stays_ops(6)] .
  have t3: "stays ?r3 ?r6" using stays_trans [OF stays_ops(4) t4] .
  show "wakes (ForEvent e) st (exec_on_disconnect slot code st)" if "credit_evts st slot = Some e"
  proof -
    have "wakes (ForEvent e) ?r4 ?r5"
      using that by (auto simp: wake_slot_def disconnect_frames set_event_def intro: wakes_wake)
    then show ?thesis using stays_wakes [OF s4] wakes_stays [OF _ stays_ops(6)] r by metis
  qed
  show "wakes (ForQueue q) st (exec_on_disconnect slot code st)" if "ws_inbox st slot = Some q"
  proof -
    have "wakes (ForQueue q) ?r3 ?r4"
      using that by (auto simp: tell_inbox_def disconnect_frames queue_put_def intro: wakes_wake)
    then show ?thesis using stays_wakes [OF s3] wakes_stays [OF _ t4] r by metis
  qed
  show "wakes (ForFuture f) st (exec_on_disconnect slot code st)"
    if "disconnects st slot = Some f" "\<not> fut_done st f"
  proof -
    have "wakes (ForFuture f) ?r2 ?r3"
      using that by (auto simp: resolve_disconnect_def disconnect_frames resolve_future_def intro: wakes_wake)
    then show ?thesis using stays_wakes [OF s2] wakes_stays [OF _ t3] r by metis
  qed
qed

lemma mark_owner_marks:
  "slot_task st slot = Some t \<Longrightarrow> task_gone (mark_owner_gone slot st) t"
  by (auto simp: mark_owner_gone_def upd_task_def task_gone_def split: option.split)

lemma gone_cancel_stream: "task_gone (cancel_stream s st) t = task_gone st t"
  by (auto simp: cancel_stream_def cancel_task_def upd_task_def task_gone_def split: option.split)

text \<open>
  What a disconnect does to its slot, and to nothing else's windows: the owner is marked
  gone, every byte the connection had in flight goes back to the shared window, the
  pending \<open>receive\<close> of a request resolves, a socket's inbox gets \<open>websocket.disconnect\<close>
  last (with the client's own code, or 1006) and every call of it that waits, for credit,
  for the future or for the inbox, is woken.
\<close>

lemma disconnect_effect:
  fixes st :: xst and slot code
  defines "st' \<equiv> exec_on_disconnect slot code st"
  shows "(\<forall>t. slot_task st slot = Some t \<longrightarrow> task_gone st' t) \<and>
    inflight st' = (inflight st)(slot := None) \<and> credits st' = credits st \<and>
    global_credit st' = global_credit st + getd (inflight st) slot 0 \<and>
    (\<forall>f. disconnects st slot = Some f \<longrightarrow> fut_done st' f) \<and>
    (\<forall>q. ws_inbox st slot = Some q \<longrightarrow>
       inboxes st' q = inboxes st q @ [(WsDisconnect (if code = 0 then 1006 else code), 0)] \<and>
       wakes (ForQueue q) st st') \<and>
    (\<forall>e. credit_evts st slot = Some e \<longrightarrow> wakes (ForEvent e) st st') \<and>
    (\<forall>f. disconnects st slot = Some f \<and> \<not> fut_done st f \<longrightarrow> wakes (ForFuture f) st st') \<and>
    dispatched st' = dispatched st"
proof -
  have gone: "task_gone st' t" if "slot_task st slot = Some t" for t
    using mark_owner_marks [OF that]
    unfolding st'_def exec_on_disconnect_def gone_cancel_stream
    by (simp add: task_gone_def disconnect_frames)
  have fut: "fut_done st' f" if "disconnects st slot = Some f" for f
    using that by (auto simp: st'_def exec_on_disconnect_def disconnect_frames resolve_disconnect_def
        resolve_future_def)
  have box: "inboxes st' q = inboxes st q @ [(WsDisconnect (if code = 0 then 1006 else code), 0)]"
    if "ws_inbox st slot = Some q" for q
    using that by (simp add: st'_def exec_on_disconnect_def disconnect_frames tell_inbox_def queue_put_def)
  show ?thesis
    using gone fut box disconnect_wakes [of st slot]
    by (simp add: st'_def) (simp add: exec_on_disconnect_def disconnect_frames)
qed

lemma disconnect_effect_witness:
  "task_gone (exec_on_disconnect 3 0 (after streaming_run)) 1 \<and>
   global_credit (exec_on_disconnect 3 0 (after streaming_run)) = 131072"
proof -
  have "slot_task (after streaming_run) 3 = Some 1" "global_credit (after streaming_run) = 131070"
    "inflight (after streaming_run) 3 = Some 2"
    by (simp_all add: streaming_run_def exec_eval pieces_of_def split_every.simps)
  then show ?thesis using disconnect_effect [of "after streaming_run" 3 0] by simp
qed

section \<open>The port once closed\<close>

definition same_log :: "xst \<Rightarrow> xst \<Rightarrow> bool" where
  "same_log st st' \<longleftrightarrow> (closed st \<longrightarrow> closed st' \<and> dispatched st' = dispatched st)"

lemma same_log_refl [simp, intro]: "same_log st st"
  by (simp add: same_log_def)

lemma same_log_trans: "same_log st st1 \<Longrightarrow> same_log st1 st2 \<Longrightarrow> same_log st st2"
  by (auto simp: same_log_def)

lemma same_logI: "closed st' = closed st \<Longrightarrow> dispatched st' = dispatched st \<Longrightarrow> same_log st st'"
  by (simp add: same_log_def)

lemma closed_vw: "vw t st' = vw t st \<Longrightarrow> closed st' = closed st"
  by (simp add: vw_def)

lemma same_log_vw: "vw t st' = vw t st \<Longrightarrow> dispatched st' = dispatched st \<Longrightarrow> same_log st st'"
  by (rule same_logI [OF closed_vw])

lemma closed_put [simp]: "closed (exec_put e st) = closed st"
  by (rule closed_vw [OF vw_ops(5)])

lemma same_log_put: "same_log s st \<Longrightarrow> same_log s (exec_put e st)"
  by (auto simp: same_log_def)

lemma same_log_emit:
  "same_log st (fst (emit_all c slot ds final st))"
  "same_log st (fst (emit_from c slot pc ps ds final st))"
proof -
  have piece: "same_log st s \<Longrightarrow> same_log st (piece_state (emit_piece c slot pc p s))" for pc p s
    using emit_piece_events [of c slot pc p s] closed_emit_piece [of c slot pc p s]
    by (auto simp: same_log_def put_if_open_def split: piece_result.splits)
  have fin: "same_log st s \<Longrightarrow> same_log st (end_stream c slot s)" for s
    by (auto simp: end_stream_def Let_def same_log_def upd_cycle_fields intro!: same_log_put)
  show "same_log st (fst (emit_all c slot ds final st))"
    by (rule emit_all_keeps [where P = "same_log st"]) (simp_all add: piece fin)
  show "same_log st (fst (emit_from c slot pc ps ds final st))"
    by (rule emit_from_keeps [where P = "same_log st"]) (simp_all add: piece fin)
qed

lemma same_log_start_stream: "same_log st (start_stream c slot s hs st)"
  by (auto simp: same_log_def dispatched_start_stream start_stream_def Let_def new_event_def
      open_window_def upd_cycle_def upd_task_def)

lemma same_log_answer_head: "same_log st (answer_head c slot s hs st)"
  by (auto simp: same_log_def dispatched_answer_head answer_head_def Let_def upd_cycle_def
      resolve_future_def split: option.split)

lemma same_log_http:
  "same_log st (fst (http_send c m st))" "same_log st (fst (http_receive c st))"
  "same_log st (run_finish c e st)"
proof -
  have upd: "same_log st (upd_cycle c f st)" for f by (rule same_logI) (simp_all add: upd_cycle_def)
  have strm: "same_log st (fst (emit_all c slot ds final (start_stream c slot s hs st)))"
    for slot ds final s hs
    by (rule same_log_trans [OF same_log_start_stream same_log_emit(1)])
  show "same_log st (fst (http_send c m st))"
    by (auto simp: http_send_def send_body_def Let_def upd strm same_log_emit same_log_answer_head
        intro!: same_log_put split: option.split asgi_msg.split)
  show "same_log st (fst (http_receive c st))"
    by (auto simp: http_receive_def Let_def new_id_def upd intro: same_logI split: option.split)
  show "same_log st (run_finish c e st)"
    by (auto simp: same_log_def run_finish_def Let_def upd_cycle_def upd_task_def call_soon_def
        split: option.split)
qed

lemma same_log_ws:
  "same_log st (fst (ws_send c m st))" "same_log st (fst (ws_receive c st))"
  "same_log st (ws_finish c e st)" "same_log st (fst (resume_ws f st))"
proof -
  note base = same_log_trans [OF same_logI]
  have put: "same_log st (fst (ws_put_frame u slot pc opcode payload st))"
    "same_log st (fst (ws_put_close u slot pc code st))" for u slot pc opcode payload code st
    using ws_spend_dispatched [where slot = slot and u = u and pc = pc and st = st
        and n = "ws_frame_bytes (length payload)"]
      ws_spend_dispatched [where slot = slot and u = u and pc = pc and st = st
        and n = "ws_frame_bytes 2"]
      ws_spend_vw [where slot = slot and u = u and pc = pc and st = st and t = undefined
        and n = "ws_frame_bytes (length payload)"]
      ws_spend_vw [where slot = slot and u = u and pc = pc and st = st and t = undefined
        and n = "ws_frame_bytes 2"]
    by (auto simp: ws_put_frame_def ws_put_close_def same_log_def dest: closed_vw split: spend_result.splits)
  have get: "same_log st (fst (ws_get c s st))" for c s
    by (auto simp: ws_get_def ws_consume_def Let_def same_log_def upd_sock_def
        split: list.split recv_msg.split)
  have sock: "same_log st (upd_sock c f st)" for f st by (rule same_logI) (simp_all add: upd_sock_def)
  have close: "same_log st (fst (ws_close c s code st))" for s code
    by (auto simp: ws_close_def Let_def
        intro!: same_log_put same_log_trans [OF sock put(2)] same_log_trans [OF sock sock])
  have acc: "same_log st (ws_accept c slot st)" for slot
    by (auto simp: ws_accept_def Let_def new_event_def open_window_def upd_sock_def
        intro!: same_log_put same_logI)
  show "same_log st (fst (ws_send c m st))"
    by (auto simp: ws_send_def put close acc split: option.split asgi_msg.split)
  show "same_log st (fst (ws_receive c st))"
    by (auto simp: ws_receive_def get sock split: option.split)
  show "same_log st (ws_finish c e st)"
    by (auto simp: ws_finish_def Let_def same_log_def upd_task_def call_soon_def split: option.split)
  show "same_log st (fst (resume_ws f st))"
    by (auto simp: resume_ws_def put get split: frame.split option.split)
qed

lemma same_log_settle: "same_log s (fst r) \<Longrightarrow> same_log s (settle r)"
  by (cases r) (auto simp: settle_def new_id_def same_log_def split: seg.split)

lemma same_log_done:
  "same_log st (on_task_done slot t st)" "same_log st (cycle_done t st)"
proof -
  have d: "same_log st (drop_ownership s t st)" for s
    by (rule same_log_vw [of t]) (rule vw_slot_ops(6), simp)
  show o: "same_log st (on_task_done s t st)" for s
    by (auto simp: on_task_done_def Let_def d intro!: same_log_put split: option.split outcome.split)
  show "same_log st (cycle_done t st)"
    by (auto simp: cycle_done_def Let_def d o intro!: same_log_put split: option.split outcome.split)
qed

lemma same_log_calls:
  "same_log st (put_jobs js st)" "same_log st (on_submit d st)" "same_log st (run_callback cb st)"
  "same_log st (drain_step b st)" "same_log st (on_backend b st)" "same_log st (on_tick b st)"
  "same_log st (fst (resume f st))"
proof -
  show jobs: "same_log st (put_jobs js st)" for js st
  proof -
    have "same_log s (put_jobs js st)" if "same_log s st" for s
      using that unfolding put_jobs_def by (induction js arbitrary: st) (simp_all add: same_log_put)
    then show ?thesis by simp
  qed
  show "same_log st (on_submit d st)"
    by (auto simp: on_submit_def jobs intro!: same_log_put
        intro: same_log_vw [OF vw_slot_ops(3)] same_log_vw [OF vw_ops(12)] same_logI
        split: option.split submit.split)
  show "same_log st (run_callback cb st)"
    by (auto simp: run_callback_def same_log_done gather_start_def
        intro: same_log_vw [OF vw_ops(7)] same_logI split: callback.split option.split)
  have canc: "closed (cancel_all ts st) = closed st" "dispatched (cancel_all ts st) = dispatched st"
    for ts st by (simp_all add: cancel_all_def)
  show "same_log st (drain_step b st)"
    by (auto simp: drain_step_def gather_start_def gather_rest_def gather_cancel_def
        gather_stuck_def Let_def same_log_def canc split: drain_pc.split)
  show "same_log st (on_backend b st)"
    by (auto simp: on_backend_def intro: same_log_vw [OF vw_ops(4)] same_log_vw [OF vw_ops(6)])
  show "same_log st (on_tick b st)"
    by (auto simp: on_tick_def intro: same_log_vw [OF vw_ops(6)])
  show "same_log st (fst (resume f st))"
    by (cases f) (auto simp: resume_def is_cycle_frame_def resume_http_def same_log_emit same_log_ws)
qed

lemma same_log_exec_act: "same_log st (exec_act a st)"
proof (cases a)
  case (ActResume i)
  have "same_log st (settle (resume f (unpark i st)))" for f
    by (rule same_log_settle, rule same_log_trans [OF same_logI same_log_calls(7)])
       (simp_all add: unpark_def)
  then show ?thesis using ActResume by (auto simp: exec_act_def split: option.split)
next
  case ActCallback
  have "same_log st (run_callback cb (st\<lparr>soon := cbs\<rparr>))" for cb cbs
    by (rule same_log_trans [OF same_logI same_log_calls(3)]) simp_all
  then show ?thesis using ActCallback by (auto simp: exec_act_def split: list.split)
next
  case (ActWsStart t)
  then show ?thesis
    by (auto simp: exec_act_def ws_start_def Let_def new_id_def intro: same_logI split: option.split)
next
  case (ActAck d)
  then show ?thesis by (auto simp: exec_act_def intro: same_log_vw [OF vw_slot_ops(5)])
next
  case (ActDisconnect slot code)
  then show ?thesis by (auto simp: exec_act_def intro: same_log_vw [OF vw_slot_ops(3)])
next
  case (ActTimer t)
  then show ?thesis
    by (auto simp: exec_act_def stop_unheard_def cancel_task_def upd_task_def intro: same_logI)
qed (auto simp: exec_act_def spawn_def spawn_ws_def Let_def new_id_def send_op_def receive_op_def
      finish_op_def unpark_def same_log_calls same_log_http same_log_ws
      intro!: same_log_settle intro: same_logI)

text \<open>
  Once the drain has closed the port it is gone for good: whatever runs after that (an
  application that swallowed its cancellation, a late callback, a datagram), the port stays
  closed and is handed nothing more.
\<close>

lemma closed_port_is_silent:
  assumes "lts_run xstep st as st'" and "closed st"
  shows "closed st' \<and> dispatched st' = dispatched st"
  using assms
proof (induction rule: lts_run.induct)
  case (run_snoc s ls t l u)
  then have "closed t \<and> dispatched t = dispatched s" by simp
  moreover have "same_log t u" using run_snoc(2) same_log_exec_act by (auto elim: xstepE)
  ultimately show ?case by (simp add: same_log_def)
qed simp

definition closed_server :: xst where
  "closed_server = quiet_server\<lparr>closed := True\<rparr>"

lemma closed_port_is_silent_witness:
  "dispatched (exec_act (ActSubmit (Some (to_le 8 5))) closed_server) = dispatched closed_server"
proof -
  have "enabled (ActSubmit (Some (to_le 8 5))) closed_server" "closed closed_server"
    by (simp_all add: closed_server_def exec_eval)
  then show ?thesis using closed_port_is_silent lts_run_one xstep.act by metis
qed



end
