(* ===== verification/Channel_Props.thy ===== *)
theory Channel_Props
  imports Exec_Props
begin

text \<open>
  The datagrams between the loop and the executor, and the bus they carry: each kind of
  submit datagram is read as what its writer meant, a published frame reaches every
  subscriber of its channel, and a socket's messages are handed on in order and acked
  to the byte.
\<close>

section \<open>Submit datagrams\<close>

lemma parse_job: "-(2^63) \<le> j \<Longrightarrow> j < 2^63 \<Longrightarrow> parse_submit (to_le 8 j) = SubJob j"
  using from_le_signed_to_le [of 8 j] by (simp add: parse_submit_def)

lemma slots_of_batch:
  "\<forall>j \<in> set js. -(2^63) \<le> j \<and> j < 2^63 \<Longrightarrow> slots_of (concat (map (to_le 8) js)) = js"
proof (induction js)
  case (Cons j js)
  then have j: "from_le_signed (to_le 8 j) = j" using from_le_signed_to_le [of 8 j] by simp
  obtain b bs where b: "to_le 8 j @ concat (map (to_le 8) js) = b # bs"
    using length_to_le [of 8 j] by (metis append_is_Nil_conv list.exhaust list.size(3) zero_neq_numeral)
  have "slots_of (b # bs) = from_le_signed (take 8 (b # bs)) # slots_of (drop 8 (b # bs))"
    by simp
  then show ?case using Cons j b [symmetric] by simp
qed simp

lemma length_batch: "length (concat (map (to_le 8) js)) = 8 * length js"
  by (induction js) simp_all

lemma parse_batch:
  assumes "js \<noteq> []" and "\<forall>j \<in> set js. -(2^63) \<le> j \<and> j < 2^63"
  shows "parse_submit (TAG_JOB_BATCH # concat (map (to_le 8) js)) = SubBatch js"
proof -
  have "8 \<le> length (concat (map (to_le 8) js))" using assms(1) by (cases js) (simp_all add: length_batch)
  then show ?thesis
    using slots_of_batch [OF assms(2)] by (simp add: parse_submit_def length_batch)
qed

lemma parse_disconnect:
  assumes "-(2^63) \<le> s" "s < 2^63" "0 \<le> code" "code < 65536"
  shows "parse_submit (TAG_DISCONNECT # to_le 8 s) = SubDisconnect s 0"
    and "parse_submit (TAG_DISCONNECT # to_le 8 s @ to_le 2 code) = SubDisconnect s code"
  using assms from_le_signed_to_le [of 8 s] from_le_to_le [of 2 code]
  by (simp_all add: parse_submit_def field_def tag_defs)

lemma parse_ws:
  assumes "-(2^63) \<le> s" "s < 2^63"
  shows "parse_submit (TAG_WS_MESSAGE # to_le 8 s @ opcode # payload)
    = SubWsMessage s (unat opcode) payload"
  using assms from_le_signed_to_le [of 8 s]
  by (simp add: parse_submit_def field_def tag_defs WS_TAG_HEADER_def nth_append)

lemma behind_header:
  assumes "length a = 8" and "length b = 2"
  shows "drop (11 + n) (t # a @ b @ r) = drop n r"
    and "take (11 + n) (t # a @ b @ r) = t # a @ b @ take n r"
  using assms by (simp_all add: drop_Cons' take_Cons')

lemma parse_bus:
  assumes "-(2^63) \<le> eid" "eid < 2^63" "length url \<le> 65535"
  shows "parse_submit (TAG_BUS_FRAME # pack_frame eid url frame)
    = SubBusFrame eid (utf8_decode_replace url) frame"
  using assms from_le_signed_to_le [of 8 eid] from_le_to_le [of 2 "int (length url)"]
  by (simp add: parse_submit_def field_def tag_defs WS_TAG_HEADER_def pack_frame_def Let_def
      behind_header)

text \<open>
  C8. Every kind of submit datagram parses back to exactly what was put in it: a bare
  job, a batch, a disconnect with and without a close code, a socket's message, a bus
  frame. No datagram of one kind is ever read as another, whatever its bytes.
\<close>

theorem submit_roundtrip:
  assumes "-(2^63) \<le> s" and "s < 2^63" and "0 \<le> code" "code < 65536"
    and "js \<noteq> []" "\<forall>j \<in> set js. -(2^63) \<le> j \<and> j < 2^63" and "length url \<le> 65535"
  shows "parse_submit (to_le 8 s) = SubJob s \<and>
    parse_submit (TAG_JOB_BATCH # concat (map (to_le 8) js)) = SubBatch js \<and>
    parse_submit (TAG_DISCONNECT # to_le 8 s) = SubDisconnect s 0 \<and>
    parse_submit (TAG_DISCONNECT # to_le 8 s @ to_le 2 code) = SubDisconnect s code \<and>
    parse_submit (TAG_WS_MESSAGE # to_le 8 s @ opcode # payload) = SubWsMessage s (unat opcode) payload \<and>
    parse_submit (TAG_BUS_FRAME # pack_frame s url frame) = SubBusFrame s (utf8_decode_replace url) frame"
  using assms by (simp add: parse_job parse_batch parse_disconnect parse_ws parse_bus)

theorem submit_roundtrip_witness:
  "parse_submit (to_le 8 (-1)) = SubJob (-1) \<and>
   parse_submit (TAG_JOB_BATCH # concat (map (to_le 8) [7])) = SubBatch [7]"
  using submit_roundtrip [of "-1" 1001 "[7]" "[]" 1 "[]" "[]"]
    submit_roundtrip [of "7" 1001 "[7]" "[]" 1 "[]" "[]"] by simp

section \<open>Publish and subscribe\<close>

text \<open>
  What a subscriber's queue holds after the loop has dispatched a list of bus datagrams.
\<close>

lemma dispatch_one:
  assumes "m0_subs b ch = Some qs" "distinct qs" "i \<in> set qs" "sub_queues b i = Some q"
  shows "sub_queues (m0_dispatch eid ch data b) i = Some (deliver (eid, data) q)"
    and "m0_subs (m0_dispatch eid ch data b) = m0_subs b"
  using assms deliver_all_in [of qs i "(eid, data)" "sub_queues b"]
  by (simp_all add: m0_dispatch_def)

text \<open>
  C9. What is published arrives. A frame that \<open>publish\<close> accepts is written once per worker
  channel; forwarded with the bus tag, the executor's reader takes it apart into the same
  id and payload under the same channel, and every subscriber of that channel on the loop
  gets it as its newest item.
\<close>

theorem publish_reaches_subscriber:
  assumes pub: "m0_publish fds ctr (PyStr ch) (PyBytes data) = (Inr eid, ctr', writes)"
    and w: "(fd, frame) \<in> set writes" and eid: "-(2^63) \<le> eid" "eid < 2^63"
    and sub: "m0_subs (bus_of st) ch = Some qs" "distinct qs" "i \<in> set qs"
      "sub_queues (bus_of st) i = Some q" "int (length (q_items q)) \<le> q_max q" "0 < q_max q"
  shows "\<exists>q'. sub_queues (bus_of (on_submit (Some (TAG_BUS_FRAME # frame)) st)) i = Some q' \<and>
    last (q_items q') = (eid, data) \<and> int (length (q_items q')) \<le> q_max q"
proof -
  obtain url where url: "utf8_encode ch = Some url"
    using pub by (auto simp: m0_publish_def as_bytes_def split: option.splits)
  have "length url \<le> 65535" and fr: "frame = pack_frame eid url data"
    using pub w url by (auto simp: m0_publish_def as_bytes_def take_id_def Let_def
        split: option.splits if_splits)
  then have "parse_submit (TAG_BUS_FRAME # frame) = SubBusFrame eid ch data"
    using parse_bus [OF eid] utf8_roundtrip [OF url] by simp
  then have "sub_queues (bus_of (on_submit (Some (TAG_BUS_FRAME # frame)) st)) i
      = Some (deliver (eid, data) q)"
    using dispatch_one [OF sub(1-4)] by (simp add: on_submit_def)
  moreover have "q_items q @ [(eid, data)] \<noteq> []"
    "length (q_items q) + 1 - nat (q_max q) < length (q_items q @ [(eid, data)])"
    using sub(6) by auto
  ultimately show ?thesis
    using deliver_items [OF sub(6,5), of "(eid, data)"] deliver_bounded [OF sub(6,5), of "(eid, data)"]
    by (simp add: last_drop)
qed

definition subscribed_server :: xst where
  "subscribed_server = quiet_server\<lparr>bus_of :=
     (case m0_subscribe 9 (PyStr [0x63]) 4 (bus_of quiet_server) of Inr b \<Rightarrow> b | Inl _ \<Rightarrow> bus_of quiet_server)\<rparr>"

theorem publish_reaches_subscriber_witness:
  "\<exists>q'. sub_queues (bus_of (on_submit (Some (TAG_BUS_FRAME # pack_frame 1 [0x63] [7])) subscribed_server)) 9
     = Some q' \<and> last (q_items q') = (1, [7]) \<and> int (length (q_items q')) \<le> q_max \<lparr>q_max = 4, q_items = []\<rparr>"
proof (rule publish_reaches_subscriber [where qs = "[9]"])
  have "m0_publish [5] (Some 0) (PyStr [0x63]) (PyBytes [7]) = (Inr 1, Some 1, [(5, pack_frame 1 [0x63] [7])])"
    by (simp add: m0_publish_def as_bytes_def utf8_encode_def scalar_def utf8_char_def u8_def
        take_id_def pack_frame_def MAX_FRAME_def)
  then show "m0_publish [5] (Some 0) (PyStr [0x63]) (PyBytes [7])
      = (Inr 1, Some 1, [(5, pack_frame 1 [0x63] [7])])" .
qed (simp_all add: subscribed_server_def quiet_server_def exec_eval m0_subscribe_def)

text \<open>
  C10. A slow subscriber sheds the oldest frames, never the newest: after any number of
  dispatches on its channel its bounded queue holds exactly the last \<open>max_queue\<close> of what
  it held and what came, in order.
\<close>

theorem slow_subscriber_keeps_newest:
  assumes "m0_subs b ch = Some qs" "distinct qs" "i \<in> set qs" "sub_queues b i = Some q"
    and "0 < q_max q" "int (length (q_items q)) \<le> q_max q"
  shows "\<exists>q'. sub_queues (fold (\<lambda>(e, d). m0_dispatch e ch d) ms b) i = Some q' \<and>
    q_items q' = drop (length (q_items q) + length ms - nat (q_max q)) (q_items q @ ms)"
proof -
  have "sub_queues (fold (\<lambda>(e, d). m0_dispatch e ch d) ms b) i = Some (fold deliver ms q)"
    using assms(1,4)
  proof (induction ms arbitrary: b q)
    case (Cons m ms)
    then show ?case
      using dispatch_one [OF Cons.prems(1) assms(2,3) Cons.prems(2), of "fst m" "snd m"]
      by (cases m) simp
  qed simp
  then show ?thesis using fold_deliver [OF assms(5,6)] by simp
qed

theorem slow_subscriber_keeps_newest_witness:
  "\<exists>q'. sub_queues (fold (\<lambda>(e, d). m0_dispatch e [0x63] d) [(1, [1]), (2, [2]), (3, [3])]
       \<lparr>m0_subs = [[0x63] \<mapsto> [9]], sub_queues = [9 \<mapsto> \<lparr>q_max = 2, q_items = []\<rparr>]\<rparr>) 9 = Some q'
     \<and> q_items q' = [(2, [2]), (3, [3])]"
  using slow_subscriber_keeps_newest [of "\<lparr>m0_subs = [[0x63] \<mapsto> [9]],
      sub_queues = [9 \<mapsto> \<lparr>q_max = 2, q_items = []\<rparr>]\<rparr>" "[0x63]" "[9]" 9 "\<lparr>q_max = 2, q_items = []\<rparr>"
      "[(1, [1]), (2, [2]), (3, [3])]"] by simp

section \<open>A socket's messages\<close>

text \<open>Calling \<open>receive\<close> \<open>n\<close> times: what it answers, and the state after.\<close>

fun receives :: "nat \<Rightarrow> tid \<Rightarrow> xst \<Rightarrow> answer list \<times> xst" where
  "receives 0 t st = ([], st)"
| "receives (Suc n) t st =
     (case ws_receive t st of
        (st1, Ret a) \<Rightarrow> (case receives n t st1 of (as, st2) \<Rightarrow> (a # as, st2))
      | (st1, _) \<Rightarrow> ([], st1))"

text \<open>The cumulative acks for messages of these costs.\<close>

fun acks :: "slot \<Rightarrow> int \<Rightarrow> int list \<Rightarrow> ev list" where
  "acks slot n [] = []"
| "acks slot n (c # cs) = (if c = 0 then acks slot n cs else EvWsAck slot (n + c) # acks slot (n + c) cs)"

lemma receive_one:
  assumes s: "sock_of st t = Some s" "s_connected s" "s_ended s = None"
    and live: "\<not> task_gone st t" "\<not> closed st"
    and box: "inboxes st (s_inbox s) = (m, c) # rest" and m: "\<And>code. m \<noteq> WsDisconnect code"
  shows "\<exists>st1 s1. ws_receive t st = (st1, Ret (Message m)) \<and>
    sock_of st1 t = Some s1 \<and> s_connected s1 \<and> s_ended s1 = None \<and> s_slot s1 = s_slot s \<and>
    s_inbox s1 = s_inbox s \<and> s_consumed s1 = s_consumed s + c \<and>
    \<not> task_gone st1 t \<and> \<not> closed st1 \<and> inboxes st1 (s_inbox s) = rest \<and>
    dispatched st1 = dispatched st @ acks (s_slot s) (s_consumed s) [c]"
proof -
  let ?st = "st\<lparr>inboxes := (inboxes st)(s_inbox s := rest)\<rparr>"
  have g: "\<not> task_gone ?st t" using live by (simp add: task_gone_def)
  have c: "ws_receive t st = ws_consume t s m c ?st"
    using s box by (simp add: ws_receive_def ws_get_def)
  have put: "sock_of (exec_put e x) = sock_of x" "inboxes (exec_put e x) = inboxes x" for e x
    by (simp_all add: exec_put_def arm_flush_def call_soon_def Let_def)
  have "(case m of WsDisconnect _ \<Rightarrow> upd_sock t (\<lambda>s. s\<lparr>s_ended := Some m\<rparr>) ?st | _ \<Rightarrow> ?st) = ?st"
    using m by (cases m) auto
  then show ?thesis
    unfolding c ws_consume_def Let_def
    using s live g by (simp add: put upd_sock_def task_gone_def)
qed

text \<open>
  A WebSocket's messages reach its application in the order the loop sent them, one per
  \<open>receive\<close>, and each is acked with the running total of the bytes consumed so far, on the
  slot the socket was opened on.
\<close>

lemma socket_messages_in_order:
  assumes "sock_of st t = Some s" "s_connected s" "s_ended s = None"
    and "\<not> task_gone st t" "\<not> closed st"
    and "inboxes st (s_inbox s) = ms @ rest" and "\<forall>(m, c) \<in> set ms. \<forall>code. m \<noteq> WsDisconnect code"
  shows "fst (receives (length ms) t st) = map (Message \<circ> fst) ms \<and>
    dispatched (snd (receives (length ms) t st)) =
      dispatched st @ acks (s_slot s) (s_consumed s) (map snd ms)"
  using assms
proof (induction ms arbitrary: st s)
  case (Cons mc ms)
  obtain m c where mc: "mc = (m, c)" by (cases mc)
  from receive_one [OF Cons.prems(1-5), of m c "ms @ rest"] Cons.prems(6,7) mc
  obtain st1 s1 where r: "ws_receive t st = (st1, Ret (Message m))"
    and s1: "sock_of st1 t = Some s1" "s_connected s1" "s_ended s1 = None" "\<not> task_gone st1 t"
      "\<not> closed st1" "inboxes st1 (s_inbox s1) = ms @ rest"
    and eq: "s_slot s1 = s_slot s" "s_consumed s1 = s_consumed s + c"
      "dispatched st1 = dispatched st @ acks (s_slot s) (s_consumed s) [c]"
    by auto
  show ?case
    using Cons.IH [OF s1] Cons.prems(7) r eq mc
    by (auto split: prod.split)
qed simp

definition socket_run :: "act list" where
  "socket_run = [ActSpawnWs 3, ActWsStart 1, ActReceive 1, ActSend 1 WebsocketAccept,
     ActSubmit (Some (TAG_WS_MESSAGE # to_le 8 3 @ 2 # [1, 2])),
     ActSubmit (Some (TAG_WS_MESSAGE # to_le 8 3 @ 2 # [3]))]"

lemma socket_messages_in_order_witness:
  "fst (receives 2 1 (after socket_run)) = [Message (WsBytes [1, 2]), Message (WsBytes [3])] \<and>
   dispatched (snd (receives 2 1 (after socket_run))) =
     dispatched (after socket_run) @ [EvWsAck 3 12, EvWsAck 3 23]"
proof -
  have p: "parse_submit (TAG_WS_MESSAGE # to_le 8 3 @ 2 # b) = SubWsMessage 3 2 b" for b
    using parse_ws [of 3 2 b] by simp
  obtain s where s: "sock_of (after socket_run) 1 = Some s" "s_connected s" "s_ended s = None"
    "\<not> task_gone (after socket_run) 1" "\<not> closed (after socket_run)"
    and box: "inboxes (after socket_run) (s_inbox s) = [(WsBytes [1, 2], 12), (WsBytes [3], 11)]"
    and c: "s_slot s = 3" "s_consumed s = 0"
    by (simp add: socket_run_def exec_eval on_submit_def p exec_on_ws_message_def
        WS_TAG_HEADER_def WS_IN_WINDOW_def)
  show ?thesis
    using socket_messages_in_order [OF s, of "[(WsBytes [1, 2], 12), (WsBytes [3], 11)]" "[]"] box c
    by (simp add: numeral_2_eq_2)
qed

section \<open>The end of a socket\<close>

text \<open>
  When a socket's application ends, one way or the other, while its client is still
  there, the loop is told exactly once and in the right words: an accepted socket it left
  open is closed, with 1011 if it raised anything but a cancellation or a disconnect and
  1000 otherwise; a handshake it never resolved is rejected; one it closed itself gets
  nothing more. The task is done after it, and nothing is said for a client that has gone.
\<close>

lemma socket_end_is_told:
  assumes "sock_of st t = Some s" and "task_of st t = Some k" and "\<not> closed st"
  shows "task_done (ws_finish t raised st) t \<and>
    dispatched (ws_finish t raised st) = dispatched st @
      (if task_gone st t then []
       else if s_accepted s \<and> \<not> s_closed s
            then [EvWsClose (s_slot s)
                   (case raised of None \<Rightarrow> 1000
                    | Some e \<Rightarrow> if ex_kind e \<in> {CancelledError, ClientDisconnected} then 1000 else 1011)]
       else if \<not> s_resolved s then [EvWsReject (s_slot s)] else [])"
  using assms
  by (auto simp: ws_finish_def ws_failed_def Let_def task_done_def upd_task_def call_soon_def
      exec_put_def arm_flush_def split: option.split)

lemma socket_end_is_told_witness:
  "dispatched (ws_finish 1 None (after socket_run)) = dispatched (after socket_run) @ [EvWsClose 3 1000]"
proof -
  have p: "parse_submit (TAG_WS_MESSAGE # to_le 8 3 @ 2 # b) = SubWsMessage 3 2 b" for b
    using parse_ws [of 3 2 b] by simp
  obtain s k where s: "sock_of (after socket_run) 1 = Some s" "task_of (after socket_run) 1 = Some k"
    "\<not> closed (after socket_run)" and "\<not> task_gone (after socket_run) 1" "s_accepted s" "\<not> s_closed s"
      "s_slot s = 3"
    by (simp add: socket_run_def exec_eval on_submit_def p exec_on_ws_message_def
        WS_TAG_HEADER_def WS_IN_WINDOW_def)
  then show ?thesis using socket_end_is_told [OF s, of None] by simp
qed

end
