(* ===== verification/Interleavings.thy ===== *)
theory Interleavings
  imports Channel_Props
begin

text \<open>
  Three interleavings of calls that the executor lets through, as runs of a serving
  executor: what a window can be overdrawn to, and two events that follow the end they
  should have preceded. Each is a reachable state, evaluated from the definitions.
\<close>

text \<open>An ack as the loop writes it, and data whose content does not matter.\<close>

definition ack_datagram :: "int \<Rightarrow> int \<Rightarrow> bytes" where
  "ack_datagram slot n = to_le 4 slot @ to_le 4 n"

lemma on_ack_datagram:
  "0 \<le> s \<Longrightarrow> s < 4294967296 \<Longrightarrow> 0 \<le> n \<Longrightarrow> n < 4294967296 \<Longrightarrow>
     on_ack (Some (ack_datagram s n)) st = exec_on_ack s n st"
  by (simp add: on_ack_def ack_datagram_def field_def from_le_to_le)

definition zeros :: "nat \<Rightarrow> bytes" where "zeros n = replicate n 0"

lemma length_zeros: "length (zeros n) = n" by (simp add: zeros_def)

lemma zeros_empty: "zeros n = [] \<longleftrightarrow> n = 0" by (simp add: zeros_def)

lemma pieces_of_short: "d \<noteq> [] \<Longrightarrow> length d \<le> 32768 \<Longrightarrow> pieces_of d = [d]"
  by (simp add: pieces_of_def split_every.simps [of _ d] window_consts)

lemmas example_eval = exec_eval on_ack_datagram length_zeros zeros_empty pieces_of_short

section \<open>A slot's window overdrawn\<close>

text \<open>
  Two sockets fill the shared window, and a third has two messages of 40000 bytes waiting
  for it: both have passed the test of their own slot's window.
\<close>

definition overdraw_run :: "act list" where
  "overdraw_run =
     [ActSpawnWs 1, ActWsStart 1, ActSend 1 WebsocketAccept,
      ActSpawnWs 2, ActWsStart 4, ActSend 4 WebsocketAccept,
      ActSpawnWs 3, ActWsStart 7, ActSend 7 WebsocketAccept,
      ActSend 1 (WebsocketSend (Some (zeros 70000)) None),
      ActSend 4 (WebsocketSend (Some (zeros 70000)) None),
      ActSend 7 (WebsocketSend (Some (zeros 40000)) None),
      ActSend 7 (WebsocketSend (Some (zeros 40000)) None),
      ActAck (Some (ack_datagram 1 65536)), ActAck (Some (ack_datagram 2 65536)),
      ActResume 10, ActResume 11]"

text \<open>
  The window of one slot is not a bound once two calls send on it at the same time:
  this run puts 80008 bytes in flight on a slot whose window is 65536, and leaves its
  credit at -14472, because the slot's window is not tested again after the wait for the
  shared one.
\<close>

lemma slot_window_can_be_overdrawn:
  "lts_run xstep quiet_server overdraw_run (after overdraw_run) \<and>
   credits (after overdraw_run) 3 = Some (-14472) \<and> inflight (after overdraw_run) 3 = Some 80008"
proof -
  have "runs overdraw_run \<and> credits (after overdraw_run) 3 = Some (-14472) \<and>
      inflight (after overdraw_run) 3 = Some 80008"
    by (simp add: overdraw_run_def example_eval)
  then show ?thesis using runs_after by blast
qed

section \<open>A message after the close frame\<close>

definition late_message_run :: "act list" where
  "late_message_run =
     [ActSpawnWs 3, ActWsStart 1, ActSend 1 WebsocketAccept,
      ActSend 1 (WebsocketSend (Some (zeros 60000)) None),
      ActSend 1 (WebsocketSend (Some (zeros 20000)) None),
      ActSend 1 (WebsocketClose None),
      ActAck (Some (ack_datagram 3 60004)), ActResume 4]"

text \<open>
  A message that waits for credit when the application closes its socket is handed to
  the port after the close frame: the close needs four bytes of the window, which are
  there, and the waiting call asks only whether the client has gone.
\<close>

lemma message_after_close:
  "lts_run xstep quiet_server late_message_run (after late_message_run) \<and>
   dispatched (after late_message_run) =
     [EvWsAccept 3, EvWsSend 3 2 (zeros 60000), EvWsClose 3 1000, EvWsSend 3 2 (zeros 20000)]"
proof -
  have "runs late_message_run \<and> dispatched (after late_message_run) =
     [EvWsAccept 3, EvWsSend 3 2 (zeros 60000), EvWsClose 3 1000, EvWsSend 3 2 (zeros 20000)]"
    by (simp add: late_message_run_def example_eval)
  then show ?thesis using runs_after by blast
qed

section \<open>A chunk after the end of its stream\<close>

definition late_chunk_run :: "act list" where
  "late_chunk_run =
     [ActSpawn 3 False [], ActSend 1 (HttpResponseStart (Some 200) None),
      ActSend 1 (HttpResponseBody (Some (zeros 32768)) (Some True)),
      ActSend 1 (HttpResponseBody (Some (zeros 32768)) (Some True)),
      ActSend 1 (HttpResponseBody (Some (zeros 9)) (Some True)),
      ActSend 1 (HttpResponseBody None None),
      ActAck (Some (ack_datagram 3 65536)), ActResume 3]"

text \<open>
  A chunk that waits for credit when another call ends the stream is handed to the
  port after \<open>stream_end\<close>, for a slot the loop may by then have given to the next request.
\<close>

lemma chunk_after_stream_end:
  "lts_run xstep quiet_server late_chunk_run (after late_chunk_run) \<and>
   dispatched (after late_chunk_run) =
     [EvStreamStart 3 200 (Some []) [], EvStreamChunk 3 (zeros 32768), EvStreamChunk 3 (zeros 32768),
      EvStreamEnd 3, EvStreamChunk 3 (zeros 9)]"
proof -
  have "runs late_chunk_run \<and> dispatched (after late_chunk_run) =
     [EvStreamStart 3 200 (Some []) [], EvStreamChunk 3 (zeros 32768), EvStreamChunk 3 (zeros 32768),
      EvStreamEnd 3, EvStreamChunk 3 (zeros 9)]"
    by (simp add: late_chunk_run_def example_eval)
  then show ?thesis using runs_after by blast
qed

end
