(* ===== verification/Wsgi.thy ===== *)
theory Wsgi
  imports Exec_State
begin

text \<open>
  The WSGI bridge (\<open>_run_wsgi\<close>, \<open>_lazily_produced\<close>, \<open>wsgi_stream_next\<close> and
  \<open>wsgi_stream_close\<close> of m0_shim.py). The application is unknown, so it is described by
  what it does when it is called and each time its iterable is asked for the next item: a
  list of effects (calls of \<open>write\<close> and \<open>start_response\<close>) and how it ends. A body may be
  endless, so the loops over it are partial.
\<close>

section \<open>The application's side\<close>

text \<open>A header's name that is not a \<open>str\<close> has no \<open>lower\<close>; a status may be anything.\<close>

datatype wname = NameStr string | NameOther

type_synonym wheader = "wname \<times> string"

datatype wstatus = StatusStr string | StatusOther

datatype weffect =
    Write bytes
  | StartResponse wstatus "wheader list" "exn option"

datatype witem_end = Yield bytes | StopIteration | RaiseItem exn

type_synonym witem = "weffect list \<times> witem_end"

text \<open>
  What the application returns: whether it is one of the sized built-in types, its
  \<open>streaming\<close> attribute if it has one, what its iterator does at each \<open>next\<close>, and its
  \<open>close\<close> (absent, returning, or raising). Its identity is a number.
\<close>

datatype wclose = NoClose | CloseReturns | CloseRaises exn

record wresult =
  w_id :: nat
  w_builtin :: bool
  w_streaming :: "bool option"
  w_items :: "nat \<Rightarrow> witem"
  w_close :: wclose

section \<open>The request's state\<close>

record wreq =
  captured :: "(wstatus \<times> wheader list) option"
  written :: "bytes list"
  sent :: bool

record wstream =
  st_result :: wresult
  st_pos :: nat
  st_first :: bytes
  st_req :: wreq

text \<open>The module globals of the bridge; \<open>close_log\<close> records every call of a result's close.\<close>

record wbridge =
  stream_capable :: bool
  stream_now :: "wstream option"
  body_kept :: bytes
  close_log :: "nat list"

definition set_stream_capable :: "bool \<Rightarrow> wbridge \<Rightarrow> wbridge" where
  "set_stream_capable b ns = ns\<lparr>stream_capable := b\<rparr>"

text \<open>\<open>start_response\<close>: what it raises, or the request's state after it.\<close>

definition assertion_error :: exn where
  "assertion_error = \<lparr>ex_kind = OtherError, ex_name = ''AssertionError'',
     ex_text = ''start_response() called twice without exc_info''\<rparr>"

definition start_response :: "wstatus \<Rightarrow> wheader list \<Rightarrow> exn option \<Rightarrow> wreq \<Rightarrow> exn + wreq" where
  "start_response status headers exc_info q =
     (case exc_info of
        Some e \<Rightarrow> if sent q then Inl e else Inr (q\<lparr>captured := Some (status, headers)\<rparr>)
      | None \<Rightarrow> if captured q \<noteq> None then Inl assertion_error
                else Inr (q\<lparr>captured := Some (status, headers)\<rparr>))"

text \<open>
  One effect of the application. What it makes of an exception \<open>start_response\<close> raises is
  its own affair and part of how its item ends.
\<close>

fun do_effect :: "weffect \<Rightarrow> wreq \<Rightarrow> wreq" where
  "do_effect (Write b) q = q\<lparr>written := written q @ [b]\<rparr>"
| "do_effect (StartResponse s hs e) q = (case start_response s hs e q of Inl _ \<Rightarrow> q | Inr q' \<Rightarrow> q')"

definition do_effects :: "weffect list \<Rightarrow> wreq \<Rightarrow> wreq" where
  "do_effects = fold do_effect"

section \<open>What streams\<close>

definition attribute_error :: exn where
  "attribute_error = \<lparr>ex_kind = OtherError, ex_name = ''AttributeError'', ex_text = ''lower''\<rparr>"

text \<open>The loop over the headers: \<open>Inr False\<close> at the first that forbids streaming.\<close>

fun headers_stream :: "wheader list \<Rightarrow> exn + bool" where
  "headers_stream [] = Inr True"
| "headers_stream ((NameOther, v) # hs) = Inl attribute_error"
| "headers_stream ((NameStr n, v) # hs) =
     (if map lower_char n = ''content-length'' \<or> map lower_char n = ''m0-hold'' then Inr False
      else headers_stream hs)"

definition lazily_produced :: "bool \<Rightarrow> wresult \<Rightarrow> wstatus \<Rightarrow> wheader list \<Rightarrow> exn + bool" where
  "lazily_produced capable r status headers =
     (if \<not> capable \<or> w_builtin r \<or> w_streaming r = Some False then Inr False
      else (case status of
          StatusOther \<Rightarrow> Inr False
        | StatusStr s \<Rightarrow>
            (case py_int (take 3 s) of
               None \<Rightarrow> Inr False
             | Some code \<Rightarrow>
                 if code < 200 \<or> code = 204 \<or> code = 304 then Inr False
                 else headers_stream headers)))"

section \<open>Pulling the body\<close>

text \<open>How a pull to the next non-empty chunk ends.\<close>

datatype pulled = PullChunk bytes | PullEnd | PullRaise exn

text \<open>
  \<open>while True: chunk = next(it); if chunk: break\<close>. A body may yield empty chunks for
  ever: then the loop does not return.
\<close>

partial_function (option) pull :: "(nat \<Rightarrow> witem) \<Rightarrow> nat \<Rightarrow> wreq \<Rightarrow> (pulled \<times> nat \<times> wreq) option" where
  "pull items i q =
     (let q1 = do_effects (fst (items i)) q
      in case snd (items i) of
           StopIteration \<Rightarrow> Some (PullEnd, Suc i, q1)
         | RaiseItem e \<Rightarrow> Some (PullRaise e, Suc i, q1)
         | Yield b \<Rightarrow> if b \<noteq> [] then Some (PullChunk b, Suc i, q1) else pull items (Suc i) q1)"

text \<open>\<open>b''.join(result)\<close>: every item to the end.\<close>

partial_function (option) drain_body ::
    "(nat \<Rightarrow> witem) \<Rightarrow> nat \<Rightarrow> wreq \<Rightarrow> bytes \<Rightarrow> ((exn + bytes) \<times> wreq) option" where
  "drain_body items i q acc =
     (let q1 = do_effects (fst (items i)) q
      in case snd (items i) of
           StopIteration \<Rightarrow> Some (Inr acc, q1)
         | RaiseItem e \<Rightarrow> Some (Inl e, q1)
         | Yield b \<Rightarrow> drain_body items (Suc i) q1 (acc @ b))"

section \<open>Close\<close>

text \<open>
  \<open>close = getattr(result, 'close', None); if close is not None: close()\<close>, in a
  \<open>finally\<close>: what it raises replaces what was under way.
\<close>

definition close_result :: "wresult \<Rightarrow> wbridge \<Rightarrow> wbridge" where
  "close_result r ns = (case w_close r of NoClose \<Rightarrow> ns | _ \<Rightarrow> ns\<lparr>close_log := close_log ns @ [w_id r]\<rparr>)"

definition after_close :: "wresult \<Rightarrow> exn + 'a \<Rightarrow> exn + 'a" where
  "after_close r res = (case w_close r of CloseRaises e \<Rightarrow> Inl e | _ \<Rightarrow> res)"

section \<open>run\<close>

record wresponse =
  resp_status :: wstatus
  resp_headers :: "wheader list"
  resp_body :: bytes
  resp_streamed :: bool

record wcall =
  call_effects :: "weffect list"
  call_result :: "exn + wresult"

definition new_req :: wreq where
  "new_req = \<lparr>captured = None, written = [], sent = False\<rparr>"

definition head_of :: "wreq \<Rightarrow> wstatus \<times> wheader list" where
  "head_of q = (case captured q of None \<Rightarrow> (StatusStr ''500 Internal Server Error'', []) | Some p \<Rightarrow> p)"

definition respond :: "wreq \<Rightarrow> bytes \<Rightarrow> bool \<Rightarrow> wresponse" where
  "respond q b streamed =
     \<lparr>resp_status = fst (head_of q), resp_headers = snd (head_of q), resp_body = b,
      resp_streamed = streamed\<rparr>"

text \<open>A HEAD to what a GET would stream: pulled to its first item, then closed.\<close>

definition run_head_probe :: "wresult \<Rightarrow> wreq \<Rightarrow> wbridge \<Rightarrow> ((exn + wresponse) \<times> wbridge) option" where
  "run_head_probe r q ns =
     (case pull (w_items r) 0 q of
        None \<Rightarrow> None
      | Some (PullRaise e, i, q1) \<Rightarrow> Some (after_close r (Inl e), close_result r ns)
      | Some (p, i, q1) \<Rightarrow>
          let b = (case p of PullChunk _ \<Rightarrow> [] | _ \<Rightarrow> concat (written q1))
          in Some (after_close r (Inr (respond q1 b False)),
               (case w_close r of CloseRaises _ \<Rightarrow> close_result r ns
                | _ \<Rightarrow> (close_result r ns)\<lparr>body_kept := b\<rparr>)))"

text \<open>A stream: the first non-empty chunk is pulled before the head goes out.\<close>

definition run_stream :: "wresult \<Rightarrow> wreq \<Rightarrow> wbridge \<Rightarrow> ((exn + wresponse) \<times> wbridge) option" where
  "run_stream r q ns =
     (case pull (w_items r) 0 q of
        None \<Rightarrow> None
      | Some (PullRaise e, i, q1) \<Rightarrow> Some (after_close r (Inl e), close_result r ns)
      | Some (PullChunk first, i, q1) \<Rightarrow>
          Some (Inr (respond q1 [] True),
            ns\<lparr>stream_now := Some \<lparr>st_result = r, st_pos = i, st_first = concat (written q1) @ first,
                 st_req = q1\<lparr>written := [], sent := True\<rparr>\<rparr>\<rparr>)
      | Some (PullEnd, i, q1) \<Rightarrow>
          let b = concat (written q1)
          in Some (after_close r (Inr (respond q1 b False)),
               (close_result r ns)\<lparr>body_kept := b\<rparr>))"

definition run_buffered :: "wresult \<Rightarrow> wreq \<Rightarrow> wbridge \<Rightarrow> ((exn + wresponse) \<times> wbridge) option" where
  "run_buffered r q ns =
     (case drain_body (w_items r) 0 q [] of
        None \<Rightarrow> None
      | Some (Inl e, q1) \<Rightarrow> Some (after_close r (Inl e), close_result r ns)
      | Some (Inr chunks, q1) \<Rightarrow>
          let b = concat (written q1) @ chunks
          in Some (after_close r (Inr (respond q1 b False)),
               (close_result r ns)\<lparr>body_kept := b\<rparr>))"

definition run_wsgi :: "bool \<Rightarrow> wcall \<Rightarrow> wbridge \<Rightarrow> ((exn + wresponse) \<times> wbridge) option" where
  "run_wsgi is_head call ns =
     (let q = do_effects (call_effects call) new_req
      in case call_result call of
           Inl e \<Rightarrow> Some (Inl e, ns)
         | Inr r \<Rightarrow>
             (case captured q of
                None \<Rightarrow> run_buffered r q ns
              | Some (status, headers) \<Rightarrow>
                  (case lazily_produced (stream_capable ns) r status headers of
                     Inl e \<Rightarrow> Some (after_close r (Inl e), close_result r ns)
                   | Inr lazy \<Rightarrow>
                       if lazy \<and> is_head then run_head_probe r q ns
                       else if lazy then run_stream r q ns
                       else run_buffered r q ns)))"

section \<open>The stream after its head\<close>

text \<open>\<open>wsgi_stream_next\<close>: the next chunk, empty at the end; or what the iterable raised.\<close>

definition wsgi_stream_next :: "wbridge \<Rightarrow> ((exn + bytes) \<times> wbridge) option" where
  "wsgi_stream_next ns =
     (case stream_now ns of
        None \<Rightarrow> Some (Inr [], ns)
      | Some s \<Rightarrow>
          if st_first s \<noteq> []
          then Some (Inr (st_first s), ns\<lparr>stream_now := Some (s\<lparr>st_first := []\<rparr>)\<rparr>)
          else (case pull (w_items (st_result s)) (st_pos s) (st_req s) of
              None \<Rightarrow> None
            | Some (PullRaise e, i, q) \<Rightarrow>
                Some (Inl e, ns\<lparr>stream_now := Some (s\<lparr>st_pos := i, st_req := q\<rparr>)\<rparr>)
            | Some (p, i, q) \<Rightarrow>
                Some (Inr (concat (written q) @ (case p of PullChunk b \<Rightarrow> b | _ \<Rightarrow> [])),
                  ns\<lparr>stream_now := Some (s\<lparr>st_pos := i, st_req := q\<lparr>written := []\<rparr>\<rparr>)\<rparr>)))"

definition wsgi_stream_close :: "wbridge \<Rightarrow> (exn + unit) \<times> wbridge" where
  "wsgi_stream_close ns =
     (case stream_now ns of
        None \<Rightarrow> (Inr (), ns)
      | Some s \<Rightarrow> (after_close (st_result s) (Inr ()), close_result (st_result s) (ns\<lparr>stream_now := None\<rparr>)))"

end
