(* ===== verification/Wsgi_Props.thy ===== *)
theory Wsgi_Props
  imports Wsgi
begin

text \<open>
  What a WSGI response promises: the bytes in the order the application produced them,
  its iterable closed exactly once on every path, a HEAD that never waits for a body, and
  streaming only where the head allows it.
\<close>

section \<open>The bytes an application produces\<close>

fun effect_bytes :: "weffect \<Rightarrow> bytes" where
  "effect_bytes (Write b) = b"
| "effect_bytes (StartResponse s hs e) = []"

definition effects_bytes :: "weffect list \<Rightarrow> bytes" where
  "effects_bytes es = concat (map effect_bytes es)"

definition item_bytes :: "witem \<Rightarrow> bytes" where
  "item_bytes it = effects_bytes (fst it) @ (case snd it of Yield b \<Rightarrow> b | _ \<Rightarrow> [])"

text \<open>What the items from \<open>i\<close> up to \<open>j\<close> produce, in order.\<close>

definition produced :: "(nat \<Rightarrow> witem) \<Rightarrow> nat \<Rightarrow> nat \<Rightarrow> bytes" where
  "produced items i j = concat (map (\<lambda>m. item_bytes (items m)) [i..<j])"

lemma produced_empty [simp]: "produced items i i = []"
  by (simp add: produced_def)

lemma produced_step: "i < j \<Longrightarrow> produced items i j = item_bytes (items i) @ produced items (Suc i) j"
  by (simp add: produced_def upt_conv_Cons)

lemma produced_join: "i \<le> j \<Longrightarrow> j \<le> k \<Longrightarrow> produced items i k = produced items i j @ produced items j k"
  by (simp add: produced_def flip: map_append concat_append)
     (metis le_Suc_ex upt_add_eq_append)

lemma effects_bytes_Cons: "effects_bytes (e # es) = effect_bytes e @ effects_bytes es"
  by (simp add: effects_bytes_def)

lemma written_do_effects:
  "concat (written (do_effects es q)) = concat (written q) @ effects_bytes es"
proof (induction es arbitrary: q)
  case (Cons e es)
  have "concat (written (do_effect e q)) = concat (written q) @ effect_bytes e"
    by (cases e) (auto simp: start_response_def split: option.split sum.split)
  then show ?case using Cons.IH [of "do_effect e q"] by (simp add: do_effects_def effects_bytes_Cons)
qed (simp add: do_effects_def effects_bytes_def)

text \<open>A body that ends: items \<open>0 .. k - 1\<close> yield, item \<open>k\<close> stops, and it stays stopped.\<close>

definition ends_at :: "nat \<Rightarrow> (nat \<Rightarrow> witem) \<Rightarrow> bool" where
  "ends_at k items \<longleftrightarrow>
     (\<forall>m<k. \<exists>b. snd (items m) = Yield b) \<and> snd (items k) = StopIteration \<and>
     (\<forall>m>k. items m = ([], StopIteration))"

lemma ends_at_after: "ends_at k items \<Longrightarrow> items (Suc k) = ([], StopIteration)"
  unfolding ends_at_def by (elim conjE allE [of _ "Suc k"]) simp

section \<open>Pulling\<close>

lemma pull_ends:
  assumes "ends_at k items" and "i \<le> k"
  shows "\<exists>p j q'. pull items i q = Some (p, j, q') \<and> i < j \<and> j \<le> Suc k \<and>
    (case p of PullChunk b \<Rightarrow> b \<noteq> [] \<and> j \<le> k \<and>
         concat (written q') @ b = concat (written q) @ produced items i j
     | PullEnd \<Rightarrow> j = Suc k \<and> concat (written q') = concat (written q) @ produced items i j
     | PullRaise e \<Rightarrow> False)"
  using assms(2)
proof (induction "k - i" arbitrary: i q)
  case 0
  then have "i = k" by simp
  then show ?case
    using assms(1)
    by (subst pull.simps)
       (simp add: ends_at_def Let_def produced_step item_bytes_def written_do_effects)
next
  case (Suc n)
  then have ik: "i < k" by simp
  let ?q = "do_effects (fst (items i)) q"
  obtain b where b: "snd (items i) = Yield b" using assms(1) ik by (auto simp: ends_at_def)
  show ?case
  proof (cases "b = []")
    case False
    then show ?thesis
      using b ik
      by (subst pull.simps)
         (simp add: Let_def produced_step item_bytes_def written_do_effects)
  next
    case True
    have eq: "pull items i q = pull items (Suc i) ?q"
      using b True by (subst pull.simps) (simp add: Let_def)
    have n: "n = k - Suc i" "Suc i \<le> k" using Suc.hyps(2) ik by simp_all
    from Suc.hyps(1) [OF n, of ?q] obtain p j q' where
      r: "pull items (Suc i) ?q = Some (p, j, q')" "Suc i < j" "j \<le> Suc k"
        "case p of PullChunk b \<Rightarrow> b \<noteq> [] \<and> j \<le> k \<and>
         concat (written q') @ b = concat (written ?q) @ produced items (Suc i) j
     | PullEnd \<Rightarrow> j = Suc k \<and> concat (written q') = concat (written ?q) @ produced items (Suc i) j
     | PullRaise e \<Rightarrow> False"
      by (elim exE conjE) (rule that)
    have w: "concat (written ?q) @ produced items (Suc i) j = concat (written q) @ produced items i j"
      using b True r(2) by (simp add: produced_step [of i j] item_bytes_def written_do_effects)
    show ?thesis
      using r(2-4) unfolding eq r(1) w by auto
  qed
qed

lemma pull_stopped: "items i = ([], StopIteration) \<Longrightarrow> pull items i q = Some (PullEnd, Suc i, q)"
  by (subst pull.simps) (simp add: do_effects_def)

section \<open>Pumping a stream\<close>

text \<open>What the pool thread does with a stream: \<open>wsgi_stream_next\<close> until it answers \<open>b''\<close>.\<close>

fun pump :: "nat \<Rightarrow> wbridge \<Rightarrow> (bytes list \<times> wbridge) option" where
  "pump 0 ns = None"
| "pump (Suc n) ns =
     (case wsgi_stream_next ns of
        Some (Inr [], ns') \<Rightarrow> Some ([], ns')
      | Some (Inr c, ns') \<Rightarrow>
          (case pump n ns' of None \<Rightarrow> None | Some (cs, ns'') \<Rightarrow> Some (c # cs, ns''))
      | _ \<Rightarrow> None)"

lemma next_after_first:
  assumes "stream_now ns = Some s" and "st_first s = []"
    and e: "ends_at k (w_items (st_result s))" and p: "st_pos s \<le> k"
  shows "\<exists>c j q. wsgi_stream_next ns = Some (Inr c, ns\<lparr>stream_now := Some (s\<lparr>st_pos := j, st_req := q\<rparr>)\<rparr>) \<and>
    st_pos s < j \<and> j \<le> Suc k \<and> written q = [] \<and>
    c = concat (written (st_req s)) @ produced (w_items (st_result s)) (st_pos s) j \<and>
    (j \<le> k \<longrightarrow> c \<noteq> [])"
proof -
  obtain p' j q' where "pull (w_items (st_result s)) (st_pos s) (st_req s) = Some (p', j, q')"
    "st_pos s < j" "j \<le> Suc k"
    "case p' of PullChunk b \<Rightarrow> b \<noteq> [] \<and> j \<le> k \<and> concat (written q') @ b =
         concat (written (st_req s)) @ produced (w_items (st_result s)) (st_pos s) j
     | PullEnd \<Rightarrow> j = Suc k \<and> concat (written q') =
         concat (written (st_req s)) @ produced (w_items (st_result s)) (st_pos s) j
     | PullRaise e \<Rightarrow> False"
    using pull_ends [OF e p, of "st_req s"] by blast
  then show ?thesis
    using assms(1,2)
    by (cases p'; intro exI [of _ "concat (written q') @ (case p' of PullChunk b \<Rightarrow> b | _ \<Rightarrow> [])"]
        exI [of _ j] exI [of _ "q'\<lparr>written := []\<rparr>"])
       (auto simp: wsgi_stream_next_def simp del: concat_eq_Nil_conv)
qed

lemma pump_stream:
  assumes "stream_now ns = Some s" and "st_first s = []" and "written (st_req s) = []"
    and e: "ends_at k (w_items (st_result s))" and p: "st_pos s \<le> Suc k"
  shows "\<exists>n cs ns'. pump n ns = Some (cs, ns') \<and> [] \<notin> set cs \<and>
    concat cs = produced (w_items (st_result s)) (st_pos s) (Suc k) \<and>
    (\<exists>s'. stream_now ns' = Some s' \<and> st_result s' = st_result s) \<and> close_log ns' = close_log ns"
  using assms
proof (induction "Suc k - st_pos s" arbitrary: ns s rule: less_induct)
  case less
  let ?it = "w_items (st_result s)"
  show ?case
  proof (cases "st_pos s \<le> k")
    case False
    then have pos: "st_pos s = Suc k" using less.prems(5) by simp
    have "pull ?it (Suc k) (st_req s) = Some (PullEnd, Suc (Suc k), st_req s)"
      by (rule pull_stopped) (rule ends_at_after [OF less.prems(4)])
    then have "pump 1 ns = Some ([], ns\<lparr>stream_now := Some (s\<lparr>st_pos := Suc (Suc k),
        st_req := (st_req s)\<lparr>written := []\<rparr>\<rparr>)\<rparr>)"
      using less.prems(1-3) pos by (simp add: wsgi_stream_next_def)
    then show ?thesis using pos by (intro exI [of _ 1] exI [of _ "[]"]) auto
  next
    case True
    from next_after_first [OF less.prems(1,2,4) True] obtain c j q where
      n: "wsgi_stream_next ns = Some (Inr c, ns\<lparr>stream_now := Some (s\<lparr>st_pos := j, st_req := q\<rparr>)\<rparr>)"
      and j: "st_pos s < j" "j \<le> Suc k" "written q = []"
      and c: "c = produced ?it (st_pos s) j" "j \<le> k \<longrightarrow> c \<noteq> []"
      using less.prems(3) by auto
    let ?s = "s\<lparr>st_pos := j, st_req := q\<rparr>"
    let ?ns = "ns\<lparr>stream_now := Some ?s\<rparr>"
    show ?thesis
    proof (cases "c = []")
      case True
      then have "j = Suc k" using c(2) j(2) by (meson le_SucE)
      then show ?thesis
        using n True c(1) by (intro exI [of _ 1] exI [of _ "[]"]) auto
    next
      case False
      have "Suc k - st_pos ?s < Suc k - st_pos s" using j by auto
      from less.hyps [OF this, of ?ns] less.prems(2,4) j obtain m cs ns' where
        m: "pump m ?ns = Some (cs, ns')" "[] \<notin> set cs" "concat cs = produced ?it j (Suc k)"
          "\<exists>s'. stream_now ns' = Some s' \<and> st_result s' = st_result s" "close_log ns' = close_log ns"
        by auto
      have "pump (Suc m) ns = Some (c # cs, ns')" using n m(1) False by (cases c) auto
      moreover have "concat (c # cs) = produced ?it (st_pos s) (Suc k)"
        using c(1) m(3) j produced_join [of "st_pos s" j "Suc k" ?it] by simp
      ultimately show ?thesis using m(2,4,5) False by (intro exI [of _ "Suc m"] exI [of _ "c # cs"]) auto
    qed
  qed
qed

section \<open>The properties\<close>

text \<open>
  C12. A streamed WSGI body arrives in the order it was produced. When \<open>run\<close> answers with a
  stream and the iterable ends, pumping it returns, and the chunks handed out are exactly
  what the application wrote and yielded, interleaved as it did, with no empty chunk among
  them to be taken for the end.
\<close>

theorem streamed_in_order:
  assumes call: "call_result call = Inr r" and e: "ends_at k (w_items r)"
    and run: "run_wsgi is_head call ns = Some (Inr resp, ns1)" and "resp_streamed resp"
  shows "\<exists>n cs ns2. pump n ns1 = Some (cs, ns2) \<and> [] \<notin> set cs \<and>
    concat cs = effects_bytes (call_effects call) @ produced (w_items r) 0 (Suc k)"
proof -
  let ?q = "do_effects (call_effects call) new_req"
  have strm: "run_stream r ?q ns = Some (Inr resp, ns1)"
    using run call assms(4)
    by (auto simp: run_wsgi_def Let_def run_buffered_def run_head_probe_def after_close_def respond_def
        split: option.splits sum.splits if_splits prod.splits wclose.splits pulled.splits)
  obtain p j q' where p: "pull (w_items r) 0 ?q = Some (p, j, q')" "j \<le> Suc k"
    and pc: "case p of PullChunk b \<Rightarrow> b \<noteq> [] \<and> j \<le> k \<and>
         concat (written q') @ b = concat (written ?q) @ produced (w_items r) 0 j
     | PullEnd \<Rightarrow> j = Suc k \<and> concat (written q') = concat (written ?q) @ produced (w_items r) 0 j
     | PullRaise e \<Rightarrow> False"
    using pull_ends [OF e, of 0 ?q] by blast
  have w: "concat (written ?q) = effects_bytes (call_effects call)"
    by (simp add: written_do_effects new_req_def)
  obtain b where b: "p = PullChunk b"
    using strm p pc assms(4)
    by (cases p) (auto simp: run_stream_def Let_def after_close_def respond_def split: wclose.splits)
  define s where "s = \<lparr>st_result = r, st_pos = j, st_first = concat (written q') @ b,
      st_req = q'\<lparr>written := [], sent := True\<rparr>\<rparr>"
  have ns1: "ns1 = ns\<lparr>stream_now := Some s\<rparr>" and first: "st_first s \<noteq> []"
    using strm p pc b by (auto simp: run_stream_def s_def simp del: concat_eq_Nil_conv)
  have "wsgi_stream_next ns1 = Some (Inr (st_first s), ns\<lparr>stream_now := Some (s\<lparr>st_first := []\<rparr>)\<rparr>)"
    using ns1 first by (simp add: wsgi_stream_next_def)
  moreover obtain n cs ns2 where "pump n (ns\<lparr>stream_now := Some (s\<lparr>st_first := []\<rparr>)\<rparr>) = Some (cs, ns2)"
    "[] \<notin> set cs" "concat cs = produced (w_items r) j (Suc k)"
    using pump_stream [of "ns\<lparr>stream_now := Some (s\<lparr>st_first := []\<rparr>)\<rparr>" "s\<lparr>st_first := []\<rparr>" k] e pc b p(2)
    by (auto simp: s_def)
  ultimately have "pump (Suc n) ns1 = Some (st_first s # cs, ns2)" "[] \<notin> set (st_first s # cs)"
    "concat (st_first s # cs) = effects_bytes (call_effects call) @ produced (w_items r) 0 (Suc k)"
    using first pc b w p(2) produced_join [of 0 j "Suc k" "w_items r"]
    by (auto simp: s_def split: list.split)
  then show ?thesis by blast
qed

text \<open>An example: one item with a write before its chunk, then another, then the end.\<close>

definition two_items :: wresult where
  "two_items = \<lparr>w_id = 1, w_builtin = False, w_streaming = None,
     w_items = (\<lambda>i. if i = 0 then ([Write [1]], Yield [2]) else if i = 1 then ([], Yield [3])
                    else ([], StopIteration)),
     w_close = CloseReturns\<rparr>"

definition two_items_call :: wcall where
  "two_items_call = \<lparr>call_effects = [StartResponse (StatusStr ''200 OK'') [] None, Write [0]],
     call_result = Inr two_items\<rparr>"

definition pool_bridge :: wbridge where
  "pool_bridge = \<lparr>stream_capable = True, stream_now = None, body_kept = [], close_log = []\<rparr>"

lemmas wsgi_eval = two_items_def two_items_call_def pool_bridge_def run_wsgi_def new_req_def
  do_effects_def start_response_def lazily_produced_def py_int_def digit_val_def py_strip_def py_space_def
  run_stream_def run_head_probe_def respond_def head_of_def after_close_def close_result_def Let_def
  pull.simps

lemma two_items_end: "ends_at 2 (w_items two_items)"
  by (auto simp: ends_at_def two_items_def less_2_cases_iff)

theorem streamed_in_order_witness:
  "\<exists>n cs ns2. pump n (snd (the (run_wsgi False two_items_call pool_bridge))) = Some (cs, ns2) \<and>
     [] \<notin> set cs \<and> concat cs = [0, 1, 2, 3]"
proof -
  obtain resp ns1 where r: "run_wsgi False two_items_call pool_bridge = Some (Inr resp, ns1)" "resp_streamed resp"
    by (simp add: wsgi_eval)
  have "call_result two_items_call = Inr two_items" by (simp add: two_items_call_def)
  from streamed_in_order [OF this two_items_end r] show ?thesis
    unfolding r(1)
    by (simp add: two_items_call_def effects_bytes_def produced_def item_bytes_def two_items_def upt_rec)
qed

section \<open>Closing\<close>

definition logged :: "wresult \<Rightarrow> nat list" where
  "logged r = (case w_close r of NoClose \<Rightarrow> [] | _ \<Rightarrow> [w_id r])"

lemma close_result_log: "close_log (close_result r ns) = close_log ns @ logged r"
  "stream_now (close_result r ns) = stream_now ns"
  by (auto simp: close_result_def logged_def split: wclose.split)

text \<open>Where a call leaves its result: closed, or kept as the bridge's stream.\<close>

definition charge_of :: "wresult \<Rightarrow> wbridge \<Rightarrow> wbridge \<Rightarrow> bool" where
  "charge_of r ns ns1 \<longleftrightarrow>
     (close_log ns1 = close_log ns @ logged r \<and> stream_now ns1 = stream_now ns) \<or>
     (close_log ns1 = close_log ns \<and> (\<exists>s. stream_now ns1 = Some s \<and> st_result s = r))"

lemma charge_of_closed [simp]: "charge_of r ns (close_result r ns)"
  "charge_of r ns ((close_result r ns)\<lparr>body_kept := b\<rparr>)"
  by (simp_all add: charge_of_def close_result_log)

lemma run_charge:
  assumes "call_result call = Inr r" and "run_wsgi is_head call ns = Some (res, ns1)"
  shows "charge_of r ns ns1"
  using assms
  by (auto simp: run_wsgi_def Let_def run_buffered_def run_head_probe_def run_stream_def
      split: option.splits sum.splits if_splits prod.splits pulled.splits wclose.splits)
     (simp_all add: charge_of_def)

text \<open>The bridge after \<open>n\<close> further pulls of its stream, as long as they return.\<close>

fun pulls :: "nat \<Rightarrow> wbridge \<Rightarrow> wbridge option" where
  "pulls 0 ns = Some ns"
| "pulls (Suc n) ns = (case wsgi_stream_next ns of None \<Rightarrow> None | Some (x, ns1) \<Rightarrow> pulls n ns1)"

lemma next_keeps:
  assumes "wsgi_stream_next ns = Some (x, ns1)"
  shows "close_log ns1 = close_log ns \<and>
    map_option st_result (stream_now ns1) = map_option st_result (stream_now ns)"
  using assms by (auto simp: wsgi_stream_next_def split: option.splits if_splits prod.splits pulled.splits)

lemma pulls_keep:
  "pulls n ns = Some ns2 \<Longrightarrow> close_log ns2 = close_log ns \<and>
     map_option st_result (stream_now ns2) = map_option st_result (stream_now ns)"
proof (induction n arbitrary: ns)
  case (Suc n)
  then show ?case by (auto split: option.splits dest!: next_keeps)
qed simp



section \<open>HEAD\<close>

lemma pull_first:
  assumes "\<forall>m<j. snd (items m) = Yield []" and "\<forall>b. snd (items j) \<noteq> Yield []" and "i \<le> j"
  shows "\<exists>q'. pull items i q = Some
    (case snd (items j) of Yield b \<Rightarrow> PullChunk b | StopIteration \<Rightarrow> PullEnd | RaiseItem e \<Rightarrow> PullRaise e,
     Suc j, q')"
  using assms(3)
proof (induction "j - i" arbitrary: i q)
  case 0
  then have "i = j" by simp
  then show ?case using assms(2) by (subst pull.simps) (auto simp: Let_def split: witem_end.split)
next
  case (Suc n)
  then have ij: "i < j" "n = j - Suc i" "Suc i \<le> j" by simp_all
  have "pull items i q = pull items (Suc i) (do_effects (fst (items i)) q)"
    using assms(1) ij(1) by (subst pull.simps) (simp add: Let_def)
  then show ?case using Suc.hyps(1) [OF ij(2,3)] by simp
qed

text \<open>
  A HEAD to what a GET would stream does not wait for the body. It returns as soon as one
  item of it is non-empty, with an empty body and the application's own head, and closes
  the iterable, even if what follows never ends.
\<close>

lemma head_does_not_wait:
  assumes "call_result call = Inr r" and "stream_capable ns"
    and "captured (do_effects (call_effects call) new_req) = Some (status, headers)"
    and "lazily_produced True r status headers = Inr True"
    and "\<forall>m<j. snd (w_items r m) = Yield []" and "snd (w_items r j) = Yield b" "b \<noteq> []"
    and "\<forall>e. w_close r \<noteq> CloseRaises e"
  shows "\<exists>resp ns1. run_wsgi True call ns = Some (Inr resp, ns1) \<and> resp_body resp = [] \<and>
    \<not> resp_streamed resp \<and> close_log ns1 = close_log ns @ logged r"
proof -
  obtain q' where "pull (w_items r) 0 (do_effects (call_effects call) new_req) =
      Some (PullChunk b, Suc j, q')"
    using pull_first [of j "w_items r" 0 "do_effects (call_effects call) new_req"] assms(5-7) by auto
  then show ?thesis
    using assms(1-4,8)
    by (cases "w_close r")
       (simp_all add: run_wsgi_def Let_def run_head_probe_def respond_def after_close_def
          close_result_log)
qed

text \<open>An endless body: the same chunk for ever.\<close>

definition endless :: wresult where
  "endless = \<lparr>w_id = 7, w_builtin = False, w_streaming = None,
     w_items = (\<lambda>i. ([], Yield [9])), w_close = CloseReturns\<rparr>"

definition endless_call :: wcall where
  "endless_call = \<lparr>call_effects = [StartResponse (StatusStr ''200 OK'') [] None], call_result = Inr endless\<rparr>"

lemma head_does_not_wait_witness:
  "\<exists>resp ns1. run_wsgi True endless_call pool_bridge = Some (Inr resp, ns1) \<and> resp_body resp = [] \<and>
     \<not> resp_streamed resp \<and> close_log ns1 = [7]"
proof -
  have c: "captured (do_effects (call_effects endless_call) new_req) = Some (StatusStr ''200 OK'', [])"
    "lazily_produced True endless (StatusStr ''200 OK'') [] = Inr True"
    "call_result endless_call = Inr endless" "stream_capable pool_bridge"
    by (simp_all add: wsgi_eval endless_def endless_call_def)
  have "logged endless = [7]" "close_log pool_bridge = []"
    by (simp_all add: logged_def endless_def pool_bridge_def)
  then show ?thesis
    using head_does_not_wait [OF c(3,4,1,2), of 0 "[9]"] by (simp add: endless_def)
qed

section \<open>What streams and what is joined\<close>

lemma headers_stream_no_length:
  "headers_stream hs = Inr True \<Longrightarrow> (NameStr n, v) \<in> set hs \<Longrightarrow> map lower_char n \<noteq> ''content-length''"
  by (induction hs rule: headers_stream.induct) (auto split: if_splits)

text \<open>
  Only a lazily produced body is ever streamed: on a bridge that can, not for a HEAD, not
  a bytes, list or tuple, with a status of at least 200 that may carry content, and with
  no Content-Length in the application's head, so a framework's measured page is never
  chunked.
\<close>

lemma streams_only_lazy:
  assumes "run_wsgi is_head call ns = Some (Inr resp, ns1)" and "resp_streamed resp"
  shows "\<not> is_head \<and> stream_capable ns \<and> (\<exists>r status headers s code.
    call_result call = Inr r \<and> \<not> w_builtin r \<and> w_streaming r \<noteq> Some False \<and>
    captured (do_effects (call_effects call) new_req) = Some (StatusStr s, headers) \<and>
    py_int (take 3 s) = Some code \<and> 200 \<le> code \<and> code \<notin> {204, 304} \<and>
    (\<forall>n v. (NameStr n, v) \<in> set headers \<longrightarrow> map lower_char n \<noteq> ''content-length''))"
proof -
  obtain r where r: "call_result call = Inr r"
    using assms(1) by (auto simp: run_wsgi_def Let_def split: sum.splits)
  obtain status headers where c: "captured (do_effects (call_effects call) new_req) = Some (status, headers)"
    and l: "lazily_produced (stream_capable ns) r status headers = Inr True" and "\<not> is_head"
    using assms r
    by (auto simp: run_wsgi_def Let_def run_buffered_def run_head_probe_def after_close_def respond_def
        split: option.splits sum.splits if_splits prod.splits wclose.splits pulled.splits)
  obtain s code where l2: "status = StatusStr s" "py_int (take 3 s) = Some code" "200 \<le> code"
    "code \<noteq> 204" "code \<noteq> 304" "headers_stream headers = Inr True"
    "stream_capable ns" "\<not> w_builtin r" "w_streaming r \<noteq> Some False"
    using l by (auto simp: lazily_produced_def split: if_splits wstatus.splits option.splits)
  have "code \<notin> {204, 304}" using l2(4,5) by simp
  moreover have "\<forall>n v. (NameStr n, v) \<in> set headers \<longrightarrow> map lower_char n \<noteq> ''content-length''"
    using headers_stream_no_length [OF l2(6)] by blast
  ultimately show ?thesis using r c l2 \<open>\<not> is_head\<close> by blast
qed

lemma streams_only_lazy_witness:
  "stream_capable pool_bridge \<and> \<not> w_builtin two_items"
proof -
  obtain resp ns1 where r: "run_wsgi False two_items_call pool_bridge = Some (Inr resp, ns1)" "resp_streamed resp"
    by (simp add: wsgi_eval)
  have "call_result two_items_call = Inr two_items" by (simp add: two_items_call_def)
  then show ?thesis using streams_only_lazy [OF r] by auto
qed

end
