(* ===== verification/Asgi_Bridge.thy ===== *)
theory Asgi_Bridge
  imports Http_Cycle
begin

text \<open>
  The rest of the bridge in m0_shim.py: which protocol an application object speaks
  (\<open>_detect\<close>, \<open>detect_spec\<close>, \<open>_load_failure\<close>, \<open>set_app\<close>), the ASGI lifespan, the scope
  made from a WSGI environ, and one request served buffered (\<open>_serve_one_buffered\<close>).
\<close>

section \<open>Which protocol\<close>

text \<open>
  An application object as \<open>functools\<close> and \<open>inspect\<close> show it: a \<open>partial\<close> over another,
  or anything else: callable or not, a coroutine function or not, and whether the
  \<open>__call__\<close> it has is one.
\<close>

datatype app_obj =
    PartialOver app_obj
  | AppObject bool bool "bool option" string

datatype protocol = ASGI | WSGI

definition value_error :: "string \<Rightarrow> exn" where
  "value_error m = \<lparr>ex_kind = OtherError, ex_name = ''ValueError'', ex_text = m\<rparr>"

fun detect :: "app_obj \<Rightarrow> exn + protocol" where
  "detect (PartialOver f) = detect f"
| "detect (AppObject is_callable is_coro call type_name) =
     (if \<not> is_callable
      then Inl (value_error
        (''the application object is not callable: expected a WSGI callable app(environ, start_response) or an ASGI callable async app(scope, receive, send), got ''
         @ type_name))
      else if is_coro then Inr ASGI
      else if call = Some True then Inr ASGI
      else Inr WSGI)"

text \<open>\<open>_load_failure\<close>, from the exception and what \<open>traceback.format_exc\<close> renders.\<close>

definition NO_LOOP :: "string list" where
  "NO_LOOP = [''no running event loop'', ''There is no current event loop'']"

definition load_failure :: "exn \<Rightarrow> string \<Rightarrow> string" where
  "load_failure e tb =
     (let head = ex_name e @ '': '' @ ex_text e;
          head1 = (if ex_kind e = RuntimeError \<and> list_ex (\<lambda>p. starts_with p (ex_text e)) NO_LOOP
                   then ''the module scheduled asyncio work at import, before any event loop runs ('' @ head @
                     ''). m0serve imports an application outside a running loop, as uvicorn does without --reload: start that work from a lifespan startup handler instead (FastHTML: on_startup=[...] or lifespan=...; Starlette and FastAPI: lifespan=...)''
                   else head)
      in head1 @ [NL] @ tb)"

text \<open>
  How the import of a module ends: the module, with its attributes; no module of some name
  (or an unnamed one); another exception; or one that is no \<open>Exception\<close> (an exit).
\<close>

datatype import_end =
    Imported "string \<rightharpoonup> app_obj"
  | ModuleNotFound string exn
  | ImportRaised exn
  | ImportExited exn

definition no_attribute :: exn where
  "no_attribute = \<lparr>ex_kind = OtherError, ex_name = ''AttributeError'', ex_text = ''''\<rparr>"

definition missing_of :: "string \<Rightarrow> string \<Rightarrow> bool" where
  "missing_of missing name \<longleftrightarrow>
     missing \<noteq> [] \<and> (missing = name \<or> starts_with (missing @ ''.'') name)"

definition detect_spec :: "string \<Rightarrow> string \<Rightarrow> import_end \<Rightarrow> string \<Rightarrow> exn + protocol" where
  "detect_spec module_name attribute ending tb =
     (case ending of
        Imported m \<Rightarrow> (case m attribute of None \<Rightarrow> Inl no_attribute | Some a \<Rightarrow> detect a)
      | ModuleNotFound missing e \<Rightarrow>
          if missing_of missing module_name then Inl e else Inl (runtime_error (load_failure e tb))
      | ImportRaised e \<Rightarrow> Inl (runtime_error (load_failure e tb))
      | ImportExited e \<Rightarrow> Inl e)"

section \<open>Lifespan\<close>

text \<open>
  What the application does with the lifespan scope, as far as startup can see it: the
  messages it sends, in order, and then whether it waits for more or its task ends.
\<close>

record lifespan_msg =
  ls_type :: string
  ls_message :: string

datatype startup_end = StillWaiting | TaskEnded

text \<open>\<open>send\<close> settles \<open>started\<close> once: \<open>True\<close>, or the failure.\<close>

definition lifespan_send :: "lifespan_msg \<Rightarrow> (exn + bool) option \<Rightarrow> (exn + bool) option" where
  "lifespan_send m started =
     (if started \<noteq> None then started
      else if ls_type m = ''lifespan.startup.complete'' then Some (Inr True)
      else if ls_type m = ''lifespan.startup.failed''
      then Some (Inl (runtime_error (''ASGI lifespan startup failed: '' @ ls_message m)))
      else None)"

text \<open>
  \<open>wait_started\<close>: the first settled of \<open>started\<close> and the task; \<open>None\<close> where neither ever
  is, and startup waits.
\<close>

definition lifespan_startup :: "lifespan_msg list \<Rightarrow> startup_end \<Rightarrow> (exn + bool) option" where
  "lifespan_startup ms ending =
     (case fold lifespan_send ms None of
        Some r \<Rightarrow> Some r
      | None \<Rightarrow> (case ending of TaskEnded \<Rightarrow> Some (Inr False) | StillWaiting \<Rightarrow> None))"

datatype loop_state = NoLoop | LoopOpen | LoopClosed

record bridge =
  b_app :: "app_obj option"
  b_is_asgi :: bool
  b_loop :: loop_state
  b_state_m0 :: bool
  b_lifespan_ok :: bool
  b_lifespan_task :: "bool option"  \<comment> \<open>the task, and whether it is done\<close>
  b_lifespan_rq :: "string list"
  b_cancelled :: bool

definition fresh_bridge :: bridge where
  "fresh_bridge = \<lparr>b_app = None, b_is_asgi = False, b_loop = NoLoop, b_state_m0 = False,
     b_lifespan_ok = False, b_lifespan_task = None, b_lifespan_rq = [], b_cancelled = False\<rparr>"

text \<open>\<open>_lifespan_startup\<close> and \<open>_asgi_init\<close>.\<close>

definition start_lifespan :: "lifespan_msg list \<Rightarrow> startup_end \<Rightarrow> bridge \<Rightarrow> ((exn + unit) \<times> bridge) option" where
  "start_lifespan ms ending b =
     (let b1 = b\<lparr>b_lifespan_task := Some (ending = TaskEnded), b_lifespan_rq := [''lifespan.startup'']\<rparr>
      in case lifespan_startup ms ending of
           None \<Rightarrow> None
         | Some (Inl e) \<Rightarrow> Some (Inl e, b1)
         | Some (Inr ok) \<Rightarrow> Some (Inr (), b1\<lparr>b_lifespan_ok := ok\<rparr>))"

definition asgi_init :: "bool \<Rightarrow> lifespan_msg list \<Rightarrow> startup_end \<Rightarrow> bridge \<Rightarrow> ((exn + unit) \<times> bridge) option" where
  "asgi_init run_lifespan ms ending b =
     (let b1 = b\<lparr>b_loop := (if b_loop b = NoLoop then LoopOpen else b_loop b), b_state_m0 := True\<rparr>
      in if run_lifespan then start_lifespan ms ending b1 else Some (Inr (), b1))"

text \<open>\<open>set_app\<close>; \<open>forced\<close> is \<open>'auto'\<close>, \<open>'asgi'\<close> or another protocol's name.\<close>

definition set_app ::
    "app_obj \<Rightarrow> string \<Rightarrow> bool \<Rightarrow> lifespan_msg list \<Rightarrow> startup_end \<Rightarrow> bridge
      \<Rightarrow> ((exn + protocol) \<times> bridge) option" where
  "set_app app forced run_lifespan ms ending b =
     (let b0 = b\<lparr>b_app := Some app\<rparr>
      in case (if forced = ''auto'' then detect app
               else Inr (if forced = ''asgi'' then ASGI else WSGI)) of
           Inl e \<Rightarrow> Some (Inl e, b0)
         | Inr p \<Rightarrow>
             let b1 = b0\<lparr>b_is_asgi := (p = ASGI)\<rparr>
             in if p = ASGI
                then (case asgi_init run_lifespan ms ending b1 of
                        None \<Rightarrow> None
                      | Some (Inl e, b2) \<Rightarrow> Some (Inl e, b2)
                      | Some (Inr _, b2) \<Rightarrow> Some (Inr ASGI, b2))
                else Some (Inr WSGI, b1))"

text \<open>
  \<open>lifespan_shutdown\<close>. \<open>finishes\<close> says whether the task ends within the five seconds it is
  given, \<open>heeds\<close> whether it ends once cancelled; \<open>None\<close> is a shutdown that waits for ever
  on a task that does neither.
\<close>

definition lifespan_shutdown :: "bool \<Rightarrow> bool \<Rightarrow> bridge \<Rightarrow> bridge option" where
  "lifespan_shutdown finishes heeds b =
     (if b_loop b \<noteq> LoopOpen then Some b
      else
        let asked = b_lifespan_ok b \<and> b_lifespan_task b = Some False;
            b1 = (if asked
                  then b\<lparr>b_lifespan_rq := b_lifespan_rq b @ [''lifespan.shutdown''],
                         b_lifespan_task := Some finishes\<rparr>
                  else b);
            pending = (b_lifespan_task b1 = Some False);
            b2 = (if pending then b1\<lparr>b_cancelled := True\<rparr> else b1)
        in if pending \<and> \<not> heeds then None
           else Some (b2\<lparr>b_lifespan_task := None, b_loop := LoopClosed\<rparr>))"

section \<open>The scope of a buffered request\<close>

text \<open>The environ's text values, in the order of the dict.\<close>

type_synonym environ = "(string \<times> string) list"

definition env_get :: "environ \<Rightarrow> string \<Rightarrow> string \<Rightarrow> string" where
  "env_get env k d = (case map_of env k of None \<Rightarrow> d | Some v \<Rightarrow> v)"

fun scope_headers :: "environ \<Rightarrow> header list" where
  "scope_headers [] = []"
| "scope_headers ((key, val) # env) =
     (if key = ''CONTENT_TYPE'' then [(latin1 ''content-type'', latin1 val)]
      else if key = ''CONTENT_LENGTH'' then [(latin1 ''content-length'', latin1 val)]
      else if starts_with ''HTTP_'' key
      then [(latin1 (py_lower (replace_char (CHR ''_'') (CHR ''-'') (drop 5 key))), latin1 val)]
      else []) @ scope_headers env"

record http_scope =
  hs_http_version :: string
  hs_method :: string
  hs_scheme :: string
  hs_path :: ustr
  hs_raw_path :: bytes
  hs_query :: bytes
  hs_root_path :: string
  hs_headers :: "header list"
  hs_client :: "(string \<times> int) option"
  hs_server :: "string \<times> int"

text \<open>\<open>int(x or 0)\<close>.\<close>

definition int_or_zero :: "string \<Rightarrow> int option" where
  "int_or_zero s = (if s = [] then Some 0 else py_int s)"

definition scope_from_environ :: "environ \<Rightarrow> exn + http_scope" where
  "scope_from_environ env =
     (let port = (case int_or_zero (env_get env ''SERVER_PORT'' []) of None \<Rightarrow> 0 | Some p \<Rightarrow> p);
          raw = latin1 (env_get env ''SCRIPT_NAME'' [] @ env_get env ''PATH_INFO'' []);
          addr = env_get env ''REMOTE_ADDR'' []
      in case (if addr = [] then Some None
               else map_option (\<lambda>p. Some (addr, p)) (int_or_zero (env_get env ''REMOTE_PORT'' []))) of
           None \<Rightarrow> Inl (value_error ''invalid literal for int() with base 10'')
         | Some client \<Rightarrow>
             Inr \<lparr>hs_http_version = last (split_on (CHR ''/'') (env_get env ''SERVER_PROTOCOL'' ''HTTP/1.1'')),
                  hs_method = env_get env ''REQUEST_METHOD'' ''GET'',
                  hs_scheme = env_get env ''wsgi.url_scheme'' ''http'',
                  hs_path = utf8_decode_replace raw, hs_raw_path = raw,
                  hs_query = latin1 (env_get env ''QUERY_STRING'' []),
                  hs_root_path = env_get env ''SCRIPT_NAME'' [],
                  hs_headers = scope_headers env, hs_client = client,
                  hs_server = (env_get env ''SERVER_NAME'' [], port)\<rparr>)"

text \<open>\<open>set_scope_base\<close>: the server pair and root path of every socket's scope.\<close>

definition set_scope_base :: "string \<Rightarrow> string \<Rightarrow> string \<Rightarrow> (string \<times> int) \<times> string" where
  "set_scope_base server_name server_port root_path =
     ((server_name, (case py_int server_port of None \<Rightarrow> 0 | Some p \<Rightarrow> p)), root_path)"

section \<open>One request, buffered\<close>

record buffered =
  bf_status :: "int option"
  bf_headers :: "header list"
  bf_chunks :: "bytes list"
  bf_total :: nat
  bf_deadline :: "int option"

definition fresh_buffered :: buffered where
  "fresh_buffered = \<lparr>bf_status = None, bf_headers = [], bf_chunks = [], bf_total = 0, bf_deadline = None\<rparr>"

text \<open>\<open>_ASGI_STREAM_GRACE\<close>, in milliseconds, as the clock here.\<close>

definition ASGI_STREAM_GRACE :: int where "ASGI_STREAM_GRACE = 10000"

definition over_cap :: exn where
  "over_cap = runtime_error ''ASGI response body exceeded the buffered bridge cap (16777216 bytes)''"

definition too_slow :: exn where
  "too_slow = runtime_error ''ASGI streaming response did not complete within 10s -- infinite streams (SSE/EventStream) are not supported by the buffered ASGI bridge; see docs/WSGI_VS_ASGI.md section 8''"

definition buffered_send :: "int \<Rightarrow> asgi_msg \<Rightarrow> buffered \<Rightarrow> (exn + unit) \<times> buffered" where
  "buffered_send now m s =
     (case m of
        HttpResponseStart status hs \<Rightarrow>
          (Inr (), s\<lparr>bf_status := Some (case status of None \<Rightarrow> 500 | Some c \<Rightarrow> c),
                    bf_headers := (case hs of None \<Rightarrow> [] | Some h \<Rightarrow> h)\<rparr>)
      | HttpResponseBody body more_b \<Rightarrow>
          let chunk = (case body of None \<Rightarrow> [] | Some b \<Rightarrow> b);
              s1 = (if chunk = [] then s
                    else s\<lparr>bf_chunks := bf_chunks s @ [chunk], bf_total := bf_total s + length chunk\<rparr>)
          in if chunk \<noteq> [] \<and> ASGI_BUFFER_CAP < bf_total s1 then (Inl over_cap, s1)
             else if more_b = Some True
             then (case bf_deadline s1 of
                     None \<Rightarrow> (Inr (), s1\<lparr>bf_deadline := Some (now + ASGI_STREAM_GRACE)\<rparr>)
                   | Some d \<Rightarrow> if d < now then (Inl too_slow, s1) else (Inr (), s1))
             else (Inr (), s1)
      | _ \<Rightarrow> (Inr (), s))"

text \<open>\<open>receive\<close>: the body once; after that it waits for ever (\<open>None\<close>).\<close>

definition buffered_receive :: "bytes \<Rightarrow> bool \<Rightarrow> (recv_msg \<times> bool) option" where
  "buffered_receive body delivered = (if delivered then None else Some (HttpRequest body, True))"

text \<open>
  The whole request: the messages the application sends, each with the clock, and how it
  ends. (An exception \<open>send\<close> raises is the application's to swallow or to end with.)
\<close>

definition buffered_after :: "(int \<times> asgi_msg) list \<Rightarrow> buffered" where
  "buffered_after ms = fold (\<lambda>(now, m) s. snd (buffered_send now m s)) ms fresh_buffered"

definition reason_of :: "(int \<rightharpoonup> string) \<Rightarrow> int \<Rightarrow> string" where
  "reason_of reasons status = show_int status @ '' '' @ (case reasons status of None \<Rightarrow> [] | Some r \<Rightarrow> r)"

definition serve_one_buffered ::
    "(int \<rightharpoonup> string) \<Rightarrow> (int \<times> asgi_msg) list \<Rightarrow> exn option \<Rightarrow>
      exn + (string \<times> (string \<times> string) list \<times> bytes)" where
  "serve_one_buffered reasons ms raised =
     (case raised of
        Some e \<Rightarrow> Inl e
      | None \<Rightarrow>
          let s = buffered_after ms
          in case bf_status s of
               None \<Rightarrow> Inl (runtime_error ''ASGI application completed without sending http.response.start'')
             | Some status \<Rightarrow>
                 Inr (reason_of reasons status,
                      map (\<lambda>(n, v). (of_latin1 n, of_latin1 v)) (bf_headers s),
                      concat (bf_chunks s)))"

text \<open>\<open>_run_asgi\<close>: the request's scope, then the request.\<close>

definition run_asgi ::
    "environ \<Rightarrow> (int \<rightharpoonup> string) \<Rightarrow> (http_scope \<Rightarrow> (int \<times> asgi_msg) list \<times> exn option) \<Rightarrow>
      exn + (string \<times> (string \<times> string) list \<times> bytes)" where
  "run_asgi env reasons app =
     (case scope_from_environ env of
        Inl e \<Rightarrow> Inl e
      | Inr scope \<Rightarrow> (case app scope of (ms, raised) \<Rightarrow> serve_one_buffered reasons ms raised))"

end
