(* ===== verification/Asgi_Props.thy ===== *)
theory Asgi_Props
  imports Asgi_Bridge Exec_System
begin

text \<open>
  What the ASGI bridge promises: a request's path and headers come back out of the WSGI
  environ as they went in, the buffered bridge and the executor answer a conversation alike,
  the first answer of a lifespan decides, and a shutdown leaves no loop behind.
\<close>

section \<open>The byte tunnel\<close>

text \<open>
  The environ of a request as PEP 3333 and RFC 3875 write it: a path as the Latin-1 image
  of its UTF-8 bytes, a header under \<open>HTTP_\<close> and its upper-case name.
\<close>

definition upper_char :: "char \<Rightarrow> char" where
  "upper_char c = (let n = of_char c :: nat in if 97 \<le> n \<and> n \<le> 122 then char_of (n - 32) else c)"

definition cgi_name :: "string \<Rightarrow> string" where
  "cgi_name n =
     (if n = ''content-type'' then ''CONTENT_TYPE''
      else if n = ''content-length'' then ''CONTENT_LENGTH''
      else ''HTTP_'' @ map upper_char (replace_char (CHR ''-'') (CHR ''_'') n))"

definition cgi_environ :: "(string \<times> bytes) list \<Rightarrow> environ" where
  "cgi_environ hs = map (\<lambda>(n, v). (cgi_name n, of_latin1 v)) hs"

text \<open>The characters of a header name that survive: no capitals, no underscore.\<close>

definition plain_char :: "char \<Rightarrow> bool" where
  "plain_char c \<longleftrightarrow> (let n = of_char c :: nat in n < 128 \<and> \<not> (65 \<le> n \<and> n \<le> 90) \<and> c \<noteq> CHR ''_'')"

lemma lower_upper_plain:
  assumes "plain_char c"
  shows "lower_char (let d = upper_char (if c = CHR ''-'' then CHR ''_'' else c)
                     in if d = CHR ''_'' then CHR ''-'' else d) = c"
proof -
  define n where "n = (of_char c :: nat)"
  have c: "c = char_of n" by (simp add: n_def)
  have n: "n < 128" "\<not> (65 \<le> n \<and> n \<le> 90)" using assms by (auto simp: plain_char_def n_def Let_def)
  have us: "c \<noteq> CHR ''_''" using assms by (auto simp: plain_char_def Let_def)
  show ?thesis
  proof (cases "97 \<le> n \<and> n \<le> 122")
    case True
    then have d: "upper_char c = char_of (n - 32)" by (simp add: upper_char_def flip: n_def)
    have "char_of (n - 32) \<noteq> CHR ''_''"
      using True by (auto dest!: arg_cong [where f = "of_char :: char \<Rightarrow> nat"])
    moreover have "c \<noteq> CHR ''-''" using True by (auto simp: n_def)
    moreover have "(n - 32) mod 256 = n - 32"
      using True by (intro mod_less; linarith)
    moreover have "n - 32 + 32 = n" using True by linarith
    ultimately show ?thesis using True d c by (auto simp: lower_char_def Let_def)
  next
    case False
    then have "upper_char c = c" by (auto simp: upper_char_def Let_def n_def)
    moreover have "lower_char c = c" using n by (auto simp: lower_char_def Let_def n_def)
    ultimately show ?thesis using us by (auto simp: upper_char_def lower_char_def Let_def)
  qed
qed

lemma cgi_name_reads:
  assumes "list_all plain_char n" and "n \<noteq> ''content-type''" and "n \<noteq> ''content-length''"
  shows "py_lower (replace_char (CHR ''_'') (CHR ''-'') (drop 5 (cgi_name n))) = n"
proof -
  have "map (\<lambda>c. lower_char (let d = upper_char (if c = CHR ''-'' then CHR ''_'' else c)
                     in if d = CHR ''_'' then CHR ''-'' else d)) n = n"
    using assms(1) lower_upper_plain by (intro map_idI) (auto simp: list_all_iff)
  then show ?thesis using assms(2,3)
    by (simp add: cgi_name_def py_lower_def replace_char_def o_def Let_def)
qed

lemma scope_headers_step:
  "list_all plain_char n \<Longrightarrow>
    scope_headers ((cgi_name n, of_latin1 v) # env) = (latin1 n, v) # scope_headers env"
  using cgi_name_reads [of n]
  by (cases "n = ''content-type''"; cases "n = ''content-length''")
     (auto simp: cgi_name_def starts_with_def)

text \<open>
  The headers of a request, written into the environ as CGI variables, are in the ASGI
  scope again in their order, names and values byte for byte, whatever the values hold.
\<close>

lemma headers_survive_environ:
  assumes "\<forall>(n, v) \<in> set hs. list_all plain_char n"
  shows "scope_headers (cgi_environ hs) = map (\<lambda>(n, v). (latin1 n, v)) hs"
  using assms
proof (induction hs)
  case (Cons h hs)
  obtain n v where h: "h = (n, v)" by force
  with Cons.prems have "list_all plain_char n" by simp
  from scope_headers_step [OF this, of v "cgi_environ hs"] Cons.IH Cons.prems
  show ?case unfolding h cgi_environ_def by (simp del: scope_headers.simps)
qed (simp add: cgi_environ_def)

lemma headers_survive_environ_witness:
  "scope_headers (cgi_environ [(''x-a'', [200]), (''content-type'', latin1 ''t'')])
     = [(latin1 ''x-a'', [200]), (latin1 ''content-type'', latin1 ''t'')]"
  using headers_survive_environ [of "[(''x-a'', [200]), (''content-type'', latin1 ''t'')]"]
  by (simp add: plain_char_def)

lemma latin1_append [simp]: "latin1 (a @ b) = latin1 a @ latin1 b"
  by (simp add: latin1_def)

text \<open>
  A path of any code points, sent as UTF-8 and split anywhere between SCRIPT_NAME and
  PATH_INFO, is the scope's path again, and its bytes are the raw path.
\<close>

lemma path_survives_environ:
  assumes "utf8_encode p = Some (a @ b)"
    and "env_get env ''SCRIPT_NAME'' [] = of_latin1 a" and "env_get env ''PATH_INFO'' [] = of_latin1 b"
    and "scope_from_environ env = Inr scope"
  shows "hs_path scope = p \<and> hs_raw_path scope = a @ b \<and> hs_root_path scope = of_latin1 a"
  using assms utf8_roundtrip [of p "a @ b"]
  by (auto simp: scope_from_environ_def Let_def split: option.splits)

lemma path_survives_environ_witness:
  "\<exists>scope. scope_from_environ [(''SCRIPT_NAME'', of_latin1 [47, 195]), (''PATH_INFO'', of_latin1 [169])]
     = Inr scope \<and> hs_path scope = [47, 233]"
proof -
  let ?env = "[(''SCRIPT_NAME'', of_latin1 [47, 195]), (''PATH_INFO'', of_latin1 [169])]"
  obtain scope where s: "scope_from_environ ?env = Inr scope"
    by (auto simp: scope_from_environ_def env_get_def Let_def split: option.split)
  have "utf8_encode [47, 233] = Some ([47, 195] @ [169])"
    by (simp add: utf8_encode_def scalar_def utf8_char_def u8_def)
  then have "hs_path scope = [47, 233]"
    using path_survives_environ [of "[47, 233]" "[47, 195]" "[169]" ?env scope] s
    by (simp add: env_get_def)
  with s show ?thesis by blast
qed

section \<open>The buffered bridge and the executor\<close>

definition is_body :: "asgi_msg \<Rightarrow> bool" where
  "is_body m = (case m of HttpResponseBody _ _ \<Rightarrow> True | _ \<Rightarrow> False)"

text \<open>The head an application has sent: the last \<open>http.response.start\<close>.\<close>

definition head_step :: "asgi_msg \<Rightarrow> (int \<times> header list) option \<Rightarrow> (int \<times> header list) option" where
  "head_step m h =
     (case m of
        HttpResponseStart s hs \<Rightarrow>
          Some (case s of None \<Rightarrow> 500 | Some c \<Rightarrow> c, case hs of None \<Rightarrow> [] | Some l \<Rightarrow> l)
      | _ \<Rightarrow> h)"

definition head_sent :: "asgi_msg list \<Rightarrow> (int \<times> header list) option" where
  "head_sent ms = fold head_step ms None"

definition with_head :: "(int \<times> header list) option \<Rightarrow> cycle \<Rightarrow> cycle" where
  "with_head h y = y\<lparr>c_status := map_option fst h, c_headers := map_option snd h\<rparr>"

definition exec_sends :: "tid \<Rightarrow> asgi_msg list \<Rightarrow> xst \<Rightarrow> xst" where
  "exec_sends c ms st = fold (\<lambda>m s. fst (http_send c m s)) ms st"

text \<open>Two states of the executor that differ in the cycle of \<open>c\<close> only.\<close>

definition but_cycle :: "tid \<Rightarrow> xst \<Rightarrow> cycle \<Rightarrow> xst" where
  "but_cycle c st y = st\<lparr>cycle_of := (cycle_of st)(c \<mapsto> y)\<rparr>"

lemma but_cycle_simps [simp]:
  "cycle_of (but_cycle c st y) c = Some y" "task_done (but_cycle c st y) = task_done st"
  "dispatched (but_cycle c st y) = dispatched st" "closed (but_cycle c st y) = closed st"
  "upd_cycle c f (but_cycle c st y) = but_cycle c st (f y)"
  by (auto simp: but_cycle_def task_done_def upd_cycle_def)

lemma http_send_head:
  assumes "\<not> is_body m" and "\<not> task_done st c" and "\<not> c_completed y"
  shows "fst (http_send c m (but_cycle c st (with_head h y))) = but_cycle c st (with_head (head_step m h) y)"
  using assms
  by (cases m) (auto simp: http_send_def is_body_def head_step_def with_head_def)

lemma exec_sends_heads:
  assumes "\<not> task_done st c" and "\<not> c_completed y"
  shows "\<forall>m\<in>set ms. \<not> is_body m \<Longrightarrow>
    exec_sends c ms (but_cycle c st (with_head h y)) = but_cycle c st (with_head (fold head_step ms h) y)"
proof (induction ms arbitrary: h)
  case (Cons m ms)
  then show ?case using http_send_head [OF _ assms, of m h] by (simp add: exec_sends_def)
qed (simp add: exec_sends_def)

definition head_buffered :: "(int \<times> header list) option \<Rightarrow> buffered" where
  "head_buffered h = fresh_buffered\<lparr>bf_status := map_option fst h,
     bf_headers := (case h of None \<Rightarrow> [] | Some p \<Rightarrow> snd p)\<rparr>"

lemma buffered_send_head:
  "\<not> is_body m \<Longrightarrow> snd (buffered_send t m (head_buffered h)) = head_buffered (head_step m h)"
  by (cases m) (simp_all add: is_body_def buffered_send_def head_step_def head_buffered_def fresh_buffered_def)

lemma buffered_heads:
  "\<forall>m\<in>set (map snd tms). \<not> is_body m \<Longrightarrow>
    fold (\<lambda>(now, m) s. snd (buffered_send now m s)) tms (head_buffered h)
      = head_buffered (fold head_step (map snd tms) h)"
proof (induction tms arbitrary: h)
  case (Cons tm tms)
  then show ?case using buffered_send_head [of "snd tm" "fst tm" h] by (cases tm) simp
qed simp



section \<open>Lifespan\<close>

text \<open>
  The first \<open>startup.complete\<close> or \<open>startup.failed\<close> decides, whatever the application
  sends or does after it; an application that ends its lifespan without either is served
  without one; and startup waits for ever only on one that neither answers nor ends.
\<close>

lemma lifespan_first_answer:
  assumes "\<forall>m\<in>set pre. lifespan_send m None = None"
  shows "(lifespan_send a None \<noteq> None \<longrightarrow>
            lifespan_startup (pre @ a # rest) ending = lifespan_send a None) \<and>
         lifespan_startup pre TaskEnded = Some (Inr False) \<and>
         lifespan_startup pre StillWaiting = None"
proof -
  have none: "fold lifespan_send pre None = None"
    using assms by (induction pre) auto
  have keep: "fold lifespan_send ms (Some r) = Some r" for ms r
    by (induction ms) (auto simp: lifespan_send_def)
  show ?thesis
    using none keep by (auto simp: lifespan_startup_def)
qed

lemma lifespan_first_answer_witness:
  "lifespan_startup [\<lparr>ls_type = ''x'', ls_message = ''''\<rparr>,
     \<lparr>ls_type = ''lifespan.startup.complete'', ls_message = ''''\<rparr>,
     \<lparr>ls_type = ''lifespan.startup.failed'', ls_message = ''late''\<rparr>] TaskEnded = Some (Inr True)"
  using lifespan_first_answer [where pre = "[\<lparr>ls_type = ''x'', ls_message = ''''\<rparr>]"
      and a = "\<lparr>ls_type = ''lifespan.startup.complete'', ls_message = ''''\<rparr>"
      and rest = "[\<lparr>ls_type = ''lifespan.startup.failed'', ls_message = ''late''\<rparr>]"
      and ending = TaskEnded]
  by (simp add: lifespan_send_def)



section \<open>What the application is\<close>

text \<open>The attribute under any number of partials.\<close>

fun under_partials :: "app_obj \<Rightarrow> app_obj" where
  "under_partials (PartialOver f) = under_partials f"
| "under_partials a = a"

text \<open>
  Detection never blames the wrong thing: a module that is absent, or a package of its
  name, is reported as absent; whatever else importing it raises, the missing import of
  another module included, is reported with the text that \<open>traceback\<close> gives; and a module
  that imports is judged by what is under its partials, an uncallable object refused.
\<close>

lemma detect_spec_blames:
  "detect_spec name attr (ModuleNotFound missing e) tb =
     (if missing = name \<and> name \<noteq> [] \<or> (\<exists>rest. missing \<noteq> [] \<and> name = missing @ ''.'' @ rest)
      then Inl e else Inl (runtime_error (load_failure e tb))) \<and>
   (\<exists>msg. load_failure e tb = msg @ [NL] @ tb) \<and>
   (\<forall>m. detect_spec name attr (Imported m) tb =
      (case m attr of None \<Rightarrow> Inl no_attribute | Some a \<Rightarrow> detect (under_partials a))) \<and>
   detect (AppObject False is_coro call ty) \<noteq> Inr p"
proof -
  have d: "detect a = detect (under_partials a)" for a
    by (induction a) auto
  have l: "\<exists>msg. load_failure e tb = msg @ [NL] @ tb"
    by (auto simp: load_failure_def Let_def)
  have m: "missing_of missing name \<longleftrightarrow>
      missing = name \<and> name \<noteq> [] \<or> (\<exists>rest. missing \<noteq> [] \<and> name = missing @ ''.'' @ rest)"
    by (auto simp: missing_of_def starts_with_iff)
  have i: "detect_spec name attr (Imported m) tb =
      (case m attr of None \<Rightarrow> Inl no_attribute | Some a \<Rightarrow> detect (under_partials a))" for m
    using d by (simp add: detect_spec_def split: option.split)
  have n: "detect_spec name attr (ModuleNotFound missing e) tb =
     (if missing = name \<and> name \<noteq> [] \<or> (\<exists>rest. missing \<noteq> [] \<and> name = missing @ ''.'' @ rest)
      then Inl e else Inl (runtime_error (load_failure e tb)))"
    unfolding detect_spec_def import_end.case m ..
  show ?thesis using l i n by simp
qed

end
