(* ===== verification/Py_Hash.thy ===== *)
theory Py_Hash
  imports Py_Numbers
begin

unbundle bit_operations_syntax

text \<open>
  What the grant module takes of the standard library: \<open>hashlib.sha256\<close> and
  \<open>hmac.new(key, msg, sha256)\<close> as FIPS 180-4 and RFC 2104 define them, \<open>hexdigest\<close>, and
  \<open>base64.urlsafe_b64encode\<close> with its padding stripped.
\<close>

section \<open>SHA-256\<close>

type_synonym word32 = "32 word"

definition sha_k :: "word32 list" where
  "sha_k = [
    1116352408, 1899447441, 3049323471, 3921009573, 961987163, 1508970993, 2453635748, 2870763221,
    3624381080, 310598401, 607225278, 1426881987, 1925078388, 2162078206, 2614888103, 3248222580,
    3835390401, 4022224774, 264347078, 604807628, 770255983, 1249150122, 1555081692, 1996064986,
    2554220882, 2821834349, 2952996808, 3210313671, 3336571891, 3584528711, 113926993, 338241895,
    666307205, 773529912, 1294757372, 1396182291, 1695183700, 1986661051, 2177026350, 2456956037,
    2730485921, 2820302411, 3259730800, 3345764771, 3516065817, 3600352804, 4094571909, 275423344,
    430227734, 506948616, 659060556, 883997877, 958139571, 1322822218, 1537002063, 1747873779,
    1955562222, 2024104815, 2227730452, 2361852424, 2428436474, 2756734187, 3204031479, 3329325298]"

definition sha_h0 :: "word32 list" where
  "sha_h0 = [1779033703, 3144134277, 1013904242, 2773480762,
    1359893119, 2600822924, 528734635, 1541459225]"

definition big_sigma0 :: "word32 \<Rightarrow> word32" where
  "big_sigma0 x = word_rotr 2 x XOR word_rotr 13 x XOR word_rotr 22 x"

definition big_sigma1 :: "word32 \<Rightarrow> word32" where
  "big_sigma1 x = word_rotr 6 x XOR word_rotr 11 x XOR word_rotr 25 x"

definition small_sigma0 :: "word32 \<Rightarrow> word32" where
  "small_sigma0 x = word_rotr 7 x XOR word_rotr 18 x XOR drop_bit 3 x"

definition small_sigma1 :: "word32 \<Rightarrow> word32" where
  "small_sigma1 x = word_rotr 17 x XOR word_rotr 19 x XOR drop_bit 10 x"

definition sha_ch :: "word32 \<Rightarrow> word32 \<Rightarrow> word32 \<Rightarrow> word32" where
  "sha_ch x y z = (x AND y) XOR (NOT x AND z)"

definition sha_maj :: "word32 \<Rightarrow> word32 \<Rightarrow> word32 \<Rightarrow> word32" where
  "sha_maj x y z = (x AND y) XOR (x AND z) XOR (y AND z)"

text \<open>The message schedule, newest word first.\<close>

fun sha_extend :: "nat \<Rightarrow> word32 list \<Rightarrow> word32 list" where
  "sha_extend 0 ws = ws"
| "sha_extend (Suc n) ws =
     sha_extend n ((small_sigma1 (ws ! 1) + ws ! 6 + small_sigma0 (ws ! 14) + ws ! 15) # ws)"

fun sha_round :: "word32 \<times> word32 \<Rightarrow> word32 list \<Rightarrow> word32 list" where
  "sha_round (k, w) [a, b, c, d, e, f, g, h] =
     (let t1 = h + big_sigma1 e + sha_ch e f g + k + w;
          t2 = big_sigma0 a + sha_maj a b c
      in [t1 + t2, a, b, c, d + t1, e, f, g])"
| "sha_round kw hs = hs"

fun word_of_bytes :: "bytes \<Rightarrow> word32" where
  "word_of_bytes bs = foldl (\<lambda>acc b. 256 * acc + ucast b) 0 bs"

definition bytes_of_word :: "word32 \<Rightarrow> bytes" where
  "bytes_of_word w = [ucast (drop_bit 24 w), ucast (drop_bit 16 w), ucast (drop_bit 8 w), ucast w]"

text \<open>Consecutive groups of \<open>n\<close>.\<close>

function groups_of :: "nat \<Rightarrow> 'a list \<Rightarrow> 'a list list" where
  "groups_of n xs = (if xs = [] \<or> n = 0 then [] else take n xs # groups_of n (drop n xs))"
  by pat_completeness auto
termination by (relation "measure (\<lambda>(n, xs). length xs)") auto

declare groups_of.simps [simp del]

definition sha_block :: "word32 list \<Rightarrow> bytes \<Rightarrow> word32 list" where
  "sha_block hs block =
     map2 (+) hs (fold sha_round
       (zip sha_k (rev (sha_extend 48 (rev (map word_of_bytes (groups_of 4 block)))))) hs)"

definition sha_pad :: "bytes \<Rightarrow> bytes" where
  "sha_pad m = m @ [0x80] @ replicate (nat ((55 - int (length m)) mod 64)) 0
     @ rev (to_le 8 (8 * int (length m)))"

definition sha256 :: "bytes \<Rightarrow> bytes" where
  "sha256 m = concat (map bytes_of_word (foldl sha_block sha_h0 (groups_of 64 (sha_pad m))))"

lemma length_sha_round [simp]: "length (sha_round kw hs) = length hs"
  by (cases "(kw, hs)" rule: sha_round.cases) (auto simp: Let_def)

lemma length_sha_block [simp]: "length (sha_block hs block) = length hs"
proof -
  have "length (fold sha_round kws hs) = length hs" for kws
    by (induction kws arbitrary: hs) simp_all
  then show ?thesis by (simp add: sha_block_def)
qed

lemma length_sha256 [simp]: "length (sha256 m) = 32"
proof -
  have "length (foldl sha_block hs bs) = length hs" for hs bs
    by (induction bs arbitrary: hs) simp_all
  moreover have "length (concat (map bytes_of_word ws)) = 4 * length ws" for ws
    by (induction ws) (simp_all add: bytes_of_word_def)
  ultimately show ?thesis by (simp add: sha256_def sha_h0_def)
qed

text \<open>HMAC with a block of 64 bytes.\<close>

definition hmac_sha256 :: "bytes \<Rightarrow> bytes \<Rightarrow> bytes" where
  "hmac_sha256 key m =
     (let k0 = (if 64 < length key then sha256 key else key);
          k = k0 @ replicate (64 - length k0) 0
      in sha256 (map (\<lambda>b. b XOR 0x5C) k @ sha256 (map (\<lambda>b. b XOR 0x36) k @ m)))"

lemma length_hmac [simp]: "length (hmac_sha256 key m) = 32"
  by (simp add: hmac_sha256_def Let_def)

section \<open>Hexadecimal and base64url\<close>

definition hex_digits :: string where
  "hex_digits = ''0123456789abcdef''"

definition hex_digit :: "nat \<Rightarrow> char" where
  "hex_digit n = hex_digits ! (n mod 16)"

definition hexdigest :: "bytes \<Rightarrow> string" where
  "hexdigest b = concat (map (\<lambda>w. [hex_digit (unat w div 16), hex_digit (unat w)]) b)"

lemma length_hexdigest [simp]: "length (hexdigest b) = 2 * length b"
  by (induction b) (simp_all add: hexdigest_def)

lemma hexdigest_all:
  assumes "list_all P hex_digits"
  shows "list_all P (hexdigest b)"
proof -
  have "length hex_digits = 16" by (simp add: hex_digits_def)
  then have "P (hex_digit n)" for n
    using assms unfolding list_all_length hex_digit_def by simp
  then show ?thesis by (induction b) (simp_all add: hexdigest_def)
qed

definition b64_alphabet :: string where
  "b64_alphabet = ''ABCDEFGHIJKLMNOPQRSTUVWXYZabcdefghijklmnopqrstuvwxyz0123456789-_''"

definition b64_char :: "nat \<Rightarrow> char" where
  "b64_char n = b64_alphabet ! (n mod 64)"

text \<open>\<open>base64.urlsafe_b64encode(raw)\<close>, padding included.\<close>

fun b64_encode :: "bytes \<Rightarrow> string" where
  "b64_encode [] = []"
| "b64_encode [a] =
     [b64_char (unat a div 4), b64_char (unat a mod 4 * 16), CHR ''='', CHR ''='']"
| "b64_encode [a, b] =
     [b64_char (unat a div 4), b64_char (unat a mod 4 * 16 + unat b div 16),
      b64_char (unat b mod 16 * 4), CHR ''='']"
| "b64_encode (a # b # c # rest) =
     [b64_char (unat a div 4), b64_char (unat a mod 4 * 16 + unat b div 16),
      b64_char (unat b mod 16 * 4 + unat c div 64), b64_char (unat c)] @ b64_encode rest"

text \<open>\<open>.rstrip(b'=')\<close>.\<close>

definition b64u :: "bytes \<Rightarrow> string" where
  "b64u raw = rstrip_of (CHR ''='') (b64_encode raw)"

section \<open>Reading base64url back\<close>

definition b64_val :: "char \<Rightarrow> nat option" where
  "b64_val c = (let n = of_char c :: nat in
     if 65 \<le> n \<and> n \<le> 90 then Some (n - 65)
     else if 97 \<le> n \<and> n \<le> 122 then Some (n - 71)
     else if 48 \<le> n \<and> n \<le> 57 then Some (n + 4)
     else if n = 45 then Some 62 else if n = 95 then Some 63 else None)"

definition byte_of :: "nat \<Rightarrow> byte" where
  "byte_of n = of_nat n"

fun b64_read :: "nat list \<Rightarrow> bytes option" where
  "b64_read [] = Some []"
| "b64_read [p] = None"
| "b64_read [p, q] = Some [byte_of (p * 4 + q div 16)]"
| "b64_read [p, q, r] = Some [byte_of (p * 4 + q div 16), byte_of (q mod 16 * 16 + r div 4)]"
| "b64_read (p # q # r # s # rest) =
     map_option (\<lambda>bs. byte_of (p * 4 + q div 16) # byte_of (q mod 16 * 16 + r div 4)
       # byte_of (r mod 4 * 64 + s) # bs) (b64_read rest)"

definition b64u_decode :: "string \<Rightarrow> bytes option" where
  "b64u_decode s = Option.bind (those (map b64_val s)) b64_read"

lemma b64_alphabet_reads: "map b64_val b64_alphabet = map Some [0..<64]"
  by (simp add: b64_alphabet_def b64_val_def Let_def upt_conv_Cons)

lemma b64_val_char [simp]: "b64_val (b64_char n) = Some (n mod 64)"
proof -
  have "map b64_val b64_alphabet ! (n mod 64) = Some (n mod 64)"
    unfolding b64_alphabet_reads by simp
  moreover have "length b64_alphabet = 64" by (simp add: b64_alphabet_def)
  ultimately show ?thesis by (simp add: b64_char_def)
qed

definition b64_safe :: "char \<Rightarrow> bool" where
  "b64_safe c \<longleftrightarrow> b64_val c \<noteq> None"

lemma b64_safe_char [simp]: "b64_safe (b64_char n)"
  by (simp add: b64_safe_def)

lemma b64_safe_not: "b64_safe c \<Longrightarrow> c \<noteq> CHR ''='' \<and> c \<noteq> CHR ''.'' "
  by (auto simp: b64_safe_def b64_val_def Let_def)

text \<open>The encoding without its padding, by the length of what is left.\<close>

fun b64_body :: "bytes \<Rightarrow> string" where
  "b64_body [] = []"
| "b64_body [a] = [b64_char (unat a div 4), b64_char (unat a mod 4 * 16)]"
| "b64_body [a, b] =
     [b64_char (unat a div 4), b64_char (unat a mod 4 * 16 + unat b div 16), b64_char (unat b mod 16 * 4)]"
| "b64_body (a # b # c # rest) =
     [b64_char (unat a div 4), b64_char (unat a mod 4 * 16 + unat b div 16),
      b64_char (unat b mod 16 * 4 + unat c div 64), b64_char (unat c)] @ b64_body rest"

lemma b64_body_safe: "list_all b64_safe (b64_body raw)"
  by (induction raw rule: b64_body.induct) simp_all

lemma b64_encode_body: "\<exists>n. b64_encode raw = b64_body raw @ replicate n (CHR ''='')"
proof (induction raw rule: b64_body.induct)
  case (2 a)
  show ?case by (rule exI [of _ 2]) (simp add: numeral_2_eq_2)
next
  case (3 a b)
  show ?case by (rule exI [of _ 1]) simp
qed auto

lemma rstrip_of_padding:
  "\<forall>x\<in>set s. x \<noteq> c \<Longrightarrow> rstrip_of c (s @ replicate n c) = s"
proof (induction n)
  case 0
  then show ?case by (cases s rule: rev_cases) auto
next
  case (Suc n)
  have "s @ replicate (Suc n) c = (s @ replicate n c) @ [c]"
    by (simp add: replicate_append_same)
  then show ?case using Suc by (simp only: rstrip_of_snoc if_True simp_thms)
qed

lemma b64u_body: "b64u raw = b64_body raw"
proof -
  obtain n where "b64_encode raw = b64_body raw @ replicate n (CHR ''='')"
    using b64_encode_body by blast
  moreover have "\<forall>x\<in>set (b64_body raw). x \<noteq> CHR ''=''"
    using b64_body_safe [of raw] b64_safe_not by (auto simp: list_all_iff)
  ultimately show ?thesis by (simp add: b64u_def rstrip_of_padding)
qed

lemma byte_join:
  "byte_of (unat a div 4 mod 64 * 4 + (unat a mod 4 * 16 + n) mod 64 div 16) = a"
  if "n < 16" for a :: byte
proof -
  have a: "unat a < 256" using unsigned_less [where 'b = 8 and 'a = nat, of a] by simp
  have "unat a div 4 mod 64 = unat a div 4" using a by simp
  moreover have "(unat a mod 4 * 16 + n) mod 64 div 16 = unat a mod 4"
    using that by simp
  ultimately show ?thesis by (simp add: byte_of_def)
qed

lemma byte_join_mid:
  "byte_of ((k * 16 + unat b div 16) mod 64 mod 16 * 16 + (unat b mod 16 * 4 + n) mod 64 div 4) = b"
  if "n < 4" for b :: byte
proof -
  have b: "unat b < 256" using unsigned_less [where 'b = 8 and 'a = nat, of b] by simp
  have "(k * 16 + unat b div 16) mod 64 mod 16 = unat b div 16"
    using b by (simp add: mod_mod_cancel)
  moreover have "(unat b mod 16 * 4 + n) mod 64 div 4 = unat b mod 16"
    using that by simp
  ultimately show ?thesis by (simp add: byte_of_def)
qed

lemma byte_join_low:
  "byte_of ((k * 4 + unat c div 64) mod 64 mod 4 * 64 + unat c mod 64) = c" for c :: byte
proof -
  have c: "unat c < 256" using unsigned_less [where 'b = 8 and 'a = nat, of c] by simp
  have "(k * 4 + unat c div 64) mod 64 mod 4 = unat c div 64"
    using c by (simp add: mod_mod_cancel)
  then show ?thesis by (simp add: byte_of_def)
qed

lemma b64_div_small: "unat b div 16 < 16" "unat c div 64 < 4" for b c :: byte
  using unsigned_less [where 'b = 8 and 'a = nat, of b] unsigned_less [where 'b = 8 and 'a = nat, of c]
  by (simp_all add: less_mult_imp_div_less)

lemma b64u_decode_b64u: "b64u_decode (b64u raw) = Some raw"
proof -
  have "\<exists>ns. those (map b64_val (b64_body raw)) = Some ns \<and> b64_read ns = Some raw"
  proof (induction raw rule: b64_body.induct)
    case (2 a)
    then show ?case using byte_join [of 0 a] by simp
  next
    case (3 a b)
    then show ?case
      using byte_join [of "unat b div 16" a] byte_join_mid [of 0 "unat a mod 4" b] b64_div_small by simp
  next
    case (4 a b c rest)
    then obtain ns where "those (map b64_val (b64_body rest)) = Some ns" "b64_read ns = Some rest"
      by blast
    then show ?case
      using byte_join [of "unat b div 16" a] byte_join_mid [of "unat c div 64" "unat a mod 4" b]
        byte_join_low [of "unat b mod 16" c] b64_div_small by simp
  qed simp
  then show ?thesis by (auto simp: b64u_decode_def b64u_body)
qed

interpretation b64url: codec "\<lambda>_. True" b64u b64u_decode
  by unfold_locales (rule b64u_decode_b64u)

lemma b64u_safe: "list_all b64_safe (b64u raw)"
  by (simp add: b64u_body b64_body_safe)

lemma b64u_eq_iff: "b64u a = b64u b \<longleftrightarrow> a = b"
  using b64u_decode_b64u by (metis option.inject)

lemma b64u_Nil_iff: "b64u raw = [] \<longleftrightarrow> raw = []"
  unfolding b64u_body by (cases raw rule: b64_body.cases) auto

text \<open>A known answer.\<close>

lemma sha256_empty:
  "hexdigest (sha256 []) = ''e3b0c44298fc1c149afbf4c8996fb92427ae41e4649b934ca495991b7852b855''"
  by code_simp

end
