(* ===== verification/Grant.thy ===== *)
theory Grant
  imports Py_Hash Complex_Main
begin

text \<open>
  Grants for held streams (packaging/m0serve/src/m0serve/grant.py): what a view signs so
  that a mount can verify a stream URL alone. The clock is a rational number of seconds,
  the environment a map; the texts of the errors are left out.
\<close>

definition GRANT_VERSION :: string where "GRANT_VERSION = ''v1''"
definition KEY_ENV :: string where "KEY_ENV = ''M0_GRANT_KEY''"
definition DEFAULT_TTL :: int where "DEFAULT_TTL = 3600"
definition KID_CHARS :: nat where "KID_CHARS = 8"
definition UNBOUND :: string where "UNBOUND = ''-''"

datatype grant_error = KeyNotSet string | ChannelRefused ustr | NotEncodable ustr

datatype session = NoSession | SessionStr ustr | SessionBytes bytes

definition channel_char :: "nat \<Rightarrow> bool" where
  "channel_char c \<longleftrightarrow> (65 \<le> c \<and> c \<le> 90) \<or> (97 \<le> c \<and> c \<le> 122) \<or> (48 \<le> c \<and> c \<le> 57) \<or>
     c = 95 \<or> c = 58 \<or> c = 45"

definition channel_word :: "ustr \<Rightarrow> bool" where
  "channel_word s \<longleftrightarrow> 1 \<le> length s \<and> length s \<le> 64 \<and> list_all channel_char s"

text \<open>\<open>CHANNEL_RE.match(s)\<close>: \<open>$\<close> matches at the end, or before a newline that ends it.\<close>

definition channel_re :: "ustr \<Rightarrow> bool" where
  "channel_re s \<longleftrightarrow> channel_word s \<or> (s \<noteq> [] \<and> last s = 10 \<and> channel_word (butlast s))"

definition key_id :: "bytes \<Rightarrow> string" where
  "key_id key = take KID_CHARS (hexdigest (sha256 key))"

definition binding_of :: "bytes \<Rightarrow> string" where
  "binding_of raw = b64u (take 16 (sha256 raw))"

definition session_binding :: "session \<Rightarrow> grant_error + string" where
  "session_binding s =
     (case s of
        NoSession \<Rightarrow> Inr UNBOUND
      | SessionBytes b \<Rightarrow> Inr (binding_of b)
      | SessionStr u \<Rightarrow> (case utf8_encode u of None \<Rightarrow> Inl (NotEncodable u) | Some b \<Rightarrow> Inr (binding_of b)))"

definition load_key :: "(string \<rightharpoonup> ustr) \<Rightarrow> string \<Rightarrow> grant_error + bytes" where
  "load_key env name =
     (case env name of
        None \<Rightarrow> Inl (KeyNotSet name)
      | Some v \<Rightarrow>
          if v = [] then Inl (KeyNotSet name)
          else (case utf8_encode v of None \<Rightarrow> Inl (NotEncodable v) | Some b \<Rightarrow> Inr b))"

text \<open>\<open>int(x)\<close> of a number of seconds: towards zero.\<close>

definition py_trunc :: "rat \<Rightarrow> int" where
  "py_trunc x = (if x < 0 then - \<lfloor>- x\<rfloor> else \<lfloor>x\<rfloor>)"

definition signed_part :: "string list \<Rightarrow> string" where
  "signed_part fields = join ''.'' fields"

definition grant_sig :: "bytes \<Rightarrow> string \<Rightarrow> string" where
  "grant_sig key fields_text = b64u (hmac_sha256 key (latin1 fields_text))"

definition ascii_of :: "ustr \<Rightarrow> string" where
  "ascii_of s = map char_of s"

definition issue ::
    "(string \<rightharpoonup> ustr) \<Rightarrow> ustr \<Rightarrow> session \<Rightarrow> int \<Rightarrow> bytes option \<Rightarrow> rat \<Rightarrow> grant_error + string" where
  "issue env channel session ttl key now =
     (if \<not> channel_re channel then Inl (ChannelRefused channel)
      else
        (case (case key of Some k \<Rightarrow> Inr k | None \<Rightarrow> load_key env KEY_ENV) of
           Inl e \<Rightarrow> Inl e
         | Inr k \<Rightarrow>
             let expiry = py_trunc (now + of_int ttl)
             in (case session_binding session of
                   Inl e \<Rightarrow> Inl e
                 | Inr sb \<Rightarrow>
                     let fields_text = signed_part [GRANT_VERSION, key_id k, show_int expiry, ascii_of channel, sb]
                     in Inr (fields_text @ ''.'' @ grant_sig k fields_text))))"

text \<open>\<open>quote(s, safe='-_.:')\<close> on ASCII: letters, digits and \<open>_.-~:\<close> stand, the rest as \<open>%XX\<close>.\<close>

definition quote_safe :: "char \<Rightarrow> bool" where
  "quote_safe c \<longleftrightarrow> channel_char (of_char c) \<or> c = CHR ''.'' \<or> c = CHR ''~''"

definition hex_upper :: "nat \<Rightarrow> char" where
  "hex_upper n = ''0123456789ABCDEF'' ! (n mod 16)"

definition url_quote :: "string \<Rightarrow> string" where
  "url_quote s = concat (map (\<lambda>c. if quote_safe c then [c]
     else [CHR ''%'', hex_upper (of_char c div 16), hex_upper (of_char c)]) s)"

definition stream_url ::
    "(string \<rightharpoonup> ustr) \<Rightarrow> string \<Rightarrow> ustr \<Rightarrow> session \<Rightarrow> int \<Rightarrow> bytes option \<Rightarrow> rat \<Rightarrow> grant_error + string" where
  "stream_url env prefix channel session ttl key now =
     map_sum id (\<lambda>g. rstrip_of (CHR ''/'') prefix @ ''/stream?g='' @ url_quote g)
       (issue env channel session ttl key now)"

section \<open>The format a mount verifies\<close>

text \<open>
  The grant as the module's documentation defines it: six fields, the version, the key's
  id, the signature over the first five, not expired, a channel of the stated alphabet,
  and the session's binding or none. This is the promise \<open>issue\<close> is held to.
\<close>

definition grant_verify :: "bytes \<Rightarrow> string \<Rightarrow> int \<Rightarrow> string \<Rightarrow> string option" where
  "grant_verify key binding t g =
     (case split_on (CHR ''.'') g of
        [v, kid, expiry, ch, sb, sig] \<Rightarrow>
          if v = GRANT_VERSION \<and> kid = key_id key \<and> sig = grant_sig key (signed_part [v, kid, expiry, ch, sb]) \<and>
             (case py_int expiry of None \<Rightarrow> False | Some e \<Rightarrow> t \<le> e) \<and>
             channel_word (str_of ch) \<and> (sb = UNBOUND \<or> sb = binding)
          then Some ch else None
      | _ \<Rightarrow> None)"

section \<open>The fields hold no dot\<close>

lemma no_dot_b64u: "CHR ''.'' \<notin> set (b64u raw)"
  using b64u_safe [of raw] b64_safe_not by (auto simp: list_all_iff)

lemma no_dot_show_nat: "CHR ''.'' \<notin> set (show_nat n)"
  using show_nat_digits [of n] digit_char_facts(5) [of "CHR ''.''"]
  by (auto simp: list_all_iff digit_val_def)

lemma no_dot_show_int: "CHR ''.'' \<notin> set (show_int i)"
  using no_dot_show_nat by (simp add: show_int_def)

lemma no_dot_hexdigest: "CHR ''.'' \<notin> set (hexdigest b)"
  using hexdigest_all [of "\<lambda>c. c \<noteq> CHR ''.''" b] by (auto simp: hex_digits_def list_all_iff)

lemma no_dot_key_id: "CHR ''.'' \<notin> set (key_id k)"
  using no_dot_hexdigest [of "sha256 k"] by (auto simp: key_id_def dest: in_set_takeD)

lemma channel_char_ascii: "channel_char c \<Longrightarrow> c < 128 \<and> c \<noteq> 46"
  by (auto simp: channel_char_def)

lemma ascii_of_reads: "list_all (\<lambda>c. c < 256) s \<Longrightarrow> str_of (ascii_of s) = s"
  by (induction s) (simp_all add: str_of_def ascii_of_def)

lemma channel_re_small: "channel_re s \<Longrightarrow> list_all (\<lambda>c. c < 128 \<and> c \<noteq> 46) s"
proof -
  assume "channel_re s"
  then have "list_all (\<lambda>c. channel_char c \<or> c = 10) s"
    by (cases s rule: rev_cases) (auto simp: channel_re_def channel_word_def list_all_iff)
  moreover have "channel_char c \<or> c = 10 \<Longrightarrow> c < 128 \<and> c \<noteq> 46" for c
    using channel_char_ascii [of c] by auto
  ultimately show ?thesis by (simp add: list_all_iff)
qed

lemma no_dot_ascii: "list_all (\<lambda>c. c < 128 \<and> c \<noteq> 46) s \<Longrightarrow> CHR ''.'' \<notin> set (ascii_of s)"
  by (induction s) (auto simp: ascii_of_def dest!: arg_cong [where f = "of_char :: char \<Rightarrow> nat"])

lemma no_dot_binding: "session_binding s = Inr sb \<Longrightarrow> CHR ''.'' \<notin> set sb"
  using no_dot_b64u by (auto simp: session_binding_def binding_of_def UNBOUND_def split: session.splits option.splits)

lemmas no_dots = no_dot_b64u no_dot_show_int no_dot_key_id

lemma list_all_join: "list_all P sep \<Longrightarrow> list_all (list_all P) ws \<Longrightarrow> list_all P (join sep ws)"
  by (induction sep ws rule: join.induct) simp_all

lemma issue_fields:
  assumes "issue env ch session ttl (Some key) now = Inr g"
  obtains sb where "session_binding session = Inr sb" and "channel_re ch" and
    "split_on (CHR ''.'') g = [GRANT_VERSION, key_id key, show_int (py_trunc (now + of_int ttl)), ascii_of ch, sb,
       grant_sig key (signed_part [GRANT_VERSION, key_id key, show_int (py_trunc (now + of_int ttl)), ascii_of ch, sb])]"
proof -
  from assms obtain sb where sb: "session_binding session = Inr sb" and ch: "channel_re ch"
    and g: "g = signed_part [GRANT_VERSION, key_id key, show_int (py_trunc (now + of_int ttl)), ascii_of ch, sb]
      @ ''.'' @ grant_sig key (signed_part [GRANT_VERSION, key_id key, show_int (py_trunc (now + of_int ttl)), ascii_of ch, sb])"
    by (auto simp: issue_def Let_def split: if_splits sum.splits)
  have "CHR ''.'' \<notin> set GRANT_VERSION" "CHR ''.'' \<notin> set (ascii_of ch)" "CHR ''.'' \<notin> set sb"
    using no_dot_ascii [OF channel_re_small [OF ch]] no_dot_binding [OF sb] by (simp_all add: GRANT_VERSION_def)
  then have "split_on (CHR ''.'') g = [GRANT_VERSION, key_id key, show_int (py_trunc (now + of_int ttl)), ascii_of ch, sb,
       grant_sig key (signed_part [GRANT_VERSION, key_id key, show_int (py_trunc (now + of_int ttl)), ascii_of ch, sb])]"
    using no_dots by (simp add: g signed_part_def split_on_append split_on_id grant_sig_def)
  with sb ch that show ?thesis by blast
qed



text \<open>
  The URL carries the grant as it is: nothing of a grant for a channel of the alphabet
  needs quoting, so what follows \<open>?g=\<close> is the grant.
\<close>

lemma stream_url_carries_grant:
  assumes "stream_url env prefix ch session ttl (Some key) now = Inr url" and "channel_word ch"
  shows "\<exists>g. issue env ch session ttl (Some key) now = Inr g \<and>
    url = rstrip_of (CHR ''/'') prefix @ ''/stream?g='' @ g"
proof -
  from assms(1) obtain g where g: "issue env ch session ttl (Some key) now = Inr g"
    and url: "url = rstrip_of (CHR ''/'') prefix @ ''/stream?g='' @ url_quote g"
    by (cases "issue env ch session ttl (Some key) now") (auto simp: stream_url_def)
  obtain sb where sb: "session_binding session = Inr sb" and
    f: "split_on (CHR ''.'') g = [GRANT_VERSION, key_id key, show_int (py_trunc (now + of_int ttl)), ascii_of ch, sb,
       grant_sig key (signed_part [GRANT_VERSION, key_id key, show_int (py_trunc (now + of_int ttl)), ascii_of ch, sb])]"
    using issue_fields [OF g] by blast
  let ?ok = "list_all quote_safe"
  have b64: "?ok (b64u r)" for r
    using b64u_safe [of r]
    by (auto simp: list_all_iff b64_safe_def b64_val_def quote_safe_def channel_char_def Let_def split: if_splits)
  have digits: "?ok (show_nat n)" for n
  proof -
    have "quote_safe c" if "digit_char c" for c
      using that by (auto simp: digit_char_def quote_safe_def channel_char_def)
    then show ?thesis using show_nat_digits [of n] by (auto simp: list_all_iff)
  qed
  have ints: "?ok (show_int i)" for i
    using digits by (simp add: show_int_def quote_safe_def channel_char_def)
  have hex: "?ok (hexdigest b)" for b
    by (rule hexdigest_all) (simp add: hex_digits_def quote_safe_def channel_char_def)
  have "?ok (ascii_of ch)"
    using assms(2) channel_char_ascii
    by (fastforce simp: ascii_of_def channel_word_def quote_safe_def list_all_iff)
  moreover have "?ok sb"
    using sb b64 by (auto simp: session_binding_def binding_of_def UNBOUND_def quote_safe_def channel_char_def
        split: session.splits option.splits)
  moreover have "?ok (key_id key)"
    using hex [of "sha256 key"] by (auto simp: key_id_def list_all_iff dest: in_set_takeD)
  moreover have "?ok GRANT_VERSION" "quote_safe (CHR ''.'')"
    by (simp_all add: GRANT_VERSION_def quote_safe_def channel_char_def)
  ultimately have "list_all quote_safe (join ''.'' (split_on (CHR ''.'') g))"
    unfolding f using b64 ints by (intro list_all_join) (simp_all add: grant_sig_def)
  then have "?ok g" by simp
  then have "url_quote g = g" by (induction g) (auto simp: url_quote_def)
  with g url show ?thesis by simp
qed

lemma stream_url_carries_grant_witness:
  "\<exists>g. issue Map.empty (str_of ''news'') NoSession 60 (Some [7]) 1000 = Inr g \<and>
     stream_url Map.empty ''/live/'' (str_of ''news'') NoSession 60 (Some [7]) 1000
       = Inr (''/live/stream?g='' @ g)"
proof -
  have w: "channel_word (str_of ''news'')"
    by (simp add: channel_word_def channel_char_def str_of_def)
  obtain url where u: "stream_url Map.empty ''/live/'' (str_of ''news'') NoSession 60 (Some [7]) 1000 = Inr url"
    using w by (simp add: stream_url_def issue_def channel_re_def session_binding_def Let_def)
  have "rstrip_of (CHR ''/'') ''/live/'' = ''/live''" by (simp add: rstrip_of_def)
  then show ?thesis using stream_url_carries_grant [OF u w] u by auto
qed

text \<open>
  A bound grant stays bound: no session's binding is the mark of an unbound grant, and
  two sessions share one only where the first 16 bytes of their SHA-256 agree.
\<close>

lemma binding_separates:
  "(session_binding s = Inr UNBOUND \<longleftrightarrow> s = NoSession) \<and>
   (session_binding (SessionBytes a) = session_binding (SessionBytes b)
      \<longleftrightarrow> take 16 (sha256 a) = take 16 (sha256 b))"
proof -
  have "length (b64u (take 16 (sha256 r))) \<noteq> 1" for r
  proof
    assume "length (b64u (take 16 (sha256 r))) = 1"
    then obtain c where "b64_body (take 16 (sha256 r)) = [c]"
      by (auto simp: b64u_body length_Suc_conv)
    then show False
      by (cases "take 16 (sha256 r)" rule: b64_body.cases) auto
  qed
  then have "b64u (take 16 (sha256 r)) \<noteq> UNBOUND" for r
    by (metis One_nat_def UNBOUND_def length_Cons list.size(3))
  then show ?thesis
    by (auto simp: session_binding_def binding_of_def b64u_eq_iff split: session.splits option.splits)
qed

text \<open>
  The one channel the format refuses and \<open>issue\<close> signs: a channel of the alphabet with
  a newline at its end, because \<open>$\<close> matches before it. The grant never verifies.
\<close>

lemma issue_signs_newline:
  assumes "channel_word ch" and "\<forall>u. session \<noteq> SessionStr u"
  shows "\<exists>g. issue env (ch @ [10]) session ttl (Some key) now = Inr g \<and>
    (\<forall>binding t. grant_verify key binding t g = None)"
proof -
  have re: "channel_re (ch @ [10])" using assms(1) by (simp add: channel_re_def)
  obtain g where g: "issue env (ch @ [10]) session ttl (Some key) now = Inr g"
    using re assms(2) by (cases session) (auto simp: issue_def session_binding_def Let_def)
  obtain sb where
    f: "split_on (CHR ''.'') g = [GRANT_VERSION, key_id key, show_int (py_trunc (now + of_int ttl)),
       ascii_of (ch @ [10]), sb,
       grant_sig key (signed_part [GRANT_VERSION, key_id key, show_int (py_trunc (now + of_int ttl)), ascii_of (ch @ [10]), sb])]"
    using issue_fields [OF g] by blast
  have "\<not> channel_word (str_of (ascii_of (ch @ [10])))"
    by (simp add: channel_word_def str_of_def ascii_of_def channel_char_def)
  then show ?thesis using g by (simp add: grant_verify_def f)
qed

lemma issue_signs_newline_witness:
  "\<exists>g. issue Map.empty (str_of ''news'' @ [10]) NoSession 60 (Some [7]) 1000 = Inr g \<and>
    grant_verify [7] '''' 0 g = None"
proof -
  have w: "channel_word (str_of ''news'')"
    by (simp add: channel_word_def channel_char_def str_of_def)
  show ?thesis
    using issue_signs_newline [OF w, of NoSession Map.empty 60 "[7]" 1000] by auto
qed

end
