(* ===== verification/M0pub.thy ===== *)
theory M0pub
  imports Bus_Subs
begin

text \<open>
  Publishing from Python (packaging/m0serve/src/m0serve/m0pub.py): the bus descriptors and
  the shared page a process verifies before it uses them, the numbering of events, the SSE
  frame, the datagram, and the NOTIFY payload. What the operating system and the C library
  answer is a parameter.
\<close>

definition MAX_CHANNEL :: nat where "MAX_CHANNEL = 65535"
definition NO_EVENT_ID :: int where "NO_EVENT_ID = -1"
definition PG_NOTIFY_CHANNEL :: string where "PG_NOTIFY_CHANNEL = ''m0''"
definition PG_NOTIFY_MAX_BYTES :: nat where "PG_NOTIFY_MAX_BYTES = 7999"
definition PAGE_MAGIC :: int where "PAGE_MAGIC = 0x6D30706167650001"
definition PAGE_MAGIC_OFFSET :: nat where "PAGE_MAGIC_OFFSET = 16"

section \<open>What the process finds\<close>

record fd_stat =
  st_dev :: int
  st_ino :: int
  st_is_sock :: bool
  st_size :: nat

text \<open>
  \<open>fstat\<close> fails with \<open>None\<close>; \<open>mapped fd n\<close> is a mapping of \<open>n\<close> bytes with its address;
  \<open>readable\<close> is \<open>_readable\<close>, the kernel's copy into a pipe; \<open>peek\<close> the 64-bit word at an
  address; \<open>has_op\<close> whether a library loads and exports the fetch-and-add.
\<close>

record process =
  environ_of :: "string \<rightharpoonup> string"
  pid_of :: int
  fstat :: "int \<Rightarrow> fd_stat option"
  mapped :: "int \<Rightarrow> nat \<Rightarrow> (bytes \<times> int) option"
  readable :: "int \<Rightarrow> nat \<Rightarrow> bool"
  peek :: "int \<Rightarrow> int"
  has_op :: "string \<Rightarrow> bool"
  is_darwin :: bool
  accepts :: "int \<Rightarrow> bool"

datatype counter = NotLooked | NoCounter | Counter string int

record pub_state =
  ps_counter :: counter
  ps_fds :: "(int \<times> int list) option"
  ps_warned :: "string list"

definition env_text :: "process \<Rightarrow> string \<Rightarrow> string" where
  "env_text p k = (case environ_of p k of None \<Rightarrow> [] | Some v \<Rightarrow> v)"

definition ints_of :: "string \<Rightarrow> int list" where
  "ints_of raw = List.map_filter py_int (split_on (CHR '','') raw)"

definition identity_of :: "string \<Rightarrow> (int \<times> int) option" where
  "identity_of part =
     (case split_on (CHR '':'') part of
        [dev, ino] \<Rightarrow> (case (py_int dev, py_int ino) of (Some d, Some i) \<Rightarrow> Some (d, i) | _ \<Rightarrow> None)
      | _ \<Rightarrow> None)"

definition identities_of :: "string \<Rightarrow> (int \<times> int) option list" where
  "identities_of raw = map identity_of (split_on (CHR '','') raw)"

text \<open>The loop of \<open>bus_write_fds\<close>: the \<open>i\<close>-th number is kept if it is what its identity says.\<close>

definition is_bus_fd :: "process \<Rightarrow> (int \<times> int) option list option \<Rightarrow> nat \<Rightarrow> int \<Rightarrow> bool" where
  "is_bus_fd p ids i fd =
     (case fstat p fd of
        None \<Rightarrow> False
      | Some st \<Rightarrow>
          (case ids of
             None \<Rightarrow> st_is_sock st
           | Some l \<Rightarrow> i < length l \<and> l ! i = Some (st_dev st, st_ino st)))"

definition verified_fds :: "process \<Rightarrow> int list" where
  "verified_fds p =
     (let named = ints_of (env_text p ''M0_BUS_WRITE_FDS'');
          raw_ids = env_text p ''M0_BUS_WRITE_IDS'';
          ids = (if raw_ids = [] then None else Some (identities_of raw_ids))
      in map snd (filter (\<lambda>(i, fd). is_bus_fd p ids i fd) (enumerate 0 named)))"

definition bus_write_fds :: "process \<Rightarrow> pub_state \<Rightarrow> int list \<times> pub_state" where
  "bus_write_fds p s =
     (case ps_fds s of
        Some (pid, fds) \<Rightarrow>
          if pid = pid_of p then (fds, s)
          else (verified_fds p, s\<lparr>ps_fds := Some (pid_of p, verified_fds p)\<rparr>)
      | None \<Rightarrow> (verified_fds p, s\<lparr>ps_fds := Some (pid_of p, verified_fds p)\<rparr>))"

definition core_lib_paths :: "process \<Rightarrow> string list" where
  "core_lib_paths p =
     (let env = env_text p ''M0_CORE_LIB'';
          ext = (if is_darwin p then ''dylib'' else ''so'')
      in if env \<noteq> [] then [env]
         else [''packages/m0-core/libm0core.'' @ ext, ''libm0core.'' @ ext])"

definition page_fd :: "process \<Rightarrow> int option" where
  "page_fd p =
     (case py_int (env_text p ''M0_SHARED_ID_FD'') of
        None \<Rightarrow> None
      | Some fd \<Rightarrow> (case fstat p fd of None \<Rightarrow> None | Some _ \<Rightarrow> Some fd))"

definition child_fds :: "process \<Rightarrow> pub_state \<Rightarrow> int list \<times> pub_state" where
  "child_fds p s =
     (let (fds, s1) = bus_write_fds p s
      in (fds @ (case page_fd p of None \<Rightarrow> [] | Some page \<Rightarrow> [page]), s1))"

definition word_at :: "nat \<Rightarrow> bytes \<Rightarrow> int" where
  "word_at off b = from_le_signed (take 8 (drop off b))"

text \<open>\<open>_page_from_fd\<close> and \<open>_page_at_address\<close>: an address, or 0.\<close>

definition page_from_fd :: "process \<Rightarrow> int" where
  "page_from_fd p =
     (case page_fd p of
        None \<Rightarrow> 0
      | Some fd \<Rightarrow>
          (case fstat p fd of
             None \<Rightarrow> 0
           | Some st \<Rightarrow>
               if st_size st < PAGE_MAGIC_OFFSET + 8 then 0
               else (case mapped p fd (st_size st) of
                       None \<Rightarrow> 0
                     | Some (page, addr) \<Rightarrow>
                         if word_at PAGE_MAGIC_OFFSET page \<noteq> PAGE_MAGIC then 0 else addr)))"

definition page_at_address :: "process \<Rightarrow> int" where
  "page_at_address p =
     (case py_int (env_text p ''M0_SHARED_ID_ADDR'') of
        None \<Rightarrow> 0
      | Some addr \<Rightarrow>
          if addr \<le> 0 \<or> \<not> readable p addr (PAGE_MAGIC_OFFSET + 8) then 0
          else if peek p (addr + int PAGE_MAGIC_OFFSET) \<noteq> PAGE_MAGIC then 0
          else addr)"

definition no_page_warning :: string where
  "no_page_warning = ''m0pub: M0_SHARED_ID_FD/M0_SHARED_ID_ADDR do not name the server's page in this process (a child process not given m0pub.child_fds()?); publishing unnumbered frames.''"

definition no_lib_warning :: "string list \<Rightarrow> string" where
  "no_lib_warning paths = ''m0pub: M0_SHARED_ID_ADDR is set but libm0core could not be loaded ('' @ join '', '' paths @
     ''); publishing unnumbered frames. Set M0_CORE_LIB to the shared library built by `poe build-ffi`.''"

definition resolve_counter :: "process \<Rightarrow> counter \<times> string list" where
  "resolve_counter p =
     (if env_text p ''M0_SHARED_ID_ADDR'' = [] \<and> env_text p ''M0_SHARED_ID_FD'' = [] then (NoCounter, [])
      else
        let from_fd = page_from_fd p;
            addr = (if from_fd \<noteq> 0 then from_fd else page_at_address p)
        in if addr = 0 then (NoCounter, [no_page_warning])
           else (case find (has_op p) (core_lib_paths p) of
                   Some path \<Rightarrow> (Counter path addr, [])
                 | None \<Rightarrow> (NoCounter, [no_lib_warning (core_lib_paths p)])))"

text \<open>
  \<open>next_event_id\<close>, over the value \<open>n\<close> of the shared slot, which the fetch-and-add returns
  and increments.
\<close>

definition looked :: "process \<Rightarrow> pub_state \<Rightarrow> pub_state" where
  "looked p s =
     (if ps_counter s = NotLooked
      then s\<lparr>ps_counter := fst (resolve_counter p), ps_warned := ps_warned s @ snd (resolve_counter p)\<rparr>
      else s)"

definition next_event_id :: "process \<Rightarrow> pub_state \<Rightarrow> int \<Rightarrow> int \<times> pub_state \<times> int" where
  "next_event_id p s n =
     (case ps_counter (looked p s) of
        Counter _ _ \<Rightarrow> (n + 1, looked p s, n + 1)
      | _ \<Rightarrow> (NO_EVENT_ID, looked p s, n))"

section \<open>The SSE frame\<close>

definition data_lines :: "ustr \<Rightarrow> ustr list" where
  "data_lines data = (if splitlines data = [] then [[]] else splitlines data)"

definition sse_text :: "ustr \<Rightarrow> ustr option \<Rightarrow> int \<Rightarrow> ustr" where
  "sse_text data event event_id =
     join [10] ((if event_id \<noteq> NO_EVENT_ID then [str_of ''id: '' @ str_of (show_int event_id)] else []) @
       (case event of None \<Rightarrow> [] | Some e \<Rightarrow> if e = [] then [] else [str_of ''event: '' @ e]) @
       map (\<lambda>l. str_of ''data: '' @ l) (data_lines data)) @ [10, 10]"

definition sse_event :: "ustr \<Rightarrow> ustr option \<Rightarrow> int \<Rightarrow> bytes option" where
  "sse_event data event event_id = utf8_encode (sse_text data event event_id)"

section \<open>Publishing\<close>

datatype pub_error = PubEncodeError | PubStructError

text \<open>
  \<open>publish_frame\<close>: the count of channels written or what it raises, and the datagrams
  handed to \<open>os.write\<close>.
\<close>

definition publish_frame ::
    "process \<Rightarrow> ustr \<Rightarrow> bytes \<Rightarrow> int \<Rightarrow> pub_state \<Rightarrow> (pub_error + nat) \<times> (int \<times> bytes) list \<times> pub_state" where
  "publish_frame p channel frame event_id s =
     (if length frame > MAX_FRAME then (Inr 0, [], s)
      else (case utf8_encode channel of
              None \<Rightarrow> (Inl PubEncodeError, [], s)
            | Some url \<Rightarrow>
                if take 1 url = [1] \<or> length url > MAX_CHANNEL then (Inr 0, [], s)
                else if event_id < - (2 ^ 63) \<or> 2 ^ 63 \<le> event_id then (Inl PubStructError, [], s)
                else let (fds, s1) = bus_write_fds p s;
                         writes = map (\<lambda>fd. (fd, pack_frame event_id url frame)) (filter (accepts p) fds)
                     in (Inr (length writes), writes, s1)))"

definition publish_with_id ::
    "process \<Rightarrow> ustr \<Rightarrow> ustr \<Rightarrow> ustr option \<Rightarrow> pub_state \<Rightarrow> int
      \<Rightarrow> (pub_error + (nat \<times> int)) \<times> (int \<times> bytes) list \<times> pub_state \<times> int" where
  "publish_with_id p channel data event s n =
     (case next_event_id p s n of
        (event_id, s1, n1) \<Rightarrow>
          (case sse_event data event event_id of
             None \<Rightarrow> (Inl PubEncodeError, [], s1, n1)
           | Some frame \<Rightarrow>
               (case publish_frame p channel frame event_id s1 of
                  (r, writes, s2) \<Rightarrow> (map_sum id (\<lambda>k. (k, event_id)) r, writes, s2, n1))))"

definition publish ::
    "process \<Rightarrow> ustr \<Rightarrow> ustr \<Rightarrow> ustr option \<Rightarrow> pub_state \<Rightarrow> int
      \<Rightarrow> (pub_error + nat) \<times> (int \<times> bytes) list \<times> pub_state \<times> int" where
  "publish p channel data event s n =
     (case publish_with_id p channel data event s n of
        (r, writes, s1, n1) \<Rightarrow> (map_sum id fst r, writes, s1, n1))"

section \<open>NOTIFY\<close>

text \<open>\<open>json.dumps\<close> of a string: UTF-16 units, everything but printable ASCII escaped.\<close>

definition utf16_units :: "nat \<Rightarrow> nat list" where
  "utf16_units c =
     (if c < 0x10000 then [c]
      else [0xD800 + (c - 0x10000) div 1024, 0xDC00 + (c - 0x10000) mod 1024])"

definition hex4 :: "nat \<Rightarrow> ustr" where
  "hex4 n = map (\<lambda>d. (if d < 10 then 48 + d else 87 + d)) [n div 4096 mod 16, n div 256 mod 16, n div 16 mod 16, n mod 16]"

definition json_unit :: "nat \<Rightarrow> ustr" where
  "json_unit u =
     (if u = 34 then [92, 34] else if u = 92 then [92, 92]
      else if u = 10 then [92, 110] else if u = 13 then [92, 114] else if u = 9 then [92, 116]
      else if u = 12 then [92, 102] else if u = 8 then [92, 98]
      else if 32 \<le> u \<and> u \<le> 126 then [u]
      else [92, 117] @ hex4 u)"

definition json_string :: "ustr \<Rightarrow> ustr" where
  "json_string s = [34] @ concat (map json_unit (concat (map utf16_units s))) @ [34]"

definition notify_payload :: "ustr \<Rightarrow> ustr \<Rightarrow> ustr option \<Rightarrow> ustr" where
  "notify_payload channel data event =
     str_of ''{'' @ json_string (str_of ''channel'') @ str_of '':'' @ json_string channel @
     str_of '','' @ json_string (str_of ''event'') @ str_of '':'' @
       json_string (case event of None \<Rightarrow> [] | Some e \<Rightarrow> e) @
     str_of '','' @ json_string (str_of ''data'') @ str_of '':'' @ json_string data @ str_of ''}''"

text \<open>The statement and its parameters, or the size that \<open>ValueError\<close> names.\<close>

definition notify_sql :: "ustr \<Rightarrow> ustr \<Rightarrow> ustr option \<Rightarrow> nat + (string \<times> string \<times> ustr)" where
  "notify_sql channel data event =
     (let payload = notify_payload channel data event;
          size = (case utf8_encode payload of None \<Rightarrow> 0 | Some b \<Rightarrow> length b)
      in if size > PG_NOTIFY_MAX_BYTES then Inl size
         else Inr (''SELECT pg_notify(%s, %s)'', PG_NOTIFY_CHANNEL, payload))"

end
