(* ===== verification/M0pub_Props.thy ===== *)
theory M0pub_Props
  imports M0pub Channel_Props
begin

text \<open>
  What publishing promises: an event read back by a client as it was given, descriptors and
  pages used only when they are the server's, ids that never repeat, and a NOTIFY payload
  that is the JSON the listener reads.
\<close>

section \<open>What an EventSource reads\<close>

text \<open>
  The event stream format of the HTML standard: lines end at CR LF, LF or CR; a blank line
  dispatches what the \<open>id\<close>, \<open>event\<close> and \<open>data\<close> fields before it gave.
\<close>

record sse_msg =
  m_id :: "ustr option"
  m_event :: ustr
  m_data :: "ustr list"

fun lf_only :: "ustr \<Rightarrow> ustr" where
  "lf_only [] = []"
| "lf_only [c] = [if c = 13 then 10 else c]"
| "lf_only (c # d # cs) =
     (if c = 13 \<and> d = 10 then 10 # lf_only cs
      else (if c = 13 then 10 else c) # lf_only (d # cs))"

definition sse_field :: "ustr \<Rightarrow> sse_msg \<Rightarrow> sse_msg" where
  "sse_field l m =
     (let (name, v) = (case cut_at [58] l of None \<Rightarrow> (l, [])
            | Some (a, b) \<Rightarrow> (a, if take 1 b = [32] then drop 1 b else b))
      in if name = str_of ''data'' then m\<lparr>m_data := m_data m @ [v]\<rparr>
         else if name = str_of ''event'' then m\<lparr>m_event := v\<rparr>
         else if name = str_of ''id'' \<and> 0 \<notin> set v then m\<lparr>m_id := Some v\<rparr>
         else m)"

fun sse_lines :: "ustr list \<Rightarrow> sse_msg \<Rightarrow> sse_msg option" where
  "sse_lines [] m = None"
| "sse_lines (l # ls) m =
     (if l = [] then (if m_data m = [] then None else Some m) else sse_lines ls (sse_field l m))"

definition no_msg :: sse_msg where
  "no_msg = \<lparr>m_id = None, m_event = [], m_data = []\<rparr>"

definition sse_read :: "ustr \<Rightarrow> sse_msg option" where
  "sse_read t = sse_lines (split_on 10 (lf_only t)) no_msg"

lemma lf_only_same: "13 \<notin> set t \<Longrightarrow> lf_only t = t"
  by (induction t rule: lf_only.induct) auto

lemma str_of_simps: "str_of [] = []" "str_of (c # cs) = of_char c # str_of cs"
  by (simp_all add: str_of_def)

lemma starts_colon: "starts_with [58] (x # xs) \<longleftrightarrow> x = 58"
  by (auto simp: starts_with_def)

lemma sse_field_data: "sse_field (str_of ''data: '' @ l) m = m\<lparr>m_data := m_data m @ [l]\<rparr>"
  by (simp add: sse_field_def starts_colon str_of_simps)

lemma sse_field_event: "sse_field (str_of ''event: '' @ l) m = m\<lparr>m_event := l\<rparr>"
  by (simp add: sse_field_def starts_colon str_of_simps)

lemma sse_field_id: "0 \<notin> set l \<Longrightarrow> sse_field (str_of ''id: '' @ l) m = m\<lparr>m_id := Some l\<rparr>"
  by (simp add: sse_field_def starts_colon str_of_simps)

lemma sse_lines_id:
  "0 \<notin> set l \<Longrightarrow> sse_lines ((str_of ''id: '' @ l) # ls) m = sse_lines ls (m\<lparr>m_id := Some l\<rparr>)"
  using sse_field_id [of l m] by (simp add: str_of_simps)

lemma sse_lines_event:
  "sse_lines ((str_of ''event: '' @ l) # ls) m = sse_lines ls (m\<lparr>m_event := l\<rparr>)"
  using sse_field_event [of l m] by (simp add: str_of_simps)

lemma sse_lines_data:
  "sse_lines (map (\<lambda>l. str_of ''data: '' @ l) ds @ [[], []]) m
     = (if m_data m @ ds = [] then None else Some (m\<lparr>m_data := m_data m @ ds\<rparr>))"
proof (induction ds arbitrary: m)
  case (Cons d ds)
  have "sse_lines (map (\<lambda>l. str_of ''data: '' @ l) (d # ds) @ [[], []]) m
      = sse_lines (map (\<lambda>l. str_of ''data: '' @ l) ds @ [[], []]) (sse_field (str_of ''data: '' @ d) m)"
    by (simp add: str_of_simps)
  then show ?case unfolding sse_field_data by (simp only: Cons.IH) simp
qed simp

text \<open>
  What a client is given: the number and name when there are any, and the lines of the
  data, which are the data itself when it ends no line but at LF and does not end with one.
\<close>

definition no_newline :: "ustr \<Rightarrow> bool" where
  "no_newline e \<longleftrightarrow> 10 \<notin> set e \<and> 13 \<notin> set e"

definition read_back :: "ustr \<Rightarrow> ustr option \<Rightarrow> int \<Rightarrow> sse_msg" where
  "read_back data event event_id =
     \<lparr>m_id = (if event_id = NO_EVENT_ID then None else Some (str_of (show_int event_id))),
      m_event = (case event of None \<Rightarrow> [] | Some e \<Rightarrow> e), m_data = data_lines data\<rparr>"

lemma show_int_chars: "c \<in> set (show_int i) \<Longrightarrow> c = CHR ''-'' \<or> digit_char c"
  using show_nat_digits by (auto simp: show_int_def list_all_iff split: if_splits)

lemma show_int_plain: "n \<in> set (str_of (show_int i)) \<Longrightarrow> n \<noteq> 0 \<and> n \<noteq> 10 \<and> n \<noteq> 13"
  using show_int_chars by (fastforce simp: str_of_def digit_char_def)

text \<open>The lines of a frame, before the blank one that ends it.\<close>

definition sse_parts :: "ustr \<Rightarrow> ustr option \<Rightarrow> int \<Rightarrow> ustr list" where
  "sse_parts data event event_id =
     (if event_id \<noteq> NO_EVENT_ID then [str_of ''id: '' @ str_of (show_int event_id)] else []) @
     (case event of None \<Rightarrow> [] | Some e \<Rightarrow> if e = [] then [] else [str_of ''event: '' @ e]) @
     map (\<lambda>l. str_of ''data: '' @ l) (data_lines data)"

lemma sse_text_parts: "sse_text data event event_id = join [10] (sse_parts data event event_id) @ [10, 10]"
  by (simp add: sse_text_def sse_parts_def)

lemma data_lines_nonempty [simp]: "data_lines data \<noteq> []"
  by (simp add: data_lines_def)

lemma sse_parts_nonempty [simp]: "sse_parts data event event_id \<noteq> []"
  by (simp add: sse_parts_def)

lemma sse_parts_clean:
  assumes "\<And>e. event = Some e \<Longrightarrow> no_newline e" and "l \<in> set (sse_parts data event event_id)"
  shows "no_newline l"
proof -
  have dclean: "no_newline l" if "l \<in> set (data_lines data)" for l
    using that splitlines_clean [of data]
    by (fastforce simp: data_lines_def no_newline_def line_break_def split: if_splits)
  show ?thesis
    using assms(2) unfolding sse_parts_def set_append Un_iff
  proof (elim disjE)
    assume "l \<in> set (if event_id \<noteq> NO_EVENT_ID then [str_of ''id: '' @ str_of (show_int event_id)] else [])"
    then show ?thesis using show_int_plain [of 10 event_id] show_int_plain [of 13 event_id]
      by (auto simp: no_newline_def str_of_simps split: if_splits)
  next
    assume "l \<in> set (case event of None \<Rightarrow> [] | Some e \<Rightarrow> if e = [] then [] else [str_of ''event: '' @ e])"
    then show ?thesis using assms(1) by (auto simp: no_newline_def str_of_simps split: option.splits if_splits)
  next
    assume "l \<in> set (map (\<lambda>l. str_of ''data: '' @ l) (data_lines data))"
    then show ?thesis using dclean by (auto simp: no_newline_def str_of_simps)
  qed
qed

lemma sse_text_read:
  assumes "\<And>e. event = Some e \<Longrightarrow> no_newline e"
  shows "sse_read (sse_text data event event_id) = Some (read_back data event event_id)"
proof -
  define ids where "ids = (if event_id \<noteq> NO_EVENT_ID then [str_of ''id: '' @ str_of (show_int event_id)] else [])"
  define evs where "evs = (case event of None \<Rightarrow> [] | Some e \<Rightarrow> if e = [] then [] else [str_of ''event: '' @ e])"
  define ds where "ds = map (\<lambda>l. str_of ''data: '' @ l) (data_lines data)"
  have parts: "sse_parts data event event_id = ids @ evs @ ds"
    by (simp only: sse_parts_def ids_def evs_def ds_def)
  have dl: "data_lines data \<noteq> []" by simp
  have clean: "no_newline l" if "l \<in> set (ids @ evs @ ds)" for l
    using sse_parts_clean [OF assms] that unfolding parts [symmetric] by blast
  have "join [10] (ls @ [[], []]) = join [10] ls @ [10, 10]" if "ls \<noteq> []" for ls :: "ustr list"
    using that by (induction ls rule: induct_list012) auto
  from this [of "ids @ evs @ ds"] dl
  have t: "sse_text data event event_id = join [10] (ids @ evs @ ds @ [[], []])"
    unfolding sse_text_def ids_def [symmetric] evs_def [symmetric] ds_def [symmetric]
    by (simp add: ds_def)
  have c: "\<forall>l\<in>set (ids @ evs @ ds @ [[], []]). no_newline l"
    using clean by (auto simp: no_newline_def)
  have in_join: "x \<in> set (join [10] ws) \<Longrightarrow> x = 10 \<or> (\<exists>w\<in>set ws. x \<in> set w)" for x :: nat and ws
    by (induction "[10::nat]" ws rule: join.induct) auto
  have "13 \<notin> set (sse_text data event event_id)"
  proof
    assume "13 \<in> set (sse_text data event event_id)"
    from in_join [OF this [unfolded t]] c show False by (auto simp: no_newline_def)
  qed
  then have "lf_only (sse_text data event event_id) = join [10] (ids @ evs @ ds @ [[], []])"
    unfolding t by (rule lf_only_same)
  then have "split_on 10 (lf_only (sse_text data event event_id)) = ids @ evs @ ds @ [[], []]"
    using c split_on_join [of "ids @ evs @ ds @ [[], []]" 10] by (simp add: no_newline_def)
  moreover have "sse_lines (ids @ evs @ ds @ [[], []]) no_msg
      = sse_lines (ds @ [[], []]) (no_msg\<lparr>m_id := m_id (read_back data event event_id),
          m_event := m_event (read_back data event event_id)\<rparr>)"
  proof -
    have i: "sse_lines (ids @ ls) no_msg
        = sse_lines ls (no_msg\<lparr>m_id := m_id (read_back data event event_id)\<rparr>)" for ls
      using sse_lines_id [of "str_of (show_int event_id)" ls no_msg] show_int_plain [of 0 event_id]
      by (auto simp: ids_def read_back_def no_msg_def simp del: sse_lines.simps)
    have e: "sse_lines (evs @ ls) (no_msg\<lparr>m_id := x\<rparr>)
        = sse_lines ls (no_msg\<lparr>m_id := x, m_event := m_event (read_back data event event_id)\<rparr>)" for ls x
      using sse_lines_event
      by (auto simp: evs_def read_back_def no_msg_def simp del: sse_lines.simps split: option.split)
    show ?thesis by (simp only: i e)
  qed
  ultimately show ?thesis
    using dl sse_lines_data [of "data_lines data"]
    by (simp add: sse_read_def ds_def read_back_def no_msg_def)
qed

lemma publish_read_back:
  assumes "publish_with_id p channel data event s n = (Inr (k, eid), writes, s', n')"
    and "(fd, datagram) \<in> set writes" and "\<And>e. event = Some e \<Longrightarrow> no_newline e"
  shows "\<exists>frame. parse_submit (TAG_BUS_FRAME # datagram) = SubBusFrame eid channel frame \<and>
    sse_read (utf8_decode_replace frame) = Some (read_back data event eid) \<and> length frame \<le> MAX_FRAME"
proof -
  obtain s1 frame s2 where
    f: "sse_event data event eid = Some frame"
    and pub: "publish_frame p channel frame eid s1 = (Inr k, writes, s2)"
    using assms(1)
    by (auto simp: publish_with_id_def map_sum_def split: prod.splits option.splits sum.splits)
  obtain url where url: "utf8_encode channel = Some url"
    using pub assms(2) by (auto simp: publish_frame_def split: if_splits option.splits)
  have bounds: "length url \<le> 65535" "- (2 ^ 63) \<le> eid" "eid < 2 ^ 63" "length frame \<le> MAX_FRAME"
    and d: "datagram = pack_frame eid url frame"
    using pub assms(2) url
    by (auto simp: publish_frame_def MAX_CHANNEL_def Let_def split: if_splits prod.splits)
  have "parse_submit (TAG_BUS_FRAME # datagram) = SubBusFrame eid channel frame"
    using parse_bus [OF bounds(2,3,1)] utf8_roundtrip [OF url] d by simp
  moreover have "utf8_decode_replace frame = sse_text data event eid"
    using f utf8_roundtrip by (simp add: sse_event_def)
  ultimately show ?thesis using sse_text_read [OF assms(3)] bounds(4) by auto
qed


definition one_worker :: process where
  "one_worker = \<lparr>environ_of = [''M0_BUS_WRITE_FDS'' \<mapsto> ''7'', ''M0_BUS_WRITE_IDS'' \<mapsto> ''1:42'',
       ''M0_SHARED_ID_ADDR'' \<mapsto> ''4096''],
     pid_of = 1, fstat = (\<lambda>fd. if fd = 7 then Some \<lparr>st_dev = 1, st_ino = 42, st_is_sock = True, st_size = 0\<rparr> else None),
     mapped = (\<lambda>_ _. None), readable = (\<lambda>_ _. True), peek = (\<lambda>_. PAGE_MAGIC), has_op = (\<lambda>_. True),
     is_darwin = False, accepts = (\<lambda>_. True)\<rparr>"

definition fresh_pub :: pub_state where
  "fresh_pub = \<lparr>ps_counter = NotLooked, ps_fds = None, ps_warned = []\<rparr>"

lemma one_worker_accepts: "accepts one_worker fd"
  by (simp add: one_worker_def)

lemma one_worker_fds: "verified_fds one_worker = [7]"
  by (simp add: verified_fds_def one_worker_def env_text_def ints_of_def identities_of_def identity_of_def
      is_bus_fd_def py_int_def py_strip_def py_space_def digit_val_def List.map_filter_simps Let_def)

lemma one_worker_counter: "resolve_counter one_worker = (Counter ''packages/m0-core/libm0core.so'' 4096, [])"
  by (simp add: resolve_counter_def one_worker_def env_text_def page_from_fd_def page_fd_def page_at_address_def
      core_lib_paths_def py_int_def py_strip_def py_space_def digit_val_def Let_def)

lemma one_worker_id: "next_event_id one_worker fresh_pub 4
    = (5, fresh_pub\<lparr>ps_counter := Counter ''packages/m0-core/libm0core.so'' 4096\<rparr>, 5)"
  by (simp add: next_event_id_def looked_def one_worker_counter fresh_pub_def)

lemma one_worker_publishes:
  "\<exists>frame s'. publish_with_id one_worker [0x6E] [104, 105] None fresh_pub 4
    = (Inr (1, 5), [(7, pack_frame 5 [0x6E] frame)], s', 5)"
proof -
  have sc: "list_all scalar (sse_text [104, 105] None 5)"
    by (simp add: sse_text_def data_lines_def line_break_def scalar_def NO_EVENT_ID_def str_of_simps
        show_int_def show_nat.simps str_of_def)
  have enc: "utf8_encode [0x6E] = Some [0x6E]" by (simp add: utf8_encode_def scalar_def utf8_char_def u8_def)
  obtain frame where f: "sse_event [104, 105] None 5 = Some frame" using sc by (simp add: sse_event_def utf8_encode_def)
  have "length frame \<le> MAX_FRAME"
    using f sc by (auto simp: sse_event_def utf8_encode_def sse_text_def data_lines_def line_break_def
        NO_EVENT_ID_def str_of_simps utf8_char_def show_int_def show_nat.simps MAX_FRAME_def)
  then show ?thesis
    using one_worker_id f enc
    by (simp add: publish_with_id_def publish_frame_def MAX_CHANNEL_def bus_write_fds_def fresh_pub_def
        one_worker_fds one_worker_accepts) blast
qed


section \<open>Only the server's descriptors and page\<close>

definition honest :: "process \<Rightarrow> pub_state \<Rightarrow> bool" where
  "honest p s \<longleftrightarrow> (\<forall>fds. ps_fds s = Some (pid_of p, fds) \<longrightarrow> fds = verified_fds p)"

lemma bus_write_fds_honest: "honest p s \<Longrightarrow> fst (bus_write_fds p s) = verified_fds p \<and> honest p (snd (bus_write_fds p s))"
  by (auto simp: honest_def bus_write_fds_def split: option.splits)

lemma looked_fds: "ps_fds (looked p s) = ps_fds s"
  by (simp add: looked_def)



text \<open>
  An event is numbered only through a page the process has verified: mapped from the
  descriptor and carrying the magic word, or at an address the kernel says can be read and
  that carries it; anything else is published unnumbered.
\<close>

lemma numbers_only_verified_page:
  assumes "next_event_id p s n = (eid, s', n')" and "ps_counter s = NotLooked" and "eid \<noteq> NO_EVENT_ID"
  shows "\<exists>path addr. ps_counter s' = Counter path addr \<and> has_op p path \<and> eid = n + 1 \<and> n' = n + 1 \<and>
    ((\<exists>fd st page. page_fd p = Some fd \<and> fstat p fd = Some st \<and> PAGE_MAGIC_OFFSET + 8 \<le> st_size st \<and>
        mapped p fd (st_size st) = Some (page, addr) \<and> word_at PAGE_MAGIC_OFFSET page = PAGE_MAGIC) \<or>
     (0 < addr \<and> readable p addr (PAGE_MAGIC_OFFSET + 8) \<and> peek p (addr + int PAGE_MAGIC_OFFSET) = PAGE_MAGIC))"
proof -
  obtain path addr where c: "fst (resolve_counter p) = Counter path addr"
    and r: "ps_counter s' = Counter path addr" "eid = n + 1" "n' = n + 1"
    using assms by (auto simp: next_event_id_def looked_def split: counter.splits)
  have op: "has_op p path" and a: "addr = (if page_from_fd p \<noteq> 0 then page_from_fd p else page_at_address p)"
    and nz: "addr \<noteq> 0"
    using c by (auto simp: resolve_counter_def Let_def find_Some_iff split: if_splits option.splits)
  have fd: "\<exists>fd st page. page_fd p = Some fd \<and> fstat p fd = Some st \<and> PAGE_MAGIC_OFFSET + 8 \<le> st_size st \<and>
        mapped p fd (st_size st) = Some (page, page_from_fd p) \<and> word_at PAGE_MAGIC_OFFSET page = PAGE_MAGIC"
    if "page_from_fd p \<noteq> 0"
    using that by (auto simp: page_from_fd_def split: option.splits if_splits)
  have at: "0 < page_at_address p \<and> readable p (page_at_address p) (PAGE_MAGIC_OFFSET + 8) \<and>
      peek p (page_at_address p + int PAGE_MAGIC_OFFSET) = PAGE_MAGIC" if "page_at_address p \<noteq> 0"
    using that by (auto simp: page_at_address_def split: option.splits if_splits)
  show ?thesis using r op a nz fd at by (cases "page_from_fd p = 0") auto
qed

lemma numbers_only_verified_page_witness:
  "\<exists>path addr s'. next_event_id one_worker fresh_pub 4 = (5, s', 5) \<and> ps_counter s' = Counter path addr \<and>
    has_op one_worker path"
proof -
  have "ps_counter fresh_pub = NotLooked" by (simp add: fresh_pub_def)
  from numbers_only_verified_page [OF one_worker_id this] one_worker_id show ?thesis by (auto simp: NO_EVENT_ID_def)
qed

section \<open>Ids across workers\<close>

text \<open>The workers take ids in any order from the one shared slot.\<close>

fun take_ids :: "(nat \<Rightarrow> process) \<Rightarrow> nat list \<Rightarrow> (nat \<Rightarrow> pub_state) \<Rightarrow> int \<Rightarrow> int list" where
  "take_ids ps [] sts n = []"
| "take_ids ps (w # ws) sts n =
     (case next_event_id (ps w) (sts w) n of
        (eid, s', n') \<Rightarrow> eid # take_ids ps ws (sts(w := s')) n')"

text \<open>
  Whatever workers publish and in whatever order, the numbered events carry consecutive
  numbers in the order they were taken, from one past the slot's value: none repeats, none
  is 0, and an unnumbered one takes none.
\<close>

lemma ids_consecutive:
  assumes "0 \<le> n"
  shows "filter (\<lambda>i. i \<noteq> NO_EVENT_ID) (take_ids ps ws sts n)
    = map (\<lambda>k. n + 1 + int k) [0..<length (filter (\<lambda>i. i \<noteq> NO_EVENT_ID) (take_ids ps ws sts n))]"
  using assms
proof (induction ws arbitrary: sts n)
  case (Cons w ws)
  obtain eid s' n' where id: "next_event_id (ps w) (sts w) n = (eid, s', n')" by (metis prod_cases3)
  have cases: "(eid = NO_EVENT_ID \<and> n' = n) \<or> (eid = n + 1 \<and> n' = n + 1 \<and> eid \<noteq> NO_EVENT_ID)"
    using id Cons.prems by (auto simp: next_event_id_def NO_EVENT_ID_def split: counter.splits)
  let ?rest = "filter (\<lambda>i. i \<noteq> NO_EVENT_ID) (take_ids ps ws (sts(w := s')) n')"
  have "0 \<le> n'" using cases Cons.prems by auto
  then have ih: "?rest = map (\<lambda>k. n' + 1 + int k) [0..<length ?rest]" by (rule Cons.IH)
  show ?case
  proof (cases "eid = NO_EVENT_ID")
    case True
    then have "n' = n" using cases Cons.prems by (auto simp: NO_EVENT_ID_def)
    then show ?thesis using ih True id by simp
  next
    case False
    then have e: "eid = n + 1" "n' = n + 1" using cases by auto
    have "map (\<lambda>k. n + 1 + int k) [0..<Suc (length ?rest)] = (n + 1) # map (\<lambda>k. n + 1 + 1 + int k) [0..<length ?rest]"
      by (simp add: map_upt_Suc del: upt_Suc)
    then show ?thesis using ih False e id by simp
  qed
qed simp

lemma ids_consecutive_witness:
  "filter (\<lambda>i. i \<noteq> NO_EVENT_ID) (take_ids (\<lambda>_. one_worker) [0, 1, 0] (\<lambda>_. fresh_pub) 0) = [1, 2, 3]"
proof -
  have l: "looked one_worker fresh_pub = fresh_pub\<lparr>ps_counter := Counter ''packages/m0-core/libm0core.so'' 4096\<rparr>"
    by (simp add: looked_def one_worker_counter fresh_pub_def)
  have "length (filter (\<lambda>i. i \<noteq> NO_EVENT_ID) (take_ids (\<lambda>_. one_worker) [0, 1, 0] (\<lambda>_. fresh_pub) 0)) = 3"
    by (simp add: next_event_id_def l NO_EVENT_ID_def) (simp add: looked_def NO_EVENT_ID_def)
  then show ?thesis
    using ids_consecutive [of 0 "\<lambda>_. one_worker" "[0, 1, 0]" "\<lambda>_. fresh_pub"] by (simp add: upt_conv_Cons)
qed

section \<open>The NOTIFY payload\<close>

text \<open>A reader of JSON strings as RFC 8259 has them, after the opening quote, in UTF-16 units.\<close>

definition hex_value :: "nat \<Rightarrow> nat" where
  "hex_value d = (if 48 \<le> d \<and> d \<le> 57 then d - 48 else if 97 \<le> d \<and> d \<le> 102 then d - 87 else d - 55)"

definition short_escape :: "nat \<Rightarrow> nat" where
  "short_escape c = (if c = 110 then 10 else if c = 114 then 13 else if c = 116 then 9
     else if c = 102 then 12 else if c = 98 then 8 else c)"

fun json_units :: "ustr \<Rightarrow> (nat list \<times> ustr) option" where
  "json_units [] = None"
| "json_units (c # cs) =
     (if c = 34 then Some ([], cs)
      else if c \<noteq> 92 then map_option (\<lambda>(us, r). (c # us, r)) (json_units cs)
      else (case cs of
          [] \<Rightarrow> None
        | e # ds \<Rightarrow>
            if e \<noteq> 117 then map_option (\<lambda>(us, r). (short_escape e # us, r)) (json_units ds)
            else (case ds of
                h1 # h2 # h3 # h4 # rest \<Rightarrow>
                  map_option (\<lambda>(us, r). ((hex_value h1 * 4096 + hex_value h2 * 256 + hex_value h3 * 16
                    + hex_value h4) # us, r)) (json_units rest)
              | _ \<Rightarrow> None)))"

fun utf16_join :: "nat list \<Rightarrow> ustr" where
  "utf16_join [] = []"
| "utf16_join [u] = [u]"
| "utf16_join (u # v # us) =
     (if 0xD800 \<le> u \<and> u < 0xDC00 \<and> 0xDC00 \<le> v \<and> v < 0xE000
      then (0x10000 + (u - 0xD800) * 1024 + (v - 0xDC00)) # utf16_join us
      else u # utf16_join (v # us))"

definition expect :: "ustr \<Rightarrow> ustr \<Rightarrow> ustr option" where
  "expect p s = (if starts_with p s then Some (drop (length p) s) else None)"

definition read_string :: "ustr \<Rightarrow> (ustr \<times> ustr) option" where
  "read_string s = Option.bind (expect [34] s)
     (\<lambda>r. map_option (\<lambda>(us, r'). (utf16_join us, r')) (json_units r))"

text \<open>The listener's reading of the payload: its three string fields.\<close>

definition read_member :: "ustr \<Rightarrow> ustr \<Rightarrow> ustr \<Rightarrow> (ustr \<times> ustr) option" where
  "read_member before name s =
     Option.bind (expect before s) (\<lambda>r. Option.bind (read_string r) (\<lambda>(k, r1).
       if k = name then Option.bind (expect (str_of '':'') r1) read_string else None))"

definition notify_read :: "ustr \<Rightarrow> (ustr \<times> ustr \<times> ustr) option" where
  "notify_read s =
     Option.bind (read_member (str_of ''{'') (str_of ''channel'') s) (\<lambda>(c, r).
     Option.bind (read_member (str_of '','') (str_of ''event'') r) (\<lambda>(e, r1).
     Option.bind (read_member (str_of '','') (str_of ''data'') r1) (\<lambda>(d, r2).
       if r2 = str_of ''}'' then Some (c, e, d) else None)))"

lemma hex_value_digit: "d < 16 \<Longrightarrow> hex_value (if d < 10 then 48 + d else 87 + d) = d"
  by (auto simp: hex_value_def)

lemma hex4_value:
  assumes "u < 65536"
  shows "\<exists>a b c d. hex4 u = [a, b, c, d] \<and>
    hex_value a * 4096 + hex_value b * 256 + hex_value c * 16 + hex_value d = u"
proof -
  have "u div 4096 mod 16 * 4096 + u div 256 mod 16 * 256 + u div 16 mod 16 * 16 + u mod 16 = u"
  proof -
    have h: "u div 256 = u div 16 div 16" "u div 4096 = u div 16 div 16 div 16"
      by (simp_all add: div_mult2_eq [symmetric])
    have top: "u div 4096 mod 16 = u div 4096" using assms by (simp add: less_mult_imp_div_less)
    have d: "q div 16 * 16 + q mod 16 = q" for q :: nat by (rule div_mult_mod_eq)
    from d [of u] d [of "u div 16"] d [of "u div 16 div 16"]
    have "u div 16 div 16 div 16 * 4096 + u div 16 div 16 mod 16 * 256 + u div 16 mod 16 * 16 + u mod 16 = u"
      by linarith
    then show ?thesis unfolding h top [unfolded h] .
  qed
  moreover have "hex_value (if q mod 16 < 10 then 48 + q mod 16 else 87 + q mod 16) = q mod 16" for q
    by (rule hex_value_digit) simp
  ultimately show ?thesis
    unfolding hex4_def list.map by (intro exI conjI) (rule refl, simp only:)
qed

lemma json_units_unit:
  assumes "u < 65536"
  shows "json_units (json_unit u @ r) = map_option (\<lambda>(us, r'). (u # us, r')) (json_units r)"
proof (cases "u \<in> {34, 92, 10, 13, 9, 12, 8} \<or> (32 \<le> u \<and> u \<le> 126)")
  case True
  then show ?thesis by (auto simp: json_unit_def short_escape_def)
next
  case False
  obtain a b c d where "hex4 u = [a, b, c, d]"
    "hex_value a * 4096 + hex_value b * 256 + hex_value c * 16 + hex_value d = u"
    using hex4_value [OF assms] by blast
  moreover from False have "json_unit u = [92, 117] @ hex4 u" by (auto simp: json_unit_def)
  ultimately show ?thesis by simp
qed

lemma json_units_read:
  "list_all (\<lambda>u. u < 65536) us \<Longrightarrow> json_units (concat (map json_unit us) @ 34 # r) = Some (us, r)"
  by (induction us) (simp_all add: json_units_unit del: json_units.simps, simp)

lemma utf16_units_small: "scalar c \<Longrightarrow> list_all (\<lambda>u. u < 65536) (utf16_units c)"
  by (auto simp: scalar_def utf16_units_def less_mult_imp_div_less intro: order.strict_trans1)

lemma utf16_join_units: "list_all scalar s \<Longrightarrow> utf16_join (concat (map utf16_units s)) = s"
proof (induction s)
  case (Cons c s)
  have step: "utf16_join (utf16_units c @ us) = c # utf16_join us" for us
  proof (cases "c < 0x10000")
    case True
    then have "\<not> (0xD800 \<le> c \<and> c < 0xDC00)" using Cons.prems by (auto simp: scalar_def)
    then show ?thesis using True by (cases us) (auto simp: utf16_units_def)
  next
    case False
    have "c < 0x110000" using Cons.prems by (auto simp: scalar_def)
    then have "(c - 0x10000) div 1024 < 1024" by (simp add: less_mult_imp_div_less)
    moreover have "(c - 0x10000) mod 1024 < 1024" by simp
    moreover have "(c - 0x10000) div 1024 * 1024 + (c - 0x10000) mod 1024 = c - 0x10000"
      by (rule div_mult_mod_eq)
    ultimately show ?thesis using False by (simp add: utf16_units_def)
  qed
  then show ?case using Cons by simp
qed simp

lemma read_string_json:
  assumes "list_all scalar s"
  shows "read_string (json_string s @ r) = Some (s, r)"
proof -
  have "list_all (\<lambda>u. u < 65536) (concat (map utf16_units s))"
    using assms utf16_units_small by (induction s) auto
  from json_units_read [OF this, of r] show ?thesis
    by (simp add: read_string_def expect_def json_string_def starts_with_def utf16_join_units [OF assms])
qed

lemma expect_here [simp]: "expect p (p @ s) = Some s"
  by (simp add: expect_def)

lemma read_member_json:
  assumes "list_all scalar name" and "list_all scalar s"
  shows "read_member before name (before @ json_string name @ str_of '':'' @ json_string s @ r) = Some (s, r)"
  using read_string_json [OF assms(1), of "str_of '':'' @ json_string s @ r"] read_string_json [OF assms(2), of r]
  by (simp add: read_member_def)

lemma json_ascii: "list_all (\<lambda>c. c < 128) (json_string s)"
proof -
  have "(if d < 10 then 48 + d else 87 + d) < 128" if "d < 16" for d :: nat
    using that by simp
  then have "list_all (\<lambda>c. c < 128) (hex4 u)" for u
    unfolding hex4_def list.map list.pred_inject by simp
  then have "list_all (\<lambda>c. c < 128) (json_unit u)" for u
    by (simp add: json_unit_def)
  then have "list_all (\<lambda>c. c < 128) (concat (map json_unit us))" for us
    by (induction us) simp_all
  then show ?thesis by (simp add: json_string_def)
qed

text \<open>
  A statement \<open>notify_sql\<close> returns carries a payload Postgres accepts, in ASCII
  whatever the text, from which a JSON reader has the channel, the event (empty for none)
  and the data again; what it refuses is over the bound.
\<close>

lemma notify_roundtrip:
  assumes "list_all scalar channel" and "list_all scalar data" and "\<And>e. event = Some e \<Longrightarrow> list_all scalar e"
  shows "case notify_sql channel data event of
      Inr (sql, ch, payload) \<Rightarrow> ch = PG_NOTIFY_CHANNEL \<and> list_all (\<lambda>c. c < 128) payload \<and>
        length payload \<le> PG_NOTIFY_MAX_BYTES \<and>
        notify_read payload = Some (channel, (case event of None \<Rightarrow> [] | Some e \<Rightarrow> e), data)
    | Inl k \<Rightarrow> PG_NOTIFY_MAX_BYTES < k \<and> k = length (notify_payload channel data event)"
proof -
  let ?p = "notify_payload channel data event" and ?e = "case event of None \<Rightarrow> [] | Some e \<Rightarrow> e"
  have ascii: "list_all (\<lambda>c. c < 128) ?p"
    using json_ascii by (simp add: notify_payload_def str_of_def)
  have e: "list_all scalar ?e" using assms(3) by (simp split: option.split)
  have names: "list_all scalar (str_of ''channel'')" "list_all scalar (str_of ''event'')"
    "list_all scalar (str_of ''data'')"
    by (simp_all add: str_of_def scalar_def)
  have "notify_read ?p = Some (channel, ?e, data)"
    using read_member_json [OF names(1) assms(1)] read_member_json [OF names(2) e]
      read_member_json [OF names(3) assms(2)]
    by (simp add: notify_read_def notify_payload_def)
  then show ?thesis using ascii utf8_ascii [OF ascii]
    by (auto simp: notify_sql_def Let_def)
qed

lemma notify_roundtrip_witness:
  "case notify_sql [0x1F600] [34, 10] None of
      Inr (sql, ch, payload) \<Rightarrow> notify_read payload = Some ([0x1F600], [], [34, 10]) | Inl k \<Rightarrow> False"
proof -
  have "length (notify_payload [0x1F600] [34, 10] None) < PG_NOTIFY_MAX_BYTES"
    by (simp add: notify_payload_def json_string_def json_unit_def utf16_units_def hex4_def
        PG_NOTIFY_MAX_BYTES_def str_of_def)
  then show ?thesis
    using notify_roundtrip [of "[0x1F600]" "[34, 10]" None]
    by (auto simp: scalar_def split: sum.splits)
qed

section \<open>Two publishers, two limits\<close>

text \<open>
  The two publishers of the repository disagree at the frame limit. The bus limits the
  frame to \<open>MAX_FRAME\<close>; \<open>m0pub\<close> holds the frame to it, and the shim's \<open>publish\<close> the whole
  datagram, header and channel included. So a frame that one accepts for every worker the
  other refuses with a ValueError.
\<close>

lemma publishers_disagree:
  assumes "utf8_encode channel = Some url" and "take 1 url \<noteq> [1]" and "length url \<le> MAX_CHANNEL"
    and "length frame \<le> MAX_FRAME" and "MAX_FRAME < length frame + length url + 10"
    and "- (2 ^ 63) \<le> event_id" and "event_id < 2 ^ 63"
  shows "fst (publish_frame p channel frame event_id s)
      = Inr (length (filter (accepts p) (fst (bus_write_fds p s)))) \<and>
    fst (m0_publish fds ctr (PyStr channel) (PyBytes frame))
      = Inl (ValueError ''m0 publish frame exceeds 65536 bytes'')"
  using assms
  by (auto simp: publish_frame_def m0_publish_def as_bytes_def MAX_CHANNEL_def pack_frame_def Let_def
      split: prod.splits)

lemma publishers_disagree_witness:
  "fst (publish_frame one_worker [110] (replicate 65530 0) 1 fresh_pub) = Inr 1 \<and>
   fst (m0_publish [7] (Some 0) (PyStr [110]) (PyBytes (replicate 65530 0)))
     = Inl (ValueError ''m0 publish frame exceeds 65536 bytes'')"
proof -
  have url: "utf8_encode [110] = Some [110]" by (simp add: utf8_encode_def scalar_def utf8_char_def u8_def)
  have fds: "fst (bus_write_fds one_worker fresh_pub) = [7]"
    by (simp add: bus_write_fds_def fresh_pub_def one_worker_fds)
  show ?thesis
    using publishers_disagree [OF url, of "replicate 65530 0" 1 one_worker fresh_pub "[7]" "Some 0"]
    by (simp add: MAX_CHANNEL_def MAX_FRAME_def fds one_worker_accepts)
qed

end
