(* ===== verification/Py_Paths.thy ===== *)
theory Py_Paths
  imports Py_Numbers "HOL-Library.List_Lexorder" "HOL-Library.Char_ord"
begin

text \<open>
  Paths as \<open>pathlib.PurePosixPath\<close> and \<open>os.path\<close> treat them, the environment as a map from
  names to text, \<open>str.replace\<close> and \<open>sorted\<close>: what the launcher and the command line share.
\<close>

type_synonym env = "string \<rightharpoonup> string"

text \<open>
  A pure path: the root (\<open>/\<close>, or the \<open>//\<close> that POSIX leaves to the system) and the parts,
  with empty and \<open>.\<close> components dropped; \<open>str\<close> of a path with neither is \<open>.\<close>.
\<close>

record pure_path =
  p_root :: string
  p_parts :: "string list"

definition pure_path :: "string \<Rightarrow> pure_path" where
  "pure_path s =
     \<lparr>p_root = (if starts_with ''//'' s \<and> \<not> starts_with ''///'' s then ''//''
                else if starts_with ''/'' s then ''/'' else ''''),
      p_parts = filter (\<lambda>w. w \<noteq> [] \<and> w \<noteq> ''.'') (split_on (CHR ''/'') s)\<rparr>"

definition path_str :: "pure_path \<Rightarrow> string" where
  "path_str p =
     (if p_root p = [] \<and> p_parts p = [] then ''.'' else p_root p @ join ''/'' (p_parts p))"

text \<open>\<open>p / name\<close>: an absolute name starts afresh.\<close>

definition path_div :: "pure_path \<Rightarrow> string \<Rightarrow> pure_path" where
  "path_div p name =
     (if starts_with ''/'' name then pure_path name
      else p\<lparr>p_parts := p_parts p @ p_parts (pure_path name)\<rparr>)"

definition path_parent :: "pure_path \<Rightarrow> pure_path" where
  "path_parent p = p\<lparr>p_parts := butlast (p_parts p)\<rparr>"

definition path_name :: "pure_path \<Rightarrow> string" where
  "path_name p = (if p_parts p = [] then [] else last (p_parts p))"

text \<open>\<open>os.path.join(a, b)\<close>.\<close>

definition os_join :: "string \<Rightarrow> string \<Rightarrow> string" where
  "os_join a b =
     (if starts_with ''/'' b then b
      else if a = [] \<or> last a = CHR ''/'' then a @ b
      else a @ ''/'' @ b)"

text \<open>\<open>s.replace(old, new)\<close> for a non-empty \<open>old\<close>: left to right, what is put in is not searched.\<close>

function replace_all :: "'a list \<Rightarrow> 'a list \<Rightarrow> 'a list \<Rightarrow> 'a list" where
  "replace_all old new s =
     (if s = [] \<or> old = [] then s
      else if starts_with old s then new @ replace_all old new (drop (length old) s)
      else hd s # replace_all old new (tl s))"
  by pat_completeness auto
termination by (relation "measure (\<lambda>(old, new, s). length s)") auto

declare replace_all.simps [simp del]

lemma replace_all_Nil [simp]: "replace_all old new [] = []"
  by (simp add: replace_all.simps)

text \<open>Text in which the token does not occur is kept.\<close>

lemma replace_all_none: "\<not> contains old s \<Longrightarrow> replace_all old new s = s"
proof (induction s)
  case (Cons c s)
  then show ?case by (simp add: replace_all.simps [of old new "c # s"])
qed simp

text \<open>\<open>splitlines\<close> of a Latin-1 string.\<close>

definition str_lines :: "string \<Rightarrow> string list" where
  "str_lines s = map (map char_of) (splitlines (str_of s))"

text \<open>\<open>sorted\<close> of strings, and of a set of them.\<close>

definition sorted_set :: "string list \<Rightarrow> string list" where
  "sorted_set xs = sort (remdups xs)"

definition env_or :: "env \<Rightarrow> string \<Rightarrow> string \<Rightarrow> string" where
  "env_or e k d = (case e k of None \<Rightarrow> d | Some v \<Rightarrow> v)"

definition truthy :: "string option \<Rightarrow> bool" where
  "truthy v \<longleftrightarrow> (case v of None \<Rightarrow> False | Some s \<Rightarrow> s \<noteq> [])"

definition or_empty :: "string option \<Rightarrow> string" where
  "or_empty v = (case v of None \<Rightarrow> [] | Some s \<Rightarrow> s)"

end
