(* ===== verification/Launcher.thy ===== *)
theory Launcher
  imports Py_Paths
begin

text \<open>
  The console-script shim (packaging/m0serve/src/m0serve/\_\_main\_\_.py): where the
  interpreter's shared library may be, the environment the server is started with, and
  what \<open>main\<close> does: exec, or refuse.
\<close>

text \<open>\<open>sysconfig.get_config_var\<close>: the values it has for the running interpreter.\<close>

type_synonym sysconf = "string \<rightharpoonup> string"

definition plain_name :: "sysconf \<Rightarrow> bool \<Rightarrow> string" where
  "plain_name config darwin =
     ''libpython'' @ or_empty (config ''py_version_short'') @ or_empty (config ''ABIFLAGS'') @ ''.'' @
     (if darwin then ''dylib'' else ''so'')"

text \<open>\<open>if x and x not in xs: xs.append(x)\<close>, over the values in order.\<close>

definition add_new :: "(string \<Rightarrow> bool) \<Rightarrow> string option \<Rightarrow> string list \<Rightarrow> string list" where
  "add_new ok v xs =
     (case v of None \<Rightarrow> xs
      | Some s \<Rightarrow> if s \<noteq> [] \<and> ok s \<and> s \<notin> set xs then xs @ [s] else xs)"

definition lib_names :: "sysconf \<Rightarrow> bool \<Rightarrow> string list" where
  "lib_names config darwin =
     fold (add_new (\<lambda>n. \<not> ends_with ''.a'' n))
       [config ''INSTSONAME'', config ''LDLIBRARY'', Some (plain_name config darwin)] []"

definition lib_dirs :: "sysconf \<Rightarrow> string \<Rightarrow> string list" where
  "lib_dirs config base_prefix =
     fold (add_new (\<lambda>_. True))
       [config ''LIBDIR'', config ''LIBPL'',
        if base_prefix = [] then None else Some (os_join base_prefix ''lib'')] []"

definition libpython_candidates :: "sysconf \<Rightarrow> string \<Rightarrow> bool \<Rightarrow> pure_path list" where
  "libpython_candidates config base_prefix darwin =
     concat (map (\<lambda>d. map (\<lambda>name. path_div (pure_path d) name) (lib_names config darwin))
       (lib_dirs config base_prefix))"

definition libpython :: "(pure_path \<Rightarrow> bool) \<Rightarrow> pure_path list \<Rightarrow> pure_path option" where
  "libpython is_file candidates = find is_file candidates"

definition NO_PYTHON :: "string list" where
  "NO_PYTHON = [''--version'', ''-V'', ''--help'', ''-h'']"

text \<open>This installation: the package's directory, the interpreter, and the files there are.\<close>

record install =
  here :: pure_path
  executable :: string
  os_nt :: bool
  sysconfig_of :: sysconf
  base_prefix_of :: string
  on_darwin :: bool
  file_there :: "pure_path \<Rightarrow> bool"
  exists_there :: "pure_path \<Rightarrow> bool"

definition exe_of :: "install \<Rightarrow> pure_path" where
  "exe_of i = path_div (path_div (here i) ''_bin'') (if os_nt i then ''m0serve.exe'' else ''m0serve'')"

definition core_lib :: "install \<Rightarrow> pure_path option" where
  "core_lib i =
     find (exists_there i)
       (map (\<lambda>ext. path_div (path_div (here i) ''_lib'') (''libm0core'' @ ext)) [''.dylib'', ''.so''])"

definition candidates_here :: "install \<Rightarrow> pure_path list" where
  "candidates_here i = libpython_candidates (sysconfig_of i) (base_prefix_of i) (on_darwin i)"

definition bin_dir :: "install \<Rightarrow> string" where
  "bin_dir i = path_str (path_parent (pure_path (executable i)))"

definition with_path :: "install \<Rightarrow> env \<Rightarrow> env" where
  "with_path i e =
     (let path = env_or e ''PATH'' []
      in if take 1 (split_on (CHR '':'') path) = [bin_dir i] then e
         else e(''PATH'' \<mapsto> bin_dir i @ (if path = [] then [] else CHR '':'' # path)))"

definition build_env :: "install \<Rightarrow> env \<Rightarrow> env" where
  "build_env i base =
     (let e1 = with_path i base;
          e2 = (if e1 ''MOJO_PYTHON_LIBRARY'' \<noteq> None then e1
                else (case libpython (file_there i) (candidates_here i) of
                        None \<Rightarrow> e1 | Some l \<Rightarrow> e1(''MOJO_PYTHON_LIBRARY'' \<mapsto> path_str l)))
      in if e2 ''M0_CORE_LIB'' \<noteq> None then e2
         else (case core_lib i of None \<Rightarrow> e2 | Some c \<Rightarrow> e2(''M0_CORE_LIB'' \<mapsto> path_str c)))"

text \<open>
  How \<open>main\<close> ends: an exit with a message (code 1), the refusal (stderr, code 78), or the
  exec of a program with its arguments and environment, which returns only by an error.
\<close>

datatype launch =
    ExitMessage string
  | Refuse string
  | Exec string "string list" env

datatype exec_error = NotPermitted | OtherOS string

definition looked_in :: "install \<Rightarrow> string" where
  "looked_in i =
     (let looked = sorted_set (map (path_str \<circ> path_parent) (candidates_here i))
      in if join '', '' looked = [] then ''nothing sysconfig names'' else join '', '' looked)"

definition launch_main :: "install \<Rightarrow> string list \<Rightarrow> env \<Rightarrow> launch" where
  "launch_main i argv base =
     (if \<not> exists_there i (exe_of i)
      then ExitMessage (''m0serve: the server binary is missing from this install ('' @ path_str (exe_of i) @
        '').'' @ [CHR 0x0A] @ ''This wheel was built without it -- reinstall with `pip install --force-reinstall m0serve`, and if that does not fix it please report it.'')
      else
        let env = build_env i base
        in if env ''MOJO_PYTHON_LIBRARY'' = None \<and> env ''MOJO_PYTHON'' = None \<and>
              \<not> list_ex (\<lambda>a. a \<in> set NO_PYTHON) (drop 1 argv)
           then Refuse (''m0serve: found no shared libpython for '' @ executable i @ '' (looked in '' @ looked_in i @
             '').'' @ [CHR 0x0A] @ ''Set MOJO_PYTHON_LIBRARY to the interpreter's libpython, or use an interpreter built with --enable-shared.'' @ [CHR 0x0A])
           else Exec (path_str (exe_of i)) (path_str (exe_of i) # drop 1 argv) env)"

text \<open>What is said when the exec itself fails.\<close>

definition exec_failed :: "install \<Rightarrow> exec_error \<Rightarrow> launch" where
  "exec_failed i e =
     (case e of
        NotPermitted \<Rightarrow> ExitMessage (''m0serve: '' @ path_str (exe_of i) @
          '' is not executable. The wheel should ship it with the execute bit set; `chmod +x '' @
          path_str (exe_of i) @ ''` works around it.'')
      | OtherOS m \<Rightarrow> ExitMessage (''m0serve: could not start '' @ path_str (exe_of i) @ '': '' @ m))"

section \<open>What the launcher promises\<close>

lemma add_new_keeps: "x \<in> set xs \<Longrightarrow> x \<in> set (add_new ok v xs)"
  by (auto simp: add_new_def split: option.split)

lemma add_new_adds: "s \<noteq> [] \<Longrightarrow> ok s \<Longrightarrow> s \<in> set (add_new ok (Some s) xs)"
  by (simp add: add_new_def)

text \<open>
  The search misses nothing the Mojo runtime's own lookup would find: its name for the
  library, in the directory \<open>LIBPL\<close> or \<open>LIBDIR\<close> names, is among the candidates, and no
  candidate is a static archive.
\<close>

lemma search_covers_runtime:
  assumes "config v = Some d" and "v \<in> {''LIBPL'', ''LIBDIR''}" and "d \<noteq> []"
  shows "path_div (pure_path d) (plain_name config darwin) \<in> set (libpython_candidates config base darwin)"
    and "\<forall>n\<in>set (lib_names config darwin). \<not> ends_with ''.a'' n"
proof -
  have p: "plain_name config darwin \<noteq> []" "\<not> ends_with ''.a'' (plain_name config darwin)"
    by (auto simp: plain_name_def ends_with_def starts_with_def)
  then have "plain_name config darwin \<in> set (lib_names config darwin)"
    by (simp add: lib_names_def add_new_adds)
  moreover have "d \<in> set (lib_dirs config base)"
    using assms(2)
  proof (elim insertE)
    assume v: "v = ''LIBPL''"
    show ?thesis using assms(1,3) unfolding v by (simp add: lib_dirs_def add_new_keeps add_new_adds)
  next
    assume v: "v = ''LIBDIR''"
    show ?thesis using assms(1,3) unfolding v by (simp add: lib_dirs_def add_new_keeps add_new_adds)
  qed simp
  ultimately show "path_div (pure_path d) (plain_name config darwin) \<in> set (libpython_candidates config base darwin)"
    by (auto simp: libpython_candidates_def)
  show "\<forall>n\<in>set (lib_names config darwin). \<not> ends_with ''.a'' n"
    by (auto simp: lib_names_def add_new_def split: option.splits if_splits)
qed

lemma search_covers_runtime_witness:
  "path_div (pure_path ''/usr/lib'') (plain_name [''LIBPL'' \<mapsto> ''/usr/lib''] False)
     \<in> set (libpython_candidates [''LIBPL'' \<mapsto> ''/usr/lib''] '''' False)"
  using search_covers_runtime(1) [of "[''LIBPL'' \<mapsto> ''/usr/lib'']" "''LIBPL''" "''/usr/lib''"] by simp

lemma with_path_first: "take 1 (split_on (CHR '':'') (env_or (with_path i e) ''PATH'' [])) = [bin_dir i]"
  if "CHR '':'' \<notin> set (bin_dir i)"
  using that by (auto simp: with_path_def env_or_def Let_def split_on_append split_on_id split: option.splits)

lemma with_path_other: "k \<noteq> ''PATH'' \<Longrightarrow> with_path i e k = e k"
  by (simp add: with_path_def Let_def)

lemma build_env_path: "build_env i e ''PATH'' = with_path i e ''PATH''"
  by (auto simp: build_env_def Let_def split: option.splits)

lemma build_env_lib:
  "build_env i e ''MOJO_PYTHON_LIBRARY'' =
     (case e ''MOJO_PYTHON_LIBRARY'' of Some v \<Rightarrow> Some v
      | None \<Rightarrow> map_option path_str (libpython (file_there i) (candidates_here i)))"
  by (auto simp: build_env_def Let_def with_path_other split: option.splits)

lemma build_env_core:
  "build_env i e ''M0_CORE_LIB'' =
     (case e ''M0_CORE_LIB'' of Some v \<Rightarrow> Some v | None \<Rightarrow> map_option path_str (core_lib i))"
  by (auto simp: build_env_def Let_def with_path_other split: option.splits)

lemma build_env_other:
  assumes "k \<noteq> ''PATH''" and "k \<noteq> ''MOJO_PYTHON_LIBRARY''" and "k \<noteq> ''M0_CORE_LIB''"
  shows "build_env i e k = e k"
  using with_path_other [OF assms(1), of i e] assms(2,3)
  unfolding build_env_def Let_def by (simp split: option.split)

lemma build_env_keeps: "e k = Some v \<Longrightarrow> k \<noteq> ''PATH'' \<Longrightarrow> build_env i e k = Some v"
proof (cases "k = ''MOJO_PYTHON_LIBRARY'' \<or> k = ''M0_CORE_LIB''")
  case True
  assume "e k = Some v"
  with True show ?thesis using build_env_lib [of i e] build_env_core [of i e] by (elim disjE) (hypsubst, simp)+
next
  case False
  assume "e k = Some v" and "k \<noteq> ''PATH''"
  moreover from False have "k \<noteq> ''MOJO_PYTHON_LIBRARY''" and "k \<noteq> ''M0_CORE_LIB''" by blast+
  ultimately show ?thesis using build_env_other [of k i e] by metis
qed

lemma build_env_fix:
  assumes "with_path i e = e" and "e ''MOJO_PYTHON_LIBRARY'' \<noteq> None \<or> libpython (file_there i) (candidates_here i) = None"
    and "e ''M0_CORE_LIB'' \<noteq> None \<or> core_lib i = None"
  shows "build_env i e = e"
  using assms by (auto simp: build_env_def Let_def)

text \<open>
  The environment the server is given. This interpreter's directory is first on PATH;
  nothing else a user set is changed and nothing else is added but the two libraries; and
  building it again from itself changes nothing, so a nested launch is given the same.
\<close>

lemma build_env_stable:
  assumes "CHR '':'' \<notin> set (bin_dir i)"
  shows "take 1 (split_on (CHR '':'') (env_or (build_env i e) ''PATH'' [])) = [bin_dir i]"
    and "e k = Some v \<Longrightarrow> k \<noteq> ''PATH'' \<Longrightarrow> build_env i e k = Some v"
    and "k \<notin> {''PATH'', ''MOJO_PYTHON_LIBRARY'', ''M0_CORE_LIB''} \<Longrightarrow> build_env i e k = e k"
    and "build_env i (build_env i e) = build_env i e"
proof -
  show first: "take 1 (split_on (CHR '':'') (env_or (build_env i e) ''PATH'' [])) = [bin_dir i]"
    using with_path_first [OF assms, of e] by (simp add: env_or_def build_env_path)
  show "e k = Some v \<Longrightarrow> k \<noteq> ''PATH'' \<Longrightarrow> build_env i e k = Some v"
    by (rule build_env_keeps)
  show "k \<notin> {''PATH'', ''MOJO_PYTHON_LIBRARY'', ''M0_CORE_LIB''} \<Longrightarrow> build_env i e k = e k"
    using build_env_other [of k i e] by blast
  have w: "with_path i (build_env i e) = build_env i e"
    using first by (simp add: with_path_def Let_def)
  show "build_env i (build_env i e) = build_env i e"
    by (rule build_env_fix [OF w]) (auto simp: build_env_lib build_env_core split: option.split)
qed

definition demo_install :: install where
  "demo_install = \<lparr>here = pure_path ''/site/m0serve'', executable = ''/venv/bin/python'', os_nt = False,
     sysconfig_of = [''LIBDIR'' \<mapsto> ''/opt/lib''], base_prefix_of = ''/opt'', on_darwin = False,
     file_there = (\<lambda>_. False), exists_there = (\<lambda>_. True)\<rparr>"

lemma demo_bin: "bin_dir demo_install = ''/venv/bin''"
  by (simp add: bin_dir_def demo_install_def pure_path_def path_parent_def path_str_def starts_with_def)

lemma build_env_stable_witness:
  "build_env demo_install (build_env demo_install [''PATH'' \<mapsto> ''/bin'']) = build_env demo_install [''PATH'' \<mapsto> ''/bin'']"
  by (rule build_env_stable(4)) (simp add: demo_bin)

text \<open>
  The launcher refuses exactly when the runtime would die: the server is there, no
  candidate library is a file, the user named neither library nor interpreter, and no flag
  asks for an answer that needs no interpreter. Otherwise a server that is there is
  executed, with the caller's arguments and an environment that then names a library
  wherever one was found.
\<close>

lemma launch_decision:
  "((\<exists>m. launch_main i argv e = Refuse m) \<longleftrightarrow>
     exists_there i (exe_of i) \<and> e ''MOJO_PYTHON_LIBRARY'' = None \<and> e ''MOJO_PYTHON'' = None \<and>
     (\<forall>c\<in>set (candidates_here i). \<not> file_there i c) \<and> (\<forall>a\<in>set (drop 1 argv). a \<notin> set NO_PYTHON)) \<and>
   ((\<exists>m. launch_main i argv e = ExitMessage m) \<longleftrightarrow> \<not> exists_there i (exe_of i)) \<and>
   (\<forall>prog args env. launch_main i argv e = Exec prog args env \<longrightarrow>
     drop 1 args = drop 1 argv \<and> args \<noteq> [] \<and> hd args = prog \<and> env = build_env i e)"
proof (intro conjI)
  have "build_env i e ''MOJO_PYTHON_LIBRARY'' = None \<longleftrightarrow>
      e ''MOJO_PYTHON_LIBRARY'' = None \<and> (\<forall>c\<in>set (candidates_here i). \<not> file_there i c)"
    using find_None_iff [of "file_there i" "candidates_here i"]
    by (auto simp: build_env_lib libpython_def split: option.splits)
  moreover have "build_env i e ''MOJO_PYTHON'' = e ''MOJO_PYTHON''"
    by (rule build_env_other) simp_all
  ultimately show "(\<exists>m. launch_main i argv e = Refuse m) \<longleftrightarrow>
     exists_there i (exe_of i) \<and> e ''MOJO_PYTHON_LIBRARY'' = None \<and> e ''MOJO_PYTHON'' = None \<and>
     (\<forall>c\<in>set (candidates_here i). \<not> file_there i c) \<and> (\<forall>a\<in>set (drop 1 argv). a \<notin> set NO_PYTHON)"
    by (auto simp: launch_main_def Let_def list_ex_iff)
qed (auto simp: launch_main_def Let_def split: if_splits)

lemma launch_decision_witness:
  "drop 1 [path_str (exe_of demo_install), ''-V''] = [''-V''] \<and>
   (\<exists>prog args env. launch_main demo_install [''m0serve'', ''-V''] Map.empty = Exec prog args env \<and>
      drop 1 args = [''-V''] \<and> env = build_env demo_install Map.empty)"
proof -
  have "\<exists>prog args env. launch_main demo_install [''m0serve'', ''-V''] Map.empty = Exec prog args env"
    by (simp add: launch_main_def demo_install_def NO_PYTHON_def Let_def)
  then obtain prog args env where l: "launch_main demo_install [''m0serve'', ''-V''] Map.empty = Exec prog args env"
    by blast
  from launch_decision [of demo_install "[''m0serve'', ''-V'']" Map.empty] l show ?thesis by auto
qed

end
