(* ===== verification/M0_Checks.thy ===== *)
theory M0_Checks
  imports Py_Paths
begin

text \<open>
  The command line's paths and its one list of checks (packaging/m0/src/m0/paths.py and
  checks.py): each check is a verdict over facts gathered from the machine, \<open>preflight\<close> the
  first that fails, \<open>run_all\<close> what the doctor reads.
\<close>

section \<open>Paths\<close>

definition ENTRY :: string where "ENTRY = ''src/server.mojo''"
definition BINARY :: string where "BINARY = ''bin/server''"
definition BINARY_NEXT :: string where "BINARY_NEXT = ''bin/.server.next''"
definition RELEASE_DIR :: string where "RELEASE_DIR = ''dist''"

text \<open>The package's directory is the argument of what is found beside it.\<close>

definition include_root :: "pure_path \<Rightarrow> pure_path" where
  "include_root package = path_div package ''_mojo''"

definition tools_dir :: "pure_path \<Rightarrow> pure_path" where
  "tools_dir package = path_div package ''_tools''"

definition release_licenses_dirs :: "pure_path \<Rightarrow> pure_path list" where
  "release_licenses_dirs package = [path_div package ''licenses'', path_div package ''_release'']"

definition mojo_bin :: "string \<Rightarrow> pure_path" where
  "mojo_bin sys_prefix = path_div (path_div (pure_path sys_prefix) ''bin'') ''mojo''"

definition toolchain_env :: "string \<Rightarrow> env \<Rightarrow> env \<Rightarrow> env" where
  "toolchain_env sys_prefix os_env extra =
     os_env(''PATH'' \<mapsto> path_str (path_div (pure_path sys_prefix) ''bin'') @ '':'' @ env_or os_env ''PATH'' []) ++ extra"

section \<open>Results\<close>

record result =
  r_name :: string
  r_ok :: bool
  r_detail :: string
  r_fix :: string
  r_exit :: int

definition REFUSED :: int where "REFUSED = 78"

definition passed :: "string \<Rightarrow> string \<Rightarrow> result" where
  "passed name detail = \<lparr>r_name = name, r_ok = True, r_detail = detail, r_fix = [], r_exit = 0\<rparr>"

definition failed :: "string \<Rightarrow> string \<Rightarrow> string \<Rightarrow> result" where
  "failed name detail fix_text =
     \<lparr>r_name = name, r_ok = False, r_detail = detail, r_fix = fix_text, r_exit = REFUSED\<rparr>"

definition sentence :: "result \<Rightarrow> string" where
  "sentence r = ''m0: '' @ r_detail r @ '' ('' @ r_fix r @ '')''"

datatype json =
    JNull
  | JBool bool
  | JInt int
  | JStr string
  | JList "json list"
  | JObj "(string \<times> json) list"

definition as_json :: "result \<Rightarrow> json" where
  "as_json r =
     JObj ([(''name'', JStr (r_name r)), (''ok'', JBool (r_ok r)), (''detail'', JStr (r_detail r))] @
       (if r_ok r then [] else [(''fix'', JStr (r_fix r)), (''exit'', JInt (r_exit r))]))"

section \<open>The machine\<close>

text \<open>
  What the checks gather: the platform, the distributions installed in m0's environment,
  the wheel's build record, the programs on PATH, the link probe, and the project.
\<close>

datatype link_run = LinkNotRun string | LinkDone int string

record machine =
  sys_platform :: string
  machine_name :: string
  confstr_libc :: "string option"
  sys_prefix :: string
  venv_is_prefix :: bool
  venv_has_mojo :: bool
  mojo_bin_exists :: bool
  m0_ver :: string
  mojo_ver :: "string option"
  max_ver :: "string option"
  gated_mojo :: "string list"
  gated_max :: "string list"
  which :: "string \<Rightarrow> string option"
  xcode_ok :: bool
  link_probe :: "string \<Rightarrow> link_run"
  project_dir :: string
  entry_is_file :: bool

definition head_or_empty :: "string list \<Rightarrow> string" where
  "head_or_empty xs = (case xs of [] \<Rightarrow> [] | x # _ \<Rightarrow> x)"

definition pin_fix :: "string list \<Rightarrow> string option \<Rightarrow> string list \<Rightarrow> string" where
  "pin_fix gated max_installed gated_max_list =
     ''uv add --dev 'mojo=='' @ head_or_empty gated @ [CHR 0x27] @
     (if max_installed \<noteq> None \<and> gated_max_list \<noteq> []
      then '' 'max-core=='' @ head_or_empty gated_max_list @ [CHR 0x27] else [])"

definition max_fix :: "string list \<Rightarrow> string" where
  "max_fix gated = ''uv add --dev 'max-core=='' @ head_or_empty gated @ [CHR 0x27]"

section \<open>The verdicts\<close>

definition SUPPORTED :: string where
  "SUPPORTED = ''macOS arm64, and glibc Linux on x86-64 or aarch64''"

definition platform_verdict :: "string \<Rightarrow> string \<Rightarrow> string \<Rightarrow> result" where
  "platform_verdict system mach libc =
     (if system = ''darwin'' \<and> mach = ''arm64'' then passed ''platform'' ''macos arm64''
      else if system = ''linux'' \<and> mach \<in> {''x86_64'', ''aarch64''} \<and> libc = ''glibc''
      then passed ''platform'' (''linux '' @ mach @ '' glibc'')
      else failed ''platform''
        (''Mojo has no toolchain for '' @ system @ '' '' @ mach @
          (if system = ''linux'' then '' '' @ libc else []) @ ''; m0 builds on '' @ SUPPORTED)
        ''there is no fix on this machine'')"

definition libc_of :: "machine \<Rightarrow> string" where
  "libc_of m = (case confstr_libc m of None \<Rightarrow> ''not-glibc'' | Some v \<Rightarrow> if v \<noteq> [] then ''glibc'' else ''unknown'')"

definition check_platform :: "machine \<Rightarrow> result" where
  "check_platform m =
     platform_verdict (sys_platform m) (machine_name m) (if sys_platform m = ''linux'' then libc_of m else [])"

definition installed_verdict ::
    "string \<Rightarrow> bool \<Rightarrow> bool \<Rightarrow> string option \<Rightarrow> bool \<Rightarrow> string list \<Rightarrow> result" where
  "installed_verdict prefix venv_mojo in_venv installed binary gated =
     (if venv_mojo \<and> \<not> in_venv
      then failed ''mojo-installed''
        (''this m0 runs from '' @ path_str (pure_path prefix) @ '', not this project's .venv'') ''uv run m0 <command>''
      else if installed = None \<or> \<not> binary
      then failed ''mojo-installed'' ''mojo is not installed in this environment'' (pin_fix gated None [])
      else passed ''mojo-installed'' (path_str (mojo_bin prefix)))"

definition check_mojo_installed :: "machine \<Rightarrow> result" where
  "check_mojo_installed m =
     installed_verdict (sys_prefix m) (venv_has_mojo m) (venv_is_prefix m) (mojo_ver m) (mojo_bin_exists m) (gated_mojo m)"

definition gated_verdict ::
    "string \<Rightarrow> string option \<Rightarrow> string list \<Rightarrow> string option \<Rightarrow> string list \<Rightarrow> result" where
  "gated_verdict m0 installed gated max_installed gated_max_list =
     (case installed of
        None \<Rightarrow> failed ''mojo-gated'' (''no mojo to compare with the gated '' @ head_or_empty gated) (pin_fix gated None [])
      | Some v \<Rightarrow>
          if v \<notin> set gated
          then failed ''mojo-gated''
            (''m0 '' @ m0 @ '' is gated on mojo '' @ head_or_empty gated @ '' and this environment has mojo '' @ v)
            (pin_fix gated max_installed gated_max_list)
          else passed ''mojo-gated'' (''mojo '' @ v))"

definition check_mojo_gated :: "machine \<Rightarrow> result" where
  "check_mojo_gated m = gated_verdict (m0_ver m) (mojo_ver m) (gated_mojo m) (max_ver m) (gated_max m)"

definition max_verdict :: "string \<Rightarrow> string option \<Rightarrow> string list \<Rightarrow> result" where
  "max_verdict m0 installed gated =
     (case installed of
        None \<Rightarrow> passed ''max-gated''
          (''max-core is not installed (optional; '' @ max_fix gated @ '' for parallelize)'')
      | Some v \<Rightarrow>
          if v \<noteq> head_or_empty gated
          then failed ''max-gated''
            (''m0 '' @ m0 @ '' is gated beside max-core '' @ head_or_empty gated @
              '' and this environment has max-core '' @ v) (max_fix gated)
          else passed ''max-gated'' (''max-core '' @ v))"

definition check_max_gated :: "machine \<Rightarrow> result" where
  "check_max_gated m = max_verdict (m0_ver m) (max_ver m) (gated_max m)"

definition linux_fix :: "machine \<Rightarrow> string" where
  "linux_fix m =
     (if truthy (which m ''apt-get'') then ''apt-get install build-essential''
      else if truthy (which m ''dnf'') then ''dnf install gcc glibc-devel''
      else ''install a C toolchain: apt-get install build-essential, or dnf install gcc glibc-devel'')"

definition compiler_verdict ::
    "string \<Rightarrow> bool \<Rightarrow> string option \<Rightarrow> string option \<Rightarrow> string option \<Rightarrow> string \<Rightarrow> result" where
  "compiler_verdict system clt_ok cc other link_error fix_text =
     (if system = ''darwin'' \<and> \<not> clt_ok
      then failed ''c-compiler''
        ''mojo links with cc and the Xcode command line tools are not installed'' ''xcode-select --install''
      else
        (case cc of
           None \<Rightarrow>
             (case other of
                Some o_name \<Rightarrow>
                  failed ''c-compiler''
                    (''mojo links with a compiler named cc and finds no other name; '' @ o_name @
                      '' is installed and cc is not on PATH'')
                    (''ln -s \"$(command -v '' @ o_name @ '')\" /usr/local/bin/cc'')
              | None \<Rightarrow>
                  failed ''c-compiler'' ''mojo links with cc and there is no cc on PATH''
                    (if system = ''darwin'' then ''add /usr/bin to PATH'' else fix_text))
         | Some c \<Rightarrow>
             if truthy link_error
             then failed ''c-compiler'' (c @ '' cannot link a C program: '' @ or_empty link_error)
               (if system = ''darwin'' then ''xcode-select --install'' else fix_text)
             else passed ''c-compiler'' c))"

text \<open>\<open>_link_error\<close>: the last line the linker said that is not blank.\<close>

definition link_error_of :: "link_run \<Rightarrow> string option" where
  "link_error_of run =
     (case run of
        LinkNotRun exc \<Rightarrow> Some exc
      | LinkDone code stderr_text \<Rightarrow>
          if code = 0 then None
          else
            let ls = filter (\<lambda>l. py_strip l \<noteq> []) (str_lines (py_strip stderr_text))
            in Some (if ls \<noteq> [] then py_strip (last ls) else ''exit '' @ show_int code))"

definition check_c_compiler :: "machine \<Rightarrow> result" where
  "check_c_compiler m =
     (let system = (if sys_platform m = ''darwin'' then ''darwin'' else ''linux'');
          clt_ok = (if system = ''darwin'' then xcode_ok m else True)
      in if \<not> clt_ok then compiler_verdict system False None None None []
         else
           let cc = which m ''cc'';
               other = (if cc = None then find (\<lambda>n. truthy (which m n)) [''gcc'', ''clang''] else None)
           in compiler_verdict system clt_ok cc other
                (if truthy cc then link_error_of (link_probe m (or_empty cc)) else None) (linux_fix m))"

definition patchelf_verdict :: "string \<Rightarrow> string option \<Rightarrow> string \<Rightarrow> result" where
  "patchelf_verdict system found fix_text =
     (if system \<noteq> ''linux'' then passed ''patchelf'' ''not needed on this platform''
      else (case found of
          None \<Rightarrow> failed ''patchelf''
            ''m0 build --release rewrites the binary's library search path with patchelf and there is none on PATH'' fix_text
        | Some p \<Rightarrow> passed ''patchelf'' p))"

definition check_patchelf :: "machine \<Rightarrow> result" where
  "check_patchelf m =
     patchelf_verdict (if sys_platform m = ''darwin'' then ''darwin'' else ''linux'') (which m ''patchelf'')
       (if truthy (which m ''apt-get'') then ''apt-get install patchelf''
        else if truthy (which m ''dnf'') then ''dnf install patchelf''
        else ''install patchelf'')"

definition check_project :: "machine \<Rightarrow> result" where
  "check_project m =
     (if entry_is_file m then passed ''project'' ENTRY
      else failed ''project'' (''there is no '' @ ENTRY @ '' in '' @ project_dir m) ''run m0 from the application's root'')"

section \<open>The list\<close>

definition CHECKS :: "(string \<times> (machine \<Rightarrow> result)) list" where
  "CHECKS = [(''platform'', check_platform), (''mojo-installed'', check_mojo_installed),
     (''mojo-gated'', check_mojo_gated), (''max-gated'', check_max_gated),
     (''c-compiler'', check_c_compiler), (''patchelf'', check_patchelf), (''project'', check_project)]"

definition RELEASE_ONLY :: "string list" where
  "RELEASE_ONLY = [''patchelf'']"

definition run_all :: "machine \<Rightarrow> result list" where
  "run_all m = map (\<lambda>(name, check). check m) (filter (\<lambda>(name, check). name \<notin> set RELEASE_ONLY) CHECKS)"

text \<open>The loop of \<open>preflight\<close> over a list of checks, and \<open>preflight\<close> itself.\<close>

fun first_failing :: "string list \<Rightarrow> bool \<Rightarrow> machine \<Rightarrow> (string \<times> (machine \<Rightarrow> result)) list \<Rightarrow> result option" where
  "first_failing skip release m [] = None"
| "first_failing skip release m ((name, check) # cs) =
     (if name \<in> set skip \<or> (name \<in> set RELEASE_ONLY \<and> \<not> release) then first_failing skip release m cs
      else if \<not> r_ok (check m) then Some (check m)
      else first_failing skip release m cs)"

definition preflight :: "string list \<Rightarrow> bool \<Rightarrow> machine \<Rightarrow> result option" where
  "preflight skip release m = first_failing skip release m CHECKS"

text \<open>\<open>refuse\<close>: what is printed to stderr, and the exit.\<close>

definition refuse :: "result \<Rightarrow> string \<times> int" where
  "refuse r = (sentence r, r_exit r)"

section \<open>What the list promises\<close>

lemma passed_simps [simp]:
  "r_ok (passed n d)" "r_exit (passed n d) = 0" "r_name (passed n d) = n" "r_fix (passed n d) = []"
  by (simp_all add: passed_def)

lemma failed_simps [simp]:
  "\<not> r_ok (failed n d f)" "r_exit (failed n d f) = REFUSED" "r_name (failed n d f) = n"
  "r_fix (failed n d f) = f" "r_detail (failed n d f) = d"
  by (simp_all add: failed_def)

text \<open>
  A result of the check \<open>name\<close>: named so; either it passed with exit 0 and no fix, or it
  failed with exit 78.
\<close>

definition result_of :: "string \<Rightarrow> result \<Rightarrow> bool" where
  "result_of name r \<longleftrightarrow> r_name r = name \<and>
     (if r_ok r then r_exit r = 0 \<and> r_fix r = [] else r_exit r = REFUSED \<and> r_fix r \<noteq> [])"

named_theorems verdicts \<open>what each check is, for the properties of the list\<close>

lemma result_of_passed [simp]: "result_of n (passed k d) \<longleftrightarrow> k = n"
  by (auto simp: result_of_def)

lemma result_of_failed [simp]: "result_of n (failed k d f) \<longleftrightarrow> k = n \<and> f \<noteq> []"
  by (auto simp: result_of_def)

lemma platform_result [verdicts]: "result_of ''platform'' (check_platform m)"
  by (simp add: check_platform_def platform_verdict_def)

lemma installed_result [verdicts]: "result_of ''mojo-installed'' (check_mojo_installed m)"
  by (simp add: check_mojo_installed_def installed_verdict_def pin_fix_def)

lemma gated_result [verdicts]: "result_of ''mojo-gated'' (check_mojo_gated m)"
  by (simp add: check_mojo_gated_def gated_verdict_def pin_fix_def split: option.split)

lemma max_result [verdicts]: "result_of ''max-gated'' (check_max_gated m)"
  by (simp add: check_max_gated_def max_verdict_def max_fix_def split: option.split)

lemma compiler_result: "f \<noteq> [] \<or> (\<not> c \<and> s = ''darwin'') \<Longrightarrow> result_of ''c-compiler'' (compiler_verdict s c cc other e f)"
  by (auto simp: compiler_verdict_def split: option.split)

lemma c_compiler_result [verdicts]: "result_of ''c-compiler'' (check_c_compiler m)"
proof -
  have "linux_fix m \<noteq> []" by (simp add: linux_fix_def)
  then show ?thesis
    by (auto simp: check_c_compiler_def Let_def intro!: compiler_result)
qed

lemma patchelf_result [verdicts]: "result_of ''patchelf'' (check_patchelf m)"
  by (simp add: check_patchelf_def patchelf_verdict_def split: option.split)

lemma project_result [verdicts]: "result_of ''project'' (check_project m)"
  by (simp add: check_project_def)

lemma checks_results: "(name, check) \<in> set CHECKS \<Longrightarrow> result_of name (check m)"
  using verdicts [of m] unfolding CHECKS_def by auto

text \<open>
  C20. Every result of the list is well formed: it bears the name its check has in the
  list, and it either passed, with exit 0 and no fix to offer, or failed, with exit 78 and
  a fix.
\<close>

theorem checks_well_formed:
  "\<forall>(name, check) \<in> set CHECKS. result_of name (check m)"
  using checks_results by blast

theorem checks_well_formed_witness:
  "\<exists>m. result_of ''platform'' (check_platform m)"
proof -
  have "(''platform'', check_platform) \<in> set CHECKS" by (simp add: CHECKS_def)
  with checks_well_formed show ?thesis by fastforce
qed

definition asked :: "string list \<Rightarrow> bool \<Rightarrow> string \<Rightarrow> bool" where
  "asked skip release name \<longleftrightarrow> name \<notin> set skip \<and> (name \<in> set RELEASE_ONLY \<longrightarrow> release)"

lemma first_failing_asked:
  "first_failing skip release m ((name, check) # cs) =
     (if asked skip release name \<and> \<not> r_ok (check m) then Some (check m) else first_failing skip release m cs)"
  by (auto simp: asked_def)

lemma first_failing_find:
  "first_failing skip release m cs =
     find (\<lambda>r. \<not> r_ok r) (map (\<lambda>(name, check). check m) (filter (\<lambda>(name, check). asked skip release name) cs))"
  by (induction cs) (auto simp: first_failing_asked simp del: first_failing.simps(2))

lemma first_failing_split:
  "first_failing skip release m cs = Some r \<Longrightarrow>
    \<exists>before name check after. cs = before @ (name, check) # after \<and> r = check m \<and> asked skip release name \<and>
        \<not> r_ok r \<and> (\<forall>(n, c) \<in> set before. asked skip release n \<longrightarrow> r_ok (c m))"
proof (induction cs)
  case (Cons x cs)
  obtain name check where x: "x = (name, check)" by force
  show ?case
  proof (cases "asked skip release name \<and> \<not> r_ok (check m)")
    case True
    then show ?thesis using Cons.prems x
      by (intro exI [of _ "[] :: (string \<times> (machine \<Rightarrow> result)) list"] exI [of _ name] exI [of _ check] exI [of _ cs])
         (auto simp: asked_def)
  next
    case False
    then have "first_failing skip release m cs = Some r"
      using Cons.prems x by (auto simp: asked_def split: if_splits)
    then obtain before n c after where "cs = before @ (n, c) # after" "r = c m" "asked skip release n"
      "\<not> r_ok r" "\<forall>(n, c) \<in> set before. asked skip release n \<longrightarrow> r_ok (c m)"
      using Cons.IH by blast
    then show ?thesis using False x
      by (intro exI [of _ "x # before"] exI [of _ n] exI [of _ c] exI [of _ after]) auto
  qed
qed simp

lemma preflight_refused: "preflight skip release m = Some r \<Longrightarrow> \<not> r_ok r \<and> r_exit r = REFUSED"
proof -
  assume "preflight skip release m = Some r"
  then obtain before name check after where h: "CHECKS = before @ (name, check) # after" "r = check m" "\<not> r_ok r"
    using first_failing_split unfolding preflight_def by blast
  have "(name, check) \<in> set CHECKS" unfolding h(1) by simp
  then have "result_of name r" using h(2) checks_results by blast
  with h(3) show ?thesis by (simp add: result_of_def)
qed

text \<open>
  C19. The doctor and the commands cannot disagree: \<open>preflight\<close> without options stops at
  exactly the first failure in the doctor's list, in the doctor's order, and passes exactly
  when everything the doctor prints passed. With \<open>release\<close> or \<open>skip\<close> it is the first
  failure among the checks asked, and a refusal is that check's sentence with exit 78.
\<close>

theorem doctor_agrees_with_preflight:
  "preflight [] False m = find (\<lambda>r. \<not> r_ok r) (run_all m) \<and>
   (preflight [] False m = None \<longleftrightarrow> (\<forall>r\<in>set (run_all m). r_ok r)) \<and>
   (\<forall>r. preflight skip release m = Some r \<longrightarrow>
     \<not> r_ok r \<and> snd (refuse r) = REFUSED \<and> asked skip release (r_name r) \<and>
     (\<exists>before check after. CHECKS = before @ (r_name r, check) # after \<and> r = check m \<and>
        (\<forall>(n, c) \<in> set before. asked skip release n \<longrightarrow> r_ok (c m))))"
proof (intro conjI allI impI)
  show eq: "preflight [] False m = find (\<lambda>r. \<not> r_ok r) (run_all m)"
    by (simp add: preflight_def first_failing_find run_all_def asked_def)
  show "preflight [] False m = None \<longleftrightarrow> (\<forall>r\<in>set (run_all m). r_ok r)"
    unfolding eq by (auto simp: find_None_iff)
next
  fix r
  assume "preflight skip release m = Some r"
  then obtain before name check after where h: "CHECKS = before @ (name, check) # after" "r = check m"
    "asked skip release name" "\<not> r_ok r" "\<forall>(n, c) \<in> set before. asked skip release n \<longrightarrow> r_ok (c m)"
    using first_failing_split unfolding preflight_def by blast
  have "(name, check) \<in> set CHECKS" unfolding h(1) by simp
  then have res: "result_of name r" using h(2) checks_results by blast
  show "\<not> r_ok r" by (rule h(4))
  show "snd (refuse r) = REFUSED" and "asked skip release (r_name r)"
    using res h(3,4) by (simp_all add: result_of_def refuse_def)
  have "r_name r = name" using res by (simp add: result_of_def)
  with h show "\<exists>before check after. CHECKS = before @ (r_name r, check) # after \<and> r = check m \<and>
        (\<forall>(n, c) \<in> set before. asked skip release n \<longrightarrow> r_ok (c m))"
    by blast
qed

definition bare_machine :: machine where
  "bare_machine = \<lparr>sys_platform = ''linux'', machine_name = ''riscv64'', confstr_libc = Some ''glibc 2.36'',
     sys_prefix = ''/venv'', venv_is_prefix = True, venv_has_mojo = False, mojo_bin_exists = False,
     m0_ver = ''0.14.0'', mojo_ver = None, max_ver = None, gated_mojo = [''1.1.0''], gated_max = [''1.1.0''],
     which = (\<lambda>_. None), xcode_ok = True, link_probe = (\<lambda>_. LinkDone 0 []), project_dir = ''/app'',
     entry_is_file = False\<rparr>"

theorem doctor_agrees_with_preflight_witness:
  "\<exists>r. preflight [] False bare_machine = Some r \<and> snd (refuse r) = 78 \<and> \<not> r_ok r"
proof -
  have "preflight [] False bare_machine \<noteq> None"
    by (simp add: preflight_def CHECKS_def check_platform_def platform_verdict_def bare_machine_def RELEASE_ONLY_def)
  then obtain r where r: "preflight [] False bare_machine = Some r" by blast
  then have "\<not> r_ok r \<and> snd (refuse r) = REFUSED"
    using doctor_agrees_with_preflight [of bare_machine "[]" False] by blast
  with r show ?thesis by (simp add: REFUSED_def)
qed

end
