(* ===== verification/M0_New.thy ===== *)
theory M0_New
  imports M0_Checks
begin

text \<open>
  \<open>m0 new\<close> (packaging/m0/src/m0/new.py): the closed list of what each template writes, the
  names it accepts, the four tokens it replaces, and the command: everything it prints and
  writes as a function of what it finds.
\<close>

section \<open>The closed lists\<close>

definition ABOUT :: "(string \<times> string) list" where
  "ABOUT = [
    (''views'', ''a server-rendered list swapped by htmx 4''),
    (''live'', ''a producer pushing state to every tab over SSE, with Datastar''),
    (''board'', ''a list every tab shares, a message one tab posts reaching every open tab''),
    (''auth'', ''the views list behind a login, with a signed session and a CSRF token on every write'')]"

definition TEMPLATES :: "string list" where "TEMPLATES = map fst ABOUT"
definition TEMPLATE_DEFAULT :: string where "TEMPLATE_DEFAULT = ''views''"
definition NAME_MAX :: nat where "NAME_MAX = 40"

definition COMMON :: "string list" where
  "COMMON = [''AGENTS.md'', ''CLAUDE.md'', ''README.md'', ''pyproject.toml'', ''dot-gitignore'', ''dot-dockerignore'',
     ''dot-github/workflows/test.yml'', ''deploy/Dockerfile'', ''deploy/README.md'', ''deploy/fly.toml'']"

definition MANIFEST :: "(string \<times> string list) list" where
  "MANIFEST = [
    (''views'', [''smoke.sh'', ''src/pages.mojo'', ''src/server.mojo'', ''src/views.mojo'', ''test/test_views.mojo'']),
    (''live'', [''smoke.sh'', ''src/board.mojo'', ''src/pages.mojo'', ''src/server.mojo'', ''src/store.mojo'',
       ''src/views.mojo'', ''src/wave.mojo'', ''test/test_live.mojo'']),
    (''board'', [''smoke.sh'', ''src/pages.mojo'', ''src/server.mojo'', ''src/views.mojo'', ''test/test_board.mojo'']),
    (''auth'', [''smoke.sh'', ''src/pages.mojo'', ''src/server.mojo'', ''src/views.mojo'', ''test/test_auth.mojo''])]"

definition EXECUTABLE :: "string list" where "EXECUTABLE = [''smoke.sh'']"
definition EARLY_CHECKS :: "string list" where "EARLY_CHECKS = [''platform'', ''c-compiler'']"

definition ENV_HINT :: "(string \<times> string) list" where
  "ENV_HINT = [(''auth'', ''export APP_KEY=\"$(openssl rand -hex 32)\" APP_PASSWORD='choose one' APP_SECURE=0'')]"

definition manifest_of :: "string \<Rightarrow> string list" where
  "manifest_of template = (case map_of MANIFEST template of None \<Rightarrow> [] | Some ns \<Rightarrow> ns)"

section \<open>Names and paths\<close>

definition lower_letter :: "char \<Rightarrow> bool" where
  "lower_letter c \<longleftrightarrow> (let n = of_char c :: nat in 97 \<le> n \<and> n \<le> 122)"

definition ascii_letter :: "char \<Rightarrow> bool" where
  "ascii_letter c \<longleftrightarrow> (let n = of_char c :: nat in (97 \<le> n \<and> n \<le> 122) \<or> (65 \<le> n \<and> n \<le> 90))"

definition ascii_digit :: "char \<Rightarrow> bool" where
  "ascii_digit c \<longleftrightarrow> (let n = of_char c :: nat in 48 \<le> n \<and> n \<le> 57)"

text \<open>
  \<open>NAME.match\<close>: a letter, and then either the end or any letters, digits and hyphens that
  end with a letter or digit.
\<close>

definition name_match :: "string \<Rightarrow> bool" where
  "name_match s =
     (case s of
        [] \<Rightarrow> False
      | c # cs \<Rightarrow> lower_letter c \<and>
          (cs = [] \<or> (list_all (\<lambda>x. lower_letter x \<or> ascii_digit x \<or> x = CHR ''-'') (butlast cs) \<and>
             (lower_letter (last cs) \<or> ascii_digit (last cs)))))"

definition pin_char :: "char \<Rightarrow> bool" where
  "pin_char c \<longleftrightarrow> ascii_letter c \<or> ascii_digit c \<or> c \<in> {CHR ''_'', CHR ''.'', CHR ''-''}"

text \<open>\<open>re.findall\<close> of a letter and more name characters up to \<open>==\<close>.\<close>

function find_pins :: "string \<Rightarrow> string list" where
  "find_pins [] = []"
| "find_pins (c # cs) =
     (let word = c # takeWhile pin_char cs; rest = dropWhile pin_char cs
      in if ascii_letter c \<and> starts_with ''=='' rest then word # find_pins (drop 2 rest)
         else find_pins cs)"
  by pat_completeness auto
termination
proof (relation "measure length")
  fix c :: char and cs word rest
  assume "rest = dropWhile pin_char cs"
  then have "length rest \<le> length cs" by (simp add: length_dropWhile_le)
  then show "(drop 2 rest, c # cs) \<in> measure length" by simp
qed auto

declare find_pins.simps [simp del]

definition pinned_names :: "string \<Rightarrow> string list" where
  "pinned_names pyproject_text = find_pins pyproject_text @ [''mojo-compiler'']"

definition target_path :: "string \<Rightarrow> pure_path" where
  "target_path relative =
     pure_path (join ''/'' (map (\<lambda>p. if starts_with ''dot-'' p then CHR ''.'' # drop 4 p else p)
       (split_on (CHR ''/'') relative)))"

definition written_paths :: "string \<Rightarrow> string list" where
  "written_paths template = sort (map (path_str \<circ> target_path) (COMMON @ manifest_of template))"

definition render :: "string \<Rightarrow> string \<Rightarrow> string \<Rightarrow> string \<Rightarrow> string \<Rightarrow> string" where
  "render text_in app m0_version mojo_version max_version =
     replace_all ''__M0_MAX_VERSION__'' max_version
       (replace_all ''__MOJO_VERSION__'' mojo_version
         (replace_all ''__M0_VERSION__'' m0_version
           (replace_all ''__M0_APP__'' app text_in)))"

definition pad_to :: "nat \<Rightarrow> string \<Rightarrow> string" where
  "pad_to w s = s @ replicate (w - length s) (CHR 0x20)"

definition listing :: "string \<Rightarrow> string list \<Rightarrow> string" where
  "listing indent names =
     (let width = foldr max (map length TEMPLATES) 0
      in join [CHR 0x0A] (map (\<lambda>n. indent @ pad_to width n @ ''  '' @ or_empty (map_of ABOUT n) @
           (if n = TEMPLATE_DEFAULT then '' (the default)'' else [])) names))"

section \<open>The command\<close>

text \<open>
  What the command finds: whether the target is the current directory, its resolved name,
  what is there, and the wheel's template files by their path under \<open>templates/\<close>.
\<close>

datatype target_state = Absent | NotADirectory | Directory "string list"

record new_world =
  nw_here :: bool
  nw_resolved_name :: string
  nw_target :: target_state
  nw_template :: "string \<Rightarrow> string option"
  nw_package :: pure_path
  nw_machine :: machine

record new_result =
  nr_exit :: int
  nr_out :: "string list"
  nr_err :: "string list"
  nr_writes :: "(string \<times> string \<times> bool) list"

definition usage_error :: "string \<Rightarrow> new_result" where
  "usage_error m = \<lparr>nr_exit = 2, nr_out = [], nr_err = [''m0 new: '' @ m], nr_writes = []\<rparr>"

text \<open>\<open>_entries\<close>: what would be written among; a repository's \<open>.git\<close> is not counted.\<close>

definition occupied :: "target_state \<Rightarrow> bool" where
  "occupied t =
     (case t of Absent \<Rightarrow> True | NotADirectory \<Rightarrow> True
      | Directory names \<Rightarrow> filter (\<lambda>n. n \<noteq> ''.git'') names \<noteq> [])"

definition target_taken :: "target_state \<Rightarrow> bool" where
  "target_taken t = (case t of Absent \<Rightarrow> False | NotADirectory \<Rightarrow> True | Directory _ \<Rightarrow> occupied t)"

definition app_of :: "string \<Rightarrow> new_world \<Rightarrow> string" where
  "app_of name w = (if path_name (pure_path name) \<noteq> [] then path_name (pure_path name) else nw_resolved_name w)"

text \<open>The sources in order, each with the name of what it becomes.\<close>

definition sources_of :: "string \<Rightarrow> (string \<times> string) list" where
  "sources_of template =
     map (\<lambda>n. (''_common/'' @ n, n)) COMMON @ map (\<lambda>n. (template @ ''/'' @ n, n)) (manifest_of template)"

definition write_of :: "string \<Rightarrow> string \<Rightarrow> new_world \<Rightarrow> string \<times> string \<Rightarrow> string \<times> string \<times> bool" where
  "write_of name app w src =
     (let m = nw_machine w
      in (path_str (path_div (pure_path name) (path_str (target_path (snd src)))),
          render (or_empty (nw_template w (fst src))) app (m0_ver m) (head_or_empty (gated_mojo m))
            (head_or_empty (gated_max m)),
          snd src \<in> set EXECUTABLE))"

definition early_lines :: "machine \<Rightarrow> string list" where
  "early_lines m =
     (let failing = filter (\<lambda>r. \<not> r_ok r)
            (map (\<lambda>(n, check). check m) (filter (\<lambda>(n, check). n \<in> set EARLY_CHECKS) CHECKS))
      in if failing = [] then []
         else [[], ''before `m0 build`:''] @ map (\<lambda>r. ''    '' @ r_detail r @ '' ('' @ r_fix r @ '')'') failing)"

definition new_lines :: "string \<Rightarrow> string \<Rightarrow> string \<Rightarrow> bool \<Rightarrow> new_world \<Rightarrow> string list" where
  "new_lines name app template defaulted w =
     (let said = template @ (if defaulted then '', the default'' else []);
          shown = (if starts_with ''/'' name then name else ''./'' @ name)
      in [if nw_here w then ''m0: wrote the current directory as '' @ app @ '' (template: '' @ said @ '')''
          else ''m0: wrote '' @ shown @ '' (template: '' @ said @ '')'', []] @
         (if nw_here w then [] else [''    cd '' @ name]) @ [''    uv sync''] @
         (case map_of ENV_HINT template of None \<Rightarrow> [] | Some h \<Rightarrow> [''    '' @ h]) @
         [''    uv run m0 build && bin/server --host 127.0.0.1 --port 8080'', [],
          ''AGENTS.md is the page to read first; `uv run m0 test` is the fast loop.''] @
         (if defaulted
          then [[], TEMPLATE_DEFAULT @ '' is the default; the others, for `m0 new NAME --template T` into an empty directory:'',
                listing ''    '' (filter (\<lambda>t. t \<noteq> TEMPLATE_DEFAULT) TEMPLATES)]
          else []) @
         early_lines (nw_machine w))"

text \<open>\<open>run\<close>; \<open>None\<close> where reading the scaffold's pyproject raises (a broken wheel).\<close>

definition new_run :: "string \<Rightarrow> string option \<Rightarrow> new_world \<Rightarrow> new_result option" where
  "new_run name template_arg w =
     (let template = (if truthy template_arg then or_empty template_arg else TEMPLATE_DEFAULT);
          app = app_of name w;
          apos = [CHR 0x27];
          shown = (if starts_with ''/'' name then name else ''./'' @ name)
      in if \<not> name_match app \<or> NAME_MAX < length app
         then Some (usage_error ((if nw_here w then ''the current directory's name '' else []) @ apos @ app @ apos @
           '' is not a usable name (lowercase letters, digits and hyphens, starting with a letter and ending with a letter or digit, at most 40)''))
         else
           (case nw_template w ''_common/pyproject.toml'' of
              None \<Rightarrow> None
            | Some pyproject \<Rightarrow>
                if app \<in> set (pinned_names pyproject)
                then Some (usage_error (apos @ app @ apos @
                  '' is the name of a package the project requires, and a project cannot depend on itself (choose another name)''))
                else if nw_here w \<and> occupied (nw_target w)
                then Some (usage_error ''the current directory is not empty (empty it, or name a new directory)'')
                else if target_taken (nw_target w)
                then Some (usage_error (shown @ '' exists and is not empty (choose another name, or empty it)''))
                else
                  (case filter (\<lambda>(src, n). nw_template w src = None) (sources_of template) of
                     (src, _) # _ \<Rightarrow>
                       Some \<lparr>nr_exit = 1, nr_out = [],
                         nr_err = [''m0: this m0 is missing template files ('' @
                           path_str (path_div (path_div (nw_package w) ''templates'') src) @ ''); reinstall it''],
                         nr_writes = []\<rparr>
                   | [] \<Rightarrow>
                       Some \<lparr>nr_exit = 0, nr_out = new_lines name app template (template_arg = None) w, nr_err = [],
                         nr_writes = map (write_of name app w) (sources_of template)\<rparr>)))"

section \<open>What the command promises\<close>

text \<open>
  \<open>m0 new\<close> writes all or nothing. It writes only when it exits 0; then into a target
  that holds nothing but perhaps a \<open>.git\<close>, one file per name of the closed list and no
  other, each at its place under the target, the smoke script alone executable; and the
  name it wrote is one a project, a container and a host can bear.
\<close>

lemma new_writes_all_or_nothing:
  assumes "new_run name template_arg w = Some r"
  shows "(nr_exit r \<noteq> 0 \<longrightarrow> nr_writes r = []) \<and>
    (nr_exit r = 0 \<longrightarrow>
      (\<exists>template. template = (if truthy template_arg then or_empty template_arg else TEMPLATE_DEFAULT) \<and>
        map fst (nr_writes r) = map (\<lambda>n. path_str (path_div (pure_path name) (path_str (target_path n))))
          (COMMON @ manifest_of template) \<and>
        map (snd \<circ> snd) (nr_writes r) = map (\<lambda>n. n = ''smoke.sh'') (COMMON @ manifest_of template)) \<and>
      (nw_target w = Absent \<or> nw_target w = Directory [] \<or> (\<exists>ns. nw_target w = Directory ns \<and> set ns \<subseteq> {''.git''})) \<and>
      name_match (app_of name w) \<and> length (app_of name w) \<le> NAME_MAX)"
proof -
  define template where "template = (if truthy template_arg then or_empty template_arg else TEMPLATE_DEFAULT)"
  have fst: "map fst (map (write_of name app w) (sources_of t))
      = map (\<lambda>n. path_str (path_div (pure_path name) (path_str (target_path n)))) (COMMON @ manifest_of t)" for app t
    by (simp add: sources_of_def write_of_def Let_def o_def)
  have ex: "map (snd \<circ> snd) (map (write_of name app w) (sources_of t)) = map (\<lambda>n. n = ''smoke.sh'') (COMMON @ manifest_of t)"
    for app t
    by (simp add: sources_of_def write_of_def Let_def o_def EXECUTABLE_def)
  have taken: "nw_target w = Absent \<or> (\<exists>ns. nw_target w = Directory ns \<and> set ns \<subseteq> {''.git''})"
    if "\<not> target_taken (nw_target w)"
    using that by (auto simp: target_taken_def occupied_def filter_empty_conv split: target_state.splits)
  show ?thesis
  proof (cases "nr_exit r = 0")
    case False
    then show ?thesis using assms
      by (auto simp: new_run_def usage_error_def Let_def split: if_splits option.splits list.splits)
  next
    case True
    then have ok: "name_match (app_of name w)" "length (app_of name w) \<le> NAME_MAX" "\<not> target_taken (nw_target w)"
      and ws: "nr_writes r = map (write_of name (app_of name w) w) (sources_of template)"
      using assms unfolding template_def [symmetric] new_run_def
      by (auto simp: usage_error_def Let_def split: if_splits option.splits list.splits)
    show ?thesis using True ok taken [OF ok(3)] unfolding ws fst ex template_def by auto
  qed
qed

definition empty_place :: new_world where
  "empty_place = \<lparr>nw_here = False, nw_resolved_name = ''blog'', nw_target = Absent,
     nw_template = (\<lambda>_. Some []), nw_package = pure_path ''/site/m0'', nw_machine = bare_machine\<rparr>"

lemma new_writes_all_or_nothing_witness:
  "\<exists>r. new_run ''blog'' (Some ''auth'') empty_place = Some r \<and> nr_exit r = 0 \<and>
     length (nr_writes r) = 15 \<and> name_match ''blog''"
proof -
  have app: "app_of ''blog'' empty_place = ''blog''"
    by (simp add: app_of_def path_name_def pure_path_def starts_with_def)
  have nm: "name_match ''blog''" by (simp add: name_match_def lower_letter_def ascii_digit_def)
  obtain r where r: "new_run ''blog'' (Some ''auth'') empty_place = Some r" "nr_exit r = 0"
    using nm unfolding new_run_def app Let_def
    by (simp add: truthy_def or_empty_def empty_place_def NAME_MAX_def pinned_names_def find_pins.simps
        target_taken_def)
  have "map fst (nr_writes r) = map (\<lambda>n. path_str (path_div (pure_path ''blog'') (path_str (target_path n))))
      (COMMON @ manifest_of ''auth'')"
    using new_writes_all_or_nothing [OF r(1)] r(2) by (auto simp: truthy_def or_empty_def)
  then have "length (nr_writes r) = length (COMMON @ manifest_of ''auth'')"
    by (metis length_map)
  then show ?thesis using r nm by (simp add: COMMON_def manifest_of_def MANIFEST_def)
qed

text \<open>
  No template writes a file twice, and what is left out of the listing is nothing:
  the paths \<open>written_paths\<close> names for each template are distinct and each of the scaffold's
  hidden names is spelled with its dot.
\<close>

lemma manifest_distinct:
  "\<forall>t\<in>set TEMPLATES. manifest_of t \<noteq> [] \<and> distinct (map target_path (COMMON @ manifest_of t)) \<and>
     (\<forall>n\<in>set (COMMON @ manifest_of t). p_root (target_path n) = [] \<and>
        list_all (\<lambda>p. \<not> starts_with ''dot-'' p \<and> p \<noteq> ''..'') (p_parts (target_path n)))"
  by code_simp

end
