(* ===== verification/M0_Doctor.thy ===== *)
theory M0_Doctor
  imports M0_New
begin

text \<open>
  \<open>m0 doctor\<close> (packaging/m0/src/m0/doctor.py): every check, the application's own doctor run
  and read, the scaffold's drift, and the exit. \<open>json.loads\<close> and \<open>str\<close> of a parsed value are
  arguments; a value is printed as JSON by \<open>json.dumps\<close>, so the report is the value.
\<close>

definition DOCTOR_FORMAT :: string where "DOCTOR_FORMAT = ''1''"
definition HOST_FORMAT :: string where "HOST_FORMAT = ''1''"
definition APP_SECONDS :: int where "APP_SECONDS = 30"

definition SCAFFOLD_FILES :: "string list" where
  "SCAFFOLD_FILES = filter (\<lambda>n. n \<notin> {''README.md'', ''pyproject.toml''}) COMMON"

section \<open>The scaffold\<close>

datatype file_read = FileText string | NotUtf8 | NotRead

text \<open>The regular expression of \<open>_app_name\<close> at the start of a line, and the search for it.\<close>

definition name_line :: "string \<Rightarrow> string option" where
  "name_line s =
     (if starts_with ''name'' s
      then (case dropWhile py_space (drop 4 s) of
              eq_c # r \<Rightarrow>
                if eq_c = CHR ''=''
                then (case dropWhile py_space r of
                        q # v \<Rightarrow>
                          if q = CHR 0x22 \<and> takeWhile (\<lambda>c. c \<noteq> CHR 0x22) v \<noteq> [] \<and> CHR 0x22 \<in> set v
                          then Some (takeWhile (\<lambda>c. c \<noteq> CHR 0x22) v) else None
                      | [] \<Rightarrow> None)
                else None
            | [] \<Rightarrow> None)
      else None)"

fun search_name :: "bool \<Rightarrow> string \<Rightarrow> string option" where
  "search_name at_start [] = None"
| "search_name at_start (c # cs) =
     (case (if at_start then name_line (c # cs) else None) of
        Some v \<Rightarrow> Some v
      | None \<Rightarrow> search_name (c = CHR 0x0A) cs)"

definition app_name :: "file_read \<Rightarrow> string \<Rightarrow> string" where
  "app_name pyproject dir_name =
     (case search_name True (case pyproject of FileText t \<Rightarrow> t | _ \<Rightarrow> []) of
        Some v \<Rightarrow> v | None \<Rightarrow> dir_name)"

text \<open>
  \<open>scaffold_drift\<close>: \<open>have_file\<close> reads the project's files, \<open>template\<close> the wheel's.
\<close>

fun drift_loop ::
    "(string \<Rightarrow> file_read) \<Rightarrow> (string \<Rightarrow> string option) \<Rightarrow> (string \<Rightarrow> string) \<Rightarrow> string list \<Rightarrow> string list \<times> string list" where
  "drift_loop have_file template want [] = ([], [])"
| "drift_loop have_file template want (n # ns) =
     (let target = path_str (target_path n); (present, differ) = drift_loop have_file template want ns
      in case have_file target of
           NotRead \<Rightarrow> (present, differ)
         | f \<Rightarrow>
             (case template (''_common/'' @ n) of
                None \<Rightarrow> (present, differ)
              | Some t \<Rightarrow> (target # present, if f = FileText (want t) then differ else target # differ)))"

definition scaffold_drift ::
    "machine \<Rightarrow> string \<Rightarrow> (string \<Rightarrow> file_read) \<Rightarrow> (string \<Rightarrow> string option) \<Rightarrow> string list \<times> string list" where
  "scaffold_drift m dir_name have_file template =
     drift_loop have_file template
       (\<lambda>t. render t (app_name (have_file ''pyproject.toml'') dir_name) (m0_ver m) (head_or_empty (gated_mojo m))
         (head_or_empty (gated_max m)))
       SCAFFOLD_FILES"

section \<open>The application's doctor\<close>

text \<open>\<open>_stale\<close>: the sources under src with their modification times (\<open>None\<close>: not to be had).\<close>

definition stale :: "(string list \<times> int option) list \<Rightarrow> int \<Rightarrow> bool" where
  "stale sources built =
     list_ex (\<lambda>(parts, mtime). \<not> list_ex (starts_with ''.'') parts \<and>
       (case mtime of None \<Rightarrow> False | Some t \<Rightarrow> built < t)) sources"

definition app_failed :: "string \<Rightarrow> string \<Rightarrow> result" where
  "app_failed detail fix_text = (failed ''app'' detail fix_text)\<lparr>r_exit := 1\<rparr>"

definition non_blank :: "string \<Rightarrow> string list" where
  "non_blank out = filter (\<lambda>l. py_strip l \<noteq> []) (str_lines out)"

definition host_report ::
    "(string \<Rightarrow> json option) \<Rightarrow> (json \<Rightarrow> string) \<Rightarrow> string \<Rightarrow> json option \<times> result option" where
  "host_report loads str_val out =
     (let ls = non_blank out
      in if ls = [] \<or> \<not> starts_with ''{'' (dropWhile py_space (last ls)) then (None, None)
         else (case loads (last ls) of
             Some (JObj ((key, v) # fs)) \<Rightarrow>
               if key \<noteq> ''m0_host'' then (None, None)
               else if v \<noteq> JStr HOST_FORMAT
               then (None, Some (failed ''app''
                 (BINARY @ '' prints doctor format '' @ str_val v @ '' and this m0 reads '' @ HOST_FORMAT) ''m0 build''))
               else (Some (JObj ((key, v) # fs)), None)
           | _ \<Rightarrow> (None, None)))"

datatype app_run = NoBinary | TimedOut | NotRunnable string | Ran int string string

record app_doc =
  a_exit :: int
  a_stale :: bool
  a_report :: "json option"
  a_output :: string

definition run_app ::
    "(string \<Rightarrow> json option) \<Rightarrow> (json \<Rightarrow> string) \<Rightarrow> bool \<Rightarrow> app_run \<Rightarrow> app_doc option \<times> result option" where
  "run_app loads str_val is_stale r =
     (case r of
        NoBinary \<Rightarrow> (None, None)
      | TimedOut \<Rightarrow> (None, Some (app_failed
          (BINARY @ '' --doctor did not finish within '' @ show_int APP_SECONDS @ '' s and was stopped'')
          ''a main that reaches m0_host's serve answers at once; m0 build''))
      | NotRunnable why \<Rightarrow> (None, Some (app_failed (BINARY @ '' could not be run: '' @ why) ''m0 build''))
      | Ran code out err \<Rightarrow>
          let (report, error) = host_report loads str_val out;
              error1 = (if code < 0 \<and> error = None
                        then Some (app_failed (BINARY @ '' --doctor died of signal '' @ show_int (- code)) ''m0 build'')
                        else error);
              ls = (if report \<noteq> None \<or> error1 \<noteq> None then butlast (non_blank out) else str_lines out)
          in (Some \<lparr>a_exit = code, a_stale = is_stale, a_report = report,
                    a_output = join [CHR 0x0A] (ls @ str_lines err)\<rparr>, error1))"

section \<open>The exit, and what is printed\<close>

fun exit_code :: "result list \<Rightarrow> app_doc option \<Rightarrow> result option \<Rightarrow> int" where
  "exit_code (r # rs) app app_error = (if r_ok r then exit_code rs app app_error else r_exit r)"
| "exit_code [] app (Some e) = r_exit e"
| "exit_code [] None None = 0"
| "exit_code [] (Some a) None = (if a_exit a < 0 then 1 else a_exit a)"

text \<open>\<open>d.get(k, default)\<close> and \<open>d[k]\<close> of a parsed value; \<open>None\<close> is what raises.\<close>

definition json_get :: "json \<Rightarrow> string \<Rightarrow> json \<Rightarrow> json option" where
  "json_get j k d = (case j of JObj fs \<Rightarrow> Some (case map_of fs k of None \<Rightarrow> d | Some v \<Rightarrow> v) | _ \<Rightarrow> None)"

definition json_item :: "json \<Rightarrow> string \<Rightarrow> json option" where
  "json_item j k = (case j of JObj fs \<Rightarrow> map_of fs k | _ \<Rightarrow> None)"

definition json_true :: "json \<Rightarrow> bool" where
  "json_true j =
     (case j of JNull \<Rightarrow> False | JBool b \<Rightarrow> b | JInt i \<Rightarrow> i \<noteq> 0 | JStr s \<Rightarrow> s \<noteq> []
      | JList l \<Rightarrow> l \<noteq> [] | JObj fs \<Rightarrow> fs \<noteq> [])"

definition json_items :: "json \<Rightarrow> json list option" where
  "json_items j =
     (case j of JList l \<Rightarrow> Some l | JObj fs \<Rightarrow> Some (map (JStr \<circ> fst) fs)
      | JStr s \<Rightarrow> Some (map (\<lambda>c. JStr [c]) s) | _ \<Rightarrow> None)"

definition failed_check_line :: "(json \<Rightarrow> string) \<Rightarrow> json \<Rightarrow> string list option" where
  "failed_check_line str_val c =
     Option.bind (json_get c ''ok'' JNull) (\<lambda>ok.
       if json_true ok then Some []
       else Option.bind (json_item c ''name'') (\<lambda>n. Option.bind (json_item c ''detail'') (\<lambda>d.
              Option.bind (json_get c ''fix'' (JStr [])) (\<lambda>f.
                Some [''FAIL app '' @ str_val n @ '': '' @ str_val d @ '' ('' @ str_val f @ '')'']))))"

definition print_app :: "(json \<Rightarrow> string) \<Rightarrow> app_doc \<Rightarrow> string list option" where
  "print_app str_val a =
     (let stale_text = (if a_stale a then '' -- older than src/, m0 build'' else [])
      in case a_report a of
           None \<Rightarrow> Some ((''     app: '' @ BINARY @ '' exited '' @ show_int (a_exit a) @ '' and printed no report'' @ stale_text) #
             (if a_output a \<noteq> [] then [a_output a] else []))
         | Some report \<Rightarrow>
             Option.bind (json_get report ''config'' (JObj [])) (\<lambda>cfg.
             Option.bind (json_get report ''topology'' (JObj [])) (\<lambda>topo.
             Option.bind (those (map (\<lambda>k. json_get cfg k JNull) [''host'', ''port''])) (\<lambda>hp.
             Option.bind (those (map (\<lambda>k. json_get topo k JNull) [''mode'', ''loops'', ''handler_threads''])) (\<lambda>mlt.
             Option.bind (json_get report ''checks'' (JList [])) (\<lambda>cs.
             Option.bind (json_items cs) (\<lambda>l.
             Option.bind (those (map (failed_check_line str_val) l)) (\<lambda>fails.
               Some (((if a_exit a = 0 then ''ok  '' else ''FAIL'') @ '' app: '' @ str_val (hp ! 0) @ '':'' @ str_val (hp ! 1) @ '', '' @
                 str_val (mlt ! 0) @ '', '' @ str_val (mlt ! 1) @ '' loops, '' @ str_val (mlt ! 2) @ '' handler threads'' @ stale_text)
                 # concat fails)))))))))"

definition check_line :: "result \<Rightarrow> string" where
  "check_line r = (if r_ok r then ''ok  '' else ''FAIL'') @ '' '' @ r_name r @ '': '' @ r_detail r @
     (if r_ok r then [] else '' ('' @ r_fix r @ '')'')"

definition scaffold_lines :: "string \<Rightarrow> string \<Rightarrow> string list \<Rightarrow> string list \<Rightarrow> string list" where
  "scaffold_lines m0 app present differ =
     (if differ \<noteq> []
      then [''     scaffold: '' @ join '', '' differ @ '' '' @ (if length differ = 1 then ''differs'' else ''differ'') @
        '' from what m0 '' @ m0 @ '' writes (an edit, or an older m0's file; `uv run m0 new /tmp/'' @ app @
        ''` writes this m0's to compare)'']
      else if present \<noteq> [] then [''ok   scaffold: the files m0 new wrote match m0 '' @ m0] else [])"

text \<open>What the run reads besides the machine: the project, the wheel, the application.\<close>

record doctor_world =
  dw_dir_name :: string
  dw_have :: "string \<Rightarrow> file_read"
  dw_template :: "string \<Rightarrow> string option"
  dw_stale :: bool
  dw_app :: app_run
  dw_package :: pure_path
  dw_framework :: json
  dw_commit :: json
  dw_python :: string

definition opt_json :: "string option \<Rightarrow> json" where
  "opt_json v = (case v of None \<Rightarrow> JNull | Some s \<Rightarrow> JStr s)"

definition app_json :: "app_doc option \<Rightarrow> json" where
  "app_json a =
     (case a of None \<Rightarrow> JNull
      | Some d \<Rightarrow> JObj [(''exit'', JInt (a_exit d)), (''stale'', JBool (a_stale d)),
          (''report'', case a_report d of None \<Rightarrow> JNull | Some r \<Rightarrow> r), (''output'', JStr (a_output d))])"

definition doctor_doc :: "machine \<Rightarrow> doctor_world \<Rightarrow> int \<Rightarrow> app_doc option \<Rightarrow> result option \<Rightarrow> json" where
  "doctor_doc m w code app app_error =
     (let (present, differ) = scaffold_drift m (dw_dir_name w) (dw_have w) (dw_template w);
          strs = (\<lambda>l. JList (map JStr l))
      in JObj [(''m0'', JStr DOCTOR_FORMAT), (''ok'', JBool (code = 0)), (''exit'', JInt code),
           (''versions'', JObj [(''m0'', JStr (m0_ver m)), (''gated_mojo'', strs (gated_mojo m)), (''mojo'', opt_json (mojo_ver m)),
              (''gated_max'', strs (gated_max m)), (''max'', opt_json (max_ver m)), (''framework'', dw_framework w),
              (''commit'', dw_commit w), (''python'', JStr (dw_python w))]),
           (''paths'', JObj [(''include'', JStr (path_str (include_root (dw_package w)))),
              (''mojo'', JStr (path_str (mojo_bin (sys_prefix m)))), (''project'', JStr (project_dir m)), (''binary'', JStr BINARY)]),
           (''checks'', JList (map as_json (run_all m @ (case app_error of None \<Rightarrow> [] | Some e \<Rightarrow> [e])))),
           (''app'', app_json app),
           (''scaffold'', JObj [(''present'', strs present), (''differ'', strs differ)])])"

definition doctor_lines ::
    "(json \<Rightarrow> string) \<Rightarrow> machine \<Rightarrow> doctor_world \<Rightarrow> app_doc option \<Rightarrow> result option \<Rightarrow> string list option" where
  "doctor_lines str_val m w app app_error =
     (let (present, differ) = scaffold_drift m (dw_dir_name w) (dw_have w) (dw_template w)
      in map_option (\<lambda>ls. map check_line (run_all m) @ ls @
           scaffold_lines (m0_ver m) (app_name (dw_have w ''pyproject.toml'') (dw_dir_name w)) present differ)
         (case app_error of
            Some e \<Rightarrow> Some [''FAIL app: '' @ r_detail e @ '' ('' @ r_fix e @ '')'']
          | None \<Rightarrow> (case app of
                None \<Rightarrow> Some [''     app: no '' @ BINARY @ '' yet (m0 build)'']
              | Some a \<Rightarrow> print_app str_val a)))"

text \<open>\<open>run\<close>: the exit and what was printed, the object or the lines (\<open>None\<close> where that raises).\<close>

definition doctor_run ::
    "(string \<Rightarrow> json option) \<Rightarrow> (json \<Rightarrow> string) \<Rightarrow> bool \<Rightarrow> machine \<Rightarrow> doctor_world \<Rightarrow> int \<times> (json + string list) option" where
  "doctor_run loads str_val as_json_flag m w =
     (let (app, app_error) = run_app loads str_val (dw_stale w) (dw_app w);
          code = exit_code (run_all m) app app_error
      in (code, if as_json_flag then Some (Inl (doctor_doc m w code app app_error))
                else map_option Inr (doctor_lines str_val m w app app_error)))"

section \<open>What the doctor promises\<close>

lemma exit_code_all:
  "exit_code rs app app_error =
     (case find (\<lambda>r. \<not> r_ok r) rs of Some r \<Rightarrow> r_exit r | None \<Rightarrow> exit_code [] app app_error)"
  by (induction rs app app_error rule: exit_code.induct) auto

lemma checks_exit:
  "find (\<lambda>r. \<not> r_ok r) (run_all m) = Some r \<Longrightarrow> r_exit r = REFUSED"
proof -
  assume "find (\<lambda>r. \<not> r_ok r) (run_all m) = Some r"
  then have "r \<in> set (run_all m)" "\<not> r_ok r" by (auto simp: find_Some_iff)
  then obtain name check where "(name, check) \<in> set CHECKS" "r = check m"
    by (auto simp: run_all_def)
  with checks_results have "result_of name r" by blast
  with \<open>\<not> r_ok r\<close> show ?thesis by (simp add: result_of_def)
qed

text \<open>
  The doctor's exit. A check that fails makes it 78, whatever the application says;
  otherwise an application that could not answer makes it the error's own exit, one that
  answered its own exit (1 where it died of a signal), and no application at all 0; and
  the object \<open>--json\<close> prints says the same: its \<open>exit\<close> is the exit and its \<open>ok\<close> is
  that it is 0.
\<close>

lemma doctor_exit:
  assumes "doctor_run loads str_val js m w = (code, out)" and "run_app loads str_val (dw_stale w) (dw_app w) = (app, err)"
  shows "code = (if \<exists>r\<in>set (run_all m). \<not> r_ok r then REFUSED
       else case err of Some e \<Rightarrow> r_exit e
         | None \<Rightarrow> (case app of None \<Rightarrow> 0 | Some a \<Rightarrow> if a_exit a < 0 then 1 else a_exit a)) \<and>
    (\<forall>e. err = Some e \<longrightarrow> \<not> r_ok e \<and> r_exit e \<in> {1, REFUSED}) \<and>
    (\<forall>doc. out = Some (Inl doc) \<longrightarrow> json_item doc ''exit'' = Some (JInt code) \<and> json_item doc ''ok'' = Some (JBool (code = 0)))"
proof -
  have c: "code = exit_code (run_all m) app err"
    and o_doc: "js \<Longrightarrow> out = Some (Inl (doctor_doc m w code app err))" and o_txt: "\<not> js \<Longrightarrow> \<nexists>doc. out = Some (Inl doc)"
    using assms by (auto simp: doctor_run_def Let_def)
  have "\<not> r_ok e \<and> r_exit e \<in> {1, REFUSED}" if "err = Some e" for e
    using assms(2) that
    by (auto simp: run_app_def app_failed_def host_report_def Let_def split: app_run.splits if_splits option.splits
        json.splits list.splits prod.splits)
  moreover have "code = (if \<exists>r\<in>set (run_all m). \<not> r_ok r then REFUSED else exit_code [] app err)"
  proof (cases "find (\<lambda>r. \<not> r_ok r) (run_all m)")
    case None
    moreover from None have "\<not> (\<exists>r\<in>set (run_all m). \<not> r_ok r)" unfolding find_None_iff by blast
    ultimately show ?thesis using exit_code_all [of "run_all m" app err] by (simp add: c)
  next
    case (Some r)
    then have "\<exists>r\<in>set (run_all m). \<not> r_ok r" by (auto simp: find_Some_iff)
    then show ?thesis using exit_code_all [of "run_all m" app err] Some checks_exit [OF Some] by (simp add: c)
  qed
  moreover have "exit_code [] app err = (case err of Some e \<Rightarrow> r_exit e
      | None \<Rightarrow> (case app of None \<Rightarrow> 0 | Some a \<Rightarrow> if a_exit a < 0 then 1 else a_exit a))"
    by (cases err; cases app) simp_all
  moreover have "json_item (doctor_doc m w code app err) ''exit'' = Some (JInt code) \<and>
      json_item (doctor_doc m w code app err) ''ok'' = Some (JBool (code = 0))"
    by (simp add: doctor_doc_def json_item_def Let_def split: prod.splits)
  ultimately show ?thesis using o_doc o_txt by (cases js) auto
qed

definition bare_project :: doctor_world where
  "bare_project = \<lparr>dw_dir_name = ''app'', dw_have = (\<lambda>_. NotRead), dw_template = (\<lambda>_. None), dw_stale = False,
     dw_app = TimedOut, dw_package = pure_path ''/site/m0'', dw_framework = JNull, dw_commit = JNull, dw_python = ''3.12''\<rparr>"

lemma doctor_exit_witness:
  "fst (doctor_run (\<lambda>_. None) (\<lambda>_. []) True bare_machine bare_project) = 78"
proof -
  obtain app err where a: "run_app (\<lambda>_. None) (\<lambda>_. []) (dw_stale bare_project) (dw_app bare_project) = (app, err)"
    by force
  have "\<exists>r\<in>set (run_all bare_machine). \<not> r_ok r"
    by (simp add: run_all_def CHECKS_def RELEASE_ONLY_def check_platform_def platform_verdict_def bare_machine_def)
  with doctor_exit [OF prod.collapse [symmetric] a, of True bare_machine] show ?thesis by (simp add: REFUSED_def)
qed

text \<open>
  A report is taken from an application's output only where its last line that is not
  blank is a JSON object whose first key is \<open>m0_host\<close> with this format's number; another
  number is an error that names it, never a report half read.
\<close>

lemma host_report_format:
  "(fst (host_report loads str_val out) = Some rep \<longrightarrow>
      non_blank out \<noteq> [] \<and> loads (last (non_blank out)) = Some rep \<and>
      (\<exists>fs. rep = JObj ((''m0_host'', JStr ''1'') # fs)) \<and> snd (host_report loads str_val out) = None) \<and>
   (snd (host_report loads str_val out) = Some e \<longrightarrow>
      (\<exists>v fs. loads (last (non_blank out)) = Some (JObj ((''m0_host'', v) # fs)) \<and> v \<noteq> JStr ''1''))"
  by (auto simp: host_report_def HOST_FORMAT_def Let_def split: option.splits json.splits list.splits if_splits)

lemma host_report_format_witness:
  "\<exists>fs. fst (host_report (\<lambda>_. Some (JObj [(''m0_host'', JStr ''1'')])) (\<lambda>_. []) ''{}'') = Some (JObj ((''m0_host'', JStr ''1'') # fs))"
proof -
  let ?loads = "\<lambda>_ :: string. Some (JObj [(''m0_host'', JStr ''1'')])"
  have "non_blank ''{}'' = [''{}'']"
    by code_simp
  then have r: "fst (host_report ?loads (\<lambda>_. []) ''{}'') = Some (JObj [(''m0_host'', JStr ''1'')])"
    by (simp add: host_report_def HOST_FORMAT_def starts_with_def py_space_def)
  then show ?thesis using host_report_format [of ?loads "\<lambda>_. []" "''{}''"] by blast
qed

end
