(* ===== verification/M0_Build.thy ===== *)
theory M0_Build
  imports M0_Doctor
begin

text \<open>
  \<open>m0 build\<close>, \<open>m0 test\<close>, \<open>m0 image\<close> and the command line (packaging/m0/src/m0/build.py,
  test.py, image.py, cli.py). What a tool that m0 runs does is an argument: its exit and what
  it leaves at the path it was given. argparse's reading of the arguments is a function.
\<close>

section \<open>Compiling\<close>

text \<open>\<open>system or ...\<close>, \<open>machine or ...\<close>: the platform's own where none is given.\<close>

definition baseline_cpu :: "machine \<Rightarrow> string option \<Rightarrow> string option \<Rightarrow> string" where
  "baseline_cpu m system mach =
     (let s = (if truthy system then or_empty system
               else if sys_platform m = ''darwin'' then ''darwin'' else ''linux'');
          c = (if truthy mach then or_empty mach else machine_name m)
      in if s = ''darwin'' then (if c = ''arm64'' then ''apple-m1'' else ''x86-64-v2'')
         else (if c = ''aarch64'' then ''generic'' else ''x86-64-v2''))"

definition mojo_build_argv :: "machine \<Rightarrow> pure_path \<Rightarrow> string \<Rightarrow> string option \<Rightarrow> string list" where
  "mojo_build_argv m package out_path target_cpu =
     [path_str (mojo_bin (sys_prefix m)), ''build''] @
     (if truthy target_cpu then [''--target-cpu'', or_empty target_cpu] else []) @
     [''-I'', path_str (include_root package), ENTRY, ''-o'', out_path]"

text \<open>
  The project's files a build touches: the binary and its staging name by their contents,
  the release directory and its stage by what is in them.
\<close>

record project =
  pj_server :: "nat option"
  pj_next :: "nat option"
  pj_dist :: "string list option"
  pj_stage :: "string list option"

text \<open>
  \<open>build\<close>, under its lock: the exit and the project after (\<open>None\<close>: the rename raises, a
  compiler that succeeded having written nothing).
\<close>

definition build_project :: "int \<Rightarrow> nat option \<Rightarrow> project \<Rightarrow> int option \<times> project" where
  "build_project rc wrote p =
     (if rc \<noteq> 0 then (Some 1, p\<lparr>pj_next := None\<rparr>)
      else (case wrote of
              None \<Rightarrow> (None, p\<lparr>pj_next := None\<rparr>)
            | Some b \<Rightarrow> (Some 0, p\<lparr>pj_server := Some b, pj_next := None\<rparr>)))"

text \<open>
  \<open>_release_locked\<close>: the compiler, \<open>relocate.py\<close> and \<open>bundle_artifact.py\<close> in turn, the
  licence texts, and the rename; the stage is removed however it ends.
\<close>

definition release_project ::
    "int \<Rightarrow> int \<Rightarrow> int \<Rightarrow> string list \<Rightarrow> string list \<Rightarrow> project \<Rightarrow> int \<times> project" where
  "release_project mojo_rc relocate_rc bundle_rc bundled licence_texts p =
     (if mojo_rc \<noteq> 0 \<or> relocate_rc \<noteq> 0 \<or> bundle_rc \<noteq> 0 then (1, p\<lparr>pj_stage := None\<rparr>)
      else (0, p\<lparr>pj_dist := Some (bundled @ map (\<lambda>t. ''licenses/'' @ t) licence_texts), pj_stage := None\<rparr>))"

definition release_commands :: "machine \<Rightarrow> pure_path \<Rightarrow> string \<Rightarrow> string \<Rightarrow> string list list" where
  "release_commands m package python target_cpu =
     (let rel = ''.dist.next/.build/server'';
          tool = (\<lambda>name args. python # path_str (path_div (tools_dir package) name) # args)
      in [mojo_build_argv m package rel (Some target_cpu),
          tool ''relocate.py'' [''--no-id'', ''--rpath'', ''@loader_path'', rel],
          tool ''bundle_artifact.py'' [''--layout'', ''flat'', rel, ''.dist.next'']])"

definition release_extra_env :: "machine \<Rightarrow> env" where
  "release_extra_env m =
     (if sys_platform m = ''darwin'' then [''MACOSX_DEPLOYMENT_TARGET'' \<mapsto> ''13.0''] else Map.empty)"

text \<open>What each tool does in one run.\<close>

record tool_runs =
  tr_mojo :: int
  tr_wrote :: "nat option"
  tr_relocate :: int
  tr_bundle :: int
  tr_bundled :: "string list"
  tr_licences :: "string list"

datatype build_outcome =
    BuildRefused result
  | BuildDone "string list list" "int option" project

definition build_run ::
    "machine \<Rightarrow> pure_path \<Rightarrow> string \<Rightarrow> bool \<Rightarrow> string option \<Rightarrow> tool_runs \<Rightarrow> project \<Rightarrow> build_outcome" where
  "build_run m package python release target_cpu t p =
     (case preflight [] release m of
        Some r \<Rightarrow> BuildRefused r
      | None \<Rightarrow>
          if release
          then (let cpu = (if truthy target_cpu then or_empty target_cpu else baseline_cpu m None None);
                    (rc, p1) = release_project (tr_mojo t) (tr_relocate t) (tr_bundle t) (tr_bundled t) (tr_licences t) p;
                    n = (if tr_mojo t \<noteq> 0 then 1 else if tr_relocate t \<noteq> 0 then 2 else 3)
                in BuildDone (take n (release_commands m package python cpu)) (Some rc) p1)
          else (let (rc, p1) = build_project (tr_mojo t) (tr_wrote t) p
                in BuildDone [mojo_build_argv m package BINARY_NEXT target_cpu] rc p1))"

section \<open>Tests\<close>

text \<open>\<open>m0 test\<close>: exit, stdout, stderr and the files run, in order.\<close>

definition test_command :: "machine \<Rightarrow> pure_path \<Rightarrow> string \<Rightarrow> string list" where
  "test_command m package name =
     [path_str (mojo_bin (sys_prefix m)), ''run'', ''-I'', path_str (include_root package), ''-I'', ''src'', name]"

definition run_tests :: "(string \<Rightarrow> int) \<Rightarrow> string list \<Rightarrow> int \<times> string" where
  "run_tests rc files =
     (let bad = filter (\<lambda>f. rc f \<noteq> 0) files; total = show_int (int (length files))
      in if bad \<noteq> [] then (1, ''m0 test: '' @ show_int (int (length bad)) @ '' of '' @ total @ '' files failed: '' @ join '' '' bad)
         else (0, ''m0 test: '' @ total @ '' of '' @ total @ '' files passed''))"

record test_result =
  te_exit :: int
  te_out :: "string list"
  te_err :: "string list"
  te_ran :: "string list list"

definition test_run ::
    "machine \<Rightarrow> pure_path \<Rightarrow> (string \<Rightarrow> bool) \<Rightarrow> string list \<Rightarrow> (string \<Rightarrow> int) \<Rightarrow> string list \<Rightarrow> test_result" where
  "test_run m package is_file globbed rc args =
     (case preflight [''c-compiler''] False m of
        Some r \<Rightarrow> \<lparr>te_exit = r_exit r, te_out = [], te_err = [sentence r], te_ran = []\<rparr>
      | None \<Rightarrow>
          let missing = filter (\<lambda>f. \<not> is_file f) args;
              files = (if args \<noteq> [] then args else sort globbed)
          in if args \<noteq> [] \<and> missing \<noteq> []
             then \<lparr>te_exit = 2, te_out = [], te_err = [''m0 test: no such file: '' @ hd missing], te_ran = []\<rparr>
             else if files = []
             then \<lparr>te_exit = REFUSED, te_out = [],
                    te_err = [''m0: no test/test_*.mojo here (a run that tested nothing is not a pass)''], te_ran = []\<rparr>
             else \<lparr>te_exit = fst (run_tests rc files), te_out = [snd (run_tests rc files)], te_err = [],
                    te_ran = map (test_command m package) files\<rparr>)"

section \<open>The image\<close>

definition docker_build_argv :: "string \<Rightarrow> string option \<Rightarrow> string list \<Rightarrow> string list" where
  "docker_build_argv tag target_cpu docker_args =
     [''docker'', ''build'', ''-f'', ''deploy/Dockerfile'', ''-t'', tag] @
     (if truthy target_cpu then [''--build-arg'', ''TARGET_CPU='' @ or_empty target_cpu] else []) @
     docker_args @ [''.'']"

definition about_argv :: "string \<Rightarrow> string list" where
  "about_argv tag = [''docker'', ''run'', ''--rm'', ''--entrypoint'', ''cat'', tag, ''/app/about.json'']"

text \<open>\<open>_docker\<close>: the exit, or 1 where it cannot be run.\<close>

definition docker_exit :: "int option \<Rightarrow> int" where
  "docker_exit r = (case r of None \<Rightarrow> 1 | Some rc \<Rightarrow> rc)"

definition image_run ::
    "machine \<Rightarrow> (string list \<Rightarrow> int option) \<Rightarrow> string \<Rightarrow> string option \<Rightarrow> string option \<Rightarrow> string list
      \<Rightarrow> int \<times> string list \<times> string list list" where
  "image_run m docker name tag_arg target_cpu docker_args =
     (case preflight (filter (\<lambda>n. n \<noteq> ''project'') (map fst CHECKS)) False m of
        Some r \<Rightarrow> (r_exit r, [sentence r], [])
      | None \<Rightarrow>
          let tag = (if truthy tag_arg then or_empty tag_arg else name);
              build_cmd = docker_build_argv tag target_cpu docker_args
          in if docker_exit (docker build_cmd) \<noteq> 0 then (1, [], [build_cmd])
             else (if docker_exit (docker (about_argv tag)) \<noteq> 0 then 1 else 0, [], [build_cmd, about_argv tag]))"

section \<open>The command line\<close>

record cli_args =
  ca_command :: string
  ca_release :: bool
  ca_target_cpu :: "string option"

datatype cli_end = CliExit int string | CliRun cli_args "string list"

definition TAKES_REST :: "string list" where "TAKES_REST = [''doctor'', ''dev'', ''image'']"

text \<open>\<open>argv[:at]\<close> and \<open>argv[at + 1:]\<close> at the first \<open>--\<close>.\<close>

definition split_rest :: "string list \<Rightarrow> string list \<times> string list" where
  "split_rest argv =
     (takeWhile (\<lambda>a. a \<noteq> ''--'') argv, drop 1 (dropWhile (\<lambda>a. a \<noteq> ''--'') argv))"

definition cli_main :: "(string list \<Rightarrow> int + cli_args) \<Rightarrow> machine \<Rightarrow> string list \<Rightarrow> cli_end" where
  "cli_main parse m argv =
     (let (own, host_args) = split_rest argv
      in case parse own of
           Inl code \<Rightarrow> CliExit code []
         | Inr args \<Rightarrow>
             if host_args \<noteq> [] \<and> ca_command args \<notin> set TAKES_REST
             then CliExit 2 (''m0 '' @ ca_command args @ '' takes no arguments after --'')
             else if ca_command args = ''build'' \<and> ca_release args \<and> ca_target_cpu args = Some ''native''
             then CliExit 2 (''--release never compiles for the machine that builds; the baseline here is '' @
               baseline_cpu m None None @ '' (omit --target-cpu, or name a CPU)'')
             else if ca_command args = ''image'' \<and> ca_target_cpu args = Some ''native''
             then CliExit 2 ''an image never compiles for the machine that builds it (omit --target-cpu for the platform's baseline, or name a CPU)''
             else CliRun args host_args)"

section \<open>What a build promises\<close>


definition able_machine :: machine where
  "able_machine = \<lparr>sys_platform = ''linux'', machine_name = ''x86_64'', confstr_libc = Some ''glibc 2.36'',
     sys_prefix = ''/venv'', venv_is_prefix = True, venv_has_mojo = True, mojo_bin_exists = True,
     m0_ver = ''0.14.0'', mojo_ver = Some ''1.1.0'', max_ver = None, gated_mojo = [''1.1.0''], gated_max = [''1.1.0''],
     which = (\<lambda>n. Some (''/usr/bin/'' @ n)), xcode_ok = True, link_probe = (\<lambda>_. LinkDone 0 []), project_dir = ''/app'',
     entry_is_file = True\<rparr>"

lemma able_passes: "preflight skip release able_machine = None"
  by (simp add: preflight_def CHECKS_def RELEASE_ONLY_def able_machine_def check_platform_def platform_verdict_def
      libc_of_def check_mojo_installed_def installed_verdict_def check_mojo_gated_def gated_verdict_def
      check_max_gated_def max_verdict_def check_c_compiler_def compiler_verdict_def link_error_of_def
      truthy_def check_patchelf_def patchelf_verdict_def check_project_def Let_def)


lemma baseline_not_native: "baseline_cpu m s c \<noteq> ''native''"
  by (simp add: baseline_cpu_def Let_def)

text \<open>
  A release never compiles for the machine that builds it. Whatever the command line,
  where m0 goes on to a release build its compiler runs first, with a \<open>--target-cpu\<close> that is
  not \<open>native\<close> and not empty.
\<close>

lemma release_never_native:
  assumes "cli_main parse m argv = CliRun args rest" and "ca_command args = ''build''" and "ca_release args"
    and "build_run m package python (ca_release args) (ca_target_cpu args) t p = BuildDone cmds rc p'"
  shows "\<exists>cpu. cpu \<noteq> ''native'' \<and> cpu \<noteq> [] \<and> cmds \<noteq> [] \<and>
    hd cmds = [path_str (mojo_bin (sys_prefix m)), ''build'', ''--target-cpu'', cpu, ''-I'',
      path_str (include_root package), ENTRY, ''-o'', ''.dist.next/.build/server'']"
proof -
  define cpu where "cpu = (if truthy (ca_target_cpu args) then or_empty (ca_target_cpu args) else baseline_cpu m None None)"
  have "ca_target_cpu args \<noteq> Some ''native''"
    using assms(1-3) by (auto simp: cli_main_def split: prod.splits sum.splits if_splits)
  then have "cpu \<noteq> ''native''"
    using baseline_not_native by (auto simp: cpu_def truthy_def or_empty_def split: option.splits)
  moreover have ne: "cpu \<noteq> []"
    by (auto simp: cpu_def truthy_def or_empty_def baseline_cpu_def Let_def split: option.splits)
  moreover have "\<exists>n>0. cmds = take n (release_commands m package python cpu)"
    using assms(3,4) unfolding build_run_def cpu_def [symmetric]
    by (intro exI [of _ "if tr_mojo t \<noteq> 0 then 1 else if tr_relocate t \<noteq> 0 then 2 else 3"])
       (auto simp: Let_def split: option.splits prod.splits)
  then have "cmds \<noteq> [] \<and> hd cmds = mojo_build_argv m package ''.dist.next/.build/server'' (Some cpu)"
    by (auto simp: release_commands_def Let_def)
  ultimately show ?thesis
    by (auto simp: mojo_build_argv_def truthy_def or_empty_def)
qed

lemma release_never_native_witness:
  "\<exists>cmds rc p'. build_run able_machine (pure_path ''/site/m0'') ''python3'' True None
     \<lparr>tr_mojo = 0, tr_wrote = Some 5, tr_relocate = 0, tr_bundle = 0, tr_bundled = [], tr_licences = []\<rparr>
     \<lparr>pj_server = None, pj_next = None, pj_dist = None, pj_stage = None\<rparr> = BuildDone cmds rc p' \<and>
   (\<exists>cpu. cpu \<noteq> ''native'' \<and> take 2 (drop 2 (hd cmds)) = [''--target-cpu'', cpu])"
proof -
  let ?t = "\<lparr>tr_mojo = 0, tr_wrote = Some 5, tr_relocate = 0, tr_bundle = 0, tr_bundled = [], tr_licences = []\<rparr>"
  let ?p = "\<lparr>pj_server = None, pj_next = None, pj_dist = None, pj_stage = None\<rparr>"
  let ?a = "\<lparr>ca_command = ''build'', ca_release = True, ca_target_cpu = None\<rparr>"
  have c: "cli_main (\<lambda>_. Inr ?a) able_machine [''build'', ''--release''] = CliRun ?a []"
    by (simp add: cli_main_def split_rest_def)
  obtain cmds rc p' where b: "build_run able_machine (pure_path ''/site/m0'') ''python3'' (ca_release ?a) (ca_target_cpu ?a) ?t ?p
      = BuildDone cmds rc p'"
    by (simp add: build_run_def able_passes release_project_def Let_def)
  from release_never_native [OF c _ _ b] b show ?thesis by auto
qed

text \<open>
  A test run passes only where it tested something and every file of it passed: exit 0
  exactly when no check of its list fails, there is a file to run, each one named is there,
  and each ran to 0; then every file was run once, in order.
\<close>

lemma tests_pass_only_if_run:
  "te_exit (test_run m package is_file globbed rc args) = 0 \<longleftrightarrow>
     preflight [''c-compiler''] False m = None \<and> (args \<noteq> [] \<or> globbed \<noteq> []) \<and>
     (\<forall>f\<in>set args. is_file f) \<and> (\<forall>f\<in>set (if args \<noteq> [] then args else globbed). rc f = 0)"
  "te_exit (test_run m package is_file globbed rc args) = 0 \<Longrightarrow>
     te_ran (test_run m package is_file globbed rc args)
       = map (test_command m package) (if args \<noteq> [] then args else sort globbed)"
proof -
  have ex: "r_exit r = REFUSED" if "preflight [''c-compiler''] False m = Some r" for r
    using preflight_refused [OF that] by simp
  have sorted: "sort globbed = [] \<longleftrightarrow> globbed = []" by (metis length_0_conv length_sort)
  show "te_exit (test_run m package is_file globbed rc args) = 0 \<longleftrightarrow>
     preflight [''c-compiler''] False m = None \<and> (args \<noteq> [] \<or> globbed \<noteq> []) \<and>
     (\<forall>f\<in>set args. is_file f) \<and> (\<forall>f\<in>set (if args \<noteq> [] then args else globbed). rc f = 0)"
    using ex by (auto simp: sorted test_run_def run_tests_def REFUSED_def Let_def filter_empty_conv split: option.splits)
  show "te_exit (test_run m package is_file globbed rc args) = 0 \<Longrightarrow>
     te_ran (test_run m package is_file globbed rc args)
       = map (test_command m package) (if args \<noteq> [] then args else sort globbed)"
    using ex by (auto simp: test_run_def REFUSED_def Let_def split: option.splits if_splits)
qed

end
