(* ===== verification/M0_Dev.thy ===== *)
theory M0_Dev
  imports M0_Build
begin

text \<open>
  \<open>m0 dev\<close> (packaging/m0/src/m0/dev.py): build, serve, and rebuild when a source changes. The
  loop is a state machine whose inputs are what each poll finds; the operating system's
  processes are part of the state, so that what is alive can be stated.
\<close>

section \<open>What is watched\<close>

type_synonym stamp = "int \<times> int"

type_synonym snap = "(string \<times> stamp) list"

text \<open>
  \<open>snapshot\<close>: \<open>pyproject.toml\<close>, then each file under src by the parts of its directory, its
  name and its stamp (\<open>None\<close>: it cannot be had).
\<close>

definition watched_name :: "string \<Rightarrow> bool" where
  "watched_name n \<longleftrightarrow> \<not> (starts_with ''.'' n \<or> ends_with ''~'' n)"

definition snapshot :: "stamp option \<Rightarrow> (string list \<times> string \<times> stamp option) list \<Rightarrow> snap" where
  "snapshot pyproject files =
     (case pyproject of None \<Rightarrow> [] | Some st \<Rightarrow> [(''pyproject.toml'', st)]) @
     List.map_filter (\<lambda>(dirs, name, st).
       if list_ex (starts_with ''.'') dirs \<or> \<not> watched_name name then None
       else map_option (\<lambda>x. (join ''/'' (''src'' # dirs @ [name]), x)) st) files"

section \<open>The loop\<close>

text \<open>
  The processes alive, each with the build it runs; the one \<open>run\<close> holds; the binary on disk;
  what was said. \<open>dv_done\<close> is set where \<open>run\<close> has returned.
\<close>

record dev =
  dv_seen :: snap
  dv_server :: "nat option"
  dv_alive :: "(nat \<times> nat) list"
  dv_project :: project
  dv_said :: "string list"
  dv_exit :: "int option"

text \<open>
  One poll: the code the server has exited with on its own since the last (if it has), the
  snapshot, the machine its preflight reads, the compiler's run, how long the old server
  takes to drain (\<open>None\<close>: longer than it is given) and the pid the system gives a new one.
\<close>

record poll =
  po_exited :: "int option"
  po_snap :: snap
  po_machine :: machine
  po_mojo :: "int \<times> nat option"
  po_drain :: "int option"
  po_pid :: nat

definition say :: "string \<Rightarrow> dev \<Rightarrow> dev" where
  "say m s = s\<lparr>dv_said := dv_said s @ [''m0 dev: '' @ m]\<rparr>"

definition pid_text :: "nat \<Rightarrow> string" where
  "pid_text p = show_int (int p)"

text \<open>A binary is there: \<open>start\<close> follows only a build that put one there.\<close>

definition start_server :: "nat \<Rightarrow> dev \<Rightarrow> dev" where
  "start_server pid s =
     (case pj_server (dv_project s) of
        None \<Rightarrow> s
      | Some b \<Rightarrow> say (''serving, pid '' @ pid_text pid)
          (s\<lparr>dv_server := Some pid, dv_alive := dv_alive s @ [(pid, b)]\<rparr>))"

definition gone :: "nat \<Rightarrow> dev \<Rightarrow> dev" where
  "gone pid s = s\<lparr>dv_alive := filter (\<lambda>(p, b). p \<noteq> pid) (dv_alive s)\<rparr>"

definition alive :: "dev \<Rightarrow> nat \<Rightarrow> bool" where
  "alive s pid \<longleftrightarrow> pid \<in> set (map fst (dv_alive s))"

text \<open>\<open>stop\<close>: SIGTERM, the wait, SIGKILL after it; it returns once the process is gone.\<close>

definition stop_server :: "int option \<Rightarrow> dev \<Rightarrow> dev" where
  "stop_server drain s =
     (case dv_server s of
        None \<Rightarrow> s
      | Some pid \<Rightarrow>
          if \<not> alive s pid then s
          else (case drain of
                  Some rc \<Rightarrow> say (''pid '' @ pid_text pid @ '' exited '' @ show_int rc) (gone pid s)
                | None \<Rightarrow> say (''pid '' @ pid_text pid @ '' exited -9'')
                    (gone pid (say (''pid '' @ pid_text pid @ '' did not exit within 6 s of SIGTERM; sent SIGKILL'') s))))"

text \<open>The end of a process on its own, as the operating system has it.\<close>

definition own_exit :: "int option \<Rightarrow> dev \<Rightarrow> dev" where
  "own_exit code s =
     (case (code, dv_server s) of (Some _, Some pid) \<Rightarrow> gone pid s | _ \<Rightarrow> s)"

text \<open>\<open>server is not None and server.poll() is not None\<close>: noticed and let go.\<close>

definition notice_exit :: "int option \<Rightarrow> dev \<Rightarrow> dev" where
  "notice_exit code s =
     (case dv_server s of
        None \<Rightarrow> s
      | Some pid \<Rightarrow>
          if alive s pid then s
          else (say (''the server exited '' @ show_int (case code of None \<Rightarrow> 0 | Some c \<Rightarrow> c) @
                 '' on its own; the next edit builds and starts it again'') s)\<lparr>dv_server := None\<rparr>)"

definition still_serving :: "dev \<Rightarrow> string" where
  "still_serving s =
     (case dv_server s of None \<Rightarrow> []
      | Some pid \<Rightarrow> ''; pid '' @ pid_text pid @ '' is still serving the last good build'')"

text \<open>One turn of the loop of \<open>run\<close>, from the return of its sleep.\<close>

definition dev_poll :: "poll \<Rightarrow> dev \<Rightarrow> dev" where
  "dev_poll p s0 =
     (let s1 = notice_exit (po_exited p) (own_exit (po_exited p) s0)
      in if po_snap p = dv_seen s1 then s1
         else
           let s2 = s1\<lparr>dv_seen := po_snap p\<rparr>
           in case preflight [] False (po_machine p) of
                Some r \<Rightarrow>
                  say (''not building'' @ still_serving s2 @ '' -- fix it and save'')
                    (s2\<lparr>dv_said := dv_said s2 @ [sentence r]\<rparr>)
              | None \<Rightarrow>
                  let s3 = say (''change seen, building'' @
                        (case dv_server s2 of None \<Rightarrow> [] | Some pid \<Rightarrow> '' (pid '' @ pid_text pid @ '' keeps serving)'')) s2;
                      (rc, pj) = build_project (fst (po_mojo p)) (snd (po_mojo p)) (dv_project s3);
                      s4 = s3\<lparr>dv_project := pj\<rparr>
                  in if rc \<noteq> Some 0 then say (''the build failed'' @ still_serving s4) s4
                     else start_server (po_pid p) (stop_server (po_drain p) s4))"

text \<open>\<open>run\<close> up to its loop: preflight, the first snapshot, the first build.\<close>

definition dev_start :: "machine \<Rightarrow> snap \<Rightarrow> int \<times> nat option \<Rightarrow> nat \<Rightarrow> project \<Rightarrow> dev" where
  "dev_start m snap mojo pid pj =
     (let s = \<lparr>dv_seen = snap, dv_server = None, dv_alive = [], dv_project = pj, dv_said = [], dv_exit = None\<rparr>
      in case preflight [] False m of
           Some r \<Rightarrow> s\<lparr>dv_said := [sentence r], dv_exit := Some (r_exit r)\<rparr>
         | None \<Rightarrow>
             let (rc, pj1) = build_project (fst mojo) (snd mojo) pj; s1 = s\<lparr>dv_project := pj1\<rparr>
             in if rc = Some 0 then start_server pid s1
                else say ''the build failed; nothing is serving yet -- fix it and save'' s1)"

text \<open>
  Ctrl-C or SIGTERM: \<open>finish\<close>, interrupted again (\<open>again\<close>) or not, and the \<open>finally\<close> that
  kills what is left.
\<close>

definition dev_interrupt :: "int option \<Rightarrow> bool \<Rightarrow> dev \<Rightarrow> dev" where
  "dev_interrupt drain again s =
     (let s1 = (case dv_server s of
                  Some pid \<Rightarrow>
                    if again \<and> alive s pid
                    then say (''pid '' @ pid_text pid @ '' sent SIGKILL: interrupted again while it drained'') (gone pid s)
                    else stop_server drain s
                | None \<Rightarrow> s);
          s2 = (case dv_server s1 of Some pid \<Rightarrow> if alive s1 pid then gone pid s1 else s1 | None \<Rightarrow> s1)
      in s2\<lparr>dv_exit := Some 0\<rparr>)"

section \<open>The last good build\<close>

text \<open>
  The promise, apart from processes and messages: what is served is the last build that
  succeeded, until it ends on its own; only an edit builds, and only a machine that passes.
\<close>

record served =
  sv_seen :: snap
  sv_build :: "nat option"

definition good_build :: "poll \<Rightarrow> nat option" where
  "good_build p =
     (if preflight [] False (po_machine p) = None \<and> fst (po_mojo p) = 0 then snd (po_mojo p) else None)"

definition serve_poll :: "poll \<Rightarrow> served \<Rightarrow> served" where
  "serve_poll p v =
     (let kept = (if po_exited p = None then sv_build v else None)
      in \<lparr>sv_seen = po_snap p,
          sv_build = (if po_snap p = sv_seen v then kept
                      else case good_build p of None \<Rightarrow> kept | Some b \<Rightarrow> Some b)\<rparr>)"

text \<open>What a state serves, and what every state of the loop is.\<close>

definition serving_build :: "dev \<Rightarrow> nat option" where
  "serving_build s = (case dv_server s of None \<Rightarrow> None | Some pid \<Rightarrow> map_of (dv_alive s) pid)"

definition abs_dev :: "dev \<Rightarrow> served" where
  "abs_dev s = \<lparr>sv_seen = dv_seen s, sv_build = serving_build s\<rparr>"

definition one_server :: "dev \<Rightarrow> bool" where
  "one_server s \<longleftrightarrow>
     (case dv_server s of None \<Rightarrow> dv_alive s = [] | Some pid \<Rightarrow> \<exists>b. dv_alive s = [(pid, b)])"

lemma say_simps [simp]:
  "dv_server (say m s) = dv_server s" "dv_alive (say m s) = dv_alive s" "dv_project (say m s) = dv_project s"
  "dv_seen (say m s) = dv_seen s" "alive (say m s) = alive s"
  by (auto simp: say_def alive_def)

lemma build_ok:
  "build_project rc wrote p = (Some 0, p') \<longleftrightarrow> rc = 0 \<and> (\<exists>b. wrote = Some b \<and> p' = p\<lparr>pj_server := Some b, pj_next := None\<rparr>)"
  by (auto simp: build_project_def split: option.splits)

lemma one_server_cases:
  assumes "one_server s"
  obtains "dv_server s = None" "dv_alive s = []" | pid b where "dv_server s = Some pid" "dv_alive s = [(pid, b)]"
  using assms by (auto simp: one_server_def split: option.splits)

lemma same_server:
  "dv_server x = dv_server y \<Longrightarrow> dv_alive x = dv_alive y \<Longrightarrow> one_server y \<Longrightarrow>
    one_server x \<and> serving_build x = serving_build y"
  by (auto simp: one_server_def serving_build_def split: option.splits)

lemma abs_dev_simps: "sv_build (abs_dev s) = serving_build s" "sv_seen (abs_dev s) = dv_seen s"
  by (simp_all add: abs_dev_def)

lemma noticed:
  assumes "one_server s" and s1_def: "s1 = notice_exit code (own_exit code s)"
  shows "one_server s1 \<and> dv_seen s1 = dv_seen s \<and> dv_project s1 = dv_project s \<and>
    serving_build s1 = (if code = None then serving_build s else None)"
proof (cases rule: one_server_cases [OF assms(1)])
  case 1
  then show ?thesis
    by (auto simp: s1_def notice_exit_def own_exit_def one_server_def serving_build_def split: option.splits)
next
  case (2 pid b)
  then show ?thesis
    by (cases code)
       (auto simp: s1_def notice_exit_def own_exit_def gone_def alive_def one_server_def serving_build_def)
qed

lemma stopped:
  assumes "one_server s"
  shows "dv_alive (stop_server drain s) = [] \<and> dv_project (stop_server drain s) = dv_project s \<and>
    dv_seen (stop_server drain s) = dv_seen s"
proof (cases rule: one_server_cases [OF assms])
  case 1
  then show ?thesis by (simp add: stop_server_def)
next
  case (2 pid b)
  then show ?thesis by (auto simp: stop_server_def alive_def gone_def split: option.split)
qed

lemma started:
  assumes "dv_alive s = []" and "pj_server (dv_project s) = Some b"
  shows "one_server (start_server pid s) \<and> serving_build (start_server pid s) = Some b \<and>
    dv_seen (start_server pid s) = dv_seen s"
  using assms by (simp add: start_server_def one_server_def serving_build_def)


definition nothing_built :: project where
  "nothing_built = \<lparr>pj_server = None, pj_next = None, pj_dist = None, pj_stage = None\<rparr>"

definition edit :: "int \<Rightarrow> int \<times> nat option \<Rightarrow> nat \<Rightarrow> poll" where
  "edit stamp_at mojo pid = \<lparr>po_exited = None, po_snap = [(''src/server.mojo'', (stamp_at, 10))], po_machine = able_machine,
     po_mojo = mojo, po_drain = None, po_pid = pid\<rparr>"


text \<open>Started with a passing machine the loop has one server or none; interrupted, it leaves none.\<close>

lemma dev_start_one_server: "one_server (dev_start m snap mojo pid pj)"
proof (cases "preflight [] False m")
  case None
  then show ?thesis
    by (cases mojo) (auto simp: dev_start_def build_project_def start_server_def one_server_def say_def Let_def
        split: option.splits)
qed (simp add: dev_start_def one_server_def Let_def)

text \<open>
  However \<open>m0 dev\<close> is left, once its loop is interrupted no server of it is alive, and it
  exits 0: after a drain, a drain that never ends, or a second interrupt during one.
\<close>

lemma dev_leaves_nothing:
  "dv_alive (dev_interrupt drain again (fold dev_poll ps (dev_start m snap mojo pid pj))) = [] \<and>
   dv_exit (dev_interrupt drain again (fold dev_poll ps (dev_start m snap mojo pid pj))) = Some 0"
proof -
  have keeps: "one_server (dev_poll p s)" if s: "one_server s" for p s
  proof -
    define s1 where "s1 = notice_exit (po_exited p) (own_exit (po_exited p) s)"
    have n: "one_server s1" using noticed [OF s s1_def] by simp
    have k: "one_server x" if "dv_server x = dv_server s1" "dv_alive x = dv_alive s1" for x
      using same_server [OF that n] ..
    have st: "one_server (start_server q (stop_server d x))"
      if "one_server x" "pj_server (dv_project x) = Some b" for q d x b
      using started [of "stop_server d x" b q] stopped [OF that(1), of d] that(2) by simp
    show ?thesis
      unfolding dev_poll_def s1_def [symmetric] Let_def
      by (auto simp: build_ok intro!: k st split: option.splits prod.splits)
  qed
  have all: "one_server (fold dev_poll ps s)" if "one_server s" for s
    using that by (induction ps arbitrary: s) (auto simp: keeps)
  have "one_server (fold dev_poll ps (dev_start m snap mojo pid pj))"
    by (rule all [OF dev_start_one_server])
  then show ?thesis
    by (cases rule: one_server_cases)
       (auto simp: dev_interrupt_def stop_server_def gone_def alive_def Let_def split: option.split)
qed

end
