(* ===== verification/Binfmt.thy ===== *)
theory Binfmt
  imports Py_Paths
begin

text \<open>
  Mach-O and ELF inspection (scripts/binfmt.py): what a binary searches, what it depends on
  and what it calls itself, read from the bytes of the file. Offsets and field values are
  Python's integers; a read past the end of the file is the error \<open>struct\<close> raises.
\<close>

section \<open>Errors and byte reads\<close>

text \<open>The first nine are \<open>InspectError\<close>; the rest is what Python itself raises.\<close>

datatype bin_error =
    FatArchive
  | NeitherFormat
  | NotMachO
  | CommandsPastEnd
  | BadCommandSize int int
  | BadStringOffset int
  | UnknownCputype int
  | UnknownMachine int
  | NoBuildVersion
  | StructError
  | OverflowError
  | IndexError
  | ValueError string

definition inspect_error :: "bin_error \<Rightarrow> bool" where
  "inspect_error e \<longleftrightarrow>
     (case e of StructError \<Rightarrow> False | OverflowError \<Rightarrow> False | IndexError \<Rightarrow> False
      | ValueError _ \<Rightarrow> False | _ \<Rightarrow> True)"

definition and_then :: "'e + 'a \<Rightarrow> ('a \<Rightarrow> 'e + 'b) \<Rightarrow> 'e + 'b" where
  "and_then r f = (case r of Inl e \<Rightarrow> Inl e | Inr x \<Rightarrow> f x)"

lemma and_then_simps [simp]: "and_then (Inl e) f = Inl e" "and_then (Inr x) f = f x"
  by (simp_all add: and_then_def)

lemma and_then_Inr: "and_then r f = Inr y \<longleftrightarrow> (\<exists>x. r = Inr x \<and> f x = Inr y)"
  by (cases r) auto

text \<open>\<open>struct.unpack_from\<close> of one unsigned field of \<open>n\<close> bytes.\<close>

definition unpack_at :: "bool \<Rightarrow> nat \<Rightarrow> bytes \<Rightarrow> int \<Rightarrow> bin_error + int" where
  "unpack_at little n data off =
     (if 2 ^ 63 \<le> off then Inl OverflowError
      else if int (length data) < off + int n then Inl StructError
      else (let field = take n (drop (nat off) data)
            in Inr (from_le (if little then field else rev field))))"

text \<open>\<open>data[start:data.index(0, start, stop)]\<close>, the field being \<open>data[start:stop]\<close>.\<close>

definition until_nul :: "bytes \<Rightarrow> bin_error + bytes" where
  "until_nul field =
     (if 0 \<in> set field then Inr (takeWhile (\<lambda>b. b \<noteq> 0) field)
      else Inl (ValueError ''subsection not found''))"

section \<open>What is recognised\<close>

definition SELF_RELATIVE :: "ustr list" where
  "SELF_RELATIVE = map str_of [''@loader_path'', ''@executable_path'', ''$ORIGIN'']"

definition SYSTEM_PREFIXES :: "ustr list" where
  "SYSTEM_PREFIXES = map str_of [''/usr/lib/'', ''/System/Library/'', ''/lib/'', ''/lib64/'', ''/usr/lib64/'']"

definition SYSTEM_SONAMES :: "ustr list" where
  "SYSTEM_SONAMES = map str_of
     [''libc.'', ''libm.'', ''libdl.'', ''libpthread.'', ''librt.'', ''libutil.'',
      ''libgcc_s.'', ''libstdc++.'', ''ld-linux'', ''libresolv.'', ''libnsl.'',
      ''libcrypt.'', ''libatomic.'', ''libanl.'', ''libthread_db.'']"

text \<open>\<open>s.startswith(prefixes)\<close> for a tuple.\<close>

definition starts_any :: "'a list list \<Rightarrow> 'a list \<Rightarrow> bool" where
  "starts_any ps s = list_ex (\<lambda>p. starts_with p s) ps"

definition is_system_soname :: "ustr \<Rightarrow> bool" where
  "is_system_soname soname = starts_any SYSTEM_SONAMES soname"

definition MACHO_LE :: "bytes list" where
  "MACHO_LE = [[0xcf, 0xfa, 0xed, 0xfe], [0xce, 0xfa, 0xed, 0xfe]]"

definition MACHO_BE :: "bytes list" where
  "MACHO_BE = [[0xfe, 0xed, 0xfa, 0xcf], [0xfe, 0xed, 0xfa, 0xce]]"

definition MACHO_64 :: "bytes list" where
  "MACHO_64 = [[0xcf, 0xfa, 0xed, 0xfe], [0xfe, 0xed, 0xfa, 0xcf]]"

definition FAT :: "bytes list" where
  "FAT = [[0xca, 0xfe, 0xba, 0xbe], [0xca, 0xfe, 0xba, 0xbf]]"

definition ELF_MAGIC :: bytes where
  "ELF_MAGIC = [0x7f, 0x45, 0x4c, 0x46]"

datatype binary_format = MachO | Elf

definition classify :: "bytes \<Rightarrow> bin_error + binary_format" where
  "classify data =
     (let magic = take 4 data
      in if magic \<in> set FAT then Inl FatArchive
         else if magic \<in> set MACHO_LE \<or> magic \<in> set MACHO_BE then Inr MachO
         else if magic = ELF_MAGIC then Inr Elf
         else Inl NeitherFormat)"

definition macho_filetype :: "bytes \<Rightarrow> bin_error + int" where
  "macho_filetype data =
     (let hdr = take 16 data in unpack_at (take 4 hdr \<in> set MACHO_LE) 4 hdr 12)"

section \<open>Mach-O\<close>

definition MH_EXECUTE :: int where "MH_EXECUTE = 2"
definition MH_DYLIB :: int where "MH_DYLIB = 6"
definition MH_BUNDLE :: int where "MH_BUNDLE = 8"

definition LC_ID_DYLIB :: int where "LC_ID_DYLIB = 0x0D"
definition LC_LOAD_DYLIB :: int where "LC_LOAD_DYLIB = 0x0C"
definition LC_LOAD_WEAK_DYLIB :: int where "LC_LOAD_WEAK_DYLIB = 0x80000018"
definition LC_REEXPORT_DYLIB :: int where "LC_REEXPORT_DYLIB = 0x8000001F"
definition LC_RPATH :: int where "LC_RPATH = 0x8000001C"
definition LC_BUILD_VERSION :: int where "LC_BUILD_VERSION = 0x32"
definition LC_VERSION_MIN_MACOSX :: int where "LC_VERSION_MIN_MACOSX = 0x24"

lemmas LC_defs = LC_ID_DYLIB_def LC_LOAD_DYLIB_def LC_LOAD_WEAK_DYLIB_def LC_REEXPORT_DYLIB_def
  LC_RPATH_def LC_BUILD_VERSION_def LC_VERSION_MIN_MACOSX_def

definition DYLIB_LOADS :: "int list" where
  "DYLIB_LOADS = [LC_LOAD_DYLIB, LC_LOAD_WEAK_DYLIB, LC_REEXPORT_DYLIB]"

text \<open>\<open>_macho_header\<close>: byte order, file type, number of load commands, offset of the first.\<close>

definition macho_header :: "bytes \<Rightarrow> bin_error + bool \<times> int \<times> int \<times> int" where
  "macho_header data =
     (let magic = take 4 data; little = magic \<in> set MACHO_LE
      in if magic \<in> set FAT then Inl FatArchive
         else if magic \<notin> set MACHO_LE \<and> magic \<notin> set MACHO_BE then Inl NotMachO
         else and_then (unpack_at little 4 data 12) (\<lambda>filetype.
              and_then (unpack_at little 4 data 16) (\<lambda>ncmds.
                Inr (little, filetype, ncmds, if magic \<in> set MACHO_64 then 32 else 28))))"

definition lc_str :: "bytes \<Rightarrow> int \<Rightarrow> int \<Rightarrow> int \<Rightarrow> bin_error + ustr" where
  "lc_str data cmd_off cmdsize str_off =
     (if \<not> (0 < str_off \<and> str_off < cmdsize) then Inl (BadStringOffset str_off)
      else and_then (until_nul (drop (nat (cmd_off + str_off)) (take (nat (cmd_off + cmdsize)) data)))
             (\<lambda>s. Inr (utf8_decode_replace s)))"

definition decode_version :: "int \<Rightarrow> string" where
  "decode_version packed =
     (let major = packed div 2 ^ 16; minor = packed div 2 ^ 8 mod 2 ^ 8; patch = packed mod 2 ^ 8
      in show_int major @ ''.'' @ show_int minor @ (if patch \<noteq> 0 then ''.'' @ show_int patch else []))"

text \<open>The four results of \<open>parse_macho\<close>.\<close>

record macho =
  mo_rpaths :: "ustr list"
  mo_deps :: "ustr list"
  mo_name :: "ustr option"
  mo_min_os :: "string option"

definition no_macho :: macho where
  "no_macho = \<lparr>mo_rpaths = [], mo_deps = [], mo_name = None, mo_min_os = None\<rparr>"

text \<open>A command's string: the offset in its third word, then the text.\<close>

definition command_str :: "bool \<Rightarrow> bytes \<Rightarrow> int \<Rightarrow> int \<Rightarrow> bin_error + ustr" where
  "command_str little data off cmdsize =
     and_then (unpack_at little 4 data (off + 8)) (\<lambda>str_off. lc_str data off cmdsize str_off)"

definition load_command :: "bool \<Rightarrow> bytes \<Rightarrow> int \<Rightarrow> int \<Rightarrow> int \<Rightarrow> macho \<Rightarrow> bin_error + macho" where
  "load_command little data off cmd cmdsize m =
     (if cmd = LC_RPATH then
        and_then (command_str little data off cmdsize) (\<lambda>s. Inr (m\<lparr>mo_rpaths := mo_rpaths m @ [s]\<rparr>))
      else if cmd = LC_ID_DYLIB then
        and_then (command_str little data off cmdsize) (\<lambda>s. Inr (m\<lparr>mo_name := Some s\<rparr>))
      else if cmd \<in> set DYLIB_LOADS then
        and_then (command_str little data off cmdsize) (\<lambda>s. Inr (m\<lparr>mo_deps := mo_deps m @ [s]\<rparr>))
      else if cmd = LC_BUILD_VERSION then
        and_then (unpack_at little 4 data (off + 12)) (\<lambda>v. Inr (m\<lparr>mo_min_os := Some (decode_version v)\<rparr>))
      else if cmd = LC_VERSION_MIN_MACOSX \<and> mo_min_os m = None then
        and_then (unpack_at little 4 data (off + 8)) (\<lambda>v. Inr (m\<lparr>mo_min_os := Some (decode_version v)\<rparr>))
      else Inr m)"

fun load_commands :: "bool \<Rightarrow> bytes \<Rightarrow> nat \<Rightarrow> int \<Rightarrow> macho \<Rightarrow> bin_error + macho" where
  "load_commands little data 0 off m = Inr m"
| "load_commands little data (Suc n) off m =
     (if int (length data) < off + 8 then Inl CommandsPastEnd
      else and_then (unpack_at little 4 data off) (\<lambda>cmd.
           and_then (unpack_at little 4 data (off + 4)) (\<lambda>cmdsize.
             if cmdsize < 8 \<or> int (length data) < off + cmdsize then Inl (BadCommandSize cmd cmdsize)
             else and_then (load_command little data off cmd cmdsize m)
                    (load_commands little data n (off + cmdsize)))))"

definition parse_macho :: "bytes \<Rightarrow> bin_error + macho" where
  "parse_macho data =
     and_then (macho_header data) (\<lambda>(little, _, ncmds, off). load_commands little data (nat ncmds) off no_macho)"

definition macho_info :: "bytes \<Rightarrow> bin_error + ustr list \<times> ustr list \<times> ustr option" where
  "macho_info data = and_then (parse_macho data) (\<lambda>m. Inr (mo_rpaths m, mo_deps m, mo_name m))"

definition min_os :: "bytes \<Rightarrow> bin_error + string option" where
  "min_os data = and_then (parse_macho data) (\<lambda>m. Inr (mo_min_os m))"

section \<open>ELF\<close>

text \<open>A program header: type, file offset, virtual address, size in the file.\<close>

definition program_header :: "bool \<Rightarrow> bytes \<Rightarrow> int \<Rightarrow> bin_error + int \<times> int \<times> int \<times> int" where
  "program_header little data base =
     and_then (unpack_at little 4 data base) (\<lambda>p_type.
     and_then (unpack_at little 8 data (base + 8)) (\<lambda>p_offset.
     and_then (unpack_at little 8 data (base + 16)) (\<lambda>p_vaddr.
     and_then (unpack_at little 8 data (base + 32)) (\<lambda>p_filesz.
       Inr (p_type, p_offset, p_vaddr, p_filesz)))))"

text \<open>The program headers: the last \<open>PT_DYNAMIC\<close> and the \<open>PT_LOAD\<close>s in order.\<close>

fun segments ::
    "bool \<Rightarrow> bytes \<Rightarrow> int \<Rightarrow> nat \<Rightarrow> int \<Rightarrow> (int \<times> int) option \<Rightarrow> (int \<times> int \<times> int) list \<Rightarrow>
     bin_error + (int \<times> int) option \<times> (int \<times> int \<times> int) list" where
  "segments little data entsize 0 base dyn loads = Inr (dyn, loads)"
| "segments little data entsize (Suc n) base dyn loads =
     and_then (program_header little data base) (\<lambda>(p_type, p_offset, p_vaddr, p_filesz).
       segments little data entsize n (base + entsize)
         (if p_type = 2 then Some (p_offset, p_filesz) else dyn)
         (if p_type = 1 then loads @ [(p_vaddr, p_filesz, p_offset)] else loads))"

fun vaddr_to_off :: "(int \<times> int \<times> int) list \<Rightarrow> int \<Rightarrow> bin_error + int" where
  "vaddr_to_off [] v = Inl (ValueError ''address is in no PT_LOAD segment'')"
| "vaddr_to_off ((p_vaddr, p_filesz, p_offset) # ls) v =
     (if p_vaddr \<le> v \<and> v < p_vaddr + p_filesz then Inr (p_offset + (v - p_vaddr)) else vaddr_to_off ls v)"

text \<open>\<open>d_tag\<close> is signed, \<open>d_val\<close> is not.\<close>

definition dyn_entry :: "bool \<Rightarrow> bytes \<Rightarrow> int \<Rightarrow> bin_error + int \<times> int" where
  "dyn_entry little data off =
     and_then (unpack_at little 8 data off) (\<lambda>t.
     and_then (unpack_at little 8 data (off + 8)) (\<lambda>v.
       Inr (if 2 ^ 63 \<le> t then t - 2 ^ 64 else t, v)))"

text \<open>The dynamic section up to its null entry: \<open>range(dyn_off, dyn_off + dyn_size, 16)\<close>.\<close>

function dyn_entries :: "bool \<Rightarrow> bytes \<Rightarrow> int \<Rightarrow> int \<Rightarrow> bin_error + (int \<times> int) list" where
  "dyn_entries little data off stop =
     (if stop \<le> off then Inr []
      else and_then (dyn_entry little data off) (\<lambda>(d_tag, d_val).
             if d_tag = 0 then Inr []
             else and_then (dyn_entries little data (off + 16) stop) (\<lambda>es. Inr ((d_tag, d_val) # es))))"
  by pat_completeness auto
termination by (relation "measure (\<lambda>(little, data, off, stop). nat (stop - off))") auto

declare dyn_entries.simps [simp del]

definition DT_NEEDED :: int where "DT_NEEDED = 1"
definition DT_STRTAB :: int where "DT_STRTAB = 5"
definition DT_SONAME :: int where "DT_SONAME = 14"
definition DT_RPATH :: int where "DT_RPATH = 15"
definition DT_RUNPATH :: int where "DT_RUNPATH = 29"

lemmas DT_defs = DT_NEEDED_def DT_STRTAB_def DT_SONAME_def DT_RPATH_def DT_RUNPATH_def

definition strtab_of :: "(int \<times> int) list \<Rightarrow> int option" where
  "strtab_of es = (case rev (filter (\<lambda>(t, v). t = DT_STRTAB) es) of [] \<Rightarrow> None | (_, v) # _ \<Rightarrow> Some v)"

definition elf_str :: "bytes \<Rightarrow> int \<Rightarrow> int \<Rightarrow> bin_error + ustr" where
  "elf_str data strtab idx =
     and_then (until_nul (drop (nat (strtab + idx)) data)) (\<lambda>s. Inr (utf8_decode_replace s))"

text \<open>What one entry adds to the search paths, the dependencies and the soname.\<close>

definition elf_entry ::
    "bytes \<Rightarrow> int \<Rightarrow> int \<times> int \<Rightarrow> ustr list \<times> ustr list \<times> ustr option \<Rightarrow>
     bin_error + ustr list \<times> ustr list \<times> ustr option" where
  "elf_entry data strtab e r =
     (let (d_tag, d_val) = e; (search, deps, soname) = r
      in if d_tag = DT_NEEDED then
           and_then (elf_str data strtab d_val) (\<lambda>s. Inr (search, deps @ [s], soname))
         else if d_tag = DT_SONAME then
           and_then (elf_str data strtab d_val) (\<lambda>s. Inr (search, deps, Some s))
         else if d_tag = DT_RPATH \<or> d_tag = DT_RUNPATH then
           and_then (elf_str data strtab d_val)
             (\<lambda>s. Inr (search @ filter (\<lambda>q. q \<noteq> []) (split_on 58 s), deps, soname))
         else Inr r)"

fun elf_names ::
    "bytes \<Rightarrow> int \<Rightarrow> (int \<times> int) list \<Rightarrow> ustr list \<times> ustr list \<times> ustr option \<Rightarrow>
     bin_error + ustr list \<times> ustr list \<times> ustr option" where
  "elf_names data strtab [] r = Inr r"
| "elf_names data strtab (e # es) r = and_then (elf_entry data strtab e r) (elf_names data strtab es)"

definition inspect_elf :: "bytes \<Rightarrow> bin_error + ustr list \<times> ustr list \<times> ustr option" where
  "inspect_elf data =
     (if take 4 data \<noteq> ELF_MAGIC then Inl (ValueError ''not a 64-bit ELF'')
      else if length data \<le> 4 then Inl IndexError
      else if data ! 4 \<noteq> 2 then Inl (ValueError ''not a 64-bit ELF'')
      else if length data \<le> 5 then Inl IndexError
      else
        let little = data ! 5 = 1
        in and_then (unpack_at little 8 data 0x20) (\<lambda>e_phoff.
           and_then (unpack_at little 2 data 0x36) (\<lambda>e_phentsize.
           and_then (unpack_at little 2 data 0x38) (\<lambda>e_phnum.
           and_then (segments little data e_phentsize (nat e_phnum) e_phoff None []) (\<lambda>(dyn, loads).
             case dyn of
               None \<Rightarrow> Inl (ValueError ''no PT_DYNAMIC segment'')
             | Some (dyn_off, dyn_size) \<Rightarrow>
                 and_then (dyn_entries little data dyn_off (dyn_off + dyn_size)) (\<lambda>es.
                   case strtab_of es of
                     None \<Rightarrow> Inl (ValueError ''dynamic section has no DT_STRTAB'')
                   | Some strtab_v \<Rightarrow>
                       and_then (vaddr_to_off loads strtab_v) (\<lambda>strtab.
                         elf_names data strtab es ([], [], None))))))))"

definition inspect :: "bytes \<Rightarrow> bin_error + ustr list \<times> ustr list \<times> ustr option" where
  "inspect data =
     and_then (classify data) (\<lambda>fmt. case fmt of MachO \<Rightarrow> macho_info data | Elf \<Rightarrow> inspect_elf data)"

end
