(* ===== verification/Binfmt_Props.thy ===== *)
theory Binfmt_Props
  imports Binfmt
begin

text \<open>
  The Mach-O assembler of scripts/binfmt.py and what the parser makes of its output: each
  load command is read back as it was written, in order, and nothing else is.
\<close>

unbundle bit_operations_syntax

section \<open>Assembling\<close>

text \<open>\<open>struct.pack\<close> of unsigned 32-bit words: an error when one does not fit.\<close>

definition pack_words :: "int list \<Rightarrow> bytes option" where
  "pack_words ws =
     (if list_all (\<lambda>w. 0 \<le> w \<and> w < 2 ^ 32) ws then Some (concat (map (to_le 4) ws)) else None)"

definition padded :: "nat \<Rightarrow> bytes \<Rightarrow> bytes" where
  "padded head raw = raw @ replicate (nat (- int (head + length raw) mod 8)) 0"

definition lc_dylib :: "int \<Rightarrow> ustr \<Rightarrow> bytes option" where
  "lc_dylib cmd name =
     (case utf8_encode name of
        None \<Rightarrow> None
      | Some b \<Rightarrow>
          (let body = padded 24 (b @ [0])
           in map_option (\<lambda>h. h @ body) (pack_words [cmd, 24 + int (length body), 24, 0, 0, 0])))"

definition lc_rpath :: "ustr \<Rightarrow> bytes option" where
  "lc_rpath path =
     (case utf8_encode path of
        None \<Rightarrow> None
      | Some b \<Rightarrow>
          (let body = padded 12 (b @ [0])
           in map_option (\<lambda>h. h @ body) (pack_words [LC_RPATH, 12 + int (length body), 12])))"

text \<open>\<open>(major << 16) | (minor << 8)\<close>; the minor version is below 256 wherever it is called.\<close>

definition lc_build_version :: "int \<Rightarrow> int \<Rightarrow> bytes option" where
  "lc_build_version major minor =
     pack_words [LC_BUILD_VERSION, 24, 1, major * 2 ^ 16 OR minor * 2 ^ 8, 0, 0]"

definition macho_file :: "int \<Rightarrow> bytes list \<Rightarrow> bytes option" where
  "macho_file filetype commands =
     (let body = concat commands
      in map_option (\<lambda>h. h @ [0, 0, 0, 0] @ body)
           (pack_words [0xFEEDFACF, 0x0100000C, 0, filetype, int (length commands), int (length body), 0]))"

section \<open>The commands an image is made of\<close>

text \<open>The commands the assembler writes, what each is encoded as, and what they say.\<close>

datatype command = Dylib int ustr | Rpath ustr | BuildVersion int int

definition encode_command :: "command \<Rightarrow> bytes option" where
  "encode_command c =
     (case c of Dylib cmd name \<Rightarrow> lc_dylib cmd name | Rpath path \<Rightarrow> lc_rpath path
      | BuildVersion major minor \<Rightarrow> lc_build_version major minor)"

definition plain_command :: "command \<Rightarrow> bool" where
  "plain_command c \<longleftrightarrow>
     (case c of Dylib cmd name \<Rightarrow> cmd \<in> set (LC_ID_DYLIB # DYLIB_LOADS) \<and> 0 \<notin> set name
      | Rpath path \<Rightarrow> 0 \<notin> set path
      | BuildVersion major minor \<Rightarrow> 0 \<le> major \<and> major < 2 ^ 16 \<and> 0 \<le> minor \<and> minor < 2 ^ 8)"

fun said_by :: "command \<Rightarrow> macho \<Rightarrow> macho" where
  "said_by (Dylib cmd name) m =
     (if cmd = LC_ID_DYLIB then m\<lparr>mo_name := Some name\<rparr> else m\<lparr>mo_deps := mo_deps m @ [name]\<rparr>)"
| "said_by (Rpath path) m = m\<lparr>mo_rpaths := mo_rpaths m @ [path]\<rparr>"
| "said_by (BuildVersion major minor) m = m\<lparr>mo_min_os := Some (show_int major @ ''.'' @ show_int minor)\<rparr>"

section \<open>Reading words back\<close>

lemma length_words: "length (concat (map (to_le 4) ws)) = 4 * length ws"
  by (induction ws) simp_all

lemma unpack_word:
  assumes ws: "list_all (\<lambda>w. 0 \<le> w \<and> w < 2 ^ 32) ws" and i: "i < length ws"
    and bound: "int (length pre) + 4 * int (length ws) < 2 ^ 63"
  shows "unpack_at True 4 (pre @ concat (map (to_le 4) ws) @ post) (int (length pre) + 4 * int i) = Inr (ws ! i)"
proof -
  let ?before = "pre @ concat (map (to_le 4) (take i ws))"
  let ?after = "concat (map (to_le 4) (drop (Suc i) ws)) @ post"
  have "ws = take i ws @ ws ! i # drop (Suc i) ws"
    using i by (rule id_take_nth_drop)
  then have "pre @ concat (map (to_le 4) ws) @ post = ?before @ to_le 4 (ws ! i) @ ?after"
    by (metis append.assoc concat.simps(2) concat_append list.simps(9) map_append)
  moreover have at: "int (length pre) + 4 * int i = int (length ?before)"
    using i by (simp add: length_words)
  moreover have "int (length ?before) < 2 ^ 63"
    using at bound i by linarith
  moreover have "0 \<le> ws ! i" "ws ! i < 256 ^ 4"
    using ws i by (auto simp: list_all_length)
  ultimately show ?thesis
    by (simp add: unpack_at_def from_le_to_le)
qed

lemma until_nul_here: "0 \<notin> set b \<Longrightarrow> until_nul (b @ 0 # rest) = Inr b"
proof -
  assume "0 \<notin> set b"
  then have "takeWhile (\<lambda>x. x \<noteq> 0) (b @ 0 # rest) = b"
    by (induction b) auto
  then show ?thesis by (simp add: until_nul_def)
qed

lemma utf8_no_nul:
  assumes "utf8_encode s = Some b" and "0 \<notin> set s"
  shows "0 \<notin> set b"
proof -
  from assms have s: "list_all scalar s" and b: "b = map u8 (concat (map utf8_char s))"
    by (auto simp: utf8_encode_def split: if_splits)
  have "\<forall>x \<in> set (concat (map utf8_char s)). 0 < x \<and> x < 256"
  proof
    fix x assume "x \<in> set (concat (map utf8_char s))"
    then obtain c where c: "c \<in> set s" "x \<in> set (utf8_char c)" by auto
    with s assms(2) have "scalar c" "0 < c" by (auto simp: list_all_iff intro: gr0I)
    with c show "0 < x \<and> x < 256"
      using utf8_char_bound [of c x] by (auto simp: utf8_char_def split: if_splits)
  qed
  then show ?thesis
    by (auto simp: b u8_def word_unat_eq_iff unat_of_nat simp del: set_concat)
qed

section \<open>Reading a command back\<close>

lemma pack_words_Some: "pack_words ws = Some h \<longleftrightarrow> list_all (\<lambda>w. 0 \<le> w \<and> w < 2 ^ 32) ws \<and> h = concat (map (to_le 4) ws)"
  by (auto simp: pack_words_def)

text \<open>Where a command that holds a string stands in a file.\<close>

lemma command_str_here:
  assumes ws: "list_all (\<lambda>w. 0 \<le> w \<and> w < 2 ^ 32) ws" "2 < length ws" "ws ! 2 = 4 * int (length ws)"
    and enc: "enc = concat (map (to_le 4) ws) @ b @ 0 # zs"
    and b: "0 \<notin> set b"
    and bound: "int (length pre) + int (length enc) < 2 ^ 63"
  shows "command_str True (pre @ enc @ post) (int (length pre)) (int (length enc)) = Inr (utf8_decode_replace b)"
proof -
  have "unpack_at True 4 (pre @ enc @ post) (int (length pre) + 8) = Inr (ws ! 2)"
    using unpack_word [OF ws(1,2), of pre "b @ 0 # zs @ post"] bound
    by (simp add: enc length_words)
  moreover have "drop (nat (int (length pre) + 4 * int (length ws)))
      (take (nat (int (length pre) + int (length enc))) (pre @ enc @ post)) = b @ 0 # zs"
    by (simp add: nat_add_distrib nat_mult_distrib enc length_words)
  ultimately show ?thesis
    using ws(2,3) by (auto simp: command_str_def lc_str_def until_nul_here b enc length_words)
qed

lemma load_commands_step:
  assumes ws: "list_all (\<lambda>w. 0 \<le> w \<and> w < 2 ^ 32) ws" "1 < length ws" "ws ! 1 = int (length enc)"
    and enc: "enc = concat (map (to_le 4) ws) @ rest"
    and bound: "int (length pre) + int (length enc) < 2 ^ 63"
  shows "load_commands True (pre @ enc @ post) (Suc n) (int (length pre)) m =
    and_then (load_command True (pre @ enc @ post) (int (length pre)) (ws ! 0) (int (length enc)) m)
      (load_commands True (pre @ enc @ post) n (int (length pre) + int (length enc)))"
proof -
  have len: "8 \<le> int (length enc)"
    using ws(2) by (simp add: enc length_words)
  have some: "0 < length ws"
    using ws(2) by linarith
  have words: "unpack_at True 4 (pre @ enc @ post) (int (length pre)) = Inr (ws ! 0)"
      "unpack_at True 4 (pre @ enc @ post) (int (length pre) + 4) = Inr (ws ! 1)"
    using unpack_word [OF ws(1) some, of pre "rest @ post"] unpack_word [OF ws(1,2), of pre "rest @ post"] bound
    by (simp_all add: enc length_words)
  show ?thesis
    using len ws(3) by (simp add: words)
qed

lemma command_kinds:
  "LC_ID_DYLIB \<noteq> LC_RPATH" "cmd \<in> set DYLIB_LOADS \<Longrightarrow> cmd \<noteq> LC_RPATH \<and> cmd \<noteq> LC_ID_DYLIB"
  "LC_BUILD_VERSION \<noteq> LC_RPATH" "LC_BUILD_VERSION \<noteq> LC_ID_DYLIB" "LC_BUILD_VERSION \<notin> set DYLIB_LOADS"
  by (auto simp: DYLIB_LOADS_def LC_defs)

lemma string_command:
  assumes str: "utf8_encode s = Some b" "0 \<notin> set s"
    and ws: "list_all (\<lambda>w. 0 \<le> w \<and> w < 2 ^ 32) ws" "2 < length ws" "ws ! 2 = 4 * int (length ws)"
      "ws ! 1 = 4 * int (length ws) + int (length (padded h (b @ [0])))"
    and enc: "enc = concat (map (to_le 4) ws) @ padded h (b @ [0])"
    and bound: "int (length pre) + int (length enc) < 2 ^ 63"
  shows "load_commands True (pre @ enc @ post) (Suc n) (int (length pre)) m =
      and_then (load_command True (pre @ enc @ post) (int (length pre)) (ws ! 0) (int (length enc)) m)
        (load_commands True (pre @ enc @ post) n (int (length pre) + int (length enc)))"
    and "command_str True (pre @ enc @ post) (int (length pre)) (int (length enc)) = Inr s"
proof -
  have len: "ws ! 1 = int (length enc)" "1 < length ws"
    using ws(2,4) by (simp_all add: enc length_words)
  from ws(1) len(2,1) enc bound
  show "load_commands True (pre @ enc @ post) (Suc n) (int (length pre)) m =
      and_then (load_command True (pre @ enc @ post) (int (length pre)) (ws ! 0) (int (length enc)) m)
        (load_commands True (pre @ enc @ post) n (int (length pre) + int (length enc)))"
    by (rule load_commands_step)
  have "enc = concat (map (to_le 4) ws) @ b @ 0 # replicate (nat (- int (h + length (b @ [0])) mod 8)) 0"
    unfolding enc by (simp add: padded_def)
  from command_str_here [OF ws(1-3) this utf8_no_nul [OF str] bound]
  show "command_str True (pre @ enc @ post) (int (length pre)) (int (length enc)) = Inr s"
    by (simp add: utf8_roundtrip [OF str(1)])
qed

lemma lc_dylib_Some:
  assumes "lc_dylib cmd name = Some enc"
  obtains b where "utf8_encode name = Some b"
    and "list_all (\<lambda>w. 0 \<le> w \<and> w < 2 ^ 32) [cmd, 24 + int (length (padded 24 (b @ [0]))), 24, 0, 0, 0]"
    and "enc = concat (map (to_le 4) [cmd, 24 + int (length (padded 24 (b @ [0]))), 24, 0, 0, 0]) @ padded 24 (b @ [0])"
  using assms by (auto simp: lc_dylib_def Let_def pack_words_Some split: option.splits)

lemma lc_rpath_Some:
  assumes "lc_rpath path = Some enc"
  obtains b where "utf8_encode path = Some b"
    and "list_all (\<lambda>w. 0 \<le> w \<and> w < 2 ^ 32) [LC_RPATH, 12 + int (length (padded 12 (b @ [0]))), 12]"
    and "enc = concat (map (to_le 4) [LC_RPATH, 12 + int (length (padded 12 (b @ [0]))), 12]) @ padded 12 (b @ [0])"
  using assms by (auto simp: lc_rpath_def Let_def pack_words_Some split: option.splits)

lemma decode_build_version:
  assumes "0 \<le> major" "major < 2 ^ 16" "0 \<le> minor" "minor < 2 ^ 8"
  shows "decode_version (major * 2 ^ 16 OR minor * 2 ^ 8) = show_int major @ ''.'' @ show_int minor"
proof -
  have "push_bit 16 major AND push_bit 8 (take_bit 8 minor) = 0"
    by (rule bit_eqI) (auto simp: bit_simps)
  then have "major * 2 ^ 16 OR minor * 2 ^ 8 = major * 2 ^ 16 + minor * 2 ^ 8"
    using assms by (simp add: push_bit_eq_mult take_bit_int_eq_self disjunctive_add_eq_or)
  then show ?thesis
    using assms by (simp add: decode_version_def Let_def)
qed

lemma read_command:
  assumes enc: "encode_command c = Some enc" and plain: "plain_command c"
    and bound: "int (length pre) + int (length enc) < 2 ^ 63"
  shows "load_commands True (pre @ enc @ post) (Suc n) (int (length pre)) m =
    load_commands True (pre @ enc @ post) n (int (length pre) + int (length enc)) (said_by c m)"
proof (cases c)
  case (Dylib cmd name)
  with enc have "lc_dylib cmd name = Some enc" by (simp add: encode_command_def)
  then obtain b where b: "utf8_encode name = Some b"
    and ws: "list_all (\<lambda>w. 0 \<le> w \<and> w < 2 ^ 32) [cmd, 24 + int (length (padded 24 (b @ [0]))), 24, 0, 0, 0]"
    and e: "enc = concat (map (to_le 4) [cmd, 24 + int (length (padded 24 (b @ [0]))), 24, 0, 0, 0]) @ padded 24 (b @ [0])"
    by (rule lc_dylib_Some)
  from plain Dylib have "cmd \<in> set (LC_ID_DYLIB # DYLIB_LOADS)" "0 \<notin> set name"
    by (simp_all add: plain_command_def)
  with string_command [OF b _ ws _ _ _ e bound] show ?thesis
    using command_kinds by (auto simp: load_command_def Dylib)
next
  case (Rpath path)
  with enc have "lc_rpath path = Some enc" by (simp add: encode_command_def)
  then obtain b where b: "utf8_encode path = Some b"
    and ws: "list_all (\<lambda>w. 0 \<le> w \<and> w < 2 ^ 32) [LC_RPATH, 12 + int (length (padded 12 (b @ [0]))), 12]"
    and e: "enc = concat (map (to_le 4) [LC_RPATH, 12 + int (length (padded 12 (b @ [0]))), 12]) @ padded 12 (b @ [0])"
    by (rule lc_rpath_Some)
  from plain Rpath have "0 \<notin> set path" by (simp add: plain_command_def)
  with string_command [OF b _ ws _ _ _ e bound] show ?thesis
    by (simp add: load_command_def Rpath)
next
  case (BuildVersion major minor)
  let ?ws = "[LC_BUILD_VERSION, 24, 1, major * 2 ^ 16 OR minor * 2 ^ 8, 0, 0]"
  from enc BuildVersion have ws: "list_all (\<lambda>w. 0 \<le> w \<and> w < 2 ^ 32) ?ws" and e: "enc = concat (map (to_le 4) ?ws) @ []"
    by (simp_all add: encode_command_def lc_build_version_def pack_words_Some)
  from plain BuildVersion have v: "0 \<le> major" "major < 2 ^ 16" "0 \<le> minor" "minor < 2 ^ 8"
    by (simp_all add: plain_command_def)
  have len: "length enc = 24" unfolding e length_append length_words by simp
  have "unpack_at True 4 (pre @ enc @ post) (int (length pre) + 12) = Inr (major * 2 ^ 16 OR minor * 2 ^ 8)"
    using unpack_word [OF ws, of 3 pre post] bound by (simp add: e)
  moreover have "load_commands True (pre @ enc @ post) (Suc n) (int (length pre)) m =
      and_then (load_command True (pre @ enc @ post) (int (length pre)) (?ws ! 0) (int (length enc)) m)
        (load_commands True (pre @ enc @ post) n (int (length pre) + int (length enc)))"
    using ws _ _ e bound by (rule load_commands_step) (simp_all add: len)
  ultimately show ?thesis
    using command_kinds decode_build_version [OF v] by (simp add: load_command_def BuildVersion del: load_commands.simps)
qed

section \<open>A whole image\<close>

text \<open>What the commands of an image declare.\<close>

definition rpaths_in :: "command list \<Rightarrow> ustr list" where
  "rpaths_in cs = List.map_filter (\<lambda>c. case c of Rpath p \<Rightarrow> Some p | _ \<Rightarrow> None) cs"

definition loads_in :: "command list \<Rightarrow> ustr list" where
  "loads_in cs = List.map_filter
     (\<lambda>c. case c of Dylib cmd n \<Rightarrow> if cmd = LC_ID_DYLIB then None else Some n | _ \<Rightarrow> None) cs"

definition names_in :: "command list \<Rightarrow> ustr list" where
  "names_in cs = List.map_filter
     (\<lambda>c. case c of Dylib cmd n \<Rightarrow> if cmd = LC_ID_DYLIB then Some n else None | _ \<Rightarrow> None) cs"

definition versions_in :: "command list \<Rightarrow> string list" where
  "versions_in cs = List.map_filter
     (\<lambda>c. case c of BuildVersion a b \<Rightarrow> Some (show_int a @ ''.'' @ show_int b) | _ \<Rightarrow> None) cs"

definition last_of :: "'a list \<Rightarrow> 'a option" where
  "last_of xs = (if xs = [] then None else Some (last xs))"

definition declared :: "command list \<Rightarrow> macho" where
  "declared cs = \<lparr>mo_rpaths = rpaths_in cs, mo_deps = loads_in cs,
     mo_name = last_of (names_in cs), mo_min_os = last_of (versions_in cs)\<rparr>"

lemmas in_defs = rpaths_in_def loads_in_def names_in_def versions_in_def

lemma map_filter_snoc: "List.map_filter f (xs @ [x]) = List.map_filter f xs @ (case f x of None \<Rightarrow> [] | Some y \<Rightarrow> [y])"
  by (simp add: List.map_filter_def split: option.split)

lemma fold_said_by: "fold said_by cs no_macho = declared cs"
proof (induction cs rule: rev_induct)
  case Nil
  show ?case by (simp add: no_macho_def declared_def in_defs last_of_def map_filter_simps)
next
  case (snoc c cs)
  then show ?case
    by (cases c) (simp_all add: declared_def in_defs last_of_def map_filter_snoc)
qed

lemma read_commands:
  assumes "those (map encode_command cs) = Some encs" and "list_all plain_command cs"
    and "int (length pre) + int (length (concat encs)) < 2 ^ 63"
  shows "load_commands True (pre @ concat encs) (length cs) (int (length pre)) m = Inr (fold said_by cs m)"
  using assms
proof (induction cs arbitrary: encs pre m)
  case (Cons c cs)
  then obtain enc rest where e: "encode_command c = Some enc" "those (map encode_command cs) = Some rest"
    and encs: "encs = enc # rest"
    by (auto split: option.splits)
  have "load_commands True (pre @ enc @ concat rest) (Suc (length cs)) (int (length pre)) m =
    load_commands True (pre @ enc @ concat rest) (length cs) (int (length pre) + int (length enc)) (said_by c m)"
    using e(1) Cons.prems by (intro read_command) (simp_all add: encs)
  also have "\<dots> = Inr (fold said_by cs (said_by c m))"
    using Cons.IH [OF e(2), of "pre @ enc" "said_by c m"] Cons.prems by (simp add: encs)
  finally show ?case by (simp add: encs)
qed simp

lemma magic_bytes: "to_le 4 0xFEEDFACF = [0xcf, 0xfa, 0xed, 0xfe]"
  by code_simp

text \<open>
  C22. An assembled Mach-O image is read back exactly: the parser returns its search paths and
  its dependencies in the order of the load commands, its own name only where a command
  carries one (so no dependency of an executable is taken for its name), and its deployment
  target.
\<close>

theorem macho_roundtrip:
  assumes "those (map encode_command cs) = Some encs" and "list_all plain_command cs"
    and "macho_file filetype encs = Some data"
  shows "parse_macho data = Inr (declared cs)"
proof -
  let ?ws = "[0xFEEDFACF, 0x0100000C, 0, filetype, int (length encs), int (length (concat encs)), 0]"
  let ?pre = "concat (map (to_le 4) ?ws) @ [0, 0, 0, 0]"
  from assms(3) have ws: "list_all (\<lambda>w. 0 \<le> w \<and> w < 2 ^ 32) ?ws" and data: "data = ?pre @ concat encs"
    by (auto simp: macho_file_def Let_def pack_words_Some)
  have n: "length encs = length cs"
    using assms(1) by (induction cs arbitrary: encs) (auto split: option.splits)
  have len: "length ?pre = 32" unfolding length_append length_words by simp
  have magic: "take 4 data = [0xcf, 0xfa, 0xed, 0xfe]"
    by (simp add: data magic_bytes)
  have "unpack_at True 4 data 12 = Inr filetype" "unpack_at True 4 data 16 = Inr (int (length encs))"
    using unpack_word [OF ws, of 3 "[]" "[0, 0, 0, 0] @ concat encs"]
      unpack_word [OF ws, of 4 "[]" "[0, 0, 0, 0] @ concat encs"]
    by (simp_all add: data)
  moreover have "load_commands True data (length cs) 32 no_macho = Inr (declared cs)"
    using read_commands [OF assms(1,2), of ?pre no_macho] ws len
    by (simp add: data fold_said_by)
  ultimately show ?thesis
    by (simp add: parse_macho_def macho_header_def Let_def magic n FAT_def MACHO_LE_def MACHO_64_def)
qed

definition demo_image :: "command list" where
  "demo_image = [Dylib LC_LOAD_DYLIB (str_of ''@rpath/libK.dylib''), Rpath (str_of ''@loader_path''), BuildVersion 13 0]"

lemma demo_encodes: "\<exists>encs. those (map encode_command demo_image) = Some encs \<and> macho_file MH_EXECUTE encs \<noteq> None"
  by (simp add: demo_image_def encode_command_def lc_dylib_def lc_rpath_def lc_build_version_def LC_defs MH_EXECUTE_def
      utf8_ascii str_of_def pack_words_def padded_def macho_file_def Let_def)

theorem macho_roundtrip_witness:
  "\<exists>data. parse_macho data = Inr (declared demo_image) \<and>
     mo_deps (declared demo_image) = [str_of ''@rpath/libK.dylib''] \<and> mo_name (declared demo_image) = None"
proof -
  obtain encs data where "those (map encode_command demo_image) = Some encs" "macho_file MH_EXECUTE encs = Some data"
    using demo_encodes by auto
  moreover have "list_all plain_command demo_image"
    by (simp add: demo_image_def plain_command_def DYLIB_LOADS_def str_of_def)
  moreover have "mo_deps (declared demo_image) = [str_of ''@rpath/libK.dylib''] \<and> mo_name (declared demo_image) = None"
    by (simp add: demo_image_def declared_def in_defs last_of_def map_filter_simps LC_defs)
  ultimately show ?thesis using macho_roundtrip by blast
qed

end
