(* ===== verification/Wheel_Tag.thy ===== *)
theory Wheel_Tag
  imports Binfmt "HOL-Library.Product_Lexorder"
begin

text \<open>
  The platform tag of a wheel (scripts/wheel_tag.py), measured from the binaries staged for
  it: the deployment target of each Mach-O file, the highest glibc version each ELF file
  names, and the strictest of them for the wheel.
\<close>

section \<open>One binary\<close>

definition TOOLCHAIN_GLIBC :: "int \<times> int" where "TOOLCHAIN_GLIBC = (2, 34)"

definition MACHO_ARCH :: "int \<rightharpoonup> string" where
  "MACHO_ARCH = [0x0100000C \<mapsto> ''arm64'', 0x01000007 \<mapsto> ''x86_64'']"

definition ELF_ARCH :: "int \<rightharpoonup> string" where
  "ELF_ARCH = [0x3E \<mapsto> ''x86_64'', 0xB7 \<mapsto> ''aarch64'']"

definition macho_arch :: "bytes \<Rightarrow> bin_error + string" where
  "macho_arch data =
     (let hdr = take 8 data
      in and_then (unpack_at (take 4 hdr \<in> set MACHO_LE) 4 hdr 4) (\<lambda>cputype.
           case MACHO_ARCH cputype of None \<Rightarrow> Inl (UnknownCputype cputype) | Some a \<Rightarrow> Inr a))"

definition elf_arch :: "bytes \<Rightarrow> bin_error + string" where
  "elf_arch data =
     (let hdr = take 20 data
      in if length hdr \<le> 5 then Inl IndexError
         else and_then (unpack_at (hdr ! 5 = 1) 2 hdr 18) (\<lambda>machine.
           case ELF_ARCH machine of None \<Rightarrow> Inl (UnknownMachine machine) | Some a \<Rightarrow> Inr a))"

text \<open>The pattern \<open>GLIBC_(\d+)\.(\d+)\<close> at the start of the bytes: the match and its length.\<close>

definition byte_digit :: "byte \<Rightarrow> bool" where
  "byte_digit b \<longleftrightarrow> 48 \<le> b \<and> b \<le> 57"

definition decimal :: "bytes \<Rightarrow> int" where
  "decimal ds = foldl (\<lambda>n b. n * 10 + (uint b - 48)) 0 ds"

definition glibc_at :: "bytes \<Rightarrow> ((int \<times> int) \<times> nat) option" where
  "glibc_at s =
     (if \<not> starts_with (latin1 ''GLIBC_'') s then None
      else
        let r = drop 6 s; a = takeWhile byte_digit r; r2 = drop (length a) r
        in if a = [] \<or> r2 = [] \<or> hd r2 \<noteq> 46 then None
           else let b = takeWhile byte_digit (tl r2)
                in if b = [] then None
                   else Some ((decimal a, decimal b), 7 + length a + length b))"

text \<open>All matches, left to right, none inside another.\<close>

function glibc_refs :: "bytes \<Rightarrow> (int \<times> int) list" where
  "glibc_refs [] = []"
| "glibc_refs (x # xs) =
     (case glibc_at (x # xs) of
        None \<Rightarrow> glibc_refs xs
      | Some (v, n) \<Rightarrow> v # glibc_refs (drop (n - 1) xs))"
  by pat_completeness auto
termination by (relation "measure length") auto

definition elf_glibc_floor :: "bytes \<Rightarrow> int \<times> int" where
  "elf_glibc_floor data = fold max (glibc_refs data) TOOLCHAIN_GLIBC"

definition tag_text :: "string \<Rightarrow> int \<Rightarrow> int \<Rightarrow> string \<Rightarrow> string" where
  "tag_text os major minor arch = os @ ''_'' @ show_int major @ ''_'' @ show_int minor @ ''_'' @ arch"

text \<open>\<open>int(text)\<close>.\<close>

definition int_of_text :: "string \<Rightarrow> bin_error + int" where
  "int_of_text s = (case py_int s of None \<Rightarrow> Inl (ValueError ''invalid literal for int()'') | Some i \<Rightarrow> Inr i)"

definition macho_tag :: "bytes \<Rightarrow> bin_error + string" where
  "macho_tag data =
     and_then (min_os data) (\<lambda>target.
       if \<not> truthy target then Inl NoBuildVersion
       else
         let parts = split_on (CHR ''.'') (or_empty target)
         in and_then (int_of_text (hd parts)) (\<lambda>major.
            and_then (if 1 < length parts then int_of_text (parts ! 1) else Inr 0) (\<lambda>minor.
            and_then (macho_arch data) (\<lambda>arch.
              Inr (tag_text ''macosx'' major (if 11 \<le> major then 0 else minor) arch)))))"

definition tag_for :: "bytes \<Rightarrow> bin_error + string" where
  "tag_for data =
     and_then (classify data) (\<lambda>fmt. case fmt of
       MachO \<Rightarrow> macho_tag data
     | Elf \<Rightarrow> (let (major, minor) = elf_glibc_floor data
               in and_then (elf_arch data) (\<lambda>arch. Inr (tag_text ''manylinux'' major minor arch))))"

section \<open>The wheel\<close>

text \<open>\<open>_rank\<close>: the two numbers of a tag (\<open>None\<close> where the pattern does not match).\<close>

definition rank_of :: "string \<Rightarrow> (int \<times> int) option" where
  "rank_of tag =
     (case split_on (CHR ''_'') tag of
        os # a # b # r # rs \<Rightarrow>
          if os \<in> {''macosx'', ''manylinux''} \<and> is_digits a \<and> is_digits b \<and> join ''_'' (r # rs) \<noteq> []
          then (case (py_int a, py_int b) of (Some i, Some j) \<Rightarrow> Some (i, j) | _ \<Rightarrow> None)
          else None
      | _ \<Rightarrow> None)"

text \<open>\<open>tags.setdefault(tag, []).append(path)\<close>: a dict in the order of its keys' insertion.\<close>

fun add_tag :: "string \<Rightarrow> string \<Rightarrow> (string \<times> string list) list \<Rightarrow> (string \<times> string list) list" where
  "add_tag tag path [] = [(tag, [path])]"
| "add_tag tag path ((t, ps) # ts) =
     (if t = tag then (t, ps @ [path]) # ts else (t, ps) # add_tag tag path ts)"

datatype wheel_exit =
    WheelUsage
  | WheelUnreadable bin_error
  | WheelEmpty
  | WheelArchitectures "string list"
  | WheelTagged string string

definition wheel_code :: "wheel_exit \<Rightarrow> int" where
  "wheel_code x = (case x of WheelTagged _ _ \<Rightarrow> 0 | _ \<Rightarrow> 2)"

definition wheel_stdout :: "wheel_exit \<Rightarrow> string list" where
  "wheel_stdout x = (case x of WheelTagged tag _ \<Rightarrow> [''py3-none-'' @ tag] | _ \<Rightarrow> [])"

text \<open>
  The loop over the staged files, each with its contents where it can be opened: the tags, or
  how the command ends (\<open>Inr\<close>: by itself; \<open>Inl\<close>: by an exception it does not catch).
\<close>

fun collect_tags ::
    "(string \<times> bytes option) list \<Rightarrow> (string \<times> string list) list \<Rightarrow>
     (bin_error + wheel_exit) + (string \<times> string list) list" where
  "collect_tags [] tags = Inr tags"
| "collect_tags ((path, file) # fs) tags =
     (case file of
        None \<Rightarrow> collect_tags fs tags
      | Some data \<Rightarrow>
          (case classify data of
             Inl _ \<Rightarrow> collect_tags fs tags
           | Inr _ \<Rightarrow>
               (case tag_for data of
                  Inl e \<Rightarrow> Inl (if inspect_error e then Inr (WheelUnreadable e) else Inl e)
                | Inr t \<Rightarrow> collect_tags fs (add_tag t path tags))))"

text \<open>\<open>max(tags, key=_rank)\<close>: the first key of the highest rank.\<close>

definition stricter :: "string \<Rightarrow> string \<Rightarrow> string" where
  "stricter t best = (if the (rank_of best) < the (rank_of t) then t else best)"

definition strictest :: "string list \<Rightarrow> string" where
  "strictest ts = fold stricter (tl ts) (hd ts)"

text \<open>\<open>t.rsplit("_", 1)[-1]\<close>.\<close>

definition last_piece :: "string \<Rightarrow> string" where
  "last_piece t = last (split_on (CHR ''_'') t)"

definition choose_tag :: "(string \<times> string list) list \<Rightarrow> wheel_exit" where
  "choose_tag tags =
     (let keys = map fst tags; best = strictest keys; arch = remdups (map last_piece keys)
      in if tags = [] then WheelEmpty
         else if length arch \<noteq> 1 then WheelArchitectures keys
         else WheelTagged best (hd (the (map_of tags best))))"

definition wheel_main :: "(string \<Rightarrow> (string \<times> bytes option) list) \<Rightarrow> string list \<Rightarrow> bin_error + wheel_exit" where
  "wheel_main walk argv =
     (if length argv \<noteq> 2 then Inr WheelUsage
      else (case collect_tags (walk (argv ! 1)) [] of
              Inl stop \<Rightarrow> stop
            | Inr tags \<Rightarrow> Inr (choose_tag tags)))"

end
