(* ===== verification/Wheel_Props.thy ===== *)
theory Wheel_Props
  imports Wheel_Tag
begin

text \<open>
  The tag a wheel is given is at least as strict as every binary in it requires, which is
  what makes an installation that pip accepts one that loads.
\<close>

section \<open>Numbers in a tag\<close>

lemma show_int_chars_digits: "0 \<le> i \<Longrightarrow> list_all digit_char (show_int i) \<and> show_int i \<noteq> []"
  using show_nat_digits [of "nat i"] by (simp add: show_int_def)

lemma is_digits_show_int: "0 \<le> i \<Longrightarrow> is_digits (show_int i)"
  using show_int_chars_digits [of i] digit_char_facts(5) by (fastforce simp: is_digits_def list_all_iff)

lemma show_int_no_char:
  assumes "0 \<le> i" and "\<not> digit_char c"
  shows "c \<notin> set (show_int i)"
  using show_int_chars_digits [OF assms(1)] assms(2) by (auto simp: list_all_iff)

lemma not_digit_chars: "\<not> digit_char (CHR ''_'')" "\<not> digit_char (CHR ''.'')"
  using digit_char_facts(1) by (auto simp: digit_char_def dest!: arg_cong [where f = "of_char :: char \<Rightarrow> nat"])

lemma rank_tag_text:
  assumes "os \<in> {''macosx'', ''manylinux''}" and "0 \<le> a" and "0 \<le> b" and "arch \<noteq> []"
  shows "rank_of (tag_text os a b arch) = Some (a, b)"
proof -
  obtain r rs where r: "split_on (CHR ''_'') arch = r # rs"
    by (cases "split_on (CHR ''_'') arch") auto
  have "CHR ''_'' \<notin> set os" using assms(1) by auto
  then have "split_on (CHR ''_'') (tag_text os a b arch) = os # show_int a # show_int b # r # rs"
    using show_int_no_char [OF assms(2) not_digit_chars(1)] show_int_no_char [OF assms(3) not_digit_chars(1)] r
    by (simp add: tag_text_def split_on_append)
  moreover have "join ''_'' (r # rs) = arch"
    using join_split_on [of "CHR ''_''" arch] r by simp
  ultimately show ?thesis
    using assms by (simp add: rank_of_def is_digits_show_int)
qed

section \<open>glibc versions\<close>

lemma decimal_nonneg: "list_all byte_digit ds \<Longrightarrow> 0 \<le> decimal ds"
proof -
  have "list_all byte_digit ds \<Longrightarrow> 0 \<le> n \<Longrightarrow> 0 \<le> foldl (\<lambda>n b. n * 10 + (uint b - 48)) n ds" for n
    by (induction ds arbitrary: n) (auto simp: byte_digit_def word_le_def)
  then show "list_all byte_digit ds \<Longrightarrow> 0 \<le> decimal ds" by (simp add: decimal_def)
qed

lemma all_takeWhile: "list_all P (takeWhile P xs)"
  by (auto simp: list_all_iff dest: set_takeWhileD)

lemma glibc_at_nonneg: "glibc_at s = Some (v, n) \<Longrightarrow> 0 \<le> fst v \<and> 0 \<le> snd v"
  by (auto simp: glibc_at_def Let_def all_takeWhile intro!: decimal_nonneg split: if_splits)

lemma glibc_refs_nonneg: "v \<in> set (glibc_refs data) \<Longrightarrow> 0 \<le> fst v \<and> 0 \<le> snd v"
  by (induction data rule: glibc_refs.induct) (auto split: option.splits dest: glibc_at_nonneg)

lemma fold_max_bounds:
  fixes d :: "'a :: linorder"
  shows "d \<le> fold max vs d \<and> (\<forall>v\<in>set vs. v \<le> fold max vs d) \<and> fold max vs d \<in> insert d (set vs)"
proof (induction vs arbitrary: d)
  case (Cons v vs)
  from Cons [of "max v d"] show ?case
    by (auto simp: max_def split: if_splits)
qed simp

lemma elf_floor_covers: "v \<in> set (glibc_refs data) \<Longrightarrow> v \<le> elf_glibc_floor data"
  using fold_max_bounds [of TOOLCHAIN_GLIBC "glibc_refs data"] by (simp add: elf_glibc_floor_def)

lemma elf_floor_nonneg: "0 \<le> fst (elf_glibc_floor data) \<and> 0 \<le> snd (elf_glibc_floor data)"
proof -
  have "elf_glibc_floor data \<in> insert TOOLCHAIN_GLIBC (set (glibc_refs data))"
    using fold_max_bounds [of TOOLCHAIN_GLIBC "glibc_refs data"] by (simp add: elf_glibc_floor_def)
  then consider "elf_glibc_floor data = TOOLCHAIN_GLIBC" | "elf_glibc_floor data \<in> set (glibc_refs data)"
    by blast
  then show ?thesis
    by cases (simp_all add: TOOLCHAIN_GLIBC_def glibc_refs_nonneg)
qed

section \<open>Deployment targets\<close>

lemma unpack_nonneg: "unpack_at l n data off = Inr v \<Longrightarrow> 0 \<le> v"
  using from_le_bounds by (auto simp: unpack_at_def Let_def split: if_splits)

definition dated :: "macho \<Rightarrow> bool" where
  "dated m \<longleftrightarrow> (\<forall>s. mo_min_os m = Some s \<longrightarrow> (\<exists>v\<ge>0. s = decode_version v))"

lemma load_command_dated: "load_command l data off cmd sz m = Inr m' \<Longrightarrow> dated m \<Longrightarrow> dated m'"
  by (auto simp: load_command_def dated_def and_then_Inr dest: unpack_nonneg split: if_splits)

lemma load_commands_dated: "load_commands l data n off m = Inr m' \<Longrightarrow> dated m \<Longrightarrow> dated m'"
  by (induction n arbitrary: off m) (auto simp: and_then_Inr dest: load_command_dated split: if_splits)

lemma min_os_dated: "min_os data = Inr (Some s) \<Longrightarrow> \<exists>v\<ge>0. s = decode_version v"
proof -
  assume "min_os data = Inr (Some s)"
  then obtain m where "parse_macho data = Inr m" "mo_min_os m = Some s"
    by (auto simp: min_os_def and_then_Inr)
  moreover have "dated no_macho" by (simp add: dated_def no_macho_def)
  ultimately have "dated m"
    by (auto simp: parse_macho_def and_then_Inr dest: load_commands_dated)
  then show ?thesis using \<open>mo_min_os m = Some s\<close> by (simp add: dated_def)
qed

lemma version_parts:
  assumes "0 \<le> v"
  shows "\<exists>a b ps. 0 \<le> a \<and> 0 \<le> b \<and> split_on (CHR ''.'') (decode_version v) = show_int a # show_int b # ps"
proof -
  obtain a b c where abc: "a = v div 2 ^ 16" "b = v div 2 ^ 8 mod 2 ^ 8" "c = v mod 2 ^ 8"
    by simp
  then have nn: "0 \<le> a" "0 \<le> b" using assms by simp_all
  have v: "decode_version v = show_int a @ CHR ''.'' # show_int b @ (if c \<noteq> 0 then CHR ''.'' # show_int c else [])"
    by (simp add: decode_version_def Let_def abc)
  have no: "CHR ''.'' \<notin> set (show_int a)" "CHR ''.'' \<notin> set (show_int b)"
    using show_int_no_char [OF _ not_digit_chars(2)] nn by auto
  have "split_on (CHR ''.'') (decode_version v) = show_int a # show_int b #
      (if c \<noteq> 0 then split_on (CHR ''.'') (show_int c) else [])"
    by (simp add: v split_on_append [OF no(1)] split_on_append [OF no(2)] split_on_id [OF no(2)])
  with nn show ?thesis by blast
qed

section \<open>The tag of a binary\<close>

lemma arch_not_empty: "macho_arch data = Inr a \<Longrightarrow> a \<noteq> []" "elf_arch data = Inr a \<Longrightarrow> a \<noteq> []"
  by (auto simp: macho_arch_def elf_arch_def MACHO_ARCH_def ELF_ARCH_def Let_def and_then_Inr
      split: option.splits if_splits)

lemma macho_tag_ranked: "macho_tag data = Inr t \<Longrightarrow> rank_of t \<noteq> None"
proof -
  assume t: "macho_tag data = Inr t"
  then obtain s where s: "min_os data = Inr (Some s)"
    by (auto simp: macho_tag_def and_then_Inr truthy_def split: if_splits option.splits)
  from min_os_dated [OF s] version_parts
  obtain a b ps where p: "0 \<le> a" "0 \<le> b" "split_on (CHR ''.'') s = show_int a # show_int b # ps"
    by blast
  with t s have "\<exists>arch. macho_arch data = Inr arch \<and> t = tag_text ''macosx'' a (if 11 \<le> a then 0 else b) arch"
    by (auto simp: macho_tag_def and_then_Inr Let_def or_empty_def int_of_text_def split: if_splits)
  then show ?thesis
    using p arch_not_empty(1) by (auto simp: rank_tag_text)
qed

lemma elf_tag_ranked:
  assumes "tag_for data = Inr t" and "classify data = Inr Elf"
  shows "rank_of t = Some (elf_glibc_floor data)"
proof -
  from assms have "\<exists>arch. elf_arch data = Inr arch \<and>
      t = tag_text ''manylinux'' (fst (elf_glibc_floor data)) (snd (elf_glibc_floor data)) arch"
    by (auto simp: tag_for_def and_then_Inr split: prod.splits)
  then show ?thesis
    using elf_floor_nonneg [of data] arch_not_empty(2) by (auto simp: rank_tag_text)
qed

lemma tag_for_ranked: "tag_for data = Inr t \<Longrightarrow> rank_of t \<noteq> None"
proof -
  assume t: "tag_for data = Inr t"
  then obtain fmt where fmt: "classify data = Inr fmt" by (auto simp: tag_for_def and_then_Inr)
  show ?thesis
  proof (cases fmt)
    case MachO
    with t fmt show ?thesis by (auto simp: tag_for_def dest: macho_tag_ranked)
  next
    case Elf
    with t fmt show ?thesis using elf_tag_ranked by simp
  qed
qed

section \<open>The tag of the wheel\<close>

lemma keys_add_tag: "set (map fst (add_tag t p tags)) = insert t (set (map fst tags))"
  by (induction t p tags rule: add_tag.induct) auto

lemma collect_tags_keys:
  assumes "collect_tags fs tags = Inr tags'"
  shows "set (map fst tags) \<subseteq> set (map fst tags') \<and>
    set (map fst tags') \<subseteq> set (map fst tags) \<union> {t. \<exists>data. tag_for data = Inr t} \<and>
    (\<forall>path data fmt. (path, Some data) \<in> set fs \<longrightarrow> classify data = Inr fmt \<longrightarrow>
       (\<exists>t \<in> set (map fst tags'). tag_for data = Inr t))"
  using assms
proof (induction fs tags rule: collect_tags.induct)
  case (2 path f fs tags)
  show ?case
  proof (cases f)
    case None
    with 2 show ?thesis by auto
  next
    case (Some data)
    show ?thesis
    proof (cases "classify data")
      case (Inl e)
      with 2 Some show ?thesis by auto
    next
      case (Inr fmt)
      with Some "2.prems" obtain t where t: "tag_for data = Inr t" "collect_tags fs (add_tag t path tags) = Inr tags'"
        by (auto split: sum.splits)
      from "2.IH"(3) [OF Some Inr t(1) t(2)] Some t(1) show ?thesis
        by (auto simp: keys_add_tag simp del: set_map)
    qed
  qed
qed simp

lemma fold_best:
  fixes f :: "'a \<Rightarrow> 'b :: linorder"
  shows "fold (\<lambda>t b. if f b < f t then t else b) ts b \<in> set (b # ts) \<and>
    (\<forall>t\<in>set (b # ts). f t \<le> f (fold (\<lambda>t b. if f b < f t then t else b) ts b))"
proof (induction ts arbitrary: b)
  case (Cons t ts)
  show ?case
  proof (cases "f b < f t")
    case True
    with Cons [of t] show ?thesis by (auto dest: less_imp_le intro: order_trans)
  next
    case False
    with Cons [of b] show ?thesis by (auto simp: not_less intro: order_trans)
  qed
qed simp

lemma strictest_best:
  "t \<in> set (k # ks) \<Longrightarrow> the (rank_of t) \<le> the (rank_of (fold stricter ks k))"
  "fold stricter ks k \<in> set (k # ks)"
  using fold_best [of "\<lambda>t. the (rank_of t)" ks k] unfolding stricter_def by blast+

lemma collect_tags_stop: "collect_tags fs tags \<noteq> Inl (Inr (WheelTagged tag setter))"
  by (induction fs tags rule: collect_tags.induct) (auto split: option.splits sum.splits)

text \<open>
  The tag of a wheel covers every binary staged for it: each file that is Mach-O or ELF was
  given a tag of its own whose version is at most the wheel's, and a glibc version that an ELF
  file names anywhere is at most the wheel's too.
\<close>

lemma wheel_tag_covers:
  assumes "wheel_main walk argv = Inr (WheelTagged tag setter)"
    and "(path, Some data) \<in> set (walk (argv ! 1))" and "classify data = Inr fmt"
  shows "\<exists>t r R. tag_for data = Inr t \<and> rank_of t = Some r \<and> rank_of tag = Some R \<and> r \<le> R \<and>
    (fmt = Elf \<longrightarrow> (\<forall>v \<in> set (glibc_refs data). v \<le> R))"
proof -
  from assms(1) obtain tags where tags: "collect_tags (walk (argv ! 1)) [] = Inr tags"
    and choice: "choose_tag tags = WheelTagged tag setter"
    using collect_tags_stop by (auto simp: wheel_main_def split: if_splits sum.splits)
  from collect_tags_keys [OF tags] assms(2,3)
  obtain t where t: "t \<in> set (map fst tags)" "tag_for data = Inr t" by blast
  from choice obtain k ks where keys: "map fst tags = k # ks" and tag: "tag = fold stricter ks k"
    by (cases tags) (auto simp: choose_tag_def strictest_def Let_def split: if_splits)
  have ranked: "\<forall>t\<in>set (k # ks). rank_of t \<noteq> None"
    using collect_tags_keys [OF tags] tag_for_ranked keys by auto
  have best: "the (rank_of t) \<le> the (rank_of tag)" "rank_of tag \<noteq> None"
    using strictest_best(1) [of t k ks] strictest_best(2) [of ks k] t(1) ranked unfolding keys tag by blast+
  moreover have "v \<le> the (rank_of tag)" if "fmt = Elf" "v \<in> set (glibc_refs data)" for v
    using elf_tag_ranked [OF t(2)] elf_floor_covers that assms(3) best(1) by fastforce
  ultimately show ?thesis
    using t(2) tag_for_ranked [OF t(2)] by fastforce
qed

definition demo_elf :: bytes where
  "demo_elf = [0x7f, 0x45, 0x4c, 0x46, 2, 1, 1, 0, 0, 0, 0, 0, 0, 0, 0, 0, 3, 0, 0x3e, 0,
     0x47, 0x4c, 0x49, 0x42, 0x43, 0x5f, 50, 46, 51, 53, 0]"

lemma demo_elf_class: "classify demo_elf = Inr Elf"
  by code_simp

lemma demo_elf_refs: "glibc_refs demo_elf = [(2, 35)]"
  by (simp add: demo_elf_def glibc_at_def starts_with_def latin1_def Let_def byte_digit_def decimal_def)

lemma demo_elf_tag: "tag_for demo_elf = Inr ''manylinux_2_35_x86_64''"
proof -
  have "elf_glibc_floor demo_elf = (2, 35)"
    by (simp add: elf_glibc_floor_def demo_elf_refs TOOLCHAIN_GLIBC_def max_def)
  moreover have "elf_arch demo_elf = Inr ''x86_64''"
    by code_simp
  moreover have "tag_text ''manylinux'' 2 35 ''x86_64'' = ''manylinux_2_35_x86_64''"
    by code_simp
  ultimately show ?thesis by (simp add: tag_for_def demo_elf_class)
qed

lemma wheel_tag_covers_witness:
  "\<exists>t r R. tag_for demo_elf = Inr t \<and> rank_of t = Some r \<and> rank_of ''manylinux_2_35_x86_64'' = Some R \<and> r \<le> R \<and>
     (2, 35) \<le> R"
proof -
  have "wheel_main (\<lambda>d. [(''a'', Some demo_elf), (''LICENSE'', None)]) [''wheel_tag.py'', ''d''] =
      Inr (WheelTagged ''manylinux_2_35_x86_64'' ''a'')"
    by (simp add: wheel_main_def demo_elf_class demo_elf_tag choose_tag_def strictest_def Let_def)
  from wheel_tag_covers [OF this, of "''a''" demo_elf Elf] demo_elf_class show ?thesis
    by (auto simp: demo_elf_refs)
qed

text \<open>
  The architectures are compared by what follows the last underscore, which for \<open>x86_64\<close> is
  \<open>64\<close>, and the systems are not compared: a macOS and a Linux binary staged together are given
  one tag, of the one whose version number is the larger.
\<close>

lemma mixed_systems_tagged:
  "choose_tag [(''manylinux_2_35_x86_64'', [''b'']), (''macosx_11_0_x86_64'', [''a''])] =
    WheelTagged ''macosx_11_0_x86_64'' ''a''"
  by code_simp

end
