(* ===== verification/Relocate.thy ===== *)
theory Relocate
  imports Binfmt
begin

text \<open>
  Rewriting a linked artifact so that it does not name the machine that built it
  (scripts/relocate.py). The tools that edit a binary are an argument: what one does may
  depend on everything run before it, and it may change any file. What is checked is what the
  script itself reads back afterwards.
\<close>

section \<open>Files, tools and how a script stops\<close>

datatype node = FileNode bytes | DirNode

record world =
  wo_files :: "ustr \<rightharpoonup> node"
  wo_runs :: "ustr list list"

text \<open>
  A tool's run: \<open>None\<close> where it is not installed, else its exit and the files it leaves.
\<close>

type_synonym tools = "world \<Rightarrow> ustr list \<Rightarrow> (int \<times> (ustr \<rightharpoonup> node)) option"

text \<open>An exception that ends the script: \<open>SystemExit\<close> with its message, or Python's own.\<close>

datatype stop =
    BinError bin_error
  | NoSuchFile ustr
  | IsADirectory ustr
  | SameFile ustr
  | FileExists ustr
  | NoSuchTool "ustr list"
  | ToolFailed "ustr list"
  | ArgumentMissing
  | NoInstallName ustr
  | HasInstallName ustr
  | LacksPaths "ustr list"
  | LeftoverPaths "ustr list"
  | NeedsPatchelf "ustr list"
  | NoToolchain
  | NotInToolchain ustr ustr
  | NothingCopied nat

type_synonym 'a io = "world \<Rightarrow> (stop + 'a) \<times> world"

definition io_return :: "'a \<Rightarrow> 'a io" where
  "io_return x w = (Inr x, w)"

definition io_stop :: "stop \<Rightarrow> 'a io" where
  "io_stop e w = (Inl e, w)"

definition io_then :: "'a io \<Rightarrow> ('a \<Rightarrow> 'b io) \<Rightarrow> 'b io" where
  "io_then m f w = (case m w of (Inl e, w1) \<Rightarrow> (Inl e, w1) | (Inr x, w1) \<Rightarrow> f x w1)"

definition io_bin :: "bin_error + 'a \<Rightarrow> 'a io" where
  "io_bin r w = (case r of Inl e \<Rightarrow> (Inl (BinError e), w) | Inr x \<Rightarrow> (Inr x, w))"

lemma io_return_simp [simp]: "io_return x w = (Inr y, w') \<longleftrightarrow> y = x \<and> w' = w"
  by (auto simp: io_return_def)

lemma io_stop_simp [simp]: "io_stop e w \<noteq> (Inr x, w')"
  by (simp add: io_stop_def)

lemma io_then_Inr: "io_then m f w = (Inr y, w') \<longleftrightarrow> (\<exists>x w1. m w = (Inr x, w1) \<and> f x w1 = (Inr y, w'))"
  by (auto simp: io_then_def split: prod.splits sum.splits)

lemma io_bin_Inr [simp]: "io_bin r w = (Inr x, w') \<longleftrightarrow> r = Inr x \<and> w' = w"
  by (auto simp: io_bin_def split: sum.splits)

definition read_file :: "ustr \<Rightarrow> bytes io" where
  "read_file path w =
     (case wo_files w path of
        None \<Rightarrow> (Inl (NoSuchFile path), w)
      | Some DirNode \<Rightarrow> (Inl (IsADirectory path), w)
      | Some (FileNode b) \<Rightarrow> (Inr b, w))"

lemma read_file_Inr [simp]: "read_file path w = (Inr b, w') \<longleftrightarrow> wo_files w path = Some (FileNode b) \<and> w' = w"
  by (auto simp: read_file_def split: option.splits node.splits)

definition sh :: "tools \<Rightarrow> bool \<Rightarrow> ustr list \<Rightarrow> unit io" where
  "sh tools check cmd w =
     (case tools w cmd of
        None \<Rightarrow> (Inl (NoSuchTool cmd), w)
      | Some (rc, files) \<Rightarrow>
          let w1 = \<lparr>wo_files = files, wo_runs = wo_runs w @ [cmd]\<rparr>
          in if check \<and> rc \<noteq> 0 then (Inl (ToolFailed cmd), w1) else (Inr (), w1))"

text \<open>A loop that runs one command for each element.\<close>

fun sh_each :: "tools \<Rightarrow> bool \<Rightarrow> ustr list list \<Rightarrow> unit io" where
  "sh_each tools check [] = io_return ()"
| "sh_each tools check (c # cs) = io_then (sh tools check c) (\<lambda>_. sh_each tools check cs)"

section \<open>Mach-O\<close>

definition info_of :: "ustr \<Rightarrow> (ustr list \<times> ustr list \<times> ustr option) io" where
  "info_of path = io_then (read_file path) (\<lambda>b. io_bin (macho_info b))"

definition install_name_tool :: "string \<Rightarrow> ustr \<Rightarrow> ustr \<Rightarrow> ustr list" where
  "install_name_tool flag value path = [str_of ''install_name_tool'', str_of flag, value, path]"

definition codesign :: "ustr \<Rightarrow> ustr list" where
  "codesign path = [str_of ''codesign'', str_of ''-f'', str_of ''-s'', str_of ''-'', path]"

definition set_install_name :: "tools \<Rightarrow> ustr \<Rightarrow> ustr option \<Rightarrow> ustr option \<Rightarrow> unit io" where
  "set_install_name tools path set_id install_name =
     (case (set_id, install_name) of
        (Some i, None) \<Rightarrow> io_stop (NoInstallName i)
      | (Some i, Some _) \<Rightarrow> sh tools True (install_name_tool ''-id'' (str_of ''@rpath/'' @ i) path)
      | (None, Some n) \<Rightarrow> io_stop (HasInstallName n)
      | (None, None) \<Rightarrow> io_return ())"

definition relocate_macho :: "tools \<Rightarrow> ustr \<Rightarrow> ustr option \<Rightarrow> ustr list \<Rightarrow> ustr list io" where
  "relocate_macho tools path set_id rpaths =
     io_then (info_of path) (\<lambda>(existing, _, install_name).
     io_then (set_install_name tools path set_id install_name) (\<lambda>_.
     io_then (sh_each tools False (map (\<lambda>rp. install_name_tool ''-delete_rpath'' rp path)
                (filter (\<lambda>rp. rp \<notin> set rpaths) existing))) (\<lambda>_.
     io_then (sh_each tools True (map (\<lambda>rp. install_name_tool ''-add_rpath'' rp path)
                (filter (\<lambda>rp. rp \<notin> set existing) rpaths))) (\<lambda>_.
     io_then (sh tools True (codesign path)) (\<lambda>_.
     io_then (info_of path) (\<lambda>(after, _, _).
       let leftover = filter (\<lambda>p. p \<notin> set rpaths) after;
           missing = filter (\<lambda>p. p \<notin> set after) rpaths
       in if missing \<noteq> [] then io_stop (LacksPaths missing)
          else if leftover \<noteq> [] then io_stop (LeftoverPaths leftover)
          else io_return after))))))"

section \<open>ELF\<close>

definition elf_spelling :: "ustr list \<Rightarrow> ustr list" where
  "elf_spelling rpaths =
     map (\<lambda>rp. replace_all (str_of ''@executable_path'') (str_of ''$ORIGIN'')
                (replace_all (str_of ''@loader_path'') (str_of ''$ORIGIN'') rp)) rpaths"

text \<open>\<open>patchelf\<close> says whether the tool is on the path.\<close>

definition relocate_elf :: "tools \<Rightarrow> bool \<Rightarrow> ustr \<Rightarrow> ustr list \<Rightarrow> ustr list io" where
  "relocate_elf tools patchelf path rpaths =
     io_then (io_then (read_file path) (\<lambda>b. io_bin (inspect_elf b))) (\<lambda>(_, deps, _).
       let needs_runpath = filter (\<lambda>d. \<not> is_system_soname d) deps \<noteq> [];
           spelled = elf_spelling rpaths
       in if \<not> patchelf
          then (if needs_runpath \<and> rpaths \<noteq> [] then io_stop (NeedsPatchelf deps) else io_return [])
          else if spelled \<noteq> []
          then io_then (sh tools True [str_of ''patchelf'', str_of ''--set-rpath'', join [58] spelled, path])
                 (\<lambda>_. io_return spelled)
          else io_then (sh tools False [str_of ''patchelf'', str_of ''--remove-rpath'', path])
                 (\<lambda>_. io_return spelled))"

section \<open>The command\<close>

record reloc_args =
  ra_id :: "ustr option"
  ra_no_id :: bool
  ra_rpaths :: "ustr list"
  ra_rest :: "ustr list"

definition no_args :: reloc_args where
  "no_args = \<lparr>ra_id = None, ra_no_id = False, ra_rpaths = [], ra_rest = []\<rparr>"

fun reloc_parse :: "ustr list \<Rightarrow> reloc_args \<Rightarrow> stop + reloc_args" where
  "reloc_parse [] a = Inr a"
| "reloc_parse (x # xs) a =
     (if x = str_of ''--id'' then
        (case xs of [] \<Rightarrow> Inl ArgumentMissing | v # ys \<Rightarrow> reloc_parse ys (a\<lparr>ra_id := Some v\<rparr>))
      else if x = str_of ''--no-id'' then reloc_parse xs (a\<lparr>ra_no_id := True\<rparr>)
      else if x = str_of ''--rpath'' then
        (case xs of [] \<Rightarrow> Inl ArgumentMissing | v # ys \<Rightarrow> reloc_parse ys (a\<lparr>ra_rpaths := ra_rpaths a @ [v]\<rparr>))
      else reloc_parse xs (a\<lparr>ra_rest := ra_rest a @ [x]\<rparr>))"

text \<open>How the command ends where it ends by itself: 2 for all but the last.\<close>

datatype reloc_exit =
    RelocUsage
  | RelocNoFile ustr
  | RelocUnreadable bin_error
  | Relocated ustr "ustr list"

definition reloc_code :: "reloc_exit \<Rightarrow> int" where
  "reloc_code x = (case x of Relocated _ _ \<Rightarrow> 0 | _ \<Rightarrow> 2)"

definition relocate_main :: "tools \<Rightarrow> bool \<Rightarrow> ustr list \<Rightarrow> reloc_exit io" where
  "relocate_main tools patchelf argv w =
     (case reloc_parse argv no_args of
        Inl e \<Rightarrow> (Inl e, w)
      | Inr a \<Rightarrow>
          if length (ra_rest a) \<noteq> 1 \<or> (ra_id a = None \<and> \<not> ra_no_id a) then (Inr RelocUsage, w)
          else
            let path = hd (ra_rest a)
            in if wo_files w path = None then (Inr (RelocNoFile path), w)
               else io_then (read_file path) (\<lambda>data.
                 case classify data of
                   Inl e \<Rightarrow> io_return (RelocUnreadable e)
                 | Inr fmt \<Rightarrow>
                     io_then (case fmt of MachO \<Rightarrow> relocate_macho tools path (ra_id a) (ra_rpaths a)
                                        | Elf \<Rightarrow> relocate_elf tools patchelf path (ra_rpaths a))
                       (\<lambda>final. io_return (Relocated path final))) w)"

section \<open>What a relocated artifact records\<close>

lemma info_of_Inr: "info_of path w = (Inr (rp, ds, n), w') \<longleftrightarrow>
    w' = w \<and> (\<exists>b m. wo_files w path = Some (FileNode b) \<and> parse_macho b = Inr m \<and>
      rp = mo_rpaths m \<and> ds = mo_deps m \<and> n = mo_name m)"
  by (auto simp: info_of_def io_then_Inr macho_info_def and_then_Inr)

lemma relocate_macho_done:
  assumes "relocate_macho tools path set_id rpaths w = (Inr final, w')"
  shows "\<exists>b m. wo_files w' path = Some (FileNode b) \<and> parse_macho b = Inr m \<and>
    final = mo_rpaths m \<and> set final = set rpaths"
  using assms
  by (auto simp: relocate_macho_def io_then_Inr info_of_Inr Let_def filter_empty_conv split: if_splits prod.splits)

lemma relocate_main_done:
  assumes "relocate_main tools patchelf argv w = (Inr (Relocated path final), w')"
  shows "\<exists>a data fmt. reloc_parse argv no_args = Inr a \<and> wo_files w path = Some (FileNode data) \<and>
    classify data = Inr fmt \<and>
    (case fmt of MachO \<Rightarrow> relocate_macho tools path (ra_id a) (ra_rpaths a)
     | Elf \<Rightarrow> relocate_elf tools patchelf path (ra_rpaths a)) w = (Inr final, w')"
proof -
  obtain a where a: "reloc_parse argv no_args = Inr a"
    using assms by (auto simp: relocate_main_def split: sum.splits)
  let ?rest = "\<lambda>data. case classify data of Inl e \<Rightarrow> io_return (RelocUnreadable e)
    | Inr fmt \<Rightarrow> io_then (case fmt of MachO \<Rightarrow> relocate_macho tools (hd (ra_rest a)) (ra_id a) (ra_rpaths a)
        | Elf \<Rightarrow> relocate_elf tools patchelf (hd (ra_rest a)) (ra_rpaths a))
          (\<lambda>final. io_return (Relocated (hd (ra_rest a)) final))"
  from a assms have "io_then (read_file (hd (ra_rest a))) ?rest w = (Inr (Relocated path final), w')"
    by (auto simp: relocate_main_def Let_def split: if_splits)
  then obtain data where data: "wo_files w (hd (ra_rest a)) = Some (FileNode data)"
      "?rest data w = (Inr (Relocated path final), w')"
    by (auto simp: io_then_Inr)
  then obtain fmt where fmt: "classify data = Inr fmt"
    by (cases "classify data") auto
  with data have "path = hd (ra_rest a)"
    by (auto simp: io_then_Inr)
  with a data fmt show ?thesis
    by (intro exI [of _ a] exI [of _ data] exI [of _ fmt]) (auto simp: io_then_Inr)
qed

text \<open>
  C23. A Mach-O artifact that the command reports as relocated records, in the file it leaves,
  exactly the search paths it was asked for, whatever the tools it ran really did: no path of
  the build machine survives and none that was asked for is missing.
\<close>

theorem relocated_records_requested:
  assumes "relocate_main tools patchelf argv w = (Inr (Relocated path final), w')"
    and "wo_files w path = Some (FileNode data)" and "classify data = Inr MachO"
  shows "\<exists>a after m. reloc_parse argv no_args = Inr a \<and> wo_files w' path = Some (FileNode after) \<and>
    parse_macho after = Inr m \<and> set (mo_rpaths m) = set (ra_rpaths a)"
proof -
  from relocate_main_done [OF assms(1)] assms(2,3)
  obtain a where a: "reloc_parse argv no_args = Inr a"
    and fin: "relocate_macho tools path (ra_id a) (ra_rpaths a) w = (Inr final, w')"
    by auto
  from relocate_macho_done [OF fin] a show ?thesis by blast
qed

definition demo_macho :: bytes where
  "demo_macho = [0xcf, 0xfa, 0xed, 0xfe, 0x0c, 0, 0, 1, 0, 0, 0, 0, 2, 0, 0, 0, 1, 0, 0, 0, 16, 0, 0, 0,
     0, 0, 0, 0, 0, 0, 0, 0, 0x1c, 0, 0, 0x80, 16, 0, 0, 0, 12, 0, 0, 0, 0x78, 0, 0, 0]"

lemma demo_macho_parsed: "parse_macho demo_macho = Inr (no_macho\<lparr>mo_rpaths := [[120]]\<rparr>)"
  by code_simp

lemma demo_macho_class: "classify demo_macho = Inr MachO"
  by code_simp

theorem relocated_records_requested_witness:
  "\<exists>after m. relocate_main (\<lambda>w c. Some (0, wo_files w)) True (map str_of [''--no-id'', ''--rpath'', ''x'', ''a''])
      \<lparr>wo_files = [str_of ''a'' \<mapsto> FileNode demo_macho], wo_runs = []\<rparr> =
        (Inr (Relocated (str_of ''a'') [[120]]), \<lparr>wo_files = [str_of ''a'' \<mapsto> FileNode after], wo_runs = [codesign (str_of ''a'')]\<rparr>) \<and>
     parse_macho after = Inr m \<and> set (mo_rpaths m) = {[120]}"
proof -
  let ?w = "\<lparr>wo_files = [str_of ''a'' \<mapsto> FileNode demo_macho], wo_runs = []\<rparr>"
  let ?w' = "\<lparr>wo_files = [str_of ''a'' \<mapsto> FileNode demo_macho], wo_runs = [codesign (str_of ''a'')]\<rparr>"
  let ?argv = "map str_of [''--no-id'', ''--rpath'', ''x'', ''a'']"
  have args: "reloc_parse ?argv no_args =
      Inr \<lparr>ra_id = None, ra_no_id = True, ra_rpaths = [[120]], ra_rest = [str_of ''a'']\<rparr>"
    by (simp add: str_of_def no_args_def)
  then have run: "relocate_main (\<lambda>w c. Some (0, wo_files w)) True ?argv ?w = (Inr (Relocated (str_of ''a'') [[120]]), ?w')"
    by (simp add: relocate_main_def demo_macho_class io_then_def read_file_def relocate_macho_def info_of_def io_bin_def
        macho_info_def demo_macho_parsed set_install_name_def io_return_def sh_def Let_def no_macho_def)
  have "wo_files ?w (str_of ''a'') = Some (FileNode demo_macho)" by simp
  from relocated_records_requested [OF run this demo_macho_class] args run show ?thesis
    by auto
qed

text \<open>
  On ELF: a file that needs a library of ours and was asked to carry search paths is reported
  as relocated only by running \<open>patchelf\<close>, with success, on the \<open>$ORIGIN\<close> spelling of all of
  them.
\<close>

lemma relocated_elf_ran_patchelf:
  assumes "relocate_main tools patchelf argv w = (Inr (Relocated path final), w')"
    and "wo_files w path = Some (FileNode data)" and "classify data = Inr Elf"
    and "inspect_elf data = Inr (search, deps, name)" and "d \<in> set deps" and "\<not> is_system_soname d"
  shows "\<exists>a. reloc_parse argv no_args = Inr a \<and>
    (ra_rpaths a \<noteq> [] \<longrightarrow> wo_runs w' = wo_runs w @
      [[str_of ''patchelf'', str_of ''--set-rpath'', join [58] (elf_spelling (ra_rpaths a)), path]])"
proof -
  from relocate_main_done [OF assms(1)] assms(2,3)
  obtain a where a: "reloc_parse argv no_args = Inr a"
    and fin: "relocate_elf tools patchelf path (ra_rpaths a) w = (Inr final, w')"
    by auto
  have "filter (\<lambda>d. \<not> is_system_soname d) deps \<noteq> []"
    using assms(5,6) by (auto simp: filter_empty_conv)
  with fin assms(2,4) a show ?thesis
    by (auto simp: relocate_elf_def io_then_Inr elf_spelling_def sh_def Let_def split: if_splits option.splits)
qed

end
