(* ===== verification/Portability.thy ===== *)
theory Portability
  imports Relocate
begin

text \<open>
  Whether an artifact depends on the machine that built it (scripts/ffi_portability_check.py),
  decided from what the file records, and from what lies beside it.
\<close>

section \<open>Paths\<close>

text \<open>\<open>os.path\<close> on the code points of a path; 47 is the slash.\<close>

definition u_join :: "ustr \<Rightarrow> ustr \<Rightarrow> ustr" where
  "u_join a b = (if b \<noteq> [] \<and> hd b = 47 then b else if a = [] \<or> last a = 47 then a @ b else a @ 47 # b)"

definition u_base :: "ustr \<Rightarrow> ustr" where
  "u_base p = rev (takeWhile (\<lambda>c. c \<noteq> 47) (rev p))"

definition u_dir :: "ustr \<Rightarrow> ustr" where
  "u_dir p =
     (let head = rev (dropWhile (\<lambda>c. c \<noteq> 47) (rev p))
      in if list_all (\<lambda>c. c = 47) head then head else rstrip_of 47 head)"

fun norm_parts :: "bool \<Rightarrow> ustr list \<Rightarrow> ustr list \<Rightarrow> ustr list" where
  "norm_parts rooted acc [] = acc"
| "norm_parts rooted acc (c # cs) =
     (if c = [] \<or> c = [46] then norm_parts rooted acc cs
      else if c \<noteq> [46, 46] \<or> (\<not> rooted \<and> acc = []) \<or> (acc \<noteq> [] \<and> last acc = [46, 46])
      then norm_parts rooted (acc @ [c]) cs
      else norm_parts rooted (butlast acc) cs)"

definition u_norm :: "ustr \<Rightarrow> ustr" where
  "u_norm p =
     (let root = (if starts_with [47] p then (if starts_with [47, 47] p \<and> \<not> starts_with [47, 47, 47] p then [47, 47] else [47]) else []);
          out = root @ join [47] (norm_parts (root \<noteq> []) [] (split_on 47 p))
      in if out = [] then [46] else out)"

definition u_abs :: "ustr \<Rightarrow> ustr \<Rightarrow> ustr" where
  "u_abs cwd p = u_norm (if starts_with [47] p then p else u_join cwd p)"

section \<open>The verdict\<close>

datatype port_exit =
    PortUsage
  | PortNoFile ustr
  | PortUnreadable bin_error
  | Broken "ustr list" bool "ustr list"
  | MinOsTooHigh string ustr
  | Satisfiable "ustr list" "ustr list" "ustr list" bool
  | SelfContained "ustr list"

definition port_code :: "port_exit \<Rightarrow> int" where
  "port_code x =
     (case x of
        PortUsage \<Rightarrow> 2 | PortNoFile _ \<Rightarrow> 2 | PortUnreadable _ \<Rightarrow> 2
      | Broken _ _ _ \<Rightarrow> 1 | MinOsTooHigh _ _ \<Rightarrow> 1
      | Satisfiable _ _ _ required \<Rightarrow> if required then 1 else 0
      | SelfContained _ \<Rightarrow> 0)"

text \<open>\<open>_ver\<close>: the numbers of a dotted version, what is not a number left out.\<close>

definition ver_of :: "ustr \<Rightarrow> int list" where
  "ver_of s = map (foldl (\<lambda>n c. n * 10 + (int c - 48)) 0)
     (filter (\<lambda>p. p \<noteq> [] \<and> list_all (\<lambda>c. 48 \<le> c \<and> c \<le> 57) p) (split_on 46 s))"

text \<open>\<open>resolves_locally\<close>: is the file of that name on one of the artifact's own search paths?\<close>

definition resolved_dir :: "ustr \<Rightarrow> ustr \<Rightarrow> ustr option" where
  "resolved_dir here sp =
     (case find (\<lambda>s. starts_with s sp) SELF_RELATIVE of
        None \<Rightarrow> None
      | Some prefix \<Rightarrow> Some (u_norm (u_join here (dropWhile (\<lambda>c. c = 47) (drop (length prefix) sp)))))"

definition resolves_locally :: "(ustr \<Rightarrow> bool) \<Rightarrow> ustr \<Rightarrow> ustr list \<Rightarrow> ustr \<Rightarrow> bool" where
  "resolves_locally exist here self_search dep =
     list_ex (\<lambda>sp. case resolved_dir here sp of None \<Rightarrow> False | Some dir \<Rightarrow> exist (u_join dir (u_base dep)))
       (if self_search = [] then [str_of ''@loader_path''] else self_search)"

datatype dep_kind = DepFine | DepMissing | DepUnresolved

definition judge_dep :: "(ustr \<Rightarrow> bool) \<Rightarrow> binary_format \<Rightarrow> ustr \<Rightarrow> ustr list \<Rightarrow> ustr \<Rightarrow> dep_kind" where
  "judge_dep exist fmt here self_search d =
     (if starts_any SELF_RELATIVE d \<or> starts_any SYSTEM_PREFIXES d then DepFine
      else if fmt = Elf \<and> is_system_soname d then DepFine
      else if starts_with (str_of ''@rpath/'') d \<or> \<not> starts_with [47] d
      then (if resolves_locally exist here self_search d then DepFine
            else if self_search \<noteq> [] then DepMissing else DepUnresolved)
      else DepUnresolved)"

definition bad_install_name :: "ustr option \<Rightarrow> bool" where
  "bad_install_name name =
     (case name of None \<Rightarrow> False
      | Some n \<Rightarrow> n \<noteq> [] \<and> \<not> (starts_any SELF_RELATIVE n \<or> starts_with (str_of ''@rpath/'') n \<or>
                                starts_any SYSTEM_PREFIXES n \<or> 47 \<notin> set n))"

definition port_verdict ::
    "(ustr \<Rightarrow> bool) \<Rightarrow> ustr \<Rightarrow> bool \<Rightarrow> ustr option \<Rightarrow> binary_format \<Rightarrow>
     ustr list \<times> ustr list \<times> ustr option \<Rightarrow> string option \<Rightarrow> port_exit" where
  "port_verdict exist here required required_os fmt info target =
     (let (search, deps, name) = info;
          own = filter (starts_any SELF_RELATIVE) search;
          alien = filter (\<lambda>p. \<not> starts_any SELF_RELATIVE p) search;
          unresolved = filter (\<lambda>d. judge_dep exist fmt here own d = DepUnresolved) deps;
          missing = filter (\<lambda>d. judge_dep exist fmt here own d = DepMissing) deps
      in if unresolved \<noteq> [] \<or> bad_install_name name then Broken unresolved (bad_install_name name) alien
         else
           (case (required_os, target) of
              (Some (r # rs), Some (t # ts)) \<Rightarrow>
                if ver_of (r # rs) < ver_of (str_of (t # ts)) then MinOsTooHigh (t # ts) (r # rs)
                else if missing \<noteq> [] then Satisfiable missing own alien required
                else SelfContained alien
            | _ \<Rightarrow> if missing \<noteq> [] then Satisfiable missing own alien required else SelfContained alien))"

section \<open>The command\<close>

definition REQUIRE_SELF :: ustr where "REQUIRE_SELF = str_of ''--require-self-contained''"
definition REQUIRE_OS :: ustr where "REQUIRE_OS = str_of ''--require-min-os=''"

text \<open>What the file records: the names, and the deployment target of a Mach-O file.\<close>

definition port_info :: "bytes \<Rightarrow> bin_error + binary_format \<times> (ustr list \<times> ustr list \<times> ustr option) \<times> string option" where
  "port_info data =
     and_then (classify data) (\<lambda>fmt. case fmt of
       MachO \<Rightarrow> and_then (macho_info data) (\<lambda>info. and_then (min_os data) (\<lambda>t. Inr (MachO, info, t)))
     | Elf \<Rightarrow> and_then (inspect_elf data) (\<lambda>info. Inr (Elf, info, None)))"

definition port_judge :: "ustr \<Rightarrow> ustr list \<Rightarrow> ustr \<Rightarrow> bytes \<Rightarrow> port_exit io" where
  "port_judge cwd argv path data w =
     (case port_info data of
        Inl e \<Rightarrow> if inspect_error e then (Inr (PortUnreadable e), w) else (Inl (BinError e), w)
      | Inr (fmt, info, target) \<Rightarrow>
          let required = REQUIRE_SELF \<in> set argv;
              required_os = map_option (drop (length REQUIRE_OS)) (find (starts_with REQUIRE_OS) (rev argv));
              dir = u_dir (u_abs cwd path);
              here = (if dir = [] then [46] else dir)
          in (Inr (port_verdict (\<lambda>p. wo_files w p \<noteq> None) here required required_os fmt info target), w))"

definition port_main :: "ustr \<Rightarrow> ustr list \<Rightarrow> port_exit io" where
  "port_main cwd argv w =
     (let args = filter (\<lambda>a. \<not> starts_with (str_of ''--'') a) argv
      in if length args \<noteq> 1 then (Inr PortUsage, w)
         else if wo_files w (hd args) = None then (Inr (PortNoFile (hd args)), w)
         else io_then (read_file (hd args)) (port_judge cwd argv (hd args)) w)"

section \<open>What the verdict says\<close>

lemma judge_fine: "judge_dep exist fmt here own d = DepFine \<longleftrightarrow>
    starts_any SELF_RELATIVE d \<or> starts_any SYSTEM_PREFIXES d \<or> (fmt = Elf \<and> is_system_soname d) \<or>
    ((starts_with (str_of ''@rpath/'') d \<or> \<not> starts_with [47] d) \<and> resolves_locally exist here own d)"
  by (auto simp: judge_dep_def)

lemma verdict_self_contained:
  assumes "port_verdict exist here True required_os fmt (search, deps, name) target = x" and "port_code x = 0"
  shows "(\<forall>d\<in>set deps. judge_dep exist fmt here (filter (starts_any SELF_RELATIVE) search) d = DepFine) \<and>
    \<not> bad_install_name name"
proof -
  let ?own = "filter (starts_any SELF_RELATIVE) search"
  let ?is = "\<lambda>k. filter (\<lambda>d. judge_dep exist fmt here ?own d = k) deps"
  have "?is DepUnresolved = []" "?is DepMissing = []" "\<not> bad_install_name name"
    using assms by (auto simp: port_verdict_def port_code_def Let_def split: if_splits option.splits list.splits)
  then have "\<forall>d\<in>set deps. judge_dep exist fmt here ?own d \<noteq> DepUnresolved"
      "\<forall>d\<in>set deps. judge_dep exist fmt here ?own d \<noteq> DepMissing"
    by (simp_all add: filter_empty_conv)
  moreover have "k = DepFine" if "k \<noteq> DepUnresolved" "k \<noteq> DepMissing" for k
    using that by (cases k) auto
  ultimately show ?thesis using \<open>\<not> bad_install_name name\<close> by blast
qed

lemma port_main_done:
  assumes "port_main cwd argv w = (Inr x, w')" and "port_code x \<noteq> 2"
    and "filter (\<lambda>a. \<not> starts_with (str_of ''--'') a) argv = [path]"
    and "wo_files w path = Some (FileNode data)"
  shows "\<exists>fmt info target here required_os. port_info data = Inr (fmt, info, target) \<and>
    x = port_verdict (\<lambda>p. wo_files w p \<noteq> None) here (REQUIRE_SELF \<in> set argv) required_os fmt info target"
proof -
  from assms have x: "port_judge cwd argv path data w = (Inr x, w')"
    by (simp add: port_main_def io_then_Inr)
  show ?thesis
  proof (cases "port_info data")
    case (Inl e)
    with x assms(2) show ?thesis
      by (auto simp: port_judge_def port_code_def split: if_splits)
  next
    case (Inr r)
    obtain fmt info target where r: "r = (fmt, info, target)" by (cases r) auto
    with x Inr show ?thesis by (auto simp: port_judge_def Let_def)
  qed
qed

text \<open>
  Exit 0 under \<open>--require-self-contained\<close> means what it says: each recorded dependency is
  named relative to the artifact, is a library of the system, or is a file found along one of
  the artifact's own search paths, and the install name is not a path of the build tree.
\<close>

lemma portable_means_self_contained:
  assumes "port_main cwd argv w = (Inr x, w')" and "port_code x = 0" and "REQUIRE_SELF \<in> set argv"
    and "filter (\<lambda>a. \<not> starts_with (str_of ''--'') a) argv = [path]"
    and "wo_files w path = Some (FileNode data)"
  shows "\<exists>fmt search deps name target here. port_info data = Inr (fmt, (search, deps, name), target) \<and>
    \<not> bad_install_name name \<and>
    (\<forall>d\<in>set deps. starts_any SELF_RELATIVE d \<or> starts_any SYSTEM_PREFIXES d \<or> (fmt = Elf \<and> is_system_soname d) \<or>
       resolves_locally (\<lambda>p. wo_files w p \<noteq> None) here (filter (starts_any SELF_RELATIVE) search) d)"
proof -
  from port_main_done [OF assms(1) _ assms(4,5)] assms(2)
  obtain fmt info target here required_os where i: "port_info data = Inr (fmt, info, target)"
    and x: "x = port_verdict (\<lambda>p. wo_files w p \<noteq> None) here (REQUIRE_SELF \<in> set argv) required_os fmt info target"
    by auto
  obtain search deps name where info: "info = (search, deps, name)" by (cases info) auto
  from verdict_self_contained [OF _ assms(2)] x info assms(3) have
    "(\<forall>d\<in>set deps. judge_dep (\<lambda>p. wo_files w p \<noteq> None) fmt here (filter (starts_any SELF_RELATIVE) search) d = DepFine) \<and>
      \<not> bad_install_name name" by simp
  with i info show ?thesis unfolding judge_fine by blast
qed

definition demo_portable :: world where
  "demo_portable = \<lparr>wo_files = [str_of ''a'' \<mapsto> FileNode demo_macho], wo_runs = []\<rparr>"

lemma portable_means_self_contained_witness:
  "port_main (str_of ''/w'') [REQUIRE_SELF, str_of ''a''] demo_portable = (Inr (SelfContained [[120]]), demo_portable) \<and>
   (\<exists>fmt search deps name target. port_info demo_macho = Inr (fmt, (search, deps, name), target) \<and> \<not> bad_install_name name)"
proof -
  have args: "filter (\<lambda>a. \<not> starts_with (str_of ''--'') a) [REQUIRE_SELF, str_of ''a''] = [str_of ''a'']"
    by (simp add: REQUIRE_SELF_def str_of_def starts_with_def)
  have info: "port_info demo_macho = Inr (MachO, ([[120]], [], None), None)"
    by (simp add: port_info_def demo_macho_class macho_info_def min_os_def demo_macho_parsed no_macho_def)
  have stored: "wo_files demo_portable (str_of ''a'') = Some (FileNode demo_macho)"
    by (simp add: demo_portable_def)
  have judge: "port_judge (str_of ''/w'') [REQUIRE_SELF, str_of ''a''] (str_of ''a'') demo_macho demo_portable =
      (Inr (SelfContained [[120]]), demo_portable)"
    by (simp add: port_judge_def info port_verdict_def Let_def bad_install_name_def
        SELF_RELATIVE_def starts_any_def str_of_def starts_with_def REQUIRE_OS_def REQUIRE_SELF_def)
  then have run: "port_main (str_of ''/w'') [REQUIRE_SELF, str_of ''a''] demo_portable =
      (Inr (SelfContained [[120]]), demo_portable)"
    unfolding port_main_def args by (simp add: io_then_def read_file_def stored)
  from portable_means_self_contained [OF run _ _ args stored] run show ?thesis
    by (auto simp: port_code_def)
qed

text \<open>
  A dependency named relative to the artifact is not looked for: with no such file anywhere,
  and self-containment required, the verdict is the one that says every dependency is a
  system library or shipped alongside.
\<close>

lemma relative_dependency_unchecked:
  "port_verdict (\<lambda>p. False) here True None MachO ([], [str_of ''@loader_path/libK.dylib''], None) None = SelfContained []"
proof -
  have "judge_dep (\<lambda>p. False) MachO here [] (str_of ''@loader_path/libK.dylib'') = DepFine"
    by (simp add: judge_fine SELF_RELATIVE_def starts_any_def str_of_def starts_with_def)
  then show ?thesis
    by (simp add: port_verdict_def Let_def bad_install_name_def)
qed

text \<open>
  An ELF file of the 32-bit class raises \<open>ValueError\<close>, which the command does not catch: the
  interpreter then exits 1, not the 2 it documents for a file it could not inspect.
\<close>

lemma unreadable_elf_raises:
  assumes "wo_files w path = Some (FileNode [0x7f, 0x45, 0x4c, 0x46, 1])" and "\<not> starts_with (str_of ''--'') path"
  shows "port_main cwd [path] w = (Inl (BinError (ValueError ''not a 64-bit ELF'')), w)"
proof -
  have "classify [0x7f, 0x45, 0x4c, 0x46, 1] = Inr Elf"
    "inspect_elf [0x7f, 0x45, 0x4c, 0x46, 1] = Inl (ValueError ''not a 64-bit ELF'')"
    by code_simp+
  then have "port_info [0x7f, 0x45, 0x4c, 0x46, 1] = Inl (ValueError ''not a 64-bit ELF'')"
    by (simp add: port_info_def)
  then show ?thesis
    using assms by (simp add: port_main_def port_judge_def Let_def io_then_def read_file_def inspect_error_def)
qed

end
