(* ===== verification/Bundle.thy ===== *)
theory Bundle
  imports Portability
begin

text \<open>
  Assembling a bundle around an artifact (scripts/bundle_artifact.py): the libraries it needs
  are found by walking what each binary records, copied beside it, and every file is then made
  to look for them relative to itself. The sizes it prints are left out.
\<close>

section \<open>File operations\<close>

text \<open>\<open>os.makedirs(path, exist_ok=True)\<close>; what it does above \<open>path\<close> is left out.\<close>

definition makedirs :: "ustr \<Rightarrow> unit io" where
  "makedirs path w =
     (if path = [] then (Inl (NoSuchFile path), w)
      else (case wo_files w path of
              Some (FileNode _) \<Rightarrow> (Inl (FileExists path), w)
            | _ \<Rightarrow> (Inr (), w\<lparr>wo_files := (wo_files w)(path \<mapsto> DirNode)\<rparr>)))"

text \<open>\<open>shutil.copy2(src, dst)\<close>: into \<open>dst\<close> where that is a directory, never onto itself.\<close>

definition copy_target :: "world \<Rightarrow> ustr \<Rightarrow> ustr \<Rightarrow> ustr" where
  "copy_target w src dst = (if wo_files w dst = Some DirNode then u_join dst (u_base src) else dst)"

definition copy2 :: "ustr \<Rightarrow> ustr \<Rightarrow> unit io" where
  "copy2 src dst w =
     (let target = copy_target w src dst
      in if src = target \<and> wo_files w src \<noteq> None then (Inl (SameFile src), w)
         else (case wo_files w src of
                 None \<Rightarrow> (Inl (NoSuchFile src), w)
               | Some DirNode \<Rightarrow> (Inl (IsADirectory src), w)
               | Some (FileNode b) \<Rightarrow>
                   if wo_files w target = Some DirNode then (Inl (IsADirectory target), w)
                   else (Inr (), w\<lparr>wo_files := (wo_files w)(target \<mapsto> FileNode b)\<rparr>)))"

text \<open>\<open>modular_lib_dir\<close>: the first directory the glob finds.\<close>

definition modular_lib_dir :: "ustr list \<Rightarrow> ustr io" where
  "modular_lib_dir hits w = (case hits of [] \<Rightarrow> (Inl NoToolchain, w) | h # _ \<Rightarrow> (Inr h, w))"

section \<open>What a file needs, and the walk\<close>

definition recorded_deps :: "bytes \<Rightarrow> bin_error + ustr list" where
  "recorded_deps data =
     and_then (classify data) (\<lambda>fmt. case fmt of
       MachO \<Rightarrow> and_then (macho_info data) (\<lambda>(_, deps, _). Inr (filter (\<lambda>d. \<not> starts_any SYSTEM_PREFIXES d) deps))
     | Elf \<Rightarrow> and_then (inspect_elf data) (\<lambda>(_, deps, _). Inr deps))"

definition deps_of :: "ustr \<Rightarrow> ustr list io" where
  "deps_of path = io_then (read_file path) (\<lambda>b. io_bin (recorded_deps b))"

text \<open>What the walk catches: \<open>(InspectError, ValueError)\<close>.\<close>

definition caught :: "stop \<Rightarrow> bin_error option" where
  "caught e =
     (case e of
        BinError b \<Rightarrow> if (case b of ValueError _ \<Rightarrow> True | _ \<Rightarrow> inspect_error b) then Some b else None
      | _ \<Rightarrow> None)"

record walk =
  wk_queue :: "ustr list"
  wk_seen :: "ustr list"
  wk_copied :: "ustr list"
  wk_foreign :: nat

text \<open>A dependency that has to travel with a Mach-O file.\<close>

definition must_travel :: "ustr \<Rightarrow> bool" where
  "must_travel dep \<longleftrightarrow> starts_any SELF_RELATIVE dep \<or> starts_with (str_of ''@rpath/'') dep"

text \<open>Where a bundle is assembled: the format, the toolchain's libraries, the directory, the roots.\<close>

record bundle_site =
  bs_format :: binary_format
  bs_modlib :: ustr
  bs_libdir :: ustr
  bs_roots :: "ustr list"

definition take_dep :: "bundle_site \<Rightarrow> ustr \<Rightarrow> ustr \<Rightarrow> walk \<Rightarrow> walk io" where
  "take_dep s cur dep k0 w =
     (let base = u_base dep;
          k = (if cur \<in> set (bs_roots s) \<and> \<not> starts_any SELF_RELATIVE dep
               then k0\<lparr>wk_foreign := wk_foreign k0 + 1\<rparr> else k0);
          src = u_join (bs_modlib s) base;
          dst = u_join (bs_libdir s) base
      in if base \<in> set (wk_seen k) then (Inr k, w)
         else if wo_files w src = None
         then (if bs_format s = MachO \<and> must_travel dep then (Inl (NotInToolchain cur base), w) else (Inr k, w))
         else io_then (copy2 src dst) (\<lambda>_. io_return (k\<lparr>wk_seen := base # wk_seen k,
                wk_copied := wk_copied k @ [base], wk_queue := wk_queue k @ [dst]\<rparr>)) w)"

fun take_deps :: "bundle_site \<Rightarrow> ustr \<Rightarrow> ustr list \<Rightarrow> walk \<Rightarrow> walk io" where
  "take_deps s cur [] k = io_return k"
| "take_deps s cur (d # ds) k = io_then (take_dep s cur d k) (take_deps s cur ds)"

text \<open>
  The loop over the queue. \<open>None\<close> would be a walk that never ends; \<open>Inr (Inl e)\<close> is the exit 2
  of a file that cannot be inspected.
\<close>

partial_function (option) bundle_walk ::
    "bundle_site \<Rightarrow> walk \<Rightarrow> world \<Rightarrow> ((stop + (bin_error + walk)) \<times> world) option" where
  "bundle_walk s k w =
     (case wk_queue k of
        [] \<Rightarrow> Some (Inr (Inr k), w)
      | cur # q \<Rightarrow>
          (case deps_of cur w of
             (Inl e, w1) \<Rightarrow> Some (case caught e of Some b \<Rightarrow> Inr (Inl b) | None \<Rightarrow> Inl e, w1)
           | (Inr deps, w1) \<Rightarrow>
               (case take_deps s cur deps (k\<lparr>wk_queue := q\<rparr>) w1 of
                  (Inl e, w2) \<Rightarrow> Some (Inl e, w2)
                | (Inr k2, w2) \<Rightarrow> bundle_walk s k2 w2)))"

section \<open>Making a file self-relative\<close>

definition ensure_self_relative :: "tools \<Rightarrow> ustr \<Rightarrow> ustr list \<Rightarrow> unit io" where
  "ensure_self_relative tools path required =
     io_then (info_of path) (\<lambda>(_, _, name).
     io_then (case name of None \<Rightarrow> io_return ()
              | Some _ \<Rightarrow> sh tools True (install_name_tool ''-id'' (str_of ''@rpath/'' @ u_base path) path)) (\<lambda>_.
     io_then (info_of path) (\<lambda>(existing, _, _).
     io_then (sh_each tools False (map (\<lambda>rp. install_name_tool ''-delete_rpath'' rp path)
                (filter (\<lambda>rp. \<not> starts_any SELF_RELATIVE rp) existing))) (\<lambda>_.
     io_then (sh_each tools True (map (\<lambda>rp. install_name_tool ''-add_rpath'' rp path)
                (filter (\<lambda>rp. rp \<notin> set existing) required))) (\<lambda>_.
     io_then (sh tools True (codesign path)) (\<lambda>_.
     io_then (info_of path) (\<lambda>(after, _, _).
       let missing = filter (\<lambda>rp. rp \<notin> set after) required
       in if missing \<noteq> [] then io_stop (LacksPaths missing) else io_return ())))))))"

fun each :: "('a \<Rightarrow> unit io) \<Rightarrow> 'a list \<Rightarrow> unit io" where
  "each f [] = io_return ()"
| "each f (x # xs) = io_then (f x) (\<lambda>_. each f xs)"

section \<open>The command\<close>

record bundle_args =
  ba_layout :: ustr
  ba_also :: "ustr list"
  ba_rest :: "ustr list"

fun bundle_parse :: "ustr list \<Rightarrow> bundle_args \<Rightarrow> stop + bundle_args" where
  "bundle_parse [] a = Inr a"
| "bundle_parse (x # xs) a =
     (if x = str_of ''--layout'' then
        (case xs of [] \<Rightarrow> Inl ArgumentMissing | v # ys \<Rightarrow> bundle_parse ys (a\<lparr>ba_layout := v\<rparr>))
      else if x = str_of ''--also'' then
        (case xs of [] \<Rightarrow> Inl ArgumentMissing | v # ys \<Rightarrow> bundle_parse ys (a\<lparr>ba_also := ba_also a @ [v]\<rparr>))
      else bundle_parse xs (a\<lparr>ba_rest := ba_rest a @ [x]\<rparr>))"

datatype bundle_exit =
    BundleUsage
  | BundleUnreadable bin_error
  | Bundled ustr "ustr list"

definition bundle_code :: "bundle_exit \<Rightarrow> int" where
  "bundle_code x = (case x of Bundled _ _ \<Rightarrow> 0 | _ \<Rightarrow> 2)"

text \<open>\<open>shutil.copy2\<close> unless the two are the same path.\<close>

definition stage :: "ustr \<Rightarrow> ustr \<Rightarrow> ustr \<Rightarrow> unit io" where
  "stage cwd src dst = (if u_abs cwd src \<noteq> u_abs cwd dst then copy2 src dst else io_return ())"

text \<open>The rewriting of the staged file, then of each library beside it.\<close>

definition finish_bundle :: "tools \<Rightarrow> bool \<Rightarrow> bundle_site \<Rightarrow> ustr list \<Rightarrow> ustr \<Rightarrow> walk \<Rightarrow> bundle_exit io" where
  "finish_bundle tools patchelf s art_rpaths staged k =
     (let names = wk_copied k @ map u_base (tl (bs_roots s));
          own = [str_of ''@loader_path'']
      in case bs_format s of
           MachO \<Rightarrow>
             if wk_foreign k \<noteq> 0 \<and> wk_copied k = [] then io_stop (NothingCopied (wk_foreign k))
             else io_then (ensure_self_relative tools staged art_rpaths) (\<lambda>_.
                  io_then (each (\<lambda>n. ensure_self_relative tools (u_join (bs_libdir s) n) own) names) (\<lambda>_.
                    io_return (Bundled staged names)))
         | Elf \<Rightarrow>
             io_then (relocate_elf tools patchelf staged art_rpaths) (\<lambda>_.
             io_then (each (\<lambda>n. io_then (relocate_elf tools patchelf (u_join (bs_libdir s) n) own) (\<lambda>_. io_return ())) names) (\<lambda>_.
               io_return (Bundled staged names))))"

definition bundle_walked ::
    "tools \<Rightarrow> bool \<Rightarrow> bundle_site \<Rightarrow> ustr list \<Rightarrow> ustr \<Rightarrow> world \<Rightarrow> ((stop + bundle_exit) \<times> world) option" where
  "bundle_walked tools patchelf s art_rpaths staged w =
     (let k = \<lparr>wk_queue = bs_roots s, wk_seen = map u_base (bs_roots s), wk_copied = [], wk_foreign = 0\<rparr>
      in case bundle_walk s k w of
           None \<Rightarrow> None
         | Some (Inl e, w1) \<Rightarrow> Some (Inl e, w1)
         | Some (Inr (Inl b), w1) \<Rightarrow> Some (Inr (BundleUnreadable b), w1)
         | Some (Inr (Inr k1), w1) \<Rightarrow> Some (finish_bundle tools patchelf s art_rpaths staged k1 w1))"

definition bundle_staged ::
    "ustr list \<Rightarrow> ustr \<Rightarrow> ustr list \<Rightarrow> ustr \<Rightarrow> ustr \<Rightarrow> ustr \<Rightarrow> ustr \<Rightarrow> (bin_error + bundle_site) io" where
  "bundle_staged hits cwd also artifact bindir libdir staged =
     io_then (makedirs bindir) (\<lambda>_.
     io_then (makedirs libdir) (\<lambda>_.
     io_then (stage cwd artifact staged) (\<lambda>_.
     io_then (read_file staged) (\<lambda>data.
       case classify data of
         Inl e \<Rightarrow> io_return (Inl e)
       | Inr fmt \<Rightarrow>
           io_then (modular_lib_dir hits) (\<lambda>modlib.
           io_then (each (\<lambda>x. stage cwd x (u_join libdir (u_base x))) also) (\<lambda>_.
             io_return (Inr \<lparr>bs_format = fmt, bs_modlib = modlib, bs_libdir = libdir,
               bs_roots = staged # map (\<lambda>x. u_join libdir (u_base x)) also\<rparr>)))))))"

definition bundle_main ::
    "tools \<Rightarrow> bool \<Rightarrow> ustr list \<Rightarrow> ustr \<Rightarrow> ustr list \<Rightarrow> world \<Rightarrow> ((stop + bundle_exit) \<times> world) option" where
  "bundle_main tools patchelf hits cwd argv w =
     (case bundle_parse argv \<lparr>ba_layout = str_of ''flat'', ba_also = [], ba_rest = []\<rparr> of
        Inl e \<Rightarrow> Some (Inl e, w)
      | Inr a \<Rightarrow>
          let wheel = ba_layout a = str_of ''wheel''
          in if length (ba_rest a) \<noteq> 2 \<or> \<not> (wheel \<or> ba_layout a = str_of ''flat'') then Some (Inr BundleUsage, w)
             else
               let artifact = ba_rest a ! 0; outdir = ba_rest a ! 1;
                   bindir = (if wheel then u_join outdir (str_of ''_bin'') else outdir);
                   libdir = (if wheel then u_join outdir (str_of ''_lib'') else outdir);
                   art_rpaths = (if wheel then map str_of [''@loader_path'', ''@loader_path/../_lib'']
                                 else [str_of ''@loader_path'']);
                   staged = u_join bindir (u_base artifact)
               in case bundle_staged hits cwd (ba_also a) artifact bindir libdir staged w of
                    (Inl e, w1) \<Rightarrow> Some (Inl e, w1)
                  | (Inr (Inl b), w1) \<Rightarrow> Some (Inr (BundleUnreadable b), w1)
                  | (Inr (Inr s), w1) \<Rightarrow> bundle_walked tools patchelf s art_rpaths staged w1)"

end
