(* ===== verification/Bundle_Props.thy ===== *)
theory Bundle_Props
  imports Bundle
begin

text \<open>
  The walk over the dependencies ends, and what it leaves is closed: whatever a file of the
  bundle needs and the toolchain has is in the bundle too.
\<close>

section \<open>Names in directories\<close>

lemma u_base_no_slash: "47 \<notin> set (u_base p)"
  by (auto simp: u_base_def dest: set_takeWhileD)

lemma u_base_after: "47 \<notin> set b \<Longrightarrow> u_base (r @ 47 # b) = b"
proof -
  assume b: "47 \<notin> set b"
  have "takeWhile (\<lambda>c. c \<noteq> 47) (rev b @ 47 # rev r) = rev b"
    using b by (induction b rule: rev_induct) auto
  then show ?thesis by (simp add: u_base_def)
qed

lemma u_base_plain: "47 \<notin> set b \<Longrightarrow> u_base b = b"
proof -
  assume "47 \<notin> set b"
  then have eq: "takeWhile (\<lambda>c. c \<noteq> 47) (rev b) = rev b"
    by (metis (mono_tags, lifting) set_rev takeWhile_eq_all_conv)
  show ?thesis unfolding u_base_def eq by simp
qed

lemma u_base_join:
  assumes "47 \<notin> set b"
  shows "u_base (u_join a b) = b"
proof -
  have hd: "b \<noteq> [] \<Longrightarrow> hd b \<noteq> 47" using assms by (cases b) auto
  consider "a = []" | r where "a = r @ [47]" | "a \<noteq> []" "last a \<noteq> 47"
    by (cases a rule: rev_cases) auto
  then show ?thesis
    using assms hd by cases (auto simp: u_join_def u_base_after u_base_plain)
qed

lemma u_join_inj: "47 \<notin> set b \<Longrightarrow> 47 \<notin> set b' \<Longrightarrow> u_join a b = u_join a' b' \<Longrightarrow> b = b'"
  by (metis u_base_join)

section \<open>What one dependency does\<close>

text \<open>The names the toolchain has and the walk has not yet seen.\<close>

definition unseen :: "bundle_site \<Rightarrow> walk \<Rightarrow> world \<Rightarrow> ustr set" where
  "unseen s k w = {b. 47 \<notin> set b \<and> wo_files w (u_join (bs_modlib s) b) \<noteq> None \<and> b \<notin> set (wk_seen k)}"

lemma finite_unseen: "finite (dom (wo_files w)) \<Longrightarrow> finite (unseen s k w)"
proof -
  assume "finite (dom (wo_files w))"
  moreover have "u_join (bs_modlib s) ` unseen s k w \<subseteq> dom (wo_files w)"
    by (auto simp: unseen_def)
  moreover have "inj_on (u_join (bs_modlib s)) (unseen s k w)"
    by (rule inj_onI) (auto simp: unseen_def dest: u_join_inj)
  ultimately show ?thesis by (metis finite_imageD finite_subset)
qed

lemma copy2_done:
  assumes "copy2 src dst w = (Inr (), w')"
  shows "\<exists>b t. wo_files w src = Some (FileNode b) \<and> w' = w\<lparr>wo_files := (wo_files w)(t \<mapsto> FileNode b)\<rparr> \<and>
    t \<in> {dst, u_join dst (u_base src)} \<and> (wo_files w dst \<noteq> Some DirNode \<longrightarrow> t = dst)"
  using assms
  by (auto simp: copy2_def copy_target_def Let_def split: if_splits option.splits node.splits)

text \<open>
  A step of the walk either keeps the files and the queue, or copies one name that was not
  seen: to a path of that very name, so that no other file is touched.
\<close>

lemma take_dep_done:
  assumes "take_dep s cur d k w = (Inr k', w')"
  shows "(w' = w \<and> wk_queue k' = wk_queue k \<and> wk_seen k' = wk_seen k \<and> wk_copied k' = wk_copied k \<and>
      (u_base d \<in> set (wk_seen k) \<or> wo_files w (u_join (bs_modlib s) (u_base d)) = None \<and>
        \<not> (bs_format s = MachO \<and> must_travel d))) \<or>
    (u_base d \<notin> set (wk_seen k) \<and> wk_seen k' = u_base d # wk_seen k \<and> wk_copied k' = wk_copied k @ [u_base d] \<and>
      wk_queue k' = wk_queue k @ [u_join (bs_libdir s) (u_base d)] \<and>
      (\<exists>b t. wo_files w (u_join (bs_modlib s) (u_base d)) = Some (FileNode b) \<and> u_base t = u_base d \<and>
        (wo_files w (u_join (bs_libdir s) (u_base d)) \<noteq> Some DirNode \<longrightarrow> t = u_join (bs_libdir s) (u_base d)) \<and>
        w' = w\<lparr>wo_files := (wo_files w)(t \<mapsto> FileNode b)\<rparr>))"
proof (cases "u_base d \<in> set (wk_seen k) \<or> wo_files w (u_join (bs_modlib s) (u_base d)) = None")
  case True
  with assms show ?thesis by (auto simp: take_dep_def Let_def split: if_splits)
next
  case False
  let ?src = "u_join (bs_modlib s) (u_base d)" and ?dst = "u_join (bs_libdir s) (u_base d)"
  from False assms have c: "copy2 ?src ?dst w = (Inr (), w')"
    by (auto simp: take_dep_def Let_def io_then_Inr split: if_splits)
  obtain b t where t: "wo_files w ?src = Some (FileNode b)" "w' = w\<lparr>wo_files := (wo_files w)(t \<mapsto> FileNode b)\<rparr>"
      "t \<in> {?dst, u_join ?dst (u_base ?src)}" "wo_files w ?dst \<noteq> Some DirNode \<longrightarrow> t = ?dst"
    using copy2_done [OF c] by blast
  then have "u_base t = u_base d" by (auto simp: u_base_join u_base_no_slash)
  with False assms c t show ?thesis
    by (auto simp: take_dep_def Let_def io_then_Inr split: if_splits)
qed

lemma take_dep_measure:
  assumes "take_dep s cur d k w = (Inr k', w')" and "finite (dom (wo_files w))"
  shows "finite (dom (wo_files w')) \<and>
    card (unseen s k' w') + length (wk_queue k') \<le> card (unseen s k w) + length (wk_queue k)"
  using take_dep_done [OF assms(1)]
proof
  assume "w' = w \<and> wk_queue k' = wk_queue k \<and> wk_seen k' = wk_seen k \<and> wk_copied k' = wk_copied k \<and>
      (u_base d \<in> set (wk_seen k) \<or> wo_files w (u_join (bs_modlib s) (u_base d)) = None \<and>
        \<not> (bs_format s = MachO \<and> must_travel d))"
  then show ?thesis using assms(2) by (simp add: unseen_def)
next
  assume "u_base d \<notin> set (wk_seen k) \<and> wk_seen k' = u_base d # wk_seen k \<and> wk_copied k' = wk_copied k @ [u_base d] \<and>
      wk_queue k' = wk_queue k @ [u_join (bs_libdir s) (u_base d)] \<and>
      (\<exists>b t. wo_files w (u_join (bs_modlib s) (u_base d)) = Some (FileNode b) \<and> u_base t = u_base d \<and>
        (wo_files w (u_join (bs_libdir s) (u_base d)) \<noteq> Some DirNode \<longrightarrow> t = u_join (bs_libdir s) (u_base d)) \<and>
        w' = w\<lparr>wo_files := (wo_files w)(t \<mapsto> FileNode b)\<rparr>)"
  then obtain b t where new: "u_base d \<notin> set (wk_seen k)" "wk_seen k' = u_base d # wk_seen k"
      "wk_queue k' = wk_queue k @ [u_join (bs_libdir s) (u_base d)]"
    and t: "wo_files w (u_join (bs_modlib s) (u_base d)) = Some (FileNode b)" "u_base t = u_base d"
      "w' = w\<lparr>wo_files := (wo_files w)(t \<mapsto> FileNode b)\<rparr>"
    by blast
  have "unseen s k' w' = unseen s k w - {u_base d}"
    using new(2) t(2,3) u_base_join by (auto simp: unseen_def)
  moreover have "u_base d \<in> unseen s k w"
    using new(1) t(1) u_base_no_slash by (auto simp: unseen_def)
  ultimately have "Suc (card (unseen s k' w')) = card (unseen s k w)"
    by (metis card_Suc_Diff1 finite_unseen [OF assms(2)])
  with new(3) assms(2) t(3) show ?thesis by simp
qed

lemma take_deps_measure:
  "take_deps s cur ds k w = (Inr k', w') \<Longrightarrow> finite (dom (wo_files w)) \<Longrightarrow>
    finite (dom (wo_files w')) \<and>
    card (unseen s k' w') + length (wk_queue k') \<le> card (unseen s k w) + length (wk_queue k)"
proof (induction ds arbitrary: k w)
  case (Cons d ds)
  then obtain k1 w1 where "take_dep s cur d k w = (Inr k1, w1)" "take_deps s cur ds k1 w1 = (Inr k', w')"
    by (auto simp: io_then_Inr)
  with take_dep_measure Cons show ?case by (meson order_trans)
qed simp

section \<open>The walk ends\<close>

lemma deps_of_keeps: "deps_of path w = (r, w') \<Longrightarrow> w' = w"
  by (auto simp: deps_of_def io_then_def read_file_def io_bin_def split: option.splits node.splits sum.splits)

lemma bundle_walk_ends:
  assumes "finite (dom (wo_files w))"
  shows "\<exists>r. bundle_walk s k w = Some r"
  using assms
proof (induction "card (unseen s k w) + length (wk_queue k)" arbitrary: k w rule: less_induct)
  case less
  show ?case
  proof (cases "wk_queue k")
    case Nil
    then show ?thesis by (simp add: bundle_walk.simps)
  next
    case (Cons cur q)
    obtain r w1 where d: "deps_of cur w = (r, w1)" by fastforce
    then have w1: "w1 = w" by (rule deps_of_keeps)
    show ?thesis
    proof (cases r)
      case (Inl e)
      with Cons d show ?thesis by (simp add: bundle_walk.simps)
    next
      case (Inr deps)
      let ?k = "k\<lparr>wk_queue := q\<rparr>"
      obtain r2 w2 where t: "take_deps s cur deps ?k w = (r2, w2)" by fastforce
      show ?thesis
      proof (cases r2)
        case (Inl e)
        with Cons d w1 Inr t show ?thesis by (simp add: bundle_walk.simps)
      next
        case (Inr k2)
        from take_deps_measure [of s cur deps ?k w k2 w2] t Inr less.prems
        have "finite (dom (wo_files w2))"
          "card (unseen s k2 w2) + length (wk_queue k2) \<le> card (unseen s ?k w) + length q"
          by auto
        moreover have "unseen s ?k w = unseen s k w" by (simp add: unseen_def)
        ultimately obtain r3 where "bundle_walk s k2 w2 = Some r3"
          using less.hyps [of k2 w2] Cons by fastforce
        with Cons d w1 \<open>r = Inr deps\<close> t Inr show ?thesis by (simp add: bundle_walk.simps)
      qed
    qed
  qed
qed

section \<open>The bundle is closed\<close>

text \<open>A dependency is settled when its name was seen, or nothing here can supply it.\<close>

definition settled_dep :: "bundle_site \<Rightarrow> walk \<Rightarrow> world \<Rightarrow> ustr \<Rightarrow> bool" where
  "settled_dep s k w d \<longleftrightarrow>
     u_base d \<in> set (wk_seen k) \<or>
     (wo_files w (u_join (bs_modlib s) (u_base d)) = None \<and> \<not> (bs_format s = MachO \<and> must_travel d))"

definition settled_file :: "bundle_site \<Rightarrow> walk \<Rightarrow> world \<Rightarrow> ustr \<Rightarrow> bool" where
  "settled_file s k w f \<longleftrightarrow>
     (\<exists>data deps. wo_files w f = Some (FileNode data) \<and> recorded_deps data = Inr deps \<and>
        (\<forall>d\<in>set deps. settled_dep s k w d))"

definition bundle_files :: "bundle_site \<Rightarrow> walk \<Rightarrow> ustr set" where
  "bundle_files s k = set (bs_roots s) \<union> u_join (bs_libdir s) ` set (wk_copied k)"

text \<open>The invariant of the walk, for the files still waiting \<open>W\<close>.\<close>

definition walk_ok :: "bundle_site \<Rightarrow> ustr set \<Rightarrow> walk \<Rightarrow> world \<Rightarrow> bool" where
  "walk_ok s W k w \<longleftrightarrow>
     (\<forall>f\<in>bundle_files s k. f \<in> W \<or> settled_file s k w f) \<and>
     (\<forall>f\<in>bundle_files s k. u_base f \<in> set (wk_seen k)) \<and>
     W \<subseteq> bundle_files s k \<and>
     set (wk_seen k) = u_base ` set (bs_roots s) \<union> set (wk_copied k)"

text \<open>One dependency taken: it is settled, and what was settled or already there still is.\<close>

lemma take_dep_keeps:
  assumes "take_dep s cur d k w = (Inr k', w')"
  shows "settled_dep s k' w' d" and "settled_dep s k w e \<Longrightarrow> settled_dep s k' w' e"
    and "u_base f \<in> set (wk_seen k) \<Longrightarrow> wo_files w' f = wo_files w f"
    and "set (wk_seen k) \<subseteq> set (wk_seen k')" and "set (wk_queue k) \<subseteq> set (wk_queue k')"
proof -
  consider (same) "w' = w" "wk_seen k' = wk_seen k" "wk_queue k' = wk_queue k"
      "u_base d \<in> set (wk_seen k) \<or> wo_files w (u_join (bs_modlib s) (u_base d)) = None \<and>
        \<not> (bs_format s = MachO \<and> must_travel d)"
    | (new) b t where "u_base d \<notin> set (wk_seen k)" "wk_seen k' = u_base d # wk_seen k" "u_base t = u_base d"
      "wk_queue k' = wk_queue k @ [u_join (bs_libdir s) (u_base d)]"
      "w' = w\<lparr>wo_files := (wo_files w)(t \<mapsto> FileNode b)\<rparr>"
    using take_dep_done [OF assms] by blast
  note cases = this
  show "settled_dep s k' w' d"
    by (cases rule: cases) (auto simp: settled_dep_def)
  show "settled_dep s k w e \<Longrightarrow> settled_dep s k' w' e"
  proof (cases rule: cases)
    case (new b t)
    assume e: "settled_dep s k w e"
    show ?thesis
    proof (cases "u_base e = u_base d")
      case False
      then have "u_join (bs_modlib s) (u_base e) \<noteq> t"
        using new(3) u_base_join [OF u_base_no_slash] by metis
      with e new(2,5) show ?thesis by (auto simp: settled_dep_def)
    qed (use new in \<open>simp add: settled_dep_def\<close>)
  qed (simp add: settled_dep_def)
  show "u_base f \<in> set (wk_seen k) \<Longrightarrow> wo_files w' f = wo_files w f"
    by (cases rule: cases) auto
  show "set (wk_seen k) \<subseteq> set (wk_seen k')" and "set (wk_queue k) \<subseteq> set (wk_queue k')"
    by (cases rule: cases; auto)+
qed

lemma settled_file_kept:
  assumes "take_dep s cur d k w = (Inr k', w')" and "settled_file s k w f" and "u_base f \<in> set (wk_seen k)"
  shows "settled_file s k' w' f"
  using assms(2) take_dep_keeps(2) [OF assms(1)] take_dep_keeps(3) [OF assms(1,3)]
  by (auto simp: settled_file_def)

lemma take_dep_ok:
  assumes "take_dep s cur d k w = (Inr k', w')" and "walk_ok s (set (wk_queue k) \<union> W) k w"
  shows "walk_ok s (set (wk_queue k') \<union> W) k' w'"
proof -
  have seen: "set (wk_seen k') = u_base ` set (bs_roots s) \<union> set (wk_copied k')"
    using take_dep_done [OF assms(1)] assms(2) by (auto simp: walk_ok_def)
  have files: "f \<in> bundle_files s k \<or> (f \<in> set (wk_queue k') \<and> u_base f \<in> set (wk_seen k'))"
    if "f \<in> bundle_files s k'" for f
    using that take_dep_done [OF assms(1)] by (auto simp: bundle_files_def u_base_join u_base_no_slash)
  have names: "u_base f \<in> set (wk_seen k')" if "f \<in> bundle_files s k" for f
    using that assms(2) take_dep_keeps(4) [OF assms(1)] unfolding walk_ok_def by blast
  have "f \<in> set (wk_queue k') \<union> W \<or> settled_file s k' w' f" if "f \<in> bundle_files s k" for f
    using that assms(2) take_dep_keeps(5) [OF assms(1)] settled_file_kept [OF assms(1)]
    by (auto simp: walk_ok_def)
  moreover have "set (wk_queue k') \<union> W \<subseteq> bundle_files s k'"
    using take_dep_done [OF assms(1)] assms(2) by (auto simp: walk_ok_def bundle_files_def)
  ultimately show ?thesis using files seen names unfolding walk_ok_def by blast
qed

lemma take_deps_ok:
  assumes "take_deps s cur ds k w = (Inr k', w')" and "walk_ok s (set (wk_queue k) \<union> W) k w"
  shows "walk_ok s (set (wk_queue k') \<union> W) k' w' \<and> (\<forall>d\<in>set ds. settled_dep s k' w' d) \<and>
    (\<forall>e. settled_dep s k w e \<longrightarrow> settled_dep s k' w' e) \<and>
    (\<forall>f. u_base f \<in> set (wk_seen k) \<longrightarrow> wo_files w' f = wo_files w f)"
  using assms
proof (induction ds arbitrary: k w)
  case (Cons d ds)
  then obtain k1 w1 where one: "take_dep s cur d k w = (Inr k1, w1)" and rest: "take_deps s cur ds k1 w1 = (Inr k', w')"
    by (auto simp: io_then_Inr)
  note IH = Cons.IH [OF rest take_dep_ok [OF one Cons.prems(2)]]
  then show ?case
    using take_dep_keeps [OF one] by auto
qed simp

lemma queue_irrelevant [simp]:
  "bundle_files s (k\<lparr>wk_queue := q\<rparr>) = bundle_files s k"
  "settled_file s (k\<lparr>wk_queue := q\<rparr>) w f = settled_file s k w f"
  by (simp_all add: bundle_files_def settled_file_def settled_dep_def)

lemma recorded_of_deps: "deps_of f w = (Inr deps, w') \<Longrightarrow>
    \<exists>data. wo_files w f = Some (FileNode data) \<and> recorded_deps data = Inr deps"
  by (auto simp: deps_of_def io_then_Inr)

lemma walk_step_ok:
  assumes "wk_queue k = cur # q" and "deps_of cur w = (Inr deps, w)"
    and "take_deps s cur deps (k\<lparr>wk_queue := q\<rparr>) w = (Inr k2, w2)"
    and "walk_ok s (set (wk_queue k)) k w"
  shows "walk_ok s (set (wk_queue k2)) k2 w2"
proof -
  let ?k = "k\<lparr>wk_queue := q\<rparr>"
  have "walk_ok s (set (wk_queue ?k) \<union> {cur}) ?k w"
    using assms(1,4) by (auto simp: walk_ok_def)
  from take_deps_ok [OF assms(3) this]
  have ok: "walk_ok s (set (wk_queue k2) \<union> {cur}) k2 w2" and deps: "\<forall>d\<in>set deps. settled_dep s k2 w2 d"
    and kept: "u_base cur \<in> set (wk_seen k) \<Longrightarrow> wo_files w2 cur = wo_files w cur"
    by auto
  have "u_base cur \<in> set (wk_seen k)"
    using assms(1,4) by (auto simp: walk_ok_def)
  with kept deps recorded_of_deps [OF assms(2)] have "settled_file s k2 w2 cur"
    by (auto simp: settled_file_def)
  with ok show ?thesis by (auto simp: walk_ok_def)
qed

lemma bundle_walk_ok:
  assumes "bundle_walk s k w = Some r"
  shows "r = (Inr (Inr k'), w') \<Longrightarrow> walk_ok s (set (wk_queue k)) k w \<Longrightarrow> walk_ok s {} k' w'"
proof (induction rule: bundle_walk.raw_induct [OF _ assms])
  case (1 walk s k w r)
  show ?case
  proof (cases "wk_queue k")
    case Nil
    with 1 show ?thesis by simp
  next
    case (Cons cur q)
    with 1(2,3) obtain deps where d: "deps_of cur w = (Inr deps, w)"
      by (cases "deps_of cur w"; cases "fst (deps_of cur w)") (auto split: option.splits dest: deps_of_keeps)
    with 1(2,3) Cons obtain k2 w2 where t: "take_deps s cur deps (k\<lparr>wk_queue := q\<rparr>) w = (Inr k2, w2)"
      by (auto split: sum.splits prod.splits)
    with 1(2) Cons d have "walk s k2 w2 = Some r" by simp
    from 1(1) [OF this 1(3) walk_step_ok [OF Cons d t 1(4)]] show ?thesis .
  qed
qed

text \<open>
  C24. When the walk has ended, the bundle is closed: every file in it was read, and each
  dependency that a file records is there under its own name, unless the toolchain does not
  have it; and of a Mach-O bundle's dependencies that are to travel with it, none is missing.
\<close>

theorem bundle_is_closed:
  assumes "bundle_walk s \<lparr>wk_queue = bs_roots s, wk_seen = map u_base (bs_roots s), wk_copied = [], wk_foreign = 0\<rparr> w =
      Some (Inr (Inr k), w')"
    and "f \<in> set (bs_roots s) \<union> u_join (bs_libdir s) ` set (wk_copied k)"
  shows "\<exists>data deps. wo_files w' f = Some (FileNode data) \<and> recorded_deps data = Inr deps \<and>
    (\<forall>d\<in>set deps. u_base d \<in> u_base ` set (bs_roots s) \<union> set (wk_copied k) \<or>
       (wo_files w' (u_join (bs_modlib s) (u_base d)) = None \<and> \<not> (bs_format s = MachO \<and> must_travel d)))"
proof -
  let ?k = "\<lparr>wk_queue = bs_roots s, wk_seen = map u_base (bs_roots s), wk_copied = [], wk_foreign = 0\<rparr>"
  have "walk_ok s (set (wk_queue ?k)) ?k w"
    by (auto simp: walk_ok_def bundle_files_def)
  from bundle_walk_ok [OF assms(1) refl this] assms(2) show ?thesis
    by (auto simp: walk_ok_def bundle_files_def settled_file_def settled_dep_def)
qed

definition demo_needs :: bytes where
  "demo_needs = [0xcf, 0xfa, 0xed, 0xfe, 0x0c, 0, 0, 1, 0, 0, 0, 0, 2, 0, 0, 0, 1, 0, 0, 0, 32, 0, 0, 0,
     0, 0, 0, 0, 0, 0, 0, 0, 0x0c, 0, 0, 0, 32, 0, 0, 0, 24, 0, 0, 0, 0, 0, 0, 0, 0, 0, 0, 0, 0, 0, 0, 0,
     0x4b, 0, 0, 0, 0, 0, 0, 0]"

definition demo_site :: bundle_site where
  "demo_site = \<lparr>bs_format = MachO, bs_modlib = [109], bs_libdir = [111], bs_roots = [[97]]\<rparr>"

definition demo_tree :: world where
  "demo_tree = \<lparr>wo_files = [[97] \<mapsto> FileNode demo_needs, [109, 47, 75] \<mapsto> FileNode demo_macho], wo_runs = []\<rparr>"

definition demo_bundled :: world where
  "demo_bundled = demo_tree\<lparr>wo_files := (wo_files demo_tree)([111, 47, 75] \<mapsto> FileNode demo_macho)\<rparr>"

lemma demo_deps: "recorded_deps demo_needs = Inr [[75]]" "recorded_deps demo_macho = Inr []"
  by code_simp+

lemma demo_names: "u_base [75] = [75]" "u_base [97] = [97]" "u_join [109] [75] = [109, 47, 75]" "u_join [111] [75] = [111, 47, 75]"
  by code_simp+

lemma demo_walk:
  "bundle_walk demo_site \<lparr>wk_queue = [[97]], wk_seen = [[97]], wk_copied = [], wk_foreign = 0\<rparr> demo_tree =
    Some (Inr (Inr \<lparr>wk_queue = [], wk_seen = [[75], [97]], wk_copied = [[75]], wk_foreign = 1\<rparr>), demo_bundled)"
proof -
  have self: "\<not> starts_any SELF_RELATIVE [75]" by code_simp
  have one: "deps_of [97] demo_tree = (Inr [[75]], demo_tree)"
    by (simp add: deps_of_def io_then_def read_file_def io_bin_def demo_tree_def demo_deps)
  have two: "deps_of [111, 47, 75] demo_bundled = (Inr [], demo_bundled)"
    by (simp add: deps_of_def io_then_def read_file_def io_bin_def demo_bundled_def demo_deps)
  have copy: "copy2 [109, 47, 75] [111, 47, 75] demo_tree = (Inr (), demo_bundled)"
    by (simp add: copy2_def copy_target_def Let_def demo_tree_def demo_bundled_def)
  have "wo_files demo_tree [109, 47, 75] \<noteq> None" by (simp add: demo_tree_def)
  then have take: "take_deps demo_site [97] [[75]] \<lparr>wk_queue = [], wk_seen = [[97]], wk_copied = [], wk_foreign = 0\<rparr> demo_tree =
      (Inr \<lparr>wk_queue = [[111, 47, 75]], wk_seen = [[75], [97]], wk_copied = [[75]], wk_foreign = 1\<rparr>, demo_bundled)"
    by (simp add: take_dep_def demo_names Let_def self demo_site_def copy io_then_def io_return_def)
  have "bundle_walk demo_site \<lparr>wk_queue = [[97]], wk_seen = [[97]], wk_copied = [], wk_foreign = 0\<rparr> demo_tree =
      bundle_walk demo_site \<lparr>wk_queue = [[111, 47, 75]], wk_seen = [[75], [97]], wk_copied = [[75]], wk_foreign = 1\<rparr> demo_bundled"
    by (subst bundle_walk.simps) (simp add: one take del: take_deps.simps)
  also have "\<dots> = bundle_walk demo_site \<lparr>wk_queue = [], wk_seen = [[75], [97]], wk_copied = [[75]], wk_foreign = 1\<rparr> demo_bundled"
    by (subst bundle_walk.simps) (simp add: two io_return_def)
  also have "\<dots> = Some (Inr (Inr \<lparr>wk_queue = [], wk_seen = [[75], [97]], wk_copied = [[75]], wk_foreign = 1\<rparr>), demo_bundled)"
    by (subst bundle_walk.simps) simp
  finally show ?thesis .
qed

theorem bundle_is_closed_witness:
  "\<exists>data deps. wo_files demo_bundled [97] = Some (FileNode data) \<and> recorded_deps data = Inr deps \<and>
     (\<forall>d\<in>set deps. u_base d \<in> {[97], [75]} \<or>
       (wo_files demo_bundled (u_join [109] (u_base d)) = None \<and> \<not> must_travel d))"
  using bundle_is_closed [of demo_site demo_tree _ demo_bundled "[97]"] demo_walk
  by (simp add: demo_site_def demo_names)

section \<open>The command ends\<close>

definition keeps_finite :: "'a io \<Rightarrow> bool" where
  "keeps_finite m \<longleftrightarrow> (\<forall>w r w'. m w = (r, w') \<longrightarrow> finite (dom (wo_files w)) \<longrightarrow> finite (dom (wo_files w')))"

lemma keeps_finite_then: "keeps_finite m \<Longrightarrow> (\<And>x. keeps_finite (f x)) \<Longrightarrow> keeps_finite (io_then m f)"
  unfolding keeps_finite_def io_then_def by (auto split: prod.splits sum.splits)

lemma keeps_finite_basic:
  "keeps_finite (io_return x)" "keeps_finite (read_file p)" "keeps_finite (makedirs p)"
  "keeps_finite (copy2 src dst)" "keeps_finite (modular_lib_dir hits)"
  by (auto simp: keeps_finite_def io_return_def read_file_def makedirs_def copy2_def modular_lib_dir_def Let_def
      split: if_splits option.splits node.splits list.splits)

lemma keeps_finite_stage: "keeps_finite (stage cwd src dst)"
  by (simp add: stage_def keeps_finite_basic)

lemma keeps_finite_each: "(\<And>x. keeps_finite (f x)) \<Longrightarrow> keeps_finite (each f xs)"
  by (induction xs) (simp_all add: keeps_finite_basic keeps_finite_then)

lemma keeps_finite_staged: "keeps_finite (bundle_staged hits cwd also artifact bindir libdir staged)"
  unfolding bundle_staged_def
  by (intro keeps_finite_then keeps_finite_basic keeps_finite_stage)
     (auto intro!: keeps_finite_then keeps_finite_each keeps_finite_basic keeps_finite_stage split: sum.split)

text \<open>
  C25. The command ends on every file system: cycles among the libraries do not keep the walk
  going, since a name is copied at most once and only while the toolchain still has one that
  was not seen.
\<close>

theorem bundle_ends:
  assumes "finite (dom (wo_files w))"
  shows "\<exists>r. bundle_main tools patchelf hits cwd argv w = Some r"
proof -
  have "\<exists>r. bundle_walked tools patchelf s rp staged w1 = Some r" if "finite (dom (wo_files w1))" for s rp staged w1
    using bundle_walk_ends [OF that, of s]
    by (auto simp: bundle_walked_def Let_def split: option.splits prod.splits sum.splits)
  then show ?thesis
    using keeps_finite_staged assms unfolding keeps_finite_def
    by (auto simp: bundle_main_def Let_def split: sum.splits prod.splits)
qed

theorem bundle_ends_witness:
  "\<exists>r. bundle_main (\<lambda>w c. None) False [[109]] [47] [[97], [111]] demo_tree = Some r"
proof -
  have "finite (dom (wo_files demo_tree))" by (simp add: demo_tree_def)
  then show ?thesis by (rule bundle_ends)
qed

end
