(* ===== verification/Incremental.thy ===== *)
theory Incremental
  imports Main
begin

text \<open>
  The interface of a reader that is given its input in pieces: a state, and a \<open>feed\<close> that
  returns what the new piece completes. Its law is that two pieces may be fed as one; what a
  client needs, that the cut of the input does not matter, follows once, here.
\<close>

primrec feed_all :: "('s \<Rightarrow> 'a list \<Rightarrow> 'o list \<times> 's) \<Rightarrow> 's \<Rightarrow> 'a list list \<Rightarrow> 'o list \<times> 's" where
  "feed_all feed s [] = ([], s)"
| "feed_all feed s (c # cs) =
     (let (xs, t) = feed s c; (ys, u) = feed_all feed t cs in (xs @ ys, u))"

locale incremental =
  fixes feed :: "'s \<Rightarrow> 'a list \<Rightarrow> 'o list \<times> 's"
    and at_rest :: "'s \<Rightarrow> bool"
  assumes feed_rest: "at_rest s \<Longrightarrow> at_rest (snd (feed s c))"
    and feed_Nil: "at_rest s \<Longrightarrow> feed s [] = ([], s)"
    and feed_append: "feed s (a @ b) =
      (let (xs, t) = feed s a; (ys, u) = feed t b in (xs @ ys, u))"
begin

lemma feed_all_concat: "at_rest s \<Longrightarrow> feed_all feed s cs = feed s (concat cs)"
proof (induction cs arbitrary: s)
  case (Cons c cs)
  obtain xs t where f: "feed s c = (xs, t)" by fastforce
  then have "at_rest t" using feed_rest [OF Cons.prems, of c] by simp
  then show ?case using Cons.IH f by (simp add: feed_append)
qed (simp add: feed_Nil)

lemma cut_does_not_matter:
  "at_rest s \<Longrightarrow> concat cs = concat ds \<Longrightarrow> feed_all feed s cs = feed_all feed s ds"
  by (simp add: feed_all_concat)

end

end
