(* ===== verification/Sse_Reader.thy ===== *)
theory Sse_Reader
  imports Incremental M0pub_Props
begin

text \<open>
  The event-stream reader of the probes (scripts/probelib.py, \<open>SSEParser\<close> and
  \<open>sse_events\<close>): bytes in any pieces to events. It reads what \<open>M0pub\<close> writes.
\<close>

section \<open>Lines\<close>

text \<open>\<open>_EOL.search\<close>: what stands before the first line end, the match, and what follows it.\<close>

fun eol_search :: "bytes \<Rightarrow> (bytes \<times> bytes \<times> bytes) option" where
  "eol_search [] = None"
| "eol_search (b # bs) =
     (if b = 13 then
        (if take 1 bs = [10] then Some ([], [13, 10], drop 1 bs) else Some ([], [13], bs))
      else if b = 10 then Some ([], [10], bs)
      else map_option (\<lambda>(before, m, after). (b # before, m, after)) (eol_search bs))"

definition field_value :: "ustr \<Rightarrow> ustr" where
  "field_value t = (if starts_with [32] t then drop 1 t else t)"

section \<open>The parser\<close>

record sse_block =
  e_event :: "ustr option"
  e_data :: "ustr option"
  e_id :: "ustr option"
  e_comments :: "ustr list"

record sse_parser =
  p_pending :: bytes
  p_event :: "ustr option"
  p_data :: "ustr list"
  p_id :: "ustr option"
  p_comments :: "ustr list"
  p_seen :: bool

definition sse_clear :: "sse_parser \<Rightarrow> sse_parser" where
  "sse_clear p = p\<lparr>p_event := None, p_data := [], p_id := None, p_comments := [], p_seen := False\<rparr>"

definition sse_init :: sse_parser where
  "sse_init = \<lparr>p_pending = [], p_event = None, p_data = [], p_id = None, p_comments = [], p_seen = False\<rparr>"

definition sse_block_of :: "sse_parser \<Rightarrow> sse_block" where
  "sse_block_of p =
     \<lparr>e_event = p_event p, e_data = (if p_data p = [] then None else Some (join [10] (p_data p))),
      e_id = p_id p, e_comments = p_comments p\<rparr>"

definition name_value :: "ustr \<Rightarrow> ustr \<times> ustr" where
  "name_value t =
     (case cut_at [58] t of None \<Rightarrow> (t, []) | Some (name, v) \<Rightarrow> (name, field_value v))"

definition sse_take_field :: "ustr \<times> ustr \<Rightarrow> sse_parser \<Rightarrow> sse_parser" where
  "sse_take_field nv p =
     (if fst nv = str_of ''data'' then p\<lparr>p_data := p_data p @ [snd nv]\<rparr>
      else if fst nv = str_of ''event'' then p\<lparr>p_event := Some (snd nv)\<rparr>
      else if fst nv = str_of ''id'' \<and> 0 \<notin> set (snd nv) then p\<lparr>p_id := Some (snd nv)\<rparr>
      else p)"

definition sse_line :: "ustr \<Rightarrow> sse_parser \<Rightarrow> sse_block option \<times> sse_parser" where
  "sse_line t p =
     (if t = [] then
        (if \<not> p_seen p then (None, p) else (Some (sse_block_of p), sse_clear p))
      else if starts_with [58] t
      then (None, p\<lparr>p_seen := True, p_comments := p_comments p @ [field_value (drop 1 t)]\<rparr>)
      else (None, sse_take_field (name_value t) (p\<lparr>p_seen := True\<rparr>)))"

text \<open>The loop of \<open>feed\<close> on what is pending.\<close>

definition next_line :: "bytes \<Rightarrow> (bytes \<times> bytes) option" where
  "next_line pending =
     (case eol_search pending of
        None \<Rightarrow> None
      | Some (raw, m, rest) \<Rightarrow> if m = [13] \<and> rest = [] then None else Some (raw, rest))"

lemma eol_search_splits: "eol_search s = Some (a, m, r) \<Longrightarrow> s = a @ m @ r \<and> m \<noteq> []"
proof (induction s arbitrary: a)
  case (Cons b bs)
  then show ?case by (cases bs) (auto split: if_splits)
qed simp

lemma next_line_shorter: "next_line s = Some (raw, rest) \<Longrightarrow> length rest < length s"
  using eol_search_splits by (fastforce simp: next_line_def split: option.splits if_splits)

lemma sse_line_pending [simp]: "p_pending (snd (sse_line t p)) = p_pending p"
  by (simp add: sse_line_def sse_clear_def sse_take_field_def)

function sse_loop :: "sse_parser \<Rightarrow> sse_block list \<times> sse_parser" where
  "sse_loop p =
     (case next_line (p_pending p) of
        None \<Rightarrow> ([], p)
      | Some (raw, rest) \<Rightarrow>
          (case sse_line (utf8_decode_replace raw) (p\<lparr>p_pending := rest\<rparr>) of
             (ev, q) \<Rightarrow> (case sse_loop q of (evs, r) \<Rightarrow> (case_option [] (\<lambda>e. [e]) ev @ evs, r))))"
  by pat_completeness auto
termination
proof (relation "measure (\<lambda>p. length (p_pending p))", goal_cases)
  case (2 p x2 raw rest ev q)
  then have "p_pending q = rest"
    using sse_line_pending [of "utf8_decode_replace raw" "p\<lparr>p_pending := rest\<rparr>"]
    by (metis select_convs(1) snd_conv surjective update_convs(1))
  then show ?case using 2(1) next_line_shorter [of "p_pending p" raw rest] 2(2) by simp
qed simp

declare sse_loop.simps [simp del]

definition sse_feed :: "sse_parser \<Rightarrow> bytes \<Rightarrow> sse_block list \<times> sse_parser" where
  "sse_feed p chunk = sse_loop (p\<lparr>p_pending := p_pending p @ chunk\<rparr>)"

text \<open>
  \<open>sse_events\<close>: what \<open>time.monotonic\<close> and \<open>source.readline\<close> give at each turn is a script;
  \<open>None\<close> is the socket's timeout. How the stream ends is the second result.
\<close>

datatype stream_end = StreamOver | DeadlinePassed | ReadTimeout | NeedsSocket | StillReading

definition past :: "int option \<Rightarrow> int \<Rightarrow> bool" where
  "past deadline now = (case deadline of None \<Rightarrow> False | Some d \<Rightarrow> d - now \<le> 0)"

fun sse_read_loop :: "int option \<Rightarrow> sse_parser \<Rightarrow> (int \<times> bytes option) list \<Rightarrow> sse_block list \<times> stream_end" where
  "sse_read_loop deadline p [] = ([], StillReading)"
| "sse_read_loop deadline p ((now, got) # turns) =
     (if past deadline now then ([], DeadlinePassed)
      else (case got of
              None \<Rightarrow> ([], if deadline = None then ReadTimeout else DeadlinePassed)
            | Some raw \<Rightarrow>
                if raw = [] then ([], StreamOver)
                else (case sse_feed p raw of
                        (evs, q) \<Rightarrow> apfst (\<lambda>es. evs @ es) (sse_read_loop deadline q turns))))"

definition sse_events :: "bool \<Rightarrow> int option \<Rightarrow> (int \<times> bytes option) list \<Rightarrow> sse_block list \<times> stream_end" where
  "sse_events has_sock deadline turns =
     (if deadline \<noteq> None \<and> \<not> has_sock then ([], NeedsSocket)
      else sse_read_loop deadline sse_init turns)"

section \<open>The cut of the input does not matter\<close>

lemma eol_search_append:
  assumes "eol_search s = Some (a, m, r)" and "\<not> (m = [13] \<and> r = [])"
  shows "eol_search (s @ t) = Some (a, m, r @ t)"
  using assms
proof (induction s arbitrary: a)
  case (Cons b bs)
  then show ?case by (cases bs) (auto split: if_splits)
qed simp

lemma next_line_append: "next_line s = Some (raw, rest) \<Longrightarrow> next_line (s @ t) = Some (raw, rest @ t)"
  by (auto simp: next_line_def eol_search_append split: option.splits if_splits)

lemma sse_line_later:
  "sse_line t (p\<lparr>p_pending := x\<rparr>) = apsnd (\<lambda>q. q\<lparr>p_pending := x\<rparr>) (sse_line t p)"
  by (auto simp: sse_line_def sse_clear_def sse_take_field_def sse_block_of_def)

lemma sse_loop_append:
  "sse_loop (p\<lparr>p_pending := p_pending p @ b\<rparr>) =
    (case sse_loop p of (xs, q) \<Rightarrow>
       (case sse_loop (q\<lparr>p_pending := p_pending q @ b\<rparr>) of (ys, r) \<Rightarrow> (xs @ ys, r)))"
proof (induction p rule: sse_loop.induct)
  case (1 p)
  show ?case
  proof (cases "next_line (p_pending p)")
    case None
    then have "sse_loop p = ([], p)" by (subst sse_loop.simps) simp
    then show ?thesis by simp
  next
    case (Some l)
    obtain raw rest where l: "l = (raw, rest)" by fastforce
    obtain ev q where q: "sse_line (utf8_decode_replace raw) (p\<lparr>p_pending := rest\<rparr>) = (ev, q)"
      by fastforce
    have pq: "p_pending q = rest"
      using q sse_line_pending [of "utf8_decode_replace raw" "p\<lparr>p_pending := rest\<rparr>"] by simp
    obtain ev0 q0 where 0: "sse_line (utf8_decode_replace raw) p = (ev0, q0)" by fastforce
    have q': "sse_line (utf8_decode_replace raw) (p\<lparr>p_pending := rest @ b\<rparr>) = (ev, q\<lparr>p_pending := rest @ b\<rparr>)"
      using q unfolding sse_line_later 0 by auto
    have "sse_loop (p\<lparr>p_pending := p_pending p @ b\<rparr>) =
        (case sse_loop (q\<lparr>p_pending := rest @ b\<rparr>) of (evs, r) \<Rightarrow> (case_option [] (\<lambda>e. [e]) ev @ evs, r))"
      using next_line_append [OF Some [unfolded l], of b] q' by (subst sse_loop.simps) simp
    moreover have "sse_loop p = (case sse_loop q of (evs, r) \<Rightarrow> (case_option [] (\<lambda>e. [e]) ev @ evs, r))"
      using Some l q by (subst sse_loop.simps) simp
    ultimately show ?thesis
      using 1 [OF Some l [symmetric] q [symmetric]] pq by (auto split: prod.splits)
  qed
qed

lemma sse_loop_rest: "next_line (p_pending (snd (sse_loop p))) = None"
proof (induction p rule: sse_loop.induct)
  case (1 p)
  show ?case
    by (subst sse_loop.simps) (auto split: option.splits prod.splits dest!: 1 [simplified])
qed

definition sse_at_rest :: "sse_parser \<Rightarrow> bool" where
  "sse_at_rest p \<longleftrightarrow> next_line (p_pending p) = None"

interpretation sse: incremental sse_feed sse_at_rest
proof unfold_locales
  fix p a b
  show "sse_at_rest p \<Longrightarrow> sse_at_rest (snd (sse_feed p a))"
    by (simp add: sse_at_rest_def sse_feed_def sse_loop_rest)
  show "sse_at_rest p \<Longrightarrow> sse_feed p [] = ([], p)"
    by (simp add: sse_at_rest_def sse_feed_def sse_loop.simps)
  show "sse_feed p (a @ b) = (let (xs, t) = sse_feed p a; (ys, u) = sse_feed t b in (xs @ ys, u))"
    using sse_loop_append [where p = "p\<lparr>p_pending := p_pending p @ a\<rparr>" and b = b]
    by (auto simp: sse_feed_def Let_def split: prod.splits)
qed

lemma sse_init_rest [simp]: "sse_at_rest sse_init"
  by (simp add: sse_at_rest_def sse_init_def next_line_def)

end
