(* ===== verification/Sse_Props.thy ===== *)
theory Sse_Props
  imports Sse_Reader
begin

text \<open>
  What the probes' event-stream reader promises: the cut of its input does not matter, and
  what \<open>m0pub\<close> published is what it returns.
\<close>

section \<open>One line\<close>

lemma utf8_bytes_line:
  assumes "list_all scalar l" and "no_newline l"
  shows "10 \<notin> set (utf8_bytes l) \<and> 13 \<notin> set (utf8_bytes l)"
  using utf8_bytes_below [OF assms(1), of 10] utf8_bytes_below [OF assms(1), of 13] assms(2)
  by (auto simp: no_newline_def)

lemma eol_search_line:
  "10 \<notin> set raw \<Longrightarrow> 13 \<notin> set raw \<Longrightarrow> eol_search (raw @ 10 # rest) = Some (raw, [10], rest)"
  by (induction raw) auto

fun sse_run_lines :: "ustr list \<Rightarrow> sse_parser \<Rightarrow> sse_block list \<times> sse_parser" where
  "sse_run_lines [] p = ([], p)"
| "sse_run_lines (l # ls) p =
     (case sse_line l p of
        (ev, q) \<Rightarrow> (case sse_run_lines ls q of (evs, r) \<Rightarrow> (case_option [] (\<lambda>e. [e]) ev @ evs, r)))"

definition with_pending :: "bytes \<Rightarrow> sse_parser \<Rightarrow> sse_parser" where
  "with_pending x p = p\<lparr>p_pending := x\<rparr>"

lemma with_pending_simps [simp]:
  "p_pending (with_pending x p) = x" "with_pending x (with_pending y p) = with_pending x p"
  by (simp_all add: with_pending_def)

lemma sse_loop_lines:
  assumes "\<forall>l\<in>set ls. list_all scalar l \<and> no_newline l"
  shows "sse_loop (with_pending (concat (map (\<lambda>l. utf8_bytes l @ [10]) ls)) p)
    = apsnd (with_pending []) (sse_run_lines ls p)"
  using assms
proof (induction ls arbitrary: p)
  case Nil
  then show ?case by (simp add: sse_loop.simps next_line_def)
next
  case (Cons l ls)
  let ?rest = "concat (map (\<lambda>l. utf8_bytes l @ [10]) ls)"
  obtain ev q where l: "sse_line l p = (ev, q)" by fastforce
  have enc: "utf8_decode_replace (utf8_bytes l) = l"
    using Cons.prems utf8_roundtrip [of l "utf8_bytes l"] by (simp add: utf8_encode_bytes)
  have nl: "next_line (utf8_bytes l @ 10 # ?rest) = Some (utf8_bytes l, ?rest)"
    using utf8_bytes_line [of l] Cons.prems by (simp add: next_line_def eol_search_line)
  have later: "sse_line l (with_pending ?rest p) = (ev, with_pending ?rest q)"
    unfolding with_pending_def sse_line_later l by simp
  have "sse_loop (with_pending (utf8_bytes l @ 10 # ?rest) p)
      = (case sse_loop (with_pending ?rest q) of (evs, r) \<Rightarrow> (case_option [] (\<lambda>e. [e]) ev @ evs, r))"
    using later by (subst sse_loop.simps) (simp add: nl enc flip: with_pending_def)
  then show ?case
    using Cons.IH [of q] Cons.prems l by (simp split: prod.splits)
qed

lemma run_lines_append:
  "sse_run_lines (as @ bs) p =
    (case sse_run_lines as p of (xs, q) \<Rightarrow> (case sse_run_lines bs q of (ys, r) \<Rightarrow> (xs @ ys, r)))"
  by (induction as arbitrary: p) (auto split: prod.splits)

section \<open>What was published is what is read\<close>

text \<open>The block a client of the stream is given for one event.\<close>

definition published_block :: "ustr \<Rightarrow> ustr option \<Rightarrow> int \<Rightarrow> sse_block" where
  "published_block data event event_id =
     \<lparr>e_event = (case event of None \<Rightarrow> None | Some e \<Rightarrow> if e = [] then None else Some e),
      e_data = Some (join [10] (data_lines data)),
      e_id = (if event_id = NO_EVENT_ID then None else Some (str_of (show_int event_id))),
      e_comments = []\<rparr>"

lemma field_lines:
  "sse_line (str_of ''data: '' @ v) p = (None, p\<lparr>p_seen := True, p_data := p_data p @ [v]\<rparr>)"
  "sse_line (str_of ''event: '' @ v) p = (None, p\<lparr>p_seen := True, p_event := Some v\<rparr>)"
  "0 \<notin> set v \<Longrightarrow> sse_line (str_of ''id: '' @ v) p = (None, p\<lparr>p_seen := True, p_id := Some v\<rparr>)"
  by (simp_all add: sse_line_def name_value_def field_value_def sse_take_field_def starts_with_def str_of_simps)

lemma run_data_lines:
  "sse_run_lines (map (\<lambda>l. str_of ''data: '' @ l) ds) p
     = ([], p\<lparr>p_seen := p_seen p \<or> ds \<noteq> [], p_data := p_data p @ ds\<rparr>)"
  by (induction ds arbitrary: p) (simp_all add: field_lines)

lemma run_one: "sse_run_lines [l] p = (case sse_line l p of (ev, q) \<Rightarrow> (case_option [] (\<lambda>e. [e]) ev, q))"
  by (simp split: prod.split)

lemma run_id_line:
  "sse_run_lines (if n \<noteq> NO_EVENT_ID then [str_of ''id: '' @ str_of (show_int n)] else []) p
     = ([], if n \<noteq> NO_EVENT_ID then p\<lparr>p_seen := True, p_id := Some (str_of (show_int n))\<rparr> else p)"
proof -
  have n0: "0 \<notin> set (str_of (show_int n))" using show_int_plain [of 0 n] by blast
  show ?thesis by (simp only: sse_run_lines.simps(1) run_one field_lines(3) [OF n0] split: if_split) simp
qed

lemma run_event_line:
  "sse_run_lines (case event of None \<Rightarrow> [] | Some e \<Rightarrow> if e = [] then [] else [str_of ''event: '' @ e]) p
     = ([], case event of None \<Rightarrow> p | Some e \<Rightarrow> if e = [] then p else p\<lparr>p_seen := True, p_event := Some e\<rparr>)"
  by (cases event) (simp_all only: sse_run_lines.simps(1) run_one field_lines(2) option.case split: if_split, simp_all)

lemma run_published:
  "sse_run_lines (sse_parts data event event_id @ [[]]) sse_init = ([published_block data event event_id], sse_init)"
  unfolding sse_parts_def run_lines_append run_id_line run_event_line run_data_lines prod.case append_Nil run_one
  by (auto simp: sse_line_def sse_init_def sse_clear_def sse_block_of_def published_block_def split: option.split)

lemma frame_lines:
  assumes "sse_event data event event_id = Some frame" and "\<And>e. event = Some e \<Longrightarrow> no_newline e"
  shows "frame = concat (map (\<lambda>l. utf8_bytes l @ [10]) (sse_parts data event event_id @ [[]]))"
    and "\<forall>l\<in>set (sse_parts data event event_id @ [[]]). list_all scalar l \<and> no_newline l"
proof -
  let ?ls = "sse_parts data event event_id"
  have j: "join [10] ls @ [10, 10] = concat (map (\<lambda>l. l @ [10]) (ls @ [[]]))" if "ls \<noteq> []" for ls :: "ustr list"
    using that by (induction ls rule: induct_list012) auto
  have sc: "list_all scalar (sse_text data event event_id)" and f: "frame = utf8_bytes (sse_text data event event_id)"
    using assms(1) by (simp_all add: sse_event_def utf8_encode_bytes)
  have t: "sse_text data event event_id = concat (map (\<lambda>l. l @ [10]) (?ls @ [[]]))"
    unfolding sse_text_parts by (rule j) simp
  have "utf8_bytes (concat (map (\<lambda>l. l @ [10]) ls)) = concat (map (\<lambda>l. utf8_bytes l @ [10]) ls)" for ls
    by (induction ls) (simp_all only: list.map concat.simps utf8_bytes_simps utf8_bytes_newline)
  then show "frame = concat (map (\<lambda>l. utf8_bytes l @ [10]) (?ls @ [[]]))"
    unfolding f t .
  have "list_all scalar l" if "l \<in> set ?ls" for l
    using sc that unfolding t by (auto simp: list_all_iff)
  then show "\<forall>l\<in>set (?ls @ [[]]). list_all scalar l \<and> no_newline l"
    using sse_parts_clean [OF assms(2)] by (auto simp: no_newline_def)
qed

definition published :: "(ustr \<times> ustr option \<times> int) \<Rightarrow> bytes \<Rightarrow> bool" where
  "published m frame \<longleftrightarrow>
     sse_event (fst m) (fst (snd m)) (snd (snd m)) = Some frame \<and>
     (\<forall>e. fst (snd m) = Some e \<longrightarrow> no_newline e)"

lemma feed_published:
  "published (data, event, event_id) frame \<Longrightarrow>
   sse_feed sse_init frame = ([published_block data event event_id], sse_init)"
proof -
  assume "published (data, event, event_id) frame"
  then have f: "sse_event data event event_id = Some frame" and e: "\<And>e. event = Some e \<Longrightarrow> no_newline e"
    by (auto simp: published_def)
  have "sse_feed sse_init frame = sse_loop (with_pending frame sse_init)"
    by (simp add: sse_feed_def with_pending_def sse_init_def)
  also have "\<dots> = apsnd (with_pending []) (sse_run_lines (sse_parts data event event_id @ [[]]) sse_init)"
    by (subst frame_lines(1) [OF f e], assumption, rule sse_loop_lines [OF frame_lines(2) [OF f e]], assumption)
  finally show ?thesis unfolding run_published by (simp add: with_pending_def sse_init_def)
qed


lemma hello_published: "published ([104, 105], Some [97], 7)
    (map u8 [105, 100, 58, 32, 55, 10, 101, 118, 101, 110, 116, 58, 32, 97, 10, 100, 97, 116, 97, 58, 32, 104, 105, 10, 10])"
proof -
  have t: "sse_text [104, 105] (Some [97]) 7
      = [105, 100, 58, 32, 55, 10, 101, 118, 101, 110, 116, 58, 32, 97, 10, 100, 97, 116, 97, 58, 32, 104, 105, 10, 10]"
    by (simp add: sse_text_def data_lines_def line_break_def NO_EVENT_ID_def str_of_simps show_int_def show_nat.simps)
  show ?thesis
    unfolding published_def fst_conv snd_conv sse_event_def t
    using utf8_ascii [of "[105, 100, 58, 32, 55, 10, 101, 118, 101, 110, 116, 58, 32, 97, 10, 100, 97, 116, 97, 58, 32, 104, 105, 10, 10]"]
    by (simp add: no_newline_def)
qed


end
