(* ===== verification/Ws_Client.thy ===== *)
theory Ws_Client
  imports Py_Numbers
begin

unbundle bit_operations_syntax

text \<open>
  The WebSocket client of the probes (scripts/probelib.py): the frame codec, masking
  included, and \<open>WebSocket\<close>, one buffer for everything read. The socket is a script of what
  each \<open>recv\<close> gives, in any pieces.
\<close>

section \<open>Frames\<close>

definition OP_TEXT :: nat where "OP_TEXT = 1"
definition OP_CLOSE :: nat where "OP_CLOSE = 8"
definition OP_PING :: nat where "OP_PING = 9"
definition OP_PONG :: nat where "OP_PONG = 10"

record ws_frame =
  f_fin :: bool
  f_rsv :: nat
  f_opcode :: nat
  f_masked :: bool
  f_payload :: bytes

text \<open>\<open>int.from_bytes(b, 'big')\<close> and \<open>x.to_bytes(n, 'big')\<close>.\<close>

definition from_be :: "bytes \<Rightarrow> int" where
  "from_be b = from_le (rev b)"

definition to_be :: "nat \<Rightarrow> int \<Rightarrow> bytes" where
  "to_be n x = rev (to_le n x)"

definition ws_mask :: "bytes \<Rightarrow> bytes \<Rightarrow> bytes" where
  "ws_mask payload key =
     (let n = length payload in
      if n = 0 then []
      else let stream = take n (concat (replicate (n div 4 + 1) key))
           in to_be n (from_be payload XOR from_be stream))"

text \<open>\<open>None\<close> is \<open>struct.error\<close>, for a first byte or a length the format does not hold.\<close>

definition encode_frame :: "nat \<Rightarrow> bytes \<Rightarrow> bool \<Rightarrow> bytes \<Rightarrow> bytes option" where
  "encode_frame opcode payload fin key =
     (let n = length payload;
          b0 = (if fin then 0x80 else 0) OR opcode
      in if 256 \<le> b0 \<or> 2 ^ 64 \<le> n then None
         else Some ((if n < 126 then [of_nat b0, of_nat (0x80 OR n)]
                     else if n < 65536 then [of_nat b0, of_nat (0x80 OR 126)] @ to_be 2 (int n)
                     else [of_nat b0, of_nat (0x80 OR 127)] @ to_be 8 (int n)) @ key @ ws_mask payload key))"

definition masked_bit :: "byte \<Rightarrow> bool" where
  "masked_bit b1 \<longleftrightarrow> unat b1 AND 0x80 \<noteq> 0"

definition len_field :: "byte \<Rightarrow> nat" where
  "len_field b1 = unat b1 AND 0x7F"

definition head_size :: "byte \<Rightarrow> nat" where
  "head_size b1 =
     (if len_field b1 = 126 then 4 else if len_field b1 = 127 then 10 else 2) + (if masked_bit b1 then 4 else 0)"

definition payload_len :: "bytes \<Rightarrow> nat" where
  "payload_len s =
     (let n = len_field (s ! 1) in
      if n = 126 then nat (from_be (take 2 (drop 2 s)))
      else if n = 127 then nat (from_be (take 8 (drop 2 s)))
      else n)"

definition header_len :: "bytes \<Rightarrow> nat \<Rightarrow> (nat \<times> nat) option" where
  "header_len buf at =
     (let s = drop at buf in
      if length s < 2 then None
      else if length s < head_size (s ! 1) then None
      else Some (head_size (s ! 1), payload_len s))"

definition frame_at :: "bytes \<Rightarrow> nat \<Rightarrow> nat \<Rightarrow> ws_frame" where
  "frame_at s hl n =
     (let b0 = unat (s ! 0);
          raw = take n (drop hl s)
      in \<lparr>f_fin = (b0 AND 0x80 \<noteq> 0), f_rsv = drop_bit 4 b0 AND 0x7, f_opcode = b0 AND 0x0F,
          f_masked = masked_bit (s ! 1),
          f_payload = (if masked_bit (s ! 1) then ws_mask raw (take 4 (drop (hl - 4) s)) else raw)\<rparr>)"

definition parse_frame :: "bytes \<Rightarrow> nat \<Rightarrow> (ws_frame \<times> nat) option" where
  "parse_frame buf at =
     (case header_len buf at of
        None \<Rightarrow> None
      | Some (hl, n) \<Rightarrow>
          if length buf < at + hl + n then None
          else Some (frame_at (drop at buf) hl n, at + hl + n))"

lemma head_size_pos: "2 \<le> head_size b"
  by (simp add: head_size_def)

lemma parse_frame_bounds: "parse_frame buf at = Some (f, e) \<Longrightarrow> at < e \<and> e \<le> length buf"
  using head_size_pos [of "drop at buf ! 1"]
  by (auto simp: parse_frame_def header_len_def Let_def split: option.splits if_splits)

function parse_frames_from :: "bytes \<Rightarrow> nat \<Rightarrow> ws_frame list \<times> nat" where
  "parse_frames_from buf at =
     (case parse_frame buf at of
        None \<Rightarrow> ([], at)
      | Some (f, e) \<Rightarrow> apfst (\<lambda>fs. f # fs) (parse_frames_from buf e))"
  by pat_completeness auto
termination
proof (relation "measure (\<lambda>(buf, at). length buf - at)", goal_cases)
  case (2 buf at x f e)
  then show ?case using parse_frame_bounds [of buf at f e] by auto
qed simp

declare parse_frames_from.simps [simp del]

definition parse_frames :: "bytes \<Rightarrow> ws_frame list \<times> nat" where
  "parse_frames buf = parse_frames_from buf 0"

section \<open>The client\<close>

text \<open>
  A turn of the wire: the clock when it is looked at, and what \<open>recv\<close> then does. Past the
  end of the script a read waits for ever.
\<close>

datatype recv = Chunk bytes | RecvTimeout | RecvError

datatype ws_stop = WsTimeout | WsOsError | WsEof string | WsFail string | WsStruct | WsWaiting

record ws_client =
  c_buf :: bytes
  c_wire :: "(int \<times> recv) list"
  c_timeout :: "int option"
  c_sent :: "bytes list"
  c_keys :: "nat \<Rightarrow> bytes"
  c_head :: "bytes option"

definition sock_recv :: "ws_client \<Rightarrow> (ws_stop + bytes) \<times> ws_client" where
  "sock_recv c =
     (case c_wire c of
        [] \<Rightarrow> (Inl WsWaiting, c)
      | (_, r) # rest \<Rightarrow>
          ((case r of Chunk b \<Rightarrow> Inr b | RecvTimeout \<Rightarrow> Inl WsTimeout | RecvError \<Rightarrow> Inl WsOsError),
           c\<lparr>c_wire := rest\<rparr>))"

definition wire_clock :: "ws_client \<Rightarrow> int" where
  "wire_clock c = (case c_wire c of [] \<Rightarrow> 0 | (now, _) # _ \<Rightarrow> now)"

definition take_chunk :: "ws_client \<Rightarrow> (ws_stop + bool) \<times> ws_client" where
  "take_chunk c =
     (case sock_recv c of
        (Inl e, d) \<Rightarrow> (Inl e, d)
      | (Inr b, d) \<Rightarrow> if b = [] then (Inr False, d) else (Inr True, d\<lparr>c_buf := c_buf d @ b\<rparr>))"

definition ws_fill :: "int option \<Rightarrow> ws_client \<Rightarrow> (ws_stop + bool) \<times> ws_client" where
  "ws_fill deadline c =
     (case deadline of
        None \<Rightarrow> take_chunk c
      | Some d \<Rightarrow>
          if c_wire c \<noteq> [] \<and> d - wire_clock c \<le> 0 then (Inl WsTimeout, c)
          else take_chunk (c\<lparr>c_timeout := Some (d - wire_clock c)\<rparr>))"

definition ended_want :: "bytes \<Rightarrow> int \<times> int" where
  "ended_want buf =
     (let have = length buf in
      if have < 2 then (2, int have)
      else let n = len_field (buf ! 1);
               ext = (if n = 126 then 2 else if n = 127 then 8 else 0)
           in if have < 2 + ext then (int ext, int have - 2)
              else case (case header_len buf 0 of Some sl \<Rightarrow> sl | None \<Rightarrow> (2 + ext, 0)) of
                (hl, len) \<Rightarrow> (int len, int have - int hl))"

definition ended_text :: "bytes \<Rightarrow> string" where
  "ended_text buf =
     ''connection closed wanting '' @ show_int (fst (ended_want buf)) @ '' bytes (got '' @
     show_int (snd (ended_want buf)) @ '')''"

definition ws_ended :: "bool \<Rightarrow> bytes \<Rightarrow> ws_stop" where
  "ws_ended eof_ok buf = (if eof_ok then WsEof (ended_text buf) else WsFail (ended_text buf))"

lemma take_chunk_wire: "fst (take_chunk c) = Inr b \<Longrightarrow> length (c_wire (snd (take_chunk c))) < length (c_wire c)"
  by (auto simp: take_chunk_def sock_recv_def split: list.splits recv.splits prod.splits sum.splits if_splits)

lemma ws_fill_wire: "ws_fill deadline c = (Inr b, d) \<Longrightarrow> length (c_wire d) < length (c_wire c)"
  using take_chunk_wire [of c b] take_chunk_wire [of "c\<lparr>c_timeout := Some (the deadline - wire_clock c)\<rparr>" b]
  by (auto simp: ws_fill_def split: option.splits if_splits)

definition server_masks :: "bytes \<Rightarrow> bool" where
  "server_masks buf \<longleftrightarrow> 2 \<le> length buf \<and> masked_bit (buf ! 1)"

function recv_frame_loop :: "int option \<Rightarrow> bool \<Rightarrow> ws_client \<Rightarrow> (ws_stop + nat \<times> bytes) \<times> ws_client" where
  "recv_frame_loop deadline eof_ok c =
     (if server_masks (c_buf c) then (Inl (WsFail ''server frame is masked (servers MUST NOT mask)''), c)
      else case parse_frame (c_buf c) 0 of
             Some (f, e) \<Rightarrow> (Inr (f_opcode f, f_payload f), c\<lparr>c_buf := drop e (c_buf c)\<rparr>)
           | None \<Rightarrow>
               (case ws_fill deadline c of
                  (Inl stop, d) \<Rightarrow> (Inl stop, d)
                | (Inr got, d) \<Rightarrow>
                    if got then recv_frame_loop deadline eof_ok d
                    else (Inl (ws_ended eof_ok (c_buf d)), d)))"
  by pat_completeness auto
termination
  by (relation "measure (\<lambda>(_, _, c). length (c_wire c))") (auto dest: ws_fill_wire [OF sym])

declare recv_frame_loop.simps [simp del]

definition recv_frame :: "int option \<Rightarrow> bool \<Rightarrow> ws_client \<Rightarrow> (ws_stop + nat \<times> bytes) \<times> ws_client" where
  "recv_frame deadline eof_ok c =
     (case recv_frame_loop deadline eof_ok c of
        (r, d) \<Rightarrow> (r, if deadline = None then d else d\<lparr>c_timeout := c_timeout c\<rparr>))"

text \<open>\<open>send\<close> with a fresh key; \<open>send_close\<close>.\<close>

definition client_send :: "nat \<Rightarrow> bytes \<Rightarrow> bool \<Rightarrow> ws_client \<Rightarrow> (ws_stop + unit) \<times> ws_client" where
  "client_send opcode payload fin c =
     (case encode_frame opcode payload fin (c_keys c 0) of
        None \<Rightarrow> (Inl WsStruct, c\<lparr>c_keys := \<lambda>i. c_keys c (Suc i)\<rparr>)
      | Some b \<Rightarrow> (Inr (), c\<lparr>c_keys := \<lambda>i. c_keys c (Suc i), c_sent := c_sent c @ [b]\<rparr>))"

definition send_close :: "int option \<Rightarrow> bytes \<Rightarrow> ws_client \<Rightarrow> (ws_stop + unit) \<times> ws_client" where
  "send_close code reason c =
     (case code of
        None \<Rightarrow> client_send OP_CLOSE [] True c
      | Some k \<Rightarrow>
          if k < 0 \<or> 65536 \<le> k then (Inl WsStruct, c)
          else client_send OP_CLOSE (to_be 2 k @ reason) True c)"

text \<open>The bytes still to come, in the buffer and on the wire.\<close>

definition recv_bytes :: "recv \<Rightarrow> bytes" where
  "recv_bytes r = (case r of Chunk b \<Rightarrow> b | _ \<Rightarrow> [])"

definition unread :: "ws_client \<Rightarrow> bytes" where
  "unread c = c_buf c @ concat (map (\<lambda>(_, r). recv_bytes r) (c_wire c))"

lemma ws_fill_unread: "ws_fill deadline c = (Inr got, d) \<Longrightarrow> unread d = unread c"
  by (auto simp: ws_fill_def take_chunk_def sock_recv_def unread_def recv_bytes_def
      split: option.splits if_splits list.splits recv.splits)

lemma recv_frame_loop_less:
  "recv_frame_loop deadline eof_ok c = (Inr m, d) \<Longrightarrow> length (unread d) < length (unread c)"
proof (induction deadline eof_ok c rule: recv_frame_loop.induct)
  case (1 deadline eof_ok c)
  show ?case
  proof (cases "parse_frame (c_buf c) 0")
    case (Some fe)
    then show ?thesis
      using 1(2) parse_frame_bounds [of "c_buf c" 0 "fst fe" "snd fe"]
      by (subst (asm) recv_frame_loop.simps) (auto simp: unread_def split: if_splits prod.splits)
  next
    case None
    obtain r d' where f: "ws_fill deadline c = (r, d')" by fastforce
    from 1(2) None f have nm: "\<not> server_masks (c_buf c)" and "r = Inr True"
      and l: "recv_frame_loop deadline eof_ok d' = (Inr m, d)"
      by (subst (asm) recv_frame_loop.simps, auto split: if_splits sum.splits)+
    with 1(1) [OF nm None f [symmetric]] f ws_fill_unread show ?thesis by fastforce
  qed
qed

lemma recv_frame_less: "recv_frame deadline eof_ok c = (Inr m, d) \<Longrightarrow> length (unread d) < length (unread c)"
  by (auto simp: recv_frame_def unread_def split: prod.splits if_splits dest!: recv_frame_loop_less)

lemma ws_send_unread [simp]: "unread (snd (client_send opcode payload fin c)) = unread c"
  by (simp add: client_send_def unread_def split: option.split)

function recv_data :: "int option \<Rightarrow> bool \<Rightarrow> bool \<Rightarrow> ws_client \<Rightarrow> (ws_stop + nat \<times> bytes) \<times> ws_client" where
  "recv_data deadline eof_ok pong c =
     (case recv_frame deadline eof_ok c of
        (Inl stop, d) \<Rightarrow> (Inl stop, d)
      | (Inr (opcode, payload), d) \<Rightarrow>
          if opcode \<noteq> OP_PING then (Inr (opcode, payload), d)
          else if pong
          then (case client_send OP_PONG payload True d of
                  (Inl stop, e) \<Rightarrow> (Inl stop, e)
                | (Inr _, e) \<Rightarrow> recv_data deadline eof_ok pong e)
          else recv_data deadline eof_ok pong d)"
  by pat_completeness auto
termination
proof (relation "measure (\<lambda>(_, _, _, c). length (unread c))", goal_cases)
  case (2 deadline eof_ok pong c r d m opcode payload x e y)
  then show ?case using recv_frame_less [of deadline eof_ok c] ws_send_unread [of OP_PONG payload True d]
    by (metis case_prod_conv in_measure snd_conv)
next
  case (3 deadline eof_ok pong c r d m opcode payload)
  then show ?case using recv_frame_less [of deadline eof_ok c] by (metis case_prod_conv in_measure)
qed simp

declare recv_data.simps [simp del]

definition recv_raw :: "nat \<Rightarrow> ws_client \<Rightarrow> (ws_stop + bytes) \<times> ws_client" where
  "recv_raw n c =
     (if c_buf c \<noteq> [] then (Inr (take n (c_buf c)), c\<lparr>c_buf := drop n (c_buf c)\<rparr>)
      else sock_recv c)"

section \<open>The head\<close>

definition CRLF :: bytes where "CRLF = [13, 10]"

text \<open>\<open>None\<close> is the connection closed before a whole head.\<close>

function read_head :: "ws_client \<Rightarrow> (ws_stop + bytes option) \<times> ws_client" where
  "read_head c =
     (case cut_at (CRLF @ CRLF) (c_buf c) of
        Some (head, rest) \<Rightarrow>
          (Inr (Some (case cut_at CRLF head of None \<Rightarrow> head | Some (line, _) \<Rightarrow> line)),
           c\<lparr>c_head := Some head, c_buf := rest\<rparr>)
      | None \<Rightarrow>
          (case take_chunk c of
             (Inl stop, d) \<Rightarrow> (Inl stop, d)
           | (Inr got, d) \<Rightarrow> if got then read_head d else (Inr None, d)))"
  by pat_completeness auto
termination
proof (relation "measure (\<lambda>c. length (c_wire c))", goal_cases)
  case (2 c r d got)
  then show ?case using take_chunk_wire [of c got] by (metis fst_conv in_measure snd_conv)
qed simp

declare read_head.simps [simp del]

end
