(* ===== verification/Ws_Client_Props.thy ===== *)
theory Ws_Client_Props
  imports Ws_Client
begin

text \<open>
  What the probes' WebSocket client promises: the integer masking is the byte loop, frames
  round trip, and reading does not depend on how the wire was cut.
\<close>

section \<open>Masking\<close>

lemma length_to_be [simp]: "length (to_be n x) = n"
  by (simp add: to_be_def)

lemma from_be_to_be: "0 \<le> x \<Longrightarrow> x < 256 ^ n \<Longrightarrow> from_be (to_be n x) = x"
  by (simp add: from_be_def to_be_def from_le_to_le)

lemma byte_xor_step:
  fixes x y :: byte and p q :: int
  defines "a \<equiv> uint x + 256 * p" and "b \<equiv> uint y + 256 * q"
  shows "word_of_int (a XOR b) = x XOR y" and "(a XOR b) div 256 = p XOR q"
proof -
  have "(256 :: byte) = 0" by simp
  then have w: "word_of_int a = x" "word_of_int b = y"
    by (simp_all only: a_def b_def of_int_add of_int_mult of_int_numeral word_of_int_uint mult_zero_left add_0_right)
  then show "word_of_int (a XOR b) = x XOR y"
    unfolding w [symmetric] by transfer simp
  have "uint x < 256" "uint y < 256" "0 \<le> uint x" "0 \<le> uint y"
    using unsigned_less [where 'b = 8 and 'a = int, of x] unsigned_less [where 'b = 8 and 'a = int, of y] by simp_all
  then have d: "drop_bit 8 a = p" "drop_bit 8 b = q"
    by (simp_all add: a_def b_def drop_bit_eq_div)
  have "(a XOR b) div 256 = drop_bit 8 (a XOR b)" by (simp add: drop_bit_eq_div)
  then show "(a XOR b) div 256 = p XOR q" by (simp only: drop_bit_xor d)
qed

lemma xor_bytes:
  "length xs = length ys \<Longrightarrow> to_le (length xs) (from_le xs XOR from_le ys) = map2 (XOR) xs ys"
  by (induction xs ys rule: list_induct2) (simp_all add: byte_xor_step)

definition key_stream :: "bytes \<Rightarrow> nat \<Rightarrow> bytes" where
  "key_stream key n = take n (concat (replicate (n div 4 + 1) key))"

text \<open>The byte loop of RFC 6455: byte \<open>i\<close> with byte \<open>i mod 4\<close> of the key.\<close>

definition mask_bytewise :: "bytes \<Rightarrow> bytes \<Rightarrow> bytes" where
  "mask_bytewise payload key = map (\<lambda>i. payload ! i XOR key ! (i mod 4)) [0..<length payload]"

lemma length_replicated: "length (concat (replicate k key)) = k * length key"
  by (induction k) auto

lemma nth_replicated: "length key = 4 \<Longrightarrow> i < 4 * k \<Longrightarrow> concat (replicate k key) ! i = key ! (i mod 4)"
proof (induction k arbitrary: i)
  case (Suc k)
  then show ?case by (auto simp: nth_append le_mod_geq)
qed simp

lemma key_stream_nth:
  assumes "length key = 4" and "i < n"
  shows "length (key_stream key n) = n" and "key_stream key n ! i = key ! (i mod 4)"
proof -
  have "n < 4 * (n div 4 + 1)" by presburger
  then show "length (key_stream key n) = n" using assms by (simp add: key_stream_def length_replicated)
  have "i < 4 * (n div 4 + 1)" using assms(2) by presburger
  then show "key_stream key n ! i = key ! (i mod 4)"
    using assms nth_replicated [of key i "n div 4 + 1"] unfolding key_stream_def by (simp only: nth_take)
qed

lemma mask_is_bytewise:
  assumes "length key = 4"
  shows "ws_mask payload key = mask_bytewise payload key"
proof (cases "payload = []")
  case True
  then show ?thesis by (simp add: ws_mask_def mask_bytewise_def)
next
  case False
  let ?n = "length payload" and ?s = "key_stream key (length payload)"
  have len: "length ?s = ?n" using key_stream_nth(1) [OF assms, of 0 ?n] False by simp
  have "ws_mask payload key = rev (to_le (length (rev payload)) (from_le (rev payload) XOR from_le (rev ?s)))"
    using False by (simp add: ws_mask_def Let_def to_be_def from_be_def key_stream_def)
  also have "\<dots> = map2 (XOR) payload ?s"
    using len by (subst xor_bytes) (simp_all add: zip_rev flip: rev_map)
  also have "\<dots> = mask_bytewise payload key"
    using len key_stream_nth(2) [OF assms] by (intro nth_equalityI) (auto simp: mask_bytewise_def)
  finally show ?thesis .
qed

lemma mask_twice:
  assumes "length key = 4"
  shows "ws_mask (ws_mask payload key) key = payload"
  unfolding mask_is_bytewise [OF assms]
  by (intro nth_equalityI) (auto simp: mask_bytewise_def xor.assoc)

lemma length_ws_mask [simp]: "length key = 4 \<Longrightarrow> length (ws_mask payload key) = length payload"
  by (simp add: mask_is_bytewise mask_bytewise_def)

section \<open>Frames round trip\<close>

lemma second_byte:
  assumes "n < 128"
  shows "masked_bit (of_nat (0x80 OR n))" and "len_field (of_nat (0x80 OR n)) = n"
proof -
  have "n AND 128 = 0"
  proof (rule bit_eqI)
    fix i
    have "\<not> bit n 7" using assms by (simp add: bit_iff_odd)
    moreover have "bit (128 :: nat) i \<longleftrightarrow> i = 7" using bit_exp_iff [of 7 i, where 'a = nat] by auto
    ultimately show "bit (n AND 128) i \<longleftrightarrow> bit (0 :: nat) i" by (auto simp: bit_and_iff)
  qed
  then have "n + 128 = n OR 128" by (rule disjunctive_add_eq_or)
  then have o: "0x80 OR n = 128 + n" by (simp add: or.commute add.commute)
  have u: "unat (of_nat (128 + n) :: byte) = 128 + n"
    using assms by (simp add: unat_of_nat del: of_nat_add)
  have m: "(k :: nat) AND 127 = k mod 128" for k
    using take_bit_eq_mask [of 7 k] by (simp add: take_bit_eq_mod mask_eq_exp_minus_1)
  show "len_field (of_nat (0x80 OR n)) = n"
    unfolding len_field_def o u m using assms by simp
  have "(128 + n) div 128 = 1" using assms by (simp add: div_add_self1)
  then have "bit (128 + n) 7" by (simp add: bit_iff_odd)
  moreover have "bit (128 :: nat) 7" by (simp add: bit_iff_odd)
  ultimately have "bit ((128 + n) AND 128) 7" by (simp only: bit_and_iff)
  then show "masked_bit (of_nat (0x80 OR n))"
    unfolding masked_bit_def o u by (metis bit_0_eq bot_apply bot_bool_def)
qed

definition first_byte :: "bool \<Rightarrow> nat \<Rightarrow> nat" where
  "first_byte fin opcode = (if fin then 0x80 else 0) OR opcode"

lemma first_byte_read:
  assumes "opcode < 16"
  shows "first_byte fin opcode < 256"
    and "(unat (of_nat (first_byte fin opcode) :: byte) AND 0x80 \<noteq> 0) = fin"
    and "drop_bit 4 (unat (of_nat (first_byte fin opcode) :: byte)) AND 0x7 = 0"
    and "unat (of_nat (first_byte fin opcode) :: byte) AND 0x0F = opcode"
proof -
  have "list_all (\<lambda>opcode. list_all (\<lambda>fin. first_byte fin opcode < 256 \<and>
      (unat (of_nat (first_byte fin opcode) :: byte) AND 0x80 \<noteq> 0) = fin \<and>
      drop_bit 4 (unat (of_nat (first_byte fin opcode) :: byte)) AND 0x7 = 0 \<and>
      unat (of_nat (first_byte fin opcode) :: byte) AND 0x0F = opcode) [True, False]) [0..<16]"
    by code_simp
  then have "first_byte fin opcode < 256 \<and>
      (unat (of_nat (first_byte fin opcode) :: byte) AND 0x80 \<noteq> 0) = fin \<and>
      drop_bit 4 (unat (of_nat (first_byte fin opcode) :: byte)) AND 0x7 = 0 \<and>
      unat (of_nat (first_byte fin opcode) :: byte) AND 0x0F = opcode"
    unfolding list_all_iff set_upt using assms by (cases fin) simp_all
  then show "first_byte fin opcode < 256"
    "(unat (of_nat (first_byte fin opcode) :: byte) AND 0x80 \<noteq> 0) = fin"
    "drop_bit 4 (unat (of_nat (first_byte fin opcode) :: byte)) AND 0x7 = 0"
    "unat (of_nat (first_byte fin opcode) :: byte) AND 0x0F = opcode" by blast+
qed

text \<open>A frame's extended length, and the whole frame.\<close>

definition len_ext :: "nat \<Rightarrow> nat \<times> bytes" where
  "len_ext n = (if n < 126 then (n, []) else if n < 65536 then (126, to_be 2 (int n)) else (127, to_be 8 (int n)))"

lemma encode_frame_shape:
  "encode_frame opcode payload fin key = Some b \<longleftrightarrow>
     first_byte fin opcode < 256 \<and> length payload < 2 ^ 64 \<and>
     b = [of_nat (first_byte fin opcode), of_nat (0x80 OR fst (len_ext (length payload)))] @
       snd (len_ext (length payload)) @ key @ ws_mask payload key"
  by (auto simp: encode_frame_def len_ext_def first_byte_def Let_def)

lemma len_ext_head:
  assumes "n < 2 ^ 64" and s: "s = [b0, of_nat (0x80 OR fst (len_ext n))] @ snd (len_ext n) @ r"
  shows "payload_len s = n" and "head_size (s ! 1) = 6 + length (snd (len_ext n))"
proof -
  have small: "fst (len_ext n) < 128" by (simp add: len_ext_def)
  have l: "len_field (s ! 1) = fst (len_ext n)" and m: "masked_bit (s ! 1)"
    using second_byte [OF small] s by simp_all
  show "payload_len s = n"
    unfolding payload_len_def l Let_def using assms(1) s
    by (auto simp: len_ext_def from_be_to_be split: if_splits)
  show "head_size (s ! 1) = 6 + length (snd (len_ext n))"
    unfolding head_size_def l using m by (auto simp: len_ext_def)
qed

lemma parse_encoded:
  assumes "encode_frame opcode payload fin key = Some b" and "opcode < 16" and "length key = 4"
  shows "parse_frame (b @ rest) 0
    = Some (\<lparr>f_fin = fin, f_rsv = 0, f_opcode = opcode, f_masked = True, f_payload = payload\<rparr>, length b)"
proof -
  let ?n = "length payload" and ?b0 = "of_nat (first_byte fin opcode) :: byte"
  let ?ext = "snd (len_ext ?n)" and ?b1 = "of_nat (0x80 OR fst (len_ext ?n)) :: byte"
  have n: "?n < 2 ^ 64" and b: "b = [?b0, ?b1] @ ?ext @ key @ ws_mask payload key"
    using assms(1) unfolding encode_frame_shape by blast+
  let ?s = "b @ rest"
  have s: "?s = [?b0, ?b1] @ ?ext @ (key @ ws_mask payload key @ rest)" by (simp add: b)
  have lb: "length b = 6 + length ?ext + ?n" using assms(3) by (simp add: b)
  have s1: "?s ! 1 = ?b1" and s0: "?s ! 0 = ?b0" by (simp_all add: b)
  have h: "header_len ?s 0 = Some (6 + length ?ext, ?n)"
    using len_ext_head [OF n s] lb by (simp add: header_len_def)
  have m: "masked_bit ?b1" using second_byte [of "fst (len_ext ?n)"] by (simp add: len_ext_def)
  have k: "take 4 (drop (6 + length ?ext - 4) ?s) = key"
    using assms(3) by (simp add: b)
  have p: "take ?n (drop (6 + length ?ext) ?s) = ws_mask payload key"
  proof -
    have "?s = ([?b0, ?b1] @ ?ext @ key) @ ws_mask payload key @ rest" by (simp add: b)
    moreover have "length ([?b0, ?b1] @ ?ext @ key) = 6 + length ?ext" using assms(3) by simp
    ultimately show ?thesis using assms(3) by (metis append_eq_conv_conj length_ws_mask)
  qed
  have "frame_at ?s (6 + length ?ext) ?n
      = \<lparr>f_fin = fin, f_rsv = 0, f_opcode = opcode, f_masked = True, f_payload = payload\<rparr>"
    unfolding frame_at_def Let_def s1 s0 k p using first_byte_read [OF assms(2)] m mask_twice [OF assms(3)] by simp
  then show ?thesis using h lb by (simp add: parse_frame_def)
qed

section \<open>Frames in a stream\<close>

lemma parse_frame_drop: "parse_frame buf at = map_option (\<lambda>(f, e). (f, at + e)) (parse_frame (drop at buf) 0)"
  if "at \<le> length buf"
  using that by (auto simp: parse_frame_def header_len_def Let_def split: if_splits)

lemma parse_frames_cons:
  assumes "parse_frame buf 0 = Some (f, e)"
  shows "parse_frames buf = (f # fst (parse_frames (drop e buf)), e + snd (parse_frames (drop e buf)))"
proof -
  have shift: "parse_frames_from buf (k + j) = apsnd (\<lambda>e. k + e) (parse_frames_from (drop k buf) j)"
    if "k + j \<le> length buf" for k j
    using that
  proof (induction "drop k buf" j rule: parse_frames_from.induct)
    case (1 j)
    have d: "parse_frame buf (k + j) = map_option (\<lambda>(f, e). (f, k + e)) (parse_frame (drop k buf) j)"
      using parse_frame_drop [of "k + j" buf] parse_frame_drop [of j "drop k buf"] 1(2)
      by (simp add: option.map_comp o_def add.commute add.left_commute split_def)
    show ?case
    proof (cases "parse_frame (drop k buf) j")
      case None
      then show ?thesis
        using d by (subst (1 2) parse_frames_from.simps) simp
    next
      case (Some fe)
      obtain f e where fe: "fe = (f, e)" by fastforce
      have "k + e \<le> length buf" using parse_frame_bounds [OF Some [unfolded fe]] 1(2) by (simp, linarith)
      then have "parse_frames_from buf (k + e) = apsnd ((+) k) (parse_frames_from (drop k buf) e)"
        using 1(1) [OF Some [unfolded fe] refl] by simp
      then show ?thesis
        using d Some fe by (subst (1 2) parse_frames_from.simps) (simp add: split_def)
    qed
  qed
  have "e \<le> length buf" using parse_frame_bounds [OF assms] by simp
  then have "parse_frames_from buf e = apsnd ((+) e) (parse_frames_from (drop e buf) 0)"
    using shift [of e 0] by simp
  then show ?thesis
    unfolding parse_frames_def using assms by (subst parse_frames_from.simps) (simp add: split_def)
qed

definition client_frame :: "nat \<times> bytes \<times> bool \<Rightarrow> ws_frame" where
  "client_frame m = (case m of (opcode, payload, fin) \<Rightarrow>
     \<lparr>f_fin = fin, f_rsv = 0, f_opcode = opcode, f_masked = True, f_payload = payload\<rparr>)"

definition encodes :: "nat \<times> bytes \<times> bool \<Rightarrow> bytes \<Rightarrow> bool" where
  "encodes m b = (case m of (opcode, payload, fin) \<Rightarrow>
     opcode < 16 \<and> (\<exists>key. length key = 4 \<and> encode_frame opcode payload fin key = Some b))"

text \<open>
  Any sequence of frames the client encodes (any opcode, any payload of less than 2^64
  bytes, final or not, any keys), followed by the beginning of another, is parsed to
  exactly those frames, and to how many bytes they took.
\<close>

lemma frames_roundtrip:
  assumes "list_all2 encodes msgs bs" and "parse_frame rest 0 = None"
  shows "parse_frames (concat bs @ rest) = (map client_frame msgs, length (concat bs))"
  using assms(1)
proof (induction msgs bs rule: list_all2_induct)
  case Nil
  then show ?case using assms(2) by (simp add: parse_frames_def parse_frames_from.simps)
next
  case (Cons m msgs b bs)
  obtain opcode payload fin where m: "m = (opcode, payload, fin)" by (cases m)
  from Cons(1) m obtain key where "opcode < 16" "length key = 4" "encode_frame opcode payload fin key = Some b"
    by (auto simp: encodes_def)
  then have "parse_frame (b @ concat bs @ rest) 0 = Some (client_frame m, length b)"
    by (simp add: parse_encoded client_frame_def m)
  from parse_frames_cons [OF this] Cons.IH show ?case by simp
qed

lemma frames_roundtrip_witness:
  "\<exists>b. encode_frame 1 [104, 105] True [1, 2, 3, 4] = Some b \<and>
     parse_frames (b @ [0x81]) = ([client_frame (1, [104, 105], True)], 8)"
proof -
  obtain b where b: "encode_frame 1 [104, 105] True [1, 2, 3, 4] = Some b"
    and l: "length b = 8"
    by (simp add: encode_frame_def Let_def)
  have "encodes (1, [104, 105], True) b"
    unfolding encodes_def prod.case
    by (intro conjI exI [of _ "[1, 2, 3, 4]"] b) simp_all
  then have "list_all2 encodes [(1, [104, 105], True)] [b]" by simp
  from frames_roundtrip [OF this, of "[0x81]"] b l show ?thesis
    by (simp add: parse_frame_def header_len_def)
qed

section \<open>Reading does not depend on the cut\<close>

text \<open>A wire that is never closed and never times out: what arrives, in whatever pieces.\<close>

definition steady :: "ws_client \<Rightarrow> bool" where
  "steady c \<longleftrightarrow> (\<forall>t\<in>set (c_wire c). \<exists>b. snd t = Chunk b \<and> b \<noteq> [])"

lemma steady_cases:
  assumes "steady c"
  obtains "c_wire c = []" "unread c = c_buf c"
  | now b rest where "c_wire c = (now, Chunk b) # rest" "b \<noteq> []"
      "take_chunk c = (Inr True, c\<lparr>c_wire := rest, c_buf := c_buf c @ b\<rparr>)"
      "steady (c\<lparr>c_wire := rest, c_buf := c_buf c @ b\<rparr>)"
      "unread (c\<lparr>c_wire := rest, c_buf := c_buf c @ b\<rparr>) = unread c"
proof (cases "c_wire c")
  case Nil
  then show ?thesis by (intro that(1)) (simp_all add: unread_def)
next
  case (Cons t rest)
  then obtain now b where "t = (now, Chunk b)" "b \<noteq> []"
    using assms by (cases t) (auto simp: steady_def)
  then show ?thesis
    using Cons assms
    by (intro that(2) [of now b rest]) (auto simp: take_chunk_def sock_recv_def steady_def unread_def recv_bytes_def)
qed

lemma payload_len_prefix: "head_size (b ! 1) \<le> length b \<Longrightarrow> payload_len (b @ x) = payload_len b"
proof -
  assume h: "head_size (b ! 1) \<le> length b"
  then have "2 \<le> length b" using head_size_pos [of "b ! 1"] by linarith
  then have "(b @ x) ! 1 = b ! 1" by (simp add: nth_append)
  then show ?thesis using h unfolding payload_len_def Let_def
    by (auto simp: head_size_def split: if_splits)
qed

lemma parse_frame_prefix:
  assumes "parse_frame (b @ x) 0 = Some (f, e)"
  shows "parse_frame b 0 = (if e \<le> length b then Some (f, e) else None)"
proof (cases "2 \<le> length b \<and> head_size (b ! 1) \<le> length b")
  case True
  then have i: "(b @ x) ! 1 = b ! 1" "(b @ x) ! 0 = b ! 0" by (auto simp: nth_append)
  have n: "payload_len (b @ x) = payload_len b" using True payload_len_prefix by blast
  have e: "e = head_size (b ! 1) + payload_len b" and f: "f = frame_at (b @ x) (head_size (b ! 1)) (payload_len b)"
    using assms True i n by (auto simp: parse_frame_def header_len_def split: if_splits)
  have "frame_at (b @ x) (head_size (b ! 1)) (payload_len b) = frame_at b (head_size (b ! 1)) (payload_len b)"
    if "head_size (b ! 1) + payload_len b \<le> length b"
  proof -
    have k: "masked_bit (b ! 1) \<Longrightarrow> 4 \<le> head_size (b ! 1)" by (simp add: head_size_def)
    have "take (payload_len b) (drop (head_size (b ! 1)) (b @ x)) = take (payload_len b) (drop (head_size (b ! 1)) b)"
      using that True by simp
    moreover have "masked_bit (b ! 1) \<Longrightarrow>
        take 4 (drop (head_size (b ! 1) - 4) (b @ x)) = take 4 (drop (head_size (b ! 1) - 4) b)"
      using True k by simp
    ultimately show ?thesis unfolding frame_at_def Let_def i by (simp only: cong: if_cong)
  qed
  then show ?thesis using e f True by (auto simp: parse_frame_def header_len_def)
next
  case False
  then have none: "parse_frame b 0 = None" by (auto simp: parse_frame_def header_len_def Let_def)
  have "\<not> e \<le> length b"
  proof
    assume "e \<le> length b"
    moreover have "head_size ((b @ x) ! 1) \<le> e"
      using assms by (auto simp: parse_frame_def header_len_def Let_def split: if_splits)
    ultimately have "head_size ((b @ x) ! 1) \<le> length b" by simp
    moreover from this have "2 \<le> length b" using head_size_pos [of "(b @ x) ! 1"] by linarith
    ultimately show False using False by (simp add: nth_append)
  qed
  then show ?thesis using none by simp
qed

lemma recv_frame_loop_step:
  assumes "parse_frame (unread c) 0 = Some (f, e)" and "\<not> f_masked f" and "steady c"
  shows "\<exists>d. recv_frame_loop None eof_ok c = (Inr (f_opcode f, f_payload f), d) \<and> unread d = drop e (unread c) \<and> steady d"
  using assms
proof (induction "length (c_wire c)" arbitrary: c rule: less_induct)
  case less
  have u: "unread c = c_buf c @ concat (map (\<lambda>(_, r). recv_bytes r) (c_wire c))" by (simp add: unread_def)
  have m: "\<not> masked_bit (unread c ! 1)"
    using less.prems by (auto simp: parse_frame_def frame_at_def Let_def split: option.splits if_splits)
  have nm: "\<not> server_masks (c_buf c)"
    using m unfolding u by (auto simp: server_masks_def nth_append)
  note p = parse_frame_prefix [OF less.prems(1) [unfolded u]]
  show ?case
  proof (cases "e \<le> length (c_buf c)")
    case True
    then show ?thesis
      using nm p less.prems(3) by (subst recv_frame_loop.simps) (auto simp: unread_def steady_def)
  next
    case False
    show ?thesis
    proof (cases rule: steady_cases [OF less.prems(3)])
      case 1
      then show ?thesis using less.prems(1) p False by simp
    next
      case (2 now b rest)
      let ?d = "c\<lparr>c_wire := rest, c_buf := c_buf c @ b\<rparr>"
      have "recv_frame_loop None eof_ok c = recv_frame_loop None eof_ok ?d"
        using nm p False 2(3) by (subst recv_frame_loop.simps) (simp add: ws_fill_def)
      then show ?thesis
        using less.hyps [of ?d] less.prems 2 by simp
    qed
  qed
qed

lemma cut_at_here: "cut_at sep (sep @ t) = Some ([], t)"
proof (cases "sep @ t")
  case (Cons y ys)
  then have "cut_at sep (y # ys) = Some ([], drop (length sep) (y # ys))"
    using starts_with_append [of sep t] by simp
  then show ?thesis unfolding Cons [symmetric] by simp
qed simp

lemma cut_at_prefix: "cut_at sep b = Some (h, r) \<Longrightarrow> cut_at sep (b @ x) = Some (h, r @ x)"
proof (induction b arbitrary: h)
  case Nil
  then show ?case by (cases x) (auto simp: starts_with_def split: if_splits)
next
  case (Cons y ys)
  show ?case
  proof (cases "starts_with sep (y # ys)")
    case True
    then obtain t where t: "y # ys = sep @ t" by (auto simp: starts_with_iff)
    then have r: "h = []" "r = t" using Cons.prems by (simp_all only: t cut_at_here) auto
    have "(y # ys) @ x = sep @ (t @ x)" using t by simp
    then show ?thesis using r by (simp only: cut_at_here)
  next
    case False
    then obtain h' where h': "cut_at sep ys = Some (h', r)" "h = y # h'"
      using Cons.prems by (auto split: option.splits)
    have "length sep \<le> length ys" using cut_at_join [OF h'(1)] by simp
    then have "\<not> starts_with sep (y # ys @ x)" using False by (auto simp: starts_with_def take_Cons' split: if_splits)
    then show ?thesis using Cons.IH [OF h'(1)] h'(2) False by simp
  qed
qed

lemma read_head_step:
  assumes "cut_at (CRLF @ CRLF) (unread c) = Some (head, body)" and "steady c"
  shows "\<exists>line d. read_head c = (Inr (Some line), d) \<and> c_head d = Some head \<and> unread d = body \<and> steady d"
  using assms
proof (induction "length (c_wire c)" arbitrary: c rule: less_induct)
  case less
  show ?case
  proof (cases "cut_at (CRLF @ CRLF) (c_buf c)")
    case (Some hr)
    obtain h r where hr: "hr = (h, r)" by fastforce
    from cut_at_prefix [OF Some [unfolded hr]] less.prems(1)
    have "h = head" "body = r @ concat (map (\<lambda>(_, r). recv_bytes r) (c_wire c))"
      by (auto simp: unread_def)
    then show ?thesis
      using Some hr less.prems(2) by (subst read_head.simps) (auto simp: unread_def steady_def)
  next
    case None
    show ?thesis
    proof (cases rule: steady_cases [OF less.prems(2)])
      case 1
      then show ?thesis using less.prems(1) None by simp
    next
      case (2 now b rest)
      let ?d = "c\<lparr>c_wire := rest, c_buf := c_buf c @ b\<rparr>"
      have "read_head c = read_head ?d"
        using None 2(3) by (subst read_head.simps) simp
      then show ?thesis
        using less.hyps [of ?d] less.prems 2 by simp
    qed
  qed
qed

text \<open>The next \<open>n\<close> frames.\<close>

primrec recv_frames :: "nat \<Rightarrow> ws_client \<Rightarrow> (ws_stop + (nat \<times> bytes) list) \<times> ws_client" where
  "recv_frames 0 c = (Inr [], c)"
| "recv_frames (Suc n) c =
     (case recv_frame None False c of
        (Inl stop, d) \<Rightarrow> (Inl stop, d)
      | (Inr m, d) \<Rightarrow> apfst (map_sum id (\<lambda>ms. m # ms)) (recv_frames n d))"

lemma recv_frames_parse:
  assumes "steady c" and "parse_frames (unread c) = (fs, k)" and "\<forall>f\<in>set fs. \<not> f_masked f"
  shows "\<exists>d. recv_frames (length fs) c = (Inr (map (\<lambda>f. (f_opcode f, f_payload f)) fs), d) \<and>
    unread d = drop k (unread c) \<and> steady d"
  using assms
proof (induction fs arbitrary: c k)
  case Nil
  then have "k = 0"
    by (auto simp: parse_frames_def parse_frames_from.simps [of _ 0] apfst_def map_prod_def
        split: option.splits prod.splits)
  then show ?case using Nil by simp
next
  case (Cons f fs)
  obtain e where p: "parse_frame (unread c) 0 = Some (f, e)"
    and rest: "parse_frames (drop e (unread c)) = (fs, k - e)" and k: "e \<le> k"
  proof (cases "parse_frame (unread c) 0")
    case None
    then show ?thesis using Cons.prems(2) by (simp add: parse_frames_def parse_frames_from.simps)
  next
    case (Some fe)
    obtain g e where "fe = (g, e)" by fastforce
    with Some parse_frames_cons [of "unread c" g e] Cons.prems(2) show ?thesis
      by (intro that [of e]) (auto intro!: prod_eqI)
  qed
  obtain d where d: "recv_frame_loop None False c = (Inr (f_opcode f, f_payload f), d)"
    "unread d = drop e (unread c)" "steady d"
    using recv_frame_loop_step [OF p _ Cons.prems(1)] Cons.prems(3) by auto
  obtain d' where "recv_frames (length fs) d = (Inr (map (\<lambda>f. (f_opcode f, f_payload f)) fs), d')"
    "unread d' = drop (k - e) (unread d)" "steady d'"
    using Cons.IH [OF d(3), of "k - e"] rest Cons.prems(3) d(2) by auto
  then show ?case using d k by (auto simp: recv_frame_def)
qed

text \<open>
  C27. No byte is lost between the handshake and the frames. However the kernel cuts the
  server's bytes (the head and the first frames in one piece, a frame across many), reading
  the head and then as many frames as there are gives the frames of the whole stream, and
  what is left to read is the rest of it.
\<close>

theorem frames_survive_any_cut:
  assumes "steady c" and "cut_at (CRLF @ CRLF) (unread c) = Some (head, body)"
    and "parse_frames body = (fs, k)" and "\<forall>f\<in>set fs. \<not> f_masked f"
    and "read_head c = (line, d)"
  shows "\<exists>e. recv_frames (length fs) d = (Inr (map (\<lambda>f. (f_opcode f, f_payload f)) fs), e) \<and>
    unread e = drop k body"
proof -
  have "unread d = body" "steady d" using read_head_step [OF assms(2,1)] assms(5) by auto
  then show ?thesis using recv_frames_parse [of d fs k] assms(3,4) by auto
qed

definition coalesced :: ws_client where
  "coalesced = \<lparr>c_buf = [], c_wire = [(0, Chunk [72, 13, 10, 13]), (0, Chunk [10, 0x81, 2, 104]), (0, Chunk [105, 0x81])],
     c_timeout = None, c_sent = [], c_keys = (\<lambda>_. [1, 2, 3, 4]), c_head = None\<rparr>"

theorem frames_survive_any_cut_witness:
  "\<exists>d e. snd (read_head coalesced) = d \<and> recv_frames 1 d = (Inr [(1, [104, 105])], e) \<and> unread e = [0x81]"
proof -
  obtain line d where h: "read_head coalesced = (line, d)" by fastforce
  have u: "unread coalesced = [72, 13, 10, 13, 10, 0x81, 2, 104, 105, 0x81]" and st: "steady coalesced"
    by (simp_all add: coalesced_def unread_def steady_def recv_bytes_def)
  have c: "cut_at (CRLF @ CRLF) (unread coalesced) = Some ([72], [0x81, 2, 104, 105, 0x81])"
    unfolding u by (simp add: CRLF_def starts_with_def)
  let ?f = "\<lparr>f_fin = True, f_rsv = 0, f_opcode = 1, f_masked = False, f_payload = [104, 105]\<rparr>"
  have "parse_frame [0x81, 2, 104, 105, 0x81] 0 = Some (?f, 4)"
    by (simp add: parse_frame_def header_len_def head_size_def payload_len_def len_field_def masked_bit_def frame_at_def)
  moreover have "parse_frames [0x81 :: byte] = ([], 0)"
    by (simp add: parse_frames_def parse_frames_from.simps parse_frame_def header_len_def)
  ultimately have p: "parse_frames [0x81, 2, 104, 105, 0x81] = ([?f], 4)"
    using parse_frames_cons [of "[0x81, 2, 104, 105, 0x81]" ?f 4] by simp
  show ?thesis using frames_survive_any_cut [OF st c p _ h] h by simp
qed

end
