(* ===== verification/Demo_Limits.thy ===== *)
theory Demo_Limits
  imports Complex_Main Base
begin

text \<open>
  The rate limiter of the demo (apps/demo/demoapp.py): a deque of stamps per visitor, pruned
  on every touch, with the table swept now and then; and the notice that is sent once per
  window. It is held to a sliding window over the whole history, in which nothing is ever
  forgotten. Clock readings are rational numbers of seconds.
\<close>

definition RATE_LIMIT :: nat where "RATE_LIMIT = 30"
definition RATE_WINDOW_S :: rat where "RATE_WINDOW_S = 60"

section \<open>The limiter\<close>

record 'k limiter =
  l_rate :: "'k \<rightharpoonup> rat list"
  l_touches :: nat
  l_notified :: "'k \<rightharpoonup> rat"

definition limiter_start :: "'k limiter" where
  "limiter_start = \<lparr>l_rate = Map.empty, l_touches = 0, l_notified = Map.empty\<rparr>"

definition sweep :: "rat \<Rightarrow> 'k limiter \<Rightarrow> 'k limiter" where
  "sweep now s =
     s\<lparr>l_rate := (\<lambda>k. case l_rate s k of
          None \<Rightarrow> None
        | Some v \<Rightarrow> if v = [] \<or> now - last v > RATE_WINDOW_S then None else Some v),
       l_notified := (\<lambda>k. case l_notified s k of
          None \<Rightarrow> None
        | Some v \<Rightarrow> if now - v > RATE_WINDOW_S then None else Some v)\<rparr>"

definition touch :: "rat \<Rightarrow> 'k limiter \<Rightarrow> 'k limiter" where
  "touch now s =
     (let s1 = s\<lparr>l_touches := l_touches s + 1\<rparr>
      in if l_touches s1 mod 256 = 0 then sweep now s1 else s1)"

text \<open>\<open>int(x)\<close>: towards zero.\<close>

definition trunc_rat :: "rat \<Rightarrow> int" where
  "trunc_rat x = (if 0 \<le> x then \<lfloor>x\<rfloor> else \<lceil>x\<rceil>)"

definition retry_after :: "rat \<Rightarrow> rat \<Rightarrow> int" where
  "retry_after now oldest = max 1 (trunc_rat (RATE_WINDOW_S - (now - oldest)) + 1)"

definition pruned :: "rat \<Rightarrow> rat list \<Rightarrow> rat list" where
  "pruned now stamps = dropWhile (\<lambda>t. now - t > RATE_WINDOW_S) stamps"

definition over_limit :: "'k \<Rightarrow> rat \<Rightarrow> 'k limiter \<Rightarrow> (bool \<times> int) \<times> 'k limiter" where
  "over_limit token now s =
     (let s1 = touch now s;
          stamps = pruned now (getd (l_rate s1) token [])
      in if RATE_LIMIT \<le> length stamps
         then ((True, retry_after now (hd stamps)), s1\<lparr>l_rate := (l_rate s1)(token \<mapsto> stamps)\<rparr>)
         else ((False, 0), s1\<lparr>l_rate := (l_rate s1)(token \<mapsto> stamps @ [now])\<rparr>))"

definition notice_due :: "'k \<Rightarrow> rat \<Rightarrow> 'k limiter \<Rightarrow> bool \<times> 'k limiter" where
  "notice_due token now s =
     (case l_notified s token of
        Some was \<Rightarrow>
          if now - was < RATE_WINDOW_S then (False, s)
          else (True, s\<lparr>l_notified := (l_notified s)(token \<mapsto> now)\<rparr>)
      | None \<Rightarrow> (True, s\<lparr>l_notified := (l_notified s)(token \<mapsto> now)\<rparr>))"

text \<open>A run: who asks for what, and when; what each call answers.\<close>

datatype 'k ask = AskPublish 'k | AskNotice 'k

definition ask_step :: "'k ask \<Rightarrow> rat \<Rightarrow> 'k limiter \<Rightarrow> bool \<times> 'k limiter" where
  "ask_step a now s =
     (case a of
        AskPublish token \<Rightarrow> (case over_limit token now s of ((over, _), t) \<Rightarrow> (\<not> over, t))
      | AskNotice token \<Rightarrow> notice_due token now s)"

fun run_asks :: "('k ask \<times> rat) list \<Rightarrow> 'k limiter \<Rightarrow> bool list \<times> 'k limiter" where
  "run_asks [] s = ([], s)"
| "run_asks ((a, now) # asks) s =
     (case ask_step a now s of (r, t) \<Rightarrow> apfst (\<lambda>rs. r # rs) (run_asks asks t))"

section \<open>The reference: everything is remembered\<close>

text \<open>What was granted so far, newest last: to whom, when.\<close>

type_synonym 'k grants = "('k ask \<times> rat) list"

definition in_window :: "'k ask \<Rightarrow> rat \<Rightarrow> 'k grants \<Rightarrow> rat list" where
  "in_window a now h = map snd (filter (\<lambda>(b, t). b = a \<and> now - t \<le> RATE_WINDOW_S) h)"

definition ref_grants :: "'k ask \<Rightarrow> rat \<Rightarrow> 'k grants \<Rightarrow> bool" where
  "ref_grants a now h =
     (case a of
        AskPublish _ \<Rightarrow> length (in_window a now h) < RATE_LIMIT
      | AskNotice _ \<Rightarrow> \<not> list_ex (\<lambda>(b, t). b = a \<and> now - t < RATE_WINDOW_S) h)"

fun run_ref :: "('k ask \<times> rat) list \<Rightarrow> 'k grants \<Rightarrow> bool list \<times> 'k grants" where
  "run_ref [] h = ([], h)"
| "run_ref ((a, now) # asks) h =
     (let r = ref_grants a now h
      in apfst (\<lambda>rs. r # rs) (run_ref asks (if r then h @ [(a, now)] else h)))"

section \<open>Forgetting is invisible\<close>

text \<open>
  The relation between the table and the history, as of a moment: whatever is asked from
  then on, the table's stamps in the window are the history's.
\<close>

definition stamps_of :: "'k limiter \<Rightarrow> 'k \<Rightarrow> rat list" where
  "stamps_of s k = getd (l_rate s) k []"

definition faithful :: "rat \<Rightarrow> 'k limiter \<Rightarrow> 'k grants \<Rightarrow> bool" where
  "faithful now s h \<longleftrightarrow>
     (\<forall>k. sorted (stamps_of s k) \<and> (\<forall>t\<in>set (stamps_of s k). t \<le> now) \<and>
        (\<forall>u\<ge>now. filter (\<lambda>t. u - t \<le> RATE_WINDOW_S) (stamps_of s k) = in_window (AskPublish k) u h)) \<and>
     (\<forall>k. \<forall>u\<ge>now.
        (\<exists>was. l_notified s k = Some was \<and> u - was < RATE_WINDOW_S)
          \<longleftrightarrow> (\<exists>t. (AskNotice k, t) \<in> set h \<and> u - t < RATE_WINDOW_S)) \<and>
     (\<forall>k was. l_notified s k = Some was \<longrightarrow> was \<le> now)"

lemma faithful_start: "faithful now limiter_start []"
  by (simp add: faithful_def limiter_start_def stamps_of_def in_window_def)

lemma faithful_later: "faithful now s h \<Longrightarrow> now \<le> now' \<Longrightarrow> faithful now' s h"
  unfolding faithful_def by (meson order_trans)

lemma pruned_filter: "sorted xs \<Longrightarrow> pruned u xs = filter (\<lambda>t. u - t \<le> RATE_WINDOW_S) xs"
proof (induction xs)
  case (Cons x xs)
  then show ?case
  proof (cases "u - x > RATE_WINDOW_S")
    case False
    then have "\<forall>t\<in>set (x # xs). u - t \<le> RATE_WINDOW_S" using Cons.prems by fastforce
    then show ?thesis using False by (simp add: pruned_def)
  qed (use Cons in \<open>simp add: pruned_def\<close>)
qed (simp add: pruned_def)

lemma stamps_sweep:
  "stamps_of (sweep now s) k =
    (if stamps_of s k \<noteq> [] \<and> now - last (stamps_of s k) > RATE_WINDOW_S then [] else stamps_of s k)"
  by (simp add: stamps_of_def sweep_def getd_def split: option.split)

lemma notified_sweep:
  "now \<le> u \<Longrightarrow> (\<exists>was. l_notified (sweep now s) k = Some was \<and> u - was < RATE_WINDOW_S)
    \<longleftrightarrow> (\<exists>was. l_notified s k = Some was \<and> u - was < RATE_WINDOW_S)"
  by (auto simp: sweep_def split: option.split)

lemma faithful_sweep:
  assumes "faithful now s h"
  shows "faithful now (sweep now s) h"
proof -
  have gone: "filter (\<lambda>t. u - t \<le> RATE_WINDOW_S) xs = []"
    if "sorted xs" "xs \<noteq> []" "now - last xs > RATE_WINDOW_S" "now \<le> u" for u xs
  proof -
    have "t \<le> last xs" if "t \<in> set xs" for t
      using that \<open>sorted xs\<close> \<open>xs \<noteq> []\<close> by (induction xs) auto
    then show ?thesis using that by (fastforce simp: filter_empty_conv)
  qed
  have "sorted (stamps_of (sweep now s) k) \<and> (\<forall>t\<in>set (stamps_of (sweep now s) k). t \<le> now) \<and>
      (\<forall>u\<ge>now. filter (\<lambda>t. u - t \<le> RATE_WINDOW_S) (stamps_of (sweep now s) k) = in_window (AskPublish k) u h)" for k
    using assms gone [of "stamps_of s k"] unfolding stamps_sweep faithful_def by simp
  moreover have "l_notified (sweep now s) k = Some was \<Longrightarrow> was \<le> now" for k was
    using assms by (auto simp: sweep_def faithful_def split: option.splits if_splits)
  ultimately show ?thesis using assms unfolding faithful_def by (simp add: notified_sweep)
qed

lemma faithful_touch: "faithful now s h \<Longrightarrow> faithful now (touch now s) h"
  using faithful_sweep [of now "s\<lparr>l_touches := l_touches s + 1\<rparr>" h]
  by (simp add: touch_def Let_def faithful_def stamps_of_def)

lemma in_window_snoc:
  "in_window a u (h @ [(b, t)]) = in_window a u h @ (if b = a \<and> u - t \<le> RATE_WINDOW_S then [t] else [])"
  by (simp add: in_window_def)

text \<open>One call on both sides.\<close>

lemma pruned_again: "u \<le> v \<Longrightarrow> filter (\<lambda>t. v - t \<le> RATE_WINDOW_S) (filter (\<lambda>t. u - t \<le> RATE_WINDOW_S) xs)
    = filter (\<lambda>t. v - t \<le> RATE_WINDOW_S) xs"
  by (simp add: filter_filter) (rule filter_cong, auto)

lemma over_limit_faithful:
  assumes "faithful now s h"
  shows "case over_limit token now s of ((over, _), t) \<Rightarrow>
    (\<not> over) = ref_grants (AskPublish token) now h \<and>
    faithful now t (if over then h else h @ [(AskPublish token, now)])"
proof -
  let ?s = "touch now s"
  let ?p = "pruned now (getd (l_rate ?s) token [])"
  have f: "faithful now ?s h" using faithful_touch [OF assms] .
  have srt: "sorted (stamps_of ?s token)" and le: "\<forall>t\<in>set (stamps_of ?s token). t \<le> now"
    using f unfolding faithful_def by blast+
  have p: "?p = filter (\<lambda>t. now - t \<le> RATE_WINDOW_S) (stamps_of ?s token)"
    using pruned_filter [OF srt] by (simp add: stamps_of_def)
  have w: "?p = in_window (AskPublish token) now h"
    unfolding p using f unfolding faithful_def by blast
  have later: "filter (\<lambda>t. u - t \<le> RATE_WINDOW_S) ?p = in_window (AskPublish token) u h" if "now \<le> u" for u
    unfolding p pruned_again [OF that] using f that unfolding faithful_def by blast
  have sp: "sorted ?p" "\<forall>t\<in>set ?p. t \<le> now"
    using srt le unfolding p by (auto intro: sorted_filter [of id, simplified])
  have stamps: "stamps_of (?s\<lparr>l_rate := (l_rate ?s)(token \<mapsto> v)\<rparr>) k = (if k = token then v else stamps_of ?s k)" for v k
    by (simp add: stamps_of_def getd_def)
  show ?thesis
  proof (cases "RATE_LIMIT \<le> length ?p")
    case True
    have "faithful now (?s\<lparr>l_rate := (l_rate ?s)(token \<mapsto> ?p)\<rparr>) h"
      using f sp later unfolding faithful_def stamps by simp
    then show ?thesis using True w by (simp add: over_limit_def Let_def ref_grants_def)
  next
    case False
    have "sorted (?p @ [now])" using sp by (simp add: sorted_append)
    moreover have "filter (\<lambda>t. u - t \<le> RATE_WINDOW_S) (?p @ [now]) = in_window (AskPublish token) u (h @ [(AskPublish token, now)])"
      if "now \<le> u" for u using later [OF that] by (simp add: in_window_snoc)
    ultimately have "faithful now (?s\<lparr>l_rate := (l_rate ?s)(token \<mapsto> ?p @ [now])\<rparr>) (h @ [(AskPublish token, now)])"
      using f sp unfolding faithful_def stamps by (simp add: in_window_snoc)
    then show ?thesis using False w by (simp add: over_limit_def Let_def ref_grants_def)
  qed
qed

lemma notice_due_faithful:
  assumes "faithful now s h"
  shows "case notice_due token now s of (due, t) \<Rightarrow>
    due = ref_grants (AskNotice token) now h \<and>
    faithful now t (if due then h @ [(AskNotice token, now)] else h)"
proof -
  have iff: "(\<exists>was. l_notified s token = Some was \<and> now - was < RATE_WINDOW_S)
      \<longleftrightarrow> (\<exists>t. (AskNotice token, t) \<in> set h \<and> now - t < RATE_WINDOW_S)"
    using assms unfolding faithful_def by blast
  have ref: "ref_grants (AskNotice token) now h \<longleftrightarrow> \<not> (\<exists>t. (AskNotice token, t) \<in> set h \<and> now - t < RATE_WINDOW_S)"
    by (auto simp: ref_grants_def list_ex_iff)
  have due: "fst (notice_due token now s) \<longleftrightarrow> \<not> (\<exists>was. l_notified s token = Some was \<and> now - was < RATE_WINDOW_S)"
    by (auto simp: notice_due_def split: option.split)
  let ?s = "s\<lparr>l_notified := (l_notified s)(token \<mapsto> now)\<rparr>" and ?h = "h @ [(AskNotice token, now)]"
  have upd: "faithful now ?s ?h" if "fst (notice_due token now s)"
  proof -
    have old: "\<not> u - t < RATE_WINDOW_S" if "(AskNotice token, t) \<in> set h" "now \<le> u" for u t
      using that \<open>fst (notice_due token now s)\<close> due iff by fastforce
    have st: "stamps_of ?s k = stamps_of s k" for k by (simp add: stamps_of_def)
    show ?thesis
      using assms old unfolding faithful_def st in_window_snoc by (auto split: if_splits)
  qed
  show ?thesis
  proof (cases "fst (notice_due token now s)")
    case True
    then have "snd (notice_due token now s) = ?s" by (auto simp: notice_due_def split: option.splits if_splits)
    then show ?thesis using True upd due ref iff by (cases "notice_due token now s") auto
  next
    case False
    then have "snd (notice_due token now s) = s" by (auto simp: notice_due_def split: option.splits if_splits)
    then show ?thesis using False assms due ref iff by (cases "notice_due token now s") auto
  qed
qed

lemma ask_faithful:
  assumes "faithful now s h"
  shows "case ask_step a now s of (r, t) \<Rightarrow>
    r = ref_grants a now h \<and> faithful now t (if r then h @ [(a, now)] else h)"
proof (cases a)
  case (AskPublish token)
  obtain over after t where o: "over_limit token now s = ((over, after), t)" by (metis surj_pair)
  show ?thesis using over_limit_faithful [OF assms, of token] by (cases over) (simp_all add: AskPublish ask_step_def o)
next
  case (AskNotice token)
  show ?thesis using notice_due_faithful [OF assms, of token] unfolding AskNotice ask_step_def by simp
qed

lemma run_faithful:
  assumes "faithful start s h" and "sorted (map snd asks)" and "\<forall>t\<in>set (map snd asks). start \<le> t"
  shows "fst (run_asks asks s) = fst (run_ref asks h)"
  using assms
proof (induction asks arbitrary: start s h)
  case (Cons an asks)
  obtain a now where an: "an = (a, now)" by fastforce
  have f: "faithful now s h" using faithful_later Cons.prems an by auto
  obtain r t where st: "ask_step a now s = (r, t)" by fastforce
  from ask_faithful [OF f, of a] st
  have r: "r = ref_grants a now h" and ft: "faithful now t (if r then h @ [(a, now)] else h)" by auto
  have "fst (run_asks asks t) = fst (run_ref asks (if r then h @ [(a, now)] else h))"
    by (rule Cons.IH [OF ft]) (use Cons.prems an in auto)
  then show ?case using an st r by (simp add: Let_def)
qed simp

text \<open>
  C28. The limiter forgets without anyone noticing. For every sequence of publishes and
  notices by any visitors at times that do not go back, each answer is that of the sliding
  window that remembers everything: a publish is let through exactly when fewer than 30 of
  that visitor's were in the last 60 seconds, a notice when none was.
\<close>

theorem limiter_is_sliding_window:
  assumes "sorted (map snd asks)"
  shows "fst (run_asks asks limiter_start) = fst (run_ref asks [])"
proof (cases asks)
  case (Cons an rest)
  then show ?thesis
    using run_faithful [OF faithful_start [of "snd an"], of asks] assms by auto
qed simp

theorem limiter_is_sliding_window_witness:
  "fst (run_asks [(AskPublish (0 :: nat), 1), (AskNotice 0, 2), (AskNotice 0, 61), (AskNotice 0, 62)] limiter_start)
    = [True, True, False, True]"
  using limiter_is_sliding_window [of "[(AskPublish (0 :: nat), 1), (AskNotice 0, 2), (AskNotice 0, 61), (AskNotice 0, 62)]"]
  by (simp add: ref_grants_def in_window_def RATE_LIMIT_def RATE_WINDOW_S_def)

section \<open>The bound, and the promise of \<open>Retry-After\<close>\<close>

definition granted :: "('k ask \<times> rat) list \<Rightarrow> bool list \<Rightarrow> 'k grants" where
  "granted asks rs = map fst (filter snd (zip asks rs))"

definition between :: "'k ask \<Rightarrow> rat \<Rightarrow> 'k grants \<Rightarrow> 'k grants" where
  "between a t h = filter (\<lambda>(b, u). b = a \<and> t - RATE_WINDOW_S \<le> u \<and> u \<le> t) h"

lemma run_ref_granted: "snd (run_ref asks h) = h @ granted asks (fst (run_ref asks h))"
  by (induction asks h rule: run_ref.induct) (auto simp: Let_def granted_def)

lemma between_in_window:
  "\<forall>(b, u)\<in>set h. u \<le> now \<Longrightarrow> now \<le> t \<Longrightarrow> length (between a t h) \<le> length (in_window a now h)"
proof (induction h)
  case (Cons bu h)
  then show ?case by (cases bu) (auto simp: between_def in_window_def)
qed (simp add: between_def)

lemma run_ref_bound:
  assumes "sorted (map snd asks)" and "\<forall>(b, u)\<in>set h. \<forall>t\<in>set (map snd asks). u \<le> t"
    and "\<forall>t. length (between (AskPublish k) t h) \<le> RATE_LIMIT"
  shows "length (between (AskPublish k) t (snd (run_ref asks h))) \<le> RATE_LIMIT"
  using assms
proof (induction asks arbitrary: h)
  case (Cons an asks)
  obtain a now where an: "an = (a, now)" by fastforce
  let ?h = "if ref_grants a now h then h @ [(a, now)] else h"
  have "length (between (AskPublish k) t ?h) \<le> RATE_LIMIT" for t
  proof (cases "a = AskPublish k \<and> ref_grants a now h \<and> t - RATE_WINDOW_S \<le> now \<and> now \<le> t")
    case True
    then have "length (between (AskPublish k) t h) \<le> length (in_window (AskPublish k) now h)"
      using between_in_window [of h now t] Cons.prems(2) an by fastforce
    also have "\<dots> < RATE_LIMIT" using True by (auto simp: ref_grants_def)
    finally show ?thesis using True by (simp add: between_def)
  next
    case False
    then have "between (AskPublish k) t ?h = between (AskPublish k) t h" by (auto simp: between_def)
    then show ?thesis using Cons.prems(3) by simp
  qed
  moreover have "\<forall>(b, u)\<in>set ?h. \<forall>t\<in>set (map snd asks). u \<le> t"
    using Cons.prems(1,2) an by (auto simp: case_prod_beta)
  ultimately show ?case using Cons.IH [of ?h] Cons.prems(1) an by (simp add: Let_def)
qed simp

text \<open>
  No visitor exceeds the rate: of the publishes of one visitor that are let through, in
  whatever run, at most 30 lie in any stretch of 60 seconds.
\<close>

lemma rate_is_bounded:
  assumes "sorted (map snd asks)"
  shows "length (between (AskPublish k) t (granted asks (fst (run_asks asks limiter_start)))) \<le> RATE_LIMIT"
proof -
  have "length (between (AskPublish k) t (snd (run_ref asks []))) \<le> RATE_LIMIT"
    by (rule run_ref_bound) (use assms in \<open>simp_all add: between_def\<close>)
  moreover have "fst (run_asks asks limiter_start) = fst (run_ref asks [])"
    by (rule run_faithful [of "if asks = [] then 0 else snd (hd asks)"])
      (use assms in \<open>simp_all add: faithful_start\<close>, cases asks, auto)
  ultimately show ?thesis by (simp add: run_ref_granted)
qed

lemma rate_is_bounded_witness:
  "length (between (AskPublish 0) 40 (granted (replicate 31 (AskPublish (0 :: nat), 1)) (fst (run_asks (replicate 31 (AskPublish (0 :: nat), 1)) limiter_start)))) \<le> RATE_LIMIT"
  by (rule rate_is_bounded) simp

lemma dropWhile_length: "length (pruned now xs) \<le> length xs"
  by (simp add: pruned_def length_dropWhile_le)

lemma touch_bounded:
  "\<forall>k. length (stamps_of s k) \<le> RATE_LIMIT \<Longrightarrow> length (stamps_of (touch now s) k) \<le> RATE_LIMIT"
  using stamps_sweep [of now "s\<lparr>l_touches := l_touches s + 1\<rparr>" k]
  by (auto simp: touch_def Let_def stamps_of_def)

lemma stamps_over_limit:
  "stamps_of (snd (over_limit token now s)) k =
    (if k = token
     then (if RATE_LIMIT \<le> length (pruned now (stamps_of (touch now s) token))
           then pruned now (stamps_of (touch now s) token)
           else pruned now (stamps_of (touch now s) token) @ [now])
     else stamps_of (touch now s) k)"
  by (simp add: over_limit_def Let_def stamps_of_def getd_def)

lemma stamps_bounded:
  assumes "\<forall>k. length (stamps_of s k) \<le> RATE_LIMIT"
  shows "length (stamps_of (snd (run_asks asks s)) k) \<le> RATE_LIMIT"
  using assms
proof (induction asks arbitrary: s)
  case (Cons an asks)
  obtain a now where an: "an = (a, now)" by fastforce
  have "length (stamps_of (snd (ask_step a now s)) j) \<le> RATE_LIMIT" for j
  proof (cases a)
    case (AskPublish token)
    have "length (pruned now (stamps_of (touch now s) token)) \<le> RATE_LIMIT"
      using touch_bounded [OF Cons.prems] dropWhile_length order_trans by blast
    moreover have "stamps_of (snd (ask_step a now s)) j = stamps_of (snd (over_limit token now s)) j"
      by (simp add: AskPublish ask_step_def split: prod.split)
    ultimately show ?thesis using touch_bounded [OF Cons.prems, of now j] by (simp add: stamps_over_limit)
  next
    case (AskNotice token)
    then have "stamps_of (snd (ask_step a now s)) j = stamps_of s j"
      by (simp add: ask_step_def notice_due_def stamps_of_def split: option.split)
    then show ?thesis using Cons.prems by simp
  qed
  then show ?case using Cons.IH [of "snd (ask_step a now s)"] an by (cases "ask_step a now s") simp
qed simp

lemma retry_after_enough: "now - oldest \<le> RATE_WINDOW_S \<Longrightarrow> now + of_int (retry_after now oldest) - oldest > RATE_WINDOW_S"
proof -
  assume a: "now - oldest \<le> RATE_WINDOW_S"
  let ?x = "RATE_WINDOW_S - (now - oldest)"
  have "?x < of_int (\<lfloor>?x\<rfloor> + 1)" by linarith
  also have "\<dots> \<le> of_int (retry_after now oldest)" using a by (simp add: retry_after_def trunc_rat_def)
  finally show ?thesis by linarith
qed

text \<open>
  \<open>Retry-After\<close> is honest: a visitor refused at some moment who waits as many seconds as
  the answer says, and is the next to ask, is let through.
\<close>

lemma retry_after_suffices:
  fixes token :: 'k
  assumes "over_limit token now (snd (run_asks asks limiter_start)) = ((True, seconds), t)"
    and "now + of_int seconds \<le> later"
  shows "fst (over_limit token later t) = (False, 0)"
proof -
  let ?s = "touch now (snd (run_asks asks limiter_start))"
  let ?p = "pruned now (getd (l_rate ?s) token [])"
  have start: "\<forall>k :: 'k. length (stamps_of limiter_start k) \<le> RATE_LIMIT" by (simp add: stamps_of_def limiter_start_def)
  have s_bound: "length (stamps_of ?s token) \<le> RATE_LIMIT"
    using touch_bounded [of "snd (run_asks asks limiter_start)"] stamps_bounded [OF start] by simp
  have t: "t = ?s\<lparr>l_rate := (l_rate ?s)(token \<mapsto> ?p)\<rparr>" and r: "seconds = retry_after now (hd ?p)"
    and full: "RATE_LIMIT \<le> length ?p"
    using assms(1) by (auto simp: over_limit_def Let_def split: if_splits)
  then obtain x xs where p: "?p = x # xs" by (cases ?p) (auto simp: RATE_LIMIT_def)
  have "now - x \<le> RATE_WINDOW_S"
    using p hd_dropWhile [of "\<lambda>t. now - t > RATE_WINDOW_S" "getd (l_rate ?s) token []"]
    unfolding pruned_def by (metis list.sel(1) list.distinct(1) not_less)
  then have old: "later - x > RATE_WINDOW_S"
    using retry_after_enough [of now x] assms(2) r p by simp
  have "length (x # xs) \<le> RATE_LIMIT"
    using s_bound dropWhile_length [of now "getd (l_rate ?s) token []"] p by (simp add: stamps_of_def)
  then have few: "length (pruned later (x # xs)) < RATE_LIMIT"
    using old dropWhile_length [of later xs] by (simp add: pruned_def)
  have st: "stamps_of t token = x # xs" by (simp add: t p stamps_of_def)
  have "stamps_of (touch later t) token = x # xs \<or> stamps_of (touch later t) token = []"
    using st stamps_sweep [of later "t\<lparr>l_touches := l_touches t + 1\<rparr>" token]
    by (auto simp: touch_def Let_def stamps_of_def)
  then have "length (pruned later (getd (l_rate (touch later t)) token [])) < RATE_LIMIT"
    using few by (auto simp: stamps_of_def pruned_def RATE_LIMIT_def)
  then show ?thesis by (simp add: over_limit_def Let_def)
qed

lemma retry_after_suffices_witness:
  "\<exists>t. over_limit (0 :: nat) 2 (snd (run_asks (replicate 30 (AskPublish 0, 1)) limiter_start)) = ((True, 60), t) \<and>
     fst (over_limit 0 62 t) = (False, 0)"
proof -
  define full :: "nat \<Rightarrow> nat limiter" where
    "full m = limiter_start\<lparr>l_touches := m, l_rate := [0 \<mapsto> replicate m 1]\<rparr>" for m
  have p: "pruned now (replicate m 1) = replicate m 1" if "now \<le> 61" for now m
    using that by (cases m) (simp_all add: pruned_def RATE_WINDOW_S_def)
  have first: "ask_step (AskPublish 0) 1 limiter_start = (True, full 1)"
    by (simp add: ask_step_def over_limit_def touch_def Let_def RATE_LIMIT_def full_def limiter_start_def pruned_def)
  have step: "ask_step (AskPublish 0) 1 (full m) = (True, full (Suc m))" if "m < 30" for m
    using that p [of 1 m] by (simp add: ask_step_def over_limit_def touch_def Let_def RATE_LIMIT_def full_def
        limiter_start_def replicate_append_same)
  have run: "run_asks (replicate n (AskPublish 0, 1)) (full m) = (replicate n True, full (m + n))" if "m + n \<le> 30" for n m
    using that by (induction n arbitrary: m) (simp_all add: step)
  have "run_asks (replicate (Suc 29) (AskPublish 0, 1)) limiter_start = (replicate (Suc 29) True, full 30)"
    unfolding replicate_Suc run_asks.simps first prod.case using run [of 1 29] by simp
  then have "snd (run_asks (replicate 30 (AskPublish 0, 1)) limiter_start) = full 30" by simp
  moreover have "over_limit 0 2 (full 30) = ((True, 60), (full 30)\<lparr>l_touches := 31\<rparr>)"
    using p [of 2 30] by (simp add: over_limit_def touch_def Let_def full_def limiter_start_def RATE_LIMIT_def
        RATE_WINDOW_S_def retry_after_def trunc_rat_def hd_replicate)
  ultimately have "over_limit (0 :: nat) 2 (snd (run_asks (replicate 30 (AskPublish 0, 1)) limiter_start))
      = ((True, 60), (full 30)\<lparr>l_touches := 31\<rparr>)" by simp
  from this retry_after_suffices [OF this, of 62] show ?thesis by simp
qed

end
