(* ===== verification/Demo_App.thy ===== *)
theory Demo_App
  imports Demo_Limits M0pub_Props
begin

text \<open>
  The views of the demo (apps/demo/demoapp.py): who gets a stream or a socket held, what is
  published, to which channel, and within which limits. A request is what Django gives the
  view of it; \<open>urlsplit(origin).netloc\<close> and \<open>json.loads\<close> are arguments.
\<close>

definition COOKIE :: string where "COOKIE = ''m0demo''"
definition CHANNEL_PREFIX :: ustr where "CHANNEL_PREFIX = str_of ''demo/''"
definition MAX_MESSAGE_BYTES :: nat where "MAX_MESSAGE_BYTES = 280"

section \<open>Tokens and tabs\<close>

definition lower_hex :: "nat \<Rightarrow> bool" where
  "lower_hex c \<longleftrightarrow> (48 \<le> c \<and> c \<le> 57) \<or> (97 \<le> c \<and> c \<le> 102)"

text \<open>\<open>^[0-9a-f]{n}$\<close>: the dollar also matches before a final newline.\<close>

definition hex_match :: "nat \<Rightarrow> ustr \<Rightarrow> bool" where
  "hex_match n s \<longleftrightarrow> list_all lower_hex (take n s) \<and> (length s = n \<or> length s = n + 1 \<and> last s = 10)"

record visitor_request =
  q_method :: string
  q_cookie :: "string \<rightharpoonup> ustr"
  q_post :: "string \<rightharpoonup> ustr"
  q_header :: "string \<rightharpoonup> ustr"
  q_host :: ustr
  q_secure :: bool
  q_body :: bytes

definition token_of :: "visitor_request \<Rightarrow> ustr option" where
  "token_of q =
     (let v = getd (q_cookie q) COOKIE []
      in if hex_match 32 v then Some v else None)"

definition channel_of :: "ustr \<Rightarrow> ustr" where
  "channel_of token = CHANNEL_PREFIX @ token"

datatype demo_json = JStr ustr | JObj "(ustr \<times> demo_json) list" | JOther

definition tab_of :: "demo_json option \<Rightarrow> ustr" where
  "tab_of v = (case v of Some (JStr t) \<Rightarrow> if hex_match 8 t then t else [] | _ \<Rightarrow> [])"

text \<open>What \<open>json.loads\<close> does: a value, a \<open>ValueError\<close>, another exception.\<close>

datatype loaded = Loaded demo_json | NotJson | LoadsRaised

definition socket_message :: "(ustr \<Rightarrow> loaded) \<Rightarrow> bytes \<Rightarrow> (ustr \<times> ustr) option" where
  "socket_message loads body =
     (let raw = utf8_decode_replace body in
      if starts_with [123] raw
      then (case loads raw of
              Loaded (JObj obj) \<Rightarrow>
                (case map_of obj (str_of ''text'') of
                   Some (JStr t) \<Rightarrow> Some (t, tab_of (map_of obj (str_of ''tab'')))
                 | _ \<Rightarrow> Some (raw, []))
            | LoadsRaised \<Rightarrow> None
            | _ \<Rightarrow> Some (raw, []))
      else Some (raw, []))"

section \<open>Payloads\<close>

definition member_json :: "ustr \<times> ustr \<Rightarrow> ustr" where
  "member_json kv = json_string (fst kv) @ str_of '':'' @ snd kv"

definition payload :: "int \<Rightarrow> string \<Rightarrow> (string \<times> ustr) list \<Rightarrow> ustr" where
  "payload pid kind fs =
     str_of ''{'' @
     join (str_of '','')
       (map member_json
         (map (\<lambda>(k, v). (str_of k, json_string v)) fs @
          [(str_of ''type'', json_string (str_of kind)), (str_of ''worker'', str_of (show_int pid))])) @
     str_of ''}''"

section \<open>Responses\<close>

datatype view_body =
    TextBody string
  | StreamHead ustr
  | OkBody int nat
  | ErrorBody string "int option"
  | DemoPage ustr
  | EmptyBody

record view_response =
  v_status :: nat
  v_headers :: "(string \<times> ustr) list"
  v_body :: view_body
  v_cookie :: "(string \<times> ustr \<times> bool) option"

definition text_response :: "nat \<Rightarrow> string \<Rightarrow> view_response" where
  "text_response status t = \<lparr>v_status = status, v_headers = [], v_body = TextBody (t @ [CHR 0x0A]), v_cookie = None\<rparr>"

definition with_header :: "string \<Rightarrow> ustr \<Rightarrow> view_response \<Rightarrow> view_response" where
  "with_header k v r = r\<lparr>v_headers := v_headers r @ [(k, v)]\<rparr>"

definition no_visitor :: view_response where
  "no_visitor = text_response 403 ''no visitor cookie: open / first''"

text \<open>The page; \<open>drawn\<close> is what \<open>secrets.token_hex(16)\<close> draws.\<close>

definition index_view :: "ustr \<Rightarrow> visitor_request \<Rightarrow> view_response" where
  "index_view drawn q =
     (let token = (case token_of q of None \<Rightarrow> drawn | Some t \<Rightarrow> t)
      in \<lparr>v_status = 200,
          v_headers = [(''Cache-Control'', str_of ''no-store'')],
          v_body = DemoPage (take 8 token),
          v_cookie = (if token_of q = None then Some (COOKIE, token, q_secure q) else None)\<rparr>)"

definition events_view :: "int \<Rightarrow> ustr \<Rightarrow> visitor_request \<Rightarrow> view_response" where
  "events_view pid version q =
     (case token_of q of
        None \<Rightarrow> no_visitor
      | Some token \<Rightarrow>
          \<lparr>v_status = 200,
           v_headers = [(''M0-Hold'', str_of ''stream''), (''M0-Channel'', channel_of token),
             (''Cache-Control'', str_of ''no-store'')],
           v_body = StreamHead (str_of ''data: '' @
             payload pid ''hello'' [(''transport'', str_of ''sse''), (''version'', version)] @ [10, 10]),
           v_cookie = None\<rparr>)"

text \<open>
  \<open>None\<close> is an \<open>Origin\<close> that \<open>urlsplit\<close> refuses with \<open>ValueError\<close>. \<open>lower_ustr\<close> is \<open>str.lower\<close>
  on Latin-1; it leaves other letters as they are.
\<close>

definition lower_ustr :: "ustr \<Rightarrow> ustr" where
  "lower_ustr s = map (\<lambda>c. if c < 256 then of_char (lower_char (char_of c)) else c) s"

definition ws_view :: "(ustr \<Rightarrow> ustr option) \<Rightarrow> visitor_request \<Rightarrow> view_response option" where
  "ws_view netloc q =
     (let hold = (\<lambda>token. \<lparr>v_status = 200,
            v_headers = [(''M0-Hold'', str_of ''websocket''), (''M0-Channel'', channel_of token)],
            v_body = EmptyBody, v_cookie = None\<rparr>)
      in case token_of q of
           None \<Rightarrow> Some no_visitor
         | Some token \<Rightarrow>
             (case getd (q_header q) ''Origin'' [] of
                [] \<Rightarrow> Some (hold token)
              | origin \<Rightarrow>
                  (case netloc origin of
                     None \<Rightarrow> None
                   | Some loc \<Rightarrow>
                       if lower_ustr loc \<noteq> lower_ustr (q_host q)
                       then Some (text_response 403 ''cross-origin WebSocket refused'')
                       else Some (hold token))))"

section \<open>Publishing\<close>

record demo =
  d_limits :: "ustr limiter"
  d_pub :: pub_state
  d_next :: int

text \<open>Django answers 500 to a view that raises.\<close>

datatype view_raise = RaisedUnicode | RaisedLoads | RaisedPub pub_error

type_synonym writes = "(int \<times> bytes) list"

definition send_event :: "process \<Rightarrow> ustr \<Rightarrow> ustr \<Rightarrow> demo \<Rightarrow> (pub_error + nat \<times> int) \<times> writes \<times> demo" where
  "send_event p channel data s =
     (case publish_with_id p channel data None (d_pub s) (d_next s) of
        (r, w, ps, n) \<Rightarrow> (r, w, s\<lparr>d_pub := ps, d_next := n\<rparr>))"

definition after_send ::
    "(pub_error + nat \<times> int) \<times> writes \<times> demo \<Rightarrow> (nat \<Rightarrow> int \<Rightarrow> view_response)
      \<Rightarrow> (view_raise + view_response) \<times> writes \<times> demo" where
  "after_send sent answer =
     (case sent of
        (Inl e, w, s) \<Rightarrow> (Inl (RaisedPub e), w, s)
      | (Inr (workers, event_id), w, s) \<Rightarrow> (Inr (answer workers event_id), w, s))"

definition ok_response :: "nat \<Rightarrow> int \<Rightarrow> view_response" where
  "ok_response workers event_id =
     \<lparr>v_status = 200, v_headers = [], v_body = OkBody event_id workers, v_cookie = None\<rparr>"

text \<open>The notice to a socket's channel, when one is due at \<open>now\<close>; then the refusal.\<close>

definition notice_text :: "bool \<Rightarrow> string" where
  "notice_text too_long =
     (if too_long then ''message dropped: over 280 bytes'' else ''slowing you down: 30 messages a minute'')"

definition refuse_with_notice ::
    "process \<Rightarrow> rat \<Rightarrow> ustr \<Rightarrow> ustr \<Rightarrow> bool \<Rightarrow> view_response \<Rightarrow> demo
      \<Rightarrow> (view_raise + view_response) \<times> writes \<times> demo" where
  "refuse_with_notice p now token channel too_long refusal s =
     (case notice_due token now (d_limits s) of
        (due, l) \<Rightarrow>
          (let s1 = s\<lparr>d_limits := l\<rparr>
           in if due
              then after_send (send_event p channel
                     (payload (pid_of p) ''notice'' [(''text'', str_of (notice_text too_long))]) s1) (\<lambda>_ _. refusal)
              else (Inr refusal, [], s1)))"

text \<open>\<open>ws_message\<close>; \<open>now\<close> and \<open>then'\<close> are the two readings of the clock.\<close>

definition ws_message_view ::
    "process \<Rightarrow> (ustr \<Rightarrow> loaded) \<Rightarrow> rat \<Rightarrow> rat \<Rightarrow> visitor_request \<Rightarrow> demo
      \<Rightarrow> (view_raise + view_response) \<times> writes \<times> demo" where
  "ws_message_view p loads now now' q s =
     (let channel = getd (q_header q) ''M0-Channel'' [];
          token = drop (length CHANNEL_PREFIX) channel
      in if \<not> starts_with CHANNEL_PREFIX channel
         then (Inr (text_response 400 ''not a visitor channel''), [], s)
         else if q_header q ''M0-Opcode'' \<noteq> Some (str_of ''1'')
         then (Inr (text_response 415 ''text frames only''), [], s)
         else case socket_message loads (q_body q) of
                None \<Rightarrow> (Inl RaisedLoads, [], s)
              | Some (t, tab) \<Rightarrow>
                  (case utf8_encode t of
                     None \<Rightarrow> (Inl RaisedUnicode, [], s)
                   | Some encoded \<Rightarrow>
                       if length encoded > MAX_MESSAGE_BYTES
                       then refuse_with_notice p now token channel True (text_response 413 ''message too long'') s
                       else (case over_limit token now (d_limits s) of
                               ((over, seconds), l) \<Rightarrow>
                                 (let s1 = s\<lparr>d_limits := l\<rparr>
                                  in if over
                                     then refuse_with_notice p now' token channel False
                                            (with_header ''Retry-After'' (str_of (show_int seconds))
                                              (text_response 429 ''rate limited'')) s1
                                     else after_send (send_event p channel
                                            (payload (pid_of p) ''message''
                                              [(''text'', t), (''via'', str_of ''websocket''), (''tab'', tab),
                                               (''slot'', getd (q_header q) ''M0-Slot'' [])]) s1) ok_response))))"

definition error_response :: "nat \<Rightarrow> string \<Rightarrow> int option \<Rightarrow> view_response" where
  "error_response status t wait =
     \<lparr>v_status = status,
      v_headers = (case wait of None \<Rightarrow> [] | Some n \<Rightarrow> [(''Retry-After'', str_of (show_int n))]),
      v_body = ErrorBody t wait, v_cookie = None\<rparr>"

definition publish_view ::
    "process \<Rightarrow> rat \<Rightarrow> visitor_request \<Rightarrow> demo \<Rightarrow> (view_raise + view_response) \<times> writes \<times> demo" where
  "publish_view p now q s =
     (if q_method q \<noteq> ''POST'' then (Inr (text_response 405 ''POST only''), [], s)
      else case token_of q of
             None \<Rightarrow> (Inr no_visitor, [], s)
           | Some token \<Rightarrow>
               (let t = getd (q_post q) ''text'' []
                in case utf8_encode t of
                     None \<Rightarrow> (Inl RaisedUnicode, [], s)
                   | Some encoded \<Rightarrow>
                       if length encoded > MAX_MESSAGE_BYTES
                       then (Inr (error_response 413 ''message over 280 bytes'' None), [], s)
                       else (case over_limit token now (d_limits s) of
                               ((over, seconds), l) \<Rightarrow>
                                 (let s1 = s\<lparr>d_limits := l\<rparr>
                                  in if over
                                     then (Inr (error_response 429 ''rate limited: 30 messages a minute'' (Some seconds)), [], s1)
                                     else after_send (send_event p (channel_of token)
                                            (payload (pid_of p) ''message''
                                              [(''text'', t), (''via'', str_of ''http''),
                                               (''tab'', tab_of (map_option JStr (q_post q ''tab'')))]) s1)
                                            ok_response))))"

end
