(* ===== verification/Demo_Props.thy ===== *)
theory Demo_Props
  imports Demo_App
begin

text \<open>
  What the demo's views promise: who is held on which channel, and that every datagram they
  write is for its own visitor and within the limits.
\<close>

section \<open>Who is held, who hears what\<close>

lemma hold_headers:
  "(''M0-Hold'', v) \<in> set (v_headers (events_view pid version q)) \<Longrightarrow>
    \<exists>t. token_of q = Some t \<and> (''M0-Channel'', channel_of t) \<in> set (v_headers (events_view pid version q))"
  "ws_view netloc q = Some r \<Longrightarrow> (''M0-Hold'', v) \<in> set (v_headers r) \<Longrightarrow>
    \<exists>t. token_of q = Some t \<and> (''M0-Channel'', channel_of t) \<in> set (v_headers r)"
  by (auto simp: events_view_def ws_view_def no_visitor_def text_response_def Let_def
      split: option.splits list.splits if_splits)

text \<open>
  A socket is held only for a visitor, on that visitor's channel, and for no page of
  another origin: whoever got \<open>M0-Hold\<close> had a token of the right form in the cookie, was put
  on \<open>demo/<token>\<close>, and sent no \<open>Origin\<close> or one whose host is the request's.
\<close>

lemma socket_hold_needs_visitor:
  assumes "ws_view netloc q = Some r" and "(''M0-Hold'', v) \<in> set (v_headers r)"
  shows "\<exists>t. token_of q = Some t \<and> hex_match 32 t \<and>
    (\<forall>c. (''M0-Channel'', c) \<in> set (v_headers r) \<longleftrightarrow> c = channel_of t) \<and>
    (getd (q_header q) ''Origin'' [] = [] \<or>
     map_option lower_ustr (netloc (getd (q_header q) ''Origin'' [])) = Some (lower_ustr (q_host q)))"
  using assms
  by (auto simp: ws_view_def no_visitor_def text_response_def token_of_def Let_def
      split: option.splits list.splits if_splits)

definition visitor :: visitor_request where
  "visitor = \<lparr>q_method = ''POST'', q_cookie = [COOKIE \<mapsto> replicate 32 97],
     q_post = [''text'' \<mapsto> [104, 105]], q_header = [''Origin'' \<mapsto> [98], ''M0-Channel'' \<mapsto> CHANNEL_PREFIX @ replicate 32 97, ''M0-Opcode'' \<mapsto> [49]],
     q_host = [66], q_secure = True, q_body = [104, 105]\<rparr>"

lemma visitor_token: "token_of visitor = Some (replicate 32 97)"
  by (simp add: token_of_def visitor_def hex_match_def lower_hex_def list_all_iff)

lemma socket_hold_needs_visitor_witness:
  "\<exists>r. ws_view Some visitor = Some r \<and> (\<exists>t. token_of visitor = Some t \<and> hex_match 32 t)"
proof -
  have "lower_ustr [98] = lower_ustr [66]" by (simp add: lower_ustr_def lower_char_def Let_def)
  then obtain r where r: "ws_view Some visitor = Some r" "(''M0-Hold'', str_of ''websocket'') \<in> set (v_headers r)"
    using visitor_token by (simp add: ws_view_def Let_def visitor_def)
  then show ?thesis using socket_hold_needs_visitor [OF r] by blast
qed

text \<open>What a datagram written for a channel carries to the executor and on to a reader.\<close>

definition carries :: "bytes \<Rightarrow> ustr \<Rightarrow> ustr \<Rightarrow> bool" where
  "carries datagram channel data \<longleftrightarrow>
     (\<exists>event_id frame. parse_submit (TAG_BUS_FRAME # datagram) = SubBusFrame event_id channel frame \<and>
        sse_read (utf8_decode_replace frame) = Some (read_back data None event_id))"

lemma publish_writes_ok:
  "publish_with_id p channel data event s n = (r, w, s', n') \<Longrightarrow> x \<in> set w \<Longrightarrow> \<exists>k eid. r = Inr (k, eid)"
  by (cases r) (auto simp: publish_with_id_def publish_frame_def Let_def split: prod.splits option.splits if_splits)

lemma send_event_carries:
  assumes "send_event p channel data s = (r, w, s')" and "(fd, datagram) \<in> set w"
  shows "carries datagram channel data"
proof -
  obtain r0 ps n where pub: "publish_with_id p channel data None (d_pub s) (d_next s) = (r0, w, ps, n)"
    using assms(1) by (auto simp: send_event_def split: prod.splits)
  obtain k eid where r: "r0 = Inr (k, eid)" using publish_writes_ok [OF pub assms(2)] by auto
  show ?thesis
    using publish_read_back [OF pub [unfolded r] assms(2)] unfolding carries_def by blast
qed

lemma after_send_writes: "after_send (r0, w0, s0) answer = (r, w, s) \<Longrightarrow> w = w0"
  by (auto simp: after_send_def split: sum.splits prod.splits)

lemma refuse_writes:
  assumes "refuse_with_notice p now token channel b refusal s = (r, w, s')" and "(fd, d) \<in> set w"
  shows "fst (notice_due token now (d_limits s))"
    and "carries d channel (payload (pid_of p) ''notice'' [(''text'', str_of (notice_text b))])"
proof -
  let ?data = "payload (pid_of p) ''notice'' [(''text'', str_of (notice_text b))]"
  obtain l where due: "notice_due token now (d_limits s) = (True, l)"
    and sent: "after_send (send_event p channel ?data (s\<lparr>d_limits := l\<rparr>)) (\<lambda>_ _. refusal) = (r, w, s')"
    using assms by (auto simp: refuse_with_notice_def Let_def split: prod.splits if_splits)
  then show "fst (notice_due token now (d_limits s))" by simp
  obtain r0 w0 s0 where e: "send_event p channel ?data (s\<lparr>d_limits := l\<rparr>) = (r0, w0, s0)" by (metis surj_pair)
  have "w = w0" by (rule after_send_writes [OF sent [unfolded e]])
  then show "carries d channel ?data"
    using send_event_carries [OF e] assms(2) by simp
qed

text \<open>A server of one worker on which short ASCII data is published.\<close>

lemma splitlines_one: "d \<noteq> [] \<Longrightarrow> list_all (\<lambda>c. \<not> line_break c) d \<Longrightarrow> splitlines d = [d]"
proof (induction d rule: splitlines.induct)
  case (3 c d cs)
  then have "\<not> (c = 13 \<and> d = 10)" by (auto simp: line_break_def)
  with 3 show ?case by auto
qed simp_all

lemma one_worker_sends:
  assumes "list_all (\<lambda>c. c < 128 \<and> \<not> line_break c) data" and "data \<noteq> []" and "length data \<le> 1000"
    and "list_all (\<lambda>c. c < 128) channel" and "take 1 channel \<noteq> [1]" and "length channel \<le> 1000"
  shows "\<exists>frame s'. publish_with_id one_worker channel data None fresh_pub 4
    = (Inr (1, 5), [(7, pack_frame 5 (map u8 channel) frame)], s', 5)"
proof -
  have d: "data_lines data = [data]"
    using assms(1,2) splitlines_one [of data] by (auto simp: data_lines_def list_all_iff)
  let ?t = "str_of ''id: 5'' @ [10] @ str_of ''data: '' @ data @ [10, 10]"
  have t: "sse_text data None 5 = ?t"
    by (simp add: sse_text_def d NO_EVENT_ID_def show_int_def show_nat.simps str_of_simps)
  have "list_all (\<lambda>c. c < 128) ?t" using assms(1) by (auto simp: list_all_iff str_of_simps)
  then have f: "sse_event data None 5 = Some (map u8 ?t)" unfolding sse_event_def t by (rule utf8_ascii)
  have l: "length (map u8 ?t) \<le> MAX_FRAME" using assms(3) by (simp add: MAX_FRAME_def str_of_simps)
  have enc: "utf8_encode channel = Some (map u8 channel)" by (rule utf8_ascii [OF assms(4)])
  have "take 1 (map u8 channel) \<noteq> [1]"
  proof (cases channel)
    case (Cons c cs)
    then have "c < 128" "c \<noteq> 1" using assms(4,5) by auto
    then have "u8 c \<noteq> 1" by (auto simp: u8_def dest!: arg_cong [where f = unat] simp: unat_of_nat)
    then show ?thesis using Cons by simp
  qed simp
  then show ?thesis
    using one_worker_id f enc l assms(6)
    by (auto simp: publish_with_id_def publish_frame_def MAX_CHANNEL_def bus_write_fds_def fresh_pub_def
        one_worker_fds one_worker_accepts)
qed

definition demo0 :: demo where
  "demo0 = \<lparr>d_limits = limiter_start, d_pub = fresh_pub, d_next = 4\<rparr>"

lemma first_is_allowed: "over_limit k now limiter_start = ((False, 0), (snd (over_limit k now limiter_start)))"
  by (simp add: over_limit_def touch_def Let_def limiter_start_def pruned_def RATE_LIMIT_def)

lemma demo_sends:
  assumes "list_all (\<lambda>c. c < 128 \<and> \<not> line_break c) data" and "data \<noteq> []" and "length data \<le> 1000"
  shows "\<exists>frame s'. send_event one_worker (channel_of (replicate 32 97)) data (demo0\<lparr>d_limits := l\<rparr>)
    = (Inr (1, 5), [(7, pack_frame 5 (map u8 (channel_of (replicate 32 97))) frame)], s')"
proof -
  have "list_all (\<lambda>c. c < 128) (channel_of (replicate 32 97))" "take 1 (channel_of (replicate 32 97)) \<noteq> [1]"
    "length (channel_of (replicate 32 97)) \<le> 1000"
    by (simp_all add: channel_of_def CHANNEL_PREFIX_def str_of_simps list_all_iff)
  from one_worker_sends [OF assms this] show ?thesis by (auto simp: send_event_def demo0_def)
qed

text \<open>
  C29. Nobody speaks into another visitor's tabs over HTTP. Every datagram that \<open>publish\<close>
  writes is for the channel of the token in the cookie and of no other, and carries the
  posted text; and it is written only for a POST, a text of at most 280 bytes, and a publish
  the limiter let through.
\<close>

theorem publish_stays_with_visitor:
  assumes "publish_view p now q s = (r, w, s')" and "(fd, d) \<in> set w"
  shows "\<exists>token encoded tab. token_of q = Some token \<and> q_method q = ''POST'' \<and>
    utf8_encode (getd (q_post q) ''text'' []) = Some encoded \<and> length encoded \<le> MAX_MESSAGE_BYTES \<and>
    fst (over_limit token now (d_limits s)) = (False, 0) \<and>
    carries d (channel_of token) (payload (pid_of p) ''message''
      [(''text'', getd (q_post q) ''text'' []), (''via'', str_of ''http''), (''tab'', tab)])"
proof -
  let ?t = "getd (q_post q) ''text'' []" and ?tab = "tab_of (map_option JStr (q_post q ''tab''))"
  obtain token encoded seconds l where
    q: "q_method q = ''POST''" "token_of q = Some token" "utf8_encode ?t = Some encoded"
      "length encoded \<le> MAX_MESSAGE_BYTES" and ov: "over_limit token now (d_limits s) = ((False, seconds), l)"
    and sent: "after_send (send_event p (channel_of token) (payload (pid_of p) ''message''
        [(''text'', ?t), (''via'', str_of ''http''), (''tab'', ?tab)]) (s\<lparr>d_limits := l\<rparr>)) ok_response = (r, w, s')"
    using assms by (auto simp: publish_view_def Let_def split: if_splits option.splits prod.splits)
  have "seconds = 0" using ov by (auto simp: over_limit_def Let_def split: if_splits)
  obtain r0 w0 s0 where e: "send_event p (channel_of token) (payload (pid_of p) ''message''
      [(''text'', ?t), (''via'', str_of ''http''), (''tab'', ?tab)]) (s\<lparr>d_limits := l\<rparr>) = (r0, w0, s0)"
    by (metis surj_pair)
  have "w = w0" by (rule after_send_writes [OF sent [unfolded e]])
  then have "carries d (channel_of token) (payload (pid_of p) ''message''
      [(''text'', ?t), (''via'', str_of ''http''), (''tab'', ?tab)])"
    using send_event_carries [OF e] assms(2) by simp
  then show ?thesis using q ov \<open>seconds = 0\<close> by auto
qed

lemma hi_encoded: "utf8_encode [104, 105] = Some [0x68, 0x69]"
  using utf8_ascii [of "[104, 105]"] by (simp add: u8_def)

theorem publish_stays_with_visitor_witness:
  "\<exists>d. (7, d) \<in> set (fst (snd (publish_view one_worker 0 visitor demo0))) \<and>
     (\<exists>tab. carries d (channel_of (replicate 32 97)) (payload 1 ''message''
        [(''text'', [104, 105]), (''via'', str_of ''http''), (''tab'', tab)]))"
proof -
  let ?l = "snd (over_limit (replicate 32 97) 0 limiter_start)"
  let ?data = "payload 1 ''message'' [(''text'', [104, 105]), (''via'', str_of ''http''), (''tab'', [])]"
  have "list_all (\<lambda>c. c < 128 \<and> \<not> line_break c) ?data \<and> ?data \<noteq> [] \<and> length ?data \<le> 1000"
    by (simp add: payload_def member_json_def json_string_def utf16_units_def json_unit_def
        str_of_simps show_int_def show_nat.simps line_break_def)
  then obtain frame s' where e: "send_event one_worker (channel_of (replicate 32 97)) ?data (demo0\<lparr>d_limits := ?l\<rparr>)
      = (Inr (1, 5), [(7, pack_frame 5 (map u8 (channel_of (replicate 32 97))) frame)], s')"
    using demo_sends by blast
  let ?d = "pack_frame 5 (map u8 (channel_of (replicate 32 97))) frame"
  have v: "q_method visitor = ''POST''" "getd (q_post visitor) ''text'' [] = [104, 105]"
    "q_post visitor ''tab'' = None" "pid_of one_worker = 1" "d_limits demo0 = limiter_start"
    by (simp_all add: visitor_def one_worker_def demo0_def getd_def)
  have p: "publish_view one_worker 0 visitor demo0 = (Inr (ok_response 1 5), [(7, ?d)], s')"
    unfolding publish_view_def v Let_def visitor_token option.case hi_encoded
    by (subst first_is_allowed) (simp add: e after_send_def tab_of_def MAX_MESSAGE_BYTES_def)
  have "(7, ?d) \<in> set [(7, ?d)]" by simp
  from publish_stays_with_visitor [OF p this] show ?thesis unfolding p v visitor_token by auto
qed

text \<open>
  A socket's message reaches its own channel or nothing. Every datagram \<open>ws_message\<close>
  writes is for the channel the server named, which is a visitor's; it carries either the
  message, a text frame of at most 280 bytes that the limiter let through, or the notice
  that is due once in a window.
\<close>

lemma socket_message_is_bounded:
  assumes "ws_message_view p loads now now' q s = (r, w, s')" and "(fd, d) \<in> set w"
  shows "\<exists>token t tab encoded. getd (q_header q) ''M0-Channel'' [] = channel_of token \<and>
    q_header q ''M0-Opcode'' = Some (str_of ''1'') \<and>
    socket_message loads (q_body q) = Some (t, tab) \<and> utf8_encode t = Some encoded \<and>
    (if length encoded > MAX_MESSAGE_BYTES
     then fst (notice_due token now (d_limits s)) \<and>
       carries d (channel_of token) (payload (pid_of p) ''notice'' [(''text'', str_of (notice_text True))])
     else if fst (fst (over_limit token now (d_limits s)))
     then fst (notice_due token now' (snd (over_limit token now (d_limits s)))) \<and>
       carries d (channel_of token) (payload (pid_of p) ''notice'' [(''text'', str_of (notice_text False))])
     else carries d (channel_of token) (payload (pid_of p) ''message''
       [(''text'', t), (''via'', str_of ''websocket''), (''tab'', tab), (''slot'', getd (q_header q) ''M0-Slot'' [])]))"
proof -
  let ?channel = "getd (q_header q) ''M0-Channel'' []"
  define token where "token = drop (length CHANNEL_PREFIX) ?channel"
  note view = assms(1) [unfolded ws_message_view_def Let_def, folded token_def]
  have w: "w \<noteq> []" using assms(2) by auto
  have pre: "starts_with CHANNEL_PREFIX ?channel" using view w by (simp only: split: if_splits) auto
  then have ch: "?channel = channel_of token" by (auto simp: token_def channel_of_def starts_with_iff)
  have op: "q_header q ''M0-Opcode'' = Some (str_of ''1'')" using view w pre by (simp only: split: if_splits) auto
  obtain t tab where m: "socket_message loads (q_body q) = Some (t, tab)"
    using view w pre op by (cases "socket_message loads (q_body q)") auto
  obtain encoded where enc: "utf8_encode t = Some encoded"
    using view w pre op m by (cases "utf8_encode t") auto
  show ?thesis
  proof (cases "length encoded > MAX_MESSAGE_BYTES")
    case True
    then have "refuse_with_notice p now token ?channel True (text_response 413 ''message too long'') s = (r, w, s')"
      using view pre op m enc by simp
    from refuse_writes [OF this assms(2)] show ?thesis using True ch op m enc by auto
  next
    case False
    obtain over seconds l where ov: "over_limit token now (d_limits s) = ((over, seconds), l)" by (metis surj_pair)
    show ?thesis
    proof (cases over)
      case True
      then have "refuse_with_notice p now' token ?channel False
          (with_header ''Retry-After'' (str_of (show_int seconds)) (text_response 429 ''rate limited''))
          (s\<lparr>d_limits := l\<rparr>) = (r, w, s')"
        using view pre op m enc False ov by simp
      from refuse_writes [OF this assms(2)] show ?thesis using True False ch op m enc ov by auto
    next
      case over: False
      let ?data = "payload (pid_of p) ''message'' [(''text'', t), (''via'', str_of ''websocket''), (''tab'', tab),
          (''slot'', getd (q_header q) ''M0-Slot'' [])]"
      obtain r0 w0 s0 where e: "send_event p ?channel ?data (s\<lparr>d_limits := l\<rparr>) = (r0, w0, s0)" by (metis surj_pair)
      have sent: "after_send (r0, w0, s0) ok_response = (r, w, s')"
        using view pre op m enc False ov over by (simp add: e)
      have "w = w0" by (rule after_send_writes [OF sent])
      then have "carries d ?channel ?data" using send_event_carries [OF e] assms(2) by simp
      then show ?thesis using over False ch op m enc ov by auto
    qed
  qed
qed

lemma socket_message_is_bounded_witness:
  "\<exists>d. (7, d) \<in> set (fst (snd (ws_message_view one_worker (\<lambda>_. NotJson) 0 0 visitor demo0))) \<and>
     carries d (channel_of (replicate 32 97)) (payload 1 ''message''
        [(''text'', [104, 105]), (''via'', str_of ''websocket''), (''tab'', []), (''slot'', [])])"
proof -
  let ?l = "snd (over_limit (replicate 32 97) 0 limiter_start)"
  let ?data = "payload 1 ''message'' [(''text'', [104, 105]), (''via'', str_of ''websocket''), (''tab'', []), (''slot'', [])]"
  have "list_all (\<lambda>c. c < 128 \<and> \<not> line_break c) ?data \<and> ?data \<noteq> [] \<and> length ?data \<le> 1000"
    by (simp add: payload_def member_json_def json_string_def utf16_units_def json_unit_def
        str_of_simps show_int_def show_nat.simps line_break_def)
  then obtain frame s' where e: "send_event one_worker (channel_of (replicate 32 97)) ?data (demo0\<lparr>d_limits := ?l\<rparr>)
      = (Inr (1, 5), [(7, pack_frame 5 (map u8 (channel_of (replicate 32 97))) frame)], s')"
    using demo_sends by blast
  let ?d = "pack_frame 5 (map u8 (channel_of (replicate 32 97))) frame"
  have v: "getd (q_header visitor) ''M0-Channel'' [] = channel_of (replicate 32 97)"
    "q_header visitor ''M0-Opcode'' = Some (str_of ''1'')" "getd (q_header visitor) ''M0-Slot'' [] = []"
    "pid_of one_worker = 1" "d_limits demo0 = limiter_start"
    by (simp_all add: visitor_def one_worker_def demo0_def getd_def channel_of_def str_of_simps)
  have b: "socket_message (\<lambda>_. NotJson) (q_body visitor) = Some ([104, 105], [])"
    using utf8_roundtrip [OF hi_encoded] by (simp add: socket_message_def visitor_def starts_with_def Let_def)
  have tok: "drop (length CHANNEL_PREFIX) (channel_of t) = t" "starts_with CHANNEL_PREFIX (channel_of t)" for t
    by (simp_all add: channel_of_def)
  have p: "ws_message_view one_worker (\<lambda>_. NotJson) 0 0 visitor demo0 = (Inr (ok_response 1 5), [(7, ?d)], s')"
    unfolding ws_message_view_def v Let_def b tok option.case prod.case hi_encoded
    by (subst first_is_allowed) (simp add: e tok after_send_def MAX_MESSAGE_BYTES_def)
  have "(7, ?d) \<in> set [(7, ?d)]" by simp
  from socket_message_is_bounded [OF p this] obtain token t tab encoded where
    "channel_of (replicate 32 97) = channel_of token" "([104, 105], []) = (t, tab)" "utf8_encode t = Some encoded"
    and c: "if length encoded > MAX_MESSAGE_BYTES
     then fst (notice_due token 0 (d_limits demo0)) \<and>
       carries ?d (channel_of token) (payload (pid_of one_worker) ''notice'' [(''text'', str_of (notice_text True))])
     else if fst (fst (over_limit token 0 (d_limits demo0)))
     then fst (notice_due token 0 (snd (over_limit token 0 (d_limits demo0)))) \<and>
       carries ?d (channel_of token) (payload (pid_of one_worker) ''notice'' [(''text'', str_of (notice_text False))])
     else carries ?d (channel_of token) (payload (pid_of one_worker) ''message''
       [(''text'', t), (''via'', str_of ''websocket''), (''tab'', tab), (''slot'', getd (q_header visitor) ''M0-Slot'' [])])"
    unfolding v b by blast
  moreover from this have "encoded = [0x68, 0x69]" using hi_encoded by simp
  moreover have "\<not> fst (fst (over_limit token 0 limiter_start))" using first_is_allowed [of token 0] by (metis fst_conv)
  ultimately show ?thesis unfolding p v by (auto simp: MAX_MESSAGE_BYTES_def)
qed

text \<open>
  An envelope whose text has a lone surrogate (which \<open>json.loads\<close> accepts) is not refused:
  the view raises, before the limits are looked at.
\<close>

lemma lone_surrogate_raises:
  "loads (utf8_decode_replace (q_body q)) = Loaded (JObj [(str_of ''text'', JStr [0xD800])]) \<Longrightarrow>
   starts_with [123] (utf8_decode_replace (q_body q)) \<Longrightarrow>
   getd (q_header q) ''M0-Channel'' [] = channel_of token \<Longrightarrow>
   q_header q ''M0-Opcode'' = Some (str_of ''1'') \<Longrightarrow>
   ws_message_view p loads now now' q s = (Inl RaisedUnicode, [], s)"
  by (simp add: ws_message_view_def socket_message_def channel_of_def utf8_encode_def scalar_def)

text \<open>A tab id is "8 hex digits": the pattern lets a newline follow them.\<close>

lemma tab_with_newline: "tab_of (Some (JStr [97, 97, 97, 97, 97, 97, 97, 97, 10])) = [97, 97, 97, 97, 97, 97, 97, 97, 10]"
  by (simp add: tab_of_def hex_match_def lower_hex_def)

end
