(* ===== verification/Py_Ustr.thy ===== *)
theory Py_Ustr
  imports Py_Paths
begin

text \<open>
  Text of any code points where the scripts look at its white space: \<open>str.strip\<close> and the class
  of blanks of the regular expressions, which for \<open>str\<close> is the same.
\<close>

definition u_space :: "nat \<Rightarrow> bool" where
  "u_space c \<longleftrightarrow> (9 \<le> c \<and> c \<le> 13) \<or> (28 \<le> c \<and> c \<le> 32) \<or> c \<in> {0x85, 0xA0, 0x1680, 0x2028, 0x2029, 0x202F, 0x205F, 0x3000}
     \<or> (0x2000 \<le> c \<and> c \<le> 0x200A)"

definition u_strip :: "ustr \<Rightarrow> ustr" where
  "u_strip s = rev (dropWhile u_space (rev (dropWhile u_space s)))"

lemma u_space_newline [simp]: "u_space 10" "u_space 32"
  by (simp_all add: u_space_def)

end
