(* ===== verification/Render_Shim.thy ===== *)
theory Render_Shim
  imports Py_Ustr
begin

text \<open>
  How the shim gets into the binary (scripts/render_shim.py): the Python source escaped into a
  Mojo string constant, read back the way the compiler reads it, and the check that the
  committed rendering and the numbers both sides share are current. Text is a list of code
  points; \<open>None\<close> is a \<open>ValueError\<close>.
\<close>

section \<open>Escaping\<close>

definition QQQ :: ustr where "QQQ = [34, 34, 34]"
definition OPEN_MARK :: ustr where "OPEN_MARK = str_of ''comptime SHIM_SOURCE = '' @ QQQ"
definition CLOSE_MARK :: ustr where "CLOSE_MARK = [10] @ QQQ @ [10]"

definition HEADER :: ustr where
  "HEADER = concat (map (\<lambda>l. l @ [10])
    [QQQ @ str_of ''The executor shim, as the Mojo string constant the binary embeds.'',
     [],
     str_of ''GENERATED by scripts/render_shim.py from packages/m0-wsgi/shim/m0_shim.py.'',
     str_of ''Do not edit this file: edit the `.py` and run `uv run poe render-shim`.'',
     str_of ''`poe check-docs` fails when this rendering is older than its source, and'',
     str_of ''the round trip (this literal, unescaped as the compiler unescapes it, is'',
     str_of ''the `.py` byte for byte) is checked at the same time. `bridge.mojo`'',
     str_of ''imports `SHIM_SOURCE` from here and `exec`s it into a fresh namespace per'',
     str_of ''`PyBridge`; `scripts/shim_ownership.py` (`poe test-shim`) drives the `.py`'',
     str_of ''directly.'',
     QQQ,
     []])"

definition escape :: "ustr \<Rightarrow> ustr option" where
  "escape s =
     (if contains QQQ s then None
      else if 13 \<in> set s then None
      else Some (replace_all [92] [92, 92] s))"

definition mojo_escape :: "nat \<Rightarrow> nat option" where
  "mojo_escape c = map_of [(92, 92), (34, 34), (39, 39), (110, 10), (114, 13), (116, 9), (48, 0)] c"

text \<open>\<open>int(s, 16)\<close> of at most two characters, as a code point.\<close>

definition hex16_of :: "nat \<Rightarrow> int option" where
  "hex16_of c =
     (if 48 \<le> c \<and> c \<le> 57 then Some (int c - 48)
      else if 97 \<le> c \<and> c \<le> 102 then Some (int c - 87)
      else if 65 \<le> c \<and> c \<le> 70 then Some (int c - 55) else None)"

fun hex16_digits :: "int \<Rightarrow> ustr \<Rightarrow> int option" where
  "hex16_digits acc [] = Some acc"
| "hex16_digits acc (c # cs) = (case hex16_of c of None \<Rightarrow> None | Some v \<Rightarrow> hex16_digits (16 * acc + v) cs)"

definition int16 :: "ustr \<Rightarrow> int option" where
  "int16 s =
     (let t = u_strip s;
          (sign, u) = (case t of c # cs \<Rightarrow> if c = 45 then (-1, cs) else if c = 43 then (1, cs) else (1, t) | [] \<Rightarrow> (1, t))
      in if u = [] then None else map_option (\<lambda>n. sign * n) (hex16_digits 0 u))"

definition chr16 :: "ustr \<Rightarrow> nat option" where
  "chr16 s = (case int16 s of None \<Rightarrow> None | Some n \<Rightarrow> if n < 0 then None else Some (nat n))"

fun unescape :: "ustr \<Rightarrow> ustr option" where
  "unescape [] = Some []"
| "unescape [c] = (if c \<noteq> 92 then Some [c] else None)"
| "unescape (c # d # rest) =
     (if c \<noteq> 92 then map_option (\<lambda>t. c # t) (unescape (d # rest))
      else case mojo_escape d of
             Some e \<Rightarrow> map_option (\<lambda>t. e # t) (unescape rest)
           | None \<Rightarrow>
               if d = 120
               then (case chr16 (take 2 rest) of
                       None \<Rightarrow> None
                     | Some e \<Rightarrow> map_option (\<lambda>t. e # t) (unescape (drop 2 rest)))
               else None)"

definition render_shim :: "ustr \<Rightarrow> ustr option" where
  "render_shim source =
     (if \<not> ends_with [10] source then None
      else map_option (\<lambda>e. HEADER @ OPEN_MARK @ [10] @ e @ QQQ @ [10]) (escape source))"

definition extract_shim :: "ustr \<Rightarrow> ustr option" where
  "extract_shim rendered =
     (case cut_at OPEN_MARK rendered of
        None \<Rightarrow> None
      | Some (_, literal) \<Rightarrow>
          (case cut_at CLOSE_MARK literal of
             None \<Rightarrow> None
           | Some (body, _) \<Rightarrow> map_option (drop 1) (unescape (body @ [10]))))"

datatype staleness = Current | NotTheRendering | NotARoundTrip

definition stale_shim :: "ustr \<Rightarrow> ustr \<Rightarrow> staleness option" where
  "stale_shim source rendered =
     (case render_shim source of
        None \<Rightarrow> None
      | Some r \<Rightarrow>
          if rendered \<noteq> r then Some NotTheRendering
          else (case extract_shim rendered of
                  None \<Rightarrow> None
                | Some t \<Rightarrow> Some (if t \<noteq> source then NotARoundTrip else Current)))"

section \<open>The numbers the shim mirrors\<close>

definition MIRRORED :: "(string \<times> string \<times> string) list" where
  "MIRRORED =
     [(''_WS_DATAGRAM_MAX'', ''packages/m0-http/lightbug_http/offload.mojo'', ''WS_DATAGRAM_MAX''),
      (''_WS_TAG_HEADER'', ''packages/m0-wsgi/src/handler.mojo'', ''WS_TAG_HEADER''),
      (''_WS_IN_WINDOW'', ''packages/m0-wsgi/src/handler.mojo'', ''WS_IN_WINDOW'')]"

text \<open>
  One line against the pattern of \<open>_int_constant\<close>: the lead, a run of digits and underscores,
  blanks to the end. The digits, when it matches. (The blanks of the pattern may run over the
  end of a line, but only to the end of another, so lines match one by one.)
\<close>

definition digit_or_line :: "nat \<Rightarrow> bool" where
  "digit_or_line c \<longleftrightarrow> (48 \<le> c \<and> c \<le> 57) \<or> c = 95"

definition binds :: "ustr \<Rightarrow> ustr \<Rightarrow> ustr option" where
  "binds lead line =
     (if starts_with lead line
      then let rest = drop (length lead) line;
               digits = takeWhile digit_or_line rest
           in if digits \<noteq> [] \<and> list_all u_space (dropWhile digit_or_line rest) then Some digits else None
      else None)"

fun digits_value :: "nat \<Rightarrow> ustr \<Rightarrow> nat" where
  "digits_value acc [] = acc"
| "digits_value acc (c # cs) = (if c = 95 then digits_value acc cs else digits_value (10 * acc + (c - 48)) cs)"

text \<open>\<open>None\<close> is \<open>int('')\<close> raising, for a run of underscores; then not one definition, or one.\<close>

definition int_constant :: "ustr \<Rightarrow> ustr \<Rightarrow> nat option option" where
  "int_constant body lead =
     (case List.map_filter (binds lead) (split_on 10 body) of
        [digits] \<Rightarrow> if list_all (\<lambda>c. c = 95) digits then None else Some (Some (digits_value 0 digits))
      | _ \<Rightarrow> Some None)"

datatype drift = PyMissing string | MojoMissing string string | Differs string nat string string nat

definition mirror_one :: "ustr \<Rightarrow> (string \<Rightarrow> ustr) \<Rightarrow> string \<times> string \<times> string \<Rightarrow> drift list option" where
  "mirror_one source mojo_texts m =
     (case m of
        (py_name, mojo_path, mojo_name) \<Rightarrow>
          (case (int_constant source (str_of (py_name @ '' = '')),
                 int_constant (mojo_texts mojo_path) (str_of (''comptime '' @ mojo_name @ '' = ''))) of
             (Some py, Some mojo) \<Rightarrow>
               (case (py, mojo) of
                  (None, _) \<Rightarrow> Some [PyMissing py_name]
                | (Some _, None) \<Rightarrow> Some [MojoMissing mojo_path mojo_name]
                | (Some a, Some b) \<Rightarrow> Some (if a \<noteq> b then [Differs py_name a mojo_path mojo_name b] else []))
           | _ \<Rightarrow> None))"

fun mirror_drift :: "ustr \<Rightarrow> (string \<Rightarrow> ustr) \<Rightarrow> (string \<times> string \<times> string) list \<Rightarrow> drift list option" where
  "mirror_drift source mojo_texts [] = Some []"
| "mirror_drift source mojo_texts (m # ms) =
     (case (mirror_one source mojo_texts m, mirror_drift source mojo_texts ms) of
        (Some ds, Some es) \<Rightarrow> Some (ds @ es)
      | _ \<Rightarrow> None)"

text \<open>
  \<open>main\<close>: what is written to the target, if anything, and the exit; an exception is exit 1.
  A missing target reads as empty. (A constant of underscores alone raises, whatever else
  there is; the text of the report is not modelled.)
\<close>

definition render_check :: "ustr \<Rightarrow> (string \<Rightarrow> ustr) \<Rightarrow> ustr option \<Rightarrow> nat" where
  "render_check source mojo_texts target =
     (case stale_shim source (case target of None \<Rightarrow> [] | Some t \<Rightarrow> t) of
        Some Current \<Rightarrow> (if mirror_drift source mojo_texts MIRRORED = Some [] then 0 else 1)
      | _ \<Rightarrow> 1)"

definition render_main :: "bool \<Rightarrow> ustr \<Rightarrow> (string \<Rightarrow> ustr) \<Rightarrow> ustr option \<Rightarrow> ustr option \<times> nat" where
  "render_main check source mojo_texts target =
     (case render_shim source of
        None \<Rightarrow> (target, 1)
      | Some rendered \<Rightarrow>
          if check then (target, render_check source mojo_texts target)
          else (Some rendered, 0))"

section \<open>The compiler reads back the Python\<close>

lemma escape_concat: "replace_all [92] [92, 92] s = concat (map (\<lambda>c. if c = 92 then [92, 92] else [c]) s)"
  for s :: ustr
  by (induction s) (auto simp: replace_all.simps [of "[92]"] starts_with_def)

lemma unescape_plain: "c \<noteq> 92 \<Longrightarrow> unescape (c # r) = map_option (\<lambda>u. c # u) (unescape r)"
  by (cases r) simp_all

lemma unescape_escape:
  "unescape (replace_all [92] [92, 92] s @ t) = map_option (\<lambda>u. s @ u) (unescape t)"
  unfolding escape_concat
proof (induction s)
  case (Cons c s)
  let ?r = "concat (map (\<lambda>c. if c = 92 then [92, 92] else [c]) s) @ t"
  show ?case
    using Cons unescape_plain [of c ?r] by (cases "c = 92") (simp_all add: mojo_escape_def option.map_comp o_def)
qed (simp add: option.map_ident)

lemma contains_Cons: "contains p (x # xs) \<longleftrightarrow> starts_with p (x # xs) \<or> contains p xs"
  by simp

lemma quotes_in_escape:
  "starts_with QQQ (concat (map (\<lambda>c. if c = 92 then [92, 92] else [c]) s)) \<Longrightarrow> starts_with QQQ s"
  by (cases s; cases "tl s"; cases "tl (tl s)") (auto simp: QQQ_def starts_with_def split: if_splits)

lemma escape_no_quotes:
  "\<not> contains QQQ s \<Longrightarrow> \<not> contains QQQ (concat (map (\<lambda>c. if c = 92 then [92, 92] else [c]) s))"
proof (induction s)
  case (Cons c s)
  let ?e = "concat (map (\<lambda>c. if c = 92 then [92, 92] else [c]) s)"
  have ih: "\<not> contains QQQ ?e" and h: "\<not> starts_with QQQ (c # s)" using Cons by simp_all
  show ?case
  proof (cases "c = 92")
    case True
    then show ?thesis using ih by (simp add: QQQ_def starts_with_def)
  next
    case False
    have "\<not> starts_with QQQ (c # ?e)" using h quotes_in_escape [of "c # s"] False by auto
    then show ?thesis using ih False by simp
  qed
qed (simp add: QQQ_def)

lemma cut_at_first:
  "sep \<noteq> [] \<Longrightarrow> \<not> contains sep (a @ butlast sep) \<Longrightarrow> cut_at sep (a @ sep @ b) = Some (a, b)"
proof (induction a)
  case Nil
  then show ?case by (cases sep) (auto simp: starts_with_def)
next
  case (Cons x a)
  have l: "length sep \<le> length (x # a @ butlast sep)" using Cons.prems(1) by (cases sep) simp_all
  have "\<not> starts_with sep (x # a @ sep @ b)"
  proof
    assume "starts_with sep (x # a @ sep @ b)"
    moreover have "sep @ b = butlast sep @ last sep # b"
      using append_butlast_last_id [OF Cons.prems(1)] by (metis append.assoc append_Cons append_Nil)
    ultimately have "sep = take (length sep) ((x # a @ butlast sep) @ last sep # b)"
      by (simp add: starts_with_def)
    also have "\<dots> = take (length sep) (x # a @ butlast sep)"
      unfolding take_append using l by (simp only: diff_is_0_eq' take_0 append_Nil2)
    finally have "starts_with sep (x # a @ butlast sep)" unfolding starts_with_def by (rule sym)
    then show False using Cons.prems(2) by simp
  qed
  then show ?case using Cons by simp
qed

lemma no_quotes_before:
  "\<not> contains QQQ X \<Longrightarrow> \<not> contains (QQQ @ [10]) (X @ QQQ)"
proof (induction X)
  case (Cons x xs)
  have "\<not> starts_with (QQQ @ [10]) ((x # xs) @ QQQ)"
    using Cons.prems by (cases xs; cases "tl xs") (auto simp: QQQ_def starts_with_def)
  then show ?case using Cons by simp
qed (simp add: QQQ_def starts_with_def)

text \<open>The equals sign of the opening line is the first of the file.\<close>

lemma open_mark_first: "\<not> contains OPEN_MARK (HEADER @ butlast OPEN_MARK)"
proof
  define w where "w = str_of ''comptime SHIM_SOURCE ''"
  have p: "OPEN_MARK = w @ 61 # 32 # QQQ" "butlast OPEN_MARK = w @ [61, 32, 34, 34]"
    by (simp_all add: OPEN_MARK_def w_def str_of_def QQQ_def)
  have w: "61 \<notin> set w" by (simp add: w_def str_of_def)
  have h: "61 \<notin> set HEADER" by (simp add: HEADER_def str_of_def QQQ_def)
  assume "contains OPEN_MARK (HEADER @ butlast OPEN_MARK)"
  then obtain a b where ab: "HEADER @ w @ [61, 32, 34, 34] = a @ w @ 61 # 32 # QQQ @ b"
    unfolding p(2) unfolding p(1) by (auto simp: contains_iff)
  have "filter (\<lambda>c. c = 61) HEADER = []" using h by (auto simp: filter_empty_conv)
  with arg_cong [OF ab, of "\<lambda>l. length (filter (\<lambda>c. c = 61) l)"] w
  have "filter (\<lambda>c. c = 61) a = []" by (simp add: QQQ_def)
  then have a: "61 \<notin> set a" by (auto simp: filter_empty_conv)
  have tw: "takeWhile (\<lambda>c. c \<noteq> 61) (x @ w @ 61 # r) = x @ w" if "61 \<notin> set x" for x r
    using that w by (auto simp: takeWhile_append)
  have "HEADER @ w = a @ w"
    using arg_cong [OF ab, of "takeWhile (\<lambda>c. c \<noteq> 61)"] tw [OF h] tw [OF a] by simp
  then have "HEADER = a" by simp
  then show False using ab by (simp add: QQQ_def)
qed

lemma contains_later: "contains (p @ q) s \<Longrightarrow> contains q s"
  by (auto simp: contains_iff) (metis append.assoc)

lemma render_extract:
  assumes "render_shim source = Some r"
  shows "extract_shim r = Some source"
proof -
  obtain s where s: "source = s @ [10]"
    using assms by (auto simp: render_shim_def ends_with_iff split: if_splits)
  let ?e = "replace_all [92] [92, 92] s"
  have q: "\<not> contains QQQ source" and r: "r = HEADER @ OPEN_MARK @ ([10] @ replace_all [92] [92, 92] source @ QQQ @ [10])"
    using assms by (auto simp: render_shim_def escape_def split: if_splits)
  have e: "replace_all [92] [92, 92] source = ?e @ [10]"
    unfolding s escape_concat by simp
  have lit: "[10] @ replace_all [92] [92, 92] source @ QQQ @ [10] = ([10] @ ?e) @ CLOSE_MARK @ []"
    unfolding e by (simp add: CLOSE_MARK_def)
  have "\<not> contains QQQ ([10] @ ?e @ [10])"
    using escape_no_quotes [OF q] unfolding escape_concat [symmetric] e by (simp add: QQQ_def starts_with_def)
  then have "\<not> contains (QQQ @ [10]) (([10] @ ?e @ [10]) @ QQQ)" by (rule no_quotes_before)
  moreover have "([10] @ ?e @ [10]) @ QQQ = ([10] @ ?e) @ butlast CLOSE_MARK" by (simp add: CLOSE_MARK_def QQQ_def)
  ultimately have "\<not> contains CLOSE_MARK (([10] @ ?e) @ butlast CLOSE_MARK)"
    using contains_later [of "[10]" "QQQ @ [10]"] unfolding CLOSE_MARK_def by metis
  then have c: "cut_at CLOSE_MARK (([10] @ ?e) @ CLOSE_MARK @ []) = Some ([10] @ ?e, [])"
    by (intro cut_at_first) (simp_all add: CLOSE_MARK_def)
  have o: "cut_at OPEN_MARK (HEADER @ OPEN_MARK @ x) = Some (HEADER, x)" for x
    by (rule cut_at_first [OF _ open_mark_first]) (simp add: OPEN_MARK_def QQQ_def)
  have "unescape (([10] @ ?e) @ [10]) = Some ([10] @ s @ [10])"
    using unescape_escape [of "[10] @ s" "[10]"] by (simp add: escape_concat)
  then show ?thesis
    unfolding extract_shim_def r o option.case prod.case unfolding lit c using s by simp
qed

text \<open>
  C30. The binary runs the shim that was tested: whatever Python source is rendered, the
  literal in the Mojo file, unescaped as the compiler does it, is that source exactly.
\<close>

theorem rendering_reads_back:
  assumes "render_shim source = Some r"
  shows "extract_shim r = Some source"
  by (rule render_extract [OF assms])

theorem rendering_reads_back_witness:
  "\<exists>r. render_shim [120, 61, 39, 92, 110, 39, 10] = Some r \<and> extract_shim r = Some [120, 61, 39, 92, 110, 39, 10]"
proof -
  have "\<not> contains QQQ [120, 61, 39, 92, 110, 39, 10]" by (simp add: QQQ_def starts_with_def)
  then obtain r where r: "render_shim [120, 61, 39, 92, 110, 39, 10] = Some r"
    by (simp add: render_shim_def escape_def ends_with_def starts_with_def)
  then show ?thesis using rendering_reads_back [OF r] by simp
qed

section \<open>The check is exact\<close>

definition mirrors :: "ustr \<Rightarrow> (string \<Rightarrow> ustr) \<Rightarrow> string \<times> string \<times> string \<Rightarrow> bool" where
  "mirrors source mojo_texts m \<longleftrightarrow>
     (case m of (py_name, mojo_path, mojo_name) \<Rightarrow>
        \<exists>n. int_constant source (str_of (py_name @ '' = '')) = Some (Some n) \<and>
            int_constant (mojo_texts mojo_path) (str_of (''comptime '' @ mojo_name @ '' = '')) = Some (Some n))"

lemma mirror_one_ok: "mirror_one source mojo_texts m = Some [] \<longleftrightarrow> mirrors source mojo_texts m"
  by (cases m) (auto simp: mirror_one_def mirrors_def split: option.splits)

lemma mirror_drift_ok: "mirror_drift source mojo_texts ms = Some [] \<longleftrightarrow> (\<forall>m\<in>set ms. mirrors source mojo_texts m)"
  by (induction ms) (auto simp: mirror_one_ok [symmetric] split: option.splits)

text \<open>
  \<open>--check\<close> passes exactly when the committed file is the rendering of the source and each
  mirrored number is bound once on both sides, to the same value; it never writes.
\<close>

lemma render_check_exact:
  "render_main True source mojo_texts target = (target, 0) \<longleftrightarrow>
     (\<exists>r. render_shim source = Some r \<and> target = Some r) \<and> (\<forall>m\<in>set MIRRORED. mirrors source mojo_texts m)"
proof (cases "render_shim source")
  case None
  then show ?thesis by (simp add: render_main_def)
next
  case (Some r)
  have r: "r \<noteq> []" using Some by (auto simp: render_shim_def OPEN_MARK_def QQQ_def split: if_splits)
  have "stale_shim source t = Some Current \<longleftrightarrow> t = r" for t
    using render_extract [OF Some] by (auto simp: stale_shim_def Some)
  moreover have "render_check source mojo_texts target = 0 \<longleftrightarrow>
      stale_shim source (case target of None \<Rightarrow> [] | Some t \<Rightarrow> t) = Some Current \<and> mirror_drift source mojo_texts MIRRORED = Some []"
    by (simp add: render_check_def split: option.split staleness.split)
  ultimately have "render_check source mojo_texts target = 0 \<longleftrightarrow> target = Some r \<and> mirror_drift source mojo_texts MIRRORED = Some []"
    using r by (cases target) simp_all
  then show ?thesis unfolding mirror_drift_ok using Some by (auto simp: render_main_def)
qed

definition tiny_shim :: ustr where
  "tiny_shim = str_of ''_WS_DATAGRAM_MAX = 7'' @ [10] @ str_of ''_WS_TAG_HEADER = 1_0'' @ [10] @ str_of ''_WS_IN_WINDOW = 3'' @ [10]"

definition tiny_mojo :: ustr where
  "tiny_mojo = str_of ''comptime WS_DATAGRAM_MAX = 7'' @ [10] @ str_of ''comptime WS_TAG_HEADER = 10'' @ [10] @
     str_of ''comptime WS_IN_WINDOW = 3'' @ [10]"

lemma starts_with_Cons:
  "starts_with [] s" "\<not> starts_with (x # xs) []" "starts_with (x # xs) (y # ys) \<longleftrightarrow> x = y \<and> starts_with xs ys"
  by (auto simp: starts_with_def)

lemma tiny_lines:
  "split_on 10 tiny_shim = [str_of ''_WS_DATAGRAM_MAX = '' @ [55], str_of ''_WS_TAG_HEADER = '' @ [49, 95, 48], str_of ''_WS_IN_WINDOW = '' @ [51], []]"
  "split_on 10 tiny_mojo = [str_of ''comptime WS_DATAGRAM_MAX = '' @ [55], str_of ''comptime WS_TAG_HEADER = '' @ [49, 48],
     str_of ''comptime WS_IN_WINDOW = '' @ [51], []]"
  by (simp_all add: tiny_shim_def tiny_mojo_def str_of_def)

lemma tiny_binds:
  "int_constant tiny_shim (str_of ''_WS_DATAGRAM_MAX = '') = Some (Some 7)"
  "int_constant tiny_shim (str_of ''_WS_TAG_HEADER = '') = Some (Some 10)"
  "int_constant tiny_shim (str_of ''_WS_IN_WINDOW = '') = Some (Some 3)"
  "int_constant tiny_mojo (str_of ''comptime WS_DATAGRAM_MAX = '') = Some (Some 7)"
  "int_constant tiny_mojo (str_of ''comptime WS_TAG_HEADER = '') = Some (Some 10)"
  "int_constant tiny_mojo (str_of ''comptime WS_IN_WINDOW = '') = Some (Some 3)"
  unfolding int_constant_def tiny_lines
  by (simp_all add: map_filter_simps str_of_def binds_def starts_with_Cons digit_or_line_def)

lemma tiny_mirrors: "m \<in> set MIRRORED \<Longrightarrow> mirrors tiny_shim (\<lambda>_. tiny_mojo) m"
  using tiny_binds by (auto simp: MIRRORED_def mirrors_def)

lemma render_check_exact_witness:
  "\<exists>r. render_main True tiny_shim (\<lambda>_. tiny_mojo) (Some r) = (Some r, 0)"
proof -
  have "\<not> contains QQQ tiny_shim" "13 \<notin> set tiny_shim"
    by (simp_all add: QQQ_def tiny_shim_def str_of_def starts_with_def)
  then obtain r where "render_shim tiny_shim = Some r"
    by (simp add: render_shim_def escape_def ends_with_def starts_with_def tiny_shim_def)
  then show ?thesis
    using render_check_exact [of tiny_shim "\<lambda>_. tiny_mojo" "Some r" for r] tiny_mirrors by blast
qed

end
