(* ===== verification/Serve_Stamp.thy ===== *)
theory Serve_Stamp
  imports Portability Py_Hash "HOL-Library.Finite_Map" "HOL-Library.List_Lexorder"
begin

text \<open>
  When a build may be skipped (scripts/serve_stamp.py): the digest of everything the compiler
  reads, the stamp a build leaves, and the check that compares the two. \<open>None\<close> is an
  exception, which the task takes as "build". JSON text is written and read by arguments.
\<close>

section \<open>The world a build reads\<close>

datatype fs_node = NFile bytes | NUnreadable | NDir "(ustr \<times> fs_node) list"

text \<open>
  What lies at a path; \<open>shutil.which('mojo')\<close> and what \<open>--version\<close> said; the installed
  distributions; the task's body; the environment; the names in the toolchain's first library
  directory; the paths that cannot be written.
\<close>

record build_world =
  w_node :: "ustr \<Rightarrow> fs_node option"
  w_mojo :: "ustr option"
  w_said :: ustr
  w_dists :: "ustr list"
  w_task :: "ustr option"
  w_environ :: "(ustr \<times> ustr) list"
  w_lib :: "ustr list option"
  w_readonly :: "ustr \<Rightarrow> bool"

definition is_file :: "build_world \<Rightarrow> ustr \<Rightarrow> bool" where
  "is_file w p \<longleftrightarrow> (case w_node w p of Some (NFile _) \<Rightarrow> True | Some NUnreadable \<Rightarrow> True | _ \<Rightarrow> False)"

definition put :: "ustr \<Rightarrow> fs_node option \<Rightarrow> build_world \<Rightarrow> build_world" where
  "put p x w = w\<lparr>w_node := (w_node w)(p := x)\<rparr>"

section \<open>Arguments\<close>

definition VALUE_FLAGS :: "ustr list" where
  "VALUE_FLAGS = [str_of ''-I'', str_of ''-o'', str_of ''--target-cpu'', str_of ''-D'', str_of ''-Xlinker'']"

fun parse_args :: "ustr list \<Rightarrow> ustr list \<Rightarrow> ustr list \<Rightarrow> ustr option \<Rightarrow> (ustr list \<times> ustr list \<times> ustr option) option" where
  "parse_args [] roots entries out = Some (roots, entries, out)"
| "parse_args [a] roots entries out =
     (if a \<in> set VALUE_FLAGS then None
      else Some (roots, (if starts_with [45] a then entries else entries @ [a]), out))"
| "parse_args (a # v # rest) roots entries out =
     (if a \<in> set VALUE_FLAGS
      then parse_args rest (if a = str_of ''-I'' then roots @ [v] else roots) entries
             (if a = str_of ''-o'' then Some v else out)
      else parse_args (v # rest) roots (if starts_with [45] a then entries else entries @ [a]) out)"

definition dir_or_dot :: "ustr \<Rightarrow> ustr" where
  "dir_or_dot p = (if u_dir p = [] then [46] else u_dir p)"

fun first_seen :: "ustr list \<Rightarrow> ustr list \<Rightarrow> ustr list" where
  "first_seen seen [] = seen"
| "first_seen seen (r # rs) = first_seen (if r \<in> set seen then seen else seen @ [r]) rs"

definition parse :: "ustr list \<Rightarrow> (ustr list \<times> ustr) option" where
  "parse argv =
     (case parse_args argv [] [] None of
        Some (roots, entries, Some out) \<Rightarrow>
          Some (first_seen [] (map u_norm (roots @ map dir_or_dot entries)), out)
      | _ \<Rightarrow> None)"

section \<open>Digests\<close>

definition sha :: "bytes \<Rightarrow> ustr" where
  "sha b = str_of (hexdigest (sha256 b))"

definition sha_text :: "ustr \<Rightarrow> ustr option" where
  "sha_text t = map_option sha (utf8_encode t)"

definition node_digest :: "fs_node option \<Rightarrow> ustr" where
  "node_digest x = (case x of Some (NFile b) \<Rightarrow> sha b | _ \<Rightarrow> str_of ''missing'')"

definition file_digest :: "build_world \<Rightarrow> ustr \<Rightarrow> ustr" where
  "file_digest w p = node_digest (w_node w p)"

text \<open>What the compiler can load: two of the suffixes are a character outside Latin-1.\<close>

definition SOURCE_SUFFIXES :: "ustr list" where
  "SOURCE_SUFFIXES = [str_of ''.mojo'', [46, 0x1F525], str_of ''.mojoc'', str_of ''.mojopkg'', [46, 0x1F4E6]]"

definition is_source :: "ustr \<times> fs_node \<Rightarrow> bool" where
  "is_source e \<longleftrightarrow> (case snd e of NDir _ \<Rightarrow> False | _ \<Rightarrow> list_ex (\<lambda>s. ends_with s (fst e)) SOURCE_SUFFIXES)"

definition is_walked :: "ustr \<times> fs_node \<Rightarrow> bool" where
  "is_walked e \<longleftrightarrow>
     (case snd e of NDir _ \<Rightarrow> \<not> starts_with [46] (fst e) \<and> fst e \<noteq> str_of ''__pycache__'' | _ \<Rightarrow> False)"

definition under :: "ustr \<Rightarrow> ustr \<Rightarrow> ustr" where
  "under rel name = (if rel = [] then name else rel @ [47] @ name)"

lemma member_smaller: "(n, x) \<in> set es \<Longrightarrow> size x < size (NDir es)"
  by (induction es) auto

text \<open>\<open>os.walk\<close>, top down: the source files of a directory, then its directories, in order.\<close>

function tree_files :: "ustr \<Rightarrow> (ustr \<times> fs_node) list \<Rightarrow> (ustr \<times> fs_node) list" where
  "tree_files rel es =
     map (\<lambda>(n, x). (under rel n, x)) (sort_key fst (filter is_source es)) @
     concat (map (\<lambda>(n, x). case x of NDir ds \<Rightarrow> tree_files (under rel n) ds | _ \<Rightarrow> [])
       (sort_key fst (filter is_walked es)))"
  by pat_completeness auto
termination
proof (relation "measure (\<lambda>(rel, es). size (NDir es))", goal_cases)
  case (2 rel es z n x ds)
  then have "(n, NDir ds) \<in> set es" by auto
  then show ?case using member_smaller [of n "NDir ds" es] by simp
qed simp

declare tree_files.simps [simp del]

definition tree_line :: "ustr \<times> fs_node \<Rightarrow> bytes option" where
  "tree_line f =
     map_option (\<lambda>e. e @ [0] @ map u8 (node_digest (Some (snd f))) @ [10]) (utf8_encode (fst f))"

fun tree_text :: "(ustr \<times> fs_node) list \<Rightarrow> bytes option" where
  "tree_text [] = Some []"
| "tree_text (f # fs) =
     (case (tree_line f, tree_text fs) of (Some a, Some b) \<Rightarrow> Some (a @ b) | _ \<Rightarrow> None)"

definition tree_digest :: "build_world \<Rightarrow> ustr \<Rightarrow> ustr option" where
  "tree_digest w root =
     (case w_node w root of
        Some (NDir es) \<Rightarrow> map_option sha (tree_text (tree_files [] es))
      | _ \<Rightarrow> Some (str_of ''missing''))"

definition toolchain :: "build_world \<Rightarrow> ustr option" where
  "toolchain w =
     sha_text (join [10]
       ([case w_mojo w of None \<Rightarrow> str_of ''None'' | Some p \<Rightarrow> p,
         case w_mojo w of None \<Rightarrow> str_of ''no mojo on PATH'' | Some _ \<Rightarrow> w_said w] @ sort (w_dists w)))"

definition environment :: "build_world \<Rightarrow> ustr option" where
  "environment w =
     sha_text (join [10] (sort (map (\<lambda>(k, v). k @ [61] @ v)
       (filter (\<lambda>(k, v). starts_with (str_of ''MOJO_'') k \<or> starts_with (str_of ''MODULAR_'') k) (w_environ w)))))"

definition SCRIPTS :: "ustr list" where
  "SCRIPTS = [str_of ''scripts/relocate.py'', str_of ''scripts/bundle_artifact.py'',
     str_of ''scripts/binfmt.py'', str_of ''scripts/serve_stamp.py'']"

fun tree_digests :: "build_world \<Rightarrow> ustr list \<Rightarrow> (ustr \<times> ustr) list option" where
  "tree_digests w [] = Some []"
| "tree_digests w (r # rs) =
     (case (tree_digest w r, tree_digests w rs) of
        (Some d, Some ds) \<Rightarrow> Some ((str_of ''sources under '' @ r, d) # ds)
      | _ \<Rightarrow> None)"

definition inputs :: "build_world \<Rightarrow> ustr list \<Rightarrow> (ustr, ustr) fmap option" where
  "inputs w argv =
     (case (parse argv, sha_text (join [0] argv), toolchain w, w_task w, environment w) of
        (Some (roots, _), Some args, Some tools, Some body, Some env) \<Rightarrow>
          (case (sha_text body, tree_digests w roots) of
             (Some task, Some trees) \<Rightarrow>
               Some (fmap_of_list
                 (rev ([(str_of ''arguments'', args), (str_of ''toolchain'', tools),
                        (str_of ''task body'', task), (str_of ''environment'', env)] @
                       map (\<lambda>s. (s, file_digest w s)) SCRIPTS @ trees)))
           | _ \<Rightarrow> None)
      | _ \<Rightarrow> None)"

text \<open>\<open>str(Path(dir, name))\<close> for a name without a slash.\<close>

definition beside :: "ustr \<Rightarrow> ustr \<Rightarrow> ustr" where
  "beside out name =
     (let parts = filter (\<lambda>c. c \<noteq> [] \<and> c \<noteq> [46]) (split_on 47 (dir_or_dot out)) @ [name];
          root = (if starts_with [47] (dir_or_dot out) then [47] else [])
      in root @ join [47] parts)"

definition outputs :: "build_world \<Rightarrow> ustr \<Rightarrow> (ustr, ustr) fmap" where
  "outputs w out =
     fmap_of_list (rev
       ((out, file_digest w out) #
        (case w_lib w of
           None \<Rightarrow> []
         | Some names \<Rightarrow>
             map (\<lambda>p. (p, file_digest w p)) (filter (is_file w) (map (beside out) (sort names))))))"

section \<open>The stamp\<close>

definition stamp_path :: "ustr \<Rightarrow> ustr" where "stamp_path out = out @ str_of ''.stamp''"
definition pending_path :: "ustr \<Rightarrow> ustr" where "pending_path out = out @ str_of ''.stamp.next''"
definition stamp_tmp :: "ustr \<Rightarrow> ustr" where "stamp_tmp out = stamp_path out @ str_of ''.tmp''"

datatype js = JsNum int | JsStr ustr | JsList "js list" | JsObj "(ustr, js) fmap" | JsOther

text \<open>
  \<open>dict(v)\<close> of a JSON value. (A list of pairs, which \<open>dict\<close> would also take, is read as one that
  does not parse.)
\<close>

definition as_dict :: "js \<Rightarrow> (ustr, js) fmap option" where
  "as_dict v =
     (case v of JsObj m \<Rightarrow> Some m | JsList xs \<Rightarrow> if xs = [] then Some fmempty else None
      | JsStr s \<Rightarrow> if s = [] then Some fmempty else None | _ \<Rightarrow> None)"

definition js_strings :: "(ustr, ustr) fmap \<Rightarrow> js" where
  "js_strings m = JsObj (fmmap JsStr m)"

definition js_field :: "ustr \<Rightarrow> js \<Rightarrow> js option" where
  "js_field k v = (case v of JsObj m \<Rightarrow> fmlookup m k | _ \<Rightarrow> None)"

datatype stamp_read = NoStamp | BadStamp | StampRead "(ustr, js) fmap" "(ustr, js) fmap"

definition read_json :: "(bytes \<Rightarrow> js option) \<Rightarrow> fs_node \<Rightarrow> js option" where
  "read_json loads x = (case x of NFile b \<Rightarrow> loads b | _ \<Rightarrow> None)"

definition stamp_of_js :: "js \<Rightarrow> stamp_read" where
  "stamp_of_js v =
     (if js_field (str_of ''format'') v \<noteq> Some (JsNum 1) then BadStamp
      else (case (js_field (str_of ''inputs'') v, js_field (str_of ''outputs'') v) of
              (Some i, Some out) \<Rightarrow>
                (case (as_dict i, as_dict out) of
                   (Some a, Some b) \<Rightarrow> StampRead a b
                 | _ \<Rightarrow> BadStamp)
            | _ \<Rightarrow> BadStamp))"

definition read_stamp :: "(bytes \<Rightarrow> js option) \<Rightarrow> build_world \<Rightarrow> ustr \<Rightarrow> stamp_read" where
  "read_stamp loads w out =
     (case w_node w (stamp_path out) of
        None \<Rightarrow> NoStamp
      | Some x \<Rightarrow> (case read_json loads x of None \<Rightarrow> BadStamp | Some v \<Rightarrow> stamp_of_js v))"

datatype reason = NoBinary | NoStampThere | StampBad | InputChanged ustr | OutputMissing ustr | OutputDiffers ustr

definition input_reasons :: "(ustr, ustr) fmap \<Rightarrow> (ustr, js) fmap \<Rightarrow> reason list" where
  "input_reasons now was =
     map InputChanged (filter (\<lambda>k. map_option JsStr (fmlookup now k) \<noteq> fmlookup was k)
       (sorted_list_of_set (fset (fmdom now) \<union> fset (fmdom was))))"

definition output_reason :: "build_world \<Rightarrow> (ustr, js) fmap \<Rightarrow> ustr \<Rightarrow> reason list" where
  "output_reason w was p =
     (if \<not> is_file w p then [OutputMissing p]
      else if Some (JsStr (file_digest w p)) \<noteq> fmlookup was p then [OutputDiffers p]
      else [])"

definition reasons :: "(bytes \<Rightarrow> js option) \<Rightarrow> build_world \<Rightarrow> ustr \<Rightarrow> (ustr, ustr) fmap \<Rightarrow> reason list" where
  "reasons loads w out now =
     (if \<not> is_file w out then [NoBinary] else []) @
     (case read_stamp loads w out of
        NoStamp \<Rightarrow> [NoStampThere]
      | BadStamp \<Rightarrow> [StampBad]
      | StampRead was_in was_out \<Rightarrow>
          input_reasons now was_in @
          concat (map (output_reason w was_out) (sorted_list_of_set (fset (fmdom was_out)))))"

definition pending_js :: "ustr list \<Rightarrow> (ustr, ustr) fmap \<Rightarrow> js" where
  "pending_js argv now =
     JsObj (fmap_of_list [(str_of ''format'', JsNum 1), (str_of ''argv'', JsList (map JsStr argv)),
       (str_of ''inputs'', js_strings now)])"

definition check ::
    "(js \<Rightarrow> bytes) \<Rightarrow> (bytes \<Rightarrow> js option) \<Rightarrow> ustr list \<Rightarrow> build_world \<Rightarrow> (nat \<times> reason list \<times> build_world) option" where
  "check dumps loads argv w =
     (case (parse argv, inputs w argv) of
        (Some (_, out), Some now) \<Rightarrow>
          (let rs = reasons loads w out now in
           if rs = [] then Some (0, [], w)
           else Some (1, rs,
             if w_readonly w (pending_path out) then w
             else put (pending_path out) (Some (NFile (dumps (pending_js argv now)))) w))
      | _ \<Rightarrow> None)"

definition stamp_js :: "(ustr, js) fmap \<Rightarrow> (ustr, ustr) fmap \<Rightarrow> js" where
  "stamp_js read outs =
     JsObj (fmap_of_list [(str_of ''format'', JsNum 1), (str_of ''inputs'', JsObj read),
       (str_of ''outputs'', js_strings outs)])"

text \<open>The inputs the check of this build read, if there are any for these arguments.\<close>

definition read_pending :: "(bytes \<Rightarrow> js option) \<Rightarrow> ustr list \<Rightarrow> build_world \<Rightarrow> ustr \<Rightarrow> (ustr, js) fmap option" where
  "read_pending loads argv w out =
     (case w_node w (pending_path out) of
        None \<Rightarrow> None
      | Some x \<Rightarrow>
          (case read_json loads x of
             None \<Rightarrow> None
           | Some v \<Rightarrow>
               (case (js_field (str_of ''inputs'') v, js_field (str_of ''argv'') v) of
                  (Some i, Some checked) \<Rightarrow> if checked \<noteq> JsList (map JsStr argv) then None else as_dict i
                | _ \<Rightarrow> None)))"

definition write_stamp ::
    "(js \<Rightarrow> bytes) \<Rightarrow> (bytes \<Rightarrow> js option) \<Rightarrow> ustr list \<Rightarrow> build_world \<Rightarrow> build_world option" where
  "write_stamp dumps loads argv w =
     (case parse argv of
        None \<Rightarrow> None
      | Some (_, out) \<Rightarrow>
          (case read_pending loads argv w out of
             None \<Rightarrow> Some w
           | Some read \<Rightarrow>
               if w_readonly w (stamp_tmp out) \<or> w_readonly w (stamp_path out) then None
               else Some (put (pending_path out) None
                      (put (stamp_path out) (Some (NFile (dumps (stamp_js read (outputs w out))))) w))))"

section \<open>Only a proven match skips\<close>

lemma paths_differ [simp]: "pending_path out \<noteq> stamp_path out" "stamp_path out \<noteq> pending_path out"
  by (auto simp: pending_path_def stamp_path_def str_of_def)

lemma fmap_keys_simps:
  "str_of ''inputs'' \<noteq> str_of ''format''" "str_of ''outputs'' \<noteq> str_of ''format''"
  "str_of ''outputs'' \<noteq> str_of ''inputs''" "str_of ''inputs'' \<noteq> str_of ''argv''" "str_of ''argv'' \<noteq> str_of ''format''"
  by (simp_all add: str_of_def)

lemma stamp_js_read: "stamp_of_js (stamp_js read outs) = StampRead read (fmmap JsStr outs)"
  using fmap_keys_simps
  by (simp add: stamp_of_js_def stamp_js_def js_field_def fmlookup_of_list as_dict_def js_strings_def)

lemma pending_js_fields:
  "js_field (str_of ''inputs'') (pending_js argv now) = Some (JsObj (fmmap JsStr now))"
  "js_field (str_of ''argv'') (pending_js argv now) = Some (JsList (map JsStr argv))"
  using fmap_keys_simps by (simp_all add: pending_js_def js_field_def fmlookup_of_list js_strings_def)

lemma input_reasons_none:
  assumes "input_reasons now (fmmap JsStr was) = []"
  shows "now = was"
proof (rule fmap_ext)
  fix k
  have "map_option JsStr (fmlookup now k) = fmlookup (fmmap JsStr was) k"
  proof (cases "k \<in> fset (fmdom now) \<union> fset (fmdom was)")
    case True
    then show ?thesis using assms by (fastforce simp: input_reasons_def filter_empty_conv)
  next
    case False
    then have "fmlookup now k = None" "fmlookup was k = None"
      by (auto simp: fmdom_notI fmlookup_dom_iff)
    then show ?thesis by simp
  qed
  then show "fmlookup now k = fmlookup was k"
    by (cases "fmlookup now k"; cases "fmlookup was k") auto
qed

lemma output_reasons_none:
  assumes "concat (map (output_reason w (fmmap JsStr was)) (sorted_list_of_set (fset (fmdom was)))) = []"
    and "fmlookup was p = Some d"
  shows "is_file w p \<and> file_digest w p = d"
proof -
  have "p \<in> fset (fmdom was)" using assms(2) by (auto simp: fmlookup_dom_iff)
  then have "output_reason w (fmmap JsStr was) p = []" using assms(1) by simp
  then show ?thesis using assms(2) by (auto simp: output_reason_def split: if_splits)
qed

text \<open>What a check that passes says of the stamp it read.\<close>

lemma check_passes:
  assumes "check dumps loads argv w = Some (0, rs, w')" and "parse argv = Some (roots, out)"
    and "read_stamp loads w out = StampRead (fmmap JsStr was_in) (fmmap JsStr was_out)"
  shows "inputs w argv = Some was_in \<and> is_file w out \<and>
    (\<forall>p d. fmlookup was_out p = Some d \<longrightarrow> is_file w p \<and> file_digest w p = d)"
proof -
  obtain now where now: "inputs w argv = Some now" and r: "reasons loads w out now = []"
    using assms(1,2) by (auto simp: check_def Let_def split: option.splits if_splits)
  have "input_reasons now (fmmap JsStr was_in) = []" "is_file w out"
    "concat (map (output_reason w (fmmap JsStr was_out)) (sorted_list_of_set (fset (fmdom was_out)))) = []"
    using r assms(3) by (auto simp: reasons_def split: if_splits)
  then show ?thesis using now input_reasons_none output_reasons_none by metis
qed


text \<open>
  A check that cannot keep the inputs says the build "will not be stamped". It will be, with
  the inputs an earlier check left, when the build after that one failed.
\<close>

lemma unkept_inputs_are_stamped:
  assumes "\<And>j. loads (dumps j) = Some j" and "parse argv = Some (roots, out)"
    and "check dumps loads argv w = Some (1, rs, w1)" and "w_readonly w (pending_path out)"
    and "w_node w (pending_path out) = Some (NFile (dumps (pending_js argv old)))"
    and "\<not> w_readonly w (stamp_tmp out)" and "\<not> w_readonly w (stamp_path out)"
  shows "\<exists>w2. write_stamp dumps loads argv w1 = Some w2 \<and>
    read_stamp loads w2 out = StampRead (fmmap JsStr old) (fmmap JsStr (outputs w out))"
proof -
  have "w1 = w" using assms(2,3,4) by (auto simp: check_def Let_def split: option.splits if_splits)
  moreover have "read_pending loads argv w out = Some (fmmap JsStr old)"
    using assms(5) by (simp add: read_pending_def read_json_def assms(1) pending_js_fields as_dict_def)
  ultimately show ?thesis using assms(2,6,7)
    by (simp add: write_stamp_def put_def read_stamp_def read_json_def assms(1) stamp_js_read)
qed

end
