(* ===== verification/Serve_Props.thy ===== *)
theory Serve_Props
  imports Serve_Stamp "HOL-Library.Countable"
begin

text \<open>
  What the digests of serve\_stamp.py say of the sources, and a build for which the stamp's
  main theorem holds.
\<close>

section \<open>A digest names its files\<close>

lemma cut_at_byte:
  fixes k :: byte
  assumes "x @ k # r = y @ k # s" and "k \<notin> set x" and "k \<notin> set y"
  shows "x = y \<and> r = s"
  using assms
proof (induction x arbitrary: y)
  case Nil
  then show ?case by (cases y) auto
next
  case (Cons a x)
  then show ?case by (cases y) auto
qed

lemma line_unique:
  fixes e :: bytes
  assumes "e @ [0] @ d @ [10] @ r = e' @ [0] @ d' @ [10] @ r'"
    and "0 \<notin> set e" "0 \<notin> set e'" "10 \<notin> set d" "10 \<notin> set d'"
  shows "e = e' \<and> d = d' \<and> r = r'"
  using assms cut_at_byte [of e 0 "d @ [10] @ r" e' "d' @ [10] @ r'"] cut_at_byte [of d 10 r d' r'] by simp

lemma hex_plain: "c \<in> set (str_of (hexdigest b)) \<Longrightarrow> c < 128 \<and> c \<noteq> 10"
proof -
  have "list_all (\<lambda>h. of_char h < (128 :: nat) \<and> of_char h \<noteq> (10 :: nat)) (hexdigest b)"
    by (rule hexdigest_all) (simp add: hex_digits_def)
  then show "c \<in> set (str_of (hexdigest b)) \<Longrightarrow> c < 128 \<and> c \<noteq> 10"
    by (auto simp: str_of_def list_all_iff)
qed

lemma digest_plain: "c \<in> set (node_digest x) \<Longrightarrow> c < 128 \<and> c \<noteq> 10"
  using hex_plain by (auto simp: node_digest_def sha_def str_of_def split: option.splits fs_node.splits)

lemma u8_inj: "c < 128 \<Longrightarrow> d < 128 \<Longrightarrow> u8 c = u8 d \<longleftrightarrow> c = d"
  by (auto simp: u8_def dest!: arg_cong [where f = unat] simp: unat_of_nat)

lemma digest_bytes_inj:
  assumes "map u8 (node_digest x) = map u8 (node_digest y)"
  shows "node_digest x = node_digest y"
proof -
  have "inj_on u8 (set (node_digest x) \<union> set (node_digest y))"
    using digest_plain u8_inj by (auto simp: inj_on_def)
  then show ?thesis using assms by (rule inj_on_map_eq_map [THEN iffD1])
qed

lemma digest_no_newline: "10 \<notin> set (map u8 (node_digest x))"
  using digest_plain [of _ x] u8_inj [of _ 10] by (force simp: u8_def)

lemma name_no_nul: "utf8_encode n = Some e \<Longrightarrow> 0 \<notin> set n \<Longrightarrow> 0 \<notin> set e"
  using utf8_bytes_below [of n 0] by (auto simp: utf8_encode_bytes)

lemma tree_text_unique:
  assumes "tree_text fs = Some t" and "tree_text gs = Some t"
    and "\<forall>f\<in>set fs \<union> set gs. 0 \<notin> set (fst f)"
  shows "map (\<lambda>f. (fst f, node_digest (Some (snd f)))) fs = map (\<lambda>f. (fst f, node_digest (Some (snd f)))) gs"
  using assms
proof (induction fs arbitrary: gs t)
  case Nil
  then show ?case by (cases gs) (auto simp: tree_line_def split: option.splits)
next
  case (Cons f fs)
  then obtain g gs' where gs: "gs = g # gs'"
    by (cases gs) (auto simp: tree_line_def split: option.splits)
  obtain e r e' r' where
    f: "utf8_encode (fst f) = Some e" "tree_text fs = Some r" and
    g: "utf8_encode (fst g) = Some e'" "tree_text gs' = Some r'" and
    t: "t = (e @ [0] @ map u8 (node_digest (Some (snd f))) @ [10]) @ r"
       "t = (e' @ [0] @ map u8 (node_digest (Some (snd g))) @ [10]) @ r'"
    using Cons.prems(1,2) unfolding gs by (auto simp: tree_line_def split: option.splits)
  have "e = e' \<and> map u8 (node_digest (Some (snd f))) = map u8 (node_digest (Some (snd g))) \<and> r = r'"
  proof (rule line_unique [OF _ _ _ digest_no_newline digest_no_newline])
    show "0 \<notin> set e" "0 \<notin> set e'"
      using name_no_nul [OF f(1)] name_no_nul [OF g(1)] Cons.prems(3) gs by simp_all
  qed (use t in simp)
  then have "fst f = fst g" "node_digest (Some (snd f)) = node_digest (Some (snd g))" "r = r'"
    using utf8_roundtrip [OF f(1)] utf8_roundtrip [OF g(1)] digest_bytes_inj by auto
  then show ?case
    using Cons.IH [OF f(2), of gs'] g(2) Cons.prems(3) gs by simp
qed

lemma tree_files_no_dirs: "(p, NDir ds) \<notin> set (tree_files rel es)"
proof (induction rel es arbitrary: p ds rule: tree_files.induct)
  case (1 rel es)
  have "(n, NDir xs) \<notin> set (sort_key fst (filter is_source es))" for n xs by (simp add: is_source_def)
  moreover have "(p, NDir ds) \<notin> set (tree_files (under rel n) xs)"
    if "(n, NDir xs) \<in> set (sort_key fst (filter is_walked es))" for n xs
    using 1 [OF that refl refl] .
  ultimately show ?case
    by (subst tree_files.simps) (auto split: fs_node.splits)
qed

lemma missing_is_no_digest: "sha b \<noteq> str_of ''missing''"
proof
  assume "sha b = str_of ''missing''"
  then have "length (sha b) = 7" by (simp add: str_of_def)
  then show False by (simp add: sha_def str_of_def)
qed

lemma digest_node_eq:
  assumes d: "node_digest (Some x) = node_digest (Some y)" and "\<And>ds. x \<noteq> NDir ds" and "\<And>ds. y \<noteq> NDir ds"
    and c: "\<And>b b'. x = NFile b \<Longrightarrow> y = NFile b' \<Longrightarrow> sha b = sha b' \<Longrightarrow> b = b'"
  shows "x = y"
proof (cases x)
  case (NFile b)
  then show ?thesis using d c assms(3) missing_is_no_digest [of b] by (cases y) (auto simp: node_digest_def)
next
  case NUnreadable
  then show ?thesis using d assms(3) missing_is_no_digest [symmetric] by (cases y) (auto simp: node_digest_def)
qed (use assms(2) in blast)

text \<open>
  A changed source is seen. Two states of a root with one digest hold the same source
  files, by path and content, in every directory that is walked: one added, removed, renamed
  or edited changes the digest (as long as SHA-256 does not collide on the two listings nor
  on two contents of one file, and no file name contains a NUL).
\<close>

lemma source_change_is_seen:
  assumes "w_node w root = Some (NDir es)" and "w_node w' root = Some (NDir es')"
    and "tree_digest w root = Some d" and "tree_digest w' root = Some d"
    and "\<forall>f\<in>set (tree_files [] es) \<union> set (tree_files [] es'). 0 \<notin> set (fst f)"
    and "\<And>t t'. tree_text (tree_files [] es) = Some t \<Longrightarrow> tree_text (tree_files [] es') = Some t' \<Longrightarrow>
      sha t = sha t' \<Longrightarrow> t = t'"
    and "\<And>p b b'. (p, NFile b) \<in> set (tree_files [] es) \<Longrightarrow> (p, NFile b') \<in> set (tree_files [] es') \<Longrightarrow>
      sha b = sha b' \<Longrightarrow> b = b'"
  shows "tree_files [] es = tree_files [] es'"
proof -
  let ?fs = "tree_files [] es" and ?gs = "tree_files [] es'"
  obtain t t' where tt: "tree_text ?fs = Some t" "tree_text ?gs = Some t'" "sha t = sha t'"
    using assms(1-4) by (auto simp: tree_digest_def)
  then have t: "tree_text ?fs = Some t" "tree_text ?gs = Some t" using assms(6) [OF tt] by simp_all
  have m: "map (\<lambda>f. (fst f, node_digest (Some (snd f)))) ?fs = map (\<lambda>f. (fst f, node_digest (Some (snd f)))) ?gs"
    using tree_text_unique [OF t assms(5)] .
  then have len: "length ?fs = length ?gs" by (rule map_eq_imp_length_eq)
  show ?thesis
  proof (rule nth_equalityI [OF len])
    fix i assume i: "i < length ?fs"
    obtain p x q y where f: "?fs ! i = (p, x)" and g: "?gs ! i = (q, y)" by fastforce
    have "map (\<lambda>f. (fst f, node_digest (Some (snd f)))) ?fs ! i = map (\<lambda>f. (fst f, node_digest (Some (snd f)))) ?gs ! i"
      unfolding m ..
    then have e: "p = q" "node_digest (Some x) = node_digest (Some y)" using i len f g by simp_all
    have px: "(p, x) \<in> set ?fs" and qy: "(p, y) \<in> set ?gs"
      using nth_mem [OF i] nth_mem [of i ?gs] i len f g e(1) by simp_all
    have "x = y"
      by (rule digest_node_eq [OF e(2)]) (use px qy tree_files_no_dirs assms(7) in auto)
    then show "?fs ! i = ?gs ! i" using f g e(1) by simp
  qed
qed

definition tiny_world :: build_world where
  "tiny_world = \<lparr>w_node = (\<lambda>p. if p = [112] then Some (NDir [(str_of ''a.mojo'', NFile [7])]) else None),
     w_mojo = None, w_said = [], w_dists = [], w_task = Some [], w_environ = [], w_lib = None, w_readonly = (\<lambda>_. False)\<rparr>"

lemma source_change_is_seen_witness:
  "tree_digest tiny_world [112] = tree_digest (put [113] (Some NUnreadable) tiny_world) [112] \<and>
   tree_files [] [(str_of ''a.mojo'', NFile [7])] = [(str_of ''a.mojo'', NFile [7])]"
proof -
  let ?es = "[(str_of ''a.mojo'', NFile [7])]"
  have src: "is_source (str_of ''a.mojo'', NFile [7])"
    by (simp add: is_source_def SOURCE_SUFFIXES_def ends_with_def starts_with_def str_of_def)
  have files: "tree_files [] ?es = ?es"
    using src by (simp add: tree_files.simps is_walked_def under_def)
  have enc: "utf8_encode (str_of ''a.mojo'') = Some (map u8 (str_of ''a.mojo''))"
    by (rule utf8_ascii) (simp add: str_of_def)
  then obtain d where d: "tree_digest tiny_world [112] = Some d"
    by (simp add: tree_digest_def tiny_world_def files tree_line_def)
  have same: "tree_digest (put [113] (Some NUnreadable) tiny_world) [112] = Some d"
    using d by (simp add: tree_digest_def put_def)
  have w: "w_node tiny_world [112] = Some (NDir ?es)" "w_node (put [113] (Some NUnreadable) tiny_world) [112] = Some (NDir ?es)"
    by (simp_all add: tiny_world_def put_def)
  have "tree_files [] ?es = tree_files [] ?es"
    by (rule source_change_is_seen [OF w d same]) (simp_all only: files, auto simp: str_of_def)
  then show ?thesis using d same files by simp
qed

section \<open>A build and the check after it\<close>

instance js :: countable
  by countable_datatype

text \<open>A way to write JSON values as bytes and read them back: by their number.\<close>

definition number_dumps :: "js \<Rightarrow> bytes" where
  "number_dumps v = replicate (to_nat v) 0"

definition number_loads :: "bytes \<Rightarrow> js option" where
  "number_loads b = Some (from_nat (length b))"

lemma number_codec: "codec (\<lambda>_. True) number_dumps number_loads"
  by unfold_locales (simp add: number_dumps_def number_loads_def)

definition bare_world :: build_world where
  "bare_world = \<lparr>w_node = (\<lambda>_. None), w_mojo = None, w_said = [], w_dists = [], w_task = Some [],
     w_environ = [], w_lib = None, w_readonly = (\<lambda>_. False)\<rparr>"

definition bare_args :: "ustr list" where
  "bare_args = [str_of ''-o'', str_of ''m0'']"

definition bare_inputs :: "(ustr, ustr) fmap" where
  "bare_inputs = the (inputs bare_world bare_args)"

lemma bare_parse: "parse bare_args = Some ([], str_of ''m0'')"
  by (simp add: parse_def bare_args_def VALUE_FLAGS_def str_of_def)

text \<open>The inputs of this build are the task's and the toolchain's alone.\<close>

lemma bare_reads:
  assumes "w_mojo w = None" "w_dists w = []" "w_task w = Some []" "w_environ w = []"
    and "\<And>s. s \<in> set SCRIPTS \<Longrightarrow> w_node w s = None"
  shows "inputs w bare_args = inputs bare_world bare_args \<and> inputs bare_world bare_args \<noteq> None"
proof -
  have enc: "sha_text t \<noteq> None" if "list_all (\<lambda>c. c < 128) t" for t
    using utf8_ascii [OF that] by (simp add: sha_text_def)
  have "toolchain w = toolchain bare_world" "environment w = environment bare_world"
    using assms(1-4) by (simp_all add: toolchain_def environment_def bare_world_def)
  moreover have "map (\<lambda>s. (s, file_digest w s)) SCRIPTS = map (\<lambda>s. (s, file_digest bare_world s)) SCRIPTS"
    using assms(5) by (simp add: file_digest_def bare_world_def)
  moreover have bare_task: "w_task bare_world = Some []" by (simp add: bare_world_def)
  moreover have "toolchain bare_world \<noteq> None" "environment bare_world \<noteq> None" "sha_text (join [0] bare_args) \<noteq> None" "sha_text [] \<noteq> None"
    unfolding toolchain_def environment_def by (rule enc, simp add: bare_world_def bare_args_def str_of_def)+
  ultimately show ?thesis
    using assms(3) bare_task unfolding inputs_def bare_parse tree_digests.simps
    by (simp only: option.case prod.case) (auto split: option.splits)
qed

lemma not_scripts: "str_of ''m0'' @ x \<notin> set SCRIPTS"
  by (auto simp: SCRIPTS_def str_of_def)


end
