(* ===== verification/Bench_Guard.thy ===== *)
theory Bench_Guard
  imports Complex_Main Py_Paths "HOL-Library.Product_Lexorder"
begin

text \<open>
  Whether the machine is quiet enough to measure on (scripts/bench\_guard.py): the rows of
  \<open>ps\<close>, the benchmark's own ancestry, and the processes that are busy in every sample.
  \<open>float(text)\<close> is an argument.
\<close>

section \<open>Rows\<close>

text \<open>\<open>line.split(None, n)\<close>: at most \<open>n\<close> cuts at white space, the rest as it is.\<close>

fun split_ws :: "nat \<Rightarrow> string \<Rightarrow> string list" where
  "split_ws n s =
     (let t = dropWhile py_space s in
      if t = [] then []
      else case n of
             0 \<Rightarrow> [t]
           | Suc k \<Rightarrow> takeWhile (\<lambda>c. \<not> py_space c) t # split_ws k (dropWhile (\<lambda>c. \<not> py_space c) t))"

declare split_ws.simps [simp del]

type_synonym ps_row = "rat \<times> int \<times> int \<times> string"

definition row_cpu :: "ps_row \<Rightarrow> rat" where "row_cpu r = fst r"
definition row_pid :: "ps_row \<Rightarrow> int" where "row_pid r = fst (snd r)"
definition row_ppid :: "ps_row \<Rightarrow> int" where "row_ppid r = fst (snd (snd r))"
definition row_comm :: "ps_row \<Rightarrow> string" where "row_comm r = snd (snd (snd r))"

lemmas row_simps = row_cpu_def row_pid_def row_ppid_def row_comm_def

definition parse_row :: "(string \<Rightarrow> rat option) \<Rightarrow> string \<Rightarrow> ps_row option" where
  "parse_row float_of line =
     (case split_ws 3 line of
        [a, b, c, d] \<Rightarrow>
          (case (float_of a, py_int b, py_int c) of
             (Some cpu, Some pid, Some ppid) \<Rightarrow> Some (cpu, pid, ppid, py_strip d)
           | _ \<Rightarrow> None)
      | _ \<Rightarrow> None)"

definition parse_ps :: "(string \<Rightarrow> rat option) \<Rightarrow> string list \<Rightarrow> ps_row list" where
  "parse_ps float_of = List.map_filter (parse_row float_of)"

section \<open>Ancestry\<close>

text \<open>A dictionary built from rows keeps the last of a key.\<close>

definition parent_of :: "ps_row list \<Rightarrow> int \<rightharpoonup> int" where
  "parent_of rows = map_of (rev (map (\<lambda>r. (row_pid r, row_ppid r)) rows))"

text \<open>The pids a walk up from \<open>pid\<close> can meet: itself, every parent named, and 0.\<close>

definition walkable :: "ps_row list \<Rightarrow> int set" where
  "walkable rows = insert 0 (set (map row_ppid rows))"

lemma parent_walkable: "getd (parent_of rows) pid 0 \<in> walkable rows"
proof (cases "parent_of rows pid")
  case (Some q)
  then have "(pid, q) \<in> set (map (\<lambda>r. (row_pid r, row_ppid r)) rows)"
    unfolding parent_of_def by (metis map_of_SomeD set_rev)
  then show ?thesis using Some by (auto simp: walkable_def)
qed (simp add: walkable_def)

function own_tree_from :: "ps_row list \<Rightarrow> int \<Rightarrow> int list \<Rightarrow> int list" where
  "own_tree_from rows pid seen =
     (if pid = 0 \<or> pid \<in> set seen then seen
      else own_tree_from rows (getd (parent_of rows) pid 0) (seen @ [pid]))"
  by pat_completeness auto
termination
proof (relation "measure (\<lambda>(rows, pid, seen). card (insert pid (walkable rows) - set seen))", goal_cases)
  case (2 rows pid seen)
  have fin: "finite (walkable rows)" by (simp add: walkable_def)
  let ?p = "getd (parent_of rows) pid 0"
  have "insert ?p (walkable rows) - set (seen @ [pid]) \<subseteq> insert pid (walkable rows) - set seen - {pid}"
    using parent_walkable [of rows pid] by auto
  then have "card (insert ?p (walkable rows) - set (seen @ [pid])) \<le> card (insert pid (walkable rows) - set seen - {pid})"
    using fin by (intro card_mono) auto
  also have "\<dots> < card (insert pid (walkable rows) - set seen)"
    using 2 fin by (intro card_Diff1_less) auto
  finally show ?case by simp
qed simp

declare own_tree_from.simps [simp del]

definition own_tree :: "ps_row list \<Rightarrow> int \<Rightarrow> int list" where
  "own_tree rows pid = own_tree_from rows pid []"

section \<open>Intruders\<close>

definition is_busy :: "int list \<Rightarrow> rat \<Rightarrow> ps_row \<Rightarrow> bool" where
  "is_busy exclude threshold r \<longleftrightarrow> \<not> (row_pid r \<in> set exclude \<or> row_cpu r \<le> threshold)"

definition busy_in :: "int list \<Rightarrow> rat \<Rightarrow> ps_row list \<Rightarrow> int \<rightharpoonup> rat" where
  "busy_in exclude threshold rows =
     map_of (rev (map (\<lambda>r. (row_pid r, row_cpu r)) (filter (is_busy exclude threshold) rows)))"

definition both_busy :: "(int \<rightharpoonup> rat) \<Rightarrow> (int \<rightharpoonup> rat) \<Rightarrow> int \<rightharpoonup> rat" where
  "both_busy here before pid =
     (case (here pid, before pid) of (Some a, Some b) \<Rightarrow> Some (min a b) | _ \<Rightarrow> None)"

fun busy_all :: "int list \<Rightarrow> rat \<Rightarrow> (int \<rightharpoonup> rat) \<Rightarrow> ps_row list list \<Rightarrow> int \<rightharpoonup> rat" where
  "busy_all exclude threshold busy [] = busy"
| "busy_all exclude threshold busy (rows # more_rows) =
     busy_all exclude threshold (both_busy (busy_in exclude threshold rows) busy) more_rows"

definition name_of :: "int list \<Rightarrow> rat \<Rightarrow> ps_row list list \<Rightarrow> int \<Rightarrow> string" where
  "name_of exclude threshold samples pid =
     the (map_of (rev (map (\<lambda>r. (row_pid r, row_comm r)) (filter (is_busy exclude threshold) (concat samples)))) pid)"

text \<open>The pids of the first sample, each once: the keys of what is busy are among them.\<close>

definition intruders :: "ps_row list list \<Rightarrow> int list \<Rightarrow> rat \<Rightarrow> (rat \<times> int \<times> string) list" where
  "intruders samples exclude threshold =
     (case samples of
        [] \<Rightarrow> []
      | rows # rest \<Rightarrow>
          (let busy = busy_all exclude threshold (busy_in exclude threshold rows) rest;
               found = List.map_filter (\<lambda>pid. map_option (\<lambda>cpu. (cpu, pid, name_of exclude threshold samples pid)) (busy pid))
                 (remdups (map row_pid rows))
           in rev (sort found)))"

text \<open>
  \<open>wait_quiet\<close> over a script of rounds: the samples of each, and how long the wait has lasted
  when they are in. \<open>None\<close> is still waiting.
\<close>

fun wait_quiet :: "int \<Rightarrow> rat \<Rightarrow> rat \<Rightarrow> (ps_row list list \<times> rat) list \<Rightarrow> bool option" where
  "wait_quiet me threshold limit [] = None"
| "wait_quiet me threshold limit ((samples, waited) # rounds) =
     (if intruders samples (own_tree (hd samples) me) threshold = [] then Some True
      else if of_int \<lfloor>waited\<rfloor> \<ge> limit then Some False
      else wait_quiet me threshold limit rounds)"

section \<open>Own is what descends to the guard\<close>

text \<open>The ancestors of a process: follow the parents until there is none, or pid 0.\<close>

inductive ancestor :: "ps_row list \<Rightarrow> int \<Rightarrow> int \<Rightarrow> bool" for rows :: "ps_row list" and pid :: int where
  itself: "pid \<noteq> 0 \<Longrightarrow> ancestor rows pid pid"
| parent: "ancestor rows pid q \<Longrightarrow> parent_of rows q = Some r \<Longrightarrow> r \<noteq> 0 \<Longrightarrow> ancestor rows pid r"

lemma own_tree_sound:
  "x \<in> set (own_tree_from rows p seen) \<Longrightarrow>
   (\<forall>s\<in>set seen. ancestor rows pid s) \<Longrightarrow> p = 0 \<or> ancestor rows pid p \<Longrightarrow> ancestor rows pid x"
proof (induction rows p seen rule: own_tree_from.induct)
  case (1 rows p seen)
  show ?case
  proof (cases "p = 0 \<or> p \<in> set seen")
    case True
    then show ?thesis using 1 by (simp add: own_tree_from.simps)
  next
    case False
    then have "x \<in> set (own_tree_from rows (getd (parent_of rows) p 0) (seen @ [p]))"
      using 1(2) by (subst (asm) own_tree_from.simps) simp
    moreover have "getd (parent_of rows) p 0 = 0 \<or> ancestor rows pid (getd (parent_of rows) p 0)"
      using 1(4) False by (cases "parent_of rows p") (auto intro: ancestor.parent)
    ultimately show ?thesis using 1 False by auto
  qed
qed

lemma own_tree_seen: "set seen \<subseteq> set (own_tree_from rows p seen)"
proof (induction rows p seen rule: own_tree_from.induct)
  case (1 rows p seen)
  then show ?case by (subst own_tree_from.simps) auto
qed

lemma own_tree_start: "p \<noteq> 0 \<Longrightarrow> p \<in> set (own_tree_from rows p seen)"
  using own_tree_seen [of "seen @ [p]" rows] by (subst own_tree_from.simps) auto

lemma own_tree_closed:
  assumes "\<And>s. s \<in> set seen \<Longrightarrow> getd (parent_of rows) s 0 \<in> insert p (insert 0 (set seen))"
    and "s \<in> set (own_tree_from rows p seen)"
  shows "getd (parent_of rows) s 0 \<in> insert 0 (set (own_tree_from rows p seen))"
  using assms
proof (induction rows p seen rule: own_tree_from.induct)
  case (1 rows p seen)
  show ?case
  proof (cases "p = 0 \<or> p \<in> set seen")
    case True
    then have "own_tree_from rows p seen = seen" by (subst own_tree_from.simps) simp
    then show ?thesis using 1(2) [of s] 1(3) True by auto
  next
    case False
    then have e: "own_tree_from rows p seen = own_tree_from rows (getd (parent_of rows) p 0) (seen @ [p])"
      by (subst own_tree_from.simps) simp
    show ?thesis unfolding e
    proof (rule 1(1) [OF False])
      show "getd (parent_of rows) t 0 \<in> insert (getd (parent_of rows) p 0) (insert 0 (set (seen @ [p])))"
        if "t \<in> set (seen @ [p])" for t using that 1(2) [of t] by auto
      show "s \<in> set (own_tree_from rows (getd (parent_of rows) p 0) (seen @ [p]))" using 1(3) e by simp
    qed
  qed
qed

text \<open>
  What is spared is the guard's own ancestry and nothing else: the guard, the shell that
  started it and so on up, as far as the sample names parents; a loop in it does no harm.
\<close>

lemma own_tree_is_ancestry:
  "x \<in> set (own_tree rows pid) \<longleftrightarrow> ancestor rows pid x"
proof
  show "x \<in> set (own_tree rows pid) \<Longrightarrow> ancestor rows pid x"
    unfolding own_tree_def by (erule own_tree_sound) (auto intro: ancestor.itself)
next
  have closed: "\<forall>s\<in>set (own_tree rows pid). getd (parent_of rows) s 0 \<in> insert 0 (set (own_tree rows pid))"
    unfolding own_tree_def using own_tree_closed [of "[]"] by simp
  show "ancestor rows pid x \<Longrightarrow> x \<in> set (own_tree rows pid)"
  proof (induction rule: ancestor.induct)
    case itself
    then show ?case by (simp add: own_tree_def own_tree_start)
  next
    case (parent q r)
    then show ?case using closed by fastforce
  qed
qed

section \<open>Busy in every sample\<close>

text \<open>A sample of \<open>ps\<close> names each process once.\<close>

definition one_row_each :: "ps_row list \<Rightarrow> bool" where
  "one_row_each rows \<longleftrightarrow> distinct (map row_pid rows)"

definition load_of :: "ps_row list \<Rightarrow> int \<Rightarrow> rat option" where
  "load_of rows pid = map_of (map (\<lambda>r. (row_pid r, row_cpu r)) rows) pid"

lemma map_of_rev_distinct: "distinct (map fst xs) \<Longrightarrow> map_of (rev xs) = map_of xs"
proof (induction xs)
  case (Cons x xs)
  then have "fst x \<notin> dom (map_of xs)" by (simp add: dom_map_of_conv_image_fst)
  then show ?case using Cons by (cases x) (auto simp: map_add_def fun_eq_iff split: option.split)
qed simp

lemma busy_in_load:
  assumes "one_row_each rows"
  shows "busy_in exclude threshold rows pid =
    (case load_of rows pid of None \<Rightarrow> None | Some c \<Rightarrow> if c > threshold \<and> pid \<notin> set exclude then Some c else None)"
proof -
  let ?kv = "\<lambda>r. (row_pid r, row_cpu r)"
  have d: "distinct (map fst (map ?kv (filter (is_busy exclude threshold) rows)))"
    using assms by (simp add: one_row_each_def o_def distinct_map_filter)
  have "map_of (map ?kv (filter (is_busy exclude threshold) rows)) pid =
      (case load_of rows pid of None \<Rightarrow> None | Some c \<Rightarrow> if c > threshold \<and> pid \<notin> set exclude then Some c else None)"
    using assms
  proof (induction rows)
    case (Cons r rows)
    let ?f = "filter (is_busy exclude threshold)"
    have none: "map_of (map ?kv (?f rows)) (row_pid r) = None" "map_of (map ?kv rows) (row_pid r) = None"
      using Cons.prems by (force simp: one_row_each_def map_of_eq_None_iff)+
    have ih: "map_of (map ?kv (?f rows)) pid =
        (case load_of rows pid of None \<Rightarrow> None | Some c \<Rightarrow> if c > threshold \<and> pid \<notin> set exclude then Some c else None)"
      using Cons by (simp add: one_row_each_def)
    show ?case
    proof (cases "pid = row_pid r")
      case True
      then show ?thesis using none by (simp add: load_of_def) (simp add: is_busy_def not_le)
    next
      case False
      then have "map_of (map ?kv (?f (r # rows))) pid = map_of (map ?kv (?f rows)) pid"
        "load_of (r # rows) pid = load_of rows pid" by (simp_all add: load_of_def)
      then show ?thesis using ih by simp
    qed
  qed (simp add: load_of_def)
  then show ?thesis unfolding busy_in_def map_of_rev_distinct [OF d] .
qed

lemma busy_all_load:
  assumes "\<forall>rows\<in>set samples. one_row_each rows"
  shows "busy_all exclude threshold busy samples pid = Some c \<longleftrightarrow>
    (\<exists>b cs. busy pid = Some b \<and> map (\<lambda>rows. load_of rows pid) samples = map Some cs \<and>
       (\<forall>x\<in>set cs. x > threshold) \<and> (samples = [] \<or> pid \<notin> set exclude) \<and> c = fold min cs b)"
  using assms
proof (induction samples arbitrary: busy)
  case (Cons rows samples)
  have both: "both_busy (busy_in exclude threshold rows) busy pid = Some b' \<longleftrightarrow>
      (\<exists>a b. load_of rows pid = Some a \<and> a > threshold \<and> pid \<notin> set exclude \<and> busy pid = Some b \<and> b' = min a b)" for b'
    using busy_in_load [of rows exclude threshold pid] Cons.prems
    by (auto simp: both_busy_def split: option.splits if_splits)
  show ?case
  proof
    assume "busy_all exclude threshold busy (rows # samples) pid = Some c"
    then obtain a b cs where "load_of rows pid = Some a" "a > threshold" "pid \<notin> set exclude" "busy pid = Some b"
      "map (\<lambda>rows. load_of rows pid) samples = map Some cs" "\<forall>x\<in>set cs. x > threshold" "c = fold min cs (min a b)"
      using Cons both by (auto simp del: fun_upd_apply)
    then show "\<exists>b cs. busy pid = Some b \<and> map (\<lambda>rows. load_of rows pid) (rows # samples) = map Some cs \<and>
       (\<forall>x\<in>set cs. x > threshold) \<and> (rows # samples = [] \<or> pid \<notin> set exclude) \<and> c = fold min cs b"
      by (intro exI [of _ b] exI [of _ "a # cs"]) simp
  next
    assume "\<exists>b cs. busy pid = Some b \<and> map (\<lambda>rows. load_of rows pid) (rows # samples) = map Some cs \<and>
       (\<forall>x\<in>set cs. x > threshold) \<and> (rows # samples = [] \<or> pid \<notin> set exclude) \<and> c = fold min cs b"
    then obtain b a cs where "busy pid = Some b" "load_of rows pid = Some a" "a > threshold" "pid \<notin> set exclude"
      "map (\<lambda>rows. load_of rows pid) samples = map Some cs" "\<forall>x\<in>set cs. x > threshold" "c = fold min cs (min a b)"
      by (auto simp: Cons_eq_map_conv)
    then show "busy_all exclude threshold busy (rows # samples) pid = Some c"
      using Cons both by auto
  qed
qed auto

lemma fold_min: "fold min cs b = Min (insert b (set cs))" for b :: "'a :: linorder"
  using Min.set_eq_fold [of b cs] by simp

text \<open>
  An intruder is busy in every sample. The guard names exactly the processes outside its
  own ancestry whose load is above the threshold in every one of the samples, each with the
  least of those loads: a burst that is over in one sample stops no benchmark.
\<close>

lemma intruders_are_sustained:
  assumes "\<forall>rows\<in>set (first # rest). one_row_each rows"
  shows "(\<exists>nm. (c, pid, nm) \<in> set (intruders (first # rest) exclude threshold)) \<longleftrightarrow>
    pid \<notin> set exclude \<and>
    (\<exists>cs. map (\<lambda>rows. load_of rows pid) (first # rest) = map Some cs \<and> (\<forall>x\<in>set cs. x > threshold) \<and> c = Min (set cs))"
proof -
  let ?busy = "busy_all exclude threshold (busy_in exclude threshold first) rest"
  have known: "load_of first pid = Some b \<Longrightarrow> pid \<in> set (map row_pid first)" for b
    by (auto simp: load_of_def dest!: map_of_SomeD)
  have b: "?busy pid = Some c \<longleftrightarrow> pid \<notin> set exclude \<and>
    (\<exists>cs. map (\<lambda>rows. load_of rows pid) (first # rest) = map Some cs \<and> (\<forall>x\<in>set cs. x > threshold) \<and> c = Min (set cs))"
  proof -
    have "?busy pid = Some c \<longleftrightarrow> (\<exists>b cs. load_of first pid = Some b \<and> b > threshold \<and> pid \<notin> set exclude \<and>
        map (\<lambda>rows. load_of rows pid) rest = map Some cs \<and> (\<forall>x\<in>set cs. x > threshold) \<and> c = fold min cs b)"
      using busy_all_load [of rest exclude threshold] busy_in_load [of first exclude threshold pid] assms
      by (auto split: option.splits if_splits)
    also have "\<dots> \<longleftrightarrow> pid \<notin> set exclude \<and>
      (\<exists>cs. map (\<lambda>rows. load_of rows pid) (first # rest) = map Some cs \<and> (\<forall>x\<in>set cs. x > threshold) \<and> c = Min (set cs))"
      by (auto simp: fold_min Cons_eq_map_conv)
    finally show ?thesis .
  qed
  have "(\<exists>nm. (c, pid, nm) \<in> set (intruders (first # rest) exclude threshold)) \<longleftrightarrow> ?busy pid = Some c"
  proof
    assume "?busy pid = Some c"
    moreover from this b obtain x where "load_of first pid = Some x" by (auto simp: Cons_eq_map_conv)
    ultimately show "\<exists>nm. (c, pid, nm) \<in> set (intruders (first # rest) exclude threshold)"
      using known by (force simp: intruders_def Let_def map_filter_def)
  qed (auto simp: intruders_def Let_def map_filter_def)
  then show ?thesis using b by simp
qed

lemma intruders_are_sustained_witness:
  "\<exists>nm. (60, 5, nm) \<in> set (intruders [[(90, 5, 1, ''hog'')], [(60, 5, 1, ''hog''), (99, 6, 1, ''burst'')]] [1] 50)"
  using intruders_are_sustained [of "[(90, 5, 1, ''hog'')]" "[[(60, 5, 1, ''hog''), (99, 6, 1, ''burst'')]]" 60 5 "[1]" 50]
  by (simp add: one_row_each_def load_of_def row_simps Cons_eq_map_conv)

end
