(* ===== verification/Wheel_Hooks.thy ===== *)
theory Wheel_Hooks
  imports Py_Paths
begin

text \<open>
  What goes into the two wheels (packaging/m0/hatch\_build.py, hatch\_version.py and those of
  packaging/m0serve): the map from files to places that hatchling is handed, the pins and
  versions that are read or refused. git, the parsed pyproject and the files are arguments.
\<close>

datatype hook_error =
    GitFailed "string list"
  | NothingUnder string
  | MissingFile string
  | OutsideTree string
  | PinCount string nat
  | PinInexact string string
  | NoVersion
  | BadLocal string
  | VersionDrift string string
  | NoTag

section \<open>Pins\<close>

text \<open>\<open>\w\<close> on Latin-1.\<close>

definition word_char :: "char \<Rightarrow> bool" where
  "word_char c \<longleftrightarrow> (let n = of_char c :: nat in
     (48 \<le> n \<and> n \<le> 57) \<or> (65 \<le> n \<and> n \<le> 90) \<or> n = 95 \<or> (97 \<le> n \<and> n \<le> 122) \<or>
     n \<in> {0xAA, 0xB2, 0xB3, 0xB5, 0xB9, 0xBA, 0xBC, 0xBD, 0xBE} \<or> (0xC0 \<le> n \<and> n \<noteq> 0xD7 \<and> n \<noteq> 0xF7))"

definition names_mojo :: "string \<Rightarrow> bool" where
  "names_mojo d \<longleftrightarrow> starts_with ''mojo'' (py_strip d) \<and>
     (case drop 4 (py_strip d) of [] \<Rightarrow> True | c # _ \<Rightarrow> \<not> word_char c)"

text \<open>A dotted run of digits, and what stands before it in an exact pin.\<close>

definition dotted :: "string \<Rightarrow> bool" where
  "dotted v \<longleftrightarrow> list_all is_digits (split_on (CHR ''.'') v)"

definition exact_pin :: "string \<Rightarrow> string \<Rightarrow> string option" where
  "exact_pin package d =
     (let t = py_strip d; lead = package @ ''==''
      in if starts_with lead t \<and> dotted (drop (length lead) t) then Some (drop (length lead) t) else None)"

definition one_pin :: "string \<Rightarrow> string list \<Rightarrow> hook_error + string list" where
  "one_pin package pins =
     (case pins of
        [d] \<Rightarrow> (case exact_pin package d of None \<Rightarrow> Inl (PinInexact package d) | Some v \<Rightarrow> Inr [v])
      | _ \<Rightarrow> Inl (PinCount package (length pins)))"

definition gated_mojo :: "string list \<Rightarrow> hook_error + string list" where
  "gated_mojo deps = one_pin ''mojo'' (filter names_mojo deps)"

text \<open>An entry of the group that is no string (a table) is \<open>None\<close>.\<close>

definition gated_max :: "string option list \<Rightarrow> hook_error + string list" where
  "gated_max grp = one_pin ''max-core'' (List.map_filter id grp)"

section \<open>The map of the m0 wheel\<close>

definition TREES :: "(string \<times> string) list" where
  "TREES =
     [(''packages/m0-core/src'', ''m0_core''), (''packages/m0-http/src'', ''m0_http''),
      (''packages/m0-http/lightbug_http'', ''lightbug_http''), (''packages/m0-http/m0_host'', ''m0_host''),
      (''packages/m0-datastar/src'', ''m0_datastar''), (''packages/m0-sqlite/src'', ''m0_sqlite''),
      (''packages/m0-postgres/src'', ''m0_postgres'')]"

definition TOOLS :: "string list" where
  "TOOLS = [''scripts/relocate.py'', ''scripts/bundle_artifact.py'', ''scripts/binfmt.py'']"

definition LICENSES :: "(string \<times> string) list" where
  "LICENSES = [(''LICENSE'', ''LICENSE.mojo-http.txt''),
     (''licenses/LICENSE.lightbug_http.txt'', ''LICENSE.lightbug_http.txt'')]"

definition RELEASE_LICENSES :: "(string \<times> string) list" where
  "RELEASE_LICENSES =
     [(''licenses/LICENSE.mojo-runtime.txt'', ''LICENSE.mojo-runtime.txt''),
      (''licenses/LICENSE.max.txt'', ''LICENSE.max.txt''), (''licenses/NOTICE.m0-release.txt'', ''NOTICE.txt'')]"

record repo_state =
  r_root :: string
  r_git :: "string list \<Rightarrow> string option"
  r_is_file :: "string \<Rightarrow> bool"
  r_deps :: "string list"
  r_max :: "string option list"
  r_version :: string
  r_scratch :: string

definition in_root :: "repo_state \<Rightarrow> string \<Rightarrow> string" where
  "in_root r rel = r_root r @ ''/'' @ rel"

definition ls_files :: "repo_state \<Rightarrow> string \<Rightarrow> hook_error + string list" where
  "ls_files r tree =
     (case r_git r [''ls-files'', ''-z'', ''--'', tree] of
        None \<Rightarrow> Inl (GitFailed [''ls-files'', ''-z'', ''--'', tree])
      | Some text \<Rightarrow> Inr (filter (\<lambda>f. f \<noteq> []) (split_on (CHR 0x00) text)))"

text \<open>\<open>Path(rel).relative_to(tree).as_posix()\<close> of a path git names.\<close>

definition inside_tree :: "string \<Rightarrow> string \<Rightarrow> string option" where
  "inside_tree tree rel =
     (if rel = tree then Some ''.''
      else if starts_with (tree @ ''/'') rel then Some (drop (length tree + 1) rel) else None)"

fun place_files :: "repo_state \<Rightarrow> string \<Rightarrow> string \<Rightarrow> string list \<Rightarrow> hook_error + (string \<times> string) list" where
  "place_files r tree name [] = Inr []"
| "place_files r tree name (rel # rels) =
     (if \<not> r_is_file r (in_root r rel) then Inl (MissingFile rel)
      else case inside_tree tree rel of
             None \<Rightarrow> Inl (OutsideTree rel)
           | Some inside \<Rightarrow>
               (case place_files r tree name rels of
                  Inl e \<Rightarrow> Inl e
                | Inr ps \<Rightarrow> Inr ((in_root r rel, ''m0/_mojo/'' @ name @ ''/'' @ inside) # ps)))"

definition place_tree :: "repo_state \<Rightarrow> string \<times> string \<Rightarrow> hook_error + (string \<times> string) list" where
  "place_tree r tn =
     (case ls_files r (fst tn) of
        Inl e \<Rightarrow> Inl e
      | Inr files \<Rightarrow>
          if files = [] then Inl (NothingUnder (fst tn)) else place_files r (fst tn) (snd tn) files)"

fun place_trees :: "repo_state \<Rightarrow> (string \<times> string) list \<Rightarrow> hook_error + (string \<times> string) list" where
  "place_trees r [] = Inr []"
| "place_trees r (tn # tns) =
     (case place_tree r tn of
        Inl e \<Rightarrow> Inl e
      | Inr ps \<Rightarrow> (case place_trees r tns of Inl e \<Rightarrow> Inl e | Inr qs \<Rightarrow> Inr (ps @ qs)))"

definition fixed_places :: "repo_state \<Rightarrow> (string \<times> string) list" where
  "fixed_places r =
     map (\<lambda>rel. (in_root r rel, ''m0/_tools/'' @ path_name (pure_path rel))) TOOLS @
     map (\<lambda>(rel, name). (in_root r rel, ''m0/licenses/'' @ name)) LICENSES @
     map (\<lambda>(rel, name). (in_root r rel, ''m0/_release/'' @ name)) RELEASE_LICENSES"

record build_info =
  i_gated_mojo :: "string list"
  i_gated_max :: "string list"
  i_framework :: string
  i_commit :: string
  i_dirty :: bool

definition build_info_of :: "repo_state \<Rightarrow> hook_error + build_info" where
  "build_info_of r =
     (case (gated_mojo (r_deps r), gated_max (r_max r)) of
        (Inl e, _) \<Rightarrow> Inl e
      | (_, Inl e) \<Rightarrow> Inl e
      | (Inr mojo, Inr mx) \<Rightarrow>
          (case (r_git r [''rev-parse'', ''HEAD''], r_git r [''status'', ''--porcelain'']) of
             (None, _) \<Rightarrow> Inl (GitFailed [''rev-parse'', ''HEAD''])
           | (_, None) \<Rightarrow> Inl (GitFailed [''status'', ''--porcelain''])
           | (Some head, Some status) \<Rightarrow>
               Inr \<lparr>i_gated_mojo = mojo, i_gated_max = mx, i_framework = r_version r,
                    i_commit = py_strip head, i_dirty = (py_strip status \<noteq> [])\<rparr>))"

text \<open>
  \<open>initialize\<close>: what is assigned into \<open>force_include\<close>, in order (a second assignment to a
  source replaces the first), and the build info.
\<close>

definition wheel_places :: "repo_state \<Rightarrow> hook_error + (string \<times> string) list \<times> build_info" where
  "wheel_places r =
     (case place_trees r TREES of
        Inl e \<Rightarrow> Inl e
      | Inr ps \<Rightarrow>
          (case build_info_of r of
             Inl e \<Rightarrow> Inl e
           | Inr info \<Rightarrow>
               Inr (ps @ fixed_places r @ [(r_scratch r @ ''/_build_info.json'', ''m0/_build_info.json'')], info)))"

definition include_map :: "(string \<times> string) list \<Rightarrow> string \<rightharpoonup> string" where
  "include_map ps = map_of (rev ps)"

section \<open>Versions and tags\<close>

text \<open>The line of the module that declares the version; the label of a smoke build.\<close>

definition local_label :: "string \<Rightarrow> bool" where
  "local_label s \<longleftrightarrow>
     list_all (\<lambda>w. w \<noteq> [] \<and> list_all (\<lambda>c. CHR ''a'' \<le> c \<and> c \<le> CHR ''z'' \<or> CHR ''0'' \<le> c \<and> c \<le> CHR ''9'') w)
       (split_on (CHR ''.'') s)"

definition m0_version :: "string option \<Rightarrow> string \<Rightarrow> hook_error + string" where
  "m0_version declared label =
     (case declared of
        None \<Rightarrow> Inl NoVersion
      | Some v \<Rightarrow>
          if label = [] then Inr v
          else if \<not> local_label label then Inl (BadLocal label)
          else Inr (v @ ''+'' @ label))"

definition m0serve_version :: "string \<Rightarrow> string option \<Rightarrow> hook_error + string" where
  "m0serve_version declared in_cli =
     (case in_cli of
        None \<Rightarrow> Inl NoVersion
      | Some v \<Rightarrow> if v \<noteq> declared then Inl (VersionDrift declared v) else Inr declared)"

definition m0serve_tag :: "string option \<Rightarrow> hook_error + string" where
  "m0serve_tag tag =
     (case tag of None \<Rightarrow> Inl NoTag | Some t \<Rightarrow> if t = [] then Inl NoTag else Inr t)"

section \<open>Every tracked file has its own place\<close>

text \<open>What \<open>git ls-files\<close> documents: paths under the tree it is asked for, none twice.\<close>

definition git_lists :: "repo_state \<Rightarrow> bool" where
  "git_lists r \<longleftrightarrow>
     (\<forall>tree\<in>fst ` set TREES. \<forall>files. ls_files r tree = Inr files \<longrightarrow>
        distinct files \<and> (\<forall>f\<in>set files. \<exists>x. x \<noteq> [] \<and> f = tree @ ''/'' @ x))"

lemma place_files_ok:
  assumes "place_files r tree name files = Inr ps" and "\<forall>f\<in>set files. \<exists>x. x \<noteq> [] \<and> f = tree @ ''/'' @ x"
  shows "ps = map (\<lambda>f. (in_root r f, ''m0/_mojo/'' @ name @ ''/'' @ drop (length tree + 1) f)) files"
  using assms
proof (induction files arbitrary: ps)
  case (Cons f files)
  obtain x where x: "f = tree @ ''/'' @ x" "x \<noteq> []" using Cons.prems(2) by auto
  then have "inside_tree tree f = Some (drop (length tree + 1) f)"
    by (simp add: inside_tree_def starts_with_def)
  then show ?case using Cons by (auto split: if_splits sum.splits)
qed simp

text \<open>The places of the trees, from what git lists for each.\<close>

lemma place_trees_member:
  assumes "place_trees r tns = Inr ps" and "\<forall>tn\<in>set tns. \<forall>files. ls_files r (fst tn) = Inr files \<longrightarrow>
      (\<forall>f\<in>set files. \<exists>x. x \<noteq> [] \<and> f = fst tn @ ''/'' @ x)"
  shows "(s, d) \<in> set ps \<longleftrightarrow>
    (\<exists>tn\<in>set tns. \<exists>files x. ls_files r (fst tn) = Inr files \<and> fst tn @ ''/'' @ x \<in> set files \<and>
       s = in_root r (fst tn @ ''/'' @ x) \<and> d = ''m0/_mojo/'' @ snd tn @ ''/'' @ x)"
  using assms
proof (induction tns arbitrary: ps)
  case (Cons tn tns)
  obtain ps1 ps2 where p1: "place_tree r tn = Inr ps1" and p2: "place_trees r tns = Inr ps2" and ps: "ps = ps1 @ ps2"
    using Cons.prems(1) by (auto split: sum.splits)
  obtain files where ls: "ls_files r (fst tn) = Inr files" and pf: "place_files r (fst tn) (snd tn) files = Inr ps1"
    using p1 by (auto simp: place_tree_def split: sum.splits if_splits)
  have u: "\<forall>f\<in>set files. \<exists>x. x \<noteq> [] \<and> f = fst tn @ ''/'' @ x" using Cons.prems(2) ls by auto
  have "(s, d) \<in> set ps1 \<longleftrightarrow> (\<exists>x. fst tn @ ''/'' @ x \<in> set files \<and>
      s = in_root r (fst tn @ ''/'' @ x) \<and> d = ''m0/_mojo/'' @ snd tn @ ''/'' @ x)"
    unfolding place_files_ok [OF pf u] using u by fastforce
  moreover have "(s, d) \<in> set ps2 \<longleftrightarrow> (\<exists>tn\<in>set tns. \<exists>files x. ls_files r (fst tn) = Inr files \<and>
      fst tn @ ''/'' @ x \<in> set files \<and> s = in_root r (fst tn @ ''/'' @ x) \<and> d = ''m0/_mojo/'' @ snd tn @ ''/'' @ x)"
    using Cons.IH [OF p2] Cons.prems(2) by simp
  ultimately show ?case using ls unfolding ps by auto
qed simp

text \<open>No tree lies in another, and no name of a package is the beginning of another's path.\<close>

lemma one_begins_other: "a @ x = b @ y \<Longrightarrow> starts_with a b \<or> starts_with b a"
  by (auto simp: starts_with_iff append_eq_append_conv2)

lemma trees_table:
  "list_all (\<lambda>p. list_all (\<lambda>q. p = q \<or>
     (\<not> starts_with (fst p @ ''/'') (fst q @ ''/'') \<and> \<not> starts_with (snd p @ ''/'') (snd q @ ''/''))) TREES) TREES"
  by code_simp

lemma trees_apart:
  assumes "(t, n) \<in> set TREES" and "(t', n') \<in> set TREES"
  shows "t @ ''/'' @ x = t' @ ''/'' @ y \<longleftrightarrow> n = n' \<and> x = y"
    and "n @ ''/'' @ x = n' @ ''/'' @ y \<longleftrightarrow> n = n' \<and> x = y"
proof -
  have same: "n = n' \<Longrightarrow> t = t'" using assms by (auto simp: TREES_def)
  have tb: "p = q \<or> (\<not> starts_with (fst p @ ''/'') (fst q @ ''/'') \<and> \<not> starts_with (snd p @ ''/'') (snd q @ ''/''))"
    if "p \<in> set TREES" "q \<in> set TREES" for p q
    using that trees_table unfolding list_all_iff by blast
  have apart: "(t, n) = (t', n')" if "(t @ ''/'') @ x = (t' @ ''/'') @ y \<or> (n @ ''/'') @ x = (n' @ ''/'') @ y"
    using that
  proof (elim disjE)
    assume "(t @ ''/'') @ x = (t' @ ''/'') @ y"
    from one_begins_other [OF this] tb [OF assms] tb [OF assms(2,1)] show ?thesis by (metis fst_conv)
  next
    assume "(n @ ''/'') @ x = (n' @ ''/'') @ y"
    from one_begins_other [OF this] tb [OF assms] tb [OF assms(2,1)] show ?thesis by (metis snd_conv)
  qed
  have eqs: "(t @ ''/'') @ x = t @ ''/'' @ x" "(t' @ ''/'') @ y = t' @ ''/'' @ y"
    "(n @ ''/'') @ x = n @ ''/'' @ x" "(n' @ ''/'') @ y = n' @ ''/'' @ y" by simp_all
  show "t @ ''/'' @ x = t' @ ''/'' @ y \<longleftrightarrow> n = n' \<and> x = y"
    using apart [unfolded eqs] same by (metis append_eq_append_conv append_same_eq same_append_eq prod.inject)
  show "n @ ''/'' @ x = n' @ ''/'' @ y \<longleftrightarrow> n = n' \<and> x = y"
    using apart [unfolded eqs] by (metis same_append_eq prod.inject)
qed

definition FIXED :: "(string \<times> string) list" where
  "FIXED =
     [(''scripts/relocate.py'', ''m0/_tools/relocate.py''), (''scripts/bundle_artifact.py'', ''m0/_tools/bundle_artifact.py''),
      (''scripts/binfmt.py'', ''m0/_tools/binfmt.py''), (''LICENSE'', ''m0/licenses/LICENSE.mojo-http.txt''),
      (''licenses/LICENSE.lightbug_http.txt'', ''m0/licenses/LICENSE.lightbug_http.txt''),
      (''licenses/LICENSE.mojo-runtime.txt'', ''m0/_release/LICENSE.mojo-runtime.txt''),
      (''licenses/LICENSE.max.txt'', ''m0/_release/LICENSE.max.txt''),
      (''licenses/NOTICE.m0-release.txt'', ''m0/_release/NOTICE.txt'')]"

lemma fixed_list: "fixed_places r = map (\<lambda>(rel, place). (in_root r rel, place)) FIXED"
  by (simp add: fixed_places_def TOOLS_def LICENSES_def RELEASE_LICENSES_def path_name_def pure_path_def FIXED_def)

lemma fixed_table:
  "list_all (\<lambda>p. \<not> starts_with ''packages/'' (fst p) \<and> \<not> starts_with ''m0/_mojo/'' (snd p) \<and>
     snd p \<noteq> ''m0/_build_info.json'' \<and>
     list_all (\<lambda>q. (fst p = fst q) = (snd p = snd q)) FIXED) FIXED"
  by code_simp

lemma trees_packages: "(t, n) \<in> set TREES \<Longrightarrow> starts_with ''packages/'' t"
proof -
  have "list_all (\<lambda>p. starts_with ''packages/'' (fst p)) TREES" by code_simp
  then show "(t, n) \<in> set TREES \<Longrightarrow> starts_with ''packages/'' t" by (force simp: list_all_iff)
qed

lemma tree_places_apart:
  assumes "(t, n) \<in> set TREES" and "(rel, place) \<in> set FIXED"
  shows "t @ ''/'' @ x \<noteq> rel" and "''m0/_mojo/'' @ n @ ''/'' @ x \<noteq> place"
proof -
  have f: "\<not> starts_with ''packages/'' rel" "\<not> starts_with ''m0/_mojo/'' place"
    using fixed_table assms(2) unfolding list_all_iff by force+
  show "t @ ''/'' @ x \<noteq> rel" using f(1) trees_packages [OF assms(1)] by (auto simp: starts_with_iff)
  show "''m0/_mojo/'' @ n @ ''/'' @ x \<noteq> place" using f(2) starts_with_append by blast
qed

text \<open>The three kinds of entry, with the source relative to the root (none for the scratch file).\<close>

inductive entry :: "string option \<Rightarrow> string \<Rightarrow> bool" where
  in_tree: "(t, n) \<in> set TREES \<Longrightarrow> entry (Some (t @ ''/'' @ x)) (''m0/_mojo/'' @ n @ ''/'' @ x)"
| fixed_entry: "(rel, place) \<in> set FIXED \<Longrightarrow> entry (Some rel) place"
| info_entry: "entry None ''m0/_build_info.json''"

lemma entry_injective: "entry s d \<Longrightarrow> entry s' d' \<Longrightarrow> s = s' \<longleftrightarrow> d = d'"
proof (induction rule: entry.induct)
  case (in_tree t n x)
  from in_tree(2) show ?case
  proof cases
    case (in_tree t' n' y)
    then show ?thesis using trees_apart [OF \<open>(t, n) \<in> set TREES\<close> in_tree(3), of x y] by simp
  next
    case (fixed_entry rel)
    then show ?thesis using tree_places_apart [OF in_tree(1) fixed_entry(2), of x] by simp
  qed simp
next
  case (fixed_entry rel place)
  have info: "place \<noteq> ''m0/_build_info.json''" using fixed_table fixed_entry(1) unfolding list_all_iff by force
  from fixed_entry(2) show ?case
  proof cases
    case (in_tree t n x)
    then show ?thesis using tree_places_apart [OF in_tree(3) fixed_entry(1), of x] by auto
  next
    case (fixed_entry rel')
    then show ?thesis using fixed_table \<open>(rel, place) \<in> set FIXED\<close> unfolding list_all_iff by force
  qed (use info in simp)
next
  case info_entry
  then show ?case
  proof cases
    case (fixed_entry rel)
    then have "d' \<noteq> ''m0/_build_info.json''" using fixed_table unfolding list_all_iff by force
    then show ?thesis using fixed_entry by auto
  qed simp_all
qed

text \<open>
  The wheel holds the manifest, and each file in its own place. When the map is made,
  every file git lists under a source tree is in it, under the name its package is imported
  by; no later entry replaces an earlier one, and no two files go to one place.
\<close>

lemma wheel_holds_the_manifest:
  assumes "wheel_places r = Inr (ps, info)" and "git_lists r"
    and "\<forall>rel. in_root r rel \<noteq> r_scratch r @ ''/_build_info.json''"
  shows "(\<forall>(tree, name)\<in>set TREES. \<exists>files. ls_files r tree = Inr files \<and> files \<noteq> [] \<and>
      (\<forall>x. tree @ ''/'' @ x \<in> set files \<longrightarrow>
         include_map ps (in_root r (tree @ ''/'' @ x)) = Some (''m0/_mojo/'' @ name @ ''/'' @ x))) \<and>
    (\<forall>s d s' d'. (s, d) \<in> set ps \<longrightarrow> (s', d') \<in> set ps \<longrightarrow> (s = s' \<longleftrightarrow> d = d'))"
proof -
  obtain qs where q: "place_trees r TREES = Inr qs"
    and ps: "ps = qs @ fixed_places r @ [(r_scratch r @ ''/_build_info.json'', ''m0/_build_info.json'')]"
    using assms(1) by (auto simp: wheel_places_def split: sum.splits)
  have lists: "\<forall>tn\<in>set TREES. \<forall>files. ls_files r (fst tn) = Inr files \<longrightarrow>
      (\<forall>f\<in>set files. \<exists>x. x \<noteq> [] \<and> f = fst tn @ ''/'' @ x)"
    using assms(2) unfolding git_lists_def by blast
  note member = place_trees_member [OF q lists]
  have kinds: "(\<exists>t n x. (t, n) \<in> set TREES \<and> s = in_root r (t @ ''/'' @ x) \<and> d = ''m0/_mojo/'' @ n @ ''/'' @ x) \<or>
      (s, d) \<in> set (fixed_places r) \<or> s = r_scratch r @ ''/_build_info.json'' \<and> d = ''m0/_build_info.json''"
    if "(s, d) \<in> set ps" for s d
    using that unfolding ps set_append Un_iff member by fastforce
  have root: "in_root r a = in_root r b \<longleftrightarrow> a = b" for a b by (simp add: in_root_def)
  define place where "place k = (case k of None \<Rightarrow> r_scratch r @ ''/_build_info.json'' | Some rel \<Rightarrow> in_root r rel)" for k
  have place: "place a = place b \<longleftrightarrow> a = b" for a b
    using assms(3) root by (cases a; cases b) (auto simp: place_def)
  have entries: "\<exists>k. entry k d \<and> s = place k" if "(s, d) \<in> set ps" for s d
    using kinds [OF that]
  proof (elim disjE exE conjE)
    fix t n x assume "(t, n) \<in> set TREES" "s = in_root r (t @ ''/'' @ x)" "d = ''m0/_mojo/'' @ n @ ''/'' @ x"
    moreover from this(1) have "entry (Some (t @ ''/'' @ x)) (''m0/_mojo/'' @ n @ ''/'' @ x)" by (rule in_tree)
    ultimately show ?thesis unfolding place_def by (metis option.case(2))
  next
    assume "(s, d) \<in> set (fixed_places r)"
    then obtain rel where "(rel, d) \<in> set FIXED" "s = in_root r rel" by (auto simp: fixed_list)
    then show ?thesis by (intro exI [of _ "Some rel"]) (auto simp: place_def intro: entry.intros)
  next
    assume "s = r_scratch r @ ''/_build_info.json''" "d = ''m0/_build_info.json''"
    then show ?thesis by (intro exI [of _ None]) (auto simp: place_def intro: entry.intros)
  qed
  have inj: "s = s' \<longleftrightarrow> d = d'" if "(s, d) \<in> set ps" "(s', d') \<in> set ps" for s d s' d'
    using entries [OF that(1)] entries [OF that(2)] entry_injective place by blast
  have lookup: "include_map ps s = Some d" if m: "(s, d) \<in> set ps" for s d
  proof -
    have "\<exists>d'. map_of (rev ps) s = Some d'" using m by (intro weak_map_of_SomeI) simp
    then obtain d' where d': "map_of (rev ps) s = Some d'" by blast
    then have "(s, d') \<in> set ps" using map_of_SomeD by fastforce
    then show ?thesis using d' inj [OF m] unfolding include_map_def by metis
  qed
  have some: "\<exists>files. ls_files r t = Inr files \<and> files \<noteq> []" if "(t, n) \<in> set tns" "place_trees r tns = Inr zs" for t n tns zs
    using that by (induction tns arbitrary: zs) (auto simp: place_tree_def split: sum.splits if_splits)
  show ?thesis
  proof (intro conjI ballI allI impI)
    fix tn assume tn: "tn \<in> set TREES"
    obtain t n where e: "tn = (t, n)" by fastforce
    obtain files where f: "ls_files r t = Inr files" "files \<noteq> []" using some [OF _ q] tn e by blast
    have "include_map ps (in_root r (t @ ''/'' @ x)) = Some (''m0/_mojo/'' @ n @ ''/'' @ x)"
      if "t @ ''/'' @ x \<in> set files" for x
    proof (rule lookup)
      have "(in_root r (t @ ''/'' @ x), ''m0/_mojo/'' @ n @ ''/'' @ x) \<in> set qs"
        unfolding member using tn e f(1) that by (intro bexI [of _ tn] exI [of _ files] exI [of _ x]) simp_all
      then show "(in_root r (t @ ''/'' @ x), ''m0/_mojo/'' @ n @ ''/'' @ x) \<in> set ps" unfolding ps by simp
    qed
    then show "case tn of (tree, name) \<Rightarrow> \<exists>files. ls_files r tree = Inr files \<and> files \<noteq> [] \<and>
        (\<forall>x. tree @ ''/'' @ x \<in> set files \<longrightarrow>
          include_map ps (in_root r (tree @ ''/'' @ x)) = Some (''m0/_mojo/'' @ name @ ''/'' @ x))"
      using f e by auto
  qed (use inj in blast)+
qed

definition small_repo :: repo_state where
  "small_repo = \<lparr>r_root = ''/r'',
     r_git = (\<lambda>args. Some (if hd args = ''ls-files'' then last args @ ''/a.mojo'' @ [CHR 0x00] else [])),
     r_is_file = (\<lambda>_. True), r_deps = [''mojo==1.2''], r_max = [Some ''max-core==3''], r_version = ''9'', r_scratch = ''/tmp/x''\<rparr>"

lemma small_lists: "(tree, name) \<in> set TREES \<Longrightarrow> ls_files small_repo tree = Inr [tree @ ''/a.mojo'']"
proof -
  assume t: "(tree, name) \<in> set TREES"
  have "list_all (\<lambda>p. CHR 0x00 \<notin> set (fst p)) TREES" by code_simp
  then have "CHR 0x00 \<notin> set (tree @ ''/a.mojo'')" using t by (force simp: list_all_iff)
  from split_on_append [OF this, of "[]"] show ?thesis
    by (simp add: ls_files_def small_repo_def)
qed

lemma small_info: "\<exists>info. build_info_of small_repo = Inr info"
proof -
  have "gated_mojo [''mojo==1.2''] = Inr [''1.2'']" "gated_max [Some ''max-core==3''] = Inr [''3'']"
    by code_simp+
  then show ?thesis by (simp add: build_info_of_def small_repo_def)
qed

lemma wheel_holds_the_manifest_witness:
  "\<exists>ps info. wheel_places small_repo = Inr (ps, info) \<and>
     include_map ps ''/r/packages/m0-core/src/a.mojo'' = Some ''m0/_mojo/m0_core/a.mojo''"
proof -
  have place: "place_tree small_repo (t, n) = Inr [(''/r/'' @ t @ ''/a.mojo'', ''m0/_mojo/'' @ n @ ''/a.mojo'')]"
    if "(t, n) \<in> set TREES" for t n
    using small_lists [OF that]
    by (simp add: place_tree_def inside_tree_def starts_with_def in_root_def small_repo_def)
  have "place_trees small_repo tns = Inr (map (\<lambda>(t, n). (''/r/'' @ t @ ''/a.mojo'', ''m0/_mojo/'' @ n @ ''/a.mojo'')) tns)"
    if "set tns \<subseteq> set TREES" for tns
    using that by (induction tns) (auto simp: place)
  then obtain ps info where w: "wheel_places small_repo = Inr (ps, info)"
    using small_info by (fastforce simp: wheel_places_def)
  have g: "git_lists small_repo"
    unfolding git_lists_def using small_lists by (fastforce intro: exI [of _ "''a.mojo''"])
  have s: "\<forall>rel. in_root small_repo rel \<noteq> r_scratch small_repo @ ''/_build_info.json''"
    by (simp add: in_root_def small_repo_def)
  have core: "(''packages/m0-core/src'', ''m0_core'') \<in> set TREES" by (simp add: TREES_def)
  have "include_map ps (in_root small_repo (''packages/m0-core/src'' @ ''/'' @ ''a.mojo''))
      = Some (''m0/_mojo/'' @ ''m0_core'' @ ''/'' @ ''a.mojo'')"
    using wheel_holds_the_manifest [OF w g s] core small_lists [OF core] by fastforce
  then show ?thesis using w by (simp add: in_root_def small_repo_def)
qed

text \<open>A pin that is recorded is exact: one entry, and that entry is the package and a version.\<close>

lemma pins_are_exact:
  assumes "gated_mojo deps = Inr vs"
  shows "\<exists>d v. filter names_mojo deps = [d] \<and> py_strip d = ''mojo=='' @ v \<and> dotted v \<and> vs = [v]"
proof -
  obtain d where d: "filter names_mojo deps = [d]" and "one_pin ''mojo'' [d] = Inr vs"
    using assms by (auto simp: gated_mojo_def one_pin_def split: list.splits)
  then obtain v where "exact_pin ''mojo'' d = Some v" "vs = [v]"
    by (auto simp: one_pin_def split: option.splits)
  then show ?thesis using d by (auto simp: exact_pin_def Let_def starts_with_iff split: if_splits)
qed

end
