(* ===== verification/Regex_Scan.thy ===== *)
theory Regex_Scan
  imports Py_Ustr
begin

text \<open>
  \<open>re.finditer\<close> for patterns whose match at a place is a function of what precedes and follows
  it. A matcher is given the character before the place (for \<open>\b\<close>) and the text from it, and
  answers the length of the match.
\<close>

type_synonym matcher = "nat option \<Rightarrow> ustr \<Rightarrow> nat option"

definition before_at :: "ustr \<Rightarrow> nat \<Rightarrow> nat option" where
  "before_at s i = (if i = 0 then None else Some (s ! (i - 1)))"

definition match_at :: "matcher \<Rightarrow> ustr \<Rightarrow> nat \<Rightarrow> nat option" where
  "match_at m s i = m (before_at s i) (drop i s)"

text \<open>The matches from a place on, leftmost first, none beginning inside another.\<close>

function finds_from :: "matcher \<Rightarrow> ustr \<Rightarrow> nat \<Rightarrow> (nat \<times> nat) list" where
  "finds_from m s i =
     (if length s \<le> i then []
      else case match_at m s i of
             None \<Rightarrow> finds_from m s (Suc i)
           | Some k \<Rightarrow> (i, k) # finds_from m s (i + max 1 k))"
  by pat_completeness auto
termination by (relation "measure (\<lambda>(m, s, i). length s - i)") auto

declare finds_from.simps [simp del]

definition finds :: "matcher \<Rightarrow> ustr \<Rightarrow> (nat \<times> nat) list" where
  "finds m s = finds_from m s 0"

lemma finds_from_sound:
  "(j, k) \<in> set (finds_from m s i) \<Longrightarrow> i \<le> j \<and> j < length s \<and> match_at m s j = Some k"
proof (induction m s i rule: finds_from.induct)
  case (1 m s i)
  show ?case
  proof (cases "match_at m s i")
    case None
    then show ?thesis using 1 by (subst (asm) (3) finds_from.simps) (auto split: if_splits dest: Suc_leD)
  next
    case (Some n)
    then show ?thesis using 1 by (subst (asm) (3) finds_from.simps) (fastforce split: if_splits)
  qed
qed

lemma finds_from_none:
  "finds_from m s i = [] \<Longrightarrow> i \<le> j \<Longrightarrow> j < length s \<Longrightarrow> match_at m s j = None"
proof (induction m s i rule: finds_from.induct)
  case (1 m s i)
  then have "match_at m s i = None \<and> finds_from m s (Suc i) = []"
    by (subst (asm) (3) finds_from.simps) (auto split: if_splits option.splits)
  then show ?case using 1 by (cases "j = i") auto
qed

text \<open>
  The laws of a pattern whose matches cannot overlap. Then \<open>finditer\<close> misses none.
\<close>

locale separate_matches =
  fixes m :: matcher
  assumes some_text: "m b s = Some k \<Longrightarrow> 0 < k"
    and inside: "m b s = Some k \<Longrightarrow> 0 < i \<Longrightarrow> i < k \<Longrightarrow> m (Some (s ! (i - 1))) (drop i s) = None"
begin

lemma finds_from_all:
  assumes "match_at m s j = Some k" and "i \<le> j" and "j < length s"
    and "\<And>i' k'. match_at m s i' = Some k' \<Longrightarrow> i' < i \<Longrightarrow> i' + k' \<le> i"
  shows "(j, k) \<in> set (finds_from m s i)"
  using assms
proof (induction "length s - i" arbitrary: i rule: less_induct)
  case less
  note shut = less.prems(4)
  show ?case
  proof (cases "match_at m s i")
    case None
    have shut': "i' + k' \<le> Suc i" if "match_at m s i' = Some k'" "i' < Suc i" for i' k'
      using shut [OF that(1)] None that by (cases "i' = i") auto
    have "i \<noteq> j" using None less.prems(1) by auto
    then have "(j, k) \<in> set (finds_from m s (Suc i))"
      using less.prems by (intro less.hyps shut') auto
    then show ?thesis using None less.prems by (subst finds_from.simps) auto
  next
    case (Some n)
    have pos: "0 < n" using Some some_text by (auto simp: match_at_def)
    show ?thesis
    proof (cases "j = i")
      case True
      then show ?thesis using Some less.prems by (subst finds_from.simps) auto
    next
      case False
      have none: "match_at m s (i + d) = None" if "0 < d" "d < n" for d
      proof -
        have "drop (i + d) s = drop d (drop i s)" by (simp add: add.commute)
        moreover have "before_at s (i + d) = Some (drop i s ! (d - 1))"
          using that less.prems(2,3) by (auto simp: before_at_def)
        moreover have "m (before_at s i) (drop i s) = Some n" using Some by (simp add: match_at_def)
        ultimately show ?thesis using inside that unfolding match_at_def by metis
      qed
      have far: "i + n \<le> j"
      proof (rule ccontr)
        assume "\<not> i + n \<le> j"
        then have "match_at m s (i + (j - i)) = None" using False less.prems by (intro none) auto
        then show False using less.prems by simp
      qed
      have "i' + k' \<le> i + n" if "match_at m s i' = Some k'" "i' < i + n" for i' k'
      proof (cases "i' < i")
        case True
        then show ?thesis using shut that by fastforce
      next
        case geq: False
        show ?thesis
        proof (cases "i' = i")
          case neq: False
          then have "0 < i' - i" "i' - i < n" "i + (i' - i) = i'" using geq that by linarith+
          then have "match_at m s i' = None" using none [of "i' - i"] by simp
          then show ?thesis using that by simp
        qed (use that Some in simp)
      qed
      then have "(j, k) \<in> set (finds_from m s (i + n))"
        using less.prems far pos by (intro less.hyps) auto
      then show ?thesis using Some less.prems pos by (subst finds_from.simps) (auto simp: max_def Suc_le_eq)
    qed
  qed
qed

lemma finds_exact: "(i, k) \<in> set (finds m s) \<longleftrightarrow> i < length s \<and> match_at m s i = Some k"
  unfolding finds_def using finds_from_sound [of i k m s 0] finds_from_all [of s i k 0] by auto

end

lemma finds_none: "finds m s = [] \<longleftrightarrow> (\<forall>i<length s. match_at m s i = None)"
proof
  show "finds m s = [] \<Longrightarrow> \<forall>i<length s. match_at m s i = None"
    unfolding finds_def by (blast intro: finds_from_none)
next
  assume a: "\<forall>i<length s. match_at m s i = None"
  show "finds m s = []"
  proof (rule ccontr)
    assume "finds m s \<noteq> []"
    then obtain i k where "(i, k) \<in> set (finds m s)" by (metis list.set_intros(1) neq_Nil_conv surj_pair)
    then show False using a finds_from_sound unfolding finds_def by fastforce
  qed
qed

section \<open>Pieces of patterns\<close>

text \<open>\<open>\w\<close>; which code points past ASCII are alphanumeric is the table of the Unicode version.\<close>

definition u_word :: "(nat \<Rightarrow> bool) \<Rightarrow> nat \<Rightarrow> bool" where
  "u_word alnum c \<longleftrightarrow> (48 \<le> c \<and> c \<le> 57) \<or> (65 \<le> c \<and> c \<le> 90) \<or> (97 \<le> c \<and> c \<le> 122) \<or> c = 95 \<or> (128 \<le> c \<and> alnum c)"

text \<open>\<open>word\<close>, blanks as \<open>\s*\<close>, then \<open>last\<close>; the length.\<close>

definition word_then :: "ustr \<Rightarrow> nat \<Rightarrow> matcher" where
  "word_then word last_char b s =
     (if starts_with word s
      then (let rest = drop (length word) s; gap = takeWhile u_space rest
            in case dropWhile u_space rest of
                 [] \<Rightarrow> None
               | c # _ \<Rightarrow> if c = last_char then Some (length word + length gap + 1) else None)
      else None)"

definition latin_letter :: "nat \<Rightarrow> bool" where
  "latin_letter c \<longleftrightarrow> (65 \<le> c \<and> c \<le> 90) \<or> (97 \<le> c \<and> c \<le> 122)"

definition u_digit :: "nat \<Rightarrow> bool" where
  "u_digit c \<longleftrightarrow> 48 \<le> c \<and> c \<le> 57"

text \<open>\<open>int\<close> of digits.\<close>

definition dec_value :: "ustr \<Rightarrow> nat" where
  "dec_value ds = foldl (\<lambda>n c. 10 * n + (c - 48)) 0 ds"

text \<open>Digits, then \<open>sep\<close>; the digits and what follows.\<close>

definition number_then :: "ustr \<Rightarrow> ustr \<Rightarrow> (ustr \<times> ustr) option" where
  "number_then sep s =
     (let digits = takeWhile u_digit s; rest = dropWhile u_digit s
      in if digits \<noteq> [] \<and> starts_with sep rest then Some (digits, drop (length sep) rest) else None)"

section \<open>Patterns with groups\<close>

text \<open>A pattern reads its groups at a place and leaves the rest.\<close>

type_synonym 'a pattern = "nat option \<Rightarrow> ustr \<Rightarrow> ('a \<times> ustr) option"

definition span_of :: "'a pattern \<Rightarrow> matcher" where
  "span_of p b s = map_option (\<lambda>r. length s - length (snd r)) (p b s)"

definition groups_at :: "'a pattern \<Rightarrow> ustr \<Rightarrow> nat \<Rightarrow> 'a option" where
  "groups_at p s i = map_option fst (p (before_at s i) (drop i s))"

definition findall :: "'a pattern \<Rightarrow> ustr \<Rightarrow> 'a list" where
  "findall p s = List.map_filter (\<lambda>m. groups_at p s (fst m)) (finds (span_of p) s)"

definition line_start :: "nat option \<Rightarrow> bool" where
  "line_start b \<longleftrightarrow> b = None \<or> b = Some 10"

definition ends_word :: "(nat \<Rightarrow> bool) \<Rightarrow> ustr \<Rightarrow> bool" where
  "ends_word alnum s = (case s of [] \<Rightarrow> True | c # _ \<Rightarrow> \<not> u_word alnum c)"

lemma findall_exact:
  assumes "separate_matches (span_of p)"
  shows "x \<in> set (findall p s) \<longleftrightarrow> (\<exists>i<length s. groups_at p s i = Some x)"
proof -
  have m: "match_at (span_of p) s i \<noteq> None \<longleftrightarrow> groups_at p s i \<noteq> None" for i
    by (simp add: match_at_def span_of_def groups_at_def)
  have "x \<in> set (findall p s) \<longleftrightarrow> (\<exists>i k. (i, k) \<in> set (finds (span_of p) s) \<and> groups_at p s i = Some x)"
    by (force simp: findall_def List.map_filter_def)
  also have "\<dots> \<longleftrightarrow> (\<exists>i<length s. groups_at p s i = Some x)"
    unfolding separate_matches.finds_exact [OF assms] using m by fastforce
  finally show ?thesis .
qed

text \<open>A pattern that begins at a line start: inside a match it could begin only after a break.\<close>

lemma separate_at_lines:
  assumes "\<And>b s x r. p b s = Some (x, r) \<Longrightarrow> line_start b \<and> (\<exists>t. s = t @ r \<and> t \<noteq> [])"
    and "\<And>b s x r i. p b s = Some (x, r) \<Longrightarrow> Suc i < length s - length r \<Longrightarrow> s ! i = 10 \<Longrightarrow>
      p (Some 10) (drop (Suc i) s) = None"
  shows "separate_matches (span_of p)"
proof
  fix b s k assume "span_of p b s = Some k"
  then show "0 < k" using assms(1) by (fastforce simp: span_of_def)
next
  fix b s k i assume m: "span_of p b s = Some k" and i: "0 < i" "i < k"
  obtain x r where p: "p b s = Some (x, r)" and k: "k = length s - length r" using m by (auto simp: span_of_def)
  obtain j where j: "i = Suc j" using i by (cases i) auto
  show "span_of p (Some (s ! (i - 1))) (drop i s) = None"
  proof (cases "s ! j = 10")
    case True
    then show ?thesis using assms(2) [OF p, of j] i j k by (simp add: span_of_def)
  next
    case False
    have "p (Some (s ! j)) (drop i s) = None"
    proof (rule ccontr)
      assume "p (Some (s ! j)) (drop i s) \<noteq> None"
      then obtain y q where "p (Some (s ! j)) (drop i s) = Some (y, q)" by auto
      then have "line_start (Some (s ! j))" using assms(1) by blast
      then show False using False by (simp add: line_start_def)
    qed
    then show ?thesis by (simp add: j span_of_def)
  qed
qed

end
