(* ===== verification/Warning_Ratchet.thy ===== *)
theory Warning_Ratchet
  imports Regex_Scan Portability
begin

text \<open>
  The ratchet on compiler warnings (scripts/warning\_ratchet.py): from the lines of a build
  log to the set of warning sites, and what may pass against the baseline. Digits are the
  ASCII ones; \<open>Path.resolve\<close> is an argument.
\<close>

section \<open>One line\<close>

text \<open>An escape at the start: \<open>ESC [\<close>, digits and semicolons, a letter; what follows it.\<close>

definition after_escape :: "ustr \<Rightarrow> ustr option" where
  "after_escape s =
     (if starts_with [27, 91] s
      then (case dropWhile (\<lambda>c. u_digit c \<or> c = 59) (drop 2 s) of
              [] \<Rightarrow> None
            | c # cs \<Rightarrow> if latin_letter c then Some cs else None)
      else None)"

lemma after_escape_shorter: "after_escape s = Some t \<Longrightarrow> length t < length s"
  using length_dropWhile_le [of "\<lambda>c. u_digit c \<or> c = 59" "drop 2 s"]
  by (auto simp: after_escape_def split: if_splits list.splits)

function strip_ansi :: "ustr \<Rightarrow> ustr" where
  "strip_ansi s =
     (case s of
        [] \<Rightarrow> []
      | c # cs \<Rightarrow> (case after_escape s of Some t \<Rightarrow> strip_ansi t | None \<Rightarrow> c # strip_ansi cs))"
  by pat_completeness auto
termination by (relation "measure length") (auto dest: after_escape_shorter)

declare strip_ansi.simps [simp del]

definition ERROR_MARKS :: "ustr list" where
  "ERROR_MARKS = [str_of '': error: '', str_of ''Sequence aborted after failed subtask'',
     str_of ''failed to parse the provided'']"

definition is_error :: "ustr \<Rightarrow> bool" where
  "is_error line \<longleftrightarrow> list_ex (\<lambda>m. contains m line) ERROR_MARKS"

definition POE :: ustr where "POE = str_of ''Poe =>''"

text \<open>
  \<open>(\S+)\s*&&\<close> at the start: the whole run of non-blanks when the ampersands follow it, or else
  the longest beginning of the run that they follow inside it.
\<close>

definition amp_inside :: "ustr \<Rightarrow> ustr option" where
  "amp_inside w =
     (case filter (\<lambda>k. starts_with [38, 38] (drop k w)) (rev [1..<length w]) of
        [] \<Rightarrow> None | k # _ \<Rightarrow> Some (take k w))"

definition dir_before_amp :: "ustr \<Rightarrow> ustr option" where
  "dir_before_amp s =
     (let w = takeWhile (\<lambda>c. \<not> u_space c) s; rest = dropWhile u_space (dropWhile (\<lambda>c. \<not> u_space c) s)
      in if w = [] then None
         else if starts_with [38, 38] rest then Some w
         else amp_inside w)"

definition cd_dir :: "ustr \<Rightarrow> ustr option" where
  "cd_dir line =
     (if \<not> starts_with POE line then None
      else let rest = dropWhile u_space (drop (length POE) line)
           in if \<not> starts_with (str_of ''cd'') rest then None
              else case drop 2 rest of
                     [] \<Rightarrow> None
                   | c # cs \<Rightarrow> if u_space c then dir_before_amp (dropWhile u_space cs) else None)"

text \<open>\<open><path>.mojo:<line>:<col>: warning: <message>\<close>.\<close>

record warn_line =
  wl_path :: ustr
  wl_line :: ustr
  wl_col :: ustr
  wl_msg :: ustr

definition warning_of :: "ustr \<Rightarrow> warn_line option" where
  "warning_of line =
     (let path = takeWhile (\<lambda>c. \<not> u_space c \<and> c \<noteq> 58) line;
          rest = dropWhile (\<lambda>c. \<not> u_space c \<and> c \<noteq> 58) line
      in if ends_with (str_of ''.mojo'') path \<and> 5 < length path \<and> starts_with [58] rest
         then (case number_then [58] (drop 1 rest) of
                 None \<Rightarrow> None
               | Some (l, rest1) \<Rightarrow>
                   (case number_then (str_of '': warning: '') rest1 of
                      None \<Rightarrow> None
                    | Some (c, msg) \<Rightarrow> Some \<lparr>wl_path = path, wl_line = l, wl_col = c, wl_msg = msg\<rparr>))
         else None)"

section \<open>Sites\<close>

definition REPO_TOPLEVEL :: "ustr list" where
  "REPO_TOPLEVEL = [str_of ''packages/'', str_of ''apps/'', str_of ''scripts/'']"

definition relative_to :: "ustr \<Rightarrow> ustr \<Rightarrow> ustr option" where
  "relative_to root p =
     (if p = root then Some [46]
      else if starts_with (root @ [47]) p then Some (drop (length root + 1) p) else None)"

definition normalise_path :: "ustr \<Rightarrow> (ustr \<Rightarrow> ustr) \<Rightarrow> ustr \<Rightarrow> ustr \<Rightarrow> ustr" where
  "normalise_path root resolve raw cwd =
     (if starts_with [47] raw
      then (case relative_to root (resolve raw) of None \<Rightarrow> raw | Some p \<Rightarrow> p)
      else if list_ex (\<lambda>t. starts_with t raw) REPO_TOPLEVEL then u_norm raw
      else u_norm (u_join cwd raw))"

text \<open>Quoted operands become \<open>X\<close>.\<close>

definition after_quote :: "ustr \<Rightarrow> ustr option" where
  "after_quote s =
     (case s of
        [] \<Rightarrow> None
      | q # cs \<Rightarrow>
          if q \<in> {39, 34, 96} \<and> q \<in> set cs then Some (drop 1 (dropWhile (\<lambda>c. c \<noteq> q) cs)) else None)"

lemma after_quote_shorter: "after_quote s = Some t \<Longrightarrow> length t < length s"
proof (cases s)
  case (Cons q cs)
  then show "after_quote s = Some t \<Longrightarrow> length t < length s"
    using length_dropWhile_le [of "\<lambda>c. c \<noteq> q" cs] by (auto simp: after_quote_def split: if_splits)
qed (simp add: after_quote_def)

function mask_operands :: "ustr \<Rightarrow> ustr" where
  "mask_operands s =
     (case s of
        [] \<Rightarrow> []
      | c # cs \<Rightarrow> (case after_quote s of Some t \<Rightarrow> 88 # mask_operands t | None \<Rightarrow> c # mask_operands cs))"
  by pat_completeness auto
termination by (relation "measure length") (auto dest: after_quote_shorter)

declare mask_operands.simps [simp del]

definition categorise :: "ustr \<Rightarrow> ustr" where
  "categorise msg = u_strip (mask_operands msg)"

type_synonym site = "ustr \<times> ustr \<times> ustr"

record scan_state =
  s_cwd :: ustr
  s_sites :: "(site \<times> ustr) list"
  s_errors :: nat

definition site_of :: "ustr \<Rightarrow> (ustr \<Rightarrow> ustr) \<Rightarrow> ustr \<Rightarrow> warn_line \<Rightarrow> site" where
  "site_of root resolve cwd w = (normalise_path root resolve (wl_path w) cwd, wl_line w, wl_col w)"

definition add_site :: "site \<Rightarrow> ustr \<Rightarrow> (site \<times> ustr) list \<Rightarrow> (site \<times> ustr) list" where
  "add_site site category sites = (if site \<in> fst ` set sites then sites else sites @ [(site, category)])"

definition scan_line :: "ustr \<Rightarrow> (ustr \<Rightarrow> ustr) \<Rightarrow> ustr \<Rightarrow> scan_state \<Rightarrow> scan_state" where
  "scan_line root resolve raw s =
     (let line = rstrip_of 10 (strip_ansi raw);
          s1 = (if is_error line then s\<lparr>s_errors := s_errors s + 1\<rparr> else s)
      in case cd_dir line of
           Some d \<Rightarrow> s1\<lparr>s_cwd := rstrip_of 47 d\<rparr>
         | None \<Rightarrow>
             if starts_with POE line then s1\<lparr>s_cwd := []\<rparr>
             else (case warning_of (u_strip line) of
                     None \<Rightarrow> s1
                   | Some w \<Rightarrow>
                       s1\<lparr>s_sites := add_site (site_of root resolve (s_cwd s) w) (categorise (wl_msg w)) (s_sites s)\<rparr>))"

definition scan_start :: scan_state where
  "scan_start = \<lparr>s_cwd = [], s_sites = [], s_errors = 0\<rparr>"

definition scan :: "ustr \<Rightarrow> (ustr \<Rightarrow> ustr) \<Rightarrow> ustr list \<Rightarrow> scan_state" where
  "scan root resolve lines = fold (scan_line root resolve) lines scan_start"

section \<open>The ratchet\<close>

record baseline =
  b_total :: nat
  b_cats :: "ustr \<rightharpoonup> nat"

text \<open>The counts of the categories, as \<open>Counter(category_of.values())\<close> has them.\<close>

definition category_counts :: "(site \<times> ustr) list \<Rightarrow> ustr \<rightharpoonup> nat" where
  "category_counts sites c =
     (let n = length (filter (\<lambda>e. snd e = c) sites) in if n = 0 then None else Some n)"

definition new_categories :: "(site \<times> ustr) list \<Rightarrow> baseline \<Rightarrow> ustr list" where
  "new_categories sites b = filter (\<lambda>c. b_cats b c = None) (remdups (map snd sites))"

text \<open>The exit status, and the baseline left.\<close>

definition ratchet :: "bool \<Rightarrow> scan_state \<Rightarrow> baseline option \<Rightarrow> nat \<times> baseline option" where
  "ratchet update s base =
     (let total = length (s_sites s) in
      if s_errors s \<noteq> 0 then (2, base)
      else if update then (0, Some \<lparr>b_total = total, b_cats = category_counts (s_sites s)\<rparr>)
      else case base of
             None \<Rightarrow> (2, base)
           | Some b \<Rightarrow>
               if total = 0 \<and> 0 < b_total b then (1, base)
               else if b_total b < total \<or> new_categories (s_sites s) b \<noteq> [] then (1, base)
               else (0, base))"

section \<open>A site counts once\<close>

lemma add_site_sites: "fst ` set (add_site x c sites) = insert x (fst ` set sites)"
  by (auto simp: add_site_def)

lemma add_site_distinct: "distinct (map fst sites) \<Longrightarrow> distinct (map fst (add_site x c sites))"
  by (auto simp: add_site_def)

lemma scan_distinct_from:
  "distinct (map fst (s_sites s)) \<Longrightarrow> distinct (map fst (s_sites (fold (scan_line root resolve) lines s)))"
proof (induction lines arbitrary: s)
  case (Cons l lines)
  then show ?case
    by (auto simp: scan_line_def Let_def add_site_distinct split: option.split)
qed simp

text \<open>What a line adds, given the directory in force; and the directory after it.\<close>

definition cwd_after :: "ustr \<Rightarrow> ustr \<Rightarrow> ustr" where
  "cwd_after raw cwd =
     (let line = rstrip_of 10 (strip_ansi raw) in
      case cd_dir line of Some d \<Rightarrow> rstrip_of 47 d | None \<Rightarrow> if starts_with POE line then [] else cwd)"

definition reported :: "ustr \<Rightarrow> (ustr \<Rightarrow> ustr) \<Rightarrow> ustr \<Rightarrow> ustr \<Rightarrow> site option" where
  "reported root resolve raw cwd =
     (let line = rstrip_of 10 (strip_ansi raw) in
      if cd_dir line \<noteq> None \<or> starts_with POE line then None
      else map_option (site_of root resolve cwd) (warning_of (u_strip line)))"

fun all_reports :: "ustr \<Rightarrow> (ustr \<Rightarrow> ustr) \<Rightarrow> ustr \<Rightarrow> ustr list \<Rightarrow> site list" where
  "all_reports root resolve cwd [] = []"
| "all_reports root resolve cwd (l # ls) =
     (case reported root resolve l cwd of None \<Rightarrow> [] | Some x \<Rightarrow> [x]) @ all_reports root resolve (cwd_after l cwd) ls"

lemma scan_line_steps:
  "s_cwd (scan_line root resolve l s) = cwd_after l (s_cwd s)"
  "fst ` set (s_sites (scan_line root resolve l s)) =
     fst ` set (s_sites s) \<union> set (case reported root resolve l (s_cwd s) of None \<Rightarrow> [] | Some x \<Rightarrow> [x])"
  by (auto simp: scan_line_def cwd_after_def reported_def Let_def add_site_sites split: option.splits)

lemma scan_sites_from:
  "fst ` set (s_sites (fold (scan_line root resolve) lines s)) =
     fst ` set (s_sites s) \<union> set (all_reports root resolve (s_cwd s) lines)"
  by (induction lines arbitrary: s) (auto simp: scan_line_steps)

text \<open>
  The count is the number of distinct sites. However often a log reports a site and
  however it spells the path, it is one: the total is the size of the set of the reports,
  each normalised against the directory in force where it stands.
\<close>

lemma a_site_counts_once:
  "length (s_sites (scan root resolve lines)) = card (set (all_reports root resolve [] lines))"
proof -
  have d: "distinct (map fst (s_sites (scan root resolve lines)))"
    unfolding scan_def by (rule scan_distinct_from) (simp add: scan_start_def)
  have "fst ` set (s_sites (scan root resolve lines)) = set (all_reports root resolve [] lines)"
    unfolding scan_def scan_sites_from by (simp add: scan_start_def)
  then show ?thesis using distinct_card [OF d] by simp
qed

text \<open>
  What passes the ratchet. Without \<open>--update\<close> the baseline is never touched, and exit 0
  means a build with no error, no more sites than the baseline, no category it does not have,
  and not a log without warnings against a baseline with some; with it, the baseline moves
  only for a build with no error.
\<close>

lemma ratchet_exact:
  "(ratchet False s base = (0, base') \<longleftrightarrow>
      (\<exists>b. base = Some b \<and> base' = base \<and> s_errors s = 0 \<and> length (s_sites s) \<le> b_total b \<and>
        (\<forall>c\<in>snd ` set (s_sites s). b_cats b c \<noteq> None) \<and> (s_sites s = [] \<longrightarrow> b_total b = 0))) \<and>
   snd (ratchet False s base) = base \<and>
   (s_errors s \<noteq> 0 \<longrightarrow> ratchet True s base = (2, base))"
proof -
  have n: "new_categories sites b = [] \<longleftrightarrow> (\<forall>c\<in>snd ` set sites. b_cats b c \<noteq> None)" for sites b
    by (auto simp: new_categories_def filter_empty_conv)
  show ?thesis
    by (cases base) (auto simp: ratchet_def Let_def n not_less)
qed

lemma ratchet_exact_witness:
  "ratchet False \<lparr>s_cwd = [], s_sites = [(([97], [49], [50]), [119])], s_errors = 0\<rparr>
     (Some \<lparr>b_total = 1, b_cats = [[119] \<mapsto> 1]\<rparr>) = (0, Some \<lparr>b_total = 1, b_cats = [[119] \<mapsto> 1]\<rparr>)"
  using ratchet_exact [of "\<lparr>s_cwd = [], s_sites = [(([97], [49], [50]), [119])], s_errors = 0\<rparr>"
      "Some \<lparr>b_total = 1, b_cats = [[119] \<mapsto> 1]\<rparr>"] by auto

text \<open>A log with nothing in it is refused, but with \<open>--update\<close> it sets the baseline to zero.\<close>

lemma empty_log_moves_baseline:
  "ratchet True (scan root resolve []) base = (0, Some \<lparr>b_total = 0, b_cats = Map.empty\<rparr>)"
  by (simp add: ratchet_def scan_def scan_start_def category_counts_def fun_eq_iff)

end
