(* ===== verification/Probe_Run.thy ===== *)
theory Probe_Run
  imports Complex_Main "HOL-Library.Multiset" Py_Paths
begin

text \<open>
  How a probe runs a server (scripts/probelib.py): a port nothing holds, the wait until it
  answers, the stop, and the summary of a placement probe. What the operating system answers
  is a record; polling is a script of turns; times are rational numbers.
\<close>

section \<open>A free port\<close>

definition PORT_FLOOR :: int where "PORT_FLOOR = 10000"

datatype bind_result = Bound | InUse | NotHeld

record net =
  n_proc_range :: "string option"
  n_sysctl :: "string option list"
  n_bind4 :: "int \<Rightarrow> bool"
  n_socket6 :: "int \<Rightarrow> bool"
  n_bind6 :: "int \<Rightarrow> bind_result"

text \<open>\<open>int(text.split()[0])\<close>.\<close>

definition first_int :: "string \<Rightarrow> int option" where
  "first_int text =
     (case takeWhile (\<lambda>c. \<not> py_space c) (dropWhile py_space text) of [] \<Rightarrow> None | w \<Rightarrow> py_int w)"

definition first_answer :: "string option list \<Rightarrow> int option" where
  "first_answer outs =
     (case List.map_filter (\<lambda>o'. case o' of None \<Rightarrow> None | Some t \<Rightarrow> first_int t) outs of [] \<Rightarrow> None | n # _ \<Rightarrow> Some n)"

definition ephemeral_start :: "net \<Rightarrow> int" where
  "ephemeral_start n =
     (case first_answer (n_proc_range n # n_sysctl n) of Some p \<Rightarrow> p | None \<Rightarrow> 32768)"

definition port_free :: "net \<Rightarrow> int \<Rightarrow> bool" where
  "port_free n port \<longleftrightarrow>
     n_bind4 n port \<and> (if \<not> n_socket6 n port then True else n_bind6 n port \<noteq> InUse)"

text \<open>\<open>draws\<close> is what \<open>random.sample\<close> gives, in its order.\<close>

definition free_run :: "net \<Rightarrow> int \<Rightarrow> int list \<Rightarrow> int option" where
  "free_run n wanted draws = find (\<lambda>base. list_all (port_free n) [base..base + wanted - 1]) draws"

datatype port_error = NoRoom int | NoneFree

definition free_port :: "net \<Rightarrow> int \<Rightarrow> int list \<Rightarrow> port_error + int" where
  "free_port n wanted draws =
     (let first = ephemeral_start n in
      if first - wanted < PORT_FLOOR then Inl (NoRoom first)
      else case free_run n wanted draws of None \<Rightarrow> Inl NoneFree | Some base \<Rightarrow> Inr base)"

text \<open>
  A probe's port is its own. The run that is given lies between the floor and the
  kernel's ephemeral range, never in it, and each port of it was free on IPv4 and not in use
  on IPv6. (\<open>random.sample\<close> draws from the range it is given.)
\<close>

lemma free_port_below_ephemeral:
  assumes "free_port n wanted draws = Inr base" and "set draws \<subseteq> {PORT_FLOOR..ephemeral_start n - wanted}"
  shows "PORT_FLOOR \<le> base \<and> base + wanted \<le> ephemeral_start n \<and>
    (\<forall>p. base \<le> p \<and> p < base + wanted \<longrightarrow> n_bind4 n p \<and> (n_socket6 n p \<longrightarrow> n_bind6 n p \<noteq> InUse))"
proof -
  have run: "free_run n wanted draws = Some base"
    using assms(1) by (auto simp: free_port_def Let_def split: if_splits option.splits)
  then have "base \<in> set draws" and free: "list_all (port_free n) [base..base + wanted - 1]"
    by (auto simp: free_run_def find_Some_iff)
  then show ?thesis using assms(2) by (force simp: list_all_iff port_free_def)
qed

definition quiet_net :: net where
  "quiet_net = \<lparr>n_proc_range = Some ''32768 60999'', n_sysctl = [None, None],
     n_bind4 = (\<lambda>p. p \<noteq> 10001), n_socket6 = (\<lambda>_. True), n_bind6 = (\<lambda>p. if p = 10004 then InUse else Bound)\<rparr>"

lemma quiet_binds [simp]:
  "n_bind4 quiet_net p \<longleftrightarrow> p \<noteq> 10001" "n_socket6 quiet_net p"
  "n_bind6 quiet_net p = (if p = 10004 then InUse else Bound)"
  by (simp_all add: quiet_net_def)

lemma quiet_start: "ephemeral_start quiet_net = 32768"
proof -
  have "first_int ''32768 60999'' = Some 32768" by code_simp
  then show ?thesis by (simp add: ephemeral_start_def first_answer_def quiet_net_def map_filter_simps)
qed

lemma free_port_below_ephemeral_witness:
  "free_port quiet_net 2 [10000, 10003, 10005] = Inr 10005 \<and> 10005 + 2 \<le> ephemeral_start quiet_net"
proof -
  have r: "free_port quiet_net 2 [10000, 10003, 10005] = Inr 10005"
    by (simp add: free_port_def quiet_start PORT_FLOOR_def free_run_def port_free_def)
  then show ?thesis using free_port_below_ephemeral [OF r] by (simp add: quiet_start PORT_FLOOR_def)
qed

section \<open>Waiting for the server\<close>

text \<open>\<open>_exited\<close>; \<open>signal_name\<close> is \<open>signal.Signals(n).name\<close>, \<open>None\<close> where it raises.\<close>

definition exited_text :: "(int \<Rightarrow> string option) \<Rightarrow> int option \<Rightarrow> string" where
  "exited_text signal_name code =
     (case code of
        None \<Rightarrow> ''exited None''
      | Some c \<Rightarrow>
          if c < 0 then ''was killed by '' @ (case signal_name (- c) of Some n \<Rightarrow> n | None \<Rightarrow> ''signal '' @ show_int (- c))
          else ''exited '' @ show_int c)"

datatype waited = Healthy | DiedFirst int | NoAnswer | StillPolling

text \<open>A turn: \<open>proc.poll()\<close>, the clock, and whether the attempt is answered.\<close>

fun wait_healthy :: "bool \<Rightarrow> rat \<Rightarrow> (int option \<times> rat \<times> bool) list \<Rightarrow> waited" where
  "wait_healthy has_proc deadline [] = StillPolling"
| "wait_healthy has_proc deadline ((code, now, answered) # turns) =
     (case (if has_proc then code else None) of
        Some c \<Rightarrow> DiedFirst c
      | None \<Rightarrow>
          if deadline - now \<le> 0 then NoAnswer
          else if answered then Healthy
          else wait_healthy has_proc deadline turns)"

definition attempt_timeout :: "rat \<Rightarrow> rat" where
  "attempt_timeout left = min 2 (max (1 / 10) left)"

text \<open>
  The wait ends, and says why. It is over by the first turn at or after the deadline; it
  reports a server healthy only on an answer before the deadline from one that had not exited,
  and reports an exit at the first turn that sees one.
\<close>

lemma wait_ends_with_a_reason:
  assumes "(code, now, answered) \<in> set turns" and "deadline \<le> now"
  shows "wait_healthy True deadline turns \<noteq> StillPolling \<and>
    (wait_healthy True deadline turns = Healthy \<longrightarrow>
       (\<exists>before t after. turns = before @ (None, t, True) # after \<and> t < deadline \<and>
          (\<forall>(c, _, a)\<in>set before. c = None \<and> \<not> a))) \<and>
    (\<forall>c. wait_healthy True deadline turns = DiedFirst c \<longrightarrow>
       (\<exists>before t a after. turns = before @ (Some c, t, a) # after \<and> (\<forall>(d, u, _)\<in>set before. d = None \<and> u < deadline)))"
  using assms
proof (induction turns)
  case (Cons turn turns)
  obtain d t a where turn: "turn = (d, t, a)" by (cases turn)
  show ?case
  proof (cases "d = None \<and> t < deadline \<and> \<not> a")
    case True
    then have step: "wait_healthy True deadline (turn # turns) = wait_healthy True deadline turns"
      by (simp add: turn)
    have mem: "(code, now, answered) \<in> set turns" using Cons.prems True by (auto simp: turn)
    have clean: "case turn of (c, u, b) \<Rightarrow> c = None \<and> \<not> b \<and> u < deadline" using True by (simp add: turn)
    note ih = Cons.IH [OF mem Cons.prems(2)]
    show ?thesis unfolding step
    proof (intro conjI impI allI)
      show "wait_healthy True deadline turns \<noteq> StillPolling" using ih by blast
      assume "wait_healthy True deadline turns = Healthy"
      then obtain before u after where "turns = before @ (None, u, True) # after" "u < deadline"
        "\<forall>(c, _, a)\<in>set before. c = None \<and> \<not> a" using ih by blast
      then show "\<exists>before t after. turn # turns = before @ (None, t, True) # after \<and> t < deadline \<and>
          (\<forall>(c, _, a)\<in>set before. c = None \<and> \<not> a)"
        using clean by (intro exI [of _ "turn # before"] exI [of _ u] exI [of _ after]) auto
    next
      fix c assume "wait_healthy True deadline turns = DiedFirst c"
      then obtain before u b after where "turns = before @ (Some c, u, b) # after"
        "\<forall>(d, u, _)\<in>set before. d = None \<and> u < deadline" using ih by blast
      then show "\<exists>before t a after. turn # turns = before @ (Some c, t, a) # after \<and>
          (\<forall>(d, u, _)\<in>set before. d = None \<and> u < deadline)"
        using clean by (intro exI [of _ "turn # before"] exI [of _ u] exI [of _ b] exI [of _ after]) auto
    qed
  next
    case False
    then show ?thesis by (cases d) (auto simp: turn split: if_splits intro: exI [of _ "[]"])
  qed
qed simp

lemma wait_ends_with_a_reason_witness:
  "wait_healthy True 30 [(None, 1, False), (Some (-9), 2, False), (None, 31, False)] = DiedFirst (-9) \<and>
   wait_healthy True 30 [(None, 1, False), (Some (-9), 2, False), (None, 31, False)] \<noteq> StillPolling"
  using wait_ends_with_a_reason [of None 31 False "[(None, 1, False), (Some (-9), 2, False), (None, 31, False)]" 30] by simp

section \<open>Stopping it\<close>

datatype sig = SIGTERM | SIGKILL

text \<open>
  What is signalled, in order, and the status: \<open>running\<close> is what \<open>poll\<close> says before each signal
  to the process alone; \<open>in_grace\<close> the status within the grace, \<open>at_last\<close> after the kill.
\<close>

definition stop_process :: "bool \<Rightarrow> bool \<Rightarrow> bool \<Rightarrow> int option \<Rightarrow> int \<Rightarrow> sig list \<times> int" where
  "stop_process grouped running_then running_later in_grace at_last =
     (let term = (if grouped \<or> running_then then [SIGTERM] else []);
          (kills, code) = (case in_grace of
             Some c \<Rightarrow> ([], c)
           | None \<Rightarrow> (if grouped \<or> running_later then [SIGKILL] else [], at_last))
      in (term @ kills @ (if grouped then [SIGKILL] else []), code))"

section \<open>The placement summary\<close>

type_synonym sample = "rat \<times> rat \<times> rat"

record placement =
  pl_worst :: int
  pl_second :: int
  pl_connect :: int
  pl_request :: int

definition whole_ms :: "rat \<Rightarrow> int" where
  "whole_ms x = (if 0 \<le> x then \<lfloor>x\<rfloor> else \<lceil>x\<rceil>)"

text \<open>\<open>sorted(samples, key=..., reverse=True)\<close>, which keeps the order of equals.\<close>

definition worst_first :: "sample list \<Rightarrow> sample list" where
  "worst_first samples = rev (sort_key fst (rev samples))"

definition placement_summary :: "sample list \<Rightarrow> placement option" where
  "placement_summary samples =
     (if length samples < 2 then None
      else let ordered = worst_first samples; worst = ordered ! 0; second = ordered ! 1
           in Some \<lparr>pl_worst = whole_ms (fst worst), pl_second = whole_ms (fst second),
                    pl_connect = whole_ms (fst (snd worst)), pl_request = whole_ms (snd (snd worst))\<rparr>)"

definition placement_line :: "sample list \<Rightarrow> string \<Rightarrow> int \<Rightarrow> string option" where
  "placement_line samples name slow =
     (case placement_summary samples of
        None \<Rightarrow> None
      | Some p \<Rightarrow> Some (join '' ''
          [''worst_'' @ name @ ''_ms='' @ show_int (pl_worst p),
           ''second_'' @ name @ ''_ms='' @ show_int (pl_second p),
           ''worst_connect_ms='' @ show_int (pl_connect p),
           ''worst_request_ms='' @ show_int (pl_request p),
           ''slow_requests='' @ show_int slow]))"

lemma worst_first_sorted: "sorted_wrt (\<ge>) (map fst (worst_first samples))"
proof -
  have "sorted (map fst (sort_key fst (rev samples)))" by simp
  then have "sorted_wrt (\<lambda>x y. y \<le> x) (rev (map fst (sort_key fst (rev samples))))"
    by (simp add: sorted_wrt_rev)
  then show ?thesis by (simp add: worst_first_def rev_map)
qed

lemma worst_first_mset: "mset (worst_first samples) = mset samples"
  by (simp add: worst_first_def)

text \<open>
  The summary is of the worst sample. Of two samples or more there is one none exceeds,
  whose total, connect and request times are the figures given; and the second figure is the
  largest total of the others.
\<close>

lemma summary_of_the_worst:
  assumes "placement_summary samples = Some p"
  shows "\<exists>w v rest. mset samples = mset (w # v # rest) \<and>
    pl_worst p = whole_ms (fst w) \<and> pl_connect p = whole_ms (fst (snd w)) \<and> pl_request p = whole_ms (snd (snd w)) \<and>
    pl_second p = whole_ms (fst v) \<and> fst v \<le> fst w \<and> (\<forall>x\<in>set rest. fst x \<le> fst v)"
proof -
  have "2 \<le> length (worst_first samples)"
    using assms by (auto simp: placement_summary_def worst_first_def split: if_splits)
  then obtain w v rest where o': "worst_first samples = w # v # rest"
    by (cases "worst_first samples" rule: remdups_adj.cases) auto
  then have "mset samples = mset (w # v # rest)" using worst_first_mset [of samples] by simp
  moreover have "fst v \<le> fst w \<and> (\<forall>x\<in>set rest. fst x \<le> fst v)"
    using worst_first_sorted [of samples] unfolding o' by simp
  ultimately show ?thesis
    using assms o' by (intro exI [of _ w] exI [of _ v] exI [of _ rest]) (auto simp: placement_summary_def split: if_splits)
qed

lemma summary_of_the_worst_witness:
  "\<exists>p. placement_summary [(3, 1, 2), (9, 4, 5), (4, 1, 1)] = Some p \<and> pl_worst p = 9 \<and> pl_second p = 4"
proof -
  have w: "worst_first [(3, 1, 2), (9, 4, 5), (4, 1, 1)] = [(9, 4, 5), (4, 1, 1), (3, 1, 2)]"
    by (simp add: worst_first_def)
  then obtain p where p: "placement_summary [(3, 1, 2), (9, 4, 5), (4, 1, 1)] = Some p" and
    "pl_worst p = 9 \<and> pl_second p = 4" by (simp add: placement_summary_def whole_ms_def)
  then show ?thesis using summary_of_the_worst [OF p] by blast
qed

end
