(* ===== verification/Fork_Lint.thy ===== *)
theory Fork_Lint
  imports Regex_Scan
begin

text \<open>
  The two rules on the fork's Mojo sources (scripts/fork\_lint.py): variadic C functions are
  called only where that is sanctioned, and no \<open>[byte=\<close> slice outside the allowed sites.
  Messages are constructors; the Unicode table of \<open>\w\<close> and the directory listing are arguments.
\<close>

section \<open>Code without comments and strings\<close>

datatype piece =
    Comment ustr
  | Docstring ustr
  | Literal ustr
  | CodeChar nat

fun piece_text :: "piece \<Rightarrow> ustr" where
  "piece_text (Comment s) = s"
| "piece_text (Docstring s) = s"
| "piece_text (Literal s) = s"
| "piece_text (CodeChar c) = [c]"

text \<open>How far \<open>j\<close> moves to a closing triple quote, and to the end of an ordinary literal.\<close>

fun triple_skip :: "ustr \<Rightarrow> ustr \<Rightarrow> nat" where
  "triple_skip q [] = 0"
| "triple_skip q (c # cs) =
     (if starts_with q (c # cs) then 0
      else if c = 92 then (case cs of [] \<Rightarrow> 2 | _ # ds \<Rightarrow> 2 + triple_skip q ds)
      else 1 + triple_skip q cs)"

fun plain_skip :: "nat \<Rightarrow> ustr \<Rightarrow> nat" where
  "plain_skip q [] = 0"
| "plain_skip q (c # cs) =
     (if c = q \<or> c = 10 then 0
      else if c = 92 then (case cs of [] \<Rightarrow> 2 | _ # ds \<Rightarrow> 2 + plain_skip q ds)
      else 1 + plain_skip q cs)"

definition first_piece :: "nat \<Rightarrow> ustr \<Rightarrow> piece" where
  "first_piece c cs =
     (if c = 35 then Comment (c # takeWhile (\<lambda>d. d \<noteq> 10) cs)
      else if c \<in> {34, 39}
      then (if starts_with [c, c, c] (c # cs)
            then Docstring (take (3 + triple_skip [c, c, c] (drop 2 cs) + 3) (c # cs))
            else Literal (take (1 + plain_skip c cs + 1) (c # cs)))
      else CodeChar c)"

fun blanked :: "bool \<Rightarrow> piece \<Rightarrow> ustr" where
  "blanked keep (Comment s) = map (\<lambda>_. 32) s"
| "blanked keep (Docstring s) = map (\<lambda>c. if c = 10 then 10 else 32) s"
| "blanked keep (Literal s) = (if keep then s else map (\<lambda>_. 32) s)"
| "blanked keep (CodeChar c) = [c]"

lemma first_piece_take: "\<exists>n. piece_text (first_piece c cs) = take (Suc n) (c # cs)"
proof -
  have "takeWhile P cs = take (length (takeWhile P cs)) cs" for P
    by (metis append_eq_conv_conj takeWhile_dropWhile_id)
  then have "\<exists>n. c # takeWhile P cs = take (Suc n) (c # cs)" for P by (metis take_Suc_Cons)
  moreover have "\<exists>n. take (3 + k + 3) (c # cs) = take (Suc n) (c # cs)" for k
    by (rule exI [of _ "5 + k"]) (rule arg_cong [where f = "\<lambda>n. take n (c # cs)"], simp)
  moreover have "\<exists>n. take (1 + k + 1) (c # cs) = take (Suc n) (c # cs)" for k
    by (rule exI [of _ "1 + k"]) (rule arg_cong [where f = "\<lambda>n. take n (c # cs)"], simp)
  moreover have "\<exists>n. [c] = take (Suc n) (c # cs)" by (rule exI [of _ 0]) simp
  ultimately show ?thesis unfolding first_piece_def by (simp only: piece_text.simps split: if_splits) blast
qed

function pieces :: "ustr \<Rightarrow> piece list" where
  "pieces [] = []"
| "pieces (c # cs) =
     (let p = first_piece c cs in p # pieces (drop (length (piece_text p)) (c # cs)))"
  by pat_completeness auto
termination
proof (relation "measure length")
  fix c cs p assume "p = first_piece c cs"
  then show "(drop (length (piece_text p)) (c # cs), c # cs) \<in> measure length"
    using first_piece_take [of c cs] by auto
qed simp

declare pieces.simps(2) [simp del]

definition code_only :: "ustr \<Rightarrow> bool \<Rightarrow> ustr" where
  "code_only src keep_strings = concat (map (blanked keep_strings) (pieces src))"

lemma first_piece_prefix: "piece_text (first_piece c cs) @ drop (length (piece_text (first_piece c cs))) (c # cs) = c # cs"
  using first_piece_take [of c cs] by (metis append_eq_conv_conj append_take_drop_id)

lemma pieces_partition: "concat (map piece_text (pieces src)) = src"
  by (induction src rule: pieces.induct) (simp_all add: pieces.simps(2) Let_def first_piece_prefix)

lemma length_blanked [simp]: "length (blanked keep p) = length (piece_text p)"
  by (cases p) auto

lemma length_code_only [simp]: "length (code_only src keep) = length src"
proof -
  have "length (code_only src keep) = length (concat (map piece_text (pieces src)))"
    by (simp add: code_only_def length_concat comp_def)
  then show ?thesis by (simp add: pieces_partition)
qed

text \<open>Where an ordinary literal holds a line break: unterminated, or escaped at its end.\<close>

definition literals_on_one_line :: "ustr \<Rightarrow> bool" where
  "literals_on_one_line src \<longleftrightarrow> list_all (\<lambda>p. case p of Literal s \<Rightarrow> 10 \<notin> set s | _ \<Rightarrow> True) (pieces src)"

definition blanks_over :: "ustr \<Rightarrow> ustr \<Rightarrow> bool" where
  "blanks_over out src \<longleftrightarrow> list_all2 (\<lambda>b c. b = c \<or> b = 32) out src"

lemma blanked_over: "blanks_over (blanked keep p) (piece_text p)"
  by (cases p) (auto simp: blanks_over_def list_all2_conv_all_nth)

lemma concat_over: "list_all (\<lambda>p. list_all2 R (f p) (g p)) ps \<Longrightarrow> list_all2 R (concat (map f ps)) (concat (map g ps))"
  by (induction ps) (auto intro: list_all2_appendI)

lemma code_only_over: "blanks_over (code_only src keep) src"
proof -
  have "list_all2 (\<lambda>b c. b = c \<or> b = 32) (code_only src keep) (concat (map piece_text (pieces src)))"
    unfolding code_only_def
    by (rule concat_over) (use blanked_over in \<open>simp add: list_all_iff blanks_over_def\<close>)
  then show ?thesis by (simp add: pieces_partition blanks_over_def)
qed

lemma comment_has_no_break: "Comment s \<in> set (pieces src) \<Longrightarrow> 10 \<notin> set s"
proof (induction src rule: pieces.induct)
  case (2 c cs)
  have "10 \<notin> set s" if "first_piece c cs = Comment s"
    using that by (auto simp: first_piece_def dest: set_takeWhileD split: if_splits)
  then show ?case using 2 by (auto simp: pieces.simps(2) Let_def)
qed simp

lemma code_only_breaks:
  assumes "keep \<or> literals_on_one_line src"
  shows "list_all2 (\<lambda>b c. b = 10 \<longleftrightarrow> c = 10) (code_only src keep) src"
proof -
  have "list_all2 (\<lambda>b c. b = 10 \<longleftrightarrow> c = 10) (blanked keep p) (piece_text p)" if p: "p \<in> set (pieces src)" for p
  proof (cases p)
    case (Comment s)
    then show ?thesis using comment_has_no_break [of s src] p
      by (auto simp: list_all2_conv_all_nth in_set_conv_nth)
  next
    case (Literal s)
    then have "keep \<or> 10 \<notin> set s" using assms p by (auto simp: literals_on_one_line_def list_all_iff)
    then show ?thesis using Literal by (auto simp: list_all2_conv_all_nth in_set_conv_nth)
  qed (auto simp: list_all2_conv_all_nth)
  then have "list_all2 (\<lambda>b c. b = 10 \<longleftrightarrow> c = 10) (code_only src keep) (concat (map piece_text (pieces src)))"
    unfolding code_only_def by (intro concat_over) (simp add: list_all_iff)
  then show ?thesis by (simp add: pieces_partition)
qed

text \<open>\<open>count\<close> of line breaks before a place, plus one.\<close>

definition line_at :: "ustr \<Rightarrow> nat \<Rightarrow> nat" where
  "line_at s i = length (filter (\<lambda>c. c = 10) (take i s)) + 1"

text \<open>
  A place in the code is the same place in the file. Blanking keeps every offset, and what
  stands there is the file's character or a blank; and where no ordinary literal holds a line
  break (always, when literals are kept) line numbers are the file's too.
\<close>

lemma code_only_keeps_places:
  "length (code_only src keep) = length src \<and>
   (\<forall>i<length src. code_only src keep ! i = src ! i \<or> code_only src keep ! i = 32) \<and>
   (keep \<or> literals_on_one_line src \<longrightarrow> (\<forall>i. line_at (code_only src keep) i = line_at src i))"
proof (intro conjI impI allI)
  show "code_only src keep ! i = src ! i \<or> code_only src keep ! i = 32" if "i < length src" for i
    using code_only_over [of src keep] that by (auto simp: blanks_over_def list_all2_conv_all_nth)
next
  fix i assume "keep \<or> literals_on_one_line src"
  then have "list_all2 (\<lambda>b c. b = 10 \<longleftrightarrow> c = 10) (take i (code_only src keep)) (take i src)"
    by (intro list_all2_takeI code_only_breaks)
  then show "line_at (code_only src keep) i = line_at src i"
    unfolding line_at_def by (induction rule: list_all2_induct) auto
qed simp

lemma code_only_keeps_places_witness:
  "line_at (code_only [120, 35, 34, 10, 39, 97, 39, 10, 121] False) 8 = 3 \<and>
   code_only [120, 35, 34, 10, 39, 97, 39, 10, 121] False = [120, 32, 32, 10, 32, 32, 32, 10, 121]"
proof -
  let ?src = "[120, 35, 34, 10, 39, 97, 39, 10, 121] :: ustr"
  have p: "pieces ?src = [CodeChar 120, Comment [35, 34], CodeChar 10, Literal [39, 97, 39], CodeChar 10, CodeChar 121]"
    by (simp add: pieces.simps(2) Let_def first_piece_def starts_with_def)
  then have "literals_on_one_line ?src" by (simp add: literals_on_one_line_def)
  then have "line_at (code_only ?src False) 8 = line_at ?src 8"
    using code_only_keeps_places [of ?src False] by blast
  then show ?thesis by (simp add: line_at_def) (simp add: code_only_def p)
qed

text \<open>Otherwise a line number can be short: a literal that an escaped line break carries over.\<close>

lemma carried_literal_loses_a_line:
  "code_only [34, 92, 10, 34, 10, 120] False = [32, 32, 32, 32, 10, 120]"
  by (simp add: code_only_def pieces.simps(2) Let_def first_piece_def starts_with_def)

section \<open>The patterns\<close>

definition EXTERNAL :: ustr where "EXTERNAL = str_of ''external_call''"

definition CALL_RE :: matcher where "CALL_RE = word_then EXTERNAL 91"

text \<open>\<open>\bexternal\_call\s+as\b\<close> and \<open>=\s*external\_call\b(?!\s*\[)\<close>.\<close>

definition alias_as :: "(nat \<Rightarrow> bool) \<Rightarrow> matcher" where
  "alias_as alnum b s =
     (let rest = drop (length EXTERNAL) s; gap = takeWhile u_space rest; tail = dropWhile u_space rest
      in if (case b of None \<Rightarrow> True | Some p \<Rightarrow> \<not> u_word alnum p) \<and> starts_with EXTERNAL s \<and> gap \<noteq> [] \<and>
            starts_with (str_of ''as'') tail \<and> ends_word alnum (drop 2 tail)
         then Some (length EXTERNAL + length gap + 2) else None)"

definition alias_bound :: "(nat \<Rightarrow> bool) \<Rightarrow> matcher" where
  "alias_bound alnum b s =
     (case s of
        [] \<Rightarrow> None
      | c # cs \<Rightarrow>
          let gap = takeWhile u_space cs; tail = dropWhile u_space cs; rest = drop (length EXTERNAL) tail
          in if c = 61 \<and> starts_with EXTERNAL tail \<and> ends_word alnum rest \<and> \<not> starts_with [91] (dropWhile u_space rest)
             then Some (1 + length gap + length EXTERNAL) else None)"

definition ALIAS_RE :: "(nat \<Rightarrow> bool) \<Rightarrow> matcher" where
  "ALIAS_RE alnum b s = (case alias_as alnum b s of Some k \<Rightarrow> Some k | None \<Rightarrow> alias_bound alnum b s)"

definition BYTE_RE :: matcher where
  "BYTE_RE b s =
     (case s of
        [] \<Rightarrow> None
      | c # cs \<Rightarrow>
          let gap = takeWhile u_space cs; tail = dropWhile u_space cs
          in if c = 91 then map_option (\<lambda>k. 1 + length gap + k) (word_then (str_of ''byte'') 61 None tail) else None)"

section \<open>Variadic calls\<close>

definition VARIADIC :: "ustr list" where
  "VARIADIC = map str_of
    [''fcntl'', ''fcntl64'', ''open'', ''open64'', ''openat'', ''openat64'', ''creat64'',
     ''ioctl'', ''shm_open'', ''sem_open'', ''mq_open'', ''semctl'', ''msgctl'', ''prctl'',
     ''ptrace'', ''syscall'', ''printf'', ''fprintf'', ''dprintf'', ''sprintf'',
     ''snprintf'', ''scanf'', ''sscanf'', ''fscanf'', ''syslog'', ''execl'', ''execle'',
     ''execlp'']"

definition SANCTIONED :: "(ustr \<times> ustr list) list" where
  "SANCTIONED =
     [(str_of ''fcntl'', [str_of ''packages/m0-http/lightbug_http/c/fcntl.mojo'']),
      (str_of ''shm_open'', [str_of ''packages/m0-http/lightbug_http/c/process.mojo''])]"

definition SANCTIONED_LINUX_ONLY :: "(ustr \<times> ustr list) list" where
  "SANCTIONED_LINUX_ONLY = [(str_of ''syscall'', [str_of ''packages/m0-http/lightbug_http/c/epoll.mojo''])]"

definition list_get :: "'a \<Rightarrow> ('a \<times> 'b list) list \<Rightarrow> 'b list" where
  "list_get k kvs = (case map_of kvs k of None \<Rightarrow> [] | Some v \<Rightarrow> v)"

datatype argument = Lit ustr | Expr ustr

fun lit_argument :: "ustr list \<Rightarrow> ustr \<Rightarrow> ustr option" where
  "lit_argument [] t = None"
| "lit_argument (q # qs) t =
     (if starts_with q t
      then (case cut_at q (drop (length q) t) of
              None \<Rightarrow> lit_argument qs t
            | Some (name, rest) \<Rightarrow>
                (case dropWhile u_space rest of
                   [] \<Rightarrow> None
                 | c # _ \<Rightarrow> if c = 44 \<or> c = 93 then Some name else None))
      else lit_argument qs t)"

definition u_words :: "ustr \<Rightarrow> ustr list" where
  "u_words s = filter (\<lambda>w. w \<noteq> []) (split_on 32 (map (\<lambda>c. if u_space c then 32 else c) s))"

definition QUOTES :: "ustr list" where
  "QUOTES = [[34, 34, 34], [39, 39, 39], [34], [39]]"

definition first_argument :: "ustr \<Rightarrow> nat \<Rightarrow> argument" where
  "first_argument src pos =
     (let t = dropWhile u_space (drop pos src) in
      case lit_argument QUOTES t of
        Some name \<Rightarrow> Lit name
      | None \<Rightarrow> Expr (join [32] (u_words (takeWhile (\<lambda>c. c \<noteq> 44 \<and> c \<noteq> 93) t))))"

text \<open>A file and a snippet of the line.\<close>

type_synonym site_key = "ustr \<times> ustr"

datatype lint_finding =
    NotLiteral ustr nat ustr
  | VariadicCall ustr nat ustr
  | Aliased ustr nat
  | ByteSlice ustr nat
  | MatchesNothing site_key
  | NoSuchFile ustr
  | Undocumented ustr

definition line_text :: "ustr \<Rightarrow> nat \<Rightarrow> ustr" where
  "line_text s line = split_on 10 s ! (line - 1)"

definition allows :: "ustr \<Rightarrow> ustr \<Rightarrow> site_key \<Rightarrow> bool" where
  "allows rel line k \<longleftrightarrow> fst k = rel \<and> contains (snd k) line"

definition call_findings :: "ustr \<Rightarrow> ustr \<Rightarrow> site_key list \<Rightarrow> ustr \<Rightarrow> nat \<times> nat \<Rightarrow> lint_finding list" where
  "call_findings rel src dynamic code = (\<lambda>(i, k).
     let line = line_at code i in
     case first_argument src (i + k) of
       Expr v \<Rightarrow> if list_ex (allows rel (line_text src line)) dynamic then [] else [NotLiteral rel line v]
     | Lit v \<Rightarrow>
         if v \<in> set VARIADIC \<and> rel \<notin> set (list_get v SANCTIONED @ list_get v SANCTIONED_LINUX_ONLY)
         then [VariadicCall rel line v] else [])"

definition check_variadic :: "(nat \<Rightarrow> bool) \<Rightarrow> ustr \<Rightarrow> ustr \<Rightarrow> site_key list \<Rightarrow> lint_finding list" where
  "check_variadic alnum rel src dynamic =
     (let code = code_only src False in
      concat (map (call_findings rel src dynamic code) (finds CALL_RE code)) @
      concat (map (\<lambda>(i, k).
          let line = line_at code i in
          if list_ex (allows rel (line_text src line)) dynamic then [] else [Aliased rel line])
        (finds (ALIAS_RE alnum) code)))"

section \<open>Byte slices\<close>

definition slice_key :: "ustr \<Rightarrow> ustr \<Rightarrow> site_key list \<Rightarrow> nat \<times> nat \<Rightarrow> site_key option" where
  "slice_key rel code allowed = (\<lambda>(i, k). find (allows rel (line_text code (line_at code i))) allowed)"

definition check_byte_slices :: "ustr \<Rightarrow> ustr \<Rightarrow> site_key list \<Rightarrow> lint_finding list \<times> site_key list" where
  "check_byte_slices rel src allowed =
     (let code = code_only src False; places = finds BYTE_RE code
      in (concat (map (\<lambda>p. if slice_key rel code allowed p = None then [ByteSlice rel (line_at code (fst p))] else []) places),
          List.map_filter (slice_key rel code allowed) places))"

section \<open>The tree\<close>

definition SCAN_DIRS :: "ustr list" where
  "SCAN_DIRS = [str_of ''packages'', str_of ''apps'', str_of ''scripts'', str_of ''packaging'']"

definition FORK :: "ustr list" where
  "FORK = [str_of ''packages/m0-http/lightbug_http/'', str_of ''packages/m0-http/src/'']"

definition SKIPPED_PARTS :: "ustr list" where
  "SKIPPED_PARTS = [str_of ''.pixi'', str_of ''.venv'', str_of ''node_modules'']"

text \<open>
  The repository: the parts of its own path, the \<open>.mojo\<close> files under a directory in order, the
  text of a file (\<open>None\<close>: no such file).
\<close>

record lint_tree =
  lt_root :: "ustr list"
  lt_rglob :: "ustr \<Rightarrow> ustr list"
  lt_read :: "ustr \<Rightarrow> ustr option"

definition mojo_files :: "lint_tree \<Rightarrow> ustr list" where
  "mojo_files t =
     concat (map (\<lambda>d. filter (\<lambda>p. \<not> list_ex (\<lambda>part. part \<in> set SKIPPED_PARTS) (lt_root t @ split_on 47 p)) (lt_rglob t d))
       SCAN_DIRS)"

definition DOC_FILE :: ustr where "DOC_FILE = str_of ''packages/m0-http/lightbug_http/c/fcntl.mojo''"

definition check_docstring :: "ustr \<Rightarrow> lint_finding list" where
  "check_docstring src =
     (let doc = (case cut_at [34, 34, 34] src of
                   None \<Rightarrow> []
                 | Some (_, rest) \<Rightarrow> (case cut_at [34, 34, 34] rest of None \<Rightarrow> [] | Some (d, _) \<Rightarrow> d))
      in map Undocumented (filter (\<lambda>sym. \<not> contains sym doc) (map fst SANCTIONED)))"

definition in_fork :: "ustr \<Rightarrow> bool" where
  "in_fork rel \<longleftrightarrow> list_ex (\<lambda>d. starts_with d rel) FORK"

definition file_findings :: "(nat \<Rightarrow> bool) \<Rightarrow> site_key list \<Rightarrow> ustr \<Rightarrow> ustr \<Rightarrow> lint_finding list \<times> site_key list" where
  "file_findings alnum allowed rel src =
     (let (slices, used) = (if in_fork rel then check_byte_slices rel src allowed else ([], []))
      in (check_variadic alnum rel src [] @ slices, used))"

definition source_of :: "lint_tree \<Rightarrow> ustr \<Rightarrow> ustr" where
  "source_of t rel = (case lt_read t rel of None \<Rightarrow> [] | Some s \<Rightarrow> s)"

definition lint :: "(nat \<Rightarrow> bool) \<Rightarrow> site_key list \<Rightarrow> lint_tree \<Rightarrow> lint_finding list" where
  "lint alnum allowed t =
     (let per_file = map (\<lambda>rel. file_findings alnum allowed rel (source_of t rel)) (mojo_files t);
          used = concat (map snd per_file);
          sanctioned_files = concat (map snd SANCTIONED) @ concat (map snd SANCTIONED_LINUX_ONLY)
      in concat (map fst per_file)
         @ map MatchesNothing (filter (\<lambda>k. k \<notin> set used) allowed)
         @ map NoSuchFile (filter (\<lambda>rel. lt_read t rel = None) sanctioned_files)
         @ (case lt_read t DOC_FILE of None \<Rightarrow> [] | Some doc \<Rightarrow> check_docstring doc))"

section \<open>Nothing is missed\<close>

text \<open>A word no shift of which fits over itself: its matches do not overlap.\<close>

definition borderless :: "'a list \<Rightarrow> bool" where
  "borderless w \<longleftrightarrow> list_all (\<lambda>i. list_ex (\<lambda>j. w ! (i + j) \<noteq> w ! j) [0..<length w - i]) [1..<length w]"

lemma word_then_text:
  assumes "word_then w l b s = Some k"
  obtains gap rest where "s = w @ gap @ l # rest" and "\<forall>c\<in>set gap. u_space c" and "k = length w + length gap + 1"
proof -
  obtain t where s: "s = w @ t" using assms by (auto simp: word_then_def starts_with_iff split: if_splits)
  then obtain rest where r: "dropWhile u_space t = l # rest" and k: "k = length w + length (takeWhile u_space t) + 1"
    using assms by (auto simp: word_then_def Let_def split: list.splits if_splits)
  have "s = w @ takeWhile u_space t @ l # rest" by (metis r s takeWhile_dropWhile_id)
  then show thesis using that k by (metis set_takeWhileD)
qed

lemma borderless_inside:
  assumes "borderless w" and "0 < i" and "i < length w" and "starts_with w (drop i (w @ t))"
  shows False
proof -
  obtain u where u: "drop i w @ t = w @ u" using assms by (auto simp: starts_with_iff)
  obtain j where j: "j < length w - i" "w ! (i + j) \<noteq> w ! j"
    using assms(1-3) by (fastforce simp: borderless_def list_all_iff list_ex_iff)
  have "(drop i w @ t) ! j = w ! (i + j)" using j by (simp add: nth_append)
  moreover have "j < length w" using j(1) by linarith
  then have "(w @ u) ! j = w ! j" by (simp add: nth_append)
  ultimately show False using u j by simp
qed

lemma word_then_separate:
  assumes "borderless (a # w)" and "\<not> u_space a" and "l \<noteq> a"
  shows "separate_matches (word_then (a # w) l)"
proof
  fix b s k
  assume "word_then (a # w) l b s = Some k"
  then show "0 < k" by (rule word_then_text) simp
next
  fix b s k i
  assume m: "word_then (a # w) l b s = Some k" and i: "0 < i" "i < k"
  obtain gap rest where s: "s = (a # w) @ gap @ l # rest" and gap: "\<forall>c\<in>set gap. u_space c"
    and k: "k = length (a # w) + length gap + 1" using m by (rule word_then_text)
  have "\<not> starts_with (a # w) (drop i s)"
  proof (cases "i < length (a # w)")
    case True
    then show ?thesis using borderless_inside [OF assms(1) i(1)] unfolding s by blast
  next
    case False
    then obtain j where j: "i = length (a # w) + j" using le_Suc_ex by (metis not_less)
    have "drop i s = drop j (gap @ l # rest)" unfolding s j by (simp only: drop_append) simp
    moreover have "drop j (gap @ l # rest) \<noteq> [] \<and> hd (drop j (gap @ l # rest)) \<noteq> a"
    proof (cases "j < length gap")
      case True
      then have "drop j (gap @ l # rest) = gap ! j # drop (Suc j) gap @ l # rest"
        by (simp add: Cons_nth_drop_Suc [symmetric])
      moreover have "gap ! j \<noteq> a" using True gap assms(2) by auto
      ultimately show ?thesis by simp
    next
      case False
      then have "j = length gap" using i k j by simp
      then show ?thesis using assms(3) by simp
    qed
    ultimately obtain d ds where "drop i s = d # ds" "d \<noteq> a" by (metis list.collapse)
    then show ?thesis by (simp add: starts_with_def)
  qed
  then show "word_then (a # w) l (Some (s ! (i - 1))) (drop i s) = None" by (simp add: word_then_def)
qed

lemma EXTERNAL_codes: "EXTERNAL = [101, 120, 116, 101, 114, 110, 97, 108, 95, 99, 97, 108, 108]"
  by (simp add: EXTERNAL_def str_of_def)

interpretation call: separate_matches CALL_RE
  unfolding CALL_RE_def EXTERNAL_codes
  by (rule word_then_separate) (simp_all add: borderless_def u_space_def upt_rec [of _ "_ :: nat"])

lemma BYTE_text:
  assumes "BYTE_RE b s = Some k"
  obtains t u where "s = 91 # t @ u" and "91 \<notin> set t" and "k = 1 + length t"
proof -
  obtain cs j where s: "s = 91 # cs" and w: "word_then (str_of ''byte'') 61 None (dropWhile u_space cs) = Some j"
    and k: "k = 1 + length (takeWhile u_space cs) + j"
    using assms by (auto simp: BYTE_RE_def Let_def split: list.splits if_splits)
  obtain gap rest where r: "dropWhile u_space cs = str_of ''byte'' @ gap @ 61 # rest"
    and gap: "\<forall>c\<in>set gap. u_space c" and j: "j = length (str_of ''byte'') + length gap + 1"
    using w by (rule word_then_text)
  let ?t = "takeWhile u_space cs @ str_of ''byte'' @ gap @ [61]"
  have "s = 91 # ?t @ rest" using s r by (metis append.assoc append_Cons append_Nil takeWhile_dropWhile_id)
  moreover have "91 \<notin> set ?t" using gap by (auto simp: str_of_def u_space_def dest!: set_takeWhileD)
  moreover have "k = 1 + length ?t" using k j by simp
  ultimately show thesis by (rule that)
qed

interpretation slice: separate_matches BYTE_RE
proof
  fix b s k assume "BYTE_RE b s = Some k"
  then show "0 < k" by (rule BYTE_text) simp
next
  fix b s k i
  assume m: "BYTE_RE b s = Some k" and i: "0 < i" "i < k"
  obtain t u where s: "s = 91 # t @ u" and t: "91 \<notin> set t" and k: "k = 1 + length t" using m by (rule BYTE_text)
  obtain j where j: "i = Suc j" "j < length t" using i k by (cases i) auto
  then have "drop i s = t ! j # drop (Suc j) t @ u" unfolding s by (simp add: Cons_nth_drop_Suc [symmetric])
  moreover have "t ! j \<noteq> 91" using t j(2) by (metis nth_mem)
  ultimately show "BYTE_RE (Some (s ! (i - 1))) (drop i s) = None" by (simp add: BYTE_RE_def Let_def)
qed


definition call_sanctioned :: "ustr \<Rightarrow> ustr \<Rightarrow> nat \<Rightarrow> bool" where
  "call_sanctioned rel src pos \<longleftrightarrow>
     (case first_argument src pos of
        Expr _ \<Rightarrow> False
      | Lit v \<Rightarrow> v \<in> set VARIADIC \<longrightarrow> rel \<in> set (list_get v SANCTIONED @ list_get v SANCTIONED_LINUX_ONLY))"

lemma call_findings_Nil: "call_findings rel src [] code (i, k) = [] \<longleftrightarrow> call_sanctioned rel src (i + k)"
  by (auto simp: call_findings_def call_sanctioned_def Let_def split: argument.splits)

lemma check_variadic_Nil:
  "check_variadic alnum rel src [] = [] \<longleftrightarrow>
     (\<forall>i k. i < length src \<and> match_at CALL_RE (code_only src False) i = Some k \<longrightarrow> call_sanctioned rel src (i + k)) \<and>
     (\<forall>i<length src. match_at (ALIAS_RE alnum) (code_only src False) i = None)"
proof -
  let ?code = "code_only src False"
  have calls: "concat (map (call_findings rel src [] ?code) (finds CALL_RE ?code)) = [] \<longleftrightarrow>
      (\<forall>i k. (i, k) \<in> set (finds CALL_RE ?code) \<longrightarrow> call_sanctioned rel src (i + k))"
    by (simp only: concat_eq_Nil_conv set_map ball_simps split_paired_Ball_Sigma) (force simp: call_findings_Nil)
  have aliases: "concat (map (\<lambda>(i, k). let line = line_at ?code i in
        if list_ex (allows rel (line_text src line)) [] then [] else [Aliased rel line]) (finds (ALIAS_RE alnum) ?code)) = []
      \<longleftrightarrow> finds (ALIAS_RE alnum) ?code = []"
    by (cases "finds (ALIAS_RE alnum) ?code") (auto simp: Let_def)
  show ?thesis
    unfolding check_variadic_def Let_def append_is_Nil_conv
    using calls aliases unfolding Let_def by (simp add: call.finds_exact finds_none)
qed

lemma concat_map_Nil: "concat (map f xs) = [] \<longleftrightarrow> (\<forall>x\<in>set xs. f x = [])"
  by auto

lemma find_found: "find P xs \<noteq> None \<longleftrightarrow> (\<exists>x\<in>set xs. P x)"
  by (auto simp: find_None_iff)

lemma byte_slices_Nil:
  "fst (check_byte_slices rel src allowed) = [] \<longleftrightarrow>
     (\<forall>i k. i < length src \<and> match_at BYTE_RE (code_only src False) i = Some k \<longrightarrow>
        (\<exists>key\<in>set allowed. allows rel (line_text (code_only src False) (line_at (code_only src False) i)) key))"
proof -
  let ?code = "code_only src False"
  have "fst (check_byte_slices rel src allowed) = [] \<longleftrightarrow>
      (\<forall>p\<in>set (finds BYTE_RE ?code). slice_key rel ?code allowed p \<noteq> None)"
    by (simp add: check_byte_slices_def Let_def concat_map_Nil del: concat_eq_Nil_conv)
  also have "\<dots> \<longleftrightarrow> (\<forall>i k. (i, k) \<in> set (finds BYTE_RE ?code) \<longrightarrow>
      (\<exists>key\<in>set allowed. allows rel (line_text ?code (line_at ?code i)) key))"
    by (simp only: slice_key_def Ball_def split_paired_All prod.case find_found Bex_def)
  finally show ?thesis by (simp add: slice.finds_exact)
qed

text \<open>
  C37. A clean run has looked at every place. When the lint finds nothing, then in every Mojo
  file scanned each \<open>external_call[\<close> of the code, wherever it stands, names its symbol by a
  literal and calls a variadic one only where that is sanctioned; the name is nowhere aliased;
  and in the fork every \<open>[byte=\<close> is on a line the allowed sites name.
\<close>

theorem clean_lint_missed_nothing:
  assumes "lint alnum allowed t = []" and "rel \<in> set (mojo_files t)"
  defines "src \<equiv> source_of t rel" and "code \<equiv> code_only (source_of t rel) False"
  shows "(\<forall>i k. i < length src \<and> match_at CALL_RE code i = Some k \<longrightarrow> call_sanctioned rel src (i + k)) \<and>
    (\<forall>i<length src. match_at (ALIAS_RE alnum) code i = None) \<and>
    (in_fork rel \<longrightarrow> (\<forall>i k. i < length src \<and> match_at BYTE_RE code i = Some k \<longrightarrow>
       (\<exists>key\<in>set allowed. allows rel (line_text code (line_at code i)) key)))"
proof -
  have "fst (file_findings alnum allowed rel src) = []"
    using assms(1,2) by (auto simp: lint_def Let_def src_def)
  then have "check_variadic alnum rel src [] = []" and
    "in_fork rel \<Longrightarrow> fst (check_byte_slices rel src allowed) = []"
    by (auto simp: file_findings_def split: prod.splits if_splits)
  then show ?thesis unfolding check_variadic_Nil byte_slices_Nil src_def code_def by blast
qed


text \<open>A tree whose files all hold a docstring with the sanctioned names and one harmless call.\<close>

definition clean_source :: ustr where
  "clean_source = [34, 34, 34] @ str_of ''fcntl shm_open'' @ [34, 34, 34, 10] @ EXTERNAL @ str_of ''['' @ [39, 97, 39, 44]"

definition clean_tree :: lint_tree where
  "clean_tree = \<lparr>lt_root = [str_of ''repo''], lt_rglob = (\<lambda>d. if d = str_of ''apps'' then [str_of ''apps/a.mojo''] else []),
     lt_read = (\<lambda>_. Some clean_source)\<rparr>"

lemma clean_code: "code_only clean_source False = [32, 32, 32, 32, 32, 32, 32, 32, 32, 32, 32, 32, 32, 32, 32, 32, 32, 32, 32, 32, 10] @ EXTERNAL @ [91, 32, 32, 32, 44]"
  by (simp add: clean_source_def EXTERNAL_codes str_of_def code_only_def pieces.simps(2) Let_def first_piece_def starts_with_def)

lemma clean_files: "mojo_files clean_tree = [str_of ''apps/a.mojo'']"
  by (simp add: mojo_files_def clean_tree_def SCAN_DIRS_def SKIPPED_PARTS_def str_of_def)

lemma clean_call:
  assumes "match_at CALL_RE (code_only clean_source False) i = Some k" and "i < 39"
  shows "i = 21 \<and> k = 14"
proof -
  have "list_all (\<lambda>i. case match_at CALL_RE (code_only clean_source False) i of None \<Rightarrow> True | Some k \<Rightarrow> i = 21 \<and> k = 14) [0..<39]"
    unfolding clean_code EXTERNAL_codes
    by (simp add: upt_rec [of _ "39"] match_at_def CALL_RE_def EXTERNAL_codes word_then_def starts_with_def u_space_def)
  then show ?thesis using assms by (force simp: list_all_iff)
qed


lemma clean_alias: "match_at (ALIAS_RE alnum) (code_only clean_source False) i = None" if "i < 39"
proof -
  have "list_all (\<lambda>i. match_at (ALIAS_RE alnum) (code_only clean_source False) i = None) [0..<39]"
    unfolding clean_code EXTERNAL_codes
    by (simp add: upt_rec [of _ "39"] match_at_def ALIAS_RE_def alias_as_def alias_bound_def EXTERNAL_codes starts_with_def
      u_space_def Let_def before_at_def)
  then show ?thesis using that by (simp add: list_all_iff)
qed

lemma clean_lint: "lint alnum [] clean_tree = []"
proof -
  let ?rel = "str_of ''apps/a.mojo''"
  have len: "length clean_source = 39" by (simp add: clean_source_def EXTERNAL_codes str_of_def)
  have "drop 35 clean_source = [39, 97, 39, 44]" by (simp add: clean_source_def EXTERNAL_codes str_of_def)
  then have "first_argument clean_source 35 = Lit [97]"
    by (simp add: first_argument_def QUOTES_def u_space_def starts_with_def)
  moreover have "[97] \<notin> set VARIADIC" by (simp add: VARIADIC_def str_of_def)
  ultimately have "check_variadic alnum ?rel clean_source [] = []"
    unfolding check_variadic_Nil len using clean_call clean_alias by (fastforce simp: call_sanctioned_def)
  moreover have "check_docstring clean_source = []"
    by (simp add: check_docstring_def clean_source_def SANCTIONED_def str_of_def starts_with_def)
  moreover have "\<not> in_fork ?rel" by (simp add: in_fork_def FORK_def str_of_def starts_with_def)
  ultimately show ?thesis
    by (simp add: lint_def clean_files source_of_def file_findings_def)
      (simp add: clean_tree_def file_findings_def SANCTIONED_def SANCTIONED_LINUX_ONLY_def)
qed

theorem clean_lint_missed_nothing_witness:
  "lint (\<lambda>_. False) [] clean_tree = [] \<and> match_at CALL_RE (code_only clean_source False) 21 = Some 14 \<and>
   call_sanctioned (str_of ''apps/a.mojo'') clean_source 35"
proof -
  have src: "source_of clean_tree (str_of ''apps/a.mojo'') = clean_source" by (simp add: source_of_def clean_tree_def)
  have m: "match_at CALL_RE (code_only clean_source False) 21 = Some 14"
    unfolding clean_code EXTERNAL_codes
    by (simp add: match_at_def CALL_RE_def EXTERNAL_codes word_then_def starts_with_def u_space_def)
  have "21 < length clean_source" by (simp add: clean_source_def EXTERNAL_codes str_of_def)
  moreover have "str_of ''apps/a.mojo'' \<in> set (mojo_files clean_tree)" by (simp add: clean_files)
  ultimately have "call_sanctioned (str_of ''apps/a.mojo'') clean_source (21 + 14)"
    using clean_lint_missed_nothing [OF clean_lint, of "str_of ''apps/a.mojo''"] m unfolding src by blast
  then show ?thesis using clean_lint m by simp
qed

end
