(* ===== verification/Mojo_Suite.thy ===== *)
theory Mojo_Suite
  imports Regex_Scan
begin

text \<open>
  The runner of a package's Mojo tests (scripts/mojo\_suite.py): which tests a file's text
  registers, the runner generated for them, the verdict on a file's output, and the run.
  The compiler and the built binary are a record of what they answer.
\<close>

section \<open>The patterns\<close>

definition TEST_DEF_RE :: "(nat \<Rightarrow> bool) \<Rightarrow> ustr pattern" where
  "TEST_DEF_RE alnum b s =
     (if line_start b \<and> starts_with (str_of ''def test_'') s
      then (let t = drop 9 s; w = takeWhile (u_word alnum) t; r = dropWhile (u_word alnum) t
            in if w \<noteq> [] \<and> starts_with [40] r then Some (str_of ''test_'' @ w, drop 1 r) else None)
      else None)"

definition after_def :: "ustr \<Rightarrow> ustr option" where
  "after_def s =
     (if starts_with (str_of ''def'') s then Some (drop 3 s)
      else if starts_with (str_of ''fn'') s then Some (drop 2 s) else None)"

definition LOOKS_LIKE_TEST_RE :: "ustr pattern" where
  "LOOKS_LIKE_TEST_RE b s =
     (if \<not> line_start b then None
      else case after_def s of
             None \<Rightarrow> None
           | Some t \<Rightarrow>
               let r = dropWhile u_space t; rest = dropWhile (\<lambda>c. c \<noteq> 10) r
               in if r \<noteq> t \<and> starts_with (str_of ''test_'') r then Some (take (length s - length rest) s, rest) else None)"

text \<open>A line of \<open>main\<close>'s body: blanks or tabs, then nothing or something not blank.\<close>

definition body_line :: "ustr \<Rightarrow> bool" where
  "body_line l \<longleftrightarrow>
     (let t = dropWhile (\<lambda>c. c = 32 \<or> c = 9) l in t = [] \<or> (t \<noteq> l \<and> \<not> u_space (hd t)))"

function main_body :: "ustr \<Rightarrow> ustr \<times> ustr" where
  "main_body s =
     (let l = takeWhile (\<lambda>c. c \<noteq> 10) s; r = dropWhile (\<lambda>c. c \<noteq> 10) s
      in if r \<noteq> [] \<and> body_line l
         then (case main_body (drop 1 r) of (body, rest) \<Rightarrow> (l @ [10] @ body, rest))
         else ([], s))"
  by pat_completeness auto
termination
proof (relation "measure length")
  fix s r :: ustr and l assume r: "r = dropWhile (\<lambda>c. c \<noteq> 10) s" and "r \<noteq> [] \<and> body_line l"
  then have "0 < length r" by simp
  moreover have "length r \<le> length s" unfolding r by (rule length_dropWhile_le)
  ultimately show "(drop 1 r, s) \<in> measure length" by (simp del: length_greater_0_conv)
qed simp

declare main_body.simps [simp del]

definition MAIN_RE :: "ustr pattern" where
  "MAIN_RE b s =
     (if line_start b \<and> starts_with (str_of ''def main()'') s
      then (let t = drop 10 s; l = takeWhile (\<lambda>c. c \<noteq> 10) t; r = dropWhile (\<lambda>c. c \<noteq> 10) t
            in if r \<noteq> [] \<and> ends_with [58] l then Some (main_body (drop 1 r)) else None)
      else None)"

definition DISCOVERY :: ustr where
  "DISCOVERY = str_of ''TestSuite.discover_tests[__functions_in_module()]().run()''"

text \<open>The rest of the line is group 2; the blanks past it, which no report begins in, are left.\<close>

definition RUNNING_RE :: "ustr pattern" where
  "RUNNING_RE b s =
     (if line_start b \<and> starts_with (str_of ''Running '') s
      then (case number_then (str_of '' test'') (drop 8 s) of
              None \<Rightarrow> None
            | Some (n, t) \<Rightarrow>
                let u = (if starts_with [115] t then drop 1 t else t)
                in if starts_with (str_of '' for '') u then Some (n, dropWhile (\<lambda>c. c \<noteq> 10) (drop 5 u)) else None)
      else None)"

definition past_bracket :: "ustr \<Rightarrow> ustr \<Rightarrow> ustr option" where
  "past_bracket after s =
     (let r = dropWhile (\<lambda>c. c \<noteq> 93) s in if starts_with (93 # after) r then Some (drop (1 + length after) r) else None)"

definition SUMMARY_RE :: "(ustr \<times> ustr \<times> ustr \<times> ustr) pattern" where
  "SUMMARY_RE b s =
     (if line_start b \<and> starts_with (str_of ''Summary ['') s
      then (case past_bracket [32] (drop 9 s) of
              None \<Rightarrow> None
            | Some t \<Rightarrow>
                (case number_then (str_of '' test'') t of
                   None \<Rightarrow> None
                 | Some (ntests, t) \<Rightarrow>
                     let u = (if starts_with [115] t then drop 1 t else t)
                     in if \<not> starts_with (str_of '' run: '') u then None
                        else (case number_then (str_of '' passed , '') (drop 6 u) of
                                None \<Rightarrow> None
                              | Some (good, t) \<Rightarrow>
                                  (case number_then (str_of '' failed , '') t of
                                     None \<Rightarrow> None
                                   | Some (bad, t) \<Rightarrow>
                                       (case number_then (str_of '' skipped'') t of
                                          None \<Rightarrow> None
                                        | Some (skipped, t) \<Rightarrow> Some ((ntests, good, bad, skipped), t))))))
      else None)"

definition FAIL_RE :: "ustr pattern" where
  "FAIL_RE b s =
     (let t = dropWhile u_space s in
      if line_start b \<and> t \<noteq> s \<and> starts_with (str_of ''FAIL ['') t
      then (case past_bracket [32] (drop 6 t) of
              None \<Rightarrow> None
            | Some u \<Rightarrow>
                let w = takeWhile (\<lambda>c. \<not> u_space c) u
                in if w = [] then None else Some (w, dropWhile (\<lambda>c. \<not> u_space c) u))
      else None)"

section \<open>A file's tests\<close>

datatype suite_problem =
    CannotRegister ustr
  | MainCount nat
  | NotDiscovery "ustr list"

definition main_problems :: "ustr list \<Rightarrow> suite_problem list" where
  "main_problems mains =
     (case mains of
        [m] \<Rightarrow>
          let body = map u_strip (filter (\<lambda>l. u_strip l \<noteq> []) (splitlines m))
          in if body = [DISCOVERY] then [] else [NotDiscovery body]
      | _ \<Rightarrow> [MainCount (length mains)])"

definition scan_tests :: "(nat \<Rightarrow> bool) \<Rightarrow> ustr \<Rightarrow> ustr list \<times> suite_problem list" where
  "scan_tests alnum text =
     (findall (TEST_DEF_RE alnum) text,
      map (\<lambda>l. CannotRegister (u_strip l))
        (filter (\<lambda>l. TEST_DEF_RE alnum None (l @ [10]) = None) (findall LOOKS_LIKE_TEST_RE text))
      @ main_problems (findall MAIN_RE text))"

section \<open>A file's verdict\<close>

datatype suite_verdict =
    Fine
  | KilledBySignal int
  | ExitFailed int "ustr list"
  | ExitCode int
  | NoSingleReport nat nat
  | FailedButZero nat
  | WrongCount nat nat
  | BadSum nat nat nat

definition verdict :: "int \<Rightarrow> ustr \<Rightarrow> nat \<Rightarrow> suite_verdict" where
  "verdict returncode out expected =
     (if returncode < 0 then KilledBySignal (- returncode)
      else let fails = findall FAIL_RE out in
        if returncode \<noteq> 0 then (if fails \<noteq> [] then ExitFailed returncode fails else ExitCode returncode)
        else case (findall RUNNING_RE out, findall SUMMARY_RE out) of
          ([r], [(t, p, f, s)]) \<Rightarrow>
            let ran = dec_value r; ntests = dec_value t; good = dec_value p; bad = dec_value f; skipped = dec_value s
            in if bad \<noteq> 0 \<or> fails \<noteq> [] then FailedButZero bad
               else if ran \<noteq> expected \<or> ntests \<noteq> expected then WrongCount ran expected
               else if good + skipped \<noteq> ntests then BadSum good skipped ntests
               else Fine
        | (rs, ss) \<Rightarrow> NoSingleReport (length rs) (length ss))"

section \<open>The runner\<close>

definition nl_join :: "ustr list \<Rightarrow> ustr" where
  "nl_join ls = join [10] ls"

definition registration :: "ustr \<Rightarrow> ustr \<Rightarrow> ustr" where
  "registration m t = str_of ''    suite.test['' @ m @ [46] @ t @ str_of '']()''"

definition dispatch_lines :: "nat \<Rightarrow> ustr \<Rightarrow> ustr list" where
  "dispatch_lines i m =
     [str_of ''    '' @ (if i = 0 then str_of ''if'' else str_of ''elif'') @ str_of '' name == '' @ [34] @ m @ [34, 58],
      str_of ''        _run_'' @ m @ str_of ''()'']"

definition run_lines :: "ustr \<Rightarrow> ustr list \<Rightarrow> ustr list" where
  "run_lines m names =
     [[], [], str_of ''def _run_'' @ m @ str_of ''() raises:'', str_of ''    var suite = TestSuite()'']
     @ map (registration m) names @ [str_of ''    suite^.run()'']"

definition runner_lines :: "(ustr \<times> ustr list) list \<Rightarrow> ustr list" where
  "runner_lines tests =
     [str_of ''# Generated by scripts/mojo_suite.py on every run; never edited.'',
      str_of ''# Each import is a symlink beside this file to one of the package'' @ [39, 115],
      str_of ''# test files; SUITE_FILE names the one this process runs.'',
      str_of ''from std.os import getenv'',
      str_of ''from std.testing import TestSuite'',
      []]
     @ map (\<lambda>(m, _). str_of ''import '' @ m) tests
     @ concat (map (\<lambda>(m, names). run_lines m names) tests)
     @ [[], [], str_of ''def main() raises:'', str_of ''    var name = getenv('' @ [34] @ str_of ''SUITE_FILE'' @ [34, 41]]
     @ concat (map (\<lambda>(i, m, _). dispatch_lines i m) (List.enumerate 0 tests))
     @ [str_of ''    else:'',
        str_of ''        raise Error('' @ [34] @ str_of ''mojo_suite: SUITE_FILE='' @ [34] @ str_of '' + name + '' @ [34] @
          str_of '' names no test file'' @ [34, 41],
        []]"

definition generate :: "(ustr \<times> ustr list) list \<Rightarrow> ustr" where
  "generate tests = nl_join (runner_lines tests)"

section \<open>The build directory\<close>

datatype farm_entry = Symlink ustr | Regular ustr | Directory

definition RUNNER :: ustr where "RUNNER = str_of ''_suite.mojo''"
definition SRC_LINK :: ustr where "SRC_LINK = str_of ''src''"
definition SUITE_BINARY :: ustr where "SUITE_BINARY = str_of ''suite''"

text \<open>\<open>rel\<close> gives a link's target, relative to the directory; \<open>None\<close> where \<open>unlink\<close> or the write raises.\<close>

definition link_names :: "ustr list \<Rightarrow> ustr list" where
  "link_names files = SRC_LINK # files"

definition linked :: "(ustr \<Rightarrow> ustr) \<Rightarrow> ustr list \<Rightarrow> (ustr \<rightharpoonup> farm_entry) \<Rightarrow> (ustr \<rightharpoonup> farm_entry) option" where
  "linked rel names farm =
     (if list_ex (\<lambda>n. farm n = Some Directory) names then None
      else Some (fold (\<lambda>n m. m(n \<mapsto> Symlink (rel n))) names farm))"

definition prepare :: "(ustr \<Rightarrow> ustr) \<Rightarrow> ustr list \<Rightarrow> ustr \<Rightarrow> (ustr \<rightharpoonup> farm_entry) \<Rightarrow> (ustr \<rightharpoonup> farm_entry) option" where
  "prepare rel files runner_text farm =
     (case linked rel (link_names files) (farm |` ({RUNNER, SRC_LINK, SUITE_BINARY} \<union> set files)) of
        None \<Rightarrow> None
      | Some m \<Rightarrow>
          (case m RUNNER of
             Some Directory \<Rightarrow> None
           | Some (Symlink _) \<Rightarrow> Some m
           | _ \<Rightarrow> Some (m(RUNNER \<mapsto> Regular runner_text))))"

section \<open>Paths written back\<close>

definition mojo_tail :: "(nat \<Rightarrow> bool) \<Rightarrow> ustr \<Rightarrow> ustr \<Rightarrow> (ustr \<times> ustr) option" where
  "mojo_tail alnum name r =
     (if starts_with (str_of ''.mojo'') r \<and> ends_word alnum (drop 5 r) then Some (name @ str_of ''.mojo'', drop 5 r) else None)"

definition farm_name :: "(nat \<Rightarrow> bool) \<Rightarrow> ustr \<Rightarrow> (ustr \<times> ustr) option" where
  "farm_name alnum t =
     (let inner = (\<lambda>c. u_word alnum c \<or> c = 47); u = drop 4 t; w = takeWhile (u_word alnum) t
      in case (if starts_with (str_of ''src/'') t \<and> takeWhile inner u \<noteq> []
               then mojo_tail alnum (str_of ''src/'' @ takeWhile inner u) (dropWhile inner u) else None) of
           Some r \<Rightarrow> Some r
         | None \<Rightarrow> if w = [] then None else mojo_tail alnum w (dropWhile (u_word alnum) t))"

fun farm_path :: "(nat \<Rightarrow> bool) \<Rightarrow> ustr list \<Rightarrow> ustr \<Rightarrow> (ustr \<times> ustr) option" where
  "farm_path alnum [] s = None"
| "farm_path alnum (d # ds) s =
     (case (if starts_with (d @ [47]) s then farm_name alnum (drop (length d + 1) s) else None) of
        Some r \<Rightarrow> Some r
      | None \<Rightarrow> farm_path alnum ds s)"

lemma mojo_tail_shorter: "mojo_tail alnum name r = Some (n, rest) \<Longrightarrow> length rest < length r"
  by (auto simp: mojo_tail_def starts_with_iff str_of_def split: if_splits)

lemma farm_name_shorter: "farm_name alnum t = Some (n, rest) \<Longrightarrow> length rest < length t"
proof -
  have le: "length (dropWhile P (drop k t)) \<le> length t" for P k
    using length_dropWhile_le [of P "drop k t"] by simp
  show "farm_name alnum t = Some (n, rest) \<Longrightarrow> length rest < length t"
    using le [of _ 4] le [of _ 0]
    by (auto simp: farm_name_def Let_def split: option.splits if_splits dest!: mojo_tail_shorter intro: less_le_trans)
qed

lemma farm_path_shorter: "farm_path alnum ds s = Some (n, rest) \<Longrightarrow> length rest < length s"
proof (induction ds)
  case (Cons d ds)
  then show ?case
    using farm_name_shorter [of alnum "drop (length d + 1) s" n rest]
    by (auto split: option.splits if_splits)
qed simp

definition own_name :: "ustr \<Rightarrow> ustr option \<Rightarrow> ustr \<Rightarrow> ustr" where
  "own_name pkg current name =
     (if starts_with (str_of ''src/'') name then pkg @ [47] @ name
      else pkg @ str_of ''/test/'' @
        (case current of Some f \<Rightarrow> if name = RUNNER \<and> f \<noteq> [] then f else name | None \<Rightarrow> name))"

function rewrite_paths :: "(nat \<Rightarrow> bool) \<Rightarrow> ustr list \<Rightarrow> ustr \<Rightarrow> ustr option \<Rightarrow> ustr \<Rightarrow> ustr" where
  "rewrite_paths alnum dirs pkg current [] = []"
| "rewrite_paths alnum dirs pkg current (c # cs) =
     (case farm_path alnum dirs (c # cs) of
        None \<Rightarrow> c # rewrite_paths alnum dirs pkg current cs
      | Some (name, rest) \<Rightarrow> own_name pkg current name @ rewrite_paths alnum dirs pkg current rest)"
  by pat_completeness auto
termination
  by (relation "measure (\<lambda>(alnum, dirs, pkg, current, s). length s)") (auto dest: farm_path_shorter)

section \<open>The run\<close>

record suite_file =
  sf_name :: ustr
  sf_stem :: ustr
  sf_text :: ustr

text \<open>
  What the tools answer: the build's status and whether a binary is there after it, \<open>mojo doc\<close>
  on a file (\<open>None\<close>: cancelled), and the binary run for a stem, its output in lines.
\<close>

record suite_tools =
  st_build :: int
  st_binary :: bool
  st_doc :: "ustr \<Rightarrow> int option"
  st_run :: "ustr \<Rightarrow> int \<times> ustr list"

record file_result =
  fr_name :: ustr
  fr_ok :: bool
  fr_ran :: nat
  fr_expected :: nat

definition file_run ::
  "(nat \<Rightarrow> bool) \<Rightarrow> ustr list \<Rightarrow> ustr \<Rightarrow> suite_tools \<Rightarrow> suite_file \<Rightarrow> int \<times> ustr" where
  "file_run alnum dirs pkg w f =
     (case st_run w (sf_stem f) of
        (rc, ls) \<Rightarrow> (rc, concat (map (rewrite_paths alnum dirs pkg (Some (sf_name f))) ls)))"

definition doc_failed :: "suite_tools \<Rightarrow> suite_file \<Rightarrow> bool" where
  "doc_failed w f \<longleftrightarrow> (case st_doc w (sf_name f) of None \<Rightarrow> False | Some rc \<Rightarrow> rc \<noteq> 0)"

definition result_for :: "(nat \<Rightarrow> bool) \<Rightarrow> ustr list \<Rightarrow> ustr \<Rightarrow> suite_tools \<Rightarrow> suite_file \<Rightarrow> file_result" where
  "result_for alnum dirs pkg w f =
     (let (rc, out) = file_run alnum dirs pkg w f; expected = length (fst (scan_tests alnum (sf_text f)))
      in \<lparr>fr_name = sf_name f,
          fr_ok = (verdict rc out expected = Fine \<and> \<not> doc_failed w f),
          fr_ran = (case findall RUNNING_RE out of [n] \<Rightarrow> dec_value n | _ \<Rightarrow> 0),
          fr_expected = expected\<rparr>)"

definition suite_run :: "(nat \<Rightarrow> bool) \<Rightarrow> ustr list \<Rightarrow> ustr \<Rightarrow> suite_tools \<Rightarrow> suite_file list \<Rightarrow> nat" where
  "suite_run alnum dirs pkg w files =
     (if files = [] then 1
      else if list_ex (\<lambda>f. snd (scan_tests alnum (sf_text f)) \<noteq> []) files then 1
      else if st_build w \<noteq> 0 \<or> \<not> st_binary w then 1
      else let results = map (result_for alnum dirs pkg w) files
           in if list_ex (\<lambda>r. \<not> fr_ok r) results \<or> sum_list (map fr_ran results) \<noteq> sum_list (map fr_expected results)
              then 1 else 0)"

section \<open>No test is dropped\<close>

definition DEF_TEST :: ustr where "DEF_TEST = str_of ''def test_''"

lemma DEF_TEST_codes: "DEF_TEST = [100, 101, 102, 32, 116, 101, 115, 116, 95]"
  by (simp add: DEF_TEST_def str_of_def)

lemma test_def_text:
  "TEST_DEF_RE alnum b s = Some (x, r) \<longleftrightarrow>
     line_start b \<and> (\<exists>w. s = DEF_TEST @ w @ 40 # r \<and> w \<noteq> [] \<and> list_all (u_word alnum) w \<and> x = str_of ''test_'' @ w)"
  (is "?l \<longleftrightarrow> ?r")
proof
  assume l: ?l
  then obtain t where t: "s = DEF_TEST @ t" and b: "line_start b"
    by (auto simp: TEST_DEF_RE_def starts_with_iff DEF_TEST_def split: if_splits)
  have d: "drop 9 s = t" unfolding t DEF_TEST_codes by simp
  let ?w = "takeWhile (u_word alnum) t"
  have "dropWhile (u_word alnum) t = 40 # r \<and> ?w \<noteq> [] \<and> x = str_of ''test_'' @ ?w"
    using l unfolding TEST_DEF_RE_def d Let_def by (auto simp: starts_with_iff split: if_splits)
  moreover have "list_all (u_word alnum) ?w" by (auto simp: list_all_iff dest: set_takeWhileD)
  ultimately show ?r using b t by (metis takeWhile_dropWhile_id)
next
  assume ?r
  then obtain w where s: "s = DEF_TEST @ w @ 40 # r" and w: "w \<noteq> []" "list_all (u_word alnum) w"
    and x: "x = str_of ''test_'' @ w" and b: "line_start b" by blast
  have "\<not> u_word alnum 40" by (simp add: u_word_def)
  then have "takeWhile (u_word alnum) (w @ 40 # r) = w" "dropWhile (u_word alnum) (w @ 40 # r) = 40 # r"
    using w(2) by (simp_all add: takeWhile_append2 dropWhile_append2 list_all_iff)
  moreover have "drop 9 s = w @ 40 # r" unfolding s DEF_TEST_codes by simp
  moreover have "starts_with (str_of ''def test_'') s" unfolding s DEF_TEST_def by simp
  ultimately show ?l using w x b by (simp add: TEST_DEF_RE_def starts_with_def)
qed

lemma nth_in_prefix: "i < length t \<Longrightarrow> (t @ r) ! i \<in> set t"
  by (simp add: nth_append)

interpretation test_def: separate_matches "span_of (TEST_DEF_RE alnum)" for alnum
proof (rule separate_at_lines)
  fix b s x r assume "TEST_DEF_RE alnum b s = Some (x, r)"
  then obtain w where "line_start b" "s = (DEF_TEST @ w @ [40]) @ r" unfolding test_def_text by auto
  then show "line_start b \<and> (\<exists>t. s = t @ r \<and> t \<noteq> [])" by blast
next
  fix b s x r i
  assume "TEST_DEF_RE alnum b s = Some (x, r)" and i: "Suc i < length s - length r" "s ! i = 10"
  then obtain w where s: "s = (DEF_TEST @ w @ [40]) @ r" and w: "list_all (u_word alnum) w" unfolding test_def_text by auto
  have "i < length (DEF_TEST @ w @ [40])" using i unfolding s by simp
  then have "10 \<in> set (DEF_TEST @ w @ [40])" using nth_in_prefix i(2) unfolding s by metis
  then show "TEST_DEF_RE alnum (Some 10) (drop (Suc i) s) = None"
    using w by (auto simp: DEF_TEST_codes list_all_iff u_word_def)
qed

lemma looks_text:
  assumes "LOOKS_LIKE_TEST_RE b s = Some (x, r)"
  obtains kw gap line where "line_start b" and "x = kw @ gap @ str_of ''test_'' @ line" and "s = x @ r"
    and "kw \<in> {str_of ''def'', str_of ''fn''}" and "\<forall>c\<in>set gap. u_space c" and "10 \<notin> set line"
    and "r = [] \<or> hd r = 10"
proof -
  have b: "line_start b" using assms by (auto simp: LOOKS_LIKE_TEST_RE_def split: if_splits)
  obtain t where t: "after_def s = Some t" using assms by (auto simp: LOOKS_LIKE_TEST_RE_def split: if_splits option.splits)
  then obtain kw where kw: "s = kw @ t" "kw \<in> {str_of ''def'', str_of ''fn''}"
    by (auto simp: after_def_def starts_with_iff str_of_def split: if_splits)
  let ?r = "dropWhile u_space t"
  have r: "starts_with (str_of ''test_'') ?r" "r = dropWhile (\<lambda>c. c \<noteq> 10) ?r" "x = take (length s - length r) s"
    using assms b t by (auto simp: LOOKS_LIKE_TEST_RE_def Let_def split: if_splits)
  obtain u where u: "?r = str_of ''test_'' @ u" using r(1) by (auto simp: starts_with_iff)
  have ru: "r = dropWhile (\<lambda>c. c \<noteq> 10) u" unfolding r(2) u by (simp add: str_of_def)
  have s: "s = (kw @ takeWhile u_space t @ str_of ''test_'' @ takeWhile (\<lambda>c. c \<noteq> 10) u) @ r"
    unfolding ru using kw(1) u by (metis append.assoc takeWhile_dropWhile_id)
  have x: "x = kw @ takeWhile u_space t @ str_of ''test_'' @ takeWhile (\<lambda>c. c \<noteq> 10) u"
    using r(3) s by (metis append_eq_conv_conj diff_add_inverse2 length_append)
  have "r = [] \<or> hd r = 10" unfolding ru using hd_dropWhile [of "\<lambda>c. c \<noteq> 10" u] by auto
  moreover have "10 \<notin> set (takeWhile (\<lambda>c. c \<noteq> 10) u)" by (auto dest: set_takeWhileD)
  moreover have "\<forall>c\<in>set (takeWhile u_space t). u_space c" by (auto dest: set_takeWhileD)
  ultimately show thesis using that b kw(2) x s by metis
qed

interpretation looks: separate_matches "span_of LOOKS_LIKE_TEST_RE"
proof (rule separate_at_lines)
  fix b s x r assume "LOOKS_LIKE_TEST_RE b s = Some (x, r)"
  then show "line_start b \<and> (\<exists>t. s = t @ r \<and> t \<noteq> [])"
    by (rule looks_text) (auto simp: str_of_def)
next
  fix b s x r i
  assume m: "LOOKS_LIKE_TEST_RE b s = Some (x, r)" and i: "Suc i < length s - length r" "s ! i = 10"
  obtain kw gap line where x: "x = kw @ gap @ str_of ''test_'' @ line" and s: "s = x @ r"
    and kw: "kw \<in> {str_of ''def'', str_of ''fn''}" and gap: "\<forall>c\<in>set gap. u_space c" and line: "10 \<notin> set line"
    using m by (rule looks_text)
  have nth: "x ! i = 10" "i < length x" using i s by (auto simp: nth_append)
  have no: "10 \<notin> set kw" "10 \<notin> set (str_of ''test_'' @ line)" using kw line by (auto simp: str_of_def)
  have k: "length kw \<le> i" using nth no(1) unfolding x by (metis nth_in_prefix not_le)
  then obtain j where j: "i = length kw + j" using le_Suc_ex by blast
  have jl: "j < length gap"
  proof (rule ccontr)
    assume "\<not> j < length gap"
    then have "x ! i \<in> set (str_of ''test_'' @ line)" using nth(2) unfolding x j by (auto simp: nth_append nth_mem)
    then show False using nth(1) no(2) by simp
  qed
  have d: "drop (Suc i) s = drop (Suc j) gap @ str_of ''test_'' @ line @ r" unfolding s x j using jl by simp
  have "after_def (drop (Suc i) s) = None"
  proof (cases "drop (Suc j) gap")
    case Nil
    then show ?thesis unfolding d by (simp add: after_def_def starts_with_def str_of_def)
  next
    case (Cons c cs)
    then have "u_space c" using gap by (metis in_set_dropD list.set_intros(1))
    then have "c \<noteq> 100 \<and> c \<noteq> 102" by (auto simp: u_space_def)
    then show ?thesis unfolding d Cons by (simp add: after_def_def starts_with_def str_of_def)
  qed
  then show "LOOKS_LIKE_TEST_RE (Some 10) (drop (Suc i) s) = None" by (simp add: LOOKS_LIKE_TEST_RE_def)
qed


lemma test_def_of_line:
  assumes "TEST_DEF_RE alnum None (x @ [10]) \<noteq> None" and "line_start b"
  shows "\<exists>n. map_option fst (TEST_DEF_RE alnum b (x @ r)) = Some n"
proof -
  obtain n q w where t: "x @ [10] = DEF_TEST @ w @ 40 # q" "w \<noteq> []" "list_all (u_word alnum) w"
    using assms(1) by (force simp: test_def_text)
  have "x = DEF_TEST @ w @ 40 # butlast q"
  proof (cases q rule: rev_cases)
    case Nil
    then have "x @ [10] = (DEF_TEST @ w) @ [40]" using t(1) by simp
    then show ?thesis unfolding append1_eq_conv by simp
  next
    case (snoc q' y)
    then have "x @ [10] = (DEF_TEST @ w @ 40 # q') @ [y]" using t(1) by simp
    then show ?thesis unfolding append1_eq_conv snoc by simp
  qed
  then have "x @ r = DEF_TEST @ w @ 40 # (butlast q @ r)" by simp
  then have "TEST_DEF_RE alnum b (x @ r) = Some (str_of ''test_'' @ w, butlast q @ r)"
    unfolding test_def_text using t(2,3) assms(2) by blast
  then show ?thesis by simp
qed

lemma scan_registers:
  assumes "snd (scan_tests alnum text) = []" and "i < length text" and "groups_at LOOKS_LIKE_TEST_RE text i \<noteq> None"
  shows "\<exists>n\<in>set (fst (scan_tests alnum text)). groups_at (TEST_DEF_RE alnum) text i = Some n"
proof -
  obtain x r where m: "LOOKS_LIKE_TEST_RE (before_at text i) (drop i text) = Some (x, r)"
    using assms(3) by (auto simp: groups_at_def)
  then have b: "line_start (before_at text i)" and s: "drop i text = x @ r" by (auto elim: looks_text)
  have "x \<in> set (findall LOOKS_LIKE_TEST_RE text)"
    unfolding findall_exact [OF looks.separate_matches_axioms] using assms(2) m by (auto simp: groups_at_def)
  then have "TEST_DEF_RE alnum None (x @ [10]) \<noteq> None"
    using assms(1) by (auto simp: scan_tests_def filter_empty_conv)
  then obtain n where n: "groups_at (TEST_DEF_RE alnum) text i = Some n"
    using test_def_of_line [OF _ b] s by (metis groups_at_def)
  then have "n \<in> set (findall (TEST_DEF_RE alnum) text)"
    unfolding findall_exact [OF test_def.separate_matches_axioms] using assms(2) by blast
  then show ?thesis using n by (auto simp: scan_tests_def)
qed

lemma scan_main:
  assumes "snd (scan_tests alnum text) = []"
  shows "\<exists>m. findall MAIN_RE text = [m] \<and> map u_strip (filter (\<lambda>l. u_strip l \<noteq> []) (splitlines m)) = [DISCOVERY]"
  using assms by (auto simp: scan_tests_def main_problems_def Let_def split: list.splits if_splits)

lemma verdict_Fine:
  "verdict rc out expected = Fine \<longleftrightarrow>
     rc = 0 \<and> findall FAIL_RE out = [] \<and>
     (\<exists>r t p f s. findall RUNNING_RE out = [r] \<and> findall SUMMARY_RE out = [(t, p, f, s)] \<and> dec_value r = expected \<and>
        dec_value t = expected \<and> dec_value f = 0 \<and> dec_value p + dec_value s = dec_value t)"
  by (auto simp: verdict_def Let_def split: list.splits if_splits)

section \<open>A green run\<close>

text \<open>
  C36. A green run ran every test. When the runner exits 0 there is a file, and for each: it
  compiled on its own; whatever at column 0 could be a test is one that was registered; its
  \<open>main\<close> does nothing but discover; and the file's own process ended by itself, reporting as
  many tests as are registered, none failed and each passed or skipped.
\<close>

theorem green_run_ran_every_test:
  assumes "suite_run alnum dirs pkg w files = 0" and "f \<in> set files"
  shows "(\<forall>i<length (sf_text f). groups_at LOOKS_LIKE_TEST_RE (sf_text f) i \<noteq> None \<longrightarrow>
      (\<exists>n\<in>set (fst (scan_tests alnum (sf_text f))). groups_at (TEST_DEF_RE alnum) (sf_text f) i = Some n)) \<and>
    (\<exists>m. findall MAIN_RE (sf_text f) = [m] \<and>
      map u_strip (filter (\<lambda>l. u_strip l \<noteq> []) (splitlines m)) = [DISCOVERY]) \<and>
    st_doc w (sf_name f) \<in> {None, Some 0} \<and>
    (\<exists>out t p n s. file_run alnum dirs pkg w f = (0, out) \<and> findall FAIL_RE out = [] \<and>
      findall SUMMARY_RE out = [(t, p, n, s)] \<and> dec_value t = length (fst (scan_tests alnum (sf_text f))) \<and>
      dec_value n = 0 \<and> dec_value p + dec_value s = dec_value t)"
proof -
  have clean: "snd (scan_tests alnum (sf_text f)) = []"
    using assms by (auto simp: suite_run_def list_ex_iff split: if_splits)
  have "fr_ok (result_for alnum dirs pkg w f)"
    using assms by (auto simp: suite_run_def list_ex_iff Let_def split: if_splits)
  moreover obtain rc out where run: "file_run alnum dirs pkg w f = (rc, out)" by force
  ultimately have v: "verdict rc out (length (fst (scan_tests alnum (sf_text f)))) = Fine" and d: "\<not> doc_failed w f"
    by (auto simp: result_for_def Let_def)
  have doc: "st_doc w (sf_name f) \<in> {None, Some 0}" using d by (auto simp: doc_failed_def split: option.splits)
  show ?thesis
    using scan_registers [OF clean] scan_main [OF clean] doc v run unfolding verdict_Fine
    by (intro conjI allI impI) (blast, blast, blast, metis)
qed


section \<open>One file\<close>

definition DISCOVERY_codes :: ustr where "DISCOVERY_codes = [84, 101, 115, 116, 83, 117, 105, 116, 101, 46, 100, 105, 115, 99, 111, 118, 101, 114, 95, 116, 101, 115, 116, 115, 91, 95, 95, 102, 117, 110, 99, 116, 105, 111, 110, 115, 95, 105, 110, 95, 109, 111, 100, 117, 108, 101, 40, 41, 93, 40, 41, 46, 114, 117, 110, 40, 41]"

lemma DISCOVERY_eq: "DISCOVERY = DISCOVERY_codes"
  by (simp add: DISCOVERY_def DISCOVERY_codes_def str_of_def)

definition tiny_text :: ustr where
  "tiny_text = [100, 101, 102, 32, 116, 101, 115, 116, 95, 97, 40, 10, 100, 101, 102, 32, 109, 97, 105, 110, 40, 41, 58, 10, 32, 84, 101, 115, 116, 83, 117, 105, 116, 101, 46, 100, 105, 115, 99, 111, 118, 101, 114, 95, 116, 101, 115, 116, 115, 91, 95, 95, 102, 117, 110, 99, 116, 105, 111, 110, 115, 95, 105, 110, 95, 109, 111, 100, 117, 108, 101, 40, 41, 93, 40, 41, 46, 114, 117, 110, 40, 41, 10]"

lemma finds_step:
  "i < length s \<Longrightarrow> finds_from m s i =
     (case match_at m s i of None \<Rightarrow> finds_from m s (Suc i) | Some k \<Rightarrow> (i, k) # finds_from m s (i + max 1 k))"
  "length s \<le> i \<Longrightarrow> finds_from m s i = []"
  by (simp_all add: finds_from.simps)

lemma tiny_tests: "findall (TEST_DEF_RE alnum) tiny_text = [str_of ''test_a'']"
  by (simp add: findall_def finds_def tiny_text_def finds_step match_at_def span_of_def before_at_def TEST_DEF_RE_def line_start_def
     u_word_def starts_with_def str_of_def groups_at_def map_filter_simps)


lemmas tiny_defs = findall_def finds_def finds_step match_at_def span_of_def before_at_def line_start_def u_word_def
  starts_with_def str_of_def groups_at_def map_filter_simps

lemma tiny_looks: "findall LOOKS_LIKE_TEST_RE tiny_text = [str_of ''def test_a('']"
  by (simp add: tiny_text_def tiny_defs LOOKS_LIKE_TEST_RE_def after_def_def u_space_def)

lemma tiny_main: "findall MAIN_RE tiny_text = [32 # DISCOVERY_codes @ [10]]"
  by (simp add: tiny_text_def tiny_defs MAIN_RE_def ends_with_def main_body.simps body_line_def u_space_def DISCOVERY_codes_def)

lemma tiny_scan: "scan_tests alnum tiny_text = ([str_of ''test_a''], [])"
proof -
  have "TEST_DEF_RE alnum None (str_of ''def test_a('' @ [10]) \<noteq> None"
    by (simp add: TEST_DEF_RE_def line_start_def u_word_def starts_with_def str_of_def)
  moreover have "main_problems [32 # DISCOVERY_codes @ [10]] = []"
    by (simp add: main_problems_def DISCOVERY_eq DISCOVERY_codes_def u_strip_def u_space_def line_break_def)
  ultimately show ?thesis by (simp add: scan_tests_def tiny_tests tiny_looks tiny_main)
qed

text \<open>Its report, as the process prints it and with the runner's path written back.\<close>

definition tiny_lines :: "ustr list" where
  "tiny_lines = [[82, 117, 110, 110, 105, 110, 103, 32, 49, 32, 116, 101, 115, 116, 32, 102, 111, 114, 32, 47, 102, 47, 95, 115, 117, 105, 116, 101, 46, 109, 111, 106, 111, 10],
     [83, 117, 109, 109, 97, 114, 121, 32, 91, 32, 48, 32, 93, 32, 49, 32, 116, 101, 115, 116, 32, 114, 117, 110, 58, 32, 49, 32, 112, 97, 115, 115, 101, 100, 32, 44, 32, 48, 32, 102, 97, 105, 108, 101, 100, 32, 44, 32, 48, 32, 115, 107, 105, 112, 112, 101, 100, 10]]"

definition tiny_out :: ustr where
  "tiny_out = [82, 117, 110, 110, 105, 110, 103, 32, 49, 32, 116, 101, 115, 116, 32, 102, 111, 114, 32, 112, 47, 116, 101, 115, 116, 47, 97, 46, 109, 111, 106, 111, 10, 83, 117, 109, 109, 97, 114, 121, 32, 91, 32, 48, 32, 93, 32, 49, 32, 116, 101, 115, 116, 32, 114, 117, 110, 58, 32, 49, 32, 112, 97, 115, 115, 101, 100, 32, 44, 32, 48, 32, 102, 97, 105, 108, 101, 100, 32, 44, 32, 48, 32, 115, 107, 105, 112, 112, 101, 100, 10]"

lemma tiny_rewritten:
  "concat (map (rewrite_paths (\<lambda>_. False) [[47, 102]] [112] (Some [97, 46, 109, 111, 106, 111])) tiny_lines) = tiny_out"
  by (simp add: tiny_lines_def tiny_out_def starts_with_def farm_name_def mojo_tail_def ends_word_def own_name_def str_of_def
    u_word_def RUNNER_def)

lemma tiny_verdict: "verdict 0 tiny_out 1 = Fine"
proof -
  have f: "findall FAIL_RE tiny_out = []"
    by (simp add: tiny_out_def tiny_defs FAIL_RE_def u_space_def)
  have r: "findall RUNNING_RE tiny_out = [[49]]"
    by (simp add: tiny_out_def tiny_defs RUNNING_RE_def number_then_def u_digit_def)
  have s: "findall SUMMARY_RE tiny_out = [([49], [49], [48], [48])]"
    by (simp add: tiny_out_def tiny_defs SUMMARY_RE_def number_then_def u_digit_def past_bracket_def)
  show ?thesis unfolding verdict_Fine f r s by (simp add: dec_value_def)
qed


definition tiny_file :: suite_file where
  "tiny_file = \<lparr>sf_name = [97, 46, 109, 111, 106, 111], sf_stem = [97], sf_text = tiny_text\<rparr>"

definition tiny_tools :: suite_tools where
  "tiny_tools = \<lparr>st_build = 0, st_binary = True, st_doc = (\<lambda>_. Some 0), st_run = (\<lambda>_. (0, tiny_lines))\<rparr>"

lemma tiny_result:
  "result_for (\<lambda>_. False) [[47, 102]] [112] tiny_tools tiny_file =
     \<lparr>fr_name = [97, 46, 109, 111, 106, 111], fr_ok = True, fr_ran = 1, fr_expected = 1\<rparr>"
proof -
  have "file_run (\<lambda>_. False) [[47, 102]] [112] tiny_tools tiny_file = (0, tiny_out)"
    by (simp add: file_run_def tiny_tools_def tiny_file_def tiny_rewritten)
  moreover have "\<not> doc_failed tiny_tools tiny_file" by (simp add: doc_failed_def tiny_tools_def)
  moreover have "findall RUNNING_RE tiny_out = [[49]]"
    by (simp add: tiny_out_def tiny_defs RUNNING_RE_def number_then_def u_digit_def)
  ultimately show ?thesis
    by (simp add: result_for_def tiny_verdict) (simp add: tiny_file_def tiny_scan tiny_verdict [simplified] dec_value_def)
qed

theorem green_run_ran_every_test_witness:
  "suite_run (\<lambda>_. False) [[47, 102]] [112] tiny_tools [tiny_file] = 0 \<and> st_doc tiny_tools (sf_name tiny_file) \<in> {None, Some 0}"
proof -
  have run: "suite_run (\<lambda>_. False) [[47, 102]] [112] tiny_tools [tiny_file] = 0"
    by (simp add: suite_run_def tiny_result) (simp add: tiny_file_def tiny_tools_def tiny_scan)
  then show ?thesis using green_run_ran_every_test [OF run, of tiny_file] by simp
qed

section \<open>The runner registers what was scanned\<close>

definition registers :: "ustr \<Rightarrow> bool" where
  "registers l \<longleftrightarrow> starts_with (str_of ''    suite.test['') l"

lemma run_lines_registrations: "filter registers (run_lines m names) = map (registration m) names"
proof -
  have "registers (registration m t)" for t by (simp add: registers_def registration_def starts_with_def str_of_def)
  then have "filter registers (map (registration m) names) = map (registration m) names" by simp
  then show ?thesis unfolding run_lines_def filter_append
    by (simp add: registers_def starts_with_def str_of_def)
qed

lemma dispatch_registers_none: "filter registers (dispatch_lines i m) = []"
  by (simp add: dispatch_lines_def registers_def starts_with_def str_of_def)

lemma runner_registrations:
  "filter registers (runner_lines tests) = concat (map (\<lambda>(m, names). map (registration m) names) tests)"
proof -
  have "filter registers (map (\<lambda>(m, _). str_of ''import '' @ m) tests) = []"
    by (induction tests) (auto simp: registers_def starts_with_def str_of_def)
  moreover have "filter registers (concat (map (\<lambda>(m, names). run_lines m names) tests)) =
      concat (map (\<lambda>(m, names). map (registration m) names) tests)"
    by (simp add: filter_concat comp_def case_prod_beta' run_lines_registrations)
  moreover have "filter registers (concat (map (\<lambda>(i, m, _). dispatch_lines i m) (List.enumerate 0 tests))) = []"
    by (simp add: filter_concat comp_def case_prod_beta' dispatch_registers_none)
  ultimately show ?thesis unfolding runner_lines_def filter_append
    by (simp only:) (simp add: registers_def starts_with_def str_of_def)
qed

lemma enumerated: "(i, x) \<in> set (List.enumerate k xs) \<Longrightarrow> x \<in> set xs"
  by (simp add: enumerate_eq_zip) (meson set_zip_rightD)

lemma runner_lines_whole:
  assumes "\<forall>(m, names)\<in>set tests. 10 \<notin> set m \<and> (\<forall>t\<in>set names. 10 \<notin> set t)"
  shows "\<forall>l\<in>set (runner_lines tests). 10 \<notin> set l"
proof -
  have m: "10 \<notin> set m" and t: "t \<in> set names \<Longrightarrow> 10 \<notin> set t" if "(m, names) \<in> set tests" for m names t
    using assms that by auto
  have bodies: "10 \<notin> set l" if "(m, names) \<in> set tests" and "l \<in> set (run_lines m names)" for m names l
    using that(2) m [OF that(1)] t [OF that(1)] by (auto simp: run_lines_def registration_def str_of_def)
  have dispatch: "10 \<notin> set l" if "(i, m, names) \<in> set (List.enumerate 0 tests)" and "l \<in> set (dispatch_lines i m)" for i m names l
    using that(2) m [OF enumerated [OF that(1)]] by (auto simp: dispatch_lines_def str_of_def split: if_splits)
  show ?thesis
    unfolding runner_lines_def set_append ball_Un
  proof (intro conjI)
    show "\<forall>l\<in>set (map (\<lambda>(m, _). str_of ''import '' @ m) tests). 10 \<notin> set l" using m by (auto simp: str_of_def)
    show "\<forall>l\<in>set (concat (map (\<lambda>(m, names). run_lines m names) tests)). 10 \<notin> set l"
      using bodies by auto
    show "\<forall>l\<in>set (concat (map (\<lambda>(i, m, _). dispatch_lines i m) (List.enumerate 0 tests))). 10 \<notin> set l"
      using dispatch by auto
  qed (simp_all add: str_of_def)
qed

text \<open>
  The runner registers exactly what was scanned. The generated file, read in lines, holds
  one registration for each test of each file, in that order, and no other.
\<close>

lemma runner_registers_each_test:
  assumes "\<forall>(m, names)\<in>set tests. 10 \<notin> set m \<and> (\<forall>t\<in>set names. 10 \<notin> set t)"
  shows "filter registers (split_on 10 (generate tests)) = concat (map (\<lambda>(m, names). map (registration m) names) tests)"
proof -
  have "\<forall>l\<in>set (runner_lines tests). 10 \<notin> set l"
    by (rule runner_lines_whole) (rule assms)
  then have "split_on 10 (generate tests) = runner_lines tests"
    unfolding generate_def nl_join_def by (intro split_on_join) (auto simp: runner_lines_def)
  then show ?thesis by (simp add: runner_registrations)
qed

lemma runner_registers_each_test_witness:
  "filter registers (split_on 10 (generate [([97], [[98], [99]])])) = [registration [97] [98], registration [97] [99]]"
  using runner_registers_each_test [of "[([97], [[98], [99]])]"] by simp

end
