(* ===== verification/Sabotage_Rules.thy ===== *)
theory Sabotage_Rules
  imports Regex_Scan
begin

text \<open>
  A sabotage rule and what a gate's run says of it (scripts/sabotage\_lib.py): edits at anchors
  that occur exactly once, the phase a \<open>mojo run\<close> failed in, and the verdict. Paths and
  texts are code points; a command is what \<open>run\_command\<close> returned for it.
\<close>

section \<open>Rules\<close>

text \<open>\<open>None\<close> as the old text plants a file.\<close>

record text_edit =
  e_path :: ustr
  e_old :: "ustr option"
  e_new :: ustr

record sab_rule =
  r_label :: ustr
  r_edits :: "text_edit list"
  r_gate :: ustr
  r_only_on :: ustr
  r_expect :: ustr

text \<open>\<open>rule(...)\<close> of tuples; \<open>None\<close> where their lengths differ.\<close>

definition rule_of ::
  "ustr \<Rightarrow> ustr list \<Rightarrow> ustr option list \<Rightarrow> ustr list \<Rightarrow> ustr \<Rightarrow> ustr \<Rightarrow> ustr \<Rightarrow> sab_rule option" where
  "rule_of label paths olds news gate only_on expect =
     (if length olds = length news \<and> length news = length paths
      then Some \<lparr>r_label = label,
        r_edits = map (\<lambda>(p, old, new). \<lparr>e_path = p, e_old = old, e_new = new\<rparr>) (zip paths (zip olds news)),
        r_gate = gate, r_only_on = only_on, r_expect = expect\<rparr>
      else None)"

datatype anchor_error =
    NoFile ustr
  | AlreadyThere ustr
  | EmptyAnchor ustr
  | AnchorMatches ustr nat
  | ChangesNothing ustr

text \<open>How many places the anchor starts at, overlapping ones too; the anchor is not empty.\<close>

fun occurrences :: "ustr \<Rightarrow> ustr \<Rightarrow> nat" where
  "occurrences [] anchor = 0"
| "occurrences (c # cs) anchor = (if starts_with anchor (c # cs) then 1 else 0) + occurrences cs anchor"

definition missing_file :: "(ustr \<rightharpoonup> ustr) \<Rightarrow> text_edit list \<Rightarrow> ustr option" where
  "missing_file texts edits =
     (case filter (\<lambda>(i, e). texts (e_path e) = None \<and> e_old e \<noteq> None \<and> e_path e \<notin> e_path ` set (take i edits))
        (List.enumerate 0 edits) of
        [] \<Rightarrow> None
      | (_, e) # _ \<Rightarrow> Some (e_path e))"

definition replace_once :: "ustr \<Rightarrow> ustr \<Rightarrow> ustr \<Rightarrow> ustr" where
  "replace_once old new t = (case cut_at old t of None \<Rightarrow> t | Some (a, b) \<Rightarrow> a @ new @ b)"

definition one_edit :: "text_edit \<Rightarrow> (ustr \<rightharpoonup> ustr) \<Rightarrow> anchor_error + (ustr \<rightharpoonup> ustr)" where
  "one_edit e out =
     (case e_old e of
        None \<Rightarrow> if out (e_path e) \<noteq> None then Inl (AlreadyThere (e_path e)) else Inr (out(e_path e \<mapsto> e_new e))
      | Some old \<Rightarrow>
          if old = [] then Inl (EmptyAnchor (e_path e))
          else case out (e_path e) of
                 None \<Rightarrow> Inl (NoFile (e_path e))
               | Some t \<Rightarrow>
                   let n = occurrences t old
                   in if n \<noteq> 1 then Inl (AnchorMatches (e_path e) n)
                      else Inr (out(e_path e \<mapsto> replace_once old (e_new e) t)))"

fun all_edits :: "text_edit list \<Rightarrow> (ustr \<rightharpoonup> ustr) \<Rightarrow> anchor_error + (ustr \<rightharpoonup> ustr)" where
  "all_edits [] out = Inr out"
| "all_edits (e # es) out = (case one_edit e out of Inl x \<Rightarrow> Inl x | Inr out' \<Rightarrow> all_edits es out')"

definition edit_paths :: "sab_rule \<Rightarrow> ustr list" where
  "edit_paths r = remdups (map e_path (r_edits r))"

definition apply_rule :: "sab_rule \<Rightarrow> (ustr \<rightharpoonup> ustr) \<Rightarrow> anchor_error + (ustr \<rightharpoonup> ustr)" where
  "apply_rule r texts =
     (case missing_file texts (r_edits r) of
        Some p \<Rightarrow> Inl (NoFile p)
      | None \<Rightarrow>
          (case all_edits (r_edits r) (texts |` set (edit_paths r)) of
             Inl x \<Rightarrow> Inl x
           | Inr out \<Rightarrow>
               if list_all (\<lambda>p. out p = texts p) (edit_paths r)
               then Inl (ChangesNothing (case r_edits r of [] \<Rightarrow> [] | e # _ \<Rightarrow> e_path e))
               else Inr out))"

section \<open>What a command did\<close>

text \<open>The status, \<open>None\<close> for a timeout, and the merged output.\<close>

record ran =
  rn_code :: "int option"
  rn_out :: ustr

datatype phase = Passed | Failed | Unbuilt | Unclear

datatype words =
    Said ustr
  | Empty
  | Hung
  | HungBuilds
  | DiedOf int
  | DiedOfBuilds int
  | BuildHungToo
  | BuildSilent ustr
  | NoPassText ustr
  | NoSign "int option" ustr

record rule_outcome =
  oc_phase :: phase
  oc_detail :: words
  oc_output :: ustr

definition outcome_of :: "phase \<Rightarrow> words \<Rightarrow> ustr \<Rightarrow> rule_outcome" where
  "outcome_of p d out = \<lparr>oc_phase = p, oc_detail = d, oc_output = out\<rparr>"

definition last_n :: "nat \<Rightarrow> 'a list \<Rightarrow> 'a list" where
  "last_n n xs = drop (length xs - n) xs"

definition last_line :: "ustr \<Rightarrow> ustr" where
  "last_line out =
     (let ls = filter (\<lambda>l. l \<noteq> []) (map u_strip (splitlines out))
      in if ls = [] then str_of ''(no output)'' else last_n 160 (last ls))"

text \<open>The lines \<open>^\<close>, \<open>$\<close> and \<open>.\<close> see.\<close>

definition re_lines :: "ustr \<Rightarrow> ustr list" where
  "re_lines out = split_on 10 out"

text \<open>\<open>^.*\.mojo:\d+:\d+: error:.*$\<close>.\<close>

fun is_diagnostic :: "ustr \<Rightarrow> bool" where
  "is_diagnostic [] \<longleftrightarrow> False"
| "is_diagnostic (c # cs) \<longleftrightarrow>
     (if starts_with (str_of ''.mojo:'') (c # cs)
      then (case number_then [58] (drop 6 (c # cs)) of
              None \<Rightarrow> is_diagnostic cs
            | Some (_, t) \<Rightarrow> number_then (str_of '': error:'') t \<noteq> None \<or> is_diagnostic cs)
      else is_diagnostic cs)"

definition first_diagnostic :: "ustr \<Rightarrow> ustr option" where
  "first_diagnostic out = find is_diagnostic (re_lines out)"

definition EXECUTED :: "ustr list" where
  "EXECUTED = [str_of ''execution exited with a non-zero result'', str_of ''execution crashed'']"

text \<open>A failed test: its name, and the whole match.\<close>

definition TEST_FAILED :: "(ustr \<times> ustr) pattern" where
  "TEST_FAILED b s =
     (let t = dropWhile (\<lambda>c. c = 32 \<or> c = 9) s in
      if line_start b \<and> starts_with (str_of ''FAIL ['') t
      then (let u = dropWhile (\<lambda>c. c \<noteq> 93 \<and> c \<noteq> 10) (drop 6 t) in
            if \<not> starts_with [93] u then None
            else let v = dropWhile (\<lambda>c. c = 32 \<or> c = 9) (drop 1 u); name = takeWhile (\<lambda>c. \<not> u_space c) v;
                     rest = dropWhile (\<lambda>c. \<not> u_space c) v
                 in if name = [] then None else Some ((name, take (length s - length rest) s), rest))
      else None)"

definition search_at :: "'a pattern \<Rightarrow> ustr \<Rightarrow> 'a option" where
  "search_at p s = (case findall p s of [] \<Rightarrow> None | x # _ \<Rightarrow> Some x)"

definition executed :: "ustr \<Rightarrow> bool" where
  "executed out \<longleftrightarrow> list_ex (\<lambda>m. contains m out) EXECUTED \<or> findall TEST_FAILED out \<noteq> []"

text \<open>\<open>(?<!\d)0 failed\<close>.\<close>

definition ZERO_FAILED :: "unit pattern" where
  "ZERO_FAILED b s =
     (if (case b of None \<Rightarrow> True | Some c \<Rightarrow> \<not> u_digit c) \<and> starts_with (str_of ''0 failed'') s
      then Some ((), drop 8 s) else None)"

definition suite_passed :: "ran \<Rightarrow> bool" where
  "suite_passed r \<longleftrightarrow> rn_code r = Some 0 \<and> contains (str_of ''tests run'') (rn_out r) \<and> findall ZERO_FAILED (rn_out r) \<noteq> []"

definition ABORT :: "ustr pattern" where
  "ABORT b s =
     (if line_start b \<and> starts_with (str_of ''ABORT: '') s
      then Some (takeWhile (\<lambda>c. c \<noteq> 10) s, dropWhile (\<lambda>c. c \<noteq> 10) s) else None)"

definition RAISED :: "ustr pattern" where
  "RAISED b s =
     (if starts_with (str_of ''Unhandled exception caught during execution:'') s
      then (let t = drop 44 s; u = (if starts_with [32] t then drop 1 t else t)
            in Some (takeWhile (\<lambda>c. c \<noteq> 10) u, dropWhile (\<lambda>c. c \<noteq> 10) u))
      else None)"

definition EXITED :: "ustr pattern" where
  "EXITED b s =
     (if starts_with (str_of ''execution exited with a non-zero result: '') s
      then (let t = drop 41 s; (sign, u) = (if starts_with [45] t then ([45], drop 1 t) else ([], t));
                ds = takeWhile u_digit u
            in if ds = [] then None else Some (sign @ ds, dropWhile u_digit u))
      else None)"

definition count_text :: "nat \<Rightarrow> ustr" where
  "count_text n = str_of (show_nat n)"

definition mojo_failure :: "ustr \<Rightarrow> ustr" where
  "mojo_failure out =
     (let names = map fst (findall TEST_FAILED out) in
      if names \<noteq> []
      then count_text (length names) @ str_of '' test(s) fail: '' @ join (str_of '', '') (take 3 names) @
        (if 3 < length names then str_of '', ...'' else [])
      else case search_at ABORT out of
             Some a \<Rightarrow> str_of ''crashed: '' @ last_n 160 a
           | None \<Rightarrow>
               if contains (str_of ''execution crashed'') out then str_of ''crashed''
               else let said = (case search_at RAISED out of None \<Rightarrow> [] | Some w \<Rightarrow> u_strip w)
                    in if said \<noteq> [] then str_of ''raised: '' @ take 160 said
                       else case search_at EXITED out of
                              Some c \<Rightarrow> str_of ''exited '' @ c
                            | None \<Rightarrow> last_line out)"

definition judge_mojo_run :: "(ran \<Rightarrow> bool) \<Rightarrow> ran \<Rightarrow> rule_outcome" where
  "judge_mojo_run is_pass r =
     (let out = rn_out r in
      if is_pass r then outcome_of Passed Empty out
      else case (first_diagnostic out, executed out) of
             (Some d, False) \<Rightarrow> outcome_of Unbuilt (Said (u_strip d)) out
           | (_, True) \<Rightarrow> outcome_of Failed (Said (mojo_failure out)) out
           | (None, False) \<Rightarrow>
               if rn_code r = Some 0 then outcome_of Unclear (NoPassText (last_line out)) out
               else outcome_of Unclear (NoSign (rn_code r) (last_line out)) out)"

section \<open>The gates\<close>

datatype unplaced = Timeout | Fault int

text \<open>\<open>faults\<close> are the numbers of the platform's fault signals.\<close>

definition unplaced_by :: "int list \<Rightarrow> ran \<Rightarrow> rule_outcome option \<Rightarrow> unplaced option" where
  "unplaced_by faults r o' =
     (case rn_code r of
        None \<Rightarrow> Some Timeout
      | Some c \<Rightarrow>
          (case o' of
             Some oc \<Rightarrow> if oc_phase oc = Unclear \<and> - c \<in> set faults then Some (Fault (- c)) else None
           | None \<Rightarrow> None))"

definition ask_the_compiler :: "unplaced \<Rightarrow> ran \<Rightarrow> ran \<Rightarrow> rule_outcome" where
  "ask_the_compiler why r built =
     (if rn_code built = Some 0
      then outcome_of Failed (case why of Timeout \<Rightarrow> HungBuilds | Fault n \<Rightarrow> DiedOfBuilds n) (rn_out r)
      else if rn_code built = None then outcome_of Unclear BuildHungToo (rn_out r)
      else case first_diagnostic (rn_out built) of
             Some d \<Rightarrow> outcome_of Unbuilt (Said (u_strip d)) (rn_out built)
           | None \<Rightarrow> outcome_of Unclear (BuildSilent (last_line (rn_out built))) (rn_out built))"

definition mojo_run_outcome :: "int list \<Rightarrow> (ran \<Rightarrow> bool) \<Rightarrow> ran \<Rightarrow> ran \<Rightarrow> rule_outcome" where
  "mojo_run_outcome faults is_pass r built =
     (case rn_code r of
        None \<Rightarrow> ask_the_compiler Timeout r built
      | Some _ \<Rightarrow>
          (let oc = judge_mojo_run is_pass r
           in case unplaced_by faults r (Some oc) of None \<Rightarrow> oc | Some why \<Rightarrow> ask_the_compiler why r built))"

definition command_outcome :: "ustr \<Rightarrow> bool \<Rightarrow> (ustr \<Rightarrow> ustr) \<Rightarrow> ran \<Rightarrow> rule_outcome" where
  "command_outcome passes builds detail r =
     (let out = rn_out r in
      if rn_code r = Some 0 \<and> contains passes out then outcome_of Passed Empty out
      else case (if builds then first_diagnostic out else None) of
             Some d \<Rightarrow> outcome_of Unbuilt (Said (u_strip d)) out
           | None \<Rightarrow>
               (case rn_code r of
                  None \<Rightarrow> outcome_of Failed Hung out
                | Some c \<Rightarrow>
                    if c = 0 then outcome_of Unclear (NoPassText (last_line out)) out
                    else outcome_of Failed (Said (detail out)) out))"

section \<open>The verdict\<close>

datatype sab_state = CAUGHT | MISSED | UNBUILT | ELSEWHERE | NOT_APPLICABLE | SKIPPED

text \<open>A line of a test that did not fail: \<open>^\s*(?:PASS|SKIP) \[[^\]]*\]\s\<close> at its start.\<close>

definition did_not_fail :: "ustr \<Rightarrow> bool" where
  "did_not_fail l \<longleftrightarrow>
     (let t = dropWhile u_space l in
      (starts_with (str_of ''PASS ['') t \<or> starts_with (str_of ''SKIP ['') t) \<and>
      (case dropWhile (\<lambda>c. c \<noteq> 93) (drop 6 t) of _ # c # _ \<Rightarrow> u_space c | _ \<Rightarrow> False))"

definition is_test_name :: "(nat \<Rightarrow> bool) \<Rightarrow> ustr \<Rightarrow> bool" where
  "is_test_name alnum s \<longleftrightarrow>
     starts_with (str_of ''test_'') s \<and> 5 < length s \<and> list_all (u_word alnum) (drop 5 s)"

text \<open>\<open>detail_text\<close> is the wording of a detail.\<close>

definition said_lines :: "(words \<Rightarrow> ustr) \<Rightarrow> ustr \<Rightarrow> rule_outcome \<Rightarrow> ustr list" where
  "said_lines detail_text expect oc =
     map u_strip (filter (\<lambda>l. contains expect l \<and> \<not> did_not_fail l)
       (splitlines (oc_output oc @ [10] @ detail_text (oc_detail oc))))"

definition sab_verdict :: "(nat \<Rightarrow> bool) \<Rightarrow> (words \<Rightarrow> ustr) \<Rightarrow> sab_rule \<Rightarrow> rule_outcome \<Rightarrow> sab_state \<times> ustr" where
  "sab_verdict alnum detail_text r oc =
     (case oc_phase oc of
        Passed \<Rightarrow> (MISSED, str_of ''the gate passed with the rule broken'')
      | Unbuilt \<Rightarrow> (UNBUILT, detail_text (oc_detail oc))
      | Unclear \<Rightarrow> (ELSEWHERE, detail_text (oc_detail oc))
      | Failed \<Rightarrow>
          if r_expect r = [] then (CAUGHT, detail_text (oc_detail oc))
          else if is_test_name alnum (r_expect r)
          then (case filter (\<lambda>m. fst m = r_expect r) (findall TEST_FAILED (oc_output oc)) of
                  [] \<Rightarrow> (ELSEWHERE, r_expect r)
                | m # _ \<Rightarrow> (CAUGHT, take 160 (u_strip (snd m))))
          else (case said_lines detail_text (r_expect r) oc of
                  [] \<Rightarrow> (ELSEWHERE, r_expect r)
                | l # _ \<Rightarrow> (CAUGHT, take 160 l)))"


section \<open>An anchor names one place\<close>

lemma places_Cons:
  "{i. i < length (c # t) \<and> P (drop i (c # t))} = (if P (c # t) then {0} else {}) \<union> Suc ` {i. i < length t \<and> P (drop i t)}"
proof (rule set_eqI)
  fix i
  show "i \<in> {i. i < length (c # t) \<and> P (drop i (c # t))} \<longleftrightarrow>
      i \<in> (if P (c # t) then {0} else {}) \<union> Suc ` {i. i < length t \<and> P (drop i t)}"
    by (cases i) auto
qed

lemma occurrences_places: "occurrences t a = card {i. i < length t \<and> starts_with a (drop i t)}"
proof (induction t)
  case (Cons c t)
  have count: "card ((if q then {0} else {}) \<union> Suc ` S) = (if q then 1 else 0) + card S" if "finite S" for q S
    using that by (cases q) (auto simp: card_image card_insert_if)
  have "card {i. i < length (c # t) \<and> starts_with a (drop i (c # t))} =
      (if starts_with a (c # t) then 1 else 0) + card {i. i < length t \<and> starts_with a (drop i t)}"
    by (subst places_Cons [where P = "starts_with a"], rule count) simp
  then show ?case unfolding occurrences.simps Cons.IH by (rule sym)
qed simp

definition names_one_place :: "ustr \<Rightarrow> ustr \<Rightarrow> ustr \<Rightarrow> bool" where
  "names_one_place old a b \<longleftrightarrow> (\<forall>a' b'. a @ old @ b = a' @ old @ b' \<longrightarrow> a' = a)"

lemma place_iff: "old \<noteq> [] \<Longrightarrow> i < length t \<and> starts_with old (drop i t) \<longleftrightarrow> (\<exists>a b. t = a @ old @ b \<and> length a = i)"
proof
  assume "i < length t \<and> starts_with old (drop i t)"
  then obtain b where b: "drop i t = old @ b" "i < length t" by (auto simp: starts_with_iff)
  have "t = take i t @ old @ b" using b(1) by (metis append_take_drop_id)
  moreover have "length (take i t) = i" using b(2) by simp
  ultimately show "\<exists>a b. t = a @ old @ b \<and> length a = i" by blast
qed auto

lemma occurs_once:
  assumes "old \<noteq> []"
  shows "occurrences t old = 1 \<longleftrightarrow> (\<exists>a b. t = a @ old @ b \<and> names_one_place old a b)"
proof -
  let ?at = "{i. i < length t \<and> starts_with old (drop i t)}"
  have "occurrences t old = card ?at" by (rule occurrences_places)
  also have "\<dots> = 1 \<longleftrightarrow> (\<exists>a b. t = a @ old @ b \<and> names_one_place old a b)"
  proof
    assume "card ?at = 1"
    then obtain i where i: "?at = {i}" by (auto simp: card_Suc_eq_finite card_1_singleton_iff)
    then obtain a b where t: "t = a @ old @ b" "length a = i" using place_iff [OF assms, of i t] by blast
    have "a' = a" if "t = a' @ old @ b'" for a' b'
    proof -
      have "length a' \<in> ?at" using place_iff [OF assms, of "length a'" t] that by blast
      then have "length a' = length a" using i t(2) by simp
      then show ?thesis using t(1) that by (metis append_eq_append_conv)
    qed
    then show "\<exists>a b. t = a @ old @ b \<and> names_one_place old a b" using t(1) unfolding names_one_place_def by metis
  next
    assume "\<exists>a b. t = a @ old @ b \<and> names_one_place old a b"
    then obtain a b where t: "t = a @ old @ b" and one: "names_one_place old a b" by blast
    have "?at = {length a}"
    proof (intro set_eqI iffI)
      fix i assume "i \<in> ?at"
      then obtain a' b' where "t = a' @ old @ b'" "length a' = i" using place_iff [OF assms, of i t] by blast
      then show "i \<in> {length a}" using one t unfolding names_one_place_def by auto
    next
      fix i assume "i \<in> {length a}"
      then show "i \<in> ?at" using place_iff [OF assms, of i t] t by blast
    qed
    then show "card ?at = 1" by simp
  qed
  finally show ?thesis .
qed

lemma replace_once_at: "names_one_place old a b \<Longrightarrow> replace_once old new (a @ old @ b) = a @ new @ b"
proof -
  assume one: "names_one_place old a b"
  have "contains old (a @ old @ b)" by (auto simp: contains_iff)
  then obtain x y where c: "cut_at old (a @ old @ b) = Some (x, y)" by (auto simp: contains_cut_at)
  then have "a @ old @ b = x @ old @ y" by (rule cut_at_join)
  then have "x = a \<and> y = b" using one unfolding names_one_place_def by (metis append_same_eq same_append_eq)
  then show ?thesis by (simp add: replace_once_def c)
qed

text \<open>What a rule's edits mean: each in turn plants a file that is not there, or replaces the one place.\<close>

inductive edits_to :: "text_edit list \<Rightarrow> (ustr \<rightharpoonup> ustr) \<Rightarrow> (ustr \<rightharpoonup> ustr) \<Rightarrow> bool" where
  no_edit: "edits_to [] f f"
| plant: "e_old e = None \<Longrightarrow> f (e_path e) = None \<Longrightarrow> edits_to es (f(e_path e \<mapsto> e_new e)) g \<Longrightarrow> edits_to (e # es) f g"
| replace: "e_old e = Some old \<Longrightarrow> old \<noteq> [] \<Longrightarrow> f (e_path e) = Some (a @ old @ b) \<Longrightarrow> names_one_place old a b \<Longrightarrow>
    edits_to es (f(e_path e \<mapsto> a @ e_new e @ b)) g \<Longrightarrow> edits_to (e # es) f g"

inductive_cases edits_to_Nil: "edits_to [] f g"
inductive_cases edits_to_Cons: "edits_to (e # es) f g"

lemma all_edits_iff: "all_edits es f = Inr g \<longleftrightarrow> edits_to es f g"
proof (induction es arbitrary: f)
  case Nil
  then show ?case by (auto intro: no_edit elim: edits_to_Nil)
next
  case (Cons e es)
  show ?case
  proof (cases "e_old e")
    case None
    show ?thesis
    proof
      assume "all_edits (e # es) f = Inr g"
      then have "f (e_path e) = None" and "edits_to es (f(e_path e \<mapsto> e_new e)) g"
        unfolding Cons.IH [symmetric] by (simp_all add: one_edit_def None split: if_splits)
      then show "edits_to (e # es) f g" by (rule plant [OF None])
    next
      assume "edits_to (e # es) f g"
      then have "f (e_path e) = None \<and> edits_to es (f(e_path e \<mapsto> e_new e)) g" by (rule edits_to_Cons) (simp_all add: None)
      then show "all_edits (e # es) f = Inr g" unfolding Cons.IH [symmetric] by (simp add: one_edit_def None)
    qed
  next
    case (Some old)
    show ?thesis
    proof
      assume "all_edits (e # es) f = Inr g"
      then obtain t where t: "old \<noteq> []" "f (e_path e) = Some t" "occurrences t old = 1"
        "edits_to es (f(e_path e \<mapsto> replace_once old (e_new e) t)) g"
        by (auto simp: one_edit_def Some Let_def Cons.IH simp del: fun_upd_apply split: if_splits option.splits sum.splits)
      then obtain a b where "t = a @ old @ b" "names_one_place old a b" using occurs_once by blast
      then show "edits_to (e # es) f g" using t replace [OF Some] replace_once_at by metis
    next
      assume "edits_to (e # es) f g"
      then obtain a b where t: "old \<noteq> []" "f (e_path e) = Some (a @ old @ b)" "names_one_place old a b"
        "edits_to es (f(e_path e \<mapsto> a @ e_new e @ b)) g" by (rule edits_to_Cons) (auto simp: Some)
      then have "occurrences (a @ old @ b) old = 1" using occurs_once by blast
      then show "all_edits (e # es) f = Inr g"
        using t by (simp add: one_edit_def Some Let_def Cons.IH replace_once_at del: fun_upd_apply)
    qed
  qed
qed

lemma edits_to_found:
  "edits_to es f g \<Longrightarrow> i < length es \<Longrightarrow> e_old (es ! i) \<noteq> None \<Longrightarrow> e_path (es ! i) \<notin> e_path ` set (take i es) \<Longrightarrow>
    f (e_path (es ! i)) \<noteq> None"
proof (induction arbitrary: i rule: edits_to.induct)
  case (plant e f es g)
  show ?case
  proof (cases i)
    case (Suc n)
    then show ?thesis using plant.IH [of n] plant.prems by (auto split: if_splits)
  qed (use plant in simp)
next
  case (replace e old f a b es g)
  show ?case
  proof (cases i)
    case (Suc n)
    then show ?thesis using replace.IH [of n] replace.prems by (auto split: if_splits)
  qed (use replace in simp)
qed simp

lemma no_missing_file:
  assumes "edits_to es (texts |` (e_path ` set es)) g"
  shows "missing_file texts es = None"
proof -
  have "filter (\<lambda>(i, e). texts (e_path e) = None \<and> e_old e \<noteq> None \<and> e_path e \<notin> e_path ` set (take i es)) (List.enumerate 0 es) = []"
    using edits_to_found [OF assms] by (force simp: filter_empty_conv in_set_enumerate_eq)
  then show ?thesis by (simp add: missing_file_def)
qed

text \<open>
  C34. A rule's edits are carried out as they are meant, or not at all. \<open>apply\<close> gives texts
  exactly when the edits, in their order, each plant a file that is not there or replace an
  anchor that begins at one place only, overlaps counted; and when something is changed by it.
\<close>

theorem apply_is_the_edits:
  "apply_rule r texts = Inr out \<longleftrightarrow>
     edits_to (r_edits r) (texts |` (e_path ` set (r_edits r))) out \<and> (\<exists>e\<in>set (r_edits r). out (e_path e) \<noteq> texts (e_path e))"
  (is "?l \<longleftrightarrow> ?r")
proof -
  have changed: "list_all (\<lambda>p. out p = texts p) (edit_paths r) \<longleftrightarrow> (\<forall>e\<in>set (r_edits r). out (e_path e) = texts (e_path e))" for out
    by (simp add: list_all_iff edit_paths_def)
  have paths: "set (edit_paths r) = e_path ` set (r_edits r)" by (simp add: edit_paths_def)
  show ?thesis
  proof
    assume ?l
    then show ?r by (auto simp: apply_rule_def changed paths all_edits_iff split: option.splits sum.splits if_splits)
  next
    assume r: ?r
    then have "missing_file texts (r_edits r) = None" and "all_edits (r_edits r) (texts |` set (edit_paths r)) = Inr out"
      using no_missing_file by (auto simp: all_edits_iff paths)
    then show ?l using r by (simp add: apply_rule_def changed)
  qed
qed

end
