(* ===== verification/Sabotage_Run.thy ===== *)
theory Sabotage_Run
  imports Sabotage_Rules
begin

text \<open>
  A sabotage run (scripts/sabotage\_lib.py, \<open>execute\<close> and what it calls): the rules chosen, the
  baseline, each rule's files broken, its gate run, the files put back, and again on the way
  out, whatever ends it. A gate may change any file; writing a file back does not fail.
\<close>

section \<open>Options\<close>

datatype usage = NeedsValue ustr | UnknownArgument ustr | NoRuleMatches ustr

definition ONLY :: ustr where "ONLY = str_of ''--only''"
definition SKIP :: ustr where "SKIP = str_of ''--skip''"

fun sab_options :: "ustr list \<Rightarrow> ustr list \<Rightarrow> ustr list \<Rightarrow> usage + ustr list \<times> ustr list" where
  "sab_options [] only skip = Inr (only, skip)"
| "sab_options [a] only skip =
     (if a = ONLY \<or> a = SKIP then Inl (NeedsValue a)
      else if starts_with (ONLY @ [61]) a then Inr (only @ [drop 7 a], skip)
      else if starts_with (SKIP @ [61]) a then Inr (only, skip @ [drop 7 a])
      else Inl (UnknownArgument a))"
| "sab_options (a # v # args) only skip =
     (if a = ONLY then sab_options args (only @ [v]) skip
      else if a = SKIP then sab_options args only (skip @ [v])
      else if starts_with (ONLY @ [61]) a then sab_options (v # args) (only @ [drop 7 a]) skip
      else if starts_with (SKIP @ [61]) a then sab_options (v # args) only (skip @ [drop 7 a])
      else Inl (UnknownArgument a))"

definition rule_matches :: "sab_rule \<Rightarrow> ustr list \<Rightarrow> ustr \<Rightarrow> bool" where
  "rule_matches r gate_names key \<longleftrightarrow> (if key \<in> set gate_names then r_gate r = key else contains key (r_label r))"

definition select_rules :: "sab_rule list \<Rightarrow> ustr list \<Rightarrow> ustr list \<Rightarrow> ustr list \<Rightarrow> usage + sab_rule list" where
  "select_rules rules only skip gate_names =
     (case find (\<lambda>key. \<not> list_ex (\<lambda>r. rule_matches r gate_names key) rules) (only @ skip) of
        Some key \<Rightarrow> Inl (NoRuleMatches key)
      | None \<Rightarrow> Inr (filter (\<lambda>r. (only = [] \<or> list_ex (rule_matches r gate_names) only)
                      \<and> \<not> list_ex (rule_matches r gate_names) skip) rules))"

section \<open>Files\<close>

text \<open>What a path holds: text, or bytes that are not UTF-8, which \<open>read\<close> raises on.\<close>

datatype content = Text ustr | NotUtf8

type_synonym files = "ustr \<rightharpoonup> content"

datatype reading = Absent | Reads ustr | ReadRaises

definition read_or_none :: "files \<Rightarrow> ustr \<Rightarrow> reading" where
  "read_or_none fs p = (case fs p of None \<Rightarrow> Absent | Some (Text t) \<Rightarrow> Reads t | Some NotUtf8 \<Rightarrow> ReadRaises)"

definition reading_of :: "ustr option \<Rightarrow> reading" where
  "reading_of want = (case want of None \<Rightarrow> Absent | Some t \<Rightarrow> Reads t)"

definition write_texts :: "(ustr \<rightharpoonup> ustr) \<Rightarrow> files \<Rightarrow> files" where
  "write_texts texts fs = (\<lambda>p. case texts p of None \<Rightarrow> fs p | Some t \<Rightarrow> Some (Text t))"

text \<open>\<open>_Tree.restore\<close>: whether it came to its end, and the files.\<close>

fun restore :: "(ustr \<rightharpoonup> ustr) \<Rightarrow> ustr list \<Rightarrow> files \<Rightarrow> bool \<times> files" where
  "restore originals [] fs = (True, fs)"
| "restore originals (p # ps) fs =
     (if read_or_none fs p = ReadRaises then (False, fs)
      else if read_or_none fs p = reading_of (originals p) then restore originals ps fs
      else restore originals ps (fs(p := map_option Text (originals p))))"

definition put_back :: "(ustr \<rightharpoonup> ustr) \<Rightarrow> ustr list \<Rightarrow> files \<Rightarrow> bool" where
  "put_back originals ps fs \<longleftrightarrow> list_all (\<lambda>p. read_or_none fs p = reading_of (originals p)) ps"

section \<open>Running the rules\<close>

text \<open>How a gate's run ends: an outcome, a signal to the harness, or another exception.\<close>

datatype gate_end = Judged rule_outcome | Struck int | Raised

type_synonym gate = "(ustr \<rightharpoonup> ustr) \<Rightarrow> files \<Rightarrow> gate_end \<times> files"

text \<open>\<open>finish\<close>, given whether the run was interrupted.\<close>

datatype finish_end = Went bool | FinishStruck int | FinishRaised

record sab_run =
  sr_gates :: "ustr \<rightharpoonup> gate"
  sr_gate_names :: "ustr list"
  sr_write :: bool
  sr_system :: ustr
  sr_alnum :: "nat \<Rightarrow> bool"
  sr_words :: "words \<Rightarrow> ustr"
  sr_arrives :: "nat \<Rightarrow> int option"
  sr_last :: "int option"
  sr_finish :: "(bool \<Rightarrow> finish_end) option"

datatype loop_end = Through | BaselineFailed | LoopStruck int | LoopRaised

definition run_gate :: "sab_run \<Rightarrow> ustr \<Rightarrow> gate" where
  "run_gate c name = (case sr_gates c name of Some g \<Rightarrow> g | None \<Rightarrow> (\<lambda>_ fs. (Raised, fs)))"

fun baseline_runs :: "sab_run \<Rightarrow> (ustr \<rightharpoonup> ustr) \<Rightarrow> ustr list \<Rightarrow> files \<Rightarrow> loop_end \<times> files" where
  "baseline_runs c originals [] fs = (Through, fs)"
| "baseline_runs c originals (name # names) fs =
     (case run_gate c name originals fs of
        (Judged oc, fs') \<Rightarrow> if oc_phase oc = Passed then baseline_runs c originals names fs' else (BaselineFailed, fs')
      | (Struck s, fs') \<Rightarrow> (LoopStruck s, fs')
      | (Raised, fs') \<Rightarrow> (LoopRaised, fs'))"

type_synonym plan = "sab_rule \<times> (ustr \<rightharpoonup> ustr)"

text \<open>One rule: its files broken, the gate, the files put back however the gate ended.\<close>

definition attempt :: "sab_run \<Rightarrow> (ustr \<rightharpoonup> ustr) \<Rightarrow> plan \<Rightarrow> files \<Rightarrow> gate_end \<times> files" where
  "attempt c originals plan fs =
     (case plan of (r, texts) \<Rightarrow>
        case run_gate c (r_gate r) texts (if sr_write c then write_texts texts fs else fs) of
          (e, fs1) \<Rightarrow>
            if \<not> sr_write c then (e, fs1)
            else case restore originals (edit_paths r) fs1 of
                   (whole, fs2) \<Rightarrow> (if whole then e else Raised, fs2))"

text \<open>
  \<open>sr_arrives\<close> is a signal that arrives before a rule's turn, \<open>sr_last\<close> one held off while the
  files are put back on the way out and delivered after.
\<close>

fun rule_runs ::
  "sab_run \<Rightarrow> (ustr \<rightharpoonup> ustr) \<Rightarrow> nat \<Rightarrow> plan list \<Rightarrow> files \<Rightarrow> (loop_end \<times> (sab_state \<times> ustr) list) \<times> files" where
  "rule_runs c originals n [] fs = ((Through, []), fs)"
| "rule_runs c originals n (p # ps) fs =
     (case sr_arrives c n of
        Some s \<Rightarrow> ((LoopStruck s, []), fs)
      | None \<Rightarrow>
          (case attempt c originals p fs of
             (Judged oc, fs') \<Rightarrow>
               (case rule_runs c originals (Suc n) ps fs' of
                  ((e, vs), fs'') \<Rightarrow> ((e, sab_verdict (sr_alnum c) (sr_words c) (fst p) oc # vs), fs''))
           | (Struck s, fs') \<Rightarrow> ((LoopStruck s, []), fs')
           | (Raised, fs') \<Rightarrow> ((LoopRaised, []), fs')))"

section \<open>The whole run\<close>

definition edited_files :: "sab_rule list \<Rightarrow> ustr list" where
  "edited_files chosen = remdups (concat (map edit_paths chosen))"

text \<open>\<open>None\<close>: a file the rules name is not UTF-8.\<close>

definition originals_of :: "ustr list \<Rightarrow> files \<Rightarrow> (ustr \<rightharpoonup> ustr) option" where
  "originals_of ps fs =
     (if list_ex (\<lambda>p. read_or_none fs p = ReadRaises) ps then None
      else Some (\<lambda>p. if p \<in> set ps then (case fs p of Some (Text t) \<Rightarrow> Some t | _ \<Rightarrow> None) else None))"

definition observable :: "sab_run \<Rightarrow> sab_rule \<Rightarrow> bool" where
  "observable c r \<longleftrightarrow> r_only_on r = [] \<or> r_only_on r = sr_system c"

fun plans :: "sab_run \<Rightarrow> (ustr \<rightharpoonup> ustr) \<Rightarrow> sab_rule list \<Rightarrow> plan list" where
  "plans c originals [] = []"
| "plans c originals (r # rs) =
     (case apply_rule r originals of
        Inr texts \<Rightarrow> if observable c r then (r, texts) # plans c originals rs else plans c originals rs
      | Inl _ \<Rightarrow> plans c originals rs)"

text \<open>The results in the order of the table: what applying said, or the gate's verdicts in turn.\<close>

fun result_table :: "sab_run \<Rightarrow> (ustr \<rightharpoonup> ustr) \<Rightarrow> sab_rule list \<Rightarrow> (sab_state \<times> ustr) list \<Rightarrow> (sab_rule \<times> sab_state \<times> ustr) list" where
  "result_table c originals [] vs = []"
| "result_table c originals (r # rs) vs =
     (case apply_rule r originals of
        Inl _ \<Rightarrow> (r, NOT_APPLICABLE, []) # result_table c originals rs vs
      | Inr _ \<Rightarrow>
          if \<not> observable c r then (r, SKIPPED, r_only_on r) # result_table c originals rs vs
          else case vs of [] \<Rightarrow> result_table c originals rs [] | v # vs' \<Rightarrow> (r, v) # result_table c originals rs vs')"

definition tally :: "(sab_rule \<times> sab_state \<times> ustr) list \<Rightarrow> nat" where
  "tally table = (if list_ex (\<lambda>(_, v, _). v \<noteq> CAUGHT \<and> v \<noteq> SKIPPED) table then 1 else 0)"

datatype sab_end =
    Report nat "(sab_rule \<times> sab_state \<times> ustr) list"
  | Interrupted int
  | Escapes
  | NoGate ustr

text \<open>The way out, with the tree edited or not: the loop's end after \<open>finish\<close>, and a failed status.\<close>

definition way_out :: "sab_run \<Rightarrow> (ustr \<rightharpoonup> ustr) \<Rightarrow> ustr list \<Rightarrow> loop_end \<Rightarrow> files \<Rightarrow> (loop_end \<times> bool) \<times> files" where
  "way_out c originals touched e fs =
     (case restore originals touched fs of
        (False, fs') \<Rightarrow> ((LoopRaised, True), fs')
      | (True, fs') \<Rightarrow>
          let bad = \<not> put_back originals touched fs' in
          case (sr_last c, sr_finish c) of
            (Some s, _) \<Rightarrow> ((LoopStruck s, bad), fs')
          | (None, None) \<Rightarrow> ((e, bad), fs')
          | (None, Some finish) \<Rightarrow>
              (case finish (case e of LoopStruck _ \<Rightarrow> True | _ \<Rightarrow> False) of
                 Went well \<Rightarrow> ((e, bad \<or> \<not> well), fs')
               | FinishStruck s \<Rightarrow> ((case e of LoopRaised \<Rightarrow> LoopRaised | _ \<Rightarrow> LoopStruck s, bad), fs')
               | FinishRaised \<Rightarrow> ((LoopRaised, bad), fs')))"

definition run_plans ::
  "sab_run \<Rightarrow> (ustr \<rightharpoonup> ustr) \<Rightarrow> plan list \<Rightarrow> files \<Rightarrow> (loop_end \<times> (sab_state \<times> ustr) list) \<times> files" where
  "run_plans c originals ps fs =
     (case baseline_runs c originals (remdups (map (r_gate \<circ> fst) ps)) fs of
        (Through, fs') \<Rightarrow> rule_runs c originals 0 ps fs'
      | (e, fs') \<Rightarrow> ((e, []), fs'))"

definition execute_chosen :: "sab_run \<Rightarrow> sab_rule list \<Rightarrow> files \<Rightarrow> sab_end \<times> files" where
  "execute_chosen c chosen fs =
     (case originals_of (edited_files chosen) fs of
        None \<Rightarrow> (Escapes, fs)
      | Some originals \<Rightarrow>
          let ps = plans c originals chosen; touched = remdups (concat (map (edit_paths \<circ> fst) ps))
          in case run_plans c originals ps fs of
               ((e, vs), fs1) \<Rightarrow>
                 case (if sr_write c \<and> ps \<noteq> [] then way_out c originals touched e fs1 else ((e, False), fs1)) of
                   ((e', bad), fs2) \<Rightarrow>
                     let table = result_table c originals chosen vs in
                     (case e' of
                        Through \<Rightarrow> Report (max (if bad then 1 else 0) (tally table)) table
                      | BaselineFailed \<Rightarrow> Report 1 table
                      | LoopStruck s \<Rightarrow> Interrupted s
                      | LoopRaised \<Rightarrow> Escapes, fs2))"

definition execute :: "sab_run \<Rightarrow> sab_rule list \<Rightarrow> ustr list \<Rightarrow> files \<Rightarrow> sab_end \<times> files" where
  "execute c rules argv fs =
     (case find (\<lambda>r. r_gate r \<notin> set (sr_gate_names c)) rules of
        Some r \<Rightarrow> (NoGate (r_label r), fs)
      | None \<Rightarrow>
          (case sab_options argv [] [] of
             Inl _ \<Rightarrow> (Report 2 [], fs)
           | Inr (only, skip) \<Rightarrow>
               (case select_rules rules only skip (sr_gate_names c) of
                  Inl _ \<Rightarrow> (Report 2 [], fs)
                | Inr chosen \<Rightarrow> execute_chosen c chosen fs)))"


section \<open>The process\<close>

text \<open>\<open>own_tmpdir\<close>: the environment the gates see, and what is put back after.\<close>

definition TMP_NAMES :: "string list" where
  "TMP_NAMES = [''TMPDIR'', ''RUNNER_TEMP'', ''MODULAR_CACHE_DIR'']"

definition enter_tmpdir :: "string \<Rightarrow> env \<Rightarrow> env" where
  "enter_tmpdir scratch env =
     env(''TMPDIR'' \<mapsto> scratch, ''RUNNER_TEMP'' := None, ''MODULAR_CACHE_DIR'' \<mapsto> scratch @ ''/mojo-cache'')"

definition leave_tmpdir :: "env \<Rightarrow> env \<Rightarrow> env" where
  "leave_tmpdir saved env = fold (\<lambda>k e. e(k := saved k)) TMP_NAMES env"

lemma tmpdir_is_put_back: "leave_tmpdir env (enter_tmpdir scratch env) = env"
  by (simp add: leave_tmpdir_def enter_tmpdir_def TMP_NAMES_def fun_eq_iff)

datatype process_end = Exits nat | DiesBy int | Traceback

definition sab_main :: "sab_run \<Rightarrow> sab_rule list \<Rightarrow> ustr list \<Rightarrow> files \<Rightarrow> process_end \<times> files" where
  "sab_main c rules argv fs =
     (case execute c rules argv fs of
        (Report status _, fs') \<Rightarrow> (Exits status, fs')
      | (Interrupted s, fs') \<Rightarrow> (DiesBy s, fs')
      | (Escapes, fs') \<Rightarrow> (Traceback, fs')
      | (NoGate _, fs') \<Rightarrow> (Traceback, fs'))"

section \<open>The tree is put back\<close>

definition readable :: "files \<Rightarrow> ustr \<Rightarrow> bool" where
  "readable fs p \<longleftrightarrow> fs p \<noteq> Some NotUtf8"

lemma reading_iff:
  "read_or_none fs p = ReadRaises \<longleftrightarrow> \<not> readable fs p"
  "read_or_none fs p = reading_of w \<longleftrightarrow> fs p = map_option Text w"
  by (auto simp: read_or_none_def readable_def reading_of_def split: option.splits content.splits)

lemma restore_readable:
  "(\<And>p. p \<in> set ps \<Longrightarrow> readable fs p) \<Longrightarrow>
    restore originals ps fs = (True, \<lambda>p. if p \<in> set ps then map_option Text (originals p) else fs p)"
proof (induction ps arbitrary: fs)
  case (Cons p ps)
  let ?fs = "fs(p := map_option Text (originals p))"
  have "restore originals (p # ps) fs = restore originals ps ?fs"
    using Cons.prems [of p] by (auto simp: reading_iff fun_upd_idem)
  also have "\<dots> = (True, \<lambda>q. if q \<in> set ps then map_option Text (originals q) else ?fs q)"
  proof (rule Cons.IH)
    show "readable ?fs q" if "q \<in> set ps" for q using Cons.prems [of q] that by (auto simp: readable_def)
  qed
  finally show ?case by (auto simp del: restore.simps)
qed simp

lemma restore_keeps_readable: "readable fs q \<Longrightarrow> readable (snd (restore originals ps fs)) q"
proof (induction ps arbitrary: fs)
  case (Cons p ps)
  then show ?case by (cases "q = p") (auto simp: readable_def)
qed simp

text \<open>A gate leaves text where there was text.\<close>

definition gates_keep_text :: "sab_run \<Rightarrow> bool" where
  "gates_keep_text c \<longleftrightarrow> (\<forall>name g texts fs p. sr_gates c name = Some g \<longrightarrow> readable fs p \<longrightarrow> readable (snd (g texts fs)) p)"

lemma run_gate_keeps: "gates_keep_text c \<Longrightarrow> readable fs p \<Longrightarrow> readable (snd (run_gate c name texts fs)) p"
  by (auto simp: gates_keep_text_def run_gate_def split: option.splits)

lemma baseline_keeps: "gates_keep_text c \<Longrightarrow> readable fs p \<Longrightarrow> readable (snd (baseline_runs c originals names fs)) p"
proof (induction names arbitrary: fs)
  case (Cons name names)
  obtain e fs' where g: "run_gate c name originals fs = (e, fs')" by force
  then have "readable fs' p" using run_gate_keeps [OF Cons.prems] by (metis snd_conv)
  then show ?case using Cons.IH [OF Cons.prems(1)] g by (cases e) auto
qed simp

lemma attempt_keeps: "gates_keep_text c \<Longrightarrow> readable fs p \<Longrightarrow> readable (snd (attempt c originals plan fs)) p"
proof -
  assume keep: "gates_keep_text c" and r: "readable fs p"
  obtain r texts where plan: "plan = (r, texts)" by force
  let ?fs = "if sr_write c then write_texts texts fs else fs"
  obtain e fs1 where g: "run_gate c (r_gate r) texts ?fs = (e, fs1)" by force
  have "readable ?fs p" using r by (auto simp: write_texts_def readable_def split: option.splits)
  then have "readable fs1 p" using run_gate_keeps [OF keep] g by (metis snd_conv)
  then show ?thesis using restore_keeps_readable [of fs1 p originals "edit_paths r"]
    by (auto simp: attempt_def plan g split: prod.splits)
qed

lemma rule_runs_keep: "gates_keep_text c \<Longrightarrow> readable fs p \<Longrightarrow> readable (snd (rule_runs c originals n ps fs)) p"
proof (induction ps arbitrary: n fs)
  case (Cons plan ps)
  obtain e fs' where a: "attempt c originals plan fs = (e, fs')" by force
  then have r: "readable fs' p" using attempt_keeps [OF Cons.prems] by (metis snd_conv)
  then have "readable (snd (rule_runs c originals (Suc n) ps fs')) p" by (rule Cons.IH [OF Cons.prems(1)])
  then show ?case using a r Cons.prems(2) by (cases e) (auto split: option.splits prod.splits)
qed simp

lemma run_plans_keep: "gates_keep_text c \<Longrightarrow> readable fs p \<Longrightarrow> readable (snd (run_plans c originals ps fs)) p"
proof -
  assume keep: "gates_keep_text c" and r: "readable fs p"
  let ?names = "remdups (map (r_gate \<circ> fst) ps)"
  obtain e fs' where b: "baseline_runs c originals ?names fs = (e, fs')" by force
  then have "readable fs' p" using baseline_keeps [OF keep r] by (metis snd_conv)
  then show ?thesis using b rule_runs_keep [OF keep] by (cases e) (auto simp: run_plans_def)
qed

lemma way_out_restores:
  assumes "\<And>p. p \<in> set touched \<Longrightarrow> readable fs p" and "p \<in> set touched"
  shows "snd (way_out c originals touched e fs) p = map_option Text (originals p)"
proof -
  have rest: "restore originals touched fs = (True, \<lambda>p. if p \<in> set touched then map_option Text (originals p) else fs p)"
    using assms(1) by (rule restore_readable)
  show ?thesis using assms(2) by (auto simp: way_out_def rest Let_def split: option.splits finish_end.splits)
qed

lemma originals_are:
  assumes "originals_of ps fs = Some originals" and "p \<in> set ps"
  shows "readable fs p" and "map_option Text (originals p) = fs p"
  using assms by (auto simp: originals_of_def list_ex_iff reading_iff readable_def split: if_splits option.splits content.splits)

lemma plans_paths: "(r, texts) \<in> set (plans c originals chosen) \<Longrightarrow> p \<in> set (edit_paths r) \<Longrightarrow> p \<in> set (edited_files chosen)"
  by (induction chosen) (auto simp: edited_files_def split: sum.splits if_splits)



text \<open>What a caught rule's gate said, beyond that it failed.\<close>

definition expected_said :: "sab_run \<Rightarrow> sab_rule \<Rightarrow> rule_outcome \<Rightarrow> bool" where
  "expected_said c r oc \<longleftrightarrow>
     r_expect r = [] \<or>
     (if is_test_name (sr_alnum c) (r_expect r)
      then (\<exists>m\<in>set (findall TEST_FAILED (oc_output oc)). fst m = r_expect r)
      else (\<exists>l\<in>set (splitlines (oc_output oc @ [10] @ sr_words c (oc_detail oc))). contains (r_expect r) l \<and> \<not> did_not_fail l))"

lemma caught_iff:
  "fst (sab_verdict (sr_alnum c) (sr_words c) r oc) = CAUGHT \<longleftrightarrow> oc_phase oc = Failed \<and> expected_said c r oc"
proof -
  let ?named = "filter (\<lambda>m. fst m = r_expect r) (findall TEST_FAILED (oc_output oc))"
  let ?lines = "said_lines (sr_words c) (r_expect r) oc"
  have "?named = [] \<longleftrightarrow> \<not> (\<exists>m\<in>set (findall TEST_FAILED (oc_output oc)). fst m = r_expect r)"
    by (auto simp: filter_empty_conv)
  moreover have "?lines = [] \<longleftrightarrow>
      \<not> (\<exists>l\<in>set (splitlines (oc_output oc @ [10] @ sr_words c (oc_detail oc))). contains (r_expect r) l \<and> \<not> did_not_fail l)"
    unfolding said_lines_def map_is_Nil_conv filter_empty_conv by blast
  ultimately show ?thesis unfolding sab_verdict_def expected_said_def
    by (cases "oc_phase oc"; cases ?named; cases ?lines) (simp_all split: if_splits)
qed

text \<open>The gate was run with the rule broken, and answered.\<close>

definition judged_broken :: "sab_run \<Rightarrow> sab_rule \<Rightarrow> (ustr \<rightharpoonup> ustr) \<Rightarrow> rule_outcome \<Rightarrow> bool" where
  "judged_broken c r texts oc \<longleftrightarrow>
     (\<exists>before. fst (run_gate c (r_gate r) texts (if sr_write c then write_texts texts before else before)) = Judged oc)"

lemma attempt_judged: "fst (attempt c originals (r, texts) fs) = Judged oc \<Longrightarrow> judged_broken c r texts oc"
  unfolding judged_broken_def
  by (intro exI [of _ fs]) (auto simp: attempt_def split: prod.splits if_splits)

lemma rule_runs_through:
  "fst (rule_runs c originals n ps fs) = (Through, vs) \<Longrightarrow>
    list_all2 (\<lambda>(r, texts) v. \<exists>oc. judged_broken c r texts oc \<and> v = sab_verdict (sr_alnum c) (sr_words c) r oc) ps vs"
proof (induction ps arbitrary: n fs vs)
  case (Cons plan ps)
  obtain r texts where plan: "plan = (r, texts)" by force
  obtain e fs' where a: "attempt c originals plan fs = (e, fs')" by force
  obtain oc ws where e: "e = Judged oc" and ws: "fst (rule_runs c originals (Suc n) ps fs') = (Through, ws)"
    and vs: "vs = sab_verdict (sr_alnum c) (sr_words c) r oc # ws"
    using Cons.prems a plan by (cases e) (auto split: option.splits prod.splits)
  have "judged_broken c r texts oc" using attempt_judged a e plan by (metis fst_conv)
  then show ?case using Cons.IH [OF ws] unfolding vs plan by auto
qed simp

lemma baseline_through:
  "fst (baseline_runs c originals names fs) = Through \<Longrightarrow> name \<in> set names \<Longrightarrow>
    \<exists>before oc. fst (run_gate c name originals before) = Judged oc \<and> oc_phase oc = Passed"
proof (induction names arbitrary: fs)
  case (Cons n names)
  obtain e fs' where g: "run_gate c n originals fs = (e, fs')" by force
  obtain oc where e: "e = Judged oc" "oc_phase oc = Passed" and rest: "fst (baseline_runs c originals names fs') = Through"
    using Cons.prems(1) g by (cases e) (auto split: if_splits)
  show ?case
  proof (cases "name = n")
    case True
    then show ?thesis using g e by (metis fst_conv)
  next
    case False
    then show ?thesis using Cons.IH [OF rest] Cons.prems(2) by simp
  qed
qed simp

lemma table_holds:
  assumes "list_all2 P (plans c originals chosen) vs" and "r \<in> set chosen"
  shows "case apply_rule r originals of
      Inl _ \<Rightarrow> (r, NOT_APPLICABLE, []) \<in> set (result_table c originals chosen vs)
    | Inr texts \<Rightarrow> observable c r \<longrightarrow>
        (r, texts) \<in> set (plans c originals chosen) \<and> (\<exists>v. P (r, texts) v \<and> (r, v) \<in> set (result_table c originals chosen vs))"
  using assms
proof (induction chosen arbitrary: vs)
  case (Cons q chosen)
  show ?case
  proof (cases "apply_rule q originals")
    case (Inl x)
    then show ?thesis using Cons.prems Cons.IH [of vs] by (cases "r = q") (auto split: sum.splits)
  next
    case (Inr texts)
    show ?thesis
    proof (cases "observable c q")
      case True
      then obtain v ws where vs: "vs = v # ws" "P (q, texts) v" "list_all2 P (plans c originals chosen) ws"
        using Cons.prems(1) Inr by (auto simp: list_all2_Cons1)
      show ?thesis
      proof (cases "r = q")
        case True
        moreover obtain x y where "v = (x, y)" by force
        ultimately show ?thesis using Inr vs \<open>observable c q\<close> by auto
      next
        case False
        then show ?thesis using Cons.IH [OF vs(3)] Cons.prems(2) Inr vs \<open>observable c q\<close> by (fastforce split: sum.splits)
      qed
    next
      case False
      then show ?thesis using Cons.prems Cons.IH [of vs] Inr by (cases "r = q") (auto split: sum.splits)
    qed
  qed
qed simp



section \<open>A run of one rule\<close>

text \<open>The rule makes the X of a file a Y; its gate fails on a tree without the X, and once also spoils the file.\<close>

definition guard_rule :: sab_rule where
  "guard_rule = \<lparr>r_label = [114], r_edits = [\<lparr>e_path = [102], e_old = Some [88], e_new = [89]\<rparr>],
     r_gate = [], r_only_on = [], r_expect = []\<rparr>"

definition guard_gate :: "content option \<Rightarrow> gate" where
  "guard_gate left texts fs =
     (if fs [102] = Some (Text [97, 88, 98])
      then (Judged (outcome_of Passed Empty []), fs)
      else (Judged (outcome_of Failed (Said [110]) []), fs([102] := left)))"

definition guard_run :: "content option \<Rightarrow> sab_run" where
  "guard_run left = \<lparr>sr_gates = [[] \<mapsto> guard_gate left], sr_gate_names = [[]], sr_write = True, sr_system = [],
     sr_alnum = (\<lambda>_. False), sr_words = (\<lambda>w. case w of Said s \<Rightarrow> s | _ \<Rightarrow> []), sr_arrives = (\<lambda>_. None), sr_last = None,
     sr_finish = None\<rparr>"

definition guard_files :: files where
  "guard_files = [[102] \<mapsto> Text [97, 88, 98], [103] \<mapsto> NotUtf8]"

lemma guard_originals: "originals_of (edited_files [guard_rule]) guard_files = Some [[102] \<mapsto> [97, 88, 98]]"
  by (auto simp: originals_of_def edited_files_def edit_paths_def guard_rule_def guard_files_def read_or_none_def fun_eq_iff)

lemma guard_applies: "apply_rule guard_rule [[102] \<mapsto> [97, 88, 98]] = Inr [[102] \<mapsto> [97, 89, 98]]"
proof -
  have "occurrences [97, 88, 98] [88] = 1" by (simp add: starts_with_def)
  moreover have "replace_once [88] [89] [97, 88, 98] = [97, 89, 98]" by (simp add: replace_once_def starts_with_def)
  moreover have "missing_file [[102] \<mapsto> [97, 88, 98]] (r_edits guard_rule) = None" by (simp add: missing_file_def guard_rule_def)
  ultimately show ?thesis
    by (simp add: apply_rule_def) (simp add: guard_rule_def one_edit_def edit_paths_def Let_def restrict_map_def fun_eq_iff)
qed

lemma guard_observable: "observable (guard_run left) guard_rule"
  by (simp add: observable_def guard_rule_def)

lemma guard_plans: "plans (guard_run left) [[102] \<mapsto> [97, 88, 98]] [guard_rule] = [(guard_rule, [[102] \<mapsto> [97, 89, 98]])]"
  by (simp add: guard_applies guard_observable)

lemma guard_run_sel [simp]:
  "sr_arrives (guard_run left) n = None" "sr_last (guard_run left) = None" "sr_finish (guard_run left) = None"
  "sr_write (guard_run left)"
  by (simp_all add: guard_run_def)

lemma guard_gates: "run_gate (guard_run left) [] texts fs = guard_gate left texts fs"
  by (simp add: run_gate_def guard_run_def)

lemmas guard_defs = guard_rule_def guard_run_def guard_gate_def edit_paths_def write_texts_def read_or_none_def reading_of_def
  outcome_of_def

lemma guard_executes:
  "execute_chosen (guard_run (Some (Text []))) [guard_rule] guard_files = (Report 0 [(guard_rule, CAUGHT, [110])], guard_files)"
proof -
  let ?c = "guard_run (Some (Text []))" and ?o = "[[102] \<mapsto> [97, 88, 98]] :: ustr \<rightharpoonup> ustr"
  let ?plan = "(guard_rule, [[102] \<mapsto> [97, 89, 98]])"
  have gate: "r_gate guard_rule = []" by (simp add: guard_rule_def)
  have base: "baseline_runs ?c ?o [[]] guard_files = (Through, guard_files)"
    by (simp add: guard_gates guard_gate_def guard_files_def outcome_of_def)
  have att: "attempt ?c ?o ?plan guard_files = (Judged (outcome_of Failed (Said [110]) []), guard_files)"
    by (simp add: attempt_def gate guard_gates) (simp add: guard_defs guard_files_def fun_eq_iff)
  have judged: "sab_verdict (sr_alnum ?c) (sr_words ?c) guard_rule (outcome_of Failed (Said [110]) []) = (CAUGHT, [110])"
    by (simp add: sab_verdict_def guard_defs)
  have run: "run_plans ?c ?o [?plan] guard_files = ((Through, [(CAUGHT, [110])]), guard_files)"
    by (simp add: run_plans_def gate base att judged del: baseline_runs.simps)
  have out: "way_out ?c ?o [[102]] Through guard_files = ((Through, False), guard_files)"
    by (simp add: way_out_def put_back_def guard_defs guard_files_def)
  have "result_table ?c ?o [guard_rule] [(CAUGHT, [110])] = [(guard_rule, CAUGHT, [110])]"
    by (simp add: guard_applies guard_observable)
  moreover have "edit_paths guard_rule = [[102]]" by (simp add: guard_defs)
  ultimately show ?thesis
    by (simp add: execute_chosen_def guard_originals guard_plans run out tally_def Let_def del: plans.simps result_table.simps)
qed



text \<open>A gate that leaves the file in bytes that are not UTF-8: the restore raises, and the file stays.\<close>

lemma spoiled_file_stays:
  "attempt (guard_run (Some NotUtf8)) [[102] \<mapsto> [97, 88, 98]] (guard_rule, [[102] \<mapsto> [97, 89, 98]]) guard_files =
     (Raised, guard_files([102] \<mapsto> NotUtf8)) \<and>
   way_out (guard_run (Some NotUtf8)) [[102] \<mapsto> [97, 88, 98]] [[102]] LoopRaised (guard_files([102] \<mapsto> NotUtf8)) =
     ((LoopRaised, True), guard_files([102] \<mapsto> NotUtf8))"
proof -
  have "r_gate guard_rule = []" by (simp add: guard_rule_def)
  then show ?thesis
    by (simp add: attempt_def guard_gates way_out_def) (simp add: guard_defs guard_files_def fun_eq_iff)
qed

end
