(* ===== verification/Citations.thy ===== *)
theory Citations
  imports Regex_Scan
begin

text \<open>
  The check that no RFC the tree cites has been replaced (scripts/check\_citations.py): the
  citations of a text, the snapshot of the RFC Editor's answers, its update and the rules
  between them. An RFC is its number; the RFC Editor is a function of it.
\<close>

section \<open>Citations\<close>

definition latin_lower :: "nat \<Rightarrow> nat" where
  "latin_lower c = (if 65 \<le> c \<and> c \<le> 90 then c + 32 else c)"

text \<open>\<open>\bRFC[ -]?(\d{3,5})\b\<close>, in either case.\<close>

definition CITATION :: "(nat \<Rightarrow> bool) \<Rightarrow> nat pattern" where
  "CITATION alnum b s =
     (if (case b of None \<Rightarrow> True | Some p \<Rightarrow> \<not> u_word alnum p) \<and> starts_with (str_of ''rfc'') (map latin_lower s)
      then (let t = drop 3 s; u = (case t of c # cs \<Rightarrow> if c = 32 \<or> c = 45 then cs else t | [] \<Rightarrow> t);
                ds = takeWhile u_digit u; rest = dropWhile u_digit u
            in if 3 \<le> length ds \<and> length ds \<le> 5 \<and> ends_word alnum rest then Some (dec_value ds, rest) else None)
      else None)"

text \<open>A citation: its line, the RFC, and those of its paragraph.\<close>

type_synonym citation = "nat \<times> nat \<times> nat list"

definition flush :: "(nat \<times> nat) list \<Rightarrow> citation list" where
  "flush para = map (\<lambda>(i, n). (i, n, map snd para)) para"

fun cite_lines :: "(nat \<Rightarrow> bool) \<Rightarrow> nat \<Rightarrow> ustr list \<Rightarrow> (nat \<times> nat) list \<Rightarrow> citation list" where
  "cite_lines alnum i [] para = flush para"
| "cite_lines alnum i (l # ls) para =
     (if u_strip l = [] then flush para @ cite_lines alnum (Suc i) ls []
      else cite_lines alnum (Suc i) ls (para @ map (\<lambda>n. (i, n)) (findall (CITATION alnum) l)))"

definition find_citations :: "(nat \<Rightarrow> bool) \<Rightarrow> ustr \<Rightarrow> citation list" where
  "find_citations alnum text = cite_lines alnum 1 (split_on 10 text) []"

definition EXCLUDED_FILES :: "ustr list" where
  "EXCLUDED_FILES = [str_of ''scripts/check_citations.py'', str_of ''scripts/rfc_status.json'', str_of ''docs/spec.json'']"

definition EXCLUDED_PREFIXES :: "ustr list" where
  "EXCLUDED_PREFIXES = [str_of ''bench/results/'', str_of ''packages/m0-datastar/test/sdk/'']"

definition is_scanned :: "ustr \<Rightarrow> bool" where
  "is_scanned rel \<longleftrightarrow>
     rel \<notin> set EXCLUDED_FILES \<and> \<not> ends_with (str_of ''.lock'') rel \<and> \<not> list_ex (\<lambda>p. starts_with p rel) EXCLUDED_PREFIXES"

text \<open>\<open>read_text\<close>: \<open>None\<close> for a file that cannot be read or looks binary.\<close>

definition citing_text :: "bytes option \<Rightarrow> ustr option" where
  "citing_text raw =
     (case raw of None \<Rightarrow> None | Some b \<Rightarrow> if 0 \<in> set (take 8192 b) then None else Some (utf8_decode_replace b))"

definition scan_citations :: "(nat \<Rightarrow> bool) \<Rightarrow> (ustr \<Rightarrow> bytes option) \<Rightarrow> ustr list \<Rightarrow> (ustr \<times> citation list) list" where
  "scan_citations alnum read_file tracked =
     List.map_filter (\<lambda>rel.
       if \<not> is_scanned rel then None
       else case citing_text (read_file rel) of
              None \<Rightarrow> None
            | Some text \<Rightarrow>
                if \<not> contains (str_of ''rfc'') (map latin_lower text) then None
                else case find_citations alnum text of [] \<Rightarrow> None | hits \<Rightarrow> Some (rel, hits)) tracked"

section \<open>The snapshot\<close>

record rfc_entry =
  rf_title :: ustr
  rf_status :: ustr
  rf_obsoleted :: "nat list"

type_synonym rfc_snapshot = "(nat \<times> rfc_entry) list"

text \<open>The RFC Editor's document.\<close>

record rfc_doc =
  rd_title :: ustr
  rd_status :: ustr
  rd_obsoleted :: "ustr list"

text \<open>\<open>re.search(r"(\d{3,5})")\<close>.\<close>

fun digits_in :: "ustr \<Rightarrow> ustr option" where
  "digits_in [] = None"
| "digits_in (c # cs) =
     (let ds = takeWhile u_digit (c # cs) in if 3 \<le> length ds then Some (take 5 ds) else digits_in cs)"

definition rfc_number :: "(nat \<Rightarrow> bool) \<Rightarrow> ustr \<Rightarrow> nat option" where
  "rfc_number alnum x =
     (case findall (CITATION alnum) x of n # _ \<Rightarrow> Some n | [] \<Rightarrow> map_option dec_value (digits_in x))"

definition entry_from_json :: "(nat \<Rightarrow> bool) \<Rightarrow> rfc_doc \<Rightarrow> rfc_entry" where
  "entry_from_json alnum doc =
     \<lparr>rf_title = rd_title doc, rf_status = rd_status doc,
      rf_obsoleted = sort (List.map_filter (rfc_number alnum) (rd_obsoleted doc))\<rparr>"

definition obsoleted_by :: "rfc_snapshot \<Rightarrow> nat \<Rightarrow> nat list" where
  "obsoleted_by rfcs r = (case map_of rfcs r of None \<Rightarrow> [] | Some e \<Rightarrow> rf_obsoleted e)"

lemma obsoleted_outside: "s \<notin> fst ` set rfcs \<Longrightarrow> obsoleted_by rfcs s = []"
  by (simp add: obsoleted_by_def map_of_eq_None_iff [symmetric])

text \<open>\<open>successors\<close>: what is still to be visited, in the order of the recursion, and what was seen.\<close>

function visit :: "rfc_snapshot \<Rightarrow> nat list \<Rightarrow> nat list \<Rightarrow> nat list" where
  "visit rfcs [] seen = seen"
| "visit rfcs (s # todo) seen =
     (if s \<in> set seen then visit rfcs todo seen else visit rfcs (obsoleted_by rfcs s @ todo) (seen @ [s]))"
  by pat_completeness auto
termination
proof (relation "measures [\<lambda>(rfcs, todo, seen). card (fst ` set rfcs - set seen), \<lambda>(rfcs, todo, seen). length todo]")
  fix rfcs :: rfc_snapshot and s :: nat and todo seen :: "nat list" assume s: "s \<notin> set seen"
  show "((rfcs, obsoleted_by rfcs s @ todo, seen @ [s]), (rfcs, s # todo, seen))
      \<in> measures [\<lambda>(rfcs, todo, seen). card (fst ` set rfcs - set seen), \<lambda>(rfcs, todo, seen). length todo]"
  proof (cases "s \<in> fst ` set rfcs")
    case True
    have "fst ` set rfcs - set (seen @ [s]) \<subset> fst ` set rfcs - set seen" using True s by auto
    then show ?thesis by (simp add: psubset_card_mono)
  next
    case False
    then have "fst ` set rfcs - set (seen @ [s]) = fst ` set rfcs - set seen" by auto
    then show ?thesis using False by (simp add: obsoleted_outside)
  qed
qed auto

definition successors :: "rfc_snapshot \<Rightarrow> nat \<Rightarrow> nat list" where
  "successors rfcs r = visit rfcs (obsoleted_by rfcs r) []"

section \<open>The rules\<close>

datatype cite_failure =
    NoSnapshot
  | NoEntry ustr nat nat
  | CitesObsolete ustr nat nat "nat list"
  | NothingCites nat
  | SuccessorNoEntry nat nat

definition citation_failure :: "rfc_snapshot \<Rightarrow> ustr \<Rightarrow> citation \<Rightarrow> cite_failure list" where
  "citation_failure rfcs rel = (\<lambda>(i, r, para).
     case map_of rfcs r of
       None \<Rightarrow> [NoEntry rel i r]
     | Some e \<Rightarrow>
         if rf_obsoleted e = [] then []
         else if list_ex (\<lambda>p. p \<in> set (successors rfcs r)) para then []
         else [CitesObsolete rel i r (rf_obsoleted e)])"

definition all_cited :: "(ustr \<times> citation list) list \<Rightarrow> nat list" where
  "all_cited cited = concat (map (\<lambda>(rel, hits). map (\<lambda>(i, r, para). r) hits) cited)"

definition entry_failures :: "rfc_snapshot \<Rightarrow> nat list \<Rightarrow> nat \<Rightarrow> cite_failure list" where
  "entry_failures rfcs reachable r =
     (if r \<in> set reachable then [] else [NothingCites r]) @
     map (SuccessorNoEntry r) (filter (\<lambda>s. s \<notin> fst ` set rfcs) (obsoleted_by rfcs r))"

text \<open>\<open>cited\<close> comes in the order of its paths.\<close>

definition check_citations :: "(ustr \<times> citation list) list \<Rightarrow> rfc_snapshot option \<Rightarrow> cite_failure list" where
  "check_citations cited snap =
     (case snap of
        None \<Rightarrow> [NoSnapshot]
      | Some rfcs \<Rightarrow>
          let reachable = all_cited cited @ concat (map (successors rfcs) (all_cited cited))
          in concat (map (\<lambda>(rel, hits). concat (map (citation_failure rfcs rel) hits)) cited) @
             concat (map (entry_failures rfcs reachable) (sort (map fst rfcs))))"

datatype workflow_failure = NoWorkflow | NoCron | NoLive

definition CRON :: "unit pattern" where
  "CRON b s =
     (let t = dropWhile u_space s; u = dropWhile u_space (drop 1 t) in
      if line_start b \<and> starts_with [45] t \<and> starts_with (str_of ''cron:'') u then Some ((), drop 5 u) else None)"

definition LIVE :: "(nat \<Rightarrow> bool) \<Rightarrow> unit pattern" where
  "LIVE alnum b s =
     (let t = drop 18 s; u = dropWhile u_space t in
      if starts_with (str_of ''check_citations.py'') s \<and> u \<noteq> t \<and> starts_with (str_of ''--live'') u \<and> ends_word alnum (drop 6 u)
      then Some ((), drop 6 u) else None)"

definition check_workflow :: "(nat \<Rightarrow> bool) \<Rightarrow> ustr option \<Rightarrow> workflow_failure list" where
  "check_workflow alnum text =
     (case text of
        None \<Rightarrow> [NoWorkflow]
      | Some t \<Rightarrow> (if findall CRON t = [] then [NoCron] else []) @ (if findall (LIVE alnum) t = [] then [NoLive] else []))"

section \<open>The update\<close>

text \<open>What the RFC Editor answers; \<open>CannotAsk\<close> is the error raised when it cannot be asked.\<close>

datatype fetched = NoSuch | Doc rfc_doc | CannotAsk

partial_function (option) collect_loop ::
  "(nat \<Rightarrow> bool) \<Rightarrow> (nat \<Rightarrow> fetched) \<Rightarrow> nat list \<Rightarrow> rfc_snapshot \<Rightarrow> nat list \<Rightarrow> (nat + rfc_snapshot \<times> nat list) option" where
  "collect_loop alnum fetch queue entries unknown =
     (case queue of
        [] \<Rightarrow> Some (Inr (entries, unknown))
      | r # q \<Rightarrow>
          if r \<in> fst ` set entries then collect_loop alnum fetch q entries unknown
          else case fetch r of
                 CannotAsk \<Rightarrow> Some (Inl r)
               | NoSuch \<Rightarrow> collect_loop alnum fetch q entries (unknown @ [r])
               | Doc doc \<Rightarrow>
                   let e = entry_from_json alnum doc; entries' = entries @ [(r, e)]
                   in collect_loop alnum fetch (q @ filter (\<lambda>s. s \<notin> fst ` set entries') (rf_obsoleted e)) entries' unknown)"

definition collect :: "(nat \<Rightarrow> bool) \<Rightarrow> (nat \<Rightarrow> fetched) \<Rightarrow> nat list \<Rightarrow> (nat + rfc_snapshot \<times> nat list) option" where
  "collect alnum fetch cited = collect_loop alnum fetch (sorted_list_of_set (set cited)) [] []"

datatype live_failure = LiveNoSnapshot | CouldNotAsk nat | NoDocument nat | NowObsoleted nat "nat list" "nat list" | StatusNow nat ustr ustr

definition live_one :: "(nat \<Rightarrow> bool) \<Rightarrow> (nat \<Rightarrow> fetched) \<Rightarrow> nat \<times> rfc_entry \<Rightarrow> live_failure list" where
  "live_one alnum fetch = (\<lambda>(r, e).
     case fetch r of
       CannotAsk \<Rightarrow> [CouldNotAsk r]
     | NoSuch \<Rightarrow> [NoDocument r]
     | Doc doc \<Rightarrow>
         let now = entry_from_json alnum doc in
         if rf_obsoleted now \<noteq> rf_obsoleted e then [NowObsoleted r (rf_obsoleted now) (rf_obsoleted e)]
         else if rf_status now \<noteq> rf_status e then [StatusNow r (rf_status now) (rf_status e)] else [])"

definition live_diff :: "(nat \<Rightarrow> bool) \<Rightarrow> (nat \<Rightarrow> fetched) \<Rightarrow> rfc_snapshot option \<Rightarrow> live_failure list" where
  "live_diff alnum fetch snap =
     (case snap of None \<Rightarrow> [LiveNoSnapshot] | Some rfcs \<Rightarrow> concat (map (live_one alnum fetch) (sort_key fst rfcs)))"


section \<open>Successors are the transitive closure\<close>

definition replaced_by :: "rfc_snapshot \<Rightarrow> (nat \<times> nat) set" where
  "replaced_by rfcs = {(a, b). b \<in> set (obsoleted_by rfcs a)}"

lemma seen_closed:
  assumes "\<forall>x\<in>S. replaced_by rfcs `` {x} \<subseteq> S \<union> T" and "(x, y) \<in> (replaced_by rfcs)\<^sup>*" and "x \<in> S"
  shows "y \<in> S \<union> (replaced_by rfcs)\<^sup>* `` T"
  using assms(2) assms(1,3)
proof (induction rule: rtrancl_induct)
  case (step y z)
  then show ?case by (auto intro: rtrancl_into_rtrancl)
qed simp

lemma star_from: "E\<^sup>* `` {s} = {s} \<union> E\<^sup>* `` (E `` {s})"
proof (intro equalityI subsetI)
  fix y assume "y \<in> E\<^sup>* `` {s}"
  then have "(s, y) \<in> E\<^sup>*" by simp
  then show "y \<in> {s} \<union> E\<^sup>* `` (E `` {s})" by (cases rule: converse_rtranclE) auto
next
  fix y assume "y \<in> {s} \<union> E\<^sup>* `` (E `` {s})"
  then show "y \<in> E\<^sup>* `` {s}" by (auto intro: converse_rtrancl_into_rtrancl)
qed

definition half_seen :: "rfc_snapshot \<Rightarrow> nat list \<Rightarrow> nat list \<Rightarrow> bool" where
  "half_seen rfcs todo seen \<longleftrightarrow> replaced_by rfcs `` set seen \<subseteq> set seen \<union> set todo"

lemma visit_reaches:
  "half_seen rfcs todo seen \<Longrightarrow> set (visit rfcs todo seen) = set seen \<union> (replaced_by rfcs)\<^sup>* `` set todo"
proof (induction rfcs todo seen rule: visit.induct)
  case (1 rfcs seen)
  then show ?case by simp
next
  case (2 rfcs s todo seen)
  show ?case
  proof (cases "s \<in> set seen")
    case True
    have rest: "half_seen rfcs todo seen" using "2.prems" True unfolding half_seen_def by auto
    then have "\<forall>x\<in>set seen. replaced_by rfcs `` {x} \<subseteq> set seen \<union> set todo" unfolding half_seen_def by blast
    then have "(replaced_by rfcs)\<^sup>* `` {s} \<subseteq> set seen \<union> (replaced_by rfcs)\<^sup>* `` set todo"
      using seen_closed [of "set seen" rfcs "set todo" s] True by blast
    moreover have "(replaced_by rfcs)\<^sup>* `` set (s # todo) = (replaced_by rfcs)\<^sup>* `` {s} \<union> (replaced_by rfcs)\<^sup>* `` set todo"
      by (simp add: Image_Un [symmetric])
    ultimately show ?thesis using "2.IH"(1) [OF True rest] True by simp blast
  next
    case False
    have next_todo: "set (obsoleted_by rfcs s @ todo) = replaced_by rfcs `` {s} \<union> set todo" by (auto simp: replaced_by_def)
    have "half_seen rfcs (obsoleted_by rfcs s @ todo) (seen @ [s])"
      using "2.prems" unfolding half_seen_def next_todo by auto
    then have ih: "set (visit rfcs (s # todo) seen) = set (seen @ [s]) \<union> (replaced_by rfcs)\<^sup>* `` (replaced_by rfcs `` {s} \<union> set todo)"
      using "2.IH"(2) [OF False] False unfolding next_todo by simp
    have "(replaced_by rfcs)\<^sup>* `` set (s # todo) = (replaced_by rfcs)\<^sup>* `` {s} \<union> (replaced_by rfcs)\<^sup>* `` set todo"
      by (simp add: Image_Un [symmetric])
    then show ?thesis unfolding ih star_from [of _ s] Image_Un by auto
  qed
qed

lemma successors_closure: "set (successors rfcs r) = (replaced_by rfcs)\<^sup>+ `` {r}"
proof -
  have "set (successors rfcs r) = (replaced_by rfcs)\<^sup>* `` set (obsoleted_by rfcs r)"
    unfolding successors_def by (subst visit_reaches) (simp_all add: half_seen_def)
  also have "\<dots> = (replaced_by rfcs)\<^sup>+ `` {r}"
    by (auto simp: replaced_by_def intro: rtrancl_into_trancl2 dest: tranclD)
  finally show ?thesis .
qed

lemma entry_failures_set:
  "set (entry_failures rfcs reachable r) =
     (if r \<in> set reachable then {} else {NothingCites r}) \<union> SuccessorNoEntry r ` (set (obsoleted_by rfcs r) - fst ` set rfcs)"
  by (auto simp: entry_failures_def)

section \<open>What an update finds\<close>

definition as_said :: "(nat \<Rightarrow> bool) \<Rightarrow> (nat \<Rightarrow> fetched) \<Rightarrow> rfc_snapshot \<Rightarrow> bool" where
  "as_said alnum fetch entries \<longleftrightarrow> (\<forall>(r, e)\<in>set entries. \<exists>doc. fetch r = Doc doc \<and> e = entry_from_json alnum doc)"

text \<open>What holds of the loop's state: \<open>K\<close> are the recorded, \<open>W\<close> those waiting or unknown.\<close>

definition collecting :: "(nat \<Rightarrow> bool) \<Rightarrow> (nat \<Rightarrow> fetched) \<Rightarrow> nat set \<Rightarrow> rfc_snapshot \<Rightarrow> nat set \<Rightarrow> bool" where
  "collecting alnum fetch cited entries W \<longleftrightarrow>
     cited \<subseteq> fst ` set entries \<union> W \<and>
     replaced_by entries `` (fst ` set entries) \<subseteq> fst ` set entries \<union> W \<and>
     fst ` set entries \<union> W \<subseteq> (replaced_by entries)\<^sup>* `` cited \<and>
     as_said alnum fetch entries"

lemma obsoleted_by_snoc:
  assumes "r \<notin> fst ` set entries"
  shows "obsoleted_by (entries @ [(r, e)]) x = (if x = r then rf_obsoleted e else obsoleted_by entries x)"
proof -
  have "map_of entries r = None" using assms by (simp add: map_of_eq_None_iff)
  then show ?thesis by (auto simp: obsoleted_by_def map_add_def split: option.splits)
qed

lemma collecting_known:
  assumes "collecting alnum fetch cited entries (insert r W)" and "r \<in> fst ` set entries"
  shows "collecting alnum fetch cited entries W"
proof -
  have "fst ` set entries \<union> insert r W = fst ` set entries \<union> W" using assms(2) by blast
  then show ?thesis using assms(1) by (simp only: collecting_def simp_thms)
qed

lemma grows:
  assumes "cited \<subseteq> K \<union> insert r W" and "E `` K \<subseteq> K \<union> insert r W" and "K \<union> insert r W \<subseteq> E\<^sup>* `` cited"
    and "E `` {r} = {}" and F: "F = E \<union> {r} \<times> S"
  shows "cited \<subseteq> insert r K \<union> (W \<union> (S - insert r K))" and "F `` insert r K \<subseteq> insert r K \<union> (W \<union> (S - insert r K))"
    and "insert r K \<union> (W \<union> (S - insert r K)) \<subseteq> F\<^sup>* `` cited"
proof -
  have mono: "E\<^sup>* \<subseteq> F\<^sup>*" unfolding F by (rule rtrancl_mono) blast
  then have old: "K \<union> insert r W \<subseteq> F\<^sup>* `` cited" using assms(3) by blast
  then have "S \<subseteq> F\<^sup>* `` cited" unfolding F by (auto intro: rtrancl_into_rtrancl)
  then show "insert r K \<union> (W \<union> (S - insert r K)) \<subseteq> F\<^sup>* `` cited" using old by blast
qed (use assms in blast)+

lemma collecting_doc:
  assumes inv: "collecting alnum fetch cited entries (insert r W)" and new: "r \<notin> fst ` set entries"
    and doc: "fetch r = Doc doc"
  shows "collecting alnum fetch cited (entries @ [(r, entry_from_json alnum doc)])
    (W \<union> (set (rf_obsoleted (entry_from_json alnum doc)) - insert r (fst ` set entries)))"
proof -
  let ?e = "entry_from_json alnum doc" and ?E = "replaced_by entries"
  have F: "replaced_by (entries @ [(r, ?e)]) = ?E \<union> {r} \<times> set (rf_obsoleted ?e)"
    using new by (auto simp: replaced_by_def obsoleted_by_snoc obsoleted_outside split: if_splits)
  have "?E `` {r} = {}" using new by (auto simp: replaced_by_def obsoleted_outside)
  then show ?thesis
    using grows [OF _ _ _ _ F, of cited "fst ` set entries" W] inv doc
    by (simp add: collecting_def as_said_def)
qed

lemma collect_loop_keeps:
  "collect_loop alnum fetch queue entries unknown = Some y \<Longrightarrow> y = Inr (entries', unknown') \<Longrightarrow>
    collecting alnum fetch cited entries (set queue \<union> set unknown) \<Longrightarrow> collecting alnum fetch cited entries' (set unknown')"
proof (induction alnum fetch queue entries unknown y rule: collect_loop.raw_induct [rotated, consumes 1, case_names step])
  case (step loop alnum fetch queue entries unknown y)
  show ?case
  proof (cases queue)
    case Nil
    then show ?thesis using step by simp
  next
    case (Cons r q)
    have inv: "collecting alnum fetch cited entries (insert r (set q \<union> set unknown))" using step(4) Cons by simp
    show ?thesis
    proof (cases "r \<in> fst ` set entries")
      case True
      then have "loop alnum fetch q entries unknown = Some y" using step(2) Cons by simp
      then show ?thesis using step(3) by (rule step(1)) (rule collecting_known [OF inv True])
    next
      case False
      show ?thesis
      proof (cases "fetch r")
        case NoSuch
        then have "loop alnum fetch q entries (unknown @ [r]) = Some y" using step(2) Cons False by simp
        then show ?thesis using step(3) by (rule step(1)) (use inv in \<open>simp add: ac_simps\<close>)
      next
        case (Doc doc)
        let ?e = "entry_from_json alnum doc"
        let ?entries = "entries @ [(r, ?e)]"
        let ?q = "q @ filter (\<lambda>s. s \<notin> fst ` set ?entries) (rf_obsoleted ?e)"
        have l: "loop alnum fetch ?q ?entries unknown = Some y" using step(2) Cons False Doc by (simp add: Let_def)
        have "set ?q \<union> set unknown = set q \<union> set unknown \<union> (set (rf_obsoleted ?e) - insert r (fst ` set entries))" by auto
        then have "collecting alnum fetch cited ?entries (set ?q \<union> set unknown)"
          using collecting_doc [OF inv False Doc] by (simp only:)
        then show ?thesis by (rule step(1) [OF l step(3)])
      next
        case CannotAsk
        then show ?thesis using step(2,3) Cons False by simp
      qed
    qed
  qed
qed

lemma collect_collects:
  assumes "collect alnum fetch cited = Some (Inr (entries, unknown))"
  shows "collecting alnum fetch (set cited) entries (set unknown)"
  using assms unfolding collect_def
  by (rule collect_loop_keeps [OF _ refl]) (auto simp: collecting_def as_said_def replaced_by_def obsoleted_by_def)

lemma closed_under_trancl: "(x, y) \<in> E\<^sup>+ \<Longrightarrow> x \<in> K \<Longrightarrow> E `` K \<subseteq> K \<Longrightarrow> y \<in> K"
  by (induction rule: trancl_induct) blast+

lemma recorded_reachable:
  assumes inv: "collecting alnum fetch (set cited) entries {}"
  shows "fst ` set entries = set cited \<union> (\<Union>r\<in>set cited. set (successors entries r))"
proof -
  let ?K = "fst ` set entries" and ?E = "replaced_by entries"
  have k: "set cited \<subseteq> ?K" "?E `` ?K \<subseteq> ?K" "?K \<subseteq> ?E\<^sup>* `` set cited"
    using inv unfolding collecting_def by (simp_all only: Un_empty_right)
  have "?E\<^sup>* `` set cited = set cited \<union> ?E\<^sup>+ `` set cited" by (auto simp: rtrancl_eq_or_trancl)
  moreover have "?E\<^sup>+ `` set cited \<subseteq> ?K"
  proof
    fix y assume "y \<in> ?E\<^sup>+ `` set cited"
    then obtain x where x: "(x, y) \<in> ?E\<^sup>+" "x \<in> set cited" by (rule ImageE)
    then show "y \<in> ?K" using closed_under_trancl [OF x(1) _ k(2)] k(1) by (meson subsetD)
  qed
  moreover have "(\<Union>r\<in>set cited. set (successors entries r)) = ?E\<^sup>+ `` set cited" by (auto simp: successors_closure)
  ultimately show ?thesis using k(1,3) by (metis Un_least subset_antisym)
qed


text \<open>
  An update is what the RFC Editor says. Asked again with nothing changed, the live check
  finds no difference.
\<close>

lemma update_is_live:
  assumes "collect alnum fetch cited = Some (Inr (entries, unknown))"
  shows "live_diff alnum fetch (Some entries) = []"
proof -
  have "live_one alnum fetch x = []" if "x \<in> set entries" for x
    using collect_collects [OF assms] that by (fastforce simp: collecting_def as_said_def live_one_def Let_def)
  then show ?thesis by (simp add: live_diff_def)
qed

section \<open>The update ends\<close>

definition editor_says :: "(nat \<Rightarrow> bool) \<Rightarrow> (nat \<Rightarrow> fetched) \<Rightarrow> (nat \<times> nat) set" where
  "editor_says alnum fetch = {(a, b). \<exists>doc. fetch a = Doc doc \<and> b \<in> set (rf_obsoleted (entry_from_json alnum doc))}"

lemma collect_loop_ends:
  assumes "finite R" and "editor_says alnum fetch `` R \<subseteq> R"
  shows "set queue \<subseteq> R \<Longrightarrow> \<exists>y. collect_loop alnum fetch queue entries unknown = Some y"
proof (induction "(card (R - fst ` set entries), length queue)" arbitrary: queue entries unknown rule: wf_induct_rule [OF wf_lex_prod [OF wf_less wf_less]])
  case 1
  show ?case
  proof (cases queue)
    case Nil
    then show ?thesis by (simp add: collect_loop.simps)
  next
    case (Cons r q)
    have q: "set q \<subseteq> R" and r: "r \<in> R" using 1(2) Cons by auto
    have shorter: "\<exists>y. collect_loop alnum fetch q entries unknown' = Some y" for unknown'
      by (rule 1(1)) (use Cons q in simp_all)
    show ?thesis
    proof (cases "r \<in> fst ` set entries")
      case True
      then show ?thesis using shorter Cons by (subst collect_loop.simps) simp
    next
      case False
      show ?thesis
      proof (cases "fetch r")
        case (Doc doc)
        let ?e = "entry_from_json alnum doc"
        let ?entries = "entries @ [(r, ?e)]"
        let ?q = "q @ filter (\<lambda>s. s \<notin> fst ` set ?entries) (rf_obsoleted ?e)"
        have "R - fst ` set ?entries \<subset> R - fst ` set entries" using r False by auto
        then have less: "card (R - fst ` set ?entries) < card (R - fst ` set entries)"
          using assms(1) by (intro psubset_card_mono) auto
        have "set (rf_obsoleted ?e) \<subseteq> R" using assms(2) r Doc unfolding editor_says_def by blast
        then have "set ?q \<subseteq> R" using q by auto
        then have "\<exists>y. collect_loop alnum fetch ?q ?entries unknown = Some y"
          by (intro 1(1)) (simp only: in_lex_prod mem_Collect_eq less simp_thms prod.case less_than_iff)
        then show ?thesis using Cons False Doc by (subst collect_loop.simps) (simp add: Let_def)
      next
        case NoSuch
        then show ?thesis using shorter Cons False by (subst collect_loop.simps) simp
      next
        case CannotAsk
        then show ?thesis using Cons False by (subst collect_loop.simps) simp
      qed
    qed
  qed
qed

text \<open>
  The update ends, when what the RFC Editor says reaches finitely many RFCs.
\<close>

lemma update_ends:
  assumes "finite ((editor_says alnum fetch)\<^sup>* `` set cited)"
  shows "\<exists>y. collect alnum fetch cited = Some y"
proof -
  let ?R = "(editor_says alnum fetch)\<^sup>* `` set cited"
  have "editor_says alnum fetch `` ?R \<subseteq> ?R" by (auto intro: rtrancl_into_rtrancl)
  moreover have "set (sorted_list_of_set (set cited)) \<subseteq> ?R" by auto
  ultimately show ?thesis unfolding collect_def using collect_loop_ends [OF assms] by blast
qed


section \<open>Two RFCs\<close>

text \<open>RFC 100 was replaced by RFC 101; a file cites the old one on its line 3, alone in its paragraph.\<close>

definition two_rfcs :: "nat \<Rightarrow> fetched" where
  "two_rfcs r =
     (if r = 100 then Doc \<lparr>rd_title = [97], rd_status = [98], rd_obsoleted = [[82, 70, 67, 49, 48, 49]]\<rparr>
      else if r = 101 then Doc \<lparr>rd_title = [99], rd_status = [98], rd_obsoleted = []\<rparr> else NoSuch)"

definition two_entries :: rfc_snapshot where
  "two_entries = [(100, \<lparr>rf_title = [97], rf_status = [98], rf_obsoleted = [101]\<rparr>),
     (101, \<lparr>rf_title = [99], rf_status = [98], rf_obsoleted = []\<rparr>)]"

lemma two_number: "rfc_number (\<lambda>_. False) [82, 70, 67, 49, 48, 49] = Some 101"
proof -
  have "findall (CITATION (\<lambda>_. False)) [82, 70, 67, 49, 48, 49] = [101]"
    by (simp add: findall_def finds_def finds_from.simps match_at_def span_of_def groups_at_def before_at_def CITATION_def u_word_def
        starts_with_def str_of_def latin_lower_def u_digit_def ends_word_def dec_value_def map_filter_simps)
  then show ?thesis by (simp add: rfc_number_def)
qed

lemma two_collected: "collect (\<lambda>_. False) two_rfcs [100] = Some (Inr (two_entries, []))"
proof -
  have e: "entry_from_json (\<lambda>_. False) \<lparr>rd_title = [97], rd_status = [98], rd_obsoleted = [[82, 70, 67, 49, 48, 49]]\<rparr> =
      \<lparr>rf_title = [97], rf_status = [98], rf_obsoleted = [101]\<rparr>"
    by (simp add: entry_from_json_def map_filter_simps two_number)
  have e': "entry_from_json (\<lambda>_. False) \<lparr>rd_title = [99], rd_status = [98], rd_obsoleted = []\<rparr> =
      \<lparr>rf_title = [99], rf_status = [98], rf_obsoleted = []\<rparr>"
    by (simp add: entry_from_json_def map_filter_simps)
  show ?thesis
    unfolding collect_def two_entries_def
    by (simp, (subst collect_loop.simps, simp add: two_rfcs_def e e')+)
qed


lemma update_is_live_witness: "live_diff (\<lambda>_. False) two_rfcs (Some two_entries) = []"
  by (rule update_is_live [OF two_collected])

lemma update_ends_witness: "\<exists>y. collect (\<lambda>_. False) two_rfcs [100] = Some y"
proof (rule update_ends)
  have "(editor_says (\<lambda>_. False) two_rfcs)\<^sup>* `` {100} \<subseteq> {100, 101}"
  proof
    fix y assume "y \<in> (editor_says (\<lambda>_. False) two_rfcs)\<^sup>* `` {100}"
    then have "(100, y) \<in> (editor_says (\<lambda>_. False) two_rfcs)\<^sup>*" by simp
    then show "y \<in> {100, 101}"
    proof (induction rule: rtrancl_induct)
      case (step y z)
      then show ?case
        by (auto simp: editor_says_def two_rfcs_def entry_from_json_def map_filter_simps two_number split: if_splits)
    qed simp
  qed
  then show "finite ((editor_says (\<lambda>_. False) two_rfcs)\<^sup>* `` set [100])"
    unfolding list.set by (rule finite_subset) simp
qed


text \<open>A successor the RFC Editor has no document for is reported as a number the tree cites.\<close>

lemma unknown_successor:
  "collect (\<lambda>_. False) (two_rfcs(101 := NoSuch)) [100] =
     Some (Inr ([(100, \<lparr>rf_title = [97], rf_status = [98], rf_obsoleted = [101]\<rparr>)], [101]))"
proof -
  have e: "entry_from_json (\<lambda>_. False) \<lparr>rd_title = [97], rd_status = [98], rd_obsoleted = [[82, 70, 67, 49, 48, 49]]\<rparr> =
      \<lparr>rf_title = [97], rf_status = [98], rf_obsoleted = [101]\<rparr>"
    by (simp add: entry_from_json_def map_filter_simps two_number)
  show ?thesis
    unfolding collect_def by (simp, (subst collect_loop.simps, simp add: two_rfcs_def e)+)
qed

end
