(* ===== verification/Llvm_Types.thy ===== *)
theory Llvm_Types
  imports Regex_Scan
begin

text \<open>
  scripts/zero\_alloca\_check.py, reading LLVM types: text split at the commas outside brackets, and
  the test for a type of size 0. The test reads text; what it is held to is a syntax tree and the
  least relation that calls a type of it empty.
\<close>

section \<open>The code\<close>

text \<open>\<open>split_top\<close>: the depth, and the piece read so far.\<close>

fun split_top_from :: "int \<Rightarrow> ustr \<Rightarrow> ustr \<Rightarrow> ustr list" where
  "split_top_from d cur [] = (if u_strip cur = [] then [] else [u_strip cur])"
| "split_top_from d cur (c # cs) =
     (let d' = d + (if c \<in> {123, 91, 60, 40} then 1 else if c \<in> {125, 93, 62, 41} then -1 else 0)
      in if c = 44 \<and> d' = 0 then u_strip cur # split_top_from d' [] cs else split_top_from d' (cur @ [c]) cs)"

definition split_top :: "ustr \<Rightarrow> ustr list" where
  "split_top s = split_top_from 0 [] s"

definition unwrap :: "ustr \<Rightarrow> ustr" where
  "unwrap t = butlast (drop 1 t)"

text \<open>The length and the element of an array type: \<open>\[(\d+) x (.+)\]\<close>.\<close>

definition array_of :: "ustr \<Rightarrow> (ustr \<times> ustr) option" where
  "array_of t =
     (let n = takeWhile u_digit (drop 1 t); rest = dropWhile u_digit (drop 1 t); e = unwrap (drop 2 rest)
      in if starts_with [91] t \<and> n \<noteq> [] \<and> starts_with [32, 120, 32] rest \<and> ends_with [93] rest \<and>
            4 < length rest \<and> 10 \<notin> set e
         then Some (n, e) else None)"

lemma u_strip_length: "length (u_strip s) \<le> length s"
  unfolding u_strip_def using length_dropWhile_le by (metis length_rev order_trans)

lemma split_top_from_length: "p \<in> set (split_top_from d cur s) \<Longrightarrow> length p \<le> length cur + length s"
proof (induction d cur s rule: split_top_from.induct)
  case (1 d cur)
  then show ?case using u_strip_length [of cur] by (auto split: if_splits)
next
  case (2 d cur c cs)
  then show ?case using u_strip_length [of cur] by (fastforce simp: Let_def split: if_splits)
qed

lemma array_of_shorter: "array_of t = Some (n, e) \<Longrightarrow> length e < length t"
proof -
  assume a: "array_of t = Some (n, e)"
  have "length (dropWhile u_digit (drop 1 t)) \<le> length t" using length_dropWhile_le [of u_digit "drop 1 t"] by simp
  then show ?thesis using a by (auto simp: array_of_def unwrap_def Let_def split: if_splits)
qed

text \<open>\<open>is_zero\<close>: the module's named types, the names being looked at, and the type.\<close>

definition type_body :: "ustr \<Rightarrow> ustr" where
  "type_body t = (if starts_with [60, 123] t \<and> ends_with [125, 62] t then unwrap t else t)"

lemma type_body_length: "length (type_body t) \<le> length t"
  by (simp add: type_body_def unwrap_def)

function is_zero :: "(ustr \<times> ustr) list \<Rightarrow> ustr list \<Rightarrow> ustr \<Rightarrow> bool" where
  "is_zero named seen t0 =
     (let t = u_strip t0
      in case (if t \<in> set seen then None else map_of (rev named) t) of
           Some d \<Rightarrow> is_zero named (t # seen) d
         | None \<Rightarrow>
             (let b = type_body t
              in if starts_with [123] b \<and> ends_with [125] b
                 then list_all (is_zero named seen) (split_top (u_strip (unwrap b)))
                 else case array_of b of
                        None \<Rightarrow> False
                      | Some (n, e) \<Rightarrow> n = [48] \<or> is_zero named seen e))"
  by pat_completeness auto
termination
proof (relation "measures [\<lambda>(named, seen, t). card (fst ` set named - set seen), \<lambda>(named, seen, t). length t]", goal_cases)
  case (2 named seen t0 t b p)
  have "length b \<le> length t0" using 2 type_body_length [of t] u_strip_length [of t0] by simp
  moreover have "b \<noteq> []" using 2 by (auto simp: starts_with_def)
  then have "length (unwrap b) < length b" by (simp add: unwrap_def)
  moreover have "length p \<le> length (unwrap b)"
    using split_top_from_length 2 u_strip_length [of "unwrap b"] unfolding split_top_def by fastforce
  ultimately show ?case by simp
next
  case (3 named seen t0 t b ne n e)
  then show ?case
    using array_of_shorter [of b n e] type_body_length [of t] u_strip_length [of t0] by simp
next
  case (4 named seen t0 t d)
  then have "t \<in> fst ` set named - set seen" by (auto split: if_splits dest!: map_of_SomeD simp: image_iff) force
  then have "fst ` set named - set (t # seen) \<subset> fst ` set named - set seen" by auto
  then show ?case by (simp add: psubset_card_mono)
qed simp

declare is_zero.simps [simp del]

section \<open>The reference\<close>

text \<open>Types as LLVM writes them. A word is a primitive type or the name of another type.\<close>

datatype lty =
    Word ustr
  | Struct "lty list"
  | Packed "lty list"
  | Arr nat lty
  | Vec nat lty

definition listed :: "ustr list \<Rightarrow> ustr" where
  "listed ws = (if ws = [] then [] else [32] @ join [44, 32] ws @ [32])"

fun written :: "lty \<Rightarrow> ustr" where
  "written (Word w) = w"
| "written (Struct ts) = [123] @ listed (map written ts) @ [125]"
| "written (Packed ts) = [60, 123] @ listed (map written ts) @ [125, 62]"
| "written (Arr n t) = [91] @ str_of (show_nat n) @ [32, 120, 32] @ written t @ [93]"
| "written (Vec n t) = [60] @ str_of (show_nat n) @ [32, 120, 32] @ written t @ [62]"

definition ll_char :: "nat \<Rightarrow> bool" where
  "ll_char c \<longleftrightarrow> \<not> u_space c \<and> c \<notin> {44, 40, 41, 60, 62, 91, 93, 123, 125}"

definition plain_word :: "ustr \<Rightarrow> bool" where
  "plain_word w \<longleftrightarrow> w \<noteq> [] \<and> list_all ll_char w"

fun plain_type :: "lty \<Rightarrow> bool" where
  "plain_type (Word w) = plain_word w"
| "plain_type (Struct ts) = list_all plain_type ts"
| "plain_type (Packed ts) = list_all plain_type ts"
| "plain_type (Arr n t) = plain_type t"
| "plain_type (Vec n t) = plain_type t"

text \<open>A type that takes no bytes, when \<open>env\<close> says what the names stand for.\<close>

inductive no_bytes :: "(ustr \<Rightarrow> lty option) \<Rightarrow> lty \<Rightarrow> bool" for env where
  named_type: "env w = Some t \<Longrightarrow> no_bytes env t \<Longrightarrow> no_bytes env (Word w)"
| struct_type: "(\<And>t. t \<in> set ts \<Longrightarrow> no_bytes env t) \<Longrightarrow> no_bytes env (Struct ts)"
| packed_type: "(\<And>t. t \<in> set ts \<Longrightarrow> no_bytes env t) \<Longrightarrow> no_bytes env (Packed ts)"
| empty_array: "no_bytes env (Arr 0 t)"
| array_type: "no_bytes env t \<Longrightarrow> no_bytes env (Arr n t)"

inductive_simps no_bytes_simps:
  "no_bytes env (Word w)" "no_bytes env (Struct ts)" "no_bytes env (Packed ts)" "no_bytes env (Arr n t)" "no_bytes env (Vec n t)"

text \<open>The same with the height of the derivation.\<close>

fun no_bytes_by :: "(ustr \<Rightarrow> lty option) \<Rightarrow> nat \<Rightarrow> lty \<Rightarrow> bool" where
  "no_bytes_by env 0 t = False"
| "no_bytes_by env (Suc n) t =
     (case t of
        Word w \<Rightarrow> (case env w of None \<Rightarrow> False | Some u \<Rightarrow> no_bytes_by env n u)
      | Struct ts \<Rightarrow> list_all (no_bytes_by env n) ts
      | Packed ts \<Rightarrow> list_all (no_bytes_by env n) ts
      | Arr k u \<Rightarrow> k = 0 \<or> no_bytes_by env n u
      | Vec k u \<Rightarrow> False)"

lemma no_bytes_by_Suc: "no_bytes_by env n t \<Longrightarrow> no_bytes_by env (Suc n) t"
proof (induction n arbitrary: t)
  case (Suc n)
  then show ?case
    unfolding no_bytes_by.simps(2) [of env n t] no_bytes_by.simps(2) [of env "Suc n" t]
    by (auto split: lty.splits option.splits simp: list_all_iff simp del: no_bytes_by.simps)
qed simp

lemma no_bytes_by_mono: "no_bytes_by env n t \<Longrightarrow> n \<le> m \<Longrightarrow> no_bytes_by env m t"
  by (induction m) (use no_bytes_by_Suc in \<open>auto simp: le_Suc_eq simp del: no_bytes_by.simps(2)\<close>)

lemma no_bytes_by_all:
  "(\<And>t. t \<in> set ts \<Longrightarrow> \<exists>n. no_bytes_by env n t) \<Longrightarrow> \<exists>n. list_all (no_bytes_by env n) ts"
proof (induction ts)
  case (Cons t ts)
  then obtain n m where "no_bytes_by env n t" "list_all (no_bytes_by env m) ts" by (meson list.set_intros)
  then have "no_bytes_by env (max n m) t" "list_all (no_bytes_by env (max n m)) ts"
    using no_bytes_by_mono by (auto simp: list_all_iff intro: max.cobounded1 max.cobounded2)
  then show ?case by auto
qed simp

lemma no_bytes_height: "no_bytes env t \<Longrightarrow> \<exists>n. no_bytes_by env n t"
proof (induction rule: no_bytes.induct)
  case (named_type w t)
  then obtain n where "no_bytes_by env n t" by auto
  then show ?case using named_type(1) by (intro exI [of _ "Suc n"]) simp
next
  case (struct_type ts)
  then obtain n where "list_all (no_bytes_by env n) ts" using no_bytes_by_all by blast
  then show ?case by (intro exI [of _ "Suc n"]) simp
next
  case (packed_type ts)
  then obtain n where "list_all (no_bytes_by env n) ts" using no_bytes_by_all by blast
  then show ?case by (intro exI [of _ "Suc n"]) simp
next
  case (empty_array t)
  show ?case by (intro exI [of _ "Suc 0"]) simp
next
  case (array_type t n)
  then obtain m where "no_bytes_by env m t" by auto
  then show ?case by (intro exI [of _ "Suc m"]) simp
qed

section \<open>Text and tree agree\<close>

text \<open>A stretch of text that the scan passes at a depth without cutting.\<close>

definition passes_at :: "int \<Rightarrow> ustr \<Rightarrow> bool" where
  "passes_at d w \<longleftrightarrow> (\<forall>cur rest. split_top_from d cur (w @ rest) = split_top_from d (cur @ w) rest)"

lemma passes_append: "passes_at d v \<Longrightarrow> passes_at d w \<Longrightarrow> passes_at d (v @ w)"
  by (simp add: passes_at_def)

lemma passes_chars: "list_all (\<lambda>c. c \<notin> {44, 40, 41, 60, 62, 91, 93, 123, 125}) w \<Longrightarrow> passes_at d w"
  by (induction w) (simp_all add: passes_at_def Let_def)

lemma passes_comma: "0 < d \<Longrightarrow> passes_at d [44, 32]"
  by (simp add: passes_at_def Let_def)

lemma passes_bracket:
  assumes "passes_at (d + 1) w" and "c \<in> {123, 91, 60}" and "c' \<in> {125, 93, 62}"
  shows "passes_at d ([c] @ w @ [c'])"
proof -
  have "split_top_from d cur (c # w @ c' # rest) = split_top_from d (cur @ [c] @ w @ [c']) rest" for cur rest
  proof -
    have "split_top_from d cur (c # w @ c' # rest) = split_top_from (d + 1) (cur @ [c]) (w @ c' # rest)"
      using assms(2) by (auto simp: Let_def)
    also have "\<dots> = split_top_from (d + 1) (cur @ [c] @ w) (c' # rest)" using assms(1) by (simp add: passes_at_def)
    also have "\<dots> = split_top_from d (cur @ [c] @ w @ [c']) rest" using assms(3) by (auto simp: Let_def)
    finally show ?thesis .
  qed
  then show ?thesis by (simp add: passes_at_def)
qed

lemma passes_join: "0 < d \<Longrightarrow> (\<And>w. w \<in> set ws \<Longrightarrow> passes_at d w) \<Longrightarrow> passes_at d (join [44, 32] ws)"
proof (induction ws)
  case Nil
  show ?case by (simp add: passes_at_def)
next
  case (Cons w ws)
  have w: "passes_at d w" and ws: "passes_at d (join [44, 32] ws)" using Cons by auto
  show ?case
  proof (cases "ws = []")
    case False
    then show ?thesis unfolding join_Cons [OF False] by (intro passes_append w ws passes_comma Cons.prems)
  qed (use w in simp)
qed

lemma passes_listed:
  assumes "0 < d" and "\<And>w. w \<in> set ws \<Longrightarrow> passes_at d w"
  shows "passes_at d (listed ws)"
proof (cases "ws = []")
  case False
  have "passes_at d [32]" by (rule passes_chars) simp
  with passes_join [OF assms] have "passes_at d ([32] @ join [44, 32] ws @ [32])" by (intro passes_append)
  then show ?thesis using False by (simp add: listed_def)
qed (simp add: listed_def passes_at_def)

lemma digits_plain: "list_all (\<lambda>c. 48 \<le> c \<and> c \<le> 57) (str_of (show_nat n))"
  using show_nat_digits [of n] by (auto simp: list_all_iff str_of_def digit_char_def of_char_digit dest!: bspec)

lemma passes_digits: "passes_at d (str_of (show_nat n))"
  using digits_plain [of n] by (intro passes_chars) (auto simp: list_all_iff)

lemma passes_written: "plain_type t \<Longrightarrow> 0 \<le> d \<Longrightarrow> passes_at d (written t)"
proof (induction t arbitrary: d)
  case (Word w)
  then show ?case by (intro passes_chars) (auto simp: plain_word_def ll_char_def list_all_iff)
next
  case (Struct ts)
  have "passes_at (d + 1) (listed (map written ts))"
    using Struct by (intro passes_listed) (auto simp: list_all_iff)
  then show ?case unfolding written.simps by (rule passes_bracket) simp_all
next
  case (Packed ts)
  have "passes_at (d + 1 + 1) (listed (map written ts))"
    using Packed by (intro passes_listed) (auto simp: list_all_iff)
  then have "passes_at (d + 1) ([123] @ listed (map written ts) @ [125])"
    by (rule passes_bracket) simp_all
  then have "passes_at d ([60] @ ([123] @ listed (map written ts) @ [125]) @ [62])"
    by (rule passes_bracket) simp_all
  then show ?case by (simp only: written.simps append_assoc append.simps)
next
  case (Arr n t)
  have "passes_at (d + 1) (str_of (show_nat n) @ [32, 120, 32] @ written t)"
    using Arr by (intro passes_append passes_digits Arr.IH passes_chars) auto
  then have "passes_at d ([91] @ (str_of (show_nat n) @ [32, 120, 32] @ written t) @ [93])"
    by (rule passes_bracket) simp_all
  then show ?case by (simp only: written.simps append_assoc)
next
  case (Vec n t)
  have "passes_at (d + 1) (str_of (show_nat n) @ [32, 120, 32] @ written t)"
    using Vec by (intro passes_append passes_digits Vec.IH passes_chars) auto
  then have "passes_at d ([60] @ (str_of (show_nat n) @ [32, 120, 32] @ written t) @ [62])"
    by (rule passes_bracket) simp_all
  then show ?case by (simp only: written.simps append_assoc)
qed

lemma u_strip_same: "w \<noteq> [] \<Longrightarrow> \<not> u_space (hd w) \<Longrightarrow> \<not> u_space (last w) \<Longrightarrow> u_strip w = w"
proof -
  assume w: "w \<noteq> []" "\<not> u_space (hd w)" "\<not> u_space (last w)"
  have "dropWhile u_space w = w" using w by (cases w) auto
  moreover have "dropWhile u_space (rev w) = rev w" using w by (cases w rule: rev_cases) auto
  ultimately show ?thesis by (simp add: u_strip_def)
qed

lemma u_strip_blanks: "u_strip (32 # w) = u_strip w" "u_strip [] = []"
  by (simp_all add: u_strip_def)

definition trim_word :: "ustr \<Rightarrow> bool" where
  "trim_word w \<longleftrightarrow> w \<noteq> [] \<and> \<not> u_space (hd w) \<and> \<not> u_space (last w)"

lemma trim_strip: "trim_word w \<Longrightarrow> u_strip w = w"
  by (simp add: trim_word_def u_strip_same)

lemma u_strip_wrapped: "trim_word w \<Longrightarrow> u_strip (32 # w @ [32]) = w"
proof -
  assume w: "trim_word w"
  then have "dropWhile u_space (w @ [32]) = w @ [32]" by (cases w) (auto simp: trim_word_def)
  moreover have "dropWhile u_space (rev w) = rev w" using w by (cases w rule: rev_cases) (auto simp: trim_word_def)
  ultimately show ?thesis by (simp add: u_strip_def)
qed

lemma trim_written: "plain_type t \<Longrightarrow> trim_word (written t)"
proof (cases t)
  case (Word w)
  assume "plain_type t"
  then have w: "w \<noteq> []" "list_all (\<lambda>c. \<not> u_space c) w"
    using Word by (auto simp: plain_word_def ll_char_def list_all_iff)
  then have "\<not> u_space (hd w)" "\<not> u_space (last w)" by (auto simp: list_all_iff)
  then show ?thesis using w Word by (simp add: trim_word_def)
qed (simp_all add: trim_word_def u_space_def)

lemma set_join: "set (join sep ws) \<subseteq> set sep \<union> \<Union> (set ` set ws)"
  by (induction sep ws rule: join.induct) auto

lemma set_listed: "set (listed ws) \<subseteq> {32, 44} \<union> \<Union> (set ` set ws)"
  using set_join [of "[44, 32]" ws] by (auto simp: listed_def)

lemma written_one_line: "plain_type t \<Longrightarrow> 10 \<notin> set (written t)"
proof (induction t)
  case (Word w)
  have "\<not> ll_char 10" by (simp add: ll_char_def)
  then show ?case using Word by (metis list_all_iff plain_type.simps(1) plain_word_def written.simps(1))
next
  case (Struct ts)
  then show ?case using set_listed [of "map written ts"] by (fastforce simp: list_all_iff)
next
  case (Packed ts)
  then show ?case using set_listed [of "map written ts"] by (fastforce simp: list_all_iff)
next
  case (Arr n t)
  then show ?case using digits_plain [of n] by (auto simp: list_all_iff)
next
  case (Vec n t)
  then show ?case using digits_plain [of n] by (auto simp: list_all_iff)
qed

lemma split_pieces:
  assumes "\<And>w. w \<in> set ws \<Longrightarrow> passes_at 0 w \<and> trim_word w" and "ws \<noteq> []" and "cur = [] \<or> cur = [32]"
  shows "split_top_from 0 cur (join [44, 32] ws) = ws"
  using assms
proof (induction ws arbitrary: cur)
  case (Cons w ws)
  have w: "passes_at 0 w" "trim_word w" using Cons.prems(1) by auto
  then have s: "u_strip (cur @ w) = w" using Cons.prems(3) by (auto simp: trim_strip u_strip_blanks)
  have ne: "w \<noteq> []" using w(2) by (simp add: trim_word_def)
  show ?case
  proof (cases "ws = []")
    case True
    have "split_top_from 0 cur (w @ []) = split_top_from 0 (cur @ w) []" using w(1) by (simp only: passes_at_def)
    then show ?thesis using True s ne by simp
  next
    case False
    have "split_top_from 0 cur (w @ [44, 32] @ join [44, 32] ws) =
        split_top_from 0 (cur @ w) ([44, 32] @ join [44, 32] ws)"
      using w(1) by (simp only: passes_at_def)
    also have "\<dots> = w # split_top_from 0 [32] (join [44, 32] ws)" using s by (simp add: Let_def)
    also have "split_top_from 0 [32] (join [44, 32] ws) = ws" using Cons.prems False by (intro Cons.IH) auto
    finally show ?thesis using False by (simp add: join_Cons)
  qed
qed simp

lemma split_listed:
  assumes "\<And>w. w \<in> set ws \<Longrightarrow> passes_at 0 w \<and> trim_word w"
  shows "split_top (u_strip (listed ws)) = ws"
proof (cases "ws = []")
  case True
  then show ?thesis by (simp add: listed_def u_strip_blanks split_top_def)
next
  case False
  have "trim_word (join [44, 32] ws)"
    using assms False
  proof (induction ws)
    case (Cons w ws)
    show ?case
    proof (cases "ws = []")
      case False
      have "trim_word w" "trim_word (join [44, 32] ws)" using Cons False by auto
      then show ?thesis using False by (simp add: join_Cons trim_word_def)
    qed (use Cons in simp)
  qed simp
  then have "u_strip (listed ws) = join [44, 32] ws"
    using False u_strip_wrapped [of "join [44, 32] ws"] by (simp add: listed_def)
  then show ?thesis using assms False split_pieces [of ws "[]"] by (simp add: split_top_def)
qed

lemma split_fields:
  "list_all plain_type ts \<Longrightarrow> split_top (u_strip (listed (map written ts))) = map written ts"
  by (rule split_listed) (auto simp: list_all_iff passes_written trim_written)

lemma zero_digits: "str_of (show_nat n) = [48] \<longleftrightarrow> n = 0"
proof (cases "n < 10")
  case True
  then show ?thesis by (simp add: show_nat.simps [of n] str_of_def of_char_digit)
next
  case False
  then show ?thesis using show_nat_digits [of "n div 10"] by (simp add: show_nat.simps [of n] str_of_def)
qed

lemma array_of_written:
  assumes "plain_type t"
  shows "array_of (written (Arr n t)) = Some (str_of (show_nat n), written t)"
proof -
  let ?d = "str_of (show_nat n)"
  have d: "list_all u_digit ?d" using digits_plain [of n] by (auto simp: list_all_iff u_digit_def)
  have ne: "?d \<noteq> []" using show_nat_digits [of n] by (simp add: str_of_def)
  have "takeWhile u_digit (?d @ 32 # r) = ?d" "dropWhile u_digit (?d @ 32 # r) = 32 # r" for r
    using d by (simp_all add: list_all_iff takeWhile_append dropWhile_append u_digit_def)
  moreover have "written t \<noteq> []" using trim_written [OF assms] by (simp add: trim_word_def)
  moreover have "unwrap (32 # written t @ [93]) = written t" by (simp add: unwrap_def)
  ultimately show ?thesis
    using ne written_one_line [OF assms] by (simp add: array_of_def Let_def starts_with_def ends_with_iff Suc_lessI)
qed

section \<open>The test is right\<close>

text \<open>A module: named types, each with a body. \<open>named_text\<close> is what the code reads of it.\<close>

type_synonym module_types = "(ustr \<times> lty) list"

definition named_text :: "module_types \<Rightarrow> (ustr \<times> ustr) list" where
  "named_text env = map (\<lambda>(w, t). (w, written t)) env"

definition meaning :: "module_types \<Rightarrow> ustr \<Rightarrow> lty option" where
  "meaning env = map_of (rev env)"

definition plain_module :: "module_types \<Rightarrow> bool" where
  "plain_module env \<longleftrightarrow> list_all (\<lambda>(w, t). plain_word w \<and> plain_type t) env"

lemma named_lookup: "map_of (rev (named_text env)) w = map_option written (meaning env w)"
proof -
  have "map_of (map (\<lambda>(w, t). (w, written t)) xs) w = map_option written (map_of xs w)" for xs
    by (induction xs) auto
  then show ?thesis by (simp add: named_text_def meaning_def rev_map)
qed

lemma meaning_plain: "plain_module env \<Longrightarrow> meaning env w = Some t \<Longrightarrow> plain_word w \<and> plain_type t"
  by (auto simp: plain_module_def meaning_def list_all_iff dest!: map_of_SomeD)

lemma bracket_unnamed:
  assumes "plain_module env" and "c \<in> {60, 91, 123}"
  shows "map_of (rev (named_text env)) (c # s) = None"
proof -
  have "\<not> plain_word (c # s)" using assms(2) by (auto simp: plain_word_def ll_char_def)
  then have "meaning env (c # s) = None" using meaning_plain [OF assms(1)] by (cases "meaning env (c # s)") auto
  then show ?thesis by (simp add: named_lookup)
qed

definition zero_text :: "module_types \<Rightarrow> ustr list \<Rightarrow> lty \<Rightarrow> bool" where
  "zero_text env seen t = is_zero (named_text env) seen (written t)"

lemma is_zero_unnamed:
  assumes "map_of (rev named) (u_strip w) = None"
  shows "is_zero named seen w =
    (if starts_with [123] (type_body (u_strip w)) \<and> ends_with [125] (type_body (u_strip w))
     then list_all (is_zero named seen) (split_top (u_strip (unwrap (type_body (u_strip w)))))
     else case array_of (type_body (u_strip w)) of
            None \<Rightarrow> False
          | Some (n, e) \<Rightarrow> n = [48] \<or> is_zero named seen e)"
  by (subst is_zero.simps) (simp add: Let_def assms)

lemma is_zero_fields:
  assumes "plain_module env" and "list_all plain_type ts"
    and w: "type_body (u_strip w) = 123 # listed (map written ts) @ [125]"
    and n: "map_of (rev (named_text env)) (u_strip w) = None"
  shows "is_zero (named_text env) seen w = list_all (zero_text env seen) ts"
proof -
  have "is_zero (named_text env) seen w = list_all (is_zero (named_text env) seen) (map written ts)"
    using split_fields [OF assms(2)] by (simp add: is_zero_unnamed [OF n] w unwrap_def starts_with_def ends_with_iff)
  then show ?thesis by (simp add: zero_text_def [abs_def] list.pred_map comp_def)
qed

lemma zero_text_word:
  assumes "plain_module env" and "plain_word w"
  shows "zero_text env seen (Word w) =
    (w \<notin> set seen \<and> (case meaning env w of None \<Rightarrow> False | Some u \<Rightarrow> zero_text env (w # seen) u))"
proof -
  have s: "u_strip w = w" using trim_strip [OF trim_written [of "Word w"]] assms by simp
  obtain c cs where w: "w = c # cs" and c: "ll_char c" using assms(2) by (cases w) (auto simp: plain_word_def)
  then have "c \<notin> {60, 91, 123}" by (auto simp: ll_char_def)
  then have "type_body w = w" "\<not> starts_with [123] w" "array_of w = None"
    using w by (auto simp: type_body_def starts_with_def array_of_def)
  then show ?thesis unfolding zero_text_def
    by (subst is_zero.simps) (auto simp: s named_lookup split: option.splits)
qed

lemma zero_text_struct:
  assumes "plain_module env" and "list_all plain_type ts"
  shows "zero_text env seen (Struct ts) = list_all (zero_text env seen) ts"
    and "zero_text env seen (Packed ts) = list_all (zero_text env seen) ts"
proof -
  have s: "u_strip (written t) = written t" if "t \<in> {Struct ts, Packed ts}" for t
    using that assms(2) by (intro trim_strip trim_written) auto
  have "type_body (written (Struct ts)) = 123 # listed (map written ts) @ [125]"
    by (simp add: type_body_def starts_with_def)
  then show "zero_text env seen (Struct ts) = list_all (zero_text env seen) ts"
    unfolding zero_text_def [of env seen "Struct ts"] using assms s [of "Struct ts"]
    by (intro is_zero_fields) (simp_all add: bracket_unnamed)
  have "type_body (written (Packed ts)) = 123 # listed (map written ts) @ [125]"
    by (simp add: type_body_def starts_with_def ends_with_iff unwrap_def butlast_append)
  then show "zero_text env seen (Packed ts) = list_all (zero_text env seen) ts"
    unfolding zero_text_def [of env seen "Packed ts"] using assms s [of "Packed ts"]
    by (intro is_zero_fields) (simp_all add: bracket_unnamed)
qed

lemma zero_text_array:
  assumes "plain_module env" and "plain_type t"
  shows "zero_text env seen (Arr n t) = (n = 0 \<or> zero_text env seen t)" and "\<not> zero_text env seen (Vec n t)"
proof -
  have s: "u_strip (written u) = written u" if "u \<in> {Arr n t, Vec n t}" for u
    using that assms(2) by (intro trim_strip trim_written) auto
  have "type_body (written (Arr n t)) = written (Arr n t)" "\<not> starts_with [123] (written (Arr n t))"
    by (simp_all add: type_body_def starts_with_def)
  then show "zero_text env seen (Arr n t) = (n = 0 \<or> zero_text env seen t)"
    unfolding zero_text_def using s [of "Arr n t"] array_of_written [OF assms(2), of n] bracket_unnamed [OF assms(1)]
    by (subst is_zero_unnamed) (simp_all add: zero_digits)
  obtain d ds where d: "str_of (show_nat n) = d # ds" "48 \<le> d" "d \<le> 57"
    using digits_plain [of n] show_nat_digits [of n] by (cases "str_of (show_nat n)") (auto simp: str_of_def)
  then have "type_body (written (Vec n t)) = written (Vec n t)" "\<not> starts_with [123] (written (Vec n t))"
    "array_of (written (Vec n t)) = None"
    by (auto simp: type_body_def starts_with_def array_of_def)
  then show "\<not> zero_text env seen (Vec n t)"
    unfolding zero_text_def using s [of "Vec n t"] bracket_unnamed [OF assms(1)]
    by (subst is_zero_unnamed) simp_all
qed

lemma zero_text_sound:
  assumes env: "plain_module env"
  shows "plain_type t \<Longrightarrow> zero_text env seen t \<Longrightarrow> no_bytes (meaning env) t"
proof (induction "(card (fst ` set env - set seen), size t)" arbitrary: seen t
    rule: wf_induct_rule [OF wf_lex_prod [OF wf_less wf_less]])
  case 1
  have fields: "no_bytes (meaning env) u"
    if "list_all plain_type ts" "list_all (zero_text env seen) ts" "u \<in> set ts" "size_list size ts < size t" for ts u
  proof -
    have "size u < size t" using that(3,4) size_list_estimation' [of u ts "size u" size] by fastforce
    then show ?thesis using that by (intro 1(1) [of seen u]) (auto simp: list_all_iff)
  qed
  show ?case
  proof (cases t)
    case (Word w)
    with 1(2,3) env obtain u where u: "w \<notin> set seen" "meaning env w = Some u" "zero_text env (w # seen) u"
      by (auto simp: zero_text_word split: option.splits)
    have "w \<in> fst ` set env" using u(2) by (auto simp: meaning_def image_iff dest!: map_of_SomeD) force
    then have "fst ` set env - set (w # seen) \<subset> fst ` set env - set seen" using u(1) by auto
    then have "card (fst ` set env - set (w # seen)) < card (fst ` set env - set seen)" by (simp add: psubset_card_mono)
    then have "no_bytes (meaning env) u"
      using u(3) meaning_plain [OF env u(2)] by (intro 1(1) [of "w # seen" u]) auto
    then show ?thesis using Word u(2) by (auto intro: no_bytes.intros)
  next
    case (Struct ts)
    then show ?thesis using 1(2,3) fields [of ts] env by (auto simp: zero_text_struct intro!: no_bytes.intros)
  next
    case (Packed ts)
    then show ?thesis using 1(2,3) fields [of ts] env by (auto simp: zero_text_struct intro!: no_bytes.intros)
  next
    case (Arr n u)
    then have "n = 0 \<or> zero_text env seen u" using 1(2,3) env by (simp add: zero_text_array)
    moreover have "zero_text env seen u \<Longrightarrow> no_bytes (meaning env) u" using Arr 1(2) by (intro 1(1) [of seen u]) auto
    ultimately show ?thesis using Arr by (auto intro: no_bytes.intros)
  next
    case (Vec n u)
    then show ?thesis using 1(2,3) env by (simp add: zero_text_array)
  qed
qed

text \<open>
  A name being looked at is not looked at again. That loses nothing: a shortest derivation does
  not need a name to show that the same name takes no bytes.
\<close>

lemma zero_text_complete:
  assumes env: "plain_module env"
  shows "plain_type t \<Longrightarrow> no_bytes_by (meaning env) n t \<Longrightarrow> \<forall>w\<in>set seen. \<not> no_bytes_by (meaning env) n (Word w)
    \<Longrightarrow> zero_text env seen t"
proof (induction n arbitrary: t seen rule: less_induct)
  case (less n)
  let ?Z = "no_bytes_by (meaning env)"
  obtain m where n: "n = Suc m" using less.prems(2) by (cases n) auto
  have seen: "\<forall>w\<in>set seen. \<not> ?Z m (Word w)" using less.prems(3) no_bytes_by_Suc n by blast
  have fields: "list_all (zero_text env seen) ts" if "list_all (?Z m) ts" "list_all plain_type ts" for ts
    using that less.IH [of m _ seen] seen n by (auto simp: list_all_iff)
  show ?case
  proof (cases t)
    case (Word w)
    define k where "k = (LEAST k. ?Z k (Word w))"
    have wn: "?Z n (Word w)" using less.prems(2) Word by simp
    have k: "?Z k (Word w)" "k \<le> n" unfolding k_def using wn by (auto intro: LeastI Least_le)
    obtain j where j: "k = Suc j" using k(1) by (cases k) auto
    obtain u where u: "meaning env w = Some u" "?Z j u" using k(1) j by (auto split: option.splits)
    have "\<not> ?Z j (Word w)" using j unfolding k_def by (metis lessI not_less_Least)
    moreover have "\<forall>v\<in>set seen. \<not> ?Z j (Word v)" using less.prems(3) no_bytes_by_mono k(2) j by (meson Suc_leD)
    ultimately have "zero_text env (w # seen) u"
      using u meaning_plain [OF env u(1)] k(2) j by (intro less.IH [of j]) auto
    moreover have "w \<notin> set seen" using wn less.prems(3) by auto
    ultimately show ?thesis using Word u less.prems(1) by (simp add: zero_text_word [OF env])
  next
    case (Struct ts)
    then show ?thesis using less.prems(1,2) fields n by (simp add: zero_text_struct [OF env])
  next
    case (Packed ts)
    then show ?thesis using less.prems(1,2) fields n by (simp add: zero_text_struct [OF env])
  next
    case (Arr i u)
    then show ?thesis using less.prems(1,2) less.IH [of m u seen] seen n by (auto simp: zero_text_array [OF env])
  next
    case (Vec i u)
    then show ?thesis using less.prems(2) n by simp
  qed
qed

lemma zero_text_iff:
  assumes "plain_module env" and "plain_type t"
  shows "is_zero (named_text env) [] (written t) \<longleftrightarrow> no_bytes (meaning env) t"
proof
  assume "is_zero (named_text env) [] (written t)"
  then show "no_bytes (meaning env) t" using zero_text_sound assms by (simp add: zero_text_def)
next
  assume "no_bytes (meaning env) t"
  then obtain n where "no_bytes_by (meaning env) n t" using no_bytes_height by blast
  then show "is_zero (named_text env) [] (written t)"
    using zero_text_complete [OF assms, where seen = "[]"] by (simp add: zero_text_def)
qed

text \<open>
  C38. What the check takes for a type of size 0 is one: over the text of any module's types, the
  test holds exactly of the types that take no bytes.
\<close>

theorem zero_text_exact:
  assumes "plain_module env" and "plain_type t"
  shows "is_zero (named_text env) [] (written t) \<longleftrightarrow> no_bytes (meaning env) t"
  using assms by (rule zero_text_iff)

text \<open>\<open>%T = type \{ \{\}, [0 x i64] \}\<close>.\<close>

theorem zero_text_exact_witness:
  "is_zero (named_text [([37, 84], Struct [Struct [], Arr 0 (Word [105])])]) [] [37, 84]"
proof -
  let ?env = "[([37, 84], Struct [Struct [], Arr 0 (Word [105])])]"
  have "plain_module ?env" by (simp add: plain_module_def plain_word_def ll_char_def u_space_def)
  moreover have "plain_type (Word [37, 84])" by (simp add: plain_word_def ll_char_def u_space_def)
  moreover have "no_bytes (meaning ?env) (Word [37, 84])"
    by (rule named_type) (auto simp: meaning_def intro!: no_bytes.intros)
  ultimately show ?thesis using zero_text_exact [of ?env "Word [37, 84]"] by simp
qed

end
