(* ===== verification/Zero_Alloca.thy ===== *)
theory Zero_Alloca
  imports Llvm_Types
begin

text \<open>
  scripts/zero\_alloca\_check.py: no stack buffer of zero bytes is handed to anything that could
  write it. The program is the text of its IR; \<open>alnum\<close> says which characters outside ASCII are
  word characters of a regular expression.
\<close>

section \<open>Reading the IR\<close>

definition name_char :: "(nat \<Rightarrow> bool) \<Rightarrow> nat \<Rightarrow> bool" where
  "name_char alnum c \<longleftrightarrow> u_word alnum c \<or> c = 46"

definition type_line :: "(nat \<Rightarrow> bool) \<Rightarrow> ustr \<Rightarrow> (ustr \<times> ustr) option" where
  "type_line alnum l =
     (let P = (\<lambda>c. name_char alnum c \<or> c = 36 \<or> c = 34); n = takeWhile P (drop 1 l); rest = dropWhile P (drop 1 l)
      in if starts_with [37] l \<and> n \<noteq> [] \<and> starts_with (str_of '' = type '') rest \<and> 8 < length rest
         then Some (37 # n, drop 8 rest) else None)"

definition named_types :: "(nat \<Rightarrow> bool) \<Rightarrow> ustr \<Rightarrow> (ustr \<times> ustr) list" where
  "named_types alnum ir = List.map_filter (type_line alnum) (split_on 10 ir)"

record ll_function =
  lf_symbol :: ustr
  lf_lines :: "ustr list"

text \<open>What follows an opening quote, to the closing one, a backslash taking the next character along.\<close>

fun quoted :: "ustr \<Rightarrow> (ustr \<times> ustr) option" where
  "quoted [] = None"
| "quoted (c # cs) =
     (if c = 34 then Some ([34], cs)
      else if c = 92
      then (case cs of
              [] \<Rightarrow> None
            | d # ds \<Rightarrow> if d = 10 then None else map_option (apfst (\<lambda>w. c # d # w)) (quoted ds))
      else map_option (apfst (\<lambda>w. c # w)) (quoted cs))"

definition symbol_after :: "(nat \<Rightarrow> bool) \<Rightarrow> ustr \<Rightarrow> ustr option" where
  "symbol_after alnum s =
     (if starts_with [34] s
      then (case quoted (drop 1 s) of
              None \<Rightarrow> None
            | Some (w, rest) \<Rightarrow> if starts_with [40] rest then Some (34 # w) else None)
      else let P = (\<lambda>c. name_char alnum c \<or> c = 36) in
        if takeWhile P s \<noteq> [] \<and> starts_with [40] (dropWhile P s) then Some (takeWhile P s) else None)"

fun first_symbol :: "(nat \<Rightarrow> bool) \<Rightarrow> ustr \<Rightarrow> ustr option" where
  "first_symbol alnum [] = None"
| "first_symbol alnum (c # cs) =
     (case (if c = 64 then symbol_after alnum cs else None) of
        Some w \<Rightarrow> Some w
      | None \<Rightarrow> first_symbol alnum cs)"

definition strip_quotes :: "ustr \<Rightarrow> ustr" where
  "strip_quotes w = rev (dropWhile (\<lambda>c. c = 34) (rev (dropWhile (\<lambda>c. c = 34) w)))"

definition define_symbol :: "(nat \<Rightarrow> bool) \<Rightarrow> ustr \<Rightarrow> ustr" where
  "define_symbol alnum l = (case first_symbol alnum l of None \<Rightarrow> [63] | Some w \<Rightarrow> strip_quotes w)"

fun functions_from :: "(nat \<Rightarrow> bool) \<Rightarrow> ll_function option \<Rightarrow> ustr list \<Rightarrow> ll_function list" where
  "functions_from alnum cur [] = []"
| "functions_from alnum None (l # ls) =
     functions_from alnum
       (if starts_with (str_of ''define '') l then Some \<lparr>lf_symbol = define_symbol alnum l, lf_lines = []\<rparr> else None) ls"
| "functions_from alnum (Some f) (l # ls) =
     (if l = [125] then f # functions_from alnum None ls
      else functions_from alnum (Some (f\<lparr>lf_lines := lf_lines f @ [l]\<rparr>)) ls)"

definition ll_functions :: "(nat \<Rightarrow> bool) \<Rightarrow> ustr \<Rightarrow> ll_function list" where
  "ll_functions alnum ir = functions_from alnum None (splitlines ir)"

section \<open>Uses\<close>

definition assigned :: "(nat \<Rightarrow> bool) \<Rightarrow> string \<Rightarrow> ustr \<Rightarrow> (ustr \<times> ustr) option" where
  "assigned alnum op s =
     (let n = takeWhile (name_char alnum) (drop 1 s); rest = dropWhile (name_char alnum) (drop 1 s);
          lead = str_of ('' = '' @ op @ '' '')
      in if starts_with [37] s \<and> n \<noteq> [] \<and> starts_with lead rest then Some (37 # n, drop (length lead) rest) else None)"

definition alloca_of :: "(nat \<Rightarrow> bool) \<Rightarrow> ustr \<Rightarrow> (ustr \<times> ustr) option" where
  "alloca_of alnum l = assigned alnum ''alloca'' (dropWhile u_space l)"

definition ptr_to :: "ustr \<Rightarrow> ustr" where
  "ptr_to name = str_of ''ptr '' @ name"

text \<open>\<open>rsplit\<close> at the last blank.\<close>

definition rsplit_blank :: "ustr \<Rightarrow> (ustr \<times> ustr) option" where
  "rsplit_blank s =
     (let r = rev s in
      if 32 \<in> set s then Some (rev (drop 1 (dropWhile (\<lambda>c. c \<noteq> 32) r)), rev (takeWhile (\<lambda>c. c \<noteq> 32) r)) else None)"

text \<open>The arguments of a call of an \<open>llvm.mem\<close> intrinsic, up to the last parenthesis.\<close>

definition mem_at :: "(nat \<Rightarrow> bool) \<Rightarrow> ustr \<Rightarrow> ustr option" where
  "mem_at alnum s =
     (case map (\<lambda>k. drop (9 + length k) s)
         (filter (\<lambda>k. starts_with (str_of ''@llvm.mem'' @ k) s) [str_of ''cpy'', str_of ''move'', str_of ''set'']) of
        [] \<Rightarrow> None
      | u # _ \<Rightarrow>
          (let r = dropWhile (name_char alnum) u; inside = drop 1 r
           in if starts_with [40] r \<and> 41 \<in> set inside then Some (rev (drop 1 (dropWhile (\<lambda>c. c \<noteq> 41) (rev inside)))) else None))"

fun mem_args :: "(nat \<Rightarrow> bool) \<Rightarrow> ustr \<Rightarrow> ustr option" where
  "mem_args alnum [] = None"
| "mem_args alnum (c # cs) =
     (case mem_at alnum (c # cs) of Some a \<Rightarrow> Some a | None \<Rightarrow> mem_args alnum cs)"

definition store_harmless :: "(ustr \<times> ustr) list \<Rightarrow> ustr \<Rightarrow> ustr list \<Rightarrow> bool" where
  "store_harmless named name parts \<longleftrightarrow>
     2 \<le> length parts \<and> parts ! 1 = ptr_to name \<and>
     (case rsplit_blank (parts ! 0) of None \<Rightarrow> False | Some (ty, v) \<Rightarrow> v \<noteq> name \<and> is_zero named [] ty)"

definition harmless :: "(nat \<Rightarrow> bool) \<Rightarrow> (ustr \<times> ustr) list \<Rightarrow> ustr \<Rightarrow> ustr \<Rightarrow> bool" where
  "harmless alnum named name line =
     (let s = u_strip line in
      if contains (str_of ''@llvm.lifetime.'') s then True
      else case assigned alnum ''load'' s of
             Some (_, r) \<Rightarrow>
               let parts = split_top r in 2 \<le> length parts \<and> is_zero named [] (parts ! 0) \<and> parts ! 1 = ptr_to name
           | None \<Rightarrow>
               if starts_with (str_of ''store '') s then store_harmless named name (split_top (drop 6 s))
               else case mem_args alnum s of
                      None \<Rightarrow> False
                    | Some a \<Rightarrow>
                        let args = split_top a in
                        3 \<le> length args \<and> (args ! 2 = str_of ''i64 0'' \<or> args ! 2 = str_of ''i32 0''))"

fun mentions :: "(nat \<Rightarrow> bool) \<Rightarrow> ustr \<Rightarrow> ustr \<Rightarrow> bool" where
  "mentions alnum name [] = False"
| "mentions alnum name (c # cs) =
     (starts_with name (c # cs) \<and> (case drop (length name) (c # cs) of [] \<Rightarrow> True | d # _ \<Rightarrow> \<not> name_char alnum d)
      \<or> mentions alnum name cs)"

section \<open>Findings\<close>

text \<open>\<open>i\d+ \S+\<close>: how many values an \<open>alloca\<close> asks for, 1 when it does not say.\<close>

definition count_value :: "ustr \<Rightarrow> ustr option" where
  "count_value p =
     (let n = takeWhile u_digit (drop 1 p); rest = dropWhile u_digit (drop 1 p)
      in if starts_with [105] p \<and> n \<noteq> [] \<and> starts_with [32] rest \<and> 1 < length rest \<and> list_all (\<lambda>c. \<not> u_space c) (drop 1 rest)
         then Some (drop 1 rest) else None)"

definition alloca_count :: "ustr list \<Rightarrow> ustr" where
  "alloca_count parts = (case List.map_filter count_value (drop 1 parts) of [] \<Rightarrow> [49] | w # _ \<Rightarrow> w)"

datatype alloca_why = AsksFor ustr | ReachedBy ustr

record alloca_finding =
  af_symbol :: ustr
  af_line :: ustr
  af_whys :: "alloca_why list"

definition harmful_use :: "(nat \<Rightarrow> bool) \<Rightarrow> (ustr \<times> ustr) list \<Rightarrow> ustr \<Rightarrow> ustr list \<Rightarrow> nat \<Rightarrow> ustr option" where
  "harmful_use alnum named name ls i =
     map_option snd (find (\<lambda>(j, u). j \<noteq> i \<and> mentions alnum name u \<and> \<not> harmless alnum named name u) (List.enumerate 0 ls))"

definition alloca_whys :: "(nat \<Rightarrow> bool) \<Rightarrow> (ustr \<times> ustr) list \<Rightarrow> ustr list \<Rightarrow> nat \<Rightarrow> alloca_why list" where
  "alloca_whys alnum named ls i =
     (case alloca_of alnum (ls ! i) of
        None \<Rightarrow> []
      | Some (name, r) \<Rightarrow>
          (let parts = split_top r in
           if parts = [] \<or> \<not> is_zero named [] (hd parts) then []
           else (if alloca_count parts = [49] then [] else [AsksFor (alloca_count parts)])
             @ (case harmful_use alnum named name ls i of None \<Rightarrow> [] | Some u \<Rightarrow> [ReachedBy u])))"

definition findings_in :: "(nat \<Rightarrow> bool) \<Rightarrow> (ustr \<times> ustr) list \<Rightarrow> ll_function \<Rightarrow> alloca_finding list" where
  "findings_in alnum named f =
     map (\<lambda>i. \<lparr>af_symbol = lf_symbol f, af_line = lf_lines f ! i, af_whys = alloca_whys alnum named (lf_lines f) i\<rparr>)
       (filter (\<lambda>i. alloca_whys alnum named (lf_lines f) i \<noteq> []) [0..<length (lf_lines f)])"

definition alloca_findings :: "(nat \<Rightarrow> bool) \<Rightarrow> ustr \<Rightarrow> alloca_finding list" where
  "alloca_findings alnum ir = concat (map (findings_in alnum (named_types alnum ir)) (ll_functions alnum ir))"

section \<open>The judgement\<close>

definition BARE :: ustr where "BARE = str_of ''zero_alloca_probe_bare''"

definition is_inet_pton :: "ustr \<Rightarrow> bool" where
  "is_inet_pton symbol \<longleftrightarrow> contains (str_of ''::c::network::inet_pton['') symbol"

datatype alloca_problem =
    BareGone
  | BareAccepted
  | ProbeBuffer alloca_finding
  | Instances nat
  | ProgramBuffer alloca_finding
  | NoListenPath

definition judge_allocas :: "(nat \<Rightarrow> bool) \<Rightarrow> ustr \<Rightarrow> ustr \<Rightarrow> alloca_problem list" where
  "judge_allocas alnum program probe =
     (let probe_found = alloca_findings alnum probe; probe_symbols = map lf_symbol (ll_functions alnum probe);
          instances = length (remdups (filter is_inet_pton probe_symbols))
      in (if BARE \<notin> set probe_symbols then [BareGone]
          else if filter (\<lambda>f. af_symbol f = BARE) probe_found = [] then [BareAccepted] else [])
         @ map ProbeBuffer (filter (\<lambda>f. af_symbol f \<noteq> BARE) probe_found)
         @ (if instances < 2 then [Instances instances] else [])
         @ map ProgramBuffer (alloca_findings alnum program)
         @ (if list_ex (is_inet_pton \<circ> lf_symbol) (ll_functions alnum program) then [] else [NoListenPath]))"

definition alloca_exit :: "alloca_problem list \<Rightarrow> nat" where
  "alloca_exit problems = (if problems = [] then 0 else 1)"

section \<open>What a pass means\<close>

text \<open>A slot of no bytes: one of it is asked for, and no other line can read or write through it.\<close>

definition slot_is_idle :: "(nat \<Rightarrow> bool) \<Rightarrow> (ustr \<times> ustr) list \<Rightarrow> ustr list \<Rightarrow> nat \<Rightarrow> bool" where
  "slot_is_idle alnum named ls i \<longleftrightarrow>
     (case alloca_of alnum (ls ! i) of
        None \<Rightarrow> True
      | Some (name, r) \<Rightarrow>
          alloca_count (split_top r) = [49] \<and>
          (\<forall>j<length ls. j \<noteq> i \<longrightarrow> mentions alnum name (ls ! j) \<longrightarrow> harmless alnum named name (ls ! j)))"

lemma harmful_use_none:
  "harmful_use alnum named name ls i = None \<longleftrightarrow>
    (\<forall>j<length ls. j \<noteq> i \<longrightarrow> mentions alnum name (ls ! j) \<longrightarrow> harmless alnum named name (ls ! j))"
  by (auto simp: harmful_use_def find_None_iff in_set_enumerate_eq)

lemma alloca_findings_Nil:
  "alloca_findings alnum ir = [] \<longleftrightarrow>
    (\<forall>f\<in>set (ll_functions alnum ir). \<forall>i<length (lf_lines f). alloca_whys alnum (named_types alnum ir) (lf_lines f) i = [])"
  by (auto simp: alloca_findings_def findings_in_def filter_empty_conv)

lemma judge_allocas_Nil:
  assumes "alloca_exit (judge_allocas alnum program probe) = 0"
  shows "alloca_findings alnum program = []"
    and "\<exists>f\<in>set (alloca_findings alnum probe). af_symbol f = BARE"
    and "\<exists>f\<in>set (ll_functions alnum program). is_inet_pton (lf_symbol f)"
  using assms by (auto simp: judge_allocas_def alloca_exit_def Let_def list_ex_iff filter_empty_conv neq_Nil_conv split: if_splits)

text \<open>
  A pass of the check: wherever the program reserves stack for a type that takes no bytes, it
  asks for one, and nothing else in the function can read or write a byte through the address.
\<close>

lemma passed_slots_are_idle:
  assumes "alloca_exit (judge_allocas alnum program probe) = 0"
    and "named_types alnum program = named_text env" and "plain_module env"
    and "f \<in> set (ll_functions alnum program)" and "i < length (lf_lines f)"
    and "alloca_of alnum (lf_lines f ! i) = Some (name, r)" and "split_top r = written t # rest"
    and "plain_type t" and "no_bytes (meaning env) t"
  shows "slot_is_idle alnum (named_types alnum program) (lf_lines f) i"
proof -
  have "is_zero (named_text env) [] (written t)" using assms(3,8,9) by (simp add: zero_text_iff)
  moreover have "alloca_whys alnum (named_types alnum program) (lf_lines f) i = []"
    using judge_allocas_Nil(1) [OF assms(1)] assms(4,5) by (simp add: alloca_findings_Nil)
  ultimately show ?thesis
    using assms(2,6,7) harmful_use_none [of alnum "named_text env" name "lf_lines f" i]
    by (auto simp: alloca_whys_def slot_is_idle_def Let_def split: if_splits option.splits)
qed

end
