(* ===== verification/Copyback.thy ===== *)
theory Copyback
  imports Llvm_Types
begin

text \<open>
  scripts/copyback\_guard.py: no listed type is passed by value. The text of two programs is
  judged; \<open>alnum\<close> says which characters outside ASCII are word characters. A set of layouts is the
  list of them in the order found.
\<close>

section \<open>Definitions and their parameters\<close>

text \<open>\<open>_split_top\<close> of scripts/probes/mut\_copyback\_matrix.py, which keeps a blank tail.\<close>

fun parts_from :: "int \<Rightarrow> ustr \<Rightarrow> ustr \<Rightarrow> ustr list" where
  "parts_from d cur [] = (if cur = [] then [] else [u_strip cur])"
| "parts_from d cur (c # cs) =
     (let d' = d + (if c \<in> {40, 91, 123, 60} then 1 else 0) - (if c \<in> {41, 93, 125, 62} then 1 else 0)
      in if c = 44 \<and> d' = 0 then u_strip cur # parts_from d' [] cs else parts_from d' (cur @ [c]) cs)"

definition parts :: "ustr \<Rightarrow> ustr list" where
  "parts s = parts_from 0 [] s"

text \<open>\<open>_bracketed\<close>: what follows an opening parenthesis, to the one that closes it.\<close>

fun bracketed :: "int \<Rightarrow> ustr \<Rightarrow> ustr" where
  "bracketed d [] = []"
| "bracketed d (c # cs) =
     (let d' = d + (if c = 40 then 1 else 0) - (if c = 41 then 1 else 0)
      in if d' = 0 then [] else c # bracketed d' cs)"

record ll_define =
  de_symbol :: ustr
  de_returned :: ustr
  de_params :: "ustr list"

text \<open>A quoted symbol before a parenthesis: what precedes it, the symbol, what follows the parenthesis.\<close>

fun quoted_symbol :: "ustr \<Rightarrow> (ustr \<times> ustr \<times> ustr) option" where
  "quoted_symbol [] = None"
| "quoted_symbol (c # cs) =
     (let n = takeWhile (\<lambda>x. x \<noteq> 34) (drop 1 cs); rest = dropWhile (\<lambda>x. x \<noteq> 34) (drop 1 cs)
      in if c = 64 \<and> starts_with [34] cs \<and> n \<noteq> [] \<and> starts_with [34, 40] rest then Some ([], n, drop 2 rest)
         else map_option (\<lambda>(a, b). (c # a, b)) (quoted_symbol cs))"

definition define_of :: "ustr \<Rightarrow> ll_define option" where
  "define_of l =
     (if starts_with (str_of ''define '') l
      then map_option (\<lambda>(a, n, b). \<lparr>de_symbol = n, de_returned = u_strip (drop 7 a), de_params = parts (bracketed 1 b)\<rparr>)
             (quoted_symbol l)
      else None)"

definition ll_defines :: "ustr \<Rightarrow> ll_define list" where
  "ll_defines ir = List.map_filter define_of (splitlines ir)"

definition aggregate :: "ustr \<Rightarrow> ustr option" where
  "aggregate p = (if starts_with [123] p then map_option (\<lambda>(a, _). a @ [125]) (cut_at (str_of ''} noundef'') p) else None)"

fun names_type :: "(nat \<Rightarrow> bool) \<Rightarrow> ustr \<Rightarrow> nat option \<Rightarrow> ustr \<Rightarrow> bool" where
  "names_type alnum name prior [] = (name = [] \<and> (case prior of None \<Rightarrow> True | Some b \<Rightarrow> \<not> u_word alnum b))"
| "names_type alnum name prior (c # cs) =
     (starts_with name (c # cs) \<and> (case prior of None \<Rightarrow> True | Some b \<Rightarrow> \<not> u_word alnum b) \<and>
        (case drop (length name) (c # cs) of [] \<Rightarrow> True | x # _ \<Rightarrow> \<not> u_word alnum x)
      \<or> names_type alnum name (Some c) cs)"

section \<open>Layouts and copies\<close>

definition ctor_layout :: "ll_define \<Rightarrow> ustr option" where
  "ctor_layout d =
     (let ret = u_strip (dropWhile (\<lambda>c. c \<noteq> 123) (de_returned d)); ps = parts (u_strip (unwrap ret))
      in if 123 \<notin> set (de_returned d) then None
         else if length ps = 2 \<and> ps ! 0 = str_of ''i1'' \<and> starts_with [123] (ps ! 1) then Some (ps ! 1)
         else Some ret)"

definition layouts :: "ll_define list \<Rightarrow> ustr \<Rightarrow> ustr list" where
  "layouts defs name =
     remdups (List.map_filter ctor_layout
       (filter (\<lambda>d. contains (str_of ''::'' @ name @ str_of ''::__init__('') (de_symbol d)) defs))"

definition SIZES :: "(ustr \<times> nat \<times> nat) list" where
  "SIZES = map (\<lambda>(n, s). (str_of n, s, s))
     [(''i1'', 1), (''i8'', 1), (''i16'', 2), (''i32'', 4), (''i64'', 8), (''ptr'', 8), (''float'', 4),
      (''double'', 8), (''i128'', 16)]"

datatype size_error = NoSize | DividedByZero

definition round_up :: "nat \<Rightarrow> nat \<Rightarrow> nat" where
  "round_up n a = (n + a - 1) div a * a"

fun lay_fields :: "nat \<Rightarrow> nat \<Rightarrow> (size_error + nat \<times> nat) list \<Rightarrow> size_error + nat \<times> nat" where
  "lay_fields n align [] = Inr (round_up n align, align)"
| "lay_fields n align (Inl e # fs) = Inl e"
| "lay_fields n align (Inr (s, a) # fs) =
     (if a = 0 then Inl DividedByZero else lay_fields (round_up n a + s) (max align a) fs)"

text \<open>\<open><(\d+) x (.+)>\<close>\<close>

definition vector_of :: "ustr \<Rightarrow> (ustr \<times> ustr) option" where
  "vector_of t =
     (let n = takeWhile u_digit (drop 1 t); rest = dropWhile u_digit (drop 1 t); e = unwrap (drop 2 rest)
      in if starts_with [60] t \<and> n \<noteq> [] \<and> starts_with [32, 120, 32] rest \<and> ends_with [62] rest \<and>
            4 < length rest \<and> 10 \<notin> set e
         then Some (n, e) else None)"

lemma parts_from_length: "p \<in> set (parts_from d cur s) \<Longrightarrow> length p \<le> length cur + length s"
proof (induction d cur s rule: parts_from.induct)
  case (1 d cur)
  then show ?case using u_strip_length [of cur] by (auto split: if_splits)
next
  case (2 d cur c cs)
  then show ?case using u_strip_length [of cur] by (fastforce simp: Let_def split: if_splits)
qed

lemma vector_of_shorter: "vector_of t = Some (n, e) \<Longrightarrow> length e < length t"
proof -
  assume a: "vector_of t = Some (n, e)"
  have "length (dropWhile u_digit (drop 1 t)) \<le> length t" using length_dropWhile_le [of u_digit "drop 1 t"] by simp
  then show ?thesis using a by (auto simp: vector_of_def unwrap_def Let_def split: if_splits)
qed

function size_align :: "ustr \<Rightarrow> size_error + nat \<times> nat" where
  "size_align t0 =
     (let t = u_strip t0
      in case map_of SIZES t of
           Some sa \<Rightarrow> Inr sa
         | None \<Rightarrow>
             if starts_with [123] t then lay_fields 0 1 (map size_align (parts (u_strip (unwrap t))))
             else case array_of t of
                    Some (n, e) \<Rightarrow>
                      (case size_align e of Inl x \<Rightarrow> Inl x | Inr (s, a) \<Rightarrow> Inr (dec_value n * s, a))
                  | None \<Rightarrow>
                      (case vector_of t of
                         Some (n, e) \<Rightarrow>
                           (case size_align e of
                              Inl x \<Rightarrow> Inl x
                            | Inr (s, a) \<Rightarrow> Inr (dec_value n * s, dec_value n * s))
                       | None \<Rightarrow> Inl NoSize))"
  by pat_completeness auto
termination
proof (relation "measure length", goal_cases)
  case (2 t0 t p)
  have "t \<noteq> []" using 2 by (auto simp: starts_with_def)
  then have "length (unwrap t) < length t" by (simp add: unwrap_def)
  moreover have "length p \<le> length (unwrap t)"
    using parts_from_length 2 u_strip_length [of "unwrap t"] unfolding parts_def by fastforce
  ultimately show ?case using 2(1) u_strip_length [of t0] by simp
next
  case (3 t0 t ne n e)
  then show ?case using vector_of_shorter [of t n e] u_strip_length [of t0] by simp
next
  case (4 t0 t ne n e)
  then show ?case using array_of_shorter [of t n e] u_strip_length [of t0] by simp
qed simp

declare size_align.simps [simp del]

record copy_found =
  cf_symbol :: ustr
  cf_index :: nat
  cf_returned :: bool
  cf_embedded :: bool

definition copy_at :: "(nat \<Rightarrow> bool) \<Rightarrow> ustr \<Rightarrow> ustr list \<Rightarrow> ll_define \<Rightarrow> nat \<Rightarrow> ustr \<Rightarrow> copy_found option" where
  "copy_at alnum name lays d i p =
     (case aggregate p of
        None \<Rightarrow> None
      | Some agg \<Rightarrow>
          let found = (\<lambda>e. Some \<lparr>cf_symbol = de_symbol d, cf_index = i, cf_returned = contains agg (de_returned d), cf_embedded = e\<rparr>)
          in if agg \<in> set lays then (if names_type alnum name None (de_symbol d) then found False else None)
             else if list_ex (\<lambda>lay. contains lay agg) lays then found True else None)"

definition copies :: "(nat \<Rightarrow> bool) \<Rightarrow> ll_define list \<Rightarrow> ustr \<Rightarrow> ustr list \<Rightarrow> copy_found list" where
  "copies alnum defs name lays =
     concat (map (\<lambda>d. List.map_filter (\<lambda>(i, p). copy_at alnum name lays d i p) (enumerate 0 (de_params d))) defs)"

section \<open>The judgement\<close>

definition short_symbol :: "ustr \<Rightarrow> ustr" where
  "short_symbol s = takeWhile (\<lambda>c. c \<noteq> 91) (takeWhile (\<lambda>c. c \<noteq> 40) s)"

text \<open>\<open>rsplit("::", 1)[-1]\<close>\<close>

function after_colons :: "ustr \<Rightarrow> ustr" where
  "after_colons s = (case cut_at [58, 58] s of None \<Rightarrow> s | Some (_, b) \<Rightarrow> after_colons b)"
  by pat_completeness auto
termination
  by (relation "measure length") (auto dest!: cut_at_join)

definition control_shapes :: "ustr \<Rightarrow> (ustr \<times> bool) list" where
  "control_shapes name =
     [(str_of ''flush_like'', False), (str_of ''dispatch_like_'' @ name, False), (str_of ''holder_like_'' @ name, True)]"

datatype cannot_judge =
    NoFunctions
  | NoConstructor ustr
  | Crashed ustr
  | ControlDiffers ustr
  | Blind ustr "ustr list"

definition seen_shapes :: "copy_found list \<Rightarrow> (ustr \<times> bool) list" where
  "seen_shapes cs = map (\<lambda>c. (after_colons (short_symbol (cf_symbol c)), cf_embedded c)) (filter cf_returned cs)"

definition missing_shapes :: "(nat \<Rightarrow> bool) \<Rightarrow> ll_define list \<Rightarrow> ustr \<Rightarrow> ustr list \<Rightarrow> ustr list" where
  "missing_shapes alnum control name lays =
     map fst (filter (\<lambda>s. s \<notin> set (seen_shapes (copies alnum control name lays))) (control_shapes name))"

text \<open>The first layout whose size cannot be computed ends the search; a division by zero is not caught.\<close>

definition size_crashes :: "ustr list \<Rightarrow> bool" where
  "size_crashes lays = (case dropWhile (\<lambda>l. case size_align l of Inl _ \<Rightarrow> False | Inr _ \<Rightarrow> True) lays of [] \<Rightarrow> False | l # _ \<Rightarrow> size_align l = Inl DividedByZero)"

definition judge_type ::
  "(nat \<Rightarrow> bool) \<Rightarrow> ll_define list \<Rightarrow> ll_define list \<Rightarrow> ustr \<Rightarrow> cannot_judge + copy_found list" where
  "judge_type alnum program control name =
     (let lays = layouts program name; control_lays = layouts control name
      in if lays = [] then Inl (NoConstructor name)
         else if size_crashes lays then Inl (Crashed name)
         else if control_lays \<noteq> [] \<and> set control_lays \<noteq> set lays then Inl (ControlDiffers name)
         else (case missing_shapes alnum control name lays of
                 [] \<Rightarrow> Inr (copies alnum program name lays)
               | ms \<Rightarrow> Inl (Blind name ms)))"

fun judge_types ::
  "(nat \<Rightarrow> bool) \<Rightarrow> ll_define list \<Rightarrow> ll_define list \<Rightarrow> ustr list \<Rightarrow> cannot_judge + copy_found list" where
  "judge_types alnum program control [] = Inr []"
| "judge_types alnum program control (n # ns) =
     (case judge_type alnum program control n of
        Inl e \<Rightarrow> Inl e
      | Inr found \<Rightarrow>
          (case judge_types alnum program control ns of Inl e \<Rightarrow> Inl e | Inr others \<Rightarrow> Inr (found @ others)))"

definition SHARED :: "ustr list" where
  "SHARED = [str_of ''ExecutorState'']"

definition judge_copies :: "(nat \<Rightarrow> bool) \<Rightarrow> ustr \<Rightarrow> ustr \<Rightarrow> cannot_judge + copy_found list" where
  "judge_copies alnum program_ir control_ir =
     (let program = ll_defines program_ir; control = ll_defines control_ir
      in if program = [] then Inl NoFunctions else judge_types alnum program control SHARED)"

definition copyback_exit :: "cannot_judge + copy_found list \<Rightarrow> nat" where
  "copyback_exit r = (case r of Inl _ \<Rightarrow> 2 | Inr found \<Rightarrow> if found = [] then 0 else 1)"

section \<open>The size of a type\<close>

text \<open>The two readers of a list of fields agree on text that does not end in a blank.\<close>

lemma u_strip_ends: "w \<noteq> [] \<Longrightarrow> \<not> u_space (last w) \<Longrightarrow> u_strip w \<noteq> []"
proof -
  assume w: "w \<noteq> []" "\<not> u_space (last w)"
  have "\<not> (\<forall>c \<in> set w. u_space c)" using w last_in_set by blast
  then have "dropWhile u_space w \<noteq> []" by simp
  moreover have "last (dropWhile u_space w) = last w" using calculation by (metis append_self_conv2 last_appendR takeWhile_dropWhile_id)
  ultimately have "dropWhile u_space (rev (dropWhile u_space w)) = rev (dropWhile u_space w)"
    using w by (cases "dropWhile u_space w" rule: rev_cases) auto
  then show ?thesis using \<open>dropWhile u_space w \<noteq> []\<close> by (simp add: u_strip_def)
qed

lemma parts_from_split:
  assumes "if s = [] then cur = [] \<or> \<not> u_space (last cur) else \<not> u_space (last s)"
  shows "parts_from d cur s = split_top_from d cur s"
  using assms
proof (induction s arbitrary: d cur)
  case Nil
  then show ?case using u_strip_ends [of cur] by (auto simp: u_strip_def)
next
  case (Cons c cs)
  have bracket: "d + (if c \<in> {40, 91, 123, 60} then 1 else 0) - (if c \<in> {41, 93, 125, 62} then 1 else 0)
      = d + (if c \<in> {123, 91, 60, 40} then 1 else if c \<in> {125, 93, 62, 41} then -1 else 0)" by auto
  have tail: "parts_from e [] cs = split_top_from e [] cs" "parts_from e (cur @ [c]) cs = split_top_from e (cur @ [c]) cs" for e
    by (rule Cons.IH, use Cons.prems in auto)+
  show ?case by (simp only: parts_from.simps split_top_from.simps Let_def bracket tail)
qed

lemma u_strip_last: "u_strip w = [] \<or> \<not> u_space (last (u_strip w))"
proof -
  let ?r = "dropWhile u_space (rev (dropWhile u_space w))"
  have "?r \<noteq> [] \<Longrightarrow> \<not> u_space (hd ?r)" by (rule hd_dropWhile)
  then show ?thesis by (auto simp: u_strip_def last_rev)
qed

lemma parts_split: "parts (u_strip w) = split_top (u_strip w)"
  unfolding parts_def split_top_def by (rule parts_from_split) (use u_strip_last [of w] in auto)

lemma bracket_no_size: "c \<in> {123, 91, 60} \<Longrightarrow> map_of SIZES (c # w) = None"
proof -
  assume c: "c \<in> {123, 91, 60}"
  have "list_all (\<lambda>e. hd (fst e) \<notin> {123, 91, 60}) SIZES" by code_simp
  then have "c # w \<notin> fst ` set SIZES" using c by (force simp: list_all_iff)
  then show ?thesis by (simp add: map_of_eq_None_iff)
qed

lemma size_of_struct:
  assumes "list_all plain_type ts"
  shows "size_align (written (Struct ts)) = lay_fields 0 1 (map (\<lambda>t. size_align (written t)) ts)"
proof -
  have "unwrap (written (Struct ts)) = listed (map written ts)" by (simp add: unwrap_def)
  moreover have "u_strip (written (Struct ts)) = written (Struct ts)"
    using trim_strip [OF trim_written [of "Struct ts"]] assms by simp
  ultimately show ?thesis
    unfolding size_align.simps [of "written (Struct ts)"]
    using bracket_no_size [of 123 "listed (map written ts) @ [125]"] split_fields [OF assms]
    by (simp add: Let_def starts_with_def parts_split comp_def)
qed

text \<open>Fields in order, each at a multiple of its alignment behind the one before.\<close>

fun placed :: "nat \<Rightarrow> (nat \<times> nat) list \<Rightarrow> nat list \<Rightarrow> bool" where
  "placed n [] [] = True"
| "placed n ((s, a) # fs) (x # xs) = (n \<le> x \<and> a dvd x \<and> placed (x + s) fs xs)"
| "placed n fs xs = False"

fun end_of :: "nat \<Rightarrow> (nat \<times> nat) list \<Rightarrow> nat list \<Rightarrow> nat" where
  "end_of n ((s, a) # fs) (x # xs) = end_of (x + s) fs xs"
| "end_of n fs xs = n"

fun compact :: "nat \<Rightarrow> (nat \<times> nat) list \<Rightarrow> nat list" where
  "compact n [] = []"
| "compact n ((s, a) # fs) = round_up n a # compact (round_up n a + s) fs"

lemma round_up_fits: "0 < a \<Longrightarrow> n \<le> round_up n a" "a dvd round_up n a"
proof -
  assume a: "0 < a"
  have "n + a - 1 = (n + a - 1) div a * a + (n + a - 1) mod a" by simp
  moreover have "(n + a - 1) mod a < a" using a by simp
  ultimately show "n \<le> round_up n a" unfolding round_up_def using a by linarith
qed (simp add: round_up_def)

lemma round_up_least: "0 < a \<Longrightarrow> n \<le> x \<Longrightarrow> a dvd x \<Longrightarrow> round_up n a \<le> x"
proof -
  assume a: "0 < a" "n \<le> x" "a dvd x"
  then obtain k where k: "x = a * k" by (auto elim: dvdE)
  have "(n + a - 1) div a \<le> (a * k + (a - 1)) div a" using a k by (intro div_le_mono) simp
  also have "\<dots> = k + (a - 1) div a" by (rule div_mult_self4) (use a in simp)
  also have "\<dots> = k" using a by simp
  finally show ?thesis using k by (simp add: round_up_def mult.commute)
qed

lemma compact_placed: "list_all (\<lambda>f. 0 < snd f) fs \<Longrightarrow> placed n fs (compact n fs)"
  by (induction fs arbitrary: n) (auto simp: round_up_fits)

lemma compact_least:
  "list_all (\<lambda>f. 0 < snd f) fs \<Longrightarrow> m \<le> n \<Longrightarrow> placed n fs xs \<Longrightarrow> end_of m fs (compact m fs) \<le> end_of n fs xs"
proof (induction n fs xs arbitrary: m rule: placed.induct)
  case (2 n s a fs x xs)
  then have "round_up m a + s \<le> x + s" using round_up_least [of a m x] by simp
  then show ?case using 2 by simp
qed auto

lemma lay_fields_compact:
  "list_all (\<lambda>f. 0 < snd f) fs \<Longrightarrow>
     lay_fields n al (map Inr fs) =
       Inr (round_up (end_of n fs (compact n fs)) (foldl max al (map snd fs)), foldl max al (map snd fs))"
  by (induction fs arbitrary: n al) auto

lemma foldl_max_start: "(al :: nat) \<le> foldl max al as"
proof (induction as arbitrary: al)
  case (Cons x as)
  have "al \<le> max al x" by simp
  also have "\<dots> \<le> foldl max (max al x) as" by (rule Cons.IH)
  finally show ?case by simp
qed simp

lemma foldl_max_member: "(x :: nat) \<in> set as \<Longrightarrow> x \<le> foldl max al as"
proof (induction as arbitrary: al)
  case (Cons y as)
  then show ?case using Cons.IH [of "max al y"] foldl_max_start [of "max al y" as] by auto
qed simp

text \<open>
  The size computed from the text of a structure is the smallest one the fields fit in, in order
  and aligned, that is a multiple of the largest alignment.
\<close>

lemma struct_size_is_least:
  assumes "list_all plain_type ts" "map (\<lambda>t. size_align (written t)) ts = map Inr fs"
    and "list_all (\<lambda>f. 0 < snd f) fs" "size_align (written (Struct ts)) = Inr (s, a)"
  shows "(\<exists>xs. placed 0 fs xs \<and> end_of 0 fs xs \<le> s) \<and> a dvd s \<and> (\<forall>f \<in> set fs. snd f \<le> a) \<and>
         (\<forall>xs z. placed 0 fs xs \<longrightarrow> end_of 0 fs xs \<le> z \<longrightarrow> a dvd z \<longrightarrow> s \<le> z)"
proof -
  let ?a = "foldl max 1 (map snd fs)"
  have sa: "s = round_up (end_of 0 fs (compact 0 fs)) ?a" "a = ?a"
    using assms size_of_struct lay_fields_compact by auto
  have pos: "0 < a" using foldl_max_start [of 1 "map snd fs"] sa(2) by simp
  have "end_of 0 fs (compact 0 fs) \<le> s" "a dvd s" using sa pos round_up_fits by auto
  moreover have "\<forall>f \<in> set fs. snd f \<le> a" using sa(2) foldl_max_member by (metis image_eqI list.set_map)
  moreover have "s \<le> z" if "placed 0 fs xs" "end_of 0 fs xs \<le> z" "a dvd z" for xs z
    using sa pos that compact_least [OF assms(3) order_refl that(1)] by (auto intro: round_up_least)
  ultimately show ?thesis using compact_placed [OF assms(3)] by blast
qed

section \<open>A green guard\<close>

lemma copies_Nil:
  "copies alnum defs name lays = [] \<longleftrightarrow>
     (\<forall>d \<in> set defs. \<forall>p \<in> set (de_params d). \<forall>agg. aggregate p = Some agg \<longrightarrow>
        (agg \<in> set lays \<longrightarrow> \<not> names_type alnum name None (de_symbol d)) \<and>
        (agg \<notin> set lays \<longrightarrow> (\<forall>lay \<in> set lays. \<not> contains lay agg)))"
proof -
  have "List.map_filter (\<lambda>(i, p). copy_at alnum name lays d i p) (enumerate k ps) = [] \<longleftrightarrow>
      (\<forall>p \<in> set ps. \<forall>i. copy_at alnum name lays d i p = None)" for d k ps
  proof (induction ps arbitrary: k)
    case (Cons p ps)
    have "copy_at alnum name lays d i p = None \<longleftrightarrow> copy_at alnum name lays d j p = None" for i j
      by (auto simp: copy_at_def Let_def split: option.splits if_splits)
    then show ?case using Cons by (auto simp: map_filter_simps split: option.splits)
  qed (simp add: map_filter_simps)
  moreover have "copy_at alnum name lays d i p = None \<longleftrightarrow>
      (\<forall>agg. aggregate p = Some agg \<longrightarrow> (agg \<in> set lays \<longrightarrow> \<not> names_type alnum name None (de_symbol d)) \<and>
        (agg \<notin> set lays \<longrightarrow> (\<forall>lay \<in> set lays. \<not> contains lay agg)))" for d i p
    by (auto simp: copy_at_def Let_def list_ex_iff split: option.splits)
  ultimately show ?thesis by (simp add: copies_def)
qed

lemma judge_types_Nil:
  "judge_types alnum program control ns = Inr [] \<longleftrightarrow> (\<forall>n \<in> set ns. judge_type alnum program control n = Inr [])"
  by (induction ns) (auto split: sum.splits)

text \<open>
  Exit 0: of every listed type a layout was read in the program, the control's three copies of it
  were seen, and no function of the program takes it by value, whole or inside another argument.
\<close>

lemma green_guard:
  assumes "copyback_exit (judge_copies alnum program_ir control_ir) = 0" "name \<in> set SHARED"
  shows "layouts (ll_defines program_ir) name \<noteq> [] \<and>
         set (control_shapes name)
           \<subseteq> set (seen_shapes (copies alnum (ll_defines control_ir) name (layouts (ll_defines program_ir) name))) \<and>
         copies alnum (ll_defines program_ir) name (layouts (ll_defines program_ir) name) = []"
proof -
  have "judge_types alnum (ll_defines program_ir) (ll_defines control_ir) SHARED = Inr []"
    using assms(1) by (auto simp: copyback_exit_def judge_copies_def Let_def split: sum.splits if_splits)
  then have "judge_type alnum (ll_defines program_ir) (ll_defines control_ir) name = Inr []"
    using assms(2) by (simp add: judge_types_Nil)
  then show ?thesis
    by (auto simp: judge_type_def Let_def missing_shapes_def filter_empty_conv split: if_splits list.splits)
qed

end
