(* ===== verification/Soak.thy ===== *)
theory Soak
  imports Py_Hash Py_Paths "HOL-Library.Product_Lexorder" "HOL-Library.AList"
begin

text \<open>
  scripts/soak.py: what a response is reduced to, how two are compared, a client's cookies, and the
  verdict on a run. Header text is Latin-1, a \<open>string\<close> here. A manifest's substitutions are
  regular expressions of its own: each is an argument, its text and what it does to a body.
\<close>

section \<open>The comparator\<close>

definition DEFAULT_IGNORE :: "string list" where
  "DEFAULT_IGNORE = [''date'', ''server'', ''connection'', ''keep-alive'', ''x-thread'', ''content-length'']"

text \<open>\<open>^([^=;]+)=[^;]*\<close> and \<open>(?i)expires=[^;]*\<close>.\<close>

definition hide_value :: "string \<Rightarrow> string" where
  "hide_value v =
     (let k = takeWhile (\<lambda>c. c \<noteq> CHR ''='' \<and> c \<noteq> CHR '';'') v; rest = drop (length k) v
      in if k \<noteq> [] \<and> starts_with ''='' rest then k @ ''=X'' @ dropWhile (\<lambda>c. c \<noteq> CHR '';'') rest else v)"

function hide_expires :: "string \<Rightarrow> string" where
  "hide_expires s =
     (case s of
        [] \<Rightarrow> []
      | c # cs \<Rightarrow>
          if py_lower (take 8 s) = ''expires='' then ''expires=X'' @ hide_expires (dropWhile (\<lambda>c. c \<noteq> CHR '';'') (drop 8 s))
          else c # hide_expires cs)"
  by pat_completeness auto
termination
proof (relation "measure length", goal_cases)
  case (2 s c cs)
  have "length (dropWhile (\<lambda>c. c \<noteq> CHR '';'') (drop 8 s)) \<le> length (drop 8 s)" by (rule length_dropWhile_le)
  then show ?case using 2(1) by simp
qed auto

declare hide_expires.simps [simp del]

definition normalize_cookie :: "string \<Rightarrow> string" where
  "normalize_cookie v = hide_expires (hide_value v)"

text \<open>\<open>_HTTP_DATE\<close>, whose fields have fixed widths.\<close>

datatype shape = Upper | Lower | Digit | Lit char

fun fits :: "shape \<Rightarrow> char \<Rightarrow> bool" where
  "fits Upper c = (CHR ''A'' \<le> c \<and> c \<le> CHR ''Z'')"
| "fits Lower c = (CHR ''a'' \<le> c \<and> c \<le> CHR ''z'')"
| "fits Digit c = (CHR ''0'' \<le> c \<and> c \<le> CHR ''9'')"
| "fits (Lit d) c = (c = d)"

definition HTTP_DATE :: "shape list" where
  "HTTP_DATE =
     [Upper, Lower, Lower] @ map Lit '', '' @ [Digit, Digit, Lit (CHR '' ''), Upper, Lower, Lower, Lit (CHR '' ''),
      Digit, Digit, Digit, Digit, Lit (CHR '' ''), Digit, Digit, Lit (CHR '':''), Digit, Digit, Lit (CHR '':''), Digit, Digit]
     @ map Lit '' GMT''"

definition is_http_date :: "string \<Rightarrow> bool" where
  "is_http_date v \<longleftrightarrow> list_all2 fits HTTP_DATE v"

definition normalize_header :: "string list \<Rightarrow> string \<times> string \<Rightarrow> (string \<times> string) option" where
  "normalize_header ignored nv =
     (let name = py_lower (fst nv); v = snd nv in
      if name \<in> set (map py_lower ignored) then None
      else Some (name,
        if name = ''set-cookie'' then normalize_cookie v
        else if name = ''expires'' \<and> is_http_date (py_strip v) then ''<http-date>'' else v))"

definition normalize_headers :: "string list \<Rightarrow> (string \<times> string) list \<Rightarrow> (string \<times> string) list" where
  "normalize_headers ignored hs = sort (List.map_filter (normalize_header ignored) hs)"

type_synonym body_sub = "string \<times> (bytes \<Rightarrow> bytes)"

definition normalize_body :: "body_sub list \<Rightarrow> bytes \<Rightarrow> bytes" where
  "normalize_body subs body = fold snd subs body"

definition truncation_visible :: "body_sub list \<Rightarrow> bytes \<Rightarrow> bool" where
  "truncation_visible subs body \<longleftrightarrow>
     subs = [] \<or> body = [] \<or>
     list_all (\<lambda>cut. length body \<le> cut \<or> normalize_body subs (take cut body) \<noteq> normalize_body subs body)
       [length body * 9 div 10, length body div 2, 20, 0]"

definition blinding_patterns :: "body_sub list \<Rightarrow> bytes \<Rightarrow> string list" where
  "blinding_patterns subs body = map fst (filter (\<lambda>f. \<not> truncation_visible [f] body) subs)"

record observation =
  ob_status :: nat
  ob_headers :: "(string \<times> string) list"
  ob_digest :: string
  ob_bytes :: nat
  ob_normalized :: nat

definition observe :: "string list \<Rightarrow> body_sub list \<Rightarrow> nat \<Rightarrow> (string \<times> string) list \<Rightarrow> bytes \<Rightarrow> observation" where
  "observe ignored subs status hs body =
     (let n = normalize_body subs body in
      \<lparr>ob_status = status, ob_headers = normalize_headers ignored hs,
       ob_digest = take 16 (hexdigest (sha256 n)), ob_bytes = length body, ob_normalized = length n\<rparr>)"

datatype response_diff =
    StatusDiff nat nat
  | DigestDiff string string nat nat
  | HeaderDiff string "string option" "string option"

text \<open>\<open>dict\<close> of a list of pairs: the last of a name.\<close>

definition header_dict :: "(string \<times> string) list \<Rightarrow> string \<rightharpoonup> string" where
  "header_dict hs = map_of (rev hs)"

definition compare_observations :: "observation \<Rightarrow> observation \<Rightarrow> response_diff list" where
  "compare_observations expected actual =
     (let a = header_dict (ob_headers expected); b = header_dict (ob_headers actual);
          names = sort (remdups (map fst (ob_headers expected) @ map fst (ob_headers actual)))
      in (if ob_status expected \<noteq> ob_status actual then [StatusDiff (ob_status expected) (ob_status actual)] else [])
         @ (if ob_digest expected \<noteq> ob_digest actual
            then [DigestDiff (ob_digest expected) (ob_digest actual) (ob_bytes expected) (ob_bytes actual)] else [])
         @ map (\<lambda>k. HeaderDiff k (a k) (b k)) (filter (\<lambda>k. a k \<noteq> b k) names))"

section \<open>Cookies\<close>

definition absorb_one :: "string \<times> string \<Rightarrow> (string \<times> string) list \<Rightarrow> (string \<times> string) list" where
  "absorb_one nv jar =
     (if py_lower (fst nv) \<noteq> ''set-cookie'' then jar
      else case cut_at ''='' (takeWhile (\<lambda>c. c \<noteq> CHR '';'') (snd nv)) of
             None \<Rightarrow> jar
           | Some (k, v) \<Rightarrow>
               if v = [] \<or> contains ''max-age=0'' (py_lower (snd nv)) then AList.delete (py_strip k) jar
               else AList.update (py_strip k) v jar)"

definition absorb :: "(string \<times> string) list \<Rightarrow> (string \<times> string) list \<Rightarrow> (string \<times> string) list" where
  "absorb hs jar = fold absorb_one hs jar"

definition cookie_header :: "(string \<times> string) list \<Rightarrow> string" where
  "cookie_header jar = join ''; '' (map (\<lambda>(k, v). k @ ''='' @ v) jar)"

section \<open>Counting\<close>

datatype soak_failure =
    BadStatus string string nat
  | HidesTruncation string string "string list"
  | Differs string string "response_diff list"
  | Said string

record soak_stats =
  so_counts :: "string \<rightharpoonup> nat"
  so_failures :: "soak_failure \<rightharpoonup> nat"
  so_window :: bool
  so_capture :: "string \<rightharpoonup> observation"

definition bump :: "string \<Rightarrow> nat \<Rightarrow> soak_stats \<Rightarrow> soak_stats" where
  "bump key n st = st\<lparr>so_counts := (so_counts st)(key \<mapsto> getd (so_counts st) key 0 + n)\<rparr>"

definition soak_fail :: "soak_failure \<Rightarrow> bool \<Rightarrow> soak_stats \<Rightarrow> soak_stats" where
  "soak_fail what connection st =
     (if connection \<and> so_window st then bump ''churn_tolerated'' 1 st
      else bump ''failures'' 1 (st\<lparr>so_failures := (so_failures st)(what \<mapsto> getd (so_failures st) what 0 + 1)\<rparr>))"

section \<open>Verifying a response\<close>

record route =
  ro_path :: string
  ro_class :: "string option"
  ro_verify :: bool
  ro_status :: nat
  ro_bytes :: "nat option"

record soak_cfg =
  sc_ignore :: "string list"
  sc_subs :: "body_sub list"
  sc_routes :: "route list"

definition by_path :: "soak_cfg \<Rightarrow> string \<rightharpoonup> route" where
  "by_path c = map_of (rev (map (\<lambda>r. (ro_path r, r)) (sc_routes c)))"

record response =
  rs_who :: string
  rs_path :: string
  rs_status :: nat
  rs_headers :: "(string \<times> string) list"
  rs_body :: bytes

definition seen_as :: "soak_cfg \<Rightarrow> response \<Rightarrow> observation" where
  "seen_as c r = observe (sc_ignore c) (sc_subs c) (rs_status r) (rs_headers r) (rs_body r)"

definition is_verified :: "soak_cfg \<Rightarrow> response \<Rightarrow> bool" where
  "is_verified c r \<longleftrightarrow> (case by_path c (rs_path r) of None \<Rightarrow> True | Some x \<Rightarrow> ro_verify x)"

definition judge_response :: "response \<Rightarrow> observation \<Rightarrow> observation \<Rightarrow> soak_stats \<Rightarrow> soak_stats" where
  "judge_response r expected actual st =
     (let diffs = compare_observations expected actual in
      if diffs = [] then bump ''verified'' 1 st else soak_fail (Differs (rs_who r) (rs_path r) diffs) False st)"

text \<open>
  The capture is read before the lock is taken: \<open>missed\<close> is a thread that found no entry before
  another thread put one there.
\<close>

definition verify :: "soak_cfg \<Rightarrow> response \<Rightarrow> bool \<Rightarrow> soak_stats \<Rightarrow> soak_stats" where
  "verify c r missed st =
     (if \<not> is_verified c r
      then (if rs_status r = ro_status (the (by_path c (rs_path r))) then bump ''status_only'' 1 st
            else soak_fail (BadStatus (rs_who r) (rs_path r) (rs_status r)) False st)
      else (let actual = seen_as c r; bad = blinding_patterns (sc_subs c) (rs_body r) in
        case (if missed then None else so_capture st (rs_path r)) of
          Some expected \<Rightarrow> judge_response r expected actual st
        | None \<Rightarrow>
            if bad \<noteq> [] then soak_fail (HidesTruncation (rs_who r) (rs_path r) bad) False st
            else case so_capture st (rs_path r) of
                   None \<Rightarrow> bump ''self_pinned'' 1 (st\<lparr>so_capture := (so_capture st)(rs_path r \<mapsto> actual)\<rparr>)
                 | Some expected \<Rightarrow> judge_response r expected actual st))"

section \<open>The report\<close>

record soak_args =
  sa_churn_every :: nat
  sa_burst :: nat
  sa_per_connection :: nat
  sa_max_growth :: int

record soak_sample =
  sp_epoch :: nat
  sp_rss :: "int option"

definition rss_growth :: "soak_sample list \<Rightarrow> int option" where
  "rss_growth samples =
     (if length samples < 2 then None
      else let kept = List.map_filter sp_rss (filter (\<lambda>s. sp_epoch s = sp_epoch (last samples)) samples)
           in if length kept < 2 then None else Some (last kept - hd kept))"

definition soak_count :: "soak_stats \<Rightarrow> string \<Rightarrow> nat" where
  "soak_count st k = getd (so_counts st) k 0"

definition no_burst_crossed :: "soak_args \<Rightarrow> soak_stats \<Rightarrow> bool" where
  "no_burst_crossed a st \<longleftrightarrow>
     sa_burst a \<noteq> 0 \<and> sa_per_connection a \<noteq> 0 \<and>
     2 * sa_per_connection a * sa_burst a \<le> soak_count st ''burst_requests'' \<and>
     soak_count st ''burst_reconnects'' \<le> soak_count st ''churn_restarts'' * sa_burst a"

definition soak_report :: "soak_args \<Rightarrow> soak_sample list \<Rightarrow> soak_stats \<Rightarrow> nat" where
  "soak_report a samples st =
     (if so_failures st \<noteq> Map.empty then 1
      else if soak_count st ''verified'' = 0 then 1
      else if sa_churn_every a \<noteq> 0 \<and> soak_count st ''churn_restarts'' = 0 then 1
      else if no_burst_crossed a st then 1
      else if sa_max_growth a \<noteq> 0 \<and> (case rss_growth samples of None \<Rightarrow> False | Some g \<Rightarrow> sa_max_growth a < g) then 1
      else 0)"

section \<open>A run\<close>

text \<open>
  What the populations' threads and the churn do to the shared counters, in the order their locks
  are taken: a response judged, a count, a count raised to a value, a failure of another kind, the
  churn window.
\<close>

datatype soak_event = Seen response bool | Counted string nat | Raised string nat | Failed string bool | Window bool

fun soak_step :: "soak_cfg \<Rightarrow> soak_event \<Rightarrow> soak_stats \<Rightarrow> soak_stats" where
  "soak_step c (Seen r missed) st = verify c r missed st"
| "soak_step c (Counted k n) st = bump k n st"
| "soak_step c (Raised k n) st = st\<lparr>so_counts := (so_counts st)(k \<mapsto> max (soak_count st k) n)\<rparr>"
| "soak_step c (Failed what connection) st = soak_fail (Said what) connection st"
| "soak_step c (Window b) st = st\<lparr>so_window := b\<rparr>"

definition soak_start :: "(string \<rightharpoonup> observation) \<Rightarrow> soak_stats" where
  "soak_start baseline = \<lparr>so_counts = Map.empty, so_failures = Map.empty, so_window = False, so_capture = baseline\<rparr>"

definition soak_run :: "soak_cfg \<Rightarrow> (string \<rightharpoonup> observation) \<Rightarrow> soak_event list \<Rightarrow> soak_stats" where
  "soak_run c baseline es = fold (soak_step c) es (soak_start baseline)"

section \<open>What an empty comparison means\<close>

lemma header_dict_None: "header_dict hs k = None \<longleftrightarrow> k \<notin> set (map fst hs)"
  by (simp add: header_dict_def map_of_eq_None_iff)

lemma compare_empty:
  "compare_observations e a = [] \<longleftrightarrow>
     ob_status e = ob_status a \<and> ob_digest e = ob_digest a \<and> header_dict (ob_headers e) = header_dict (ob_headers a)"
proof -
  have "(\<forall>k \<in> set (map fst (ob_headers e)) \<union> set (map fst (ob_headers a)). header_dict (ob_headers e) k = header_dict (ob_headers a) k)
      \<longleftrightarrow> header_dict (ob_headers e) = header_dict (ob_headers a)"
    by (metis (no_types, lifting) UnCI ext header_dict_None)
  then show ?thesis by (auto simp: compare_observations_def Let_def filter_empty_conv)
qed

lemma compare_refl [simp]: "compare_observations e e = []"
  by (simp add: compare_empty)

section \<open>What a run keeps\<close>

lemma bump_fields [simp]:
  "so_failures (bump k n st) = so_failures st" "so_capture (bump k n st) = so_capture st"
  "soak_count (bump k n st) j = soak_count st j + (if j = k then n else 0)"
  by (simp_all add: bump_def soak_count_def getd_def)

lemma fail_fields [simp]:
  "so_capture (soak_fail w b st) = so_capture st"
  "soak_count (soak_fail w b st) ''verified'' = soak_count st ''verified''"
  by (simp_all add: soak_fail_def soak_count_def bump_def getd_def)

lemma fail_fails: "so_failures (soak_fail w False st) \<noteq> Map.empty"
  by (simp add: soak_fail_def)

lemma failures_stay: "so_failures st w \<noteq> None \<Longrightarrow> so_failures (soak_fail v b st) w \<noteq> None"
  by (simp add: soak_fail_def)

definition matches :: "soak_cfg \<Rightarrow> soak_stats \<Rightarrow> response \<Rightarrow> bool" where
  "matches c st r \<longleftrightarrow> (\<exists>e. so_capture st (rs_path r) = Some e \<and> compare_observations e (seen_as c r) = [])"

lemma judge_fields [simp]:
  "so_capture (judge_response r e a st) = so_capture st"
  by (simp add: judge_response_def Let_def)

lemma judge_clean:
  "so_failures (judge_response r e a st) = Map.empty \<longleftrightarrow> so_failures st = Map.empty \<and> compare_observations e a = []"
  by (auto simp: judge_response_def Let_def soak_fail_def)

lemma verify_capture_grows: "so_capture st \<subseteq>\<^sub>m so_capture (verify c r m st)"
  by (auto simp: verify_def Let_def map_le_def split: option.split)

lemma step_capture_grows: "so_capture st \<subseteq>\<^sub>m so_capture (soak_step c ev st)"
  by (cases ev) (simp_all add: verify_capture_grows)

lemma fail_clean: "so_failures (soak_fail w b st) = Map.empty \<Longrightarrow> so_failures st = Map.empty"
  by (auto simp: soak_fail_def split: if_splits)

lemma verify_clean: "so_failures (verify c r m st) = Map.empty \<Longrightarrow> so_failures st = Map.empty"
  by (auto simp: verify_def Let_def judge_clean dest: fail_clean split: if_splits option.splits)

lemma step_clean: "so_failures (soak_step c ev st) = Map.empty \<Longrightarrow> so_failures st = Map.empty"
  by (cases ev) (auto dest: fail_clean verify_clean)

lemma verify_matches:
  assumes "so_failures (verify c r m st) = Map.empty" "is_verified c r"
  shows "matches c (verify c r m st) r"
  using assms fail_fails
  by (auto simp: verify_def matches_def Let_def judge_clean split: if_splits option.splits)

lemma matches_stay: "matches c st r \<Longrightarrow> so_capture st \<subseteq>\<^sub>m so_capture st' \<Longrightarrow> matches c st' r"
  by (auto simp: matches_def map_le_def dom_def)

lemma verify_counts:
  assumes "0 < soak_count (verify c r m st) ''verified''"
  shows "0 < soak_count st ''verified'' \<or> is_verified c r"
proof (cases "is_verified c r")
  case False
  then show ?thesis using assms by (auto simp: verify_def split: if_splits)
qed simp

text \<open>What one response owes the run that reported no failure.\<close>

definition as_captured :: "soak_cfg \<Rightarrow> soak_stats \<Rightarrow> response \<Rightarrow> bool" where
  "as_captured c st r \<longleftrightarrow>
     (if is_verified c r
      then (case so_capture st (rs_path r) of
              None \<Rightarrow> False
            | Some e \<Rightarrow> ob_status e = rs_status r \<and>
                ob_digest e = take 16 (hexdigest (sha256 (normalize_body (sc_subs c) (rs_body r)))) \<and>
                header_dict (ob_headers e) = header_dict (normalize_headers (sc_ignore c) (rs_headers r)))
      else rs_status r = ro_status (the (by_path c (rs_path r))))"

lemma as_captured_iff:
  "as_captured c st r \<longleftrightarrow> (if is_verified c r then matches c st r else rs_status r = ro_status (the (by_path c (rs_path r))))"
  by (auto simp: as_captured_def matches_def compare_empty seen_as_def observe_def Let_def split: option.splits)

lemma verify_as_captured:
  assumes "so_failures (verify c r m st) = Map.empty"
  shows "as_captured c (verify c r m st) r"
proof (cases "is_verified c r")
  case True
  then show ?thesis using verify_matches [OF assms] by (simp add: as_captured_iff)
next
  case False
  then show ?thesis using assms fail_fails by (auto simp: as_captured_iff verify_def split: if_splits)
qed

lemma as_captured_stays: "as_captured c st r \<Longrightarrow> so_capture st \<subseteq>\<^sub>m so_capture st' \<Longrightarrow> as_captured c st' r"
  by (auto simp: as_captured_iff matches_stay)

lemma steps_keep_capture: "so_capture st \<subseteq>\<^sub>m so_capture (fold (soak_step c) es st)"
  by (induction es arbitrary: st) (auto intro: map_le_trans step_capture_grows)

lemma run_snoc: "soak_run c baseline (es @ [ev]) = soak_step c ev (soak_run c baseline es)"
  by (simp add: soak_run_def)

lemma clean_run_saw:
  assumes "so_failures (soak_run c baseline es) = Map.empty" "Seen r m \<in> set es"
  shows "as_captured c (soak_run c baseline es) r"
  using assms
proof (induction es rule: rev_induct)
  case (snoc ev es)
  have clean: "so_failures (soak_run c baseline es) = Map.empty"
    using snoc.prems(1) by (auto simp: run_snoc dest: step_clean)
  show ?case
  proof (cases "ev = Seen r m")
    case True
    then show ?thesis using snoc.prems(1) by (simp add: run_snoc verify_as_captured)
  next
    case False
    then have "as_captured c (soak_run c baseline es) r" using snoc.IH clean snoc.prems(2) by auto
    then show ?thesis unfolding run_snoc by (rule as_captured_stays) (rule step_capture_grows)
  qed
qed simp

lemma clean_run_failed_nothing:
  "so_failures (soak_run c baseline es) = Map.empty \<Longrightarrow> Failed w False \<notin> set es"
proof (induction es rule: rev_induct)
  case (snoc ev es)
  then have "so_failures (soak_run c baseline es) = Map.empty" by (auto simp: run_snoc dest: step_clean)
  moreover have "ev \<noteq> Failed w False" using snoc.prems fail_fails by (auto simp: run_snoc)
  ultimately show ?case using snoc.IH by auto
qed simp

lemma verified_was_seen:
  assumes "0 < soak_count (soak_run c baseline es) ''verified''"
    and "\<forall>k n. Counted k n \<in> set es \<or> Raised k n \<in> set es \<longrightarrow> k \<noteq> ''verified''"
  shows "\<exists>r m. Seen r m \<in> set es \<and> is_verified c r"
  using assms
proof (induction es rule: rev_induct)
  case Nil
  then show ?case by (simp add: soak_run_def soak_start_def soak_count_def getd_def)
next
  case (snoc ev es)
  have "0 < soak_count (soak_run c baseline es) ''verified'' \<or> (\<exists>r m. ev = Seen r m \<and> is_verified c r)"
  proof (cases ev)
    case (Seen r m)
    then show ?thesis using snoc.prems(1) verify_counts by (auto simp: run_snoc)
  next
    case (Raised k n)
    then have "k \<noteq> ''verified''" using snoc.prems(2) by auto
    then show ?thesis using Raised snoc.prems(1) by (auto simp: run_snoc soak_count_def getd_def)
  next
    case (Counted k n)
    then have "k \<noteq> ''verified''" using snoc.prems(2) by auto
    then show ?thesis using Counted snoc.prems(1) by (simp add: run_snoc)
  next
    case (Window b)
    then show ?thesis using snoc.prems(1) by (simp add: run_snoc soak_count_def)
  qed (use snoc.prems in \<open>auto simp: run_snoc\<close>)
  then show ?case using snoc.IH snoc.prems(2) by auto
qed

lemma report_0:
  "soak_report a samples st = 0 \<Longrightarrow> so_failures st = Map.empty \<and> 0 < soak_count st ''verified''"
  by (auto simp: soak_report_def split: if_splits)


definition soak_page :: response where
  "soak_page = \<lparr>rs_who = ''burst'', rs_path = ''/'', rs_status = 200, rs_headers = [(''Content-Type'', ''text/html'')], rs_body = []\<rparr>"

definition soak_example :: soak_cfg where
  "soak_example = \<lparr>sc_ignore = DEFAULT_IGNORE, sc_subs = [], sc_routes = []\<rparr>"

text \<open>Two fetches of a page by two threads that both find no entry: one pins it, one is compared.\<close>

lemma example_clean:
  "soak_report \<lparr>sa_churn_every = 0, sa_burst = 0, sa_per_connection = 0, sa_max_growth = 0\<rparr> []
     (soak_run soak_example Map.empty [Seen soak_page True, Seen soak_page True]) = 0"
  by (simp add: soak_run_def soak_start_def verify_def is_verified_def by_path_def soak_example_def soak_page_def
      blinding_patterns_def judge_response_def soak_report_def no_burst_crossed_def seen_as_def bump_def
      soak_count_def getd_def)


section \<open>What the comparator does not see\<close>

text \<open>Headers are compared as a dict: of several cookies only the last in order of the text is compared.\<close>

lemma two_cookies_one_entry:
  "normalize_headers DEFAULT_IGNORE [(''Set-Cookie'', ''a=1; HttpOnly''), (''Set-Cookie'', ''b=2'')]
     = [(''set-cookie'', ''a=X; HttpOnly''), (''set-cookie'', ''b=X'')]"
  "normalize_headers DEFAULT_IGNORE [(''Set-Cookie'', ''b=2'')] = [(''set-cookie'', ''b=X'')]"
  by code_simp+

lemma lost_cookie_unseen:
  "compare_observations
     (observe DEFAULT_IGNORE [] 200 [(''Set-Cookie'', ''a=1; HttpOnly''), (''Set-Cookie'', ''b=2'')] body)
     (observe DEFAULT_IGNORE [] 200 [(''Set-Cookie'', ''b=2'')] body) = []"
  unfolding compare_empty by (auto simp: observe_def Let_def two_cookies_one_entry header_dict_def)

text \<open>
  Substitutions are tried one at a time before a response is pinned: two that leave a truncation
  visible each, and hide it together, are let through.
\<close>

definition drop_byte :: "nat \<Rightarrow> bytes \<Rightarrow> bytes" where
  "drop_byte n = filter (\<lambda>b. unat b \<noteq> n)"

lemma blind_together:
  "blinding_patterns [(''A'', drop_byte 65), (''B'', drop_byte 66)] (concat (replicate 15 [65, 66])) = []"
  "\<not> truncation_visible [(''A'', drop_byte 65), (''B'', drop_byte 66)] (concat (replicate 15 [65, 66]))"
  by code_simp+

end
