(* ===== verification/Soak_Clients.thy ===== *)
theory Soak_Clients
  imports Soak
begin

text \<open>
  scripts/soak.py: a keep-alive connection with its one retry, and two of the populations, as the
  events they contribute to a run. What the network answers is the input. The session's cookies are
  left out: they shape the requests, and an answer to a request is an input here.
\<close>

section \<open>A connection\<close>

datatype wire =
    Answer nat "(string \<times> string) list" bytes bool
  | HttpBroke string
  | OsBroke string

record keep_alive =
  ka_open :: bool
  ka_reconnects :: nat
  ka_requests :: nat

definition new_conn :: keep_alive where
  "new_conn = \<lparr>ka_open = False, ka_reconnects = 0, ka_requests = 0\<rparr>"

type_synonym ka_answer = "nat \<times> (string \<times> string) list \<times> bytes"

definition ka_connect :: "keep_alive \<Rightarrow> keep_alive" where
  "ka_connect k =
     (if ka_open k then k
      else k\<lparr>ka_open := True, ka_reconnects := ka_reconnects k + (if 0 < ka_requests k then 1 else 0)\<rparr>)"

fun ka_exchange :: "wire \<Rightarrow> keep_alive \<Rightarrow> (wire + ka_answer) \<times> keep_alive" where
  "ka_exchange (Answer s h b closes) k = (Inr (s, h, b), k\<lparr>ka_requests := ka_requests k + 1, ka_open := \<not> closes\<rparr>)"
| "ka_exchange broke k = (Inl broke, k\<lparr>ka_open := False\<rparr>)"

definition ka_request :: "wire \<times> wire \<Rightarrow> keep_alive \<Rightarrow> (wire + ka_answer) \<times> keep_alive" where
  "ka_request w k =
     (case ka_exchange (fst w) (ka_connect k) of
        (Inr a, k') \<Rightarrow> (Inr a, k')
      | (Inl _, k') \<Rightarrow> ka_exchange (snd w) (ka_connect k'))"

definition fetch_page :: "wire \<times> wire \<Rightarrow> wire + ka_answer" where
  "fetch_page w = fst (ka_request w new_conn)"

section \<open>Two populations\<close>

type_synonym soak_visit = "(wire \<times> wire) \<times> bool"

definition seen_by :: "string \<Rightarrow> route \<Rightarrow> ka_answer \<Rightarrow> bool \<Rightarrow> soak_event" where
  "seen_by who r a missed =
     Seen \<lparr>rs_who = who, rs_path = ro_path r, rs_status = fst a, rs_headers = fst (snd a), rs_body = snd (snd a)\<rparr> missed"

text \<open>
  The requests of one connection: the events, the next route, the connection, and the exception
  that ends the population. A list shorter than the connection's share is a run that was stopped.
\<close>

fun burst_conn ::
  "route list \<Rightarrow> nat \<Rightarrow> keep_alive \<Rightarrow> soak_visit list \<Rightarrow> soak_event list \<times> nat \<times> keep_alive \<times> string option" where
  "burst_conn routes i k [] = ([], i, k, None)"
| "burst_conn routes i k (v # vs) =
     (let r = routes ! (i mod length routes)
      in case ka_request (fst v) k of
           (Inl (OsBroke x), k') \<Rightarrow> ([Failed (''burst '' @ ro_path r @ '': '' @ x) True], i + 1, k', None)
         | (Inl (HttpBroke x), k') \<Rightarrow> ([], i + 1, k', Some x)
         | (Inl (Answer _ _ _ _), k') \<Rightarrow> ([], i + 1, k', None)
         | (Inr a, k') \<Rightarrow>
             (case burst_conn routes (i + 1) k' vs of
                (es, i', k'', x) \<Rightarrow> ([Counted ''burst_requests'' 1, seen_by ''burst'' r a (snd v)] @ es, i', k'', x)))"

fun burst_laps :: "nat \<Rightarrow> route list \<Rightarrow> nat \<Rightarrow> soak_visit list list \<Rightarrow> soak_event list" where
  "burst_laps per routes i [] = []"
| "burst_laps per routes i (lap # laps) =
     (case burst_conn routes i new_conn (take per lap) of
        (es, i', k, x) \<Rightarrow>
          es @ [Counted ''burst_reconnects'' (ka_reconnects k)] @
          (case x of
             None \<Rightarrow> burst_laps per routes i' laps
           | Some e \<Rightarrow> [Failed (''pop_burst crashed: '' @ e) False]))"

definition of_class :: "string \<Rightarrow> soak_cfg \<Rightarrow> route list" where
  "of_class k c = filter (\<lambda>r. ro_class r = Some k) (sc_routes c)"

definition pop_burst :: "soak_cfg \<Rightarrow> nat \<Rightarrow> soak_visit list list \<Rightarrow> soak_event list" where
  "pop_burst c per laps =
     (let routes = of_class ''short'' c in if routes = [] then [] else burst_laps per routes 0 laps)"

definition stream_length_event :: "route \<Rightarrow> ka_answer \<Rightarrow> soak_event list" where
  "stream_length_event r a =
     (case ro_bytes r of
        None \<Rightarrow> []
      | Some n \<Rightarrow>
          if length (snd (snd a)) = n then []
          else [Failed (''stream '' @ ro_path r @ '': '' @ show_nat (length (snd (snd a))) @ '' bytes, expected '' @ show_nat n) False])"

fun stream_laps :: "route list \<Rightarrow> nat \<Rightarrow> soak_visit list \<Rightarrow> soak_event list" where
  "stream_laps routes i [] = []"
| "stream_laps routes i (v # vs) =
     (let r = routes ! (i mod length routes)
      in case fetch_page (fst v) of
           Inl (OsBroke x) \<Rightarrow> Failed (''stream '' @ ro_path r @ '': '' @ x) True # stream_laps routes (i + 1) vs
         | Inl (HttpBroke x) \<Rightarrow> [Failed (''pop_stream crashed: '' @ x) False]
         | Inl (Answer _ _ _ _) \<Rightarrow> []
         | Inr a \<Rightarrow>
             [Counted ''stream_reads'' 1] @ stream_length_event r a @ [seen_by ''stream'' r a (snd v)] @
             stream_laps routes (i + 1) vs)"

definition pop_stream :: "soak_cfg \<Rightarrow> soak_visit list \<Rightarrow> soak_event list" where
  "pop_stream c vs = (let routes = of_class ''stream'' c in if routes = [] then [] else stream_laps routes 0 vs)"

section \<open>What the retry hides\<close>

text \<open>
  A body cut short raises \<open>IncompleteRead\<close>, an \<open>HTTPException\<close>, and is asked for again: the
  population reports what it reports when nothing was cut.
\<close>

lemma cut_body_is_retried:
  "stream_laps routes i (((HttpBroke x, Answer s h b closes), missed) # vs)
     = stream_laps routes i (((Answer s h b closes, second), missed) # vs)"
  by (simp add: fetch_page_def ka_request_def)

section \<open>Populations of a green run\<close>

lemma ka_request_answers: "fst (ka_request w k) \<noteq> Inl (Answer s h b closes)"
  by (cases w; cases "fst w"; cases "snd w") (auto simp: ka_request_def)

lemma fetch_answers: "fetch_page w \<noteq> Inl (Answer s h b closes)"
  by (simp add: fetch_page_def ka_request_answers)

lemma stream_length_ok:
  "\<forall>w. Failed w False \<notin> set (stream_length_event r a) \<Longrightarrow> ro_bytes r = Some n \<Longrightarrow> length (snd (snd a)) = n"
  by (auto simp: stream_length_event_def split: if_splits)

lemma stream_laps_go_on:
  assumes "\<forall>w. Failed w False \<notin> set (stream_laps routes i (v # vs))"
  shows "set (stream_laps routes (i + 1) vs) \<subseteq> set (stream_laps routes i (v # vs))"
proof (cases "fetch_page (fst v)")
  case (Inl w)
  show ?thesis
  proof (cases w)
    case (HttpBroke x)
    then have "Failed (''pop_stream crashed: '' @ x) False \<in> set (stream_laps routes i (v # vs))"
      using Inl by (simp add: Let_def)
    then show ?thesis using assms by blast
  next
    case (Answer s h b closes)
    then show ?thesis using Inl fetch_answers by blast
  next
    case (OsBroke x)
    then show ?thesis using Inl by (simp add: Let_def subset_insertI)
  qed
next
  case (Inr a)
  then show ?thesis by (auto simp: Let_def)
qed

lemma stream_laps_emit:
  assumes "\<forall>w. Failed w False \<notin> set (stream_laps routes i vs)" "k < length vs"
    and "fetch_page (fst (vs ! k)) = Inr a" "r = routes ! ((i + k) mod length routes)"
  shows "seen_by ''stream'' r a (snd (vs ! k)) \<in> set (stream_laps routes i vs)
         \<and> (\<forall>n. ro_bytes r = Some n \<longrightarrow> length (snd (snd a)) = n)"
  using assms
proof (induction vs arbitrary: i k)
  case (Cons v vs)
  show ?case
  proof (cases k)
    case 0
    then show ?thesis using Cons.prems by (auto simp: Let_def intro: stream_length_ok)
  next
    case (Suc j)
    have rec: "set (stream_laps routes (i + 1) vs) \<subseteq> set (stream_laps routes i (v # vs))"
      using Cons.prems(1) by (rule stream_laps_go_on)
    have "seen_by ''stream'' r a (snd (vs ! j)) \<in> set (stream_laps routes (i + 1) vs)
         \<and> (\<forall>n. ro_bytes r = Some n \<longrightarrow> length (snd (snd a)) = n)"
      by (rule Cons.IH) (use Cons.prems Suc rec in auto)
    then show ?thesis using rec Suc by auto
  qed
qed simp

text \<open>
  However the other populations' events fall between those of the stream population, a green run
  means that every stream it read had its declared length and was as captured.
\<close>

lemma green_soak_streams_whole:
  assumes "es \<in> shuffles (pop_stream c vs) others" "soak_report args samples (soak_run c baseline es) = 0"
    and "of_class ''stream'' c \<noteq> []" "k < length vs" "fetch_page (fst (vs ! k)) = Inr a"
    and "r = of_class ''stream'' c ! (k mod length (of_class ''stream'' c))"
  shows "(\<forall>n. ro_bytes r = Some n \<longrightarrow> length (snd (snd a)) = n) \<and>
         as_captured c (soak_run c baseline es)
           \<lparr>rs_who = ''stream'', rs_path = ro_path r, rs_status = fst a, rs_headers = fst (snd a), rs_body = snd (snd a)\<rparr>"
proof -
  have clean: "so_failures (soak_run c baseline es) = Map.empty" using report_0 assms(2) by blast
  have all: "set es = set (pop_stream c vs) \<union> set others" using assms(1) by (rule set_shuffles)
  have laps: "pop_stream c vs = stream_laps (of_class ''stream'' c) 0 vs" using assms(3) by (simp add: pop_stream_def)
  have "\<forall>w. Failed w False \<notin> set (pop_stream c vs)" using clean_run_failed_nothing [OF clean] all by auto
  then have emit: "seen_by ''stream'' r a (snd (vs ! k)) \<in> set (pop_stream c vs)
      \<and> (\<forall>n. ro_bytes r = Some n \<longrightarrow> length (snd (snd a)) = n)"
    unfolding laps by (rule stream_laps_emit) (simp_all add: assms(4-6))
  then have "seen_by ''stream'' r a (snd (vs ! k)) \<in> set es" using all by blast
  then have "as_captured c (soak_run c baseline es)
           \<lparr>rs_who = ''stream'', rs_path = ro_path r, rs_status = fst a, rs_headers = fst (snd a), rs_body = snd (snd a)\<rparr>"
    unfolding seen_by_def by (rule clean_run_saw [OF clean])
  then show ?thesis using emit by blast
qed

lemma burst_conn_seen:
  "burst_conn routes i k vs = (es, i', k', x) \<Longrightarrow>
     length (filter (\<lambda>e. \<exists>r m. e = Seen r m) es) = length (filter (\<lambda>e. e = Counted ''burst_requests'' 1) es)"
proof (induction vs arbitrary: i k es i' k' x)
  case (Cons v vs)
  obtain res k1 where q: "ka_request (fst v) k = (res, k1)" by (cases "ka_request (fst v) k")
  show ?case
  proof (cases res)
    case (Inl w)
    then show ?thesis using Cons.prems q by (cases w) (auto simp: Let_def)
  next
    case (Inr a)
    obtain es2 i2 k2 x2 where rest: "burst_conn routes (i + 1) k1 vs = (es2, i2, k2, x2)"
      by (cases "burst_conn routes (i + 1) k1 vs") auto
    have "es = [Counted ''burst_requests'' 1, seen_by ''burst'' (routes ! (i mod length routes)) a (snd v)] @ es2"
      using Cons.prems q Inr rest by (simp add: Let_def)
    then show ?thesis using Cons.IH [OF rest] by (simp add: seen_by_def)
  qed
qed simp

end
