(* ===== verification/Task_Shells.thy ===== *)
theory Task_Shells
  imports Regex_Scan "HOL-Library.AList"
begin

text \<open>
  scripts/check\_task\_shells.py: the task bodies read out of pyproject.toml, the code of a body
  without its strings, comments and here-documents, and the rules read from it. \<open>alnum\<close> says
  which characters outside ASCII are word characters, \<open>\d\<close> is an ASCII digit; what a shell says
  of a body under -n is an argument.
\<close>

section \<open>The tasks\<close>

text \<open>\<open>re.split\<close> at CRLF, CR and LF.\<close>

fun break_lines :: "ustr \<Rightarrow> ustr \<Rightarrow> ustr list" where
  "break_lines cur [] = [cur]"
| "break_lines cur (c # cs) =
     (if c = 13 then cur # (case cs of [] \<Rightarrow> [[]] | d # ds \<Rightarrow> if d = 10 then break_lines [] ds else break_lines [] cs)
      else if c = 10 then cur # break_lines [] cs
      else break_lines (cur @ [c]) cs)"

definition u_rstrip :: "ustr \<Rightarrow> ustr" where
  "u_rstrip s = rev (dropWhile u_space (rev s))"

definition unindent :: "ustr \<Rightarrow> ustr" where
  "unindent body =
     (let prefix = takeWhile (\<lambda>c. c = 32) body
      in u_rstrip
           (if prefix = [] then body
            else join [10] (map (\<lambda>l. if starts_with prefix l then drop (length prefix) l else l) (break_lines [] body))))"

record poe_item =
  pi_shell :: "ustr option"
  pi_cmd :: "ustr option"
  pi_interpreter :: "(ustr + ustr list) option"

datatype poe_task = Bare ustr | Table poe_item "poe_item list" | OddTask

definition poe_items :: "poe_task \<Rightarrow> poe_item list" where
  "poe_items t = (case t of Table i seq \<Rightarrow> i # seq | _ \<Rightarrow> [])"

definition interpreter_of :: "poe_item \<Rightarrow> ustr" where
  "interpreter_of i =
     (case pi_interpreter i of
        None \<Rightarrow> str_of ''posix''
      | Some (Inl s) \<Rightarrow> s
      | Some (Inr []) \<Rightarrow> str_of ''posix''
      | Some (Inr (s # _)) \<Rightarrow> s)"

definition item_name :: "ustr \<Rightarrow> nat \<Rightarrow> ustr" where
  "item_name name n = (if n = 0 then name else name @ [91] @ str_of (show_nat n) @ [93])"

definition posix_body :: "poe_item \<Rightarrow> ustr option" where
  "posix_body i =
     (if interpreter_of i \<in> {str_of ''posix'', str_of ''sh''} then map_option unindent (pi_shell i) else None)"

definition item_entries :: "(poe_item \<Rightarrow> ustr option) \<Rightarrow> ustr \<times> poe_task \<Rightarrow> (ustr \<times> ustr) list" where
  "item_entries get nt =
     List.map_filter (\<lambda>(n, i). map_option (\<lambda>v. (item_name (fst nt) n, v)) (get i)) (enumerate 0 (poe_items (snd nt)))"

definition task_dict :: "(ustr \<times> ustr) list \<Rightarrow> (ustr \<times> ustr) list" where
  "task_dict es = fold (\<lambda>(k, v). AList.update k v) es []"

definition shell_tasks :: "(ustr \<times> poe_task) list \<Rightarrow> (ustr \<times> ustr) list" where
  "shell_tasks tasks = task_dict (concat (map (item_entries posix_body) tasks))"

definition cmd_tasks :: "(ustr \<times> poe_task) list \<Rightarrow> (ustr \<times> ustr) list" where
  "cmd_tasks tasks =
     task_dict (concat (map (\<lambda>nt. case snd nt of Bare s \<Rightarrow> [(fst nt, s)] | _ \<Rightarrow> item_entries pi_cmd nt) tasks))"

section \<open>The code of a body\<close>

definition name_start :: "nat \<Rightarrow> bool" where
  "name_start c \<longleftrightarrow> latin_letter c \<or> c = 95"

definition name_part :: "nat \<Rightarrow> bool" where
  "name_part c \<longleftrightarrow> latin_letter c \<or> c = 95 \<or> u_digit c"

definition name_at :: "ustr \<Rightarrow> ustr" where
  "name_at s = (case s of [] \<Rightarrow> [] | c # _ \<Rightarrow> if name_start c then takeWhile name_part s else [])"

definition blank :: "nat \<Rightarrow> bool" where
  "blank c \<longleftrightarrow> c = 32 \<or> c = 9"

text \<open>The start of a here-document: its delimiter, and the length of what announces it.\<close>

definition heredoc_at :: "ustr \<Rightarrow> (ustr \<times> nat) option" where
  "heredoc_at s =
     (let dash = (if starts_with [45] (drop 2 s) then [45] else [] :: ustr);
          gap = takeWhile blank (drop (2 + length dash) s);
          r = dropWhile blank (drop (2 + length dash) s);
          quote = (case r of [] \<Rightarrow> [] | q # _ \<Rightarrow> if q = 39 \<or> q = 34 then [q] else []);
          n = name_at (drop (length quote) r)
      in if starts_with [60, 60] s \<and> n \<noteq> [] \<and> starts_with quote (drop (length quote + length n) r)
         then Some (n, 2 + length dash + length gap + length quote + length n + length quote) else None)"

function skip_doc :: "ustr \<Rightarrow> ustr \<Rightarrow> ustr \<times> ustr" where
  "skip_doc delim s =
     (if s = [] then ([], [])
      else let line = takeWhile (\<lambda>c. c \<noteq> 10) s; rest = drop (length line + 1) s
           in if dropWhile (\<lambda>c. c = 9) line = delim then ([10], rest)
              else apfst (\<lambda>b. 10 # b) (skip_doc delim rest))"
  by pat_completeness auto
termination by (relation "measure (\<lambda>(d, s). length s)") auto

declare skip_doc.simps [simp del]

text \<open>The body of each announced document.\<close>

fun skip_docs :: "ustr list \<Rightarrow> ustr \<Rightarrow> ustr \<times> ustr" where
  "skip_docs [] s = ([], s)"
| "skip_docs (d # ds) s = (case skip_doc d s of (b, r) \<Rightarrow> apfst (\<lambda>b'. b @ b') (skip_docs ds r))"

fun double_quoted :: "ustr \<Rightarrow> ustr \<times> ustr" where
  "double_quoted [] = ([], [])"
| "double_quoted (c # cs) =
     (if c = 34 then ([34], cs)
      else if c = 92 then (case cs of [] \<Rightarrow> ([92], []) | d # ds \<Rightarrow> apfst (\<lambda>w. 92 # d # w) (double_quoted ds))
      else apfst (\<lambda>w. c # w) (double_quoted cs))"

definition breaks_of :: "ustr \<Rightarrow> ustr" where
  "breaks_of s = filter (\<lambda>c. c = 10) s"

definition starts_comment :: "nat option \<Rightarrow> bool" where
  "starts_comment prior \<longleftrightarrow> (case prior of None \<Rightarrow> True | Some b \<Rightarrow> b \<in> {32, 9, 10, 59, 38, 124, 40, 41})"

lemma skip_doc_length: "length (snd (skip_doc d s)) \<le> length s"
proof (induction d s rule: skip_doc.induct)
  case (1 delim s)
  let ?line = "takeWhile (\<lambda>c. c \<noteq> 10) s"
  let ?rest = "drop (length ?line + 1) s"
  show ?case
  proof (cases "s = [] \<or> dropWhile (\<lambda>c. c = 9) ?line = delim")
    case True
    then show ?thesis by (subst skip_doc.simps) (auto simp: Let_def)
  next
    case False
    then have "length (snd (skip_doc delim ?rest)) \<le> length ?rest" by (intro 1) auto
    then have "length (snd (skip_doc delim ?rest)) \<le> length s" by simp
    then show ?thesis using False by (subst skip_doc.simps) (simp add: Let_def)
  qed
qed

lemma skip_docs_length: "length (snd (skip_docs ds s)) \<le> length s"
proof (induction ds arbitrary: s)
  case (Cons d ds)
  obtain b r where q: "skip_doc d s = (b, r)" by fastforce
  have "length r \<le> length s" using skip_doc_length [of d s] q by simp
  moreover have "length (snd (skip_docs ds r)) \<le> length r" by (rule Cons.IH)
  ultimately show ?case using q by simp
qed simp

lemma double_quoted_length: "length (snd (double_quoted s)) \<le> length s"
proof (induction s rule: double_quoted.induct)
  case (2 c cs)
  then show ?case by (cases cs) (auto intro: le_SucI)
qed simp

lemma heredoc_at_pos: "heredoc_at s = Some (n, k) \<Longrightarrow> 0 < k \<and> s \<noteq> []"
  by (auto simp: heredoc_at_def Let_def starts_with_def split: if_splits)

text \<open>
  \<open>code_only\<close>: \<open>keep\<close> the double-quoted strings or not, the character before, the delimiters of the
  here-documents announced on this line, and the rest of the body.
\<close>

function sh_code :: "bool \<Rightarrow> nat option \<Rightarrow> ustr list \<Rightarrow> ustr \<Rightarrow> ustr" where
  "sh_code keep prior docs [] = []"
| "sh_code keep prior docs (c # cs) =
     (if c = 10 then (case skip_docs docs cs of (b, r) \<Rightarrow> 10 # b @ sh_code keep (Some 10) [] r)
      else if c = 92 \<and> cs \<noteq> []
      then (if hd cs = 10 then [32, 10] else [32, 32]) @ sh_code keep (Some (hd cs)) docs (tl cs)
      else if c = 39
      then [39, 39] @ breaks_of (takeWhile (\<lambda>x. x \<noteq> 39) cs) @
           sh_code keep (Some 39) docs (drop 1 (dropWhile (\<lambda>x. x \<noteq> 39) cs))
      else if c = 34
      then (case double_quoted cs of (w, r) \<Rightarrow>
              (if keep then 34 # w else [34, 34] @ breaks_of w) @ sh_code keep (Some 34) docs r)
      else if c = 35 \<and> starts_comment prior then sh_code keep (Some c) docs (dropWhile (\<lambda>x. x \<noteq> 10) cs)
      else case heredoc_at (c # cs) of
             Some (d, k) \<Rightarrow>
               replicate k 32 @ sh_code keep (Some (last (take k (c # cs)))) (docs @ [d]) (drop k (c # cs))
           | None \<Rightarrow> c # sh_code keep (Some c) docs cs)"
  by pat_completeness auto
termination
proof (relation "measure (\<lambda>(keep, prior, docs, s). length s)", goal_cases)
  case (2 keep prior docs c cs b r)
  then have "r = snd (skip_docs docs cs)" by (metis snd_conv)
  then show ?case using skip_docs_length [of docs cs] by simp
next
  case (4 keep prior docs c cs)
  have "length (dropWhile (\<lambda>x. x \<noteq> 39) cs) \<le> length cs" by (rule length_dropWhile_le)
  then show ?case by simp
next
  case (5 keep prior docs c cs w r)
  then have "r = snd (double_quoted cs)" by (metis snd_conv)
  then show ?case using double_quoted_length [of cs] by simp
next
  case (6 keep prior docs c cs)
  have "length (dropWhile (\<lambda>x. x \<noteq> 10) cs) \<le> length cs" by (rule length_dropWhile_le)
  then show ?case by simp
next
  case (8 keep prior docs c cs p d k)
  then have "heredoc_at (c # cs) = Some (d, k)" by simp
  then show ?case using heredoc_at_pos [of "c # cs" d k] by simp
qed auto

declare sh_code.simps(2) [simp del]

definition shell_code :: "bool \<Rightarrow> ustr \<Rightarrow> ustr" where
  "shell_code keep body = sh_code keep None [] body"

section \<open>The rules\<close>

definition LIB_FUNCTIONS :: "ustr list" where
  "LIB_FUNCTIONS = map str_of [''spawn'', ''stop'', ''wait_ready'', ''free_port'', ''fail'']"

definition bash_expansion :: "unit pattern" where
  "bash_expansion b s =
     (let r = drop 2 s; n = name_at r; t = drop (length n) r
      in if \<not> starts_with [36, 123] s then None
         else if starts_with [33] r then Some ((), drop 1 r)
         else if n = [] then None
         else case t of
                [] \<Rightarrow> None
              | c # cs \<Rightarrow>
                  if c \<in> {47, 94, 44} \<or> c = 58 \<and> (case cs of [] \<Rightarrow> True | d # _ \<Rightarrow> d \<notin> {45, 61, 63, 43})
                  then Some ((), cs) else None)"

definition bracket_here :: "ustr \<Rightarrow> bool" where
  "bracket_here s \<longleftrightarrow> starts_with [91, 91] s \<and> (case drop 2 s of [] \<Rightarrow> False | c # _ \<Rightarrow> u_space c)"

definition double_bracket :: "unit pattern" where
  "double_bracket b s =
     (if b = None \<and> bracket_here s then Some ((), drop 3 s)
      else case s of
             [] \<Rightarrow> None
           | c # cs \<Rightarrow>
               if (u_space c \<or> c \<in> {59, 38, 124, 40, 33}) \<and> bracket_here cs then Some ((), drop 3 cs) else None)"

definition not_word :: "(nat \<Rightarrow> bool) \<Rightarrow> nat option \<Rightarrow> bool" where
  "not_word alnum b \<longleftrightarrow> (case b of None \<Rightarrow> True | Some c \<Rightarrow> \<not> u_word alnum c)"

text \<open>The pattern's group is the rest of the line.\<close>

definition nested_uv_run :: "(nat \<Rightarrow> bool) \<Rightarrow> ustr pattern" where
  "nested_uv_run alnum b s =
     (let r = dropWhile u_space (drop 2 s); t = drop 3 r
      in if not_word alnum b \<and> b \<notin> {Some 46, Some 47, Some 45} \<and> starts_with [117, 118] s \<and>
            takeWhile u_space (drop 2 s) \<noteq> [] \<and> starts_with (str_of ''run'') r \<and> ends_word alnum t
         then Some (takeWhile (\<lambda>c. c \<noteq> 10) t, dropWhile (\<lambda>c. c \<noteq> 10) t) else None)"

definition assign_one :: "ustr \<Rightarrow> ustr option" where
  "assign_one s =
     (let n = name_at s; t = drop (length n) s; v = dropWhile (\<lambda>c. \<not> u_space c) (drop 1 t)
      in if n \<noteq> [] \<and> starts_with [61] t \<and> takeWhile blank v \<noteq> [] then Some (dropWhile blank v) else None)"

definition lib_word :: "(nat \<Rightarrow> bool) \<Rightarrow> ustr \<Rightarrow> (ustr \<times> ustr) option" where
  "lib_word alnum s =
     (case filter (\<lambda>f. starts_with f s \<and> ends_word alnum (drop (length f) s)) LIB_FUNCTIONS of
        [] \<Rightarrow> None
      | f # _ \<Rightarrow> Some (f, drop (length f) s))"

lemma assign_one_shorter: "assign_one s = Some r \<Longrightarrow> length r < length s"
proof -
  assume a: "assign_one s = Some r"
  have "length (dropWhile (\<lambda>c. \<not> u_space c) (drop 1 (drop (length (name_at s)) s))) \<le> length s - length (name_at s) - 1"
    using length_dropWhile_le [of "\<lambda>c. \<not> u_space c" "drop 1 (drop (length (name_at s)) s)"] by simp
  then have "length r \<le> length s - length (name_at s) - 1"
    using a length_dropWhile_le [of blank] by (auto simp: assign_one_def Let_def split: if_splits intro: order_trans)
  moreover have "s \<noteq> []" using a by (auto simp: assign_one_def name_at_def Let_def)
  moreover have "name_at s \<noteq> []" using a by (auto simp: assign_one_def Let_def split: if_splits)
  ultimately show ?thesis by (cases s) auto
qed

text \<open>As many assignments as there are, then the function; with fewer when that fails.\<close>

function lib_after :: "(nat \<Rightarrow> bool) \<Rightarrow> ustr \<Rightarrow> (ustr \<times> ustr) option" where
  "lib_after alnum s =
     (case assign_one s of
        None \<Rightarrow> lib_word alnum s
      | Some r \<Rightarrow> (case lib_after alnum r of None \<Rightarrow> lib_word alnum s | Some x \<Rightarrow> Some x))"
  by pat_completeness auto
termination by (relation "measure (\<lambda>(a, s). length s)") (auto dest: assign_one_shorter)

declare lib_after.simps [simp del]

definition command_starts :: "(nat \<Rightarrow> bool) \<Rightarrow> nat option \<Rightarrow> ustr \<Rightarrow> ustr list" where
  "command_starts alnum b s =
     (if line_start b then [s] else []) @
     (case s of [] \<Rightarrow> [] | c # cs \<Rightarrow> if c \<in> {59, 38, 124, 123, 40} then [cs] else []) @
     map (\<lambda>w. drop (length w) s)
       (filter (\<lambda>w. not_word alnum b \<and> starts_with w s \<and> ends_word alnum (drop (length w) s))
          (map str_of [''then'', ''do'', ''else'']))"

definition assign_before_lib :: "(nat \<Rightarrow> bool) \<Rightarrow> ustr pattern" where
  "assign_before_lib alnum b s =
     (case List.map_filter (\<lambda>t. case assign_one (dropWhile blank t) of None \<Rightarrow> None | Some r \<Rightarrow> lib_after alnum r)
             (command_starts alnum b s) of
        [] \<Rightarrow> None
      | x # _ \<Rightarrow> Some x)"

section \<open>Fixed ports\<close>

text \<open>\<open>re.I\<close> on the letters of the pattern, with the four characters outside ASCII that fold onto one.\<close>

definition fold_case :: "nat \<Rightarrow> nat" where
  "fold_case c =
     (if 65 \<le> c \<and> c \<le> 90 then c + 32 else if c = 304 \<or> c = 305 then 105 else if c = 383 then 115
      else if c = 8490 then 107 else c)"

definition starts_folded :: "string \<Rightarrow> ustr \<Rightarrow> bool" where
  "starts_folded w s \<longleftrightarrow> map fold_case (take (length w) s) = str_of w"

definition skip_quote :: "ustr \<Rightarrow> ustr" where
  "skip_quote s = (case s of [] \<Rightarrow> [] | q # r \<Rightarrow> if q = 39 \<or> q = 34 then r else s)"

definition port_option :: "ustr \<Rightarrow> ustr list" where
  "port_option s =
     (if \<not> starts_folded ''--port'' s then []
      else let t = drop 6 s
           in if starts_with [61] t then [skip_quote (drop 1 t)]
              else if takeWhile blank t \<noteq> [] then [skip_quote (dropWhile blank t)] else [])"

definition port_variable :: "(nat \<Rightarrow> bool) \<Rightarrow> nat option \<Rightarrow> ustr \<Rightarrow> ustr list" where
  "port_variable alnum b s =
     (let w = takeWhile (u_word alnum) s; t = dropWhile blank (drop (length w) s);
          stem = rev (dropWhile u_digit (rev w)); lead = take (length stem - 4) stem
      in if not_word alnum b \<and> 4 \<le> length stem \<and> starts_folded ''port'' (drop (length stem - 4) stem) \<and>
            (lead = [] \<or> last lead = 95) \<and> starts_with [61] t
         then [skip_quote (dropWhile blank (drop 1 t))] else [])"

definition hex_or_colon :: "nat \<Rightarrow> bool" where
  "hex_or_colon c \<longleftrightarrow> u_digit c \<or> c = 58 \<or> (97 \<le> fold_case c \<and> fold_case c \<le> 102)"

definition bracketed_host :: "ustr \<Rightarrow> ustr list" where
  "bracketed_host s =
     (let t = dropWhile hex_or_colon (drop 1 s)
      in if starts_with [91] s \<and> starts_with [93, 58] t then [drop 2 t] else [])"

definition after_host :: "ustr \<Rightarrow> ustr list" where
  "after_host s =
     map (\<lambda>h. drop (length h + 1) s)
       (filter (\<lambda>h. starts_folded h s \<and> starts_with [58] (drop (length h) s))
          [''127.0.0.1'', ''localhost'', ''0.0.0.0'', ''host.docker.internal'']) @ bracketed_host s"

definition after_quoted_host :: "ustr \<Rightarrow> ustr list" where
  "after_quoted_host s =
     (if starts_with [39] s \<or> starts_with [34] s
      then concat (map (\<lambda>h. let t = drop (length h + 1) s
              in if starts_folded h (drop 1 s) \<and> (starts_with [39, 44] t \<or> starts_with [34, 44] t)
                 then [dropWhile blank (drop 2 t)] else [])
            [''127.0.0.1'', ''localhost'', ''::1'', ''::'', ''0.0.0.0''])
      else [])"

definition docker_publish :: "nat option \<Rightarrow> ustr \<Rightarrow> ustr list" where
  "docker_publish b s =
     concat (map (\<lambda>t. let r = skip_quote (dropWhile blank (drop 2 t))
          in if starts_folded ''-p'' t \<and> takeWhile blank (drop 2 t) \<noteq> [] \<and> takeWhile u_digit r \<noteq> [] \<and>
                starts_with [58] (dropWhile u_digit r) then [r] else [])
       ((if b = None then [s] else []) @ (case s of [] \<Rightarrow> [] | c # cs \<Rightarrow> if blank c then [cs] else [])))"

definition fixed_port :: "(nat \<Rightarrow> bool) \<Rightarrow> ustr pattern" where
  "fixed_port alnum b s =
     (case filter (\<lambda>t. takeWhile u_digit t \<noteq> [] \<and> ends_word alnum (dropWhile u_digit t))
             (port_option s @ port_variable alnum b s @ after_host s @ after_quoted_host s @ docker_publish b s) of
        [] \<Rightarrow> None
      | t # _ \<Rightarrow> Some (takeWhile u_digit t, dropWhile u_digit t))"

definition u_lstrip :: "ustr \<Rightarrow> ustr" where
  "u_lstrip s = dropWhile u_space s"

definition line_port :: "(nat \<Rightarrow> bool) \<Rightarrow> ustr \<Rightarrow> nat option" where
  "line_port alnum l =
     (if starts_with [35] (u_lstrip l) then None
      else find (\<lambda>n. n \<noteq> 0) (map dec_value (findall (fixed_port alnum) l)))"

section \<open>The lint\<close>

datatype shell_problem =
    Expansion nat
  | DoubleBracket nat
  | ReSyncs nat
  | Outlives nat ustr
  | FixedPort nat nat

definition fixed_ports :: "(nat \<Rightarrow> bool) \<Rightarrow> ustr \<Rightarrow> shell_problem list" where
  "fixed_ports alnum body =
     List.map_filter (\<lambda>(n, l). map_option (FixedPort n) (line_port alnum l)) (enumerate 1 (split_on 10 body))"

definition fixed_port_allowed :: "ustr \<Rightarrow> bool" where
  "fixed_port_allowed name \<longleftrightarrow> starts_with (str_of ''serve-'') name"

definition at_line :: "ustr \<Rightarrow> nat \<Rightarrow> nat" where
  "at_line s i = count_list (take i s) 10 + 1"

definition in_sync :: "ustr \<Rightarrow> bool" where
  "in_sync rest \<longleftrightarrow> contains (str_of ''--no-sync'') rest \<or> contains (str_of ''--no-project'') rest"

definition expansion_problems :: "ustr \<Rightarrow> shell_problem list" where
  "expansion_problems s = map (\<lambda>(i, k). Expansion (at_line s i)) (finds (span_of bash_expansion) s)"

definition bracket_problems :: "ustr \<Rightarrow> shell_problem list" where
  "bracket_problems s = map (\<lambda>(i, k). DoubleBracket (at_line s i)) (finds (span_of double_bracket) s)"

definition sync_problems :: "(nat \<Rightarrow> bool) \<Rightarrow> ustr \<Rightarrow> shell_problem list" where
  "sync_problems alnum s =
     List.map_filter (\<lambda>(i, k). case groups_at (nested_uv_run alnum) s i of
         None \<Rightarrow> None
       | Some rest \<Rightarrow> if in_sync rest then None else Some (ReSyncs (at_line s i)))
       (finds (span_of (nested_uv_run alnum)) s)"

definition assign_problems :: "(nat \<Rightarrow> bool) \<Rightarrow> ustr \<Rightarrow> shell_problem list" where
  "assign_problems alnum s =
     List.map_filter (\<lambda>(i, k). map_option (Outlives (at_line s i)) (groups_at (assign_before_lib alnum) s i))
       (finds (span_of (assign_before_lib alnum)) s)"

definition shell_lint :: "(nat \<Rightarrow> bool) \<Rightarrow> ustr \<Rightarrow> bool \<Rightarrow> shell_problem list" where
  "shell_lint alnum body port_ok =
     (let code = shell_code False body
      in expansion_problems (shell_code True body) @ bracket_problems code @ sync_problems alnum code @
         assign_problems alnum code @ (if port_ok then [] else fixed_ports alnum body))"

datatype task_failure = NoTasks | DoesNotParse ustr string ustr | Problem ustr shell_problem

definition body_failures ::
  "(nat \<Rightarrow> bool) \<Rightarrow> (string \<Rightarrow> ustr \<Rightarrow> ustr) \<Rightarrow> string list \<Rightarrow> ustr \<times> ustr \<Rightarrow> task_failure list" where
  "body_failures alnum complaint shells nb =
     map (\<lambda>sh. DoesNotParse (fst nb) sh (complaint sh (snd nb))) (filter (\<lambda>sh. complaint sh (snd nb) \<noteq> []) shells) @
     map (Problem (fst nb)) (shell_lint alnum (snd nb) (fixed_port_allowed (fst nb)))"

definition check_tasks ::
  "(nat \<Rightarrow> bool) \<Rightarrow> (string \<Rightarrow> ustr \<Rightarrow> ustr) \<Rightarrow> string list \<Rightarrow> (ustr \<times> poe_task) list \<Rightarrow> task_failure list" where
  "check_tasks alnum complaint shells tasks =
     (if shell_tasks tasks = [] then [NoTasks]
      else concat (map (body_failures alnum complaint shells) (shell_tasks tasks)) @
           concat (map (\<lambda>(n, c). if fixed_port_allowed n then [] else map (Problem n) (fixed_ports alnum c)) (cmd_tasks tasks)))"

section \<open>Lines hold\<close>

abbreviation line_breaks :: "ustr \<Rightarrow> nat" where
  "line_breaks s \<equiv> count_list s 10"

lemma breaks_of_count: "line_breaks (breaks_of s) = line_breaks s"
  by (induction s) (auto simp: breaks_of_def)

lemma count_takeWhile_drop: "line_breaks (takeWhile P s) + line_breaks (dropWhile P s) = line_breaks s"
  using count_list_append [of "takeWhile P s" "dropWhile P s"] by simp

lemma line_breaks_tail: "s = [] \<or> hd s \<noteq> 10 \<Longrightarrow> line_breaks (drop 1 s) = line_breaks s"
  by (cases s) auto

lemma no_break_before: "line_breaks (takeWhile (\<lambda>c. c \<noteq> 10) s) = 0"
  using set_takeWhileD [of 10 "\<lambda>c. c \<noteq> 10" s] by (auto simp: count_list_0_iff)

lemma skip_line:
  "line_breaks s = line_breaks (drop (length (takeWhile (\<lambda>c. c \<noteq> 10) s) + 1) s) + (if 10 \<in> set s then 1 else 0)"
proof (induction s)
  case (Cons c s)
  then show ?case by (cases "c = 10") auto
qed simp

lemma skip_doc_breaks:
  assumes "skip_doc d s = (b, r)"
  shows "line_breaks b + line_breaks r = line_breaks s \<or> r = [] \<and> line_breaks b = Suc (line_breaks s)"
  using assms
proof (induction d s arbitrary: b r rule: skip_doc.induct)
  case (1 delim s)
  let ?line = "takeWhile (\<lambda>c. c \<noteq> 10) s"
  let ?rest = "drop (length ?line + 1) s"
  have last: "10 \<notin> set s \<Longrightarrow> ?rest = []" 
  proof -
    assume "10 \<notin> set s"
    then have "length ?line = length s" by (subst takeWhile_eq_all_conv [THEN iffD2]) auto
    then show "?rest = []" by simp
  qed
  show ?case
  proof (cases "s = [] \<or> dropWhile (\<lambda>c. c = 9) ?line = delim")
    case True
    then have "skip_doc delim s = (if s = [] then ([], []) else ([10], ?rest))"
      by (subst skip_doc.simps) (auto simp: Let_def)
    then have "b = (if s = [] then [] else [10]) \<and> r = (if s = [] then [] else ?rest)"
      using 1(2) by (auto split: if_splits)
    then show ?thesis using skip_line [of s] last by (cases "10 \<in> set s") (auto split: if_splits)
  next
    case False
    obtain b' r' where q: "skip_doc delim ?rest = (b', r')" by fastforce
    then have "skip_doc delim s = (10 # b', r')" using False by (subst skip_doc.simps) (simp add: Let_def)
    then have br: "b = 10 # b'" "r = r'" using 1(2) by auto
    have ih: "line_breaks b' + line_breaks r' = line_breaks ?rest \<or> r' = [] \<and> line_breaks b' = Suc (line_breaks ?rest)"
      using False q by (intro 1(1)) auto
    show ?thesis
    proof (cases "10 \<in> set s")
      case True
      then show ?thesis using ih br skip_line [of s] by auto
    next
      case no: False
      then have "b' = []" "r' = []" using q last by (simp_all add: skip_doc.simps [of delim "[]"])
      then show ?thesis using no br skip_line [of s] last by simp
    qed
  qed
qed

lemma skip_docs_breaks:
  assumes "skip_docs ds s = (b, r)"
  shows "line_breaks b + line_breaks r = line_breaks s \<or> r = [] \<and> line_breaks b = Suc (line_breaks s)"
  using assms
proof (induction ds arbitrary: s b r)
  case (Cons d ds)
  obtain b1 r1 where q1: "skip_doc d s = (b1, r1)" by fastforce
  obtain b2 r2 where q2: "skip_docs ds r1 = (b2, r2)" by fastforce
  have br: "b = b1 @ b2" "r = r2" using Cons.prems q1 q2 by auto
  have empty: "skip_docs ds [] = ([], [])" by (induction ds) (simp_all add: skip_doc.simps)
  show ?case
  proof (cases "r1 = []")
    case True
    then show ?thesis using skip_doc_breaks [OF q1] q2 br empty by auto
  next
    case False
    then show ?thesis using skip_doc_breaks [OF q1] Cons.IH [OF q2] br by auto
  qed
qed simp

lemma double_quoted_text: "double_quoted s = (w, r) \<Longrightarrow> w @ r = s"
proof (induction s arbitrary: w r rule: double_quoted.induct)
  case (2 c cs)
  consider "c = 34" | "c = 92" "cs = []" | d ds where "c = 92" "cs = d # ds" | "c \<noteq> 34" "c \<noteq> 92"
    by (cases cs) auto
  then show ?case
  proof cases
    case 3
    obtain w' r' where "double_quoted ds = (w', r')" by fastforce
    then show ?thesis using 2 3 by auto
  next
    case 4
    obtain w' r' where "double_quoted cs = (w', r')" by fastforce
    then show ?thesis using 2 4 by auto
  qed (use 2 in auto)
qed simp

lemma name_at_no_break: "10 \<notin> set (name_at s)"
proof
  assume a: "10 \<in> set (name_at s)"
  obtain c cs where s: "s = c # cs" using a by (cases s) (auto simp: name_at_def)
  have "10 \<in> set (takeWhile name_part s)" using a s by (simp add: name_at_def split: if_splits)
  then have "name_part 10" using set_takeWhileD by metis
  then show False by (simp add: name_part_def latin_letter_def u_digit_def)
qed

lemma name_at_take: "take (length (name_at s)) s = name_at s"
proof (cases "name_at s = []")
  case False
  then have "name_at s = takeWhile name_part s" by (cases s) (auto simp: name_at_def split: if_splits)
  then show ?thesis by (metis append_eq_conv_conj takeWhile_dropWhile_id)
qed simp

lemma heredoc_at_text:
  assumes "heredoc_at s = Some (n, k)"
  shows "10 \<notin> set (take k s)"
proof -
  define dash where "dash = (if starts_with [45] (drop 2 s) then [45] else [] :: ustr)"
  define gap where "gap = takeWhile blank (drop (2 + length dash) s)"
  define r where "r = dropWhile blank (drop (2 + length dash) s)"
  define quote where "quote = (case r of [] \<Rightarrow> [] | q # _ \<Rightarrow> if q = 39 \<or> q = 34 then [q] else [])"
  define m where "m = name_at (drop (length quote) r)"
  have h: "starts_with [60, 60] s" "starts_with quote (drop (length quote + length m) r)"
    "k = 2 + length dash + length gap + length quote + length m + length quote"
    using assms unfolding heredoc_at_def Let_def dash_def gap_def r_def quote_def m_def by (auto split: if_splits)
  obtain s1 where s1: "s = [60, 60] @ s1" using h(1) by (auto simp: starts_with_iff)
  obtain s2 where s2: "s1 = dash @ s2"
  proof (cases "starts_with [45] s1")
    case True
    then show ?thesis using s1 that by (auto simp: dash_def starts_with_iff)
  next
    case False
    then show ?thesis using s1 that [of s1] by (simp add: dash_def)
  qed
  have s3: "s2 = gap @ r" using s1 s2 by (simp add: gap_def r_def)
  have "r = quote @ drop (length quote) r" by (cases r) (auto simp: quote_def)
  then obtain s4 where s4: "r = quote @ s4" by blast
  obtain s5 where s5: "s4 = m @ s5" using s4 name_at_take [of s4] by (metis append_eq_conv_conj append_take_drop_id m_def)
  obtain s6 where s6: "s5 = quote @ s6" using h(2) s4 s5 by (auto simp: starts_with_iff)
  have "take k s = [60, 60] @ dash @ gap @ quote @ m @ quote" using s1 s2 s3 s4 s5 s6 h(3) by simp
  moreover have "10 \<notin> set dash" "10 \<notin> set quote" by (auto simp: dash_def quote_def split: list.splits)
  moreover have "10 \<notin> set gap" unfolding gap_def using set_takeWhileD [of 10 blank] by (auto simp: blank_def)
  moreover have "10 \<notin> set m" unfolding m_def by (rule name_at_no_break)
  ultimately show ?thesis by simp
qed

text \<open>
  The code of a body has the body's lines, one more at the end when a here-document's last line
  has no break: a rule's line number is the line of the body.
\<close>

lemma code_keeps_lines:
  "line_breaks (sh_code keep prior docs s) \<in> {line_breaks s, Suc (line_breaks s)}"
proof (induction keep prior docs s rule: sh_code.induct)
  case (2 keep prior docs c cs)
  note unf = sh_code.simps(2) [of keep prior docs c cs]
  consider "c = 10" | "c = 92" "cs \<noteq> []" | "c = 39" | "c = 34" | "c = 35" "starts_comment prior"
    | "c \<noteq> 10" "\<not> (c = 92 \<and> cs \<noteq> [])" "c \<noteq> 39" "c \<noteq> 34" "\<not> (c = 35 \<and> starts_comment prior)" by blast
  then show ?case
  proof cases
    case 1
    obtain b r where q: "skip_docs docs cs = (b, r)" by fastforce
    have "line_breaks (sh_code keep (Some 10) [] r) \<in> {line_breaks r, Suc (line_breaks r)}"
      by (rule "2.IH"(1)) (use 1 q in auto)
    then show ?thesis using skip_docs_breaks [OF q] 1 q unf by (cases "r = []") auto
  next
    case 2
    obtain d ds where cs: "cs = d # ds" using 2(2) by (cases cs) auto
    have "line_breaks (sh_code keep (Some (hd cs)) docs (tl cs)) \<in> {line_breaks (tl cs), Suc (line_breaks (tl cs))}"
      by (rule "2.IH"(2)) (use 2 in auto)
    then show ?thesis using 2(1) unf cs by (cases "d = 10") auto
  next
    case 3
    let ?r = "dropWhile (\<lambda>x. x \<noteq> 39) cs"
    have "line_breaks (sh_code keep (Some 39) docs (drop 1 ?r)) \<in> {line_breaks (drop 1 ?r), Suc (line_breaks (drop 1 ?r))}"
      by (rule "2.IH"(3)) (use 3 in auto)
    moreover have "line_breaks (drop 1 ?r) = line_breaks ?r"
      by (rule line_breaks_tail) (use hd_dropWhile [of "\<lambda>x. x \<noteq> 39" cs] in auto)
    ultimately show ?thesis
      using 3 unf count_takeWhile_drop [of "\<lambda>x. x \<noteq> 39" cs] by (auto simp: breaks_of_count)
  next
    case 4
    obtain w r where q: "double_quoted cs = (w, r)" by fastforce
    have "line_breaks (sh_code keep (Some 34) docs r) \<in> {line_breaks r, Suc (line_breaks r)}"
      by (rule "2.IH"(4)) (use 4 q in auto)
    moreover have "line_breaks w + line_breaks r = line_breaks cs"
      using double_quoted_text [OF q] by (metis count_list_append)
    ultimately show ?thesis using 4 q unf by (auto simp: breaks_of_count)
  next
    case 5
    let ?r = "dropWhile (\<lambda>x. x \<noteq> 10) cs"
    have "line_breaks (sh_code keep (Some c) docs ?r) \<in> {line_breaks ?r, Suc (line_breaks ?r)}"
      by (rule "2.IH"(5)) (use 5 in auto)
    then show ?thesis
      using 5 unf count_takeWhile_drop [of "\<lambda>x. x \<noteq> 10" cs] no_break_before [of cs] by auto
  next
    case 6
    show ?thesis
    proof (cases "heredoc_at (c # cs)")
      case None
      then have "line_breaks (sh_code keep (Some c) docs cs) \<in> {line_breaks cs, Suc (line_breaks cs)}"
        by (intro "2.IH"(6)) (use 6 in auto)
      then show ?thesis using None 6 unf by auto
    next
      case (Some dk)
      obtain d k where dk: "heredoc_at (c # cs) = Some (d, k)" using Some by (cases dk) auto
      let ?r = "drop k (c # cs)"
      have "line_breaks (sh_code keep (Some (last (take k (c # cs)))) (docs @ [d]) ?r) \<in> {line_breaks ?r, Suc (line_breaks ?r)}"
        by (rule "2.IH"(7)) (use 6 dk in auto)
      moreover have "line_breaks (take k (c # cs)) + line_breaks ?r = line_breaks (c # cs)"
        by (metis append_take_drop_id count_list_append)
      moreover have "line_breaks (take k (c # cs)) = 0" using heredoc_at_text [OF dk] by (simp add: count_list_0_iff)
      moreover have "line_breaks (replicate k (32::nat)) = 0" by (simp add: count_list_0_iff)
      moreover have "sh_code keep prior docs (c # cs) =
          replicate k 32 @ sh_code keep (Some (last (take k (c # cs)))) (docs @ [d]) ?r"
        unfolding unf using 6 dk by auto
      ultimately show ?thesis by auto
    qed
  qed
qed simp

text \<open>Text without a quote, a backslash, a number sign or a less-than sign is all code.\<close>

lemma plain_text_is_code:
  "list_all (\<lambda>c. c \<notin> {34, 35, 39, 60, 92}) s \<Longrightarrow> sh_code keep prior [] s = s"
proof (induction s arbitrary: prior)
  case (Cons c cs)
  have "heredoc_at (c # cs) = None" using Cons.prems by (auto simp: heredoc_at_def Let_def starts_with_def)
  then show ?case using Cons by (simp add: sh_code.simps(2))
qed simp

section \<open>A clean lint\<close>

lemma map_filter_Nil: "List.map_filter f xs = [] \<longleftrightarrow> (\<forall>x \<in> set xs. f x = None)"
  by (induction xs) (auto simp: map_filter_simps split: option.splits)

lemma found_has_groups: "(i, k) \<in> set (finds (span_of p) s) \<Longrightarrow> groups_at p s i \<noteq> None"
  unfolding finds_def by (drule finds_from_sound) (auto simp: match_at_def span_of_def groups_at_def)

lemma assign_problems_Nil:
  "assign_problems alnum s = [] \<longleftrightarrow> (\<forall>i < length s. match_at (span_of (assign_before_lib alnum)) s i = None)"
proof -
  have "assign_problems alnum s = [] \<longleftrightarrow> finds (span_of (assign_before_lib alnum)) s = []"
  proof
    assume a: "assign_problems alnum s = []"
    show "finds (span_of (assign_before_lib alnum)) s = []"
    proof (rule ccontr)
      assume "finds (span_of (assign_before_lib alnum)) s \<noteq> []"
      then obtain i k where f: "(i, k) \<in> set (finds (span_of (assign_before_lib alnum)) s)"
        by (metis list.set_intros(1) neq_Nil_conv surj_pair)
      then show False using a found_has_groups [OF f] by (fastforce simp: assign_problems_def map_filter_Nil)
    qed
  qed (simp add: assign_problems_def map_filter_simps)
  then show ?thesis by (simp add: finds_none)
qed

text \<open>
  When the lint says nothing of a body, its code has at no place a bash expansion, a double
  bracket or an assignment before a function of the library, every nested \<open>uv run\<close> that was found
  says that it does not sync, and no line has a fixed port that was found, unless it may.
\<close>

lemma clean_body:
  "shell_lint alnum body port_ok = [] \<longleftrightarrow>
     (\<forall>i < length (shell_code True body). match_at (span_of bash_expansion) (shell_code True body) i = None) \<and>
     (\<forall>i < length (shell_code False body). match_at (span_of double_bracket) (shell_code False body) i = None) \<and>
     (\<forall>i < length (shell_code False body). match_at (span_of (assign_before_lib alnum)) (shell_code False body) i = None) \<and>
     sync_problems alnum (shell_code False body) = [] \<and>
     (port_ok \<or> (\<forall>l \<in> set (split_on 10 body). line_port alnum l = None))"
proof -
  have "List.map_filter (\<lambda>(n, l). map_option (FixedPort n) (line_port alnum l)) (enumerate k ls) = []
      \<longleftrightarrow> (\<forall>l \<in> set ls. line_port alnum l = None)" for k ls
    by (induction ls arbitrary: k) (auto simp: map_filter_simps split: option.splits)
  then have "fixed_ports alnum body = [] \<longleftrightarrow> (\<forall>l \<in> set (split_on 10 body). line_port alnum l = None)"
    unfolding fixed_ports_def .
  then show ?thesis
    by (auto simp: shell_lint_def Let_def expansion_problems_def bracket_problems_def assign_problems_Nil finds_none)
qed

section \<open>What the rules do not see\<close>

lemma no_match_without:
  assumes "\<And>b t. p b t \<noteq> None \<Longrightarrow> c \<in> set t" and "c \<notin> set s"
  shows "match_at (span_of p) s i = None"
proof (rule ccontr)
  assume "match_at (span_of p) s i \<noteq> None"
  then have "p (before_at s i) (drop i s) \<noteq> None" by (simp add: match_at_def span_of_def)
  then have "c \<in> set (drop i s)" by (rule assms(1))
  then show False using assms(2) in_set_dropD by metis
qed

lemma starts_with_set: "starts_with w s \<Longrightarrow> set w \<subseteq> set s"
  by (auto simp: starts_with_iff)

lemma expansion_needs_brace: "bash_expansion b s \<noteq> None \<Longrightarrow> 123 \<in> set s"
  using starts_with_set [of "[36, 123]" s] by (auto simp: bash_expansion_def Let_def split: if_splits)

lemma bracket_needs_bracket: "double_bracket b s \<noteq> None \<Longrightarrow> 91 \<in> set s"
  using starts_with_set [of "[91, 91]"]
  by (fastforce simp: double_bracket_def bracket_here_def split: if_splits list.splits)

lemma run_needs_u: "nested_uv_run alnum b s \<noteq> None \<Longrightarrow> 117 \<in> set s"
  using starts_with_set [of "[117, 118]" s] by (auto simp: nested_uv_run_def Let_def split: if_splits)

lemma assign_one_needs: "assign_one s \<noteq> None \<Longrightarrow> 61 \<in> set s"
  using starts_with_set [of "[61]" "drop (length (name_at s)) s"]
  by (auto simp: assign_one_def Let_def split: if_splits dest: in_set_dropD)

lemma command_starts_set: "t \<in> set (command_starts alnum b s) \<Longrightarrow> set t \<subseteq> set s"
  by (cases s) (auto simp: command_starts_def split: if_splits dest: in_set_dropD)

lemma assign_needs_equals:
  assumes "assign_before_lib alnum b s \<noteq> None"
  shows "61 \<in> set s"
proof -
  let ?f = "\<lambda>t. case assign_one (dropWhile blank t) of None \<Rightarrow> None | Some r \<Rightarrow> lib_after alnum r"
  have "List.map_filter ?f (command_starts alnum b s) \<noteq> []"
    using assms by (auto simp: assign_before_lib_def)
  then obtain t where t: "t \<in> set (command_starts alnum b s)" "assign_one (dropWhile blank t) \<noteq> None"
    unfolding map_filter_Nil by (auto split: option.splits)
  have "61 \<in> set (dropWhile blank t)" using assign_one_needs [OF t(2)] .
  then show ?thesis using command_starts_set [OF t(1)] set_dropWhileD by fastforce
qed

lemma nothing_to_say:
  assumes "shell_code True body = s" "shell_code False body = s" "123 \<notin> set s" "91 \<notin> set s" "61 \<notin> set s"
    and "sync_problems alnum s = []"
  shows "shell_lint alnum body True = []"
  unfolding clean_body assms(1,2)
proof (intro conjI allI impI)
  show "match_at (span_of bash_expansion) s i = None" for i
    by (rule no_match_without [where c = 123]) (use expansion_needs_brace assms(3) in auto)
  show "match_at (span_of double_bracket) s i = None" for i
    by (rule no_match_without [where c = 91]) (use bracket_needs_bracket assms(4) in auto)
  show "match_at (span_of (assign_before_lib alnum)) s i = None" for i
    by (rule no_match_without [where c = 61]) (use assign_needs_equals assms(5) in auto)
qed (simp_all add: assms(6))

text \<open>
  \<open>echo $((1<<n))\<close>, then \<open>[[ -n a ]]\<close>: a shift in an arithmetic expansion reads as a here-document
  and the rest of the body is skipped.
\<close>

definition shifting :: ustr where
  "shifting = [101, 99, 104, 111, 32, 36, 40, 40, 49, 60, 60, 110, 41, 41, 10, 91, 91, 32, 45, 110, 32, 97, 32, 93, 93]"

lemma shift_hides_the_rest: "shell_lint alnum shifting True = []"
proof (rule nothing_to_say)
  show "shell_code True shifting = [101, 99, 104, 111, 32, 36, 40, 40, 49, 32, 32, 32, 41, 41, 10, 10]" "shell_code False shifting = [101, 99, 104, 111, 32, 36, 40, 40, 49, 32, 32, 32, 41, 41, 10, 10]"
    by (simp_all add: shell_code_def shifting_def sh_code.simps(2) heredoc_at_def Let_def starts_with_def
        blank_def name_at_def name_start_def name_part_def latin_letter_def u_digit_def skip_doc.simps
        numeral_eq_Suc [of "num.Bit0 num.One"])
  have "(117::nat) \<notin> set [101, 99, 104, 111, 32, 36, 40, 40, 49, 32, 32, 32, 41, 41, 10, 10]" by simp
  then have "finds (span_of (nested_uv_run alnum)) [101, 99, 104, 111, 32, 36, 40, 40, 49, 32, 32, 32, 41, 41, 10, 10] = []"
    unfolding finds_none using run_needs_u no_match_without [where c = 117] by blast
  then show "sync_problems alnum [101, 99, 104, 111, 32, 36, 40, 40, 49, 32, 32, 32, 41, 41, 10, 10] = []" by (simp add: sync_problems_def map_filter_simps)
qed simp_all

text \<open>
  \<open>uv run --no-sync a && uv run b\<close>: the rest of the line belongs to the first \<open>uv run\<close>, and a
  second one is judged by its options.
\<close>

definition two_runs :: ustr where
  "two_runs = [117, 118, 32, 114, 117, 110, 32, 45, 45, 110, 111, 45, 115, 121, 110, 99, 32, 97, 32, 38, 38, 32, 117, 118, 32, 114, 117, 110, 32, 98]"

lemma two_runs_found: "finds (span_of (nested_uv_run alnum)) two_runs = [(0, length two_runs)]"
proof -
  have "match_at (span_of (nested_uv_run alnum)) two_runs 0 = Some (length two_runs)"
    by (simp add: match_at_def span_of_def nested_uv_run_def before_at_def two_runs_def not_word_def Let_def
        starts_with_def str_of_def ends_word_def u_word_def u_space_def)
  then show ?thesis
    unfolding finds_def
    by (subst finds_from.simps, simp add: two_runs_def) (subst finds_from.simps, simp)
qed

lemma second_run_unseen: "shell_lint alnum two_runs True = []"
proof (rule nothing_to_say)
  show "shell_code True two_runs = two_runs" "shell_code False two_runs = two_runs"
    unfolding shell_code_def by (rule plain_text_is_code, simp add: two_runs_def)+
  have "groups_at (nested_uv_run alnum) two_runs 0 = Some (drop 6 two_runs)"
    by (simp add: groups_at_def nested_uv_run_def before_at_def two_runs_def not_word_def Let_def
        starts_with_def str_of_def ends_word_def u_word_def u_space_def)
  moreover have "in_sync (drop 6 two_runs)"
    by (simp add: in_sync_def two_runs_def str_of_def starts_with_def)
  ultimately show "sync_problems alnum two_runs = []"
    by (simp add: sync_problems_def two_runs_found map_filter_simps)
qed (simp_all add: two_runs_def)

end
