(* ===== verification/Spec_Sheet.thy ===== *)
theory Spec_Sheet
  imports Regex_Scan "HOL-Library.AList"
begin

text \<open>
  scripts/spec\_sheet.py: what is read of docs/SPEC.md, of a workflow and of the table of tasks.
  The table arrives parsed as TOML, \<open>\d\<close> is an ASCII digit.
\<close>

section \<open>Cells\<close>

fun cells_from :: "ustr \<Rightarrow> ustr \<Rightarrow> ustr list" where
  "cells_from cur [] = [u_strip cur]"
| "cells_from cur (c # cs) =
     (if c = 92 then (case cs of [] \<Rightarrow> [u_strip (cur @ [92])] | d # ds \<Rightarrow> cells_from (cur @ [d]) ds)
      else if c = 124 then u_strip cur # cells_from [] cs
      else cells_from (cur @ [c]) cs)"

definition split_cells :: "ustr \<Rightarrow> ustr list" where
  "split_cells line =
     (let b0 = u_strip line; b1 = (if starts_with [124] b0 then drop 1 b0 else b0);
          b2 = (if ends_with [124] b1 \<and> \<not> ends_with [92, 124] b1 then butlast b1 else b1)
      in cells_from [] b2)"

section \<open>The sheet\<close>

definition STATUSES :: "ustr list" where
  "STATUSES = map str_of [''verified'', ''implemented'', ''planned'', ''out of scope'']"

definition LEGEND :: ustr where "LEGEND = str_of ''How to read this page''"

record spec_row =
  sr_id :: ustr
  sr_section :: nat
  sr_category :: ustr
  sr_capability :: ustr
  sr_status :: ustr
  sr_evidence :: ustr

datatype sheet_failure =
    LegendCells nat nat
  | RowCells nat nat
  | NoSection nat "ustr option"
  | NotAnId nat ustr
  | WrongSection nat ustr nat
  | UsedTwice nat ustr
  | UnknownStatus nat ustr

text \<open>\<open>^## (.+?)\s*$\<close>: the text of a heading, at least one character of it.\<close>

definition heading_of :: "ustr \<Rightarrow> ustr option" where
  "heading_of l =
     (let r = drop 3 l; t = rev (dropWhile u_space (rev r))
      in if starts_with [35, 35, 32] l \<and> r \<noteq> [] then Some (if t = [] then take 1 r else t) else None)"

definition underline :: "ustr list \<Rightarrow> bool" where
  "underline cells \<longleftrightarrow> list_all (\<lambda>c. c \<noteq> [] \<and> set c \<subseteq> {45, 58, 32}) cells"

definition HEAD :: "ustr list" where
  "HEAD = map str_of [''id'', ''capability'', ''status'', ''evidence'']"

definition section_letter :: "ustr option \<Rightarrow> nat option" where
  "section_letter sec =
     (case sec of
        Some (c # d # e # f # _) \<Rightarrow> if 65 \<le> c \<and> c \<le> 90 \<and> d = 46 \<and> e = 32 \<and> f \<noteq> 10 then Some c else None
      | _ \<Rightarrow> None)"

definition is_row_id :: "ustr \<Rightarrow> bool" where
  "is_row_id r \<longleftrightarrow> (case r of [] \<Rightarrow> False | c # ds \<Rightarrow> 65 \<le> c \<and> c \<le> 90 \<and> ds \<noteq> [] \<and> list_all u_digit ds)"

record sheet_state =
  ss_rows :: "spec_row list"
  ss_failures :: "sheet_failure list"
  ss_section :: "ustr option"
  ss_ids :: "ustr list"

definition refuse_line :: "sheet_failure \<Rightarrow> sheet_state \<Rightarrow> sheet_state" where
  "refuse_line f st = st\<lparr>ss_failures := ss_failures st @ [f]\<rparr>"

text \<open>A line of four cells under a heading; a row with an unknown status has used its id.\<close>

definition take_row :: "nat \<Rightarrow> nat \<Rightarrow> ustr list \<Rightarrow> sheet_state \<Rightarrow> sheet_state" where
  "take_row n letter cells st =
     (let rid = cells ! 0; status = cells ! 2
      in if \<not> is_row_id rid then refuse_line (NotAnId n rid) st
         else if hd rid \<noteq> letter then refuse_line (WrongSection n rid letter) st
         else if rid \<in> set (ss_ids st) then refuse_line (UsedTwice n rid) st
         else let st = st\<lparr>ss_ids := rid # ss_ids st\<rparr>
              in if status \<notin> set STATUSES then refuse_line (UnknownStatus n status) st
                 else st\<lparr>ss_rows := ss_rows st @
                        [\<lparr>sr_id = rid, sr_section = letter, sr_category = the (ss_section st), sr_capability = cells ! 1,
                          sr_status = status, sr_evidence = cells ! 3\<rparr>]\<rparr>)"

definition take_line :: "nat \<times> ustr \<Rightarrow> sheet_state \<Rightarrow> sheet_state" where
  "take_line nl st =
     (let n = fst nl; cells = split_cells (snd nl)
      in case heading_of (snd nl) of
           Some h \<Rightarrow> st\<lparr>ss_section := Some h\<rparr>
         | None \<Rightarrow>
             if \<not> starts_with [124] (dropWhile u_space (snd nl)) then st
             else if underline cells then st
             else if ss_section st = Some LEGEND
             then (if length cells \<noteq> 2 then refuse_line (LegendCells n (length cells)) st else st)
             else if cells = HEAD then st
             else if length cells \<noteq> 4 then refuse_line (RowCells n (length cells)) st
             else case section_letter (ss_section st) of
                    None \<Rightarrow> refuse_line (NoSection n (ss_section st)) st
                  | Some c \<Rightarrow> take_row n c cells st)"

definition sheet_start :: sheet_state where
  "sheet_start = \<lparr>ss_rows = [], ss_failures = [], ss_section = None, ss_ids = []\<rparr>"

definition parse_sheet :: "ustr \<Rightarrow> spec_row list \<times> sheet_failure list" where
  "parse_sheet sheet =
     (let st = fold take_line (enumerate 1 (splitlines sheet)) sheet_start in (ss_rows st, ss_failures st))"

section \<open>Declarations in a test\<close>

definition id_at :: "ustr \<Rightarrow> ustr" where
  "id_at s =
     (case s of
        [] \<Rightarrow> []
      | c # cs \<Rightarrow> if 65 \<le> c \<and> c \<le> 90 \<and> takeWhile u_digit cs \<noteq> [] then c # takeWhile u_digit cs else [])"

definition line_ends :: "ustr \<Rightarrow> bool" where
  "line_ends s \<longleftrightarrow> 10 \<in> set (takeWhile u_space s) \<or> dropWhile u_space s = []"

lemma id_at_shorter: "id_at s \<noteq> [] \<Longrightarrow> length (drop (length (id_at s)) s) < length s"
  by (cases s) (auto simp: id_at_def split: if_splits)

text \<open>Ids between commas, as many as the line's end allows.\<close>

function ids_from :: "ustr \<Rightarrow> ustr list option" where
  "ids_from s =
     (let i = id_at s; r = drop (length i) s; c = dropWhile u_space r;
          others = (if i \<noteq> [] \<and> starts_with [44] c then ids_from (dropWhile u_space (drop 1 c)) else None)
      in if i = [] then None
         else case others of
                Some is \<Rightarrow> Some (i # is)
              | None \<Rightarrow> if line_ends r then Some [i] else None)"
  by pat_completeness auto
termination
proof (relation "measure length", goal_cases)
  case (2 s i r c)
  have "length (dropWhile u_space (drop 1 c)) \<le> length c" using length_dropWhile_le [of u_space "drop 1 c"] by simp
  also have "\<dots> \<le> length r" using 2(3) length_dropWhile_le [of u_space r] by simp
  also have "\<dots> < length s" using 2 id_at_shorter [of s] by simp
  finally show ?case by simp
qed simp

declare ids_from.simps [simp del]

text \<open>
  The blanks a match ends with are left out of it: they hold no other declaration.
\<close>

definition covers_line :: "ustr list pattern" where
  "covers_line b s =
     (let r = dropWhile u_space s
      in if line_start b \<and> starts_with (str_of ''covers: '') r
         then map_option (\<lambda>is. (is, drop 8 r)) (ids_from (drop 8 r)) else None)"

definition test_char :: "nat \<Rightarrow> bool" where
  "test_char c \<longleftrightarrow> (97 \<le> c \<and> c \<le> 122) \<or> u_digit c \<or> c = 95"

text \<open>\<open>test_[a-z0-9_]+\<close> at the start of the text.\<close>

definition test_name :: "ustr \<Rightarrow> ustr" where
  "test_name s =
     (if starts_with (str_of ''test_'') s \<and> takeWhile test_char (drop 5 s) \<noteq> []
      then take 5 s @ takeWhile test_char (drop 5 s) else [])"

definition test_def_line :: "ustr pattern" where
  "test_def_line b s =
     (let n = test_name (drop 4 s)
      in if line_start b \<and> starts_with (str_of ''def '') s \<and> n \<noteq> [] \<and> starts_with [40] (drop (4 + length n) s)
         then Some (n, drop (5 + length n) s) else None)"

fun slices :: "ustr \<Rightarrow> (nat \<times> nat) list \<Rightarrow> (nat \<times> ustr) list" where
  "slices text [] = []"
| "slices text ((i, k) # ps) =
     (i, drop (i + k) (take (case ps of [] \<Rightarrow> length text | (j, _) # _ \<Rightarrow> j) text)) # slices text ps"

definition dict_of :: "('k \<times> 'v) list \<Rightarrow> ('k \<times> 'v) list" where
  "dict_of es = fold (\<lambda>(k, v). AList.update k v) es []"

definition covers_by_fn :: "ustr \<Rightarrow> (ustr \<times> ustr list) list" where
  "covers_by_fn text =
     dict_of (List.map_filter
       (\<lambda>(i, body). case remdups (concat (findall covers_line body)) of
            [] \<Rightarrow> None
          | ids \<Rightarrow> map_option (\<lambda>f. (f, ids)) (groups_at test_def_line text i))
       (slices text (finds (span_of test_def_line) text)))"

section \<open>Workflows\<close>

definition lines_of :: "ustr \<Rightarrow> ustr list" where
  "lines_of s = split_on 10 s"

definition kept_lines :: "ustr \<Rightarrow> ustr list" where
  "kept_lines s = filter (\<lambda>l. \<not> starts_with [35] (dropWhile u_space l)) (lines_of s)"

definition strip_comment_lines :: "ustr \<Rightarrow> ustr" where
  "strip_comment_lines s = join [10] (kept_lines s)"

definition tab_or_blank :: "nat \<Rightarrow> bool" where
  "tab_or_blank c \<longleftrightarrow> c = 32 \<or> c = 9"

text \<open>\<open>_EOL\<close>\<close>

definition key_ends :: "ustr \<Rightarrow> bool" where
  "key_ends s \<longleftrightarrow> (case dropWhile tab_or_blank s of [] \<Rightarrow> True | c # _ \<Rightarrow> c = 35)"

definition is_jobs :: "ustr \<Rightarrow> bool" where
  "is_jobs l \<longleftrightarrow> starts_with (str_of ''jobs:'') l \<and> key_ends (drop 5 l)"

definition key_start :: "nat \<Rightarrow> bool" where
  "key_start c \<longleftrightarrow> latin_letter c \<or> c = 95"

definition key_part :: "nat \<Rightarrow> bool" where
  "key_part c \<longleftrightarrow> latin_letter c \<or> u_digit c \<or> c = 95 \<or> c = 45"

definition job_head :: "ustr \<Rightarrow> ustr option" where
  "job_head l =
     (let n = takeWhile key_part (drop 2 l)
      in if starts_with [32, 32] l \<and> n \<noteq> [] \<and> key_start (hd n) \<and> starts_with [58] (drop (2 + length n) l) \<and>
            key_ends (drop (3 + length n) l)
         then Some n else None)"

text \<open>
  The lines under \<open>jobs:\<close> to the next line that begins in the first column, cut at the job heads.
  A job's text begins and, before another job, ends with a line break.
\<close>

fun jobs_from :: "(ustr \<times> ustr list) option \<Rightarrow> ustr list \<Rightarrow> (ustr \<times> ustr list) list" where
  "jobs_from cur [] = (case cur of None \<Rightarrow> [] | Some (n, ls) \<Rightarrow> [(n, [] # ls)])"
| "jobs_from cur (l # ls) =
     (case job_head l of
        Some n \<Rightarrow> (case cur of None \<Rightarrow> [] | Some (m, ms) \<Rightarrow> [(m, [] # ms @ [[]])]) @ jobs_from (Some (n, [])) ls
      | None \<Rightarrow> jobs_from (map_option (\<lambda>(m, ms). (m, ms @ [l])) cur) ls)"

definition first_column :: "ustr \<Rightarrow> bool" where
  "first_column l \<longleftrightarrow> (case l of [] \<Rightarrow> False | c # _ \<Rightarrow> \<not> u_space c)"

definition workflow_jobs :: "ustr \<Rightarrow> (ustr \<times> ustr list) list" where
  "workflow_jobs workflow =
     (case dropWhile (\<lambda>l. \<not> is_jobs l) (kept_lines workflow) of
        [] \<Rightarrow> []
      | _ # ls \<Rightarrow>
          let body = takeWhile (\<lambda>l. \<not> first_column l) ls
          in dict_of (jobs_from None (body @ (if length body < length ls then [[]] else []))))"

definition is_steps :: "ustr \<Rightarrow> bool" where
  "is_steps l \<longleftrightarrow> (let r = dropWhile (\<lambda>c. c = 32) l in starts_with (str_of ''steps:'') r \<and> key_ends (drop 6 r))"

definition indent_of :: "ustr \<Rightarrow> nat" where
  "indent_of l = length (takeWhile (\<lambda>c. c = 32) l)"

definition is_item :: "ustr \<Rightarrow> bool" where
  "is_item l \<longleftrightarrow> starts_with [45, 32] (drop (indent_of l) l)"

fun step_items :: "nat \<Rightarrow> nat option \<Rightarrow> ustr list list \<Rightarrow> ustr list \<Rightarrow> nat option \<times> ustr list list" where
  "step_items depth indent items [] = (indent, items)"
| "step_items depth indent items (l # ls) =
     (if u_strip l \<noteq> [] \<and> indent_of l \<le> depth then (indent, items)
      else if is_item l \<and> (indent = None \<or> indent = Some (indent_of l))
      then step_items depth (Some (indent_of l)) (items @ [[l]]) ls
      else if items = [] then step_items depth indent items ls
      else step_items depth indent (butlast items @ [last items @ [l]]) ls)"

definition item_keys :: "nat \<Rightarrow> ustr list \<Rightarrow> (nat \<times> ustr) list" where
  "item_keys indent item =
     (0, drop (indent + 2) (hd item)) #
     map (\<lambda>(j, l). (j, drop (indent + 2) l))
       (filter (\<lambda>(j, l). starts_with (replicate (indent + 2) 32) l \<and> \<not> starts_with [32] (drop (indent + 2) l))
          (enumerate 1 (tl item)))"

text \<open>\<open>name:[ \t]*(\S.*?)[ \t]*$\<close>\<close>

definition name_key :: "ustr \<Rightarrow> ustr option" where
  "name_key key =
     (let r = dropWhile tab_or_blank (drop 5 key)
      in if starts_with (str_of ''name:'') key \<and> r \<noteq> [] \<and> \<not> u_space (hd r)
         then Some (rev (dropWhile tab_or_blank (rev r))) else None)"

record step =
  st_name :: "ustr option"
  st_conditional :: bool
  st_text :: ustr

definition step_of :: "nat \<Rightarrow> ustr list \<Rightarrow> step" where
  "step_of indent item =
     (let keys = item_keys indent item;
          named = List.map_filter (\<lambda>(j, key). map_option (Pair j) (name_key key)) keys
      in \<lparr>st_name = (case named of [] \<Rightarrow> None | (_, n) # _ \<Rightarrow> Some n),
          st_conditional = list_ex (\<lambda>(j, key). starts_with (str_of ''if:'') key) keys,
          st_text = join [10] (map snd (filter (\<lambda>(j, l). case named of [] \<Rightarrow> True | (k, _) # _ \<Rightarrow> j \<noteq> k) (enumerate 0 item)))\<rparr>)"

definition job_steps :: "ustr list \<Rightarrow> step list" where
  "job_steps job =
     (case dropWhile (\<lambda>l. \<not> is_steps l) job of
        [] \<Rightarrow> []
      | l # ls \<Rightarrow>
          (case step_items (indent_of l) None [] ls of
             (None, _) \<Rightarrow> []
           | (Some indent, items) \<Rightarrow> map (step_of indent) items))"

definition task_char :: "nat \<Rightarrow> bool" where
  "task_char c \<longleftrightarrow> (97 \<le> c \<and> c \<le> 122) \<or> u_digit c \<or> c = 45"

definition poe_call :: "ustr pattern" where
  "poe_call b s =
     (let n = takeWhile task_char (drop 4 s)
      in if starts_with (str_of ''poe '') s \<and> n \<noteq> [] then Some (n, drop (4 + length n) s) else None)"

record ci_step =
  ci_tasks :: "ustr list"
  ci_conditional :: bool
  ci_body :: ustr

definition workflow_steps :: "ustr \<Rightarrow> (ustr \<times> ci_step) list" where
  "workflow_steps workflow =
     dict_of (List.map_filter
       (\<lambda>st. case st_name st of
            None \<Rightarrow> None
          | Some n \<Rightarrow>
              if u_strip (st_text st) = [] then None
              else Some (n, \<lparr>ci_tasks = findall poe_call (st_text st), ci_conditional = st_conditional st, ci_body = st_text st\<rparr>))
       (concat (map (\<lambda>(_, job). job_steps job) (workflow_jobs workflow))))"

section \<open>The table of tasks\<close>

datatype toml_item = ItemText ustr | ItemTable "ustr list" "ustr option" | OtherItem

text \<open>The strings under \<open>_CODE_KEYS\<close> in their order, and the other keys that are read.\<close>

record task_table =
  tt_code :: "ustr list"
  tt_ref :: "ustr option"
  tt_item_type :: "ustr option"
  tt_sequence :: "toml_item list"
  tt_deps :: "ustr list"

datatype toml_task = TaskText ustr | TaskList "toml_item list" | TaskTable task_table | OtherTask

definition task_as_table :: "toml_task \<Rightarrow> task_table" where
  "task_as_table t =
     (case t of
        TaskText s \<Rightarrow> \<lparr>tt_code = [s], tt_ref = None, tt_item_type = None, tt_sequence = [], tt_deps = []\<rparr>
      | TaskList is \<Rightarrow> \<lparr>tt_code = [], tt_ref = None, tt_item_type = None, tt_sequence = is, tt_deps = []\<rparr>
      | TaskTable d \<Rightarrow> d
      | OtherTask \<Rightarrow> \<lparr>tt_code = [], tt_ref = None, tt_item_type = None, tt_sequence = [], tt_deps = []\<rparr>)"

definition opt_list :: "'a option \<Rightarrow> 'a list" where
  "opt_list x = (case x of None \<Rightarrow> [] | Some a \<Rightarrow> [a])"

definition item_code :: "bool \<Rightarrow> toml_item \<Rightarrow> ustr list" where
  "item_code is_ref i = (case i of ItemText s \<Rightarrow> if is_ref then [] else [s] | ItemTable code _ \<Rightarrow> code | OtherItem \<Rightarrow> [])"

definition item_refs :: "bool \<Rightarrow> toml_item \<Rightarrow> ustr list" where
  "item_refs is_ref i = (case i of ItemText s \<Rightarrow> if is_ref then [s] else [] | ItemTable _ r \<Rightarrow> opt_list r | OtherItem \<Rightarrow> [])"

definition first_word :: "ustr \<Rightarrow> ustr" where
  "first_word s = takeWhile (\<lambda>c. \<not> u_space c) (dropWhile u_space s)"

definition poe_entry :: "ustr \<Rightarrow> toml_task \<Rightarrow> ustr \<times> ustr list" where
  "poe_entry default_item t =
     (let d = task_as_table t;
          is_ref = ((case tt_item_type d of None \<Rightarrow> default_item | Some x \<Rightarrow> x) = str_of ''ref'')
      in (strip_comment_lines (join [10] (tt_code d @ concat (map (item_code is_ref) (tt_sequence d)))),
          filter (\<lambda>w. w \<noteq> []) (map first_word (opt_list (tt_ref d) @ concat (map (item_refs is_ref) (tt_sequence d)) @ tt_deps d))))"

type_synonym poe_table = "(ustr \<times> ustr \<times> ustr list) list"

definition poe_tasks :: "ustr \<Rightarrow> (ustr \<times> toml_task) list \<Rightarrow> poe_table" where
  "poe_tasks default_item tasks = map (\<lambda>(n, t). (n, poe_entry default_item t)) tasks"

definition refs_of :: "poe_table \<Rightarrow> ustr \<Rightarrow> ustr list" where
  "refs_of tasks n = (case map_of tasks n of None \<Rightarrow> [] | Some (_, rs) \<Rightarrow> rs)"

definition known_names :: "poe_table \<Rightarrow> ustr list \<Rightarrow> ustr set" where
  "known_names tasks queue = set queue \<union> (\<Union>t \<in> set tasks. set (snd (snd t)))"

lemma refs_known: "set (refs_of tasks n) \<subseteq> (\<Union>t \<in> set tasks. set (snd (snd t)))"
proof (cases "map_of tasks n")
  case (Some p)
  then have "(n, p) \<in> set tasks" by (rule map_of_SomeD)
  then show ?thesis using Some by (cases p) (force simp: refs_of_def)
qed (simp add: refs_of_def)

function reach :: "poe_table \<Rightarrow> ustr list \<Rightarrow> ustr list \<Rightarrow> ustr list" where
  "reach tasks seen queue =
     (if queue = [] then seen
      else if last queue \<in> set seen then reach tasks seen (butlast queue)
      else reach tasks (last queue # seen) (butlast queue @ refs_of tasks (last queue)))"
  by pat_completeness auto
termination
proof (relation "measures [\<lambda>(t, seen, q). card (known_names t q - set seen), \<lambda>(t, seen, q). length q]", goal_cases)
  case (2 tasks seen queue)
  have "set (butlast queue) \<subseteq> set queue" by (auto dest: in_set_butlastD)
  then have "card (known_names tasks (butlast queue) - set seen) \<le> card (known_names tasks queue - set seen)"
    by (intro card_mono) (auto simp: known_names_def)
  then show ?case using 2 by (auto simp: le_less)
next
  case (3 tasks seen queue)
  have q: "set (butlast queue @ refs_of tasks (last queue)) \<subseteq> known_names tasks queue"
    using refs_known [of tasks "last queue"] by (auto simp: known_names_def dest: in_set_butlastD)
  have "last queue \<in> known_names tasks queue - set seen" using 3 by (simp add: known_names_def)
  moreover have "known_names tasks (butlast queue @ refs_of tasks (last queue)) \<subseteq> known_names tasks queue"
    using q unfolding known_names_def by auto
  ultimately have "card (known_names tasks (butlast queue @ refs_of tasks (last queue)) - set (last queue # seen))
      < card (known_names tasks queue - set seen)"
    by (intro psubset_card_mono) (auto simp: known_names_def)
  then show ?case by simp
qed simp

declare reach.simps [simp del]

definition reachable_tasks :: "poe_table \<Rightarrow> ustr list \<Rightarrow> ustr list" where
  "reachable_tasks tasks roots = reach tasks [] roots"

section \<open>Cells come back\<close>

text \<open>A row as the sheet writes it: backslashes and bars escaped, a blank on each side.\<close>

fun escaped :: "ustr \<Rightarrow> ustr" where
  "escaped [] = []"
| "escaped (c # cs) = (if c = 92 \<or> c = 124 then [92, c] else [c]) @ escaped cs"

fun row_text :: "ustr list \<Rightarrow> ustr" where
  "row_text [] = []"
| "row_text (c # cs) = [32] @ escaped c @ [32, 124] @ row_text cs"

definition written_row :: "ustr list \<Rightarrow> ustr" where
  "written_row cells = 124 # row_text cells"

lemma cells_from_escaped: "cells_from cur (escaped c @ rest) = cells_from (cur @ c) rest"
  by (induction c arbitrary: cur) auto

lemma cells_from_row:
  "list_all (\<lambda>c. u_strip (32 # c @ [32]) = c) cells \<Longrightarrow> cells \<noteq> [] \<Longrightarrow>
     cells_from [] (butlast (row_text cells)) = cells"
proof (induction cells)
  case (Cons c cs)
  show ?case
  proof (cases "cs = []")
    case True
    then show ?thesis using Cons.prems by (simp add: butlast_append cells_from_escaped)
  next
    case False
    then have "row_text cs \<noteq> []" by (cases cs) auto
    then have "butlast (row_text (c # cs)) = 32 # escaped c @ 32 # 124 # butlast (row_text cs)"
      by (simp add: butlast_append)
    then show ?thesis using Cons False by (simp add: cells_from_escaped)
  qed
qed simp

lemma row_text_end: "cells \<noteq> [] \<Longrightarrow> \<exists>w. row_text cells = 32 # w @ [32, 124]"
proof (induction cells)
  case (Cons c cs)
  show ?case
  proof (cases "cs = []")
    case False
    then obtain w where "row_text cs = 32 # w @ [32, 124]" using Cons.IH by blast
    then have "row_text (c # cs) = 32 # (escaped c @ 32 # 124 # 32 # w) @ [32, 124]" by simp
    then show ?thesis by blast
  qed simp
qed simp

lemma cells_come_back:
  assumes "cells \<noteq> []" "list_all (\<lambda>c. u_strip (32 # c @ [32]) = c) cells"
  shows "split_cells (written_row cells) = cells"
proof -
  obtain w where w: "row_text cells = 32 # w @ [32, 124]" using row_text_end assms(1) by blast
  have "u_strip (written_row cells) = written_row cells"
    unfolding written_row_def w by (simp add: u_strip_def u_space_def)
  then have "split_cells (written_row cells) = cells_from [] (butlast (row_text cells))"
    unfolding split_cells_def Let_def written_row_def
    by (simp add: starts_with_def w ends_with_iff)
  then show ?thesis using cells_from_row assms by simp
qed

section \<open>Reachable tasks\<close>

definition task_runs :: "poe_table \<Rightarrow> (ustr \<times> ustr) set" where
  "task_runs tasks = {(a, b). b \<in> set (refs_of tasks a)}"

lemma reach_sound:
  "x \<in> set (reach tasks seen queue) \<Longrightarrow> x \<in> set seen \<or> (\<exists>r \<in> set queue. (r, x) \<in> (task_runs tasks)\<^sup>*)"
proof (induction tasks seen queue rule: reach.induct)
  case (1 tasks seen queue)
  show ?case
  proof (cases "queue = []")
    case False
    show ?thesis
    proof (cases "last queue \<in> set seen")
      case True
      then show ?thesis using 1 False by (subst (asm) reach.simps) (auto dest: in_set_butlastD)
    next
      case no: False
      then have "x \<in> set (last queue # seen) \<or> (\<exists>r \<in> set (butlast queue @ refs_of tasks (last queue)). (r, x) \<in> (task_runs tasks)\<^sup>*)"
        using 1 False by (subst (asm) reach.simps) auto
      moreover have "(last queue, x) \<in> (task_runs tasks)\<^sup>*" if "r \<in> set (refs_of tasks (last queue))" "(r, x) \<in> (task_runs tasks)\<^sup>*" for r
        using that by (auto simp: task_runs_def intro: converse_rtrancl_into_rtrancl)
      moreover have "last queue \<in> set queue" "set (butlast queue) \<subseteq> set queue"
        using False by (auto dest: in_set_butlastD)
      ultimately show ?thesis unfolding set_append list.set Un_iff insert_iff by blast
    qed
  qed (use 1 in \<open>simp add: reach.simps\<close>)
qed

lemma reach_complete:
  assumes "\<forall>a \<in> set seen. set (refs_of tasks a) \<subseteq> set seen \<union> set queue"
  shows "set seen \<union> set queue \<subseteq> set (reach tasks seen queue) \<and>
         (\<forall>a \<in> set (reach tasks seen queue). set (refs_of tasks a) \<subseteq> set (reach tasks seen queue))"
  using assms
proof (induction tasks seen queue rule: reach.induct)
  case (1 tasks seen queue)
  show ?case
  proof (cases "queue = []")
    case False
    have q: "set queue = insert (last queue) (set (butlast queue))"
      using False by (metis append_butlast_last_id list.set(1) list.set(2) set_append Un_commute insert_is_Un)
    show ?thesis
    proof (cases "last queue \<in> set seen")
      case True
      have "set seen \<union> set (butlast queue) \<subseteq> set (reach tasks seen (butlast queue)) \<and>
         (\<forall>a \<in> set (reach tasks seen (butlast queue)). set (refs_of tasks a) \<subseteq> set (reach tasks seen (butlast queue)))"
        using 1(3) True q by (intro 1(1) [OF False]) auto
      then show ?thesis using False True q by (subst (1 2 3) reach.simps) auto
    next
      case no: False
      let ?q = "butlast queue @ refs_of tasks (last queue)"
      have "set (last queue # seen) \<union> set ?q \<subseteq> set (reach tasks (last queue # seen) ?q) \<and>
         (\<forall>a \<in> set (reach tasks (last queue # seen) ?q). set (refs_of tasks a) \<subseteq> set (reach tasks (last queue # seen) ?q))"
        using 1(3) no q by (intro 1(2) [OF False]) auto
      then show ?thesis using False no q by (subst (1 2 3) reach.simps) auto
    qed
  qed (use 1 in \<open>simp add: reach.simps\<close>)
qed

text \<open>The tasks found are exactly those the roots run, directly or through others.\<close>

lemma reachable_is_closure: "set (reachable_tasks tasks roots) = (task_runs tasks)\<^sup>* `` set roots"
proof
  show "set (reachable_tasks tasks roots) \<subseteq> (task_runs tasks)\<^sup>* `` set roots"
    using reach_sound [of _ tasks "[]" roots] by (auto simp: reachable_tasks_def Image_def)
  have c: "set roots \<subseteq> set (reach tasks [] roots)"
    "\<forall>a \<in> set (reach tasks [] roots). set (refs_of tasks a) \<subseteq> set (reach tasks [] roots)"
    using reach_complete [of "[]" tasks roots] by auto
  have "x \<in> set (reach tasks [] roots)" if "(r, x) \<in> (task_runs tasks)\<^sup>*" "r \<in> set roots" for r x
    using that by (induction rule: rtrancl_induct) (use c in \<open>auto simp: task_runs_def\<close>)
  then show "(task_runs tasks)\<^sup>* `` set roots \<subseteq> set (reachable_tasks tasks roots)"
    by (auto simp: reachable_tasks_def)
qed

section \<open>No row hides\<close>

definition good_row :: "spec_row \<Rightarrow> bool" where
  "good_row r \<longleftrightarrow> is_row_id (sr_id r) \<and> hd (sr_id r) = sr_section r \<and> sr_status r \<in> set STATUSES"

definition good_state :: "sheet_state \<Rightarrow> bool" where
  "good_state st \<longleftrightarrow>
     distinct (map sr_id (ss_rows st)) \<and> set (map sr_id (ss_rows st)) \<subseteq> set (ss_ids st) \<and> list_all good_row (ss_rows st)"

lemma good_refuse [simp]: "good_state (refuse_line f st) = good_state st"
  by (simp add: refuse_line_def good_state_def)

lemma good_section [simp]: "good_state (st\<lparr>ss_section := s\<rparr>) = good_state st"
  by (simp add: good_state_def)

lemma good_take_row: "good_state st \<Longrightarrow> good_state (take_row n letter cells st)"
  by (auto simp: take_row_def Let_def good_state_def good_row_def refuse_line_def)

lemma good_take_line: "good_state st \<Longrightarrow> good_state (take_line nl st)"
  by (simp add: take_line_def Let_def good_take_row split: option.split)

lemma good_lines: "good_state st \<Longrightarrow> good_state (fold take_line ls st)"
  by (induction ls arbitrary: st) (simp_all add: good_take_line)

text \<open>Ids are used once, and a row has its section's letter and a known status.\<close>

lemma parsed_rows_good:
  assumes "parse_sheet sheet = (rows, failures)"
  shows "distinct (map sr_id rows) \<and> list_all good_row rows"
proof -
  have "good_state (fold take_line (enumerate 1 (splitlines sheet)) sheet_start)"
    by (rule good_lines) (simp add: good_state_def sheet_start_def)
  then show ?thesis using assms by (auto simp: parse_sheet_def Let_def good_state_def)
qed

text \<open>A line that is a row: a bar first, and neither an underline, a heading, the head nor the legend.\<close>

definition is_row_line :: "sheet_state \<Rightarrow> ustr \<Rightarrow> bool" where
  "is_row_line st l \<longleftrightarrow>
     heading_of l = None \<and> starts_with [124] (dropWhile u_space l) \<and> \<not> underline (split_cells l) \<and>
     ss_section st \<noteq> Some LEGEND \<and> split_cells l \<noteq> HEAD"

definition row_cells :: "spec_row \<Rightarrow> ustr list" where
  "row_cells r = [sr_id r, sr_capability r, sr_status r, sr_evidence r]"

definition grew :: "sheet_state \<Rightarrow> sheet_state \<Rightarrow> bool" where
  "grew st st' \<longleftrightarrow> set (ss_rows st) \<subseteq> set (ss_rows st') \<and> (ss_failures st \<noteq> [] \<longrightarrow> ss_failures st' \<noteq> [])"

lemma take_line_grew: "grew st (take_line nl st)"
  by (auto simp: take_line_def take_row_def refuse_line_def grew_def Let_def split: option.split)

lemma lines_grew: "grew st (fold take_line ls st)"
proof (induction ls arbitrary: st)
  case (Cons l ls)
  have "grew st (take_line l st)" "grew (take_line l st) (fold take_line ls (take_line l st))"
    using take_line_grew Cons.IH by auto
  then show ?case by (auto simp: grew_def)
qed (simp add: grew_def)

lemma four_cells: "length cells = 4 \<Longrightarrow> [cells ! 0, cells ! 1, cells ! 2, cells ! 3] = cells"
  by (auto simp: length_Suc_conv numeral_eq_Suc)

lemma row_line_taken:
  assumes "is_row_line st l" "ss_failures (take_line (n, l) st) = []"
  shows "\<exists>r \<in> set (ss_rows (take_line (n, l) st)). row_cells r = split_cells l"
proof -
  have "length (split_cells l) = 4"
    using assms by (auto simp: take_line_def is_row_line_def Let_def refuse_line_def split: if_splits)
  moreover obtain c where c: "section_letter (ss_section st) = Some c"
    using assms by (auto simp: take_line_def is_row_line_def Let_def refuse_line_def split: if_splits option.splits)
  ultimately have t: "take_line (n, l) st = take_row n c (split_cells l) st"
    using assms(1) by (simp add: take_line_def is_row_line_def)
  then have "ss_failures (take_row n c (split_cells l) st) = []" using assms(2) by simp
  then have "\<exists>r \<in> set (ss_rows (take_row n c (split_cells l) st)).
      row_cells r = [split_cells l ! 0, split_cells l ! 1, split_cells l ! 2, split_cells l ! 3]"
    by (auto simp: take_row_def Let_def refuse_line_def row_cells_def split: if_splits)
  then show ?thesis using t four_cells [OF \<open>length (split_cells l) = 4\<close>] by simp
qed

text \<open>When the sheet parses without a complaint, every line that is a row is a row.\<close>

lemma no_row_hides:
  assumes "parse_sheet sheet = (rows, [])" "enumerate 1 (splitlines sheet) = before_lines @ (n, l) # later_lines"
    and "is_row_line (fold take_line before_lines sheet_start) l"
  shows "\<exists>r \<in> set rows. row_cells r = split_cells l"
proof -
  let ?st = "fold take_line before_lines sheet_start"
  let ?last = "fold take_line later_lines (take_line (n, l) ?st)"
  have e: "ss_rows ?last = rows" "ss_failures ?last = []" using assms(1,2) by (auto simp: parse_sheet_def Let_def)
  have g: "grew (take_line (n, l) ?st) ?last" by (rule lines_grew)
  then have "ss_failures (take_line (n, l) ?st) = []" using e by (auto simp: grew_def)
  then obtain r where "r \<in> set (ss_rows (take_line (n, l) ?st))" "row_cells r = split_cells l"
    using row_line_taken [OF assms(3)] by blast
  then show ?thesis using g e by (auto simp: grew_def)
qed

end
