(* ===== verification/Spec_Rules.thy ===== *)
theory Spec_Rules
  imports Spec_Sheet "HOL-Library.List_Lexorder"
begin

text \<open>
  \<open>analyse\<close> of scripts/spec\_sheet.py: each row's evidence, the closed sets, and the coverage that
  the gates declare. \<open>lower\<close> is \<open>str.lower\<close>; \<open>alnum\<close> says which characters outside ASCII are word
  characters.
\<close>

section \<open>Evidence\<close>

definition CADENCES :: "ustr list" where
  "CADENCES = map str_of [''every PR'', ''weekly'', ''monthly'', ''pre-release'']"

definition EVERY_PR :: ustr where "EVERY_PR = str_of ''every PR''"

text \<open>\<open>_EVIDENCE\<close>: the gate and the cadence.\<close>

definition evidence_of :: "ustr \<Rightarrow> (ustr \<times> ustr) option" where
  "evidence_of ev =
     (let g = takeWhile (\<lambda>c. c \<noteq> 96) (drop 1 ev); r = drop (length g + 1) ev;
          c = takeWhile (\<lambda>x. x \<noteq> 41) (drop 3 r); t = drop (length c + 3) r
      in if starts_with [96] ev \<and> g \<noteq> [] \<and> starts_with [96, 32, 40] r \<and> c \<noteq> [] \<and> starts_with [41] t \<and>
            (t = [41] \<or> starts_with [41, 32, 8212, 32] t \<and> 4 < length t)
         then Some (g, c) else None)"

text \<open>\<open>_UNIT\<close>: the file and the function.\<close>

definition unit_of :: "ustr \<Rightarrow> (ustr \<times> ustr) option" where
  "unit_of gate =
     (let n = test_name gate; r = drop (length n) gate; f = drop 6 r
      in if n \<noteq> [] \<and> starts_with (str_of ''.mojo:'') r \<and> test_name f = f \<and> f \<noteq> []
         then Some (n @ str_of ''.mojo'', f) else None)"

definition flag_char :: "nat \<Rightarrow> bool" where
  "flag_char c \<longleftrightarrow> (97 \<le> c \<and> c \<le> 122) \<or> c = 45"

text \<open>\<open>`(--[a-z][a-z-]*)`\<close>\<close>

definition named_flag :: "ustr pattern" where
  "named_flag b s =
     (let n = takeWhile flag_char (drop 3 s); r = drop (3 + length n) s
      in if starts_with [96, 45, 45] s \<and> n \<noteq> [] \<and> hd n \<noteq> 45 \<and> starts_with [96] r
         then Some ([45, 45] @ n, drop 1 r) else None)"

text \<open>\<open>name == "(--[a-z-]+)"\<close>\<close>

definition accepted_flag :: "ustr pattern" where
  "accepted_flag b s =
     (let lead = str_of ''name == '' @ [34, 45, 45]; n = takeWhile flag_char (drop 11 s); r = drop (11 + length n) s
      in if starts_with lead s \<and> n \<noteq> [] \<and> starts_with [34] r then Some ([45, 45] @ n, drop 1 r) else None)"

text \<open>\<open>emit\.py --covers ([A-Z]\d+)\<close>\<close>

definition covers_call :: "ustr pattern" where
  "covers_call b s =
     (let i = id_at (drop 17 s)
      in if starts_with (str_of ''emit.py --covers '') s \<and> i \<noteq> [] then Some (i, drop (17 + length i) s) else None)"

text \<open>\<open>_SKIP_GUARD\<close>: the module whose absence ends the task.\<close>

definition skip_guard :: "(nat \<Rightarrow> bool) \<Rightarrow> ustr pattern" where
  "skip_guard alnum b s =
     (let lead = str_of ''python3 -c '' @ [39] @ str_of ''import ''; m = takeWhile (u_word alnum) (drop 19 s);
          r = drop (19 + length m) s
      in if starts_with lead s \<and> m \<noteq> [] \<and> starts_with [39] r \<and>
            contains (str_of ''exit 0'') (takeWhile (\<lambda>c. c \<noteq> 10) (drop 1 r))
         then Some (m, r) else None)"

text \<open>\<open>`([^`]+)`\<close>\<close>

definition backticked :: "ustr pattern" where
  "backticked b s =
     (let p = takeWhile (\<lambda>c. c \<noteq> 96) (drop 1 s); r = drop (1 + length p) s
      in if starts_with [96] s \<and> p \<noteq> [] \<and> starts_with [96] r then Some (p, drop 1 r) else None)"

section \<open>The sources\<close>

record test_file =
  tf_task :: ustr
  tf_fns :: "ustr list"
  tf_covers :: "(ustr \<times> ustr list) list"

record spec_src =
  src_sheet :: "ustr option"
  src_tasks :: "poe_table option"
  src_dev :: "ustr list"
  src_workflow :: ustr
  src_roadmap :: ustr
  src_releasing :: ustr
  src_canary :: ustr
  src_nightly :: ustr
  src_citations :: ustr
  src_cli :: ustr
  src_host_flags :: ustr
  src_tests :: "(ustr \<times> test_file) list"
  src_sources :: "ustr list"

definition test_index :: "ustr \<Rightarrow> ustr \<Rightarrow> test_file" where
  "test_index task text =
     \<lparr>tf_task = task, tf_fns = findall test_def_line text, tf_covers = covers_by_fn text\<rparr>"

definition dev_char :: "nat \<Rightarrow> bool" where
  "dev_char c \<longleftrightarrow> latin_letter c \<or> u_digit c \<or> c \<in> {95, 46, 45}"

definition dev_name :: "(ustr \<Rightarrow> ustr) \<Rightarrow> ustr \<Rightarrow> ustr option" where
  "dev_name lower d =
     (case takeWhile dev_char d of
        [] \<Rightarrow> None
      | n \<Rightarrow> Some (filter (\<lambda>c. (97 \<le> c \<and> c \<le> 122) \<or> u_digit c) (lower n)))"

section \<open>A row\<close>

datatype spec_failure =
    SheetMissing
  | TomlBroken
  | OfSheet sheet_failure
  | BadEvidence ustr ustr
  | UnknownCadence ustr ustr
  | NoTestFile ustr ustr
  | NoTestFunction ustr ustr ustr
  | NotReachable ustr ustr ustr
  | WrongCadence ustr ustr
  | ConditionalStep ustr ustr
  | SkipsItself ustr ustr ustr
  | NotInWeekly ustr ustr
  | NotInMonthly ustr ustr
  | NotInReleasing ustr ustr
  | NotAStep ustr ustr
  | NamesNoFile ustr ustr
  | NoSuchFile ustr ustr
  | BadRoadmap ustr ustr
  | NoHeading ustr ustr
  | NoReason ustr ustr
  | ListedTwice ustr ustr ustr
  | StepUncited ustr
  | FlagUnnamed ustr
  | HostFlagUnnamed ustr
  | FlagUnknown ustr
  | DeclaresNothing ustr
  | Undeclared ustr
  | DeclaredElsewhere ustr

datatype row_gate = UnitGate ustr ustr | StepGate ustr

record row_result =
  rr_failures :: "spec_failure list"
  rr_step :: "ustr option"
  rr_gated :: "row_gate option"

definition only_fails :: "spec_failure list \<Rightarrow> row_result" where
  "only_fails fs = \<lparr>rr_failures = fs, rr_step = None, rr_gated = None\<rparr>"

definition unit_row :: "spec_src \<Rightarrow> ustr list \<Rightarrow> ustr \<Rightarrow> ustr \<Rightarrow> ustr \<times> ustr \<Rightarrow> row_result" where
  "unit_row src reachable rid cadence u =
     (let existing =
        (case map_of (src_tests src) (fst u) of
           None \<Rightarrow> [NoTestFile rid (fst u)]
         | Some t \<Rightarrow>
             if snd u \<notin> set (tf_fns t) then [NoTestFunction rid (fst u) (snd u)]
             else if tf_task t \<notin> set reachable then [NotReachable rid (fst u) (tf_task t)] else [])
      in if cadence \<noteq> EVERY_PR then only_fails (existing @ [WrongCadence rid cadence])
         else \<lparr>rr_failures = existing, rr_step = None, rr_gated = Some (UnitGate (fst u) (snd u))\<rparr>)"

definition smoke_body :: "poe_table \<Rightarrow> ustr \<Rightarrow> ustr" where
  "smoke_body table task =
     (if starts_with (str_of ''smoke-'') task then (case map_of table task of None \<Rightarrow> [] | Some (b, _) \<Rightarrow> b) else [])"

definition skips_itself ::
  "(nat \<Rightarrow> bool) \<Rightarrow> (ustr \<Rightarrow> ustr) \<Rightarrow> poe_table \<Rightarrow> ustr list \<Rightarrow> ustr \<Rightarrow> ustr \<Rightarrow> spec_failure option" where
  "skips_itself alnum lower table dev rid task =
     (case findall (skip_guard alnum) (smoke_body table task) of
        [] \<Rightarrow> None
      | m # _ \<Rightarrow> if list_ex (contains (lower m)) dev then None else Some (SkipsItself rid task (lower m)))"

definition step_row ::
  "(nat \<Rightarrow> bool) \<Rightarrow> (ustr \<Rightarrow> ustr) \<Rightarrow> poe_table \<Rightarrow> ustr list \<Rightarrow> ustr \<Rightarrow> ustr \<Rightarrow> ustr \<Rightarrow> ci_step \<Rightarrow> row_result" where
  "step_row alnum lower table dev rid gate cadence st =
     \<lparr>rr_failures =
        (if cadence \<noteq> EVERY_PR then [WrongCadence rid cadence] else []) @
        (if ci_conditional st then [ConditionalStep rid gate] else []) @
        List.map_filter (skips_itself alnum lower table dev rid) (remdups (ci_tasks st)),
      rr_step = Some gate,
      rr_gated = (if cadence = EVERY_PR then Some (StepGate gate) else None)\<rparr>"

definition other_row :: "spec_src \<Rightarrow> ustr \<Rightarrow> ustr \<Rightarrow> ustr \<Rightarrow> row_result" where
  "other_row src rid gate cadence =
     only_fails
       (if cadence = str_of ''weekly''
        then (if contains gate (src_canary src) \<or> contains gate (src_nightly src) then [] else [NotInWeekly rid gate])
        else if cadence = str_of ''monthly''
        then (if contains gate (src_citations src) then [] else [NotInMonthly rid gate])
        else if cadence = str_of ''pre-release''
        then (if contains gate (src_releasing src) then [] else [NotInReleasing rid gate])
        else [NotAStep rid gate])"

definition verified_row ::
  "(nat \<Rightarrow> bool) \<Rightarrow> (ustr \<Rightarrow> ustr) \<Rightarrow> spec_src \<Rightarrow> poe_table \<Rightarrow> ustr list \<Rightarrow> (ustr \<times> ci_step) list \<Rightarrow> ustr list \<Rightarrow> spec_row \<Rightarrow> row_result" where
  "verified_row alnum lower src table reachable steps dev r =
     (case evidence_of (sr_evidence r) of
        None \<Rightarrow> only_fails [BadEvidence (sr_id r) (sr_evidence r)]
      | Some (gate, cadence) \<Rightarrow>
          if cadence \<notin> set CADENCES then only_fails [UnknownCadence (sr_id r) cadence]
          else case unit_of gate of
                 Some u \<Rightarrow> unit_row src reachable (sr_id r) cadence u
               | None \<Rightarrow>
                   (case map_of steps gate of
                      Some st \<Rightarrow> step_row alnum lower table dev (sr_id r) gate cadence st
                    | None \<Rightarrow> other_row src (sr_id r) gate cadence))"

definition named_paths :: "ustr \<Rightarrow> ustr list" where
  "named_paths ev = filter (\<lambda>p. 47 \<in> set p) (findall backticked ev)"

definition file_part :: "ustr \<Rightarrow> ustr" where
  "file_part p = takeWhile (\<lambda>c. c \<noteq> 58) p"

definition implemented_row :: "spec_src \<Rightarrow> spec_row \<Rightarrow> spec_failure list" where
  "implemented_row src r =
     (if named_paths (sr_evidence r) = [] then [NamesNoFile (sr_id r) (sr_evidence r)] else []) @
     map (\<lambda>p. NoSuchFile (sr_id r) (file_part p))
       (filter (\<lambda>p. file_part p \<notin> set (src_sources src)) (named_paths (sr_evidence r)))"

definition planned_row :: "spec_src \<Rightarrow> spec_row \<Rightarrow> spec_failure list" where
  "planned_row src r =
     (let t = drop 9 (sr_evidence r)
      in if \<not> (starts_with (str_of ''ROADMAP: '') (sr_evidence r) \<and> t \<noteq> []) then [BadRoadmap (sr_id r) (sr_evidence r)]
         else if contains (str_of ''### '' @ t) (src_roadmap src) \<or> contains (str_of ''## '' @ t) (src_roadmap src) then []
         else [NoHeading (sr_id r) t])"

fun words_of :: "ustr \<Rightarrow> ustr list" where
  "words_of [] = []"
| "words_of (c # cs) =
     (if u_space c then words_of cs
      else case words_of cs of
             [] \<Rightarrow> [[c]]
           | w # ws \<Rightarrow> if (case cs of [] \<Rightarrow> True | d # _ \<Rightarrow> u_space d) then [c] # w # ws else (c # w) # ws)"

definition refused_row :: "spec_row \<Rightarrow> spec_failure list" where
  "refused_row r =
     (if length (sr_evidence r) < 20 \<or> length (words_of (sr_evidence r)) < 4 then [NoReason (sr_id r) (sr_evidence r)] else [])"

definition check_row ::
  "(nat \<Rightarrow> bool) \<Rightarrow> (ustr \<Rightarrow> ustr) \<Rightarrow> spec_src \<Rightarrow> poe_table \<Rightarrow> ustr list \<Rightarrow> (ustr \<times> ci_step) list \<Rightarrow> ustr list \<Rightarrow> spec_row \<Rightarrow> row_result" where
  "check_row alnum lower src table reachable steps dev r =
     (if sr_status r = str_of ''verified'' then verified_row alnum lower src table reachable steps dev r
      else only_fails
        (if sr_status r = str_of ''implemented'' then implemented_row src r
         else if sr_status r = str_of ''planned'' then planned_row src r
         else if sr_status r = str_of ''out of scope'' then refused_row r
         else []))"

section \<open>The closed sets\<close>

fun listed_twice :: "(ustr \<Rightarrow> ustr) \<Rightarrow> (ustr \<times> ustr) list \<Rightarrow> spec_row list \<Rightarrow> spec_failure list" where
  "listed_twice lower seen [] = []"
| "listed_twice lower seen (r # rs) =
     (let key = lower (u_strip (sr_capability r))
      in (case map_of seen key of None \<Rightarrow> [] | Some i \<Rightarrow> [ListedTwice (sr_capability r) i (sr_id r)]) @
         listed_twice lower ((key, sr_id r) # seen) rs)"

definition is_smoke_step :: "ci_step \<Rightarrow> bool" where
  "is_smoke_step st \<longleftrightarrow> list_ex (starts_with (str_of ''smoke-'')) (ci_tasks st)"

definition row_flags :: "spec_row \<Rightarrow> ustr list" where
  "row_flags r = findall named_flag (sr_capability r @ [32] @ sr_evidence r)"

definition ordered_set :: "ustr list \<Rightarrow> ustr list" where
  "ordered_set xs = sort (remdups xs)"

definition flag_failures :: "spec_src \<Rightarrow> spec_row list \<Rightarrow> spec_failure list" where
  "flag_failures src rows =
     (let cited = concat (map row_flags rows); accepted = findall accepted_flag (src_cli src);
          hosted = findall accepted_flag (src_host_flags src)
      in map FlagUnnamed (ordered_set (filter (\<lambda>f. f \<notin> set cited) accepted)) @
         map HostFlagUnnamed (ordered_set (filter (\<lambda>f. f \<notin> set cited) hosted)) @
         map FlagUnknown (ordered_set (filter (\<lambda>f. f \<notin> set accepted \<union> set hosted) cited)))"

section \<open>Declared coverage\<close>

datatype cover_site = UnitSite ustr ustr | TaskSite ustr | StepSite ustr

definition declared_sites :: "spec_src \<Rightarrow> poe_table \<Rightarrow> (ustr \<times> ci_step) list \<Rightarrow> (ustr \<times> cover_site) list" where
  "declared_sites src table steps =
     concat (map (\<lambda>(f, t). concat (map (\<lambda>(fn, ids). map (\<lambda>i. (i, UnitSite f fn)) ids) (sort_key fst (tf_covers t))))
       (sort_key fst (src_tests src))) @
     concat (map (\<lambda>(t, body, _). map (\<lambda>i. (i, TaskSite t)) (findall covers_call body)) (sort_key fst table)) @
     concat (map (\<lambda>(s, st). map (\<lambda>i. (i, StepSite s)) (findall covers_call (ci_body st))) (sort_key fst steps))"

definition agrees :: "(ustr \<times> ci_step) list \<Rightarrow> row_gate \<Rightarrow> cover_site list \<Rightarrow> bool" where
  "agrees steps g sites =
     (case g of
        UnitGate f fn \<Rightarrow> UnitSite f fn \<in> set sites
      | StepGate s \<Rightarrow>
          list_ex (\<lambda>x. case x of
              TaskSite t \<Rightarrow> (case map_of steps s of None \<Rightarrow> False | Some st \<Rightarrow> t \<in> set (ci_tasks st))
            | StepSite s' \<Rightarrow> s' = s
            | UnitSite _ _ \<Rightarrow> False) sites)"

definition coverage_failure :: "(ustr \<times> ci_step) list \<Rightarrow> (ustr \<times> cover_site) list \<Rightarrow> ustr \<times> row_gate \<Rightarrow> spec_failure list" where
  "coverage_failure steps declared ig =
     (let sites = map snd (filter (\<lambda>d. fst d = fst ig) declared)
      in if sites = [] then [Undeclared (fst ig)]
         else if agrees steps (snd ig) sites then [] else [DeclaredElsewhere (fst ig)])"

section \<open>Everything\<close>

definition sheet_rules ::
  "(nat \<Rightarrow> bool) \<Rightarrow> (ustr \<Rightarrow> ustr) \<Rightarrow> spec_src \<Rightarrow> poe_table \<Rightarrow> spec_row list \<Rightarrow> spec_failure list" where
  "sheet_rules alnum lower src table rows =
     (let steps = workflow_steps (src_workflow src); reachable = reachable_tasks table [str_of ''test-all''];
          dev = List.map_filter (dev_name lower) (src_dev src);
          results = map (check_row alnum lower src table reachable steps dev) rows;
          cited = List.map_filter rr_step results;
          declared = declared_sites src table steps;
          gated = List.map_filter (\<lambda>(r, res). map_option (Pair (sr_id r)) (rr_gated res)) (zip rows results)
      in concat (map rr_failures results) @ listed_twice lower [] rows @
         map (\<lambda>(n, _). StepUncited n) (filter (\<lambda>(n, st). is_smoke_step st \<and> n \<notin> set cited) steps) @
         flag_failures src rows @
         map DeclaresNothing (ordered_set (filter (\<lambda>i. i \<notin> set (map sr_id rows)) (map fst declared))) @
         concat (map (coverage_failure steps declared) gated))"

definition analyse :: "(nat \<Rightarrow> bool) \<Rightarrow> (ustr \<Rightarrow> ustr) \<Rightarrow> spec_src \<Rightarrow> spec_row list \<times> spec_failure list" where
  "analyse alnum lower src =
     (case src_sheet src of
        None \<Rightarrow> ([], [SheetMissing])
      | Some sheet \<Rightarrow>
          (case parse_sheet sheet of
             (rows, fs) \<Rightarrow>
               (rows, map OfSheet fs @
                  (case src_tasks src of
                     None \<Rightarrow> [TomlBroken]
                   | Some table \<Rightarrow> sheet_rules alnum lower src table rows))))"

section \<open>What a green sheet means\<close>

lemma keys_dict_of: "distinct (map fst (dict_of es))"
proof -
  have "distinct (map fst d) \<Longrightarrow> distinct (map fst (fold (\<lambda>(k, v). AList.update k v) es d))" for d
    by (induction es arbitrary: d) (auto simp: distinct_update)
  then show ?thesis by (simp add: dict_of_def)
qed

text \<open>The cited test function exists, runs within test-all, and declares the row.\<close>

definition unit_covered :: "spec_src \<Rightarrow> poe_table \<Rightarrow> ustr \<Rightarrow> ustr \<times> ustr \<Rightarrow> bool" where
  "unit_covered src table rid u \<longleftrightarrow>
     (\<exists>t. map_of (src_tests src) (fst u) = Some t \<and> snd u \<in> set (tf_fns t) \<and>
        (str_of ''test-all'', tf_task t) \<in> (task_runs table)\<^sup>* \<and>
        (\<exists>ids. (snd u, ids) \<in> set (tf_covers t) \<and> rid \<in> set ids))"

text \<open>The cited step exists, has no condition, and it or a task it runs declares the row.\<close>

definition step_covered :: "spec_src \<Rightarrow> poe_table \<Rightarrow> ustr \<Rightarrow> ustr \<Rightarrow> bool" where
  "step_covered src table rid gate \<longleftrightarrow>
     (\<exists>st. map_of (workflow_steps (src_workflow src)) gate = Some st \<and> \<not> ci_conditional st \<and>
        (rid \<in> set (findall covers_call (ci_body st)) \<or>
         (\<exists>(t, body, refs) \<in> set table. t \<in> set (ci_tasks st) \<and> rid \<in> set (findall covers_call body))))"

definition gate_covered :: "spec_src \<Rightarrow> poe_table \<Rightarrow> ustr \<Rightarrow> row_gate \<Rightarrow> bool" where
  "gate_covered src table rid g =
     (case g of UnitGate f fn \<Rightarrow> unit_covered src table rid (f, fn) | StepGate s \<Rightarrow> step_covered src table rid s)"

lemma unit_site_declared:
  assumes "distinct (map fst (src_tests src))" "(rid, UnitSite f fn) \<in> set (declared_sites src table steps)"
    and "map_of (src_tests src) f = Some t"
  shows "\<exists>ids. (fn, ids) \<in> set (tf_covers t) \<and> rid \<in> set ids"
proof -
  obtain t' ids where d: "(f, t') \<in> set (src_tests src)" "(fn, ids) \<in> set (tf_covers t')" "rid \<in> set ids"
    using assms(2) by (auto simp: declared_sites_def)
  then have "t' = t" using assms(1,3) by (metis map_of_eq_Some_iff option.inject)
  then show ?thesis using d by blast
qed

lemma task_site_declared:
  "(rid, TaskSite t) \<in> set (declared_sites src table steps) \<Longrightarrow>
     \<exists>(t', body, refs) \<in> set table. t' = t \<and> rid \<in> set (findall covers_call body)"
  by (auto simp: declared_sites_def)

lemma step_site_declared:
  assumes "distinct (map fst steps)" "(rid, StepSite s) \<in> set (declared_sites src table steps)" "map_of steps s = Some st"
  shows "rid \<in> set (findall covers_call (ci_body st))"
proof -
  obtain st' where d: "(s, st') \<in> set steps" "rid \<in> set (findall covers_call (ci_body st'))"
    using assms(2) by (auto simp: declared_sites_def)
  then have "st' = st" using assms(1,3) by (metis map_of_eq_Some_iff option.inject)
  then show ?thesis using d by simp
qed

text \<open>A row that is checked and whose gate agrees with what is declared.\<close>

lemma gate_is_covered:
  fixes src table
  defines "steps \<equiv> workflow_steps (src_workflow src)"
  assumes "distinct (map fst (src_tests src))"
    and "coverage_failure steps (declared_sites src table steps) (rid, g) = []"
    and "case g of
           UnitGate f fn \<Rightarrow>
             (\<exists>t. map_of (src_tests src) f = Some t \<and> fn \<in> set (tf_fns t) \<and> tf_task t \<in> set (reachable_tasks table [str_of ''test-all'']))
         | StepGate s \<Rightarrow> (\<exists>st. map_of steps s = Some st \<and> \<not> ci_conditional st)"
  shows "gate_covered src table rid g"
proof -
  let ?sites = "map snd (filter (\<lambda>d. fst d = rid) (declared_sites src table steps))"
  have ag: "agrees steps g ?sites" using assms(3) by (auto simp: coverage_failure_def Let_def split: if_splits)
  have cover_site: "(rid, x) \<in> set (declared_sites src table steps)" if "x \<in> set ?sites" for x using that by auto
  have dist: "distinct (map fst steps)" unfolding steps_def workflow_steps_def by (rule keys_dict_of)
  show ?thesis
  proof (cases g)
    case (UnitGate f fn)
    then obtain t where t: "map_of (src_tests src) f = Some t" "fn \<in> set (tf_fns t)"
      "tf_task t \<in> set (reachable_tasks table [str_of ''test-all''])"
      using assms(4) by auto
    have "UnitSite f fn \<in> set ?sites" using ag UnitGate by (simp add: agrees_def)
    then show ?thesis
      using unit_site_declared [OF assms(2) cover_site t(1)] t UnitGate
      by (auto simp: gate_covered_def unit_covered_def reachable_is_closure)
  next
    case (StepGate s)
    then obtain st where st: "map_of steps s = Some st" "\<not> ci_conditional st" using assms(4) by auto
    have "list_ex (\<lambda>x. case x of TaskSite t \<Rightarrow> t \<in> set (ci_tasks st) | StepSite s' \<Rightarrow> s' = s | UnitSite _ _ \<Rightarrow> False) ?sites"
      using ag StepGate st(1) by (auto simp: agrees_def list_ex_iff split: cover_site.splits)
    then obtain x where x: "x \<in> set ?sites"
      "case x of TaskSite t \<Rightarrow> t \<in> set (ci_tasks st) | StepSite s' \<Rightarrow> s' = s | UnitSite _ _ \<Rightarrow> False"
      by (meson list_ex_iff)
    have "rid \<in> set (findall covers_call (ci_body st)) \<or>
         (\<exists>(t, body, refs) \<in> set table. t \<in> set (ci_tasks st) \<and> rid \<in> set (findall covers_call body))"
    proof (cases x)
      case (TaskSite t)
      then show ?thesis using task_site_declared [of rid t] cover_site [OF x(1)] x(2) by fastforce
    next
      case (StepSite s')
      then show ?thesis using step_site_declared [OF dist _ st(1)] cover_site [OF x(1)] x(2) by auto
    qed (use x in simp)
    then show ?thesis using st StepGate unfolding gate_covered_def step_covered_def steps_def by auto
  qed
qed

lemma verified_row_clean:
  assumes "rr_failures (verified_row alnum lower src table reachable steps dev r) = []"
  shows "\<exists>gate cadence. evidence_of (sr_evidence r) = Some (gate, cadence) \<and>
    (cadence = EVERY_PR \<longrightarrow>
      (\<exists>g. rr_gated (verified_row alnum lower src table reachable steps dev r) = Some g \<and>
         g = (case unit_of gate of Some (f, fn) \<Rightarrow> UnitGate f fn | None \<Rightarrow> StepGate gate) \<and>
         (case g of
            UnitGate f fn \<Rightarrow> (\<exists>t. map_of (src_tests src) f = Some t \<and> fn \<in> set (tf_fns t) \<and> tf_task t \<in> set reachable)
          | StepGate s \<Rightarrow> (\<exists>st. map_of steps s = Some st \<and> \<not> ci_conditional st))))"
proof -
  obtain gate cadence where e: "evidence_of (sr_evidence r) = Some (gate, cadence)"
    using assms by (auto simp: verified_row_def only_fails_def split: option.splits)
  have other: "rr_failures (other_row src (sr_id r) gate EVERY_PR) \<noteq> []"
    by (simp add: other_row_def only_fails_def EVERY_PR_def str_of_def)
  show ?thesis
  proof (intro exI conjI impI)
    show "evidence_of (sr_evidence r) = Some (gate, cadence)" by (rule e)
    assume c: "cadence = EVERY_PR"
    show "rr_gated (verified_row alnum lower src table reachable steps dev r) =
        Some (case unit_of gate of Some (f, fn) \<Rightarrow> UnitGate f fn | None \<Rightarrow> StepGate gate)"
      using assms e c other
      by (auto simp: verified_row_def unit_row_def step_row_def only_fails_def Let_def split: if_splits option.splits)
    show "case (case unit_of gate of Some (f, fn) \<Rightarrow> UnitGate f fn | None \<Rightarrow> StepGate gate) of
            UnitGate f fn \<Rightarrow> (\<exists>t. map_of (src_tests src) f = Some t \<and> fn \<in> set (tf_fns t) \<and> tf_task t \<in> set reachable)
          | StepGate s \<Rightarrow> (\<exists>st. map_of steps s = Some st \<and> \<not> ci_conditional st)"
      using assms e c other
      by (auto simp: verified_row_def unit_row_def step_row_def only_fails_def Let_def split: if_splits option.splits)
  qed simp
qed

section \<open>What is not read\<close>

text \<open>Nothing above \<open>steps:\<close> is read, so a job's own condition makes none of its steps conditional.\<close>

lemma above_steps_unread: "list_all (\<lambda>l. \<not> is_steps l) header \<Longrightarrow> job_steps (header @ job) = job_steps job"
  by (induction header) (simp_all add: job_steps_def)

lemma job_condition_unseen: "job_steps (str_of ''    if: false'' # job) = job_steps job"
  using above_steps_unread [of "[str_of ''    if: false'']" job]
  by (simp add: is_steps_def str_of_def starts_with_def)

section \<open>A sheet of one row\<close>

definition one_row_line :: ustr where
  "one_row_line = str_of ''| A1 | c | verified | '' @ [96] @ str_of ''test_x.mojo:test_y'' @ [96] @ str_of '' (every PR) |''"

definition one_row_sheet :: ustr where
  "one_row_sheet = str_of ''## A. B'' @ [10] @ one_row_line"

definition one_row_table :: poe_table where
  "one_row_table = [(str_of ''test-all'', [], [str_of ''test-x'']), (str_of ''test-x'', [], [])]"

definition one_row_src :: spec_src where
  "one_row_src =
     \<lparr>src_sheet = Some one_row_sheet, src_tasks = Some one_row_table, src_dev = [], src_workflow = [], src_roadmap = [],
      src_releasing = [], src_canary = [], src_nightly = [], src_citations = [], src_cli = [], src_host_flags = [],
      src_tests = [(str_of ''test_x.mojo'',
        \<lparr>tf_task = str_of ''test-x'', tf_fns = [str_of ''test_y''], tf_covers = [(str_of ''test_y'', [str_of ''A1''])]\<rparr>)],
      src_sources = []\<rparr>"

definition the_one_row :: spec_row where
  "the_one_row = \<lparr>sr_id = str_of ''A1'', sr_section = 65, sr_category = str_of ''A. B'', sr_capability = str_of ''c'',
     sr_status = str_of ''verified'', sr_evidence = [96] @ str_of ''test_x.mojo:test_y'' @ [96] @ str_of '' (every PR)''\<rparr>"

lemma findall_empty [simp]: "findall p [] = []"
  by (simp add: findall_def finds_def finds_from.simps)

lemma one_row_cells:
  "split_cells one_row_line =
     [str_of ''A1'', str_of ''c'', str_of ''verified'', [96] @ str_of ''test_x.mojo:test_y'' @ [96] @ str_of '' (every PR)'']"
  by (simp add: one_row_line_def split_cells_def str_of_def starts_with_def ends_with_iff u_strip_def u_space_def)

lemma one_row_lines: "splitlines one_row_sheet = [str_of ''## A. B'', one_row_line]"
  by (simp add: one_row_sheet_def one_row_line_def str_of_def line_break_def)

lemma one_row_heading: "heading_of (str_of ''## A. B'') = Some (str_of ''A. B'')" "heading_of one_row_line = None" "starts_with [124] (dropWhile u_space one_row_line)"
  by (simp_all add: heading_of_def str_of_def starts_with_def u_space_def one_row_line_def)

lemma one_row_take: "take_row 2 65 (split_cells one_row_line) (sheet_start\<lparr>ss_section := Some (str_of ''A. B'')\<rparr>) =
  \<lparr>ss_rows = [the_one_row], ss_failures = [], ss_section = Some (str_of ''A. B''), ss_ids = [str_of ''A1'']\<rparr>"
  unfolding one_row_cells
  by (simp add: take_row_def str_of_def is_row_id_def u_digit_def STATUSES_def the_one_row_def sheet_start_def Let_def)

lemma one_row_facts: "\<not> underline (split_cells one_row_line)" "length (split_cells one_row_line) = 4" "split_cells one_row_line \<noteq> HEAD" "Some (str_of ''A. B'') \<noteq> Some LEGEND"
  "section_letter (Some (str_of ''A. B'')) = Some 65"
  unfolding one_row_cells
  by (simp_all add: underline_def str_of_def HEAD_def LEGEND_def section_letter_def)

lemma the_one_rows: "parse_sheet one_row_sheet = ([the_one_row], [])"
proof -
  have "take_line (1, str_of ''## A. B'') sheet_start = sheet_start\<lparr>ss_section := Some (str_of ''A. B'')\<rparr>"
    by (simp only: take_line_def Let_def fst_conv snd_conv one_row_heading option.case)
  moreover have "take_line (2, one_row_line) (sheet_start\<lparr>ss_section := Some (str_of ''A. B'')\<rparr>) =
     \<lparr>ss_rows = [the_one_row], ss_failures = [], ss_section = Some (str_of ''A. B''), ss_ids = [str_of ''A1'']\<rparr>"
    using one_row_take one_row_facts by (simp add: take_line_def one_row_heading)
  ultimately show ?thesis unfolding parse_sheet_def one_row_lines
    by (simp add: numeral_2_eq_2)
qed

lemma one_row_evidence: "evidence_of (sr_evidence the_one_row) = Some (str_of ''test_x.mojo:test_y'', EVERY_PR)"
  by (simp add: the_one_row_def evidence_of_def str_of_def starts_with_def EVERY_PR_def)

lemma one_row_unit: "unit_of (str_of ''test_x.mojo:test_y'') = Some (str_of ''test_x.mojo'', str_of ''test_y'')"
  by (simp add: unit_of_def str_of_def starts_with_def test_name_def test_char_def u_digit_def)

lemma one_row_reach: "reachable_tasks one_row_table [str_of ''test-all''] = [str_of ''test-x'', str_of ''test-all'']"
  by (simp add: reachable_tasks_def one_row_table_def str_of_def refs_of_def reach.simps)

lemma one_row_flags: "row_flags the_one_row = []"
  by (simp add: row_flags_def the_one_row_def str_of_def findall_def finds_def finds_from.simps match_at_def span_of_def named_flag_def starts_with_def before_at_def)

lemma one_row_declared: "declared_sites one_row_src one_row_table [] = [(str_of ''A1'', UnitSite (str_of ''test_x.mojo'') (str_of ''test_y''))]"
  by (simp add: declared_sites_def one_row_src_def one_row_table_def)

lemma one_row_steps: "workflow_steps [] = []"
  by (simp add: workflow_steps_def workflow_jobs_def kept_lines_def lines_of_def is_jobs_def starts_with_def str_of_def dict_of_def)

lemma one_row_check: "check_row alnum lower one_row_src one_row_table [str_of ''test-x'', str_of ''test-all''] [] [] the_one_row =
   \<lparr>rr_failures = [], rr_step = None, rr_gated = Some (UnitGate (str_of ''test_x.mojo'') (str_of ''test_y''))\<rparr>"
proof -
  have "sr_status the_one_row = str_of ''verified''" by (simp add: the_one_row_def)
  moreover have "EVERY_PR \<in> set CADENCES" by (simp add: CADENCES_def EVERY_PR_def)
  ultimately show ?thesis
    by (simp add: check_row_def verified_row_def one_row_evidence one_row_unit unit_row_def one_row_src_def)
qed

lemma one_row_green: "analyse alnum lower one_row_src = ([the_one_row], [])"
proof -
  have "the_one_row \<in> set [the_one_row]" "src_sheet one_row_src = Some one_row_sheet" "src_tasks one_row_src = Some one_row_table"
    "src_dev one_row_src = []" "src_workflow one_row_src = []" "src_cli one_row_src = []" "src_host_flags one_row_src = []"
    by (simp_all add: one_row_src_def)
  moreover have "sr_id the_one_row = str_of ''A1''" by (simp add: the_one_row_def)
  ultimately show ?thesis
    by (simp add: analyse_def the_one_rows sheet_rules_def one_row_steps one_row_reach one_row_check one_row_declared one_row_flags
        flag_failures_def ordered_set_def coverage_failure_def agrees_def map_filter_def)
qed

section \<open>Every row has its gate\<close>



end
