(* ===== verification/Doc_Copies.thy ===== *)
theory Doc_Copies
  imports Spec_Rules Sabotage_Rules Py_Hash
begin

text \<open>
  What restates the sheet: the rollup at its head (spec\_sheet.py), and the passages of other pages
  that docs/copies.json holds to the sheet's rows and to the code's defaults (doc\_copies.py). The
  ledger arrives parsed as JSON; \<open>\d\<close> is an ASCII digit.
\<close>

section \<open>The rollup\<close>

definition BEGIN_MARK :: ustr where
  "BEGIN_MARK = str_of ''<!-- generated: spec-rollup -- edit the tables below, not this block -->''"

definition END_MARK :: ustr where "END_MARK = str_of ''<!-- /generated: spec-rollup -->''"

definition with_status :: "spec_row list \<Rightarrow> ustr \<Rightarrow> nat" where
  "with_status rows s = length (filter (\<lambda>r. sr_status r = s) rows)"

definition with_cadence :: "spec_row list \<Rightarrow> ustr \<Rightarrow> nat" where
  "with_cadence rows c =
     length (filter (\<lambda>r. sr_status r = str_of ''verified'' \<and>
       (case evidence_of (sr_evidence r) of None \<Rightarrow> False | Some (_, d) \<Rightarrow> d = c)) rows)"

definition render_rollup :: "spec_row list \<Rightarrow> ustr" where
  "render_rollup rows =
     (let status = (\<lambda>s. count_text (with_status rows (str_of s))); cadence = (\<lambda>c. count_text (with_cadence rows (str_of c)))
      in BEGIN_MARK @ [10] @
         str_of ''**'' @ count_text (length rows) @ str_of '' capabilities: '' @ status ''verified'' @ str_of '' verified, '' @
         status ''implemented'' @ str_of '' implemented, '' @ status ''planned'' @ str_of '' planned, '' @
         status ''out of scope'' @ str_of '' out of scope.** Of the '' @ status ''verified'' @
         str_of '' verified, '' @ cadence ''every PR'' @ str_of '' are gated on every pull request, '' @
         cadence ''weekly'' @ str_of '' weekly, '' @ cadence ''monthly'' @ str_of '' monthly, and '' @
         cadence ''pre-release'' @ str_of '' before a release. Every pull-request-gated row's coverage is declared IN its gate '' @
         str_of ''(`covers:` in the cited test, or a recorder coverage call in what the cited step task_runs), '' @
         str_of ''and the checker requires the declaration and the citation to agree; the weekly, monthly and '' @
         str_of ''pre-release rows keep declared-static citations, their task_runs being absent from PR CI.'' @ [10] @
         END_MARK)"

text \<open>The refusal, and the \<open>ValueError\<close> of unpacking a region whose end stands before its beginning.\<close>

datatype rollup_error = NotOneRegion | EndsBeforeItBegins

definition rewrite_sheet :: "ustr \<Rightarrow> spec_row list \<Rightarrow> rollup_error + ustr" where
  "rewrite_sheet sheet rows =
     (if occurrences sheet BEGIN_MARK \<noteq> 1 \<or> occurrences sheet END_MARK \<noteq> 1 then Inl NotOneRegion
      else case cut_at BEGIN_MARK sheet of
             None \<Rightarrow> Inl NotOneRegion
           | Some (head, rest) \<Rightarrow>
               (case cut_at END_MARK rest of
                  None \<Rightarrow> Inl EndsBeforeItBegins
                | Some (_, tail) \<Rightarrow> Inr (head @ render_rollup rows @ tail)))"

section \<open>The code's defaults\<close>

record default_fact =
  df_name :: ustr
  df_path :: ustr
  df_value :: "ustr pattern"
  df_spell :: "ustr \<Rightarrow> ustr list"

text \<open>Text, a number, and what must stand after it to the end of a word.\<close>

definition number_after :: "(nat \<Rightarrow> bool) \<Rightarrow> ustr \<Rightarrow> (ustr \<Rightarrow> ustr) \<Rightarrow> ustr pattern" where
  "number_after alnum lead tail b s =
     (let v = takeWhile u_digit (drop (length lead) s); r = drop (length lead + length v) s
      in if starts_with lead s \<and> v \<noteq> [] \<and> starts_with (tail v) r \<and> ends_word alnum (drop (length (tail v)) r)
         then Some (v, drop (length (tail v)) r) else None)"

definition SERVER_CONFIG :: ustr where "SERVER_CONFIG = str_of ''packages/m0-http/lightbug_http/server_config.mojo''"
definition LOOP_STATE :: ustr where "LOOP_STATE = str_of ''packages/m0-http/lightbug_http/loop/state.mojo''"
definition CLI_SOURCE :: ustr where "CLI_SOURCE = str_of ''packages/m0-wsgi/src/cli.mojo''"

definition plainly :: "ustr \<Rightarrow> ustr list" where "plainly v = [v]"

definition in_seconds :: "ustr \<Rightarrow> ustr list" where
  "in_seconds v = map (\<lambda>u. v @ str_of u) ['' s'', ''s'', '' seconds'']"

definition default_facts :: "(nat \<Rightarrow> bool) \<Rightarrow> default_fact list" where
  "default_facts alnum =
     (let fact = (\<lambda>n p lead tail spell.
            \<lparr>df_name = str_of n, df_path = p, df_value = number_after alnum (str_of lead) tail, df_spell = spell\<rparr>);
          plain = (\<lambda>_. [])
      in [fact ''max_connections'' SERVER_CONFIG ''self.max_connections = '' plain plainly,
          fact ''max_connections_cap'' CLI_SOURCE ''comptime MAX_CONNECTIONS = '' plain plainly,
          fact ''stream_reserve_cap'' SERVER_CONFIG ''return share if share < '' (\<lambda>v. str_of '' else '' @ v) plainly,
          fact ''stream_retry_after_s'' LOOP_STATE ''comptime STREAM_REFUSED_RETRY_S = '' plain (\<lambda>v. [str_of ''Retry-After: '' @ v]),
          fact ''replay_frames'' CLI_SOURCE ''comptime DEFAULT_REPLAY_FRAMES = '' plain plainly,
          fact ''max_keepalive_requests'' SERVER_CONFIG ''self.max_keepalive_requests = '' plain plainly,
          fact ''idle_timeout_s'' SERVER_CONFIG ''self.idle_timeout = '' plain in_seconds,
          fact ''sse_heartbeat_s'' SERVER_CONFIG ''self.sse_heartbeat_ms = '' plain
            (\<lambda>v. in_seconds (count_text (dec_value v div 1000)) @ [v]),
          fact ''sse_flush_ms'' LOOP_STATE ''comptime SSE_FLUSH_MS = '' plain (\<lambda>v. [v @ str_of '' ms'', v @ str_of ''ms'']),
          fact ''max_body'' SERVER_CONFIG ''self.max_request_body_size = '' (\<lambda>_. str_of '' * 1024 * 1024'')
            (\<lambda>v. [v @ [109], v @ str_of '' MB''])])"

definition fact_value :: "(ustr \<Rightarrow> ustr option) \<Rightarrow> default_fact \<Rightarrow> ustr option" where
  "fact_value sources f =
     search_at (df_value f) (case sources (df_path f) of None \<Rightarrow> [] | Some t \<Rightarrow> t)"

section \<open>A passage\<close>

fun words_at :: "ustr list \<Rightarrow> ustr \<Rightarrow> ustr option" where
  "words_at [] s = Some s"
| "words_at (w # ws) s =
     (let r = drop (length w) s
      in if \<not> starts_with w s then None
         else if ws = [] then Some r
         else if r \<noteq> [] \<and> u_space (hd r) then words_at ws (dropWhile u_space r) else None)"

definition opens_with :: "ustr list \<Rightarrow> unit pattern" where
  "opens_with ws b s = map_option (Pair ()) (words_at ws s)"

text \<open>\<open>_END\<close>: a blank line, or a line that begins an item, a heading or a table row.\<close>

definition passage_ends :: "ustr \<Rightarrow> bool" where
  "passage_ends s \<longleftrightarrow>
     (let r = dropWhile tab_or_blank (drop 1 s); ds = takeWhile u_digit r
      in starts_with [10] s \<and>
         (starts_with [10] r \<or> starts_with [45, 32] r \<or> starts_with [42, 32] r \<or> starts_with [43, 32] r \<or>
          (ds \<noteq> [] \<and> starts_with [46, 32] (drop (length ds) r)) \<or> starts_with [35] r \<or> starts_with [124] r))"

fun passage_rest :: "ustr \<Rightarrow> ustr" where
  "passage_rest [] = []"
| "passage_rest (c # cs) = (if passage_ends (c # cs) then [] else c # passage_rest cs)"

definition locate_passage :: "ustr \<Rightarrow> ustr \<Rightarrow> ustr option \<times> nat" where
  "locate_passage page opens =
     (if words_of opens = [] then (None, 0)
      else let found = finds (span_of (opens_with (words_of opens))) page
           in case found of
                [(i, k)] \<Rightarrow> (Some (take k (drop i page) @ passage_rest (drop (i + k) page)), 1)
              | _ \<Rightarrow> (None, length found))"

text \<open>\<open>(?<![\w.])\<close>, the spelling, \<open>(?![\w])\<close>\<close>

definition spelled :: "(nat \<Rightarrow> bool) \<Rightarrow> ustr \<Rightarrow> unit pattern" where
  "spelled alnum w b s =
     (if (case b of None \<Rightarrow> True | Some c \<Rightarrow> \<not> u_word alnum c \<and> c \<noteq> 46) \<and> starts_with w s \<and> ends_word alnum (drop (length w) s)
      then Some ((), drop (length w) s) else None)"

definition says :: "(nat \<Rightarrow> bool) \<Rightarrow> ustr \<Rightarrow> ustr \<Rightarrow> bool" where
  "says alnum passage w \<longleftrightarrow> findall (spelled alnum w) passage \<noteq> []"

section \<open>The check\<close>

text \<open>A row as a summary depends on it.\<close>

definition row_stamp :: "spec_row \<Rightarrow> ustr" where
  "row_stamp r = take 12 (str_of (hexdigest (sha256 (utf8_bytes (sr_capability r @ [10] @ sr_status r)))))"

definition sheet_rows :: "ustr \<Rightarrow> (ustr \<times> spec_row) list" where
  "sheet_rows sheet = dict_of (map (\<lambda>r. (sr_id r, r)) (fst (parse_sheet sheet)))"

record copied =
  cp_page :: "ustr option"
  cp_opens :: ustr
  cp_rows :: "(ustr \<times> ustr) list"
  cp_defaults :: "ustr list"

datatype copy_problem =
    LedgerUnreadable
  | FactGone ustr
  | ListsNothing nat
  | NoSuchPage nat
  | OpensTimes nat nat
  | NoSuchRow nat ustr
  | StaleStamp nat ustr
  | UnknownDefault nat ustr
  | DefaultUnstated nat ustr

definition row_problem :: "(ustr \<times> spec_row) list \<Rightarrow> nat \<Rightarrow> ustr \<times> ustr \<Rightarrow> copy_problem option" where
  "row_problem rows i entry =
     (case map_of rows (fst entry) of
        None \<Rightarrow> Some (NoSuchRow i (fst entry))
      | Some r \<Rightarrow> if row_stamp r \<noteq> snd entry then Some (StaleStamp i (fst entry)) else None)"

definition default_problem ::
  "(nat \<Rightarrow> bool) \<Rightarrow> (ustr \<Rightarrow> ustr option) \<Rightarrow> ustr \<Rightarrow> nat \<Rightarrow> ustr \<Rightarrow> copy_problem option" where
  "default_problem alnum sources passage i name =
     (case map_of (map (\<lambda>f. (df_name f, f)) (default_facts alnum)) name of
        None \<Rightarrow> Some (UnknownDefault i name)
      | Some f \<Rightarrow>
          (case fact_value sources f of
             None \<Rightarrow> None
           | Some v \<Rightarrow> if list_ex (says alnum passage) (df_spell f v) then None else Some (DefaultUnstated i name)))"

definition passage_problems ::
  "(nat \<Rightarrow> bool) \<Rightarrow> (ustr \<Rightarrow> ustr option) \<Rightarrow> (ustr \<times> spec_row) list \<Rightarrow> (ustr \<Rightarrow> ustr option) \<Rightarrow> nat \<times> copied \<Rightarrow> copy_problem list" where
  "passage_problems alnum pages rows sources ip =
     (let i = fst ip; p = snd ip
      in (if cp_rows p = [] \<and> cp_defaults p = [] then [ListsNothing i] else []) @
         (case Option.bind (cp_page p) pages of
            None \<Rightarrow> [NoSuchPage i]
          | Some page \<Rightarrow>
              (case locate_passage page (cp_opens p) of
                 (None, n) \<Rightarrow> [OpensTimes i n]
               | (Some passage, _) \<Rightarrow>
                   List.map_filter (row_problem rows i) (sort_key fst (cp_rows p)) @
                   List.map_filter (default_problem alnum sources passage i) (cp_defaults p))))"

definition copy_problems ::
  "(nat \<Rightarrow> bool) \<Rightarrow> copied list option \<Rightarrow> (ustr \<Rightarrow> ustr option) \<Rightarrow> ustr \<Rightarrow> (ustr \<Rightarrow> ustr option) \<Rightarrow> copy_problem list" where
  "copy_problems alnum ledger pages sheet sources =
     (case ledger of
        None \<Rightarrow> [LedgerUnreadable]
      | Some ps \<Rightarrow>
          map (\<lambda>f. FactGone (df_name f)) (filter (\<lambda>f. fact_value sources f = None) (default_facts alnum)) @
          concat (map (passage_problems alnum pages (sheet_rows sheet) sources) (enumerate 0 ps)))"

section \<open>Stamping\<close>

text \<open>What is printed is the list of passages and rows; its length is the count.\<close>

definition stale_stamp :: "(ustr \<times> spec_row) list \<Rightarrow> ustr \<times> ustr \<Rightarrow> bool" where
  "stale_stamp rows entry = (case map_of rows (fst entry) of None \<Rightarrow> False | Some r \<Rightarrow> snd entry \<noteq> row_stamp r)"

definition stamped :: "(ustr \<times> spec_row) list \<Rightarrow> ustr \<times> ustr \<Rightarrow> ustr \<times> ustr" where
  "stamped rows entry =
     (case map_of rows (fst entry) of None \<Rightarrow> entry | Some r \<Rightarrow> if stale_stamp rows entry then (fst entry, row_stamp r) else entry)"

definition restamp :: "(ustr \<times> spec_row) list \<Rightarrow> copied list \<Rightarrow> copied list \<times> (copied \<times> ustr) list" where
  "restamp rows ps =
     (map (\<lambda>p. p\<lparr>cp_rows := map (stamped rows) (cp_rows p)\<rparr>) ps,
      concat (map (\<lambda>p. map (\<lambda>e. (p, fst e)) (filter (stale_stamp rows) (sort_key fst (cp_rows p)))) ps))"

section \<open>What they promise\<close>

text \<open>Each row is counted under one status.\<close>

lemma rollup_adds_up:
  assumes "parse_sheet sheet = (rows, failures)"
  shows "sum_list (map (with_status rows) STATUSES) = length rows"
proof -
  have "list_all (\<lambda>r. sr_status r \<in> set STATUSES) rows"
    using parsed_rows_good [OF assms] by (simp add: list_all_iff good_row_def)
  then show ?thesis
    by (induction rows) (auto simp: with_status_def STATUSES_def str_of_def)
qed

text \<open>A rewrite replaces the region and nothing else.\<close>

lemma rewrite_keeps_the_rest:
  assumes "rewrite_sheet sheet rows = Inr sheet'"
  shows "\<exists>head old tail. sheet = head @ BEGIN_MARK @ old @ END_MARK @ tail \<and> sheet' = head @ render_rollup rows @ tail"
  using assms by (fastforce simp: rewrite_sheet_def split: if_splits option.splits dest!: cut_at_join)

text \<open>A passage without a problem: found once, its rows as stamped, its defaults as the code has them.\<close>

definition copy_agrees ::
  "(nat \<Rightarrow> bool) \<Rightarrow> (ustr \<Rightarrow> ustr option) \<Rightarrow> (ustr \<times> spec_row) list \<Rightarrow> (ustr \<Rightarrow> ustr option) \<Rightarrow> copied \<Rightarrow> bool" where
  "copy_agrees alnum pages rows sources p \<longleftrightarrow>
     (\<exists>page passage. Option.bind (cp_page p) pages = Some page \<and>
        locate_passage page (cp_opens p) = (Some passage, 1) \<and>
        (\<forall>(rid, st) \<in> set (cp_rows p). \<exists>r. map_of rows rid = Some r \<and> row_stamp r = st) \<and>
        (\<forall>n \<in> set (cp_defaults p). \<exists>f v w. f \<in> set (default_facts alnum) \<and> df_name f = n \<and>
           fact_value sources f = Some v \<and> w \<in> set (df_spell f v) \<and> says alnum passage w))"

lemma map_filter_none: "List.map_filter f xs = [] \<longleftrightarrow> (\<forall>x \<in> set xs. f x = None)"
  by (induction xs) (auto simp: map_filter_simps split: option.splits)

lemma in_map_filter: "y \<in> set (List.map_filter f xs) \<longleftrightarrow> (\<exists>x \<in> set xs. f x = Some y)"
  by (induction xs) (auto simp: map_filter_simps split: option.split)

lemma locate_once: "locate_passage page opens = (Some passage, n) \<Longrightarrow> n = Suc 0"
  by (auto simp: locate_passage_def Let_def split: if_splits list.splits)

lemma copies_agree:
  assumes "copy_problems alnum (Some ps) pages sheet sources = []" "p \<in> set ps"
  shows "copy_agrees alnum pages (sheet_rows sheet) sources p"
proof -
  have facts: "\<forall>f \<in> set (default_facts alnum). fact_value sources f \<noteq> None"
    using assms(1) by (auto simp: copy_problems_def filter_empty_conv)
  obtain i where "i < length ps" "p = ps ! i" using assms(2) by (auto simp: in_set_conv_nth)
  then have "(i, p) \<in> set (enumerate 0 ps)" by (simp add: in_set_enumerate_eq)
  then have "passage_problems alnum pages (sheet_rows sheet) sources (i, p) = []"
    using assms(1) by (simp add: copy_problems_def)
  then obtain page passage where page: "Option.bind (cp_page p) pages = Some page"
    "locate_passage page (cp_opens p) = (Some passage, 1)"
    and rows: "\<forall>e \<in> set (cp_rows p). row_problem (sheet_rows sheet) i e = None"
    and defaults: "\<forall>n \<in> set (cp_defaults p). default_problem alnum sources passage i n = None"
    by (auto simp: passage_problems_def Let_def map_filter_none split: option.splits prod.splits dest: locate_once)
  have "\<exists>f v w. f \<in> set (default_facts alnum) \<and> df_name f = n \<and> fact_value sources f = Some v \<and>
      w \<in> set (df_spell f v) \<and> says alnum passage w" if "n \<in> set (cp_defaults p)" for n
  proof -
    have d: "default_problem alnum sources passage i n = None" using defaults that by blast
    then obtain f where f: "map_of (map (\<lambda>f. (df_name f, f)) (default_facts alnum)) n = Some f"
      by (auto simp: default_problem_def split: option.splits)
    then have m: "f \<in> set (default_facts alnum)" "df_name f = n" by (auto dest!: map_of_SomeD)
    then obtain v where "fact_value sources f = Some v" using facts by blast
    then show ?thesis using d f m by (auto simp: default_problem_def list_ex_iff split: if_splits)
  qed
  moreover have "\<exists>r. map_of (sheet_rows sheet) rid = Some r \<and> row_stamp r = st" if "(rid, st) \<in> set (cp_rows p)" for rid st
    using rows that by (fastforce simp: row_problem_def split: option.splits if_splits)
  ultimately show ?thesis using page unfolding copy_agrees_def by blast
qed

text \<open>Stamping twice stamps nothing, and leaves what the ledger lists.\<close>

lemma stamped_fresh: "\<not> stale_stamp rows (stamped rows e)" "fst (stamped rows e) = fst e"
  by (auto simp: stale_stamp_def stamped_def split: option.splits)

lemma restamp_settles: "restamp rows (fst (restamp rows ps)) = (fst (restamp rows ps), [])"
proof -
  have "stamped rows (stamped rows e) = stamped rows e" for e
    using stamped_fresh(1) [of rows e] by (simp add: stamped_def [of rows "stamped rows e"] split: option.split)
  then show ?thesis by (auto simp: restamp_def filter_empty_conv stamped_fresh)
qed

lemma restamp_keeps:
  "map (\<lambda>p. (cp_page p, cp_opens p, map fst (cp_rows p), cp_defaults p)) (fst (restamp rows ps)) =
   map (\<lambda>p. (cp_page p, cp_opens p, map fst (cp_rows p), cp_defaults p)) ps"
  by (simp add: restamp_def stamped_fresh comp_def)

lemma restamp_clears:
  "StaleStamp i rid \<notin> set (copy_problems alnum (Some (fst (restamp (sheet_rows sheet) ps))) pages sheet sources)"
proof -
  have row: "row_problem rows i (stamped rows e) \<noteq> Some (StaleStamp j k)" for rows i e j k
    using stamped_fresh [of rows e] by (auto simp: row_problem_def stale_stamp_def split: option.splits if_splits)
  have default: "default_problem alnum sources passage i n \<noteq> Some (StaleStamp j k)" for passage i n j k
    by (simp add: default_problem_def split: option.split)
  have "StaleStamp j k \<notin> set (passage_problems alnum pages rows sources (i, p\<lparr>cp_rows := map (stamped rows) (cp_rows p)\<rparr>))"
    for i j k p rows
    using row default by (auto simp: passage_problems_def Let_def in_map_filter split: option.splits prod.splits)
  then show ?thesis by (auto simp: copy_problems_def restamp_def in_set_enumerate_eq)
qed

end
