(* ===== verification/Doc_Coverage.thy ===== *)
theory Doc_Coverage
  imports Doc_Copies "HOL-Library.Sublist"
begin

text \<open>
  What check\_docs.py asks of the workflows: does CI run every smoke and every test, does a job that
  records measurements keep them, does a job that must not have the sources stay without them. The
  texts are read by the functions of \<open>Spec_Sheet\<close>; the table of tasks arrives parsed, \<open>None\<close> where
  pyproject.toml is not TOML.
\<close>

section \<open>Smokes and tests\<close>

definition smoke_call :: "ustr pattern" where
  "smoke_call b s =
     (let n = takeWhile task_char (drop 10 s)
      in if starts_with (str_of ''poe smoke-'') s \<and> n \<noteq> [] then Some (str_of ''smoke-'' @ n, drop (10 + length n) s) else None)"

definition named :: "string \<Rightarrow> poe_table \<Rightarrow> ustr list" where
  "named p table = filter (starts_with (str_of p)) (map fst table)"

definition smokes_run :: "ustr \<Rightarrow> ustr list" where
  "smokes_run workflow = findall smoke_call (strip_comment_lines workflow)"

datatype coverage_problem =
    TableUnreadable
  | SmokesNeverRun "ustr list"
  | SmokesThatAreNot "ustr list"
  | TestsNeverRun "ustr list"
  | ReachedByNoStep "ustr list"

text \<open>The names of \<open>xs\<close> that are not in \<open>ys\<close>, as a problem where there are any.\<close>

definition complain :: "(ustr list \<Rightarrow> 'p) \<Rightarrow> ustr list \<Rightarrow> ustr list \<Rightarrow> 'p list" where
  "complain p xs ys = (case ordered_set (filter (\<lambda>x. x \<notin> set ys) xs) of [] \<Rightarrow> [] | ns \<Rightarrow> [p ns])"

definition smoke_coverage_problems :: "poe_table option \<Rightarrow> ustr \<Rightarrow> coverage_problem list" where
  "smoke_coverage_problems table workflow =
     (case table of
        None \<Rightarrow> [TableUnreadable]
      | Some t \<Rightarrow>
          complain SmokesNeverRun (named ''smoke-'' t) (smokes_run workflow) @
          complain SmokesThatAreNot (smokes_run workflow) (named ''smoke-'' t))"

text \<open>The tasks of named steps, and those of steps without a condition.\<close>

definition tasks_stepped :: "ustr \<Rightarrow> ustr list" where
  "tasks_stepped workflow = concat (map (\<lambda>(_, st). ci_tasks st) (workflow_steps workflow))"

definition steps_of_jobs :: "ustr \<Rightarrow> step list" where
  "steps_of_jobs workflow = concat (map (\<lambda>(_, job). job_steps job) (workflow_jobs workflow))"

definition always_run :: "ustr \<Rightarrow> ustr list" where
  "always_run workflow =
     concat (map (\<lambda>st. findall poe_call (st_text st)) (filter (\<lambda>st. \<not> st_conditional st) (steps_of_jobs workflow)))"

definition test_coverage_problems :: "poe_table option \<Rightarrow> ustr \<Rightarrow> coverage_problem list" where
  "test_coverage_problems table workflow =
     (case table of
        None \<Rightarrow> [TableUnreadable]
      | Some t \<Rightarrow>
          let reached = reachable_tasks t [str_of ''test-all'']
          in complain TestsNeverRun (named ''test-'' t) (reached @ tasks_stepped workflow) @
             complain ReachedByNoStep reached (str_of ''test-all'' # reachable_tasks t (always_run workflow)))"

section \<open>Composite actions\<close>

definition name_piece :: "(nat \<Rightarrow> bool) \<Rightarrow> nat \<Rightarrow> bool" where
  "name_piece alnum c \<longleftrightarrow> u_word alnum c \<or> c = 46 \<or> c = 45"

definition ACTIONS_DIR :: ustr where "ACTIONS_DIR = str_of ''.github/actions''"

text \<open>The action's directory and what ends the line: a reference, a quote, blanks.\<close>

definition action_dir :: "(nat \<Rightarrow> bool) \<Rightarrow> ustr \<Rightarrow> ustr option" where
  "action_dir alnum s =
     (let lead = ACTIONS_DIR @ [47]; n = takeWhile (name_piece alnum) (drop (length lead) s);
          r0 = drop (length lead + length n) s; r1 = (if starts_with [47] r0 then drop 1 r0 else r0);
          ref = takeWhile (\<lambda>c. \<not> u_space c \<and> c \<noteq> 34 \<and> c \<noteq> 39) (drop 1 r1);
          r2 = (if starts_with [64] r1 \<and> ref \<noteq> [] then drop (1 + length ref) r1 else r1);
          r3 = (case r2 of c # cs \<Rightarrow> if c = 34 \<or> c = 39 then cs else r2 | [] \<Rightarrow> [])
      in if starts_with lead s \<and> n \<noteq> [] \<and> list_all tab_or_blank r3 then Some (lead @ n) else None)"

text \<open>\<open>[\w.-]+/\<close>\<close>

definition path_piece :: "(nat \<Rightarrow> bool) \<Rightarrow> ustr \<Rightarrow> ustr option" where
  "path_piece alnum s =
     (let n = takeWhile (name_piece alnum) s; r = drop (length n) s
      in if n \<noteq> [] \<and> starts_with [47] r then Some (drop 1 r) else None)"

definition action_use :: "(nat \<Rightarrow> bool) \<Rightarrow> ustr \<Rightarrow> ustr option" where
  "action_use alnum line =
     (let r0 = dropWhile tab_or_blank line; r1 = (if starts_with [45, 32] r0 then drop 2 r0 else r0);
          r2 = dropWhile tab_or_blank (drop 5 r1);
          r3 = (case r2 of c # cs \<Rightarrow> if c = 34 \<or> c = 39 then cs else r2 | [] \<Rightarrow> [])
      in if \<not> starts_with (str_of ''uses:'') r1 then None
         else case (if starts_with [46, 47] r3 then action_dir alnum (drop 2 r3) else None) of
                Some a \<Rightarrow> Some a
              | None \<Rightarrow> Option.bind (Option.bind (path_piece alnum r3) (path_piece alnum)) (action_dir alnum))"

text \<open>The first line of a step that uses an action.\<close>

definition first_use :: "(nat \<Rightarrow> bool) \<Rightarrow> ustr \<Rightarrow> ustr option" where
  "first_use alnum s = (case List.map_filter (action_use alnum) (lines_of s) of [] \<Rightarrow> None | a # _ \<Rightarrow> Some a)"

definition unquoted :: "ustr \<Rightarrow> ustr" where
  "unquoted v = (if 2 \<le> length v \<and> hd v = last v \<and> (hd v = 39 \<or> hd v = 34) then butlast (tl v) else v)"

text \<open>\<open> *([\w-]+):(?:[ \t]+(.*?))?[ \t]*$\<close>\<close>

definition key_line :: "(nat \<Rightarrow> bool) \<Rightarrow> ustr \<Rightarrow> (ustr \<times> ustr) option" where
  "key_line alnum line =
     (let s = dropWhile (\<lambda>c. c = 32) line; k = takeWhile (\<lambda>c. u_word alnum c \<or> c = 45) s; r = drop (length k + 1) s
      in if k \<noteq> [] \<and> starts_with [58] (drop (length k) s) \<and> (r = [] \<or> tab_or_blank (hd r))
         then Some (k, unquoted (rev (dropWhile tab_or_blank (rev (dropWhile tab_or_blank r))))) else None)"

fun children_from :: "(nat \<Rightarrow> bool) \<Rightarrow> nat \<Rightarrow> nat option \<Rightarrow> (nat \<times> ustr) list \<Rightarrow> (ustr \<times> ustr \<times> nat) list" where
  "children_from alnum indent child [] = []"
| "children_from alnum indent child ((j, line) # ls) =
     (if u_strip line = [] then children_from alnum indent child ls
      else if indent_of line \<le> indent then []
      else let c = (case child of None \<Rightarrow> indent_of line | Some c \<Rightarrow> c)
           in (case key_line alnum line of
                 Some (k, v) \<Rightarrow> if indent_of line = c then [(k, v, j)] else []
               | None \<Rightarrow> []) @ children_from alnum indent (Some c) ls)"

definition key_column :: "ustr \<Rightarrow> nat" where
  "key_column line = indent_of line + (if is_item line then 2 else 0)"

text \<open>\<open>head.lstrip()\<close> strips every blank; the indent counts spaces.\<close>

definition head_column :: "ustr \<Rightarrow> nat" where
  "head_column line = indent_of line + (if starts_with [45, 32] (dropWhile u_space line) then 2 else 0)"

definition key_children :: "(nat \<Rightarrow> bool) \<Rightarrow> ustr list \<Rightarrow> nat \<Rightarrow> (ustr \<times> ustr \<times> nat) list" where
  "key_children alnum lines i =
     children_from alnum (head_column (lines ! i)) None (enumerate (i + 1) (drop (i + 1) lines))"

definition is_key :: "string \<Rightarrow> ustr \<Rightarrow> bool" where
  "is_key k s \<longleftrightarrow> starts_with (str_of k @ [58]) s \<and> key_ends (drop (length k + 1) s)"

definition with_line :: "ustr list \<Rightarrow> nat \<Rightarrow> bool" where
  "with_line lines i \<longleftrightarrow>
     (let c = key_column (hd lines); line = lines ! i
      in (i = 0 \<or> (starts_with (replicate c 32) line \<and> \<not> starts_with [32] (drop c line))) \<and> is_key ''with'' (drop c line))"

definition step_inputs :: "(nat \<Rightarrow> bool) \<Rightarrow> ustr \<Rightarrow> (ustr \<times> ustr) list" where
  "step_inputs alnum s =
     (let lines = lines_of s
      in case filter (with_line lines) [0..<length lines] of
           [] \<Rightarrow> []
         | i # _ \<Rightarrow> dict_of (map (\<lambda>(k, v, _). (k, v)) (key_children alnum lines i)))"

definition input_defaults :: "(nat \<Rightarrow> bool) \<Rightarrow> ustr \<Rightarrow> (ustr \<times> ustr) list" where
  "input_defaults alnum action =
     (let lines = lines_of action
      in case filter (\<lambda>i. is_key ''inputs'' (lines ! i)) [0..<length lines] of
           [] \<Rightarrow> []
         | i # _ \<Rightarrow> dict_of (map (\<lambda>(name, _, j).
               (name, case map_of (dict_of (map (\<lambda>(k, v, _). (k, v)) (key_children alnum lines j))) (str_of ''default'') of
                        None \<Rightarrow> [] | Some v \<Rightarrow> v))
             (key_children alnum lines i)))"

text \<open>\<open>\$\{\{\s*inputs\.([\w-]+)\s*\}\}\<close>\<close>

definition input_ref :: "(nat \<Rightarrow> bool) \<Rightarrow> ustr pattern" where
  "input_ref alnum b s =
     (let r = dropWhile u_space (drop 3 s); n = takeWhile (\<lambda>c. u_word alnum c \<or> c = 45) (drop 7 r);
          t = dropWhile u_space (drop (7 + length n) r)
      in if starts_with [36, 123, 123] s \<and> starts_with (str_of ''inputs.'') r \<and> n \<noteq> [] \<and> starts_with [125, 125] t
         then Some (n, drop 2 t) else None)"

text \<open>\<open>re.sub\<close>: what is written for each match, and the text between them.\<close>

fun sub_at :: "'a pattern \<Rightarrow> ('a \<Rightarrow> ustr) \<Rightarrow> ustr \<Rightarrow> nat \<Rightarrow> (nat \<times> nat) list \<Rightarrow> ustr" where
  "sub_at p f s i [] = drop i s"
| "sub_at p f s i ((j, k) # ms) =
     take (j - i) (drop i s) @ (case groups_at p s j of None \<Rightarrow> [] | Some g \<Rightarrow> f g) @ sub_at p f s (j + k) ms"

definition sub_all :: "'a pattern \<Rightarrow> ('a \<Rightarrow> ustr) \<Rightarrow> ustr \<Rightarrow> ustr" where
  "sub_all p f s = sub_at p f s 0 (finds (span_of p) s)"

definition one_line :: "ustr \<Rightarrow> ustr" where
  "one_line v = map (\<lambda>c. if c = 10 then 32 else c) v"

definition action_as_run :: "(nat \<Rightarrow> bool) \<Rightarrow> ustr \<Rightarrow> ustr \<Rightarrow> ustr" where
  "action_as_run alnum action step =
     (let a = strip_comment_lines action; given = step_inputs alnum step; defaults = input_defaults alnum a
      in sub_all (input_ref alnum)
           (\<lambda>n. one_line (case map_of given n of Some v \<Rightarrow> v
                          | None \<Rightarrow> (case map_of defaults n of Some v \<Rightarrow> v | None \<Rightarrow> []))) a)"

text \<open>The number counts how much deeper actions are still read; the code begins with four.\<close>

fun steps_as_run :: "(nat \<Rightarrow> bool) \<Rightarrow> (ustr \<times> ustr) list \<Rightarrow> nat \<Rightarrow> ustr list \<Rightarrow> step list" where
  "steps_as_run alnum actions 0 job = job_steps job"
| "steps_as_run alnum actions (Suc d) job =
     concat (map (\<lambda>st. st #
       (case Option.bind (first_use alnum (st_text st)) (map_of actions) of
          None \<Rightarrow> []
        | Some action \<Rightarrow>
            map (\<lambda>t. t\<lparr>st_conditional := st_conditional st \<or> st_conditional t\<rparr>)
              (steps_as_run alnum actions d (lines_of (action_as_run alnum action (st_text st)))))) (job_steps job))"

definition job_as_run :: "(nat \<Rightarrow> bool) \<Rightarrow> (ustr \<times> ustr) list \<Rightarrow> ustr list \<Rightarrow> step list" where
  "job_as_run alnum actions job = steps_as_run alnum actions 4 job"

section \<open>Jobs that stay clean\<close>

datatype consumer_failure = UsesForbidden ustr ustr | NoCleanStep ustr | NoConsumer

definition FORBIDDEN :: "ustr list" where
  "FORBIDDEN = map str_of [''actions/checkout'', ''astral-sh/setup-uv'', ''poe '']"

definition CLEAN_STEP :: ustr where "CLEAN_STEP = str_of ''did not build the wheel''"

definition clean_step :: "step \<Rightarrow> bool" where
  "clean_step st \<longleftrightarrow>
     (case st_name st of None \<Rightarrow> False | Some n \<Rightarrow> n \<noteq> [] \<and> contains CLEAN_STEP n) \<and>
     \<not> st_conditional st \<and> u_strip (st_text st) \<noteq> []"

definition consumer_problem :: "(nat \<Rightarrow> bool) \<Rightarrow> (ustr \<times> ustr) list \<Rightarrow> ustr \<times> ustr list \<Rightarrow> consumer_failure list" where
  "consumer_problem alnum actions j =
     (let steps = job_as_run alnum actions (snd j); run = join [10] (join [10] (snd j) # map st_text steps)
      in map (UsesForbidden (fst j)) (filter (\<lambda>f. contains f run) FORBIDDEN) @
         (if list_ex clean_step steps then [] else [NoCleanStep (fst j)]))"

definition is_consumer :: "ustr \<times> ustr list \<Rightarrow> bool" where
  "is_consumer j \<longleftrightarrow> starts_with (str_of ''wheel-consume'') (fst j)"

definition consumer_job_problems :: "(nat \<Rightarrow> bool) \<Rightarrow> ustr \<Rightarrow> (ustr \<times> ustr) list \<Rightarrow> consumer_failure list" where
  "consumer_job_problems alnum release actions =
     (let jobs = filter is_consumer (workflow_jobs release)
      in concat (map (consumer_problem alnum actions) jobs) @ (if jobs = [] then [NoConsumer] else []))"

section \<open>Measurements\<close>

text \<open>\<open>\b\<close> before a word character.\<close>

definition begins_word :: "(nat \<Rightarrow> bool) \<Rightarrow> nat option \<Rightarrow> bool" where
  "begins_word alnum b \<longleftrightarrow> (case b of None \<Rightarrow> True | Some c \<Rightarrow> \<not> u_word alnum c)"

text \<open>\<open>_RECORDS\<close>\<close>

definition records_call :: "(nat \<Rightarrow> bool) \<Rightarrow> unit pattern" where
  "records_call alnum b s =
     (let w = drop 15 s; r = dropWhile tab_or_blank w
      in if begins_word alnum b \<and> starts_with (str_of ''scripts/emit.py'') s \<and> w \<noteq> [] \<and> tab_or_blank (hd w) \<and>
            ((starts_with (str_of ''--covers'') r \<and> ends_word alnum (drop 8 r)) \<or> (r \<noteq> [] \<and> hd r \<noteq> 45 \<and> \<not> u_space (hd r)))
         then Some ((), r) else None)"

definition shell_line :: "ustr \<Rightarrow> ustr" where "shell_line s = takeWhile (\<lambda>c. c \<noteq> 10) s"

text \<open>\<open>>>[ \t]*"?\$\{?GITHUB_STEP_SUMMARY\b\<close>\<close>

definition to_summary :: "(nat \<Rightarrow> bool) \<Rightarrow> ustr \<Rightarrow> bool" where
  "to_summary alnum s \<longleftrightarrow>
     (let r0 = dropWhile tab_or_blank (drop 2 s); r1 = (if starts_with [34] r0 then drop 1 r0 else r0);
          r2 = drop 1 r1; r3 = (if starts_with [123] r2 then drop 1 r2 else r2)
      in starts_with [62, 62] s \<and> starts_with [36] r1 \<and> starts_with (str_of ''GITHUB_STEP_SUMMARY'') r3 \<and>
         ends_word alnum (drop 19 r3))"

text \<open>\<open>_RENDERS\<close>: somewhere in the rest of the line the output goes to the summary.\<close>

definition renders_call :: "(nat \<Rightarrow> bool) \<Rightarrow> unit pattern" where
  "renders_call alnum b s =
     (let r = shell_line (drop 25 s)
      in if begins_word alnum b \<and> starts_with (str_of ''scripts/emit.py --summary'') s \<and> ends_word alnum (drop 25 s) \<and>
            list_ex (\<lambda>i. to_summary alnum (drop i r)) [0..<length r]
         then Some ((), drop 25 s) else None)"

text \<open>\<open>^\s+M0_RESULTS:[ \t]*(\S.*?)[ \t]*$\<close>\<close>

definition results_env :: "ustr pattern" where
  "results_env b s =
     (let k = dropWhile u_space s; v = dropWhile tab_or_blank (shell_line (drop 11 k))
      in if line_start b \<and> s \<noteq> [] \<and> u_space (hd s) \<and> starts_with (str_of ''M0_RESULTS:'') k \<and> v \<noteq> [] \<and> \<not> u_space (hd v)
         then Some (rev (dropWhile tab_or_blank (rev v)), drop 11 k) else None)"

text \<open>\<open>^\s*(?:- )?uses:[ \t]*actions/upload-artifact@\<close> and \<open>^\s+name:[ \t]*ci-results-\<close>\<close>

definition upload_line :: "unit pattern" where
  "upload_line b s =
     (let r = dropWhile u_space s; u = (if starts_with [45, 32] r then drop 2 r else r)
      in if line_start b \<and> starts_with (str_of ''uses:'') u \<and>
            starts_with (str_of ''actions/upload-artifact@'') (dropWhile tab_or_blank (drop 5 u))
         then Some ((), drop 5 u) else None)"

definition results_name :: "unit pattern" where
  "results_name b s =
     (let r = dropWhile u_space s
      in if line_start b \<and> s \<noteq> [] \<and> u_space (hd s) \<and> starts_with (str_of ''name:'') r \<and>
            starts_with (str_of ''ci-results-'') (dropWhile tab_or_blank (drop 5 r))
         then Some ((), drop 5 r) else None)"

definition no_quote :: "ustr \<Rightarrow> ustr list" where
  "no_quote s = s # (case s of c # cs \<Rightarrow> if c = 34 \<or> c = 39 then [cs] else [] | [] \<Rightarrow> [])"

text \<open>The places after a slash of the line, and the place itself.\<close>

definition below :: "ustr \<Rightarrow> ustr list" where
  "below s = s # map (\<lambda>i. drop (i + 1) s) (filter (\<lambda>i. s ! i = 47) [0..<length (shell_line s)])"

definition blank_next :: "ustr \<Rightarrow> bool" where
  "blank_next s \<longleftrightarrow> (case s of [] \<Rightarrow> True | c # _ \<Rightarrow> u_space c)"

text \<open>\<open>^\s+(?:path:[ \t]*)?["']?(?:.*/)?\<close>, the file's name, \<open>["']?(?!\S)\<close>\<close>

definition uploads_path :: "ustr \<Rightarrow> unit pattern" where
  "uploads_path target b s =
     (let r = dropWhile u_space s;
          starts = r # (if starts_with (str_of ''path:'') r then [dropWhile tab_or_blank (drop 5 r)] else [])
      in if line_start b \<and> s \<noteq> [] \<and> u_space (hd s) \<and>
            list_ex (\<lambda>p. starts_with target p \<and> list_ex blank_next (no_quote (drop (length target) p)))
              (concat (map below (concat (map no_quote starts))))
         then Some ((), r) else None)"

definition found :: "'a pattern \<Rightarrow> ustr \<Rightarrow> bool" where
  "found p s \<longleftrightarrow> findall p s \<noteq> []"

definition quote_stripped :: "ustr \<Rightarrow> ustr" where
  "quote_stripped v =
     (let q = (\<lambda>c. c = 39 \<or> c = 34) in rev (dropWhile q (rev (dropWhile q v))))"

definition last_part :: "ustr \<Rightarrow> ustr" where
  "last_part v = rev (takeWhile (\<lambda>c. c \<noteq> 47) (rev v))"

datatype measurement_problem =
    NoTaskTable
  | RendersNothing
  | SetsNoResults ustr "ustr list" bool
  | NeverRenders ustr
  | UploadsNothing ustr
  | UploadsAnother ustr ustr
  | SelftestNotRun

definition records :: "(nat \<Rightarrow> bool) \<Rightarrow> ustr list \<Rightarrow> ustr \<Rightarrow> bool" where
  "records alnum recorders body \<longleftrightarrow> found (records_call alnum) body \<or> list_ex (\<lambda>r. contains r body) recorders"

definition recording_tasks :: "(nat \<Rightarrow> bool) \<Rightarrow> ustr list \<Rightarrow> poe_table \<Rightarrow> ustr list" where
  "recording_tasks alnum recorders table = map fst (filter (\<lambda>(_, body, _). records alnum recorders body) table)"

definition run_text :: "step list \<Rightarrow> ustr" where
  "run_text steps = join [10] (map st_text steps)"

definition is_upload :: "step \<Rightarrow> bool" where
  "is_upload st \<longleftrightarrow> found upload_line (st_text st) \<and> found results_name (st_text st)"

definition collected :: "(nat \<Rightarrow> bool) \<Rightarrow> ustr \<Rightarrow> step list \<Rightarrow> ustr \<Rightarrow> measurement_problem list" where
  "collected alnum job steps results =
     (let target = last_part (quote_stripped results); uploads = filter is_upload steps
      in (if found (renders_call alnum) (run_text steps) then [] else [NeverRenders job]) @
         (if uploads = [] then [UploadsNothing job]
          else if list_ex (\<lambda>st. found (uploads_path target) (st_text st)) uploads then [] else [UploadsAnother job target]))"

definition job_measurements ::
  "(nat \<Rightarrow> bool) \<Rightarrow> ustr list \<Rightarrow> poe_table \<Rightarrow> (ustr \<times> ustr) list \<Rightarrow> ustr \<times> ustr list \<Rightarrow> measurement_problem list" where
  "job_measurements alnum recorders table actions j =
     (let steps = job_as_run alnum actions (snd j); run = run_text steps;
          ran = reachable_tasks table (findall poe_call run);
          why = ordered_set (filter (\<lambda>t. t \<in> set (recording_tasks alnum recorders table)) ran);
          own = records alnum recorders run
      in case search_at results_env (join [10] (snd j)) of
           None \<Rightarrow> if why = [] \<and> \<not> own then [] else [SetsNoResults (fst j) why own]
         | Some results \<Rightarrow> collected alnum (fst j) steps results)"

definition measurement_problems ::
  "(nat \<Rightarrow> bool) \<Rightarrow> poe_table option \<Rightarrow> ustr \<Rightarrow> ustr list \<Rightarrow> (ustr \<times> ustr) list \<Rightarrow> measurement_problem list" where
  "measurement_problems alnum table workflow recorders actions =
     (case table of
        None \<Rightarrow> [NoTaskTable]
      | Some t \<Rightarrow>
          let jobs = workflow_jobs workflow;
              code = join [10] (concat (map (\<lambda>j. map st_text (job_as_run alnum actions (snd j))) jobs))
          in if recording_tasks alnum recorders t = []
             then (if contains (str_of ''scripts/emit.py --summary'') code then [RendersNothing] else [])
             else concat (map (job_measurements alnum recorders t actions) jobs) @
                  (if contains (str_of ''scripts/emit.py --selftest'') code then [] else [SelftestNotRun]))"

section \<open>Marks that must not be there\<close>

definition marker_line :: "ustr \<Rightarrow> bool" where
  "marker_line l \<longleftrightarrow> starts_with (str_of ''<<<<<<< '') l \<or> starts_with (str_of ''>>>>>>> '') l"

definition marker_at :: "ustr \<Rightarrow> nat option" where
  "marker_at t = (case filter (\<lambda>(_, l). marker_line l) (enumerate 1 (splitlines t)) of [] \<Rightarrow> None | (n, _) # _ \<Rightarrow> Some n)"

definition conflict_markers :: "(ustr \<times> ustr) list \<Rightarrow> (ustr \<times> nat) list" where
  "conflict_markers files = List.map_filter (\<lambda>(path, t). map_option (Pair path) (marker_at t)) files"

definition jobs_substituted :: "(nat \<Rightarrow> bool) \<Rightarrow> unit pattern" where
  "jobs_substituted alnum b s =
     (let r = dropWhile u_space (drop 2 s)
      in if starts_with [36, 40] s \<and> starts_with (str_of ''jobs'') r \<and> ends_word alnum (drop 4 r)
         then Some ((), drop 4 r) else None)"

definition TRIPLE :: ustr where "TRIPLE = [34, 34, 34]"

lemma cut_at_shorter: "cut_at sep s = Some (a, b) \<Longrightarrow> sep \<noteq> [] \<Longrightarrow> length b < length s"
  by (drule cut_at_join) simp

text \<open>The triple-quoted strings of a text, each with the lines before it.\<close>

function quoted_blocks :: "nat \<Rightarrow> ustr \<Rightarrow> (nat \<times> ustr) list" where
  "quoted_blocks n s =
     (case cut_at TRIPLE s of
        None \<Rightarrow> []
      | Some (before, r) \<Rightarrow>
          (case cut_at TRIPLE r of
             None \<Rightarrow> []
           | Some (block, after_block) \<Rightarrow>
               (n + count_list before 10, block) #
               quoted_blocks (n + count_list before 10 + count_list block 10) after_block))"
  by pat_completeness auto
termination
  by (relation "measure (length \<circ> snd)") (auto simp: TRIPLE_def dest!: cut_at_shorter)

definition jobs_in_substitutions :: "(nat \<Rightarrow> bool) \<Rightarrow> ustr \<Rightarrow> (nat \<times> ustr) list" where
  "jobs_in_substitutions alnum s =
     concat (map (\<lambda>(n, block). map (\<lambda>(k, l). (k, u_strip l))
       (filter (\<lambda>(k, l). \<not> starts_with [35] (dropWhile u_space l) \<and> found (jobs_substituted alnum) l)
         (enumerate (n + 1) (lines_of block)))) (quoted_blocks 0 s))"

section \<open>What no problem means\<close>

lemma set_ordered [simp]: "set (ordered_set xs) = set xs"
  by (simp add: ordered_set_def)

lemma complain_none: "complain p xs ys = [] \<longleftrightarrow> set xs \<subseteq> set ys"
proof -
  have "complain p xs ys = [] \<longleftrightarrow> ordered_set (filter (\<lambda>x. x \<notin> set ys) xs) = []"
    by (simp add: complain_def split: list.split)
  also have "\<dots> \<longleftrightarrow> set (ordered_set (filter (\<lambda>x. x \<notin> set ys) xs)) = {}" by (simp only: set_empty)
  also have "\<dots> \<longleftrightarrow> set xs \<subseteq> set ys" by auto
  finally show ?thesis .
qed

text \<open>The smokes that are defined are those the workflow names.\<close>

lemma smokes_covered:
  "smoke_coverage_problems (Some t) workflow = [] \<longleftrightarrow> set (named ''smoke-'' t) = set (smokes_run workflow)"
  by (auto simp: smoke_coverage_problems_def complain_none)

text \<open>
  Each test task is run from test-all or by a named step, and what test-all runs, a step without a
  condition runs.
\<close>

lemma tests_covered:
  assumes "test_coverage_problems (Some t) workflow = []"
  shows "set (named ''test-'' t) \<subseteq> (task_runs t)\<^sup>* `` {str_of ''test-all''} \<union> set (tasks_stepped workflow)"
    and "(task_runs t)\<^sup>* `` {str_of ''test-all''} \<subseteq> insert (str_of ''test-all'') ((task_runs t)\<^sup>* `` set (always_run workflow))"
  using assms by (auto simp: test_coverage_problems_def complain_none Let_def reachable_is_closure)

text \<open>A job is run with its own steps, and a step's condition holds for all it calls.\<close>

lemma own_steps_run: "subseq (job_steps job) (steps_as_run alnum actions d job)"
proof (cases d)
  case (Suc e)
  have "subseq xs (concat (map (\<lambda>x. x # f x) xs))" for xs :: "step list" and f
    by (induction xs) (auto intro: list_emb_append2)
  then show ?thesis using Suc by simp
qed simp

lemma called_under_condition:
  assumes "st_conditional st" "Option.bind (first_use alnum (st_text st)) (map_of actions) = Some action"
    and "job_steps job = [st]" "t \<in> set (steps_as_run alnum actions d job)"
  shows "st_conditional t"
  using assms by (cases d) auto

lemma join_holds: "t \<in> set ts \<Longrightarrow> \<exists>a b. join sep ts = a @ t @ b"
proof (induction sep ts rule: join.induct)
  case (3 sep x y xs)
  show ?case
  proof (cases "t = x")
    case True
    then have "join sep (x # y # xs) = [] @ t @ (sep @ join sep (y # xs))" by simp
    then show ?thesis by blast
  next
    case False
    then obtain a b where "join sep (y # xs) = a @ t @ b" using 3 by auto
    then have "join sep (x # y # xs) = (x @ sep @ a) @ t @ b" by simp
    then show ?thesis by blast
  qed
qed (auto intro: exI [of _ "[]"])

text \<open>A job that must not have the sources.\<close>

lemma consumers_clean:
  assumes "consumer_job_problems alnum release actions = []"
  shows "\<exists>j \<in> set (workflow_jobs release). is_consumer j"
    and "j \<in> set (workflow_jobs release) \<Longrightarrow> is_consumer j \<Longrightarrow>
      (\<forall>f \<in> set FORBIDDEN. \<not> contains f (join [10] (snd j)) \<and>
         (\<forall>st \<in> set (job_as_run alnum actions (snd j)). \<not> contains f (st_text st))) \<and>
      (\<exists>st \<in> set (job_as_run alnum actions (snd j)). clean_step st)"
proof -
  show "\<exists>j \<in> set (workflow_jobs release). is_consumer j"
    using assms by (auto simp: consumer_job_problems_def Let_def filter_empty_conv split: if_splits)
  assume j: "j \<in> set (workflow_jobs release)" "is_consumer j"
  let ?steps = "job_as_run alnum actions (snd j)"
  have clean: "consumer_problem alnum actions j = []"
    using assms j by (cases j) (auto simp: consumer_job_problems_def Let_def)
  have part: "contains f (join [10] ts)" if "t \<in> set ts" "contains f t" for f and t :: ustr and ts
    using join_holds [OF that(1)] that(2) unfolding contains_iff by (metis append.assoc)
  have none: "\<not> contains f (join [10] (join [10] (snd j) # map st_text ?steps))" if "f \<in> set FORBIDDEN" for f
    using clean that by (auto simp: consumer_problem_def Let_def filter_empty_conv split: if_splits)
  show "(\<forall>f \<in> set FORBIDDEN. \<not> contains f (join [10] (snd j)) \<and> (\<forall>st \<in> set ?steps. \<not> contains f (st_text st))) \<and>
      (\<exists>st \<in> set ?steps. clean_step st)"
  proof (intro conjI ballI notI)
    show False if "f \<in> set FORBIDDEN" "contains f (join [10] (snd j))" for f
      using none [OF that(1)] part [OF _ that(2), of "join [10] (snd j) # map st_text ?steps"] by simp
    show False if "f \<in> set FORBIDDEN" "st \<in> set ?steps" "contains f (st_text st)" for f st
      using none [OF that(1)] part [OF _ that(3), of "join [10] (snd j) # map st_text ?steps"] that(2) by simp
    show "\<exists>st \<in> set ?steps. clean_step st"
      using clean by (auto simp: consumer_problem_def Let_def list_ex_iff split: if_splits)
  qed
qed

text \<open>
  Where no problem is found and something records: a job in which a recording task runs, itself or
  through others, names a results file, renders it and uploads a file of that name.
\<close>

lemma measurements_kept:
  assumes "measurement_problems alnum (Some t) workflow recorders actions = []"
    and "j \<in> set (workflow_jobs workflow)"
    and "task \<in> set (recording_tasks alnum recorders t)"
    and "task \<in> (task_runs t)\<^sup>* `` set (findall poe_call (run_text (job_as_run alnum actions (snd j))))"
  shows "\<exists>results. search_at results_env (join [10] (snd j)) = Some results \<and>
    found (renders_call alnum) (run_text (job_as_run alnum actions (snd j))) \<and>
    (\<exists>st \<in> set (job_as_run alnum actions (snd j)). is_upload st \<and>
       found (uploads_path (last_part (quote_stripped results))) (st_text st))"
proof -
  let ?steps = "job_as_run alnum actions (snd j)"
  have none: "job_measurements alnum recorders t actions j = []"
    using assms(1-3) by (auto simp: measurement_problems_def Let_def split: if_splits)
  have "set (ordered_set (filter (\<lambda>x. x \<in> set (recording_tasks alnum recorders t))
      (reachable_tasks t (findall poe_call (run_text ?steps))))) \<noteq> {}"
    using assms(3,4) by (auto simp: reachable_is_closure)
  then have why: "ordered_set (filter (\<lambda>x. x \<in> set (recording_tasks alnum recorders t))
      (reachable_tasks t (findall poe_call (run_text ?steps)))) \<noteq> []" by (metis list.set(1))
  then obtain results where r: "search_at results_env (join [10] (snd j)) = Some results"
    using none by (auto simp: job_measurements_def Let_def split: option.splits if_splits)
  then have "collected alnum (fst j) ?steps results = []"
    using none by (simp add: job_measurements_def Let_def)
  then show ?thesis using r
    by (auto simp: collected_def Let_def list_ex_iff filter_empty_conv split: if_splits)
qed

lemma no_markers:
  "conflict_markers files = [] \<longleftrightarrow> (\<forall>(path, t) \<in> set files. \<forall>l \<in> set (splitlines t). \<not> marker_line l)"
proof -
  have "marker_at t = None \<longleftrightarrow> (\<forall>l \<in> set (splitlines t). \<not> marker_line l)" for t
  proof -
    have "marker_at t = None \<longleftrightarrow> filter (\<lambda>(_, l). marker_line l) (enumerate 1 (splitlines t)) = []"
      by (simp add: marker_at_def split: list.split)
    also have "\<dots> \<longleftrightarrow> (\<forall>p \<in> set (enumerate 1 (splitlines t)). \<not> marker_line (snd p))"
      by (auto simp: filter_empty_conv)
    also have "\<dots> \<longleftrightarrow> (\<forall>l \<in> snd ` set (enumerate 1 (splitlines t)). \<not> marker_line l)" by simp
    also have "snd ` set (enumerate 1 (splitlines t)) = set (splitlines t)"
      by (metis list.set_map map_snd_enumerate)
    finally show ?thesis .
  qed
  then show ?thesis by (auto simp: conflict_markers_def map_filter_none)
qed

text \<open>The smoke named only in a step's label counts as run.\<close>

definition labelled_smoke :: ustr where
  "labelled_smoke = str_of ''      - name: poe smoke-x'' @ [10] @ str_of ''        run: true''"

lemma label_counts_as_run:
  "smoke_coverage_problems (Some [(str_of ''smoke-x'', [], [])]) labelled_smoke = []"
proof -
  have "strip_comment_lines labelled_smoke = labelled_smoke"
    by (simp add: strip_comment_lines_def kept_lines_def lines_of_def labelled_smoke_def str_of_def starts_with_def u_space_def)
  moreover have "findall smoke_call labelled_smoke = [str_of ''smoke-x'']"
    by (simp add: labelled_smoke_def str_of_def findall_def finds_def finds_from.simps match_at_def span_of_def groups_at_def
        smoke_call_def starts_with_def before_at_def task_char_def u_digit_def map_filter_simps)
  ultimately show ?thesis
    by (simp add: smokes_covered smokes_run_def named_def str_of_def starts_with_def)
qed

end
