(* ===== verification/Doc_Ledger.thy ===== *)
theory Doc_Ledger
  imports Doc_Coverage
begin

text \<open>
  The pages that say what is decided and what comes next: the ledger of decisions and the release
  train (check\_docs.py), the known issues and the soak record (milestones.py). \<open>\d\<close> is an ASCII
  digit.
\<close>

section \<open>Dates\<close>

record day = dy_year :: nat dy_month :: nat dy_day :: nat

definition leap :: "nat \<Rightarrow> bool" where
  "leap y \<longleftrightarrow> y mod 4 = 0 \<and> (y mod 100 \<noteq> 0 \<or> y mod 400 = 0)"

definition month_days :: "nat \<Rightarrow> nat list" where
  "month_days y = [31, if leap y then 29 else 28, 31, 30, 31, 30, 31, 31, 30, 31, 30, 31]"

definition date_of :: "nat \<Rightarrow> nat \<Rightarrow> nat \<Rightarrow> day option" where
  "date_of y m d =
     (if 1 \<le> y \<and> 1 \<le> m \<and> m \<le> 12 \<and> 1 \<le> d \<and> d \<le> month_days y ! (m - 1)
      then Some \<lparr>dy_year = y, dy_month = m, dy_day = d\<rparr> else None)"

text \<open>\<open>toordinal\<close>: the first of January of year 1 is day 1, a Monday.\<close>

definition ordinal :: "day \<Rightarrow> nat" where
  "ordinal t =
     (let p = dy_year t - 1
      in p * 365 + p div 4 - p div 100 + p div 400 + sum_list (take (dy_month t - 1) (month_days (dy_year t))) + dy_day t)"

definition weekday :: "day \<Rightarrow> nat" where
  "weekday t = (ordinal t + 6) mod 7"

section \<open>The train\<close>

type_synonym version = "nat \<times> nat \<times> nat"

definition number_at :: "ustr \<Rightarrow> (nat \<times> ustr) option" where
  "number_at s = (let ds = takeWhile u_digit s in if ds = [] then None else Some (dec_value ds, drop (length ds) s))"

definition dotted_version :: "ustr \<Rightarrow> (version \<times> ustr) option" where
  "dotted_version s =
     Option.bind (number_at s) (\<lambda>(a, r). if \<not> starts_with [46] r then None
       else Option.bind (number_at (drop 1 r)) (\<lambda>(b, r'). if \<not> starts_with [46] r' then None
         else map_option (\<lambda>(c, q). ((a, b, c), q)) (number_at (drop 1 r'))))"

definition digits :: "nat \<Rightarrow> ustr \<Rightarrow> bool" where
  "digits n s \<longleftrightarrow> n \<le> length s \<and> list_all u_digit (take n s)"

text \<open>\<open>\d{4}-\d{2}-\d{2}\<close>, and the day it is, if it is one.\<close>

definition iso_date :: "ustr \<Rightarrow> (day option \<times> ustr) option" where
  "iso_date s =
     (if digits 4 s \<and> starts_with [45] (drop 4 s) \<and> digits 2 (drop 5 s) \<and> starts_with [45] (drop 7 s) \<and> digits 2 (drop 8 s)
      then Some (date_of (dec_value (take 4 s)) (dec_value (take 2 (drop 5 s))) (dec_value (take 2 (drop 8 s))), drop 10 s)
      else None)"

definition after_text :: "ustr \<Rightarrow> ustr \<Rightarrow> ustr option" where
  "after_text w s = (if starts_with w s then Some (drop (length w) s) else None)"

record train =
  tr_next :: version
  tr_leaves :: "day option"
  tr_then :: version
  tr_then_leaves :: "day option"

definition train_at :: "train pattern" where
  "train_at b s =
     Option.bind (after_text [42, 42] s) (\<lambda>s. Option.bind (dotted_version s) (\<lambda>(v, s).
     Option.bind (after_text (str_of '' leaves on Thursday '') s) (\<lambda>s. Option.bind (iso_date s) (\<lambda>(d, s).
     Option.bind (after_text (str_of ''.** The train after it is '') s) (\<lambda>s. Option.bind (dotted_version s) (\<lambda>(w, s).
     Option.bind (after_text (str_of '' on Thursday '') s) (\<lambda>s. Option.bind (iso_date s) (\<lambda>(e, s).
     map_option (Pair \<lparr>tr_next = v, tr_leaves = d, tr_then = w, tr_then_leaves = e\<rparr>) (after_text [46] s)))))))))"

definition short_train_at :: "(version \<times> day option) pattern" where
  "short_train_at b s =
     Option.bind (after_text (str_of ''The next train is '') s) (\<lambda>s. Option.bind (dotted_version s) (\<lambda>(v, s).
     Option.bind (after_text (str_of '', on Thursday '') s) (\<lambda>s. Option.bind (iso_date s) (\<lambda>(d, s).
     map_option (Pair (v, d)) (after_text [46] s)))))"

definition folded :: "ustr \<Rightarrow> ustr" where
  "folded s = join [32] (words_of s)"

definition next_trains :: "ustr \<Rightarrow> train list" where
  "next_trains s = findall train_at (folded s)"

definition next_train_short :: "ustr \<Rightarrow> (version \<times> day option) list" where
  "next_train_short s = findall short_train_at (folded s)"

datatype train_problem =
    PageMissing
  | TrainTimes nat
  | NotTheNext version
  | NotTheOneAfter version
  | NotADate bool
  | NotAThursday bool nat
  | NotAFortnight int
  | ShortTimes nat
  | OtherTrain version "day option"

definition next_minor :: "version \<Rightarrow> version" where
  "next_minor v = (case v of (a, b, _) \<Rightarrow> (a, b + 1, 0))"

definition next_major :: "version \<Rightarrow> version" where
  "next_major v = (case v of (a, _) \<Rightarrow> (a + 1, 0, 0))"

definition day_problem :: "bool \<Rightarrow> day option \<Rightarrow> train_problem list" where
  "day_problem first d =
     (case d of None \<Rightarrow> [NotADate first] | Some t \<Rightarrow> if weekday t \<noteq> 3 then [NotAThursday first (weekday t)] else [])"

definition short_problem :: "ustr \<Rightarrow> train \<Rightarrow> train_problem list" where
  "short_problem llms t =
     (case next_train_short llms of
        [s] \<Rightarrow> if s = (tr_next t, tr_leaves t) then [] else [OtherTrain (fst s) (snd s)]
      | ss \<Rightarrow> [ShortTimes (length ss)])"

definition train_problems :: "ustr option \<Rightarrow> ustr option \<Rightarrow> version \<Rightarrow> train_problem list" where
  "train_problems releases llms v =
     (case releases of
        None \<Rightarrow> [PageMissing]
      | Some page \<Rightarrow>
          (case next_trains page of
             [t] \<Rightarrow>
               (if tr_next t \<in> {next_minor v, next_major v} then [] else [NotTheNext (tr_next t)]) @
               (if tr_then t = next_minor (tr_next t) then [] else [NotTheOneAfter (tr_then t)]) @
               day_problem True (tr_leaves t) @ day_problem False (tr_then_leaves t) @
               (case (tr_leaves t, tr_then_leaves t) of
                  (Some d, Some e) \<Rightarrow>
                    if int (ordinal e) - int (ordinal d) = 14 then [] else [NotAFortnight (int (ordinal e) - int (ordinal d))]
                | _ \<Rightarrow> []) @
               short_problem (case llms of None \<Rightarrow> [] | Some l \<Rightarrow> l) t
           | ts \<Rightarrow> [TrainTimes (length ts)]))"

section \<open>The ledger\<close>

definition LEDGER_HEADER :: ustr where
  "LEDGER_HEADER = str_of ''| id | decision | recorded in | status | retired by |''"

text \<open>\<open>^\|\s*-+\<close>\<close>

definition rule_line :: "ustr \<Rightarrow> bool" where
  "rule_line l \<longleftrightarrow> starts_with [124] l \<and> starts_with [45] (dropWhile u_space (drop 1 l))"

fun ledger_lines :: "bool \<Rightarrow> (nat \<times> ustr) list \<Rightarrow> (nat \<times> ustr list) list" where
  "ledger_lines inside [] = []"
| "ledger_lines inside ((n, l) # ls) =
     (if u_strip l = LEDGER_HEADER then ledger_lines True ls
      else if \<not> inside then ledger_lines False ls
      else if \<not> starts_with [124] l then ledger_lines False ls
      else if rule_line l then ledger_lines True ls
      else (n, split_cells l) # ledger_lines True ls)"

definition ledger_rows :: "ustr \<Rightarrow> (nat \<times> ustr list) list" where
  "ledger_rows page = ledger_lines False (enumerate 1 (splitlines page))"

text \<open>\<open>^D(\d+)$\<close>\<close>

definition decision_id :: "ustr \<Rightarrow> nat option" where
  "decision_id s =
     (case s of c # ds \<Rightarrow> if c = 68 \<and> ds \<noteq> [] \<and> list_all u_digit ds then Some (dec_value ds) else None | [] \<Rightarrow> None)"

datatype ledger_status = Standing | Superseded ustr | Retired

definition ledger_status_of :: "ustr \<Rightarrow> ledger_status option" where
  "ledger_status_of s =
     (if s = str_of ''standing'' then Some Standing
      else if starts_with (str_of ''superseded by '') s \<and> decision_id (drop 14 s) \<noteq> None then Some (Superseded (drop 14 s))
      else if starts_with (str_of ''retired '') s \<and> length s = 18 \<and> iso_date (drop 8 s) \<noteq> None then Some Retired
      else None)"

datatype recorded_in = InNote ustr | UnderHeading ustr

definition note_char :: "nat \<Rightarrow> bool" where
  "note_char c \<longleftrightarrow> latin_letter c \<or> u_digit c \<or> c = 46 \<or> c = 95 \<or> c = 45"

text \<open>\<open>_LEDGER_NOTE\<close>\<close>

definition note_link :: "ustr \<Rightarrow> ustr option" where
  "note_link s =
     (let t = takeWhile (\<lambda>c. c \<noteq> 93) (drop 1 s); r = drop (1 + length t) s; n = takeWhile note_char (drop 8 r);
          q = drop (8 + length n) r; u = (if starts_with [35] q then dropWhile (\<lambda>c. c \<noteq> 41) q else q)
      in if starts_with [91] s \<and> t \<noteq> [] \<and> starts_with (93 # str_of ''(notes/'') r \<and> ends_with (str_of ''.md'') n \<and> 3 < length n \<and>
            u = [41]
         then Some n else None)"

definition recorded_of :: "ustr \<Rightarrow> recorded_in option" where
  "recorded_of s =
     (case note_link s of
        Some n \<Rightarrow> Some (InNote n)
      | None \<Rightarrow>
          if starts_with (str_of ''CLAUDE.md: '') s \<and> drop 11 s \<noteq> [] then Some (UnderHeading (u_strip (drop 11 s))) else None)"

datatype ledger_problem =
    LedgerMissing
  | NoLedgerTable
  | NotFiveCells nat nat
  | NotADecisionId nat ustr
  | OutOfOrder nat ustr nat
  | NoDecision nat
  | NoSuchNote nat ustr
  | NoSuchHeading nat ustr
  | RecordedNowhere nat ustr
  | BadLedgerStatus nat ustr
  | SupersededByNone nat ustr
  | SupersededByItself nat
  | NoRetiring nat

definition recorded_problem :: "ustr list \<Rightarrow> ustr list \<Rightarrow> nat \<Rightarrow> ustr \<Rightarrow> ledger_problem list" where
  "recorded_problem notes headings n cell =
     (case recorded_of cell of
        Some (InNote f) \<Rightarrow> if f \<in> set notes then [] else [NoSuchNote n f]
      | Some (UnderHeading h) \<Rightarrow> if h \<in> set headings then [] else [NoSuchHeading n h]
      | None \<Rightarrow> [RecordedNowhere n cell])"

definition status_problem :: "ustr list \<Rightarrow> nat \<Rightarrow> ustr \<Rightarrow> ustr \<Rightarrow> ledger_problem list" where
  "status_problem ids n rid cell =
     (case ledger_status_of cell of
        None \<Rightarrow> [BadLedgerStatus n cell]
      | Some (Superseded d) \<Rightarrow> if d \<notin> set ids then [SupersededByNone n d] else if d = rid then [SupersededByItself n] else []
      | Some _ \<Rightarrow> [])"

text \<open>One row, after the largest id before it.\<close>

definition decision_row ::
  "ustr list \<Rightarrow> ustr list \<Rightarrow> ustr list \<Rightarrow> nat \<Rightarrow> nat \<times> ustr list \<Rightarrow> nat \<times> ledger_problem list" where
  "decision_row notes headings ids latest row =
     (let n = fst row; cells = snd row; rid = cells ! 0
      in if length cells \<noteq> 5 then (latest, [NotFiveCells n (length cells)])
         else ((case decision_id rid of None \<Rightarrow> latest | Some k \<Rightarrow> max latest k),
               (case decision_id rid of
                  None \<Rightarrow> [NotADecisionId n rid]
                | Some k \<Rightarrow> if k \<le> latest then [OutOfOrder n rid latest] else []) @
               (if u_strip (cells ! 1) = [] then [NoDecision n] else []) @
               recorded_problem notes headings n (cells ! 2) @
               status_problem ids n rid (cells ! 3) @
               (if u_strip (cells ! 4) = [] then [NoRetiring n] else [])))"

fun decision_rows ::
  "ustr list \<Rightarrow> ustr list \<Rightarrow> ustr list \<Rightarrow> nat \<Rightarrow> (nat \<times> ustr list) list \<Rightarrow> ledger_problem list" where
  "decision_rows notes headings ids latest [] = []"
| "decision_rows notes headings ids latest (r # rs) =
     (case decision_row notes headings ids latest r of (newest, ps) \<Rightarrow> ps @ decision_rows notes headings ids newest rs)"

definition row_ids :: "(nat \<times> ustr list) list \<Rightarrow> ustr list" where
  "row_ids rows = map (\<lambda>r. hd (snd r)) (filter (\<lambda>r. snd r \<noteq> [] \<and> decision_id (hd (snd r)) \<noteq> None) rows)"

definition ledger_problems :: "ustr option \<Rightarrow> ustr list \<Rightarrow> ustr list \<Rightarrow> ledger_problem list" where
  "ledger_problems page notes headings =
     (case page of
        None \<Rightarrow> [LedgerMissing]
      | Some t \<Rightarrow>
          (let rows = ledger_rows t
           in if rows = [] then [NoLedgerTable] else decision_rows notes headings (row_ids rows) 0 rows))"

text \<open>\<open>^#{2,3} (.+)$\<close>\<close>

definition claude_heading :: "ustr \<Rightarrow> ustr option" where
  "claude_heading l =
     (let r = (if starts_with [35, 35, 35, 32] l then drop 4 l else drop 3 l)
      in if (starts_with [35, 35, 32] l \<or> starts_with [35, 35, 35, 32] l) \<and> r \<noteq> [] then Some (u_strip r) else None)"

definition claude_headings :: "ustr \<Rightarrow> ustr list" where
  "claude_headings t = List.map_filter claude_heading (lines_of t)"

section \<open>Citations of what is not in the tree\<close>

definition citation_missing :: "ustr list \<Rightarrow> ustr \<Rightarrow> bool" where
  "citation_missing tracked cited \<longleftrightarrow>
     (let path = rstrip_of 47 cited
      in starts_with (str_of ''.claude/'') cited \<and> set cited \<inter> {42, 63, 91} = {} \<and> 3 \<le> length (split_on 47 path) \<and>
         path \<notin> set tracked \<and> \<not> list_ex (starts_with (path @ [47])) tracked)"

text \<open>\<open>`([^`\n]+)`\<close>\<close>

definition code_span :: "ustr pattern" where
  "code_span b s =
     (let p = takeWhile (\<lambda>c. c \<noteq> 96 \<and> c \<noteq> 10) (drop 1 s); r = drop (1 + length p) s
      in if starts_with [96] s \<and> p \<noteq> [] \<and> starts_with [96] r then Some (p, drop 1 r) else None)"

definition untracked_citations :: "(ustr \<times> ustr) list \<Rightarrow> ustr list \<Rightarrow> (ustr \<times> ustr) list" where
  "untracked_citations docs tracked =
     concat (map (\<lambda>(doc, t). map (Pair doc) (filter (citation_missing tracked) (findall code_span t))) (sort_key fst docs))"


section \<open>Known issues and the soak\<close>

text \<open>After \<open><!--\<close>: the end of the comment that is followed by the title's stars.\<close>

fun after_comment :: "bool \<Rightarrow> ustr \<Rightarrow> ustr option" where
  "after_comment lines [] = None"
| "after_comment lines (c # cs) =
     (let r = dropWhile u_space (drop 3 (c # cs))
      in if starts_with [45, 45, 62] (c # cs) \<and> starts_with [42, 42] r then Some (drop 2 r)
         else if c = 10 \<and> \<not> lines then None else after_comment lines cs)"

text \<open>\<open>_ENTRY\<close>; \<open>lines\<close> where a dot also matches a line break.\<close>

definition entry_open :: "bool \<Rightarrow> ustr \<Rightarrow> ustr option" where
  "entry_open lines s =
     (if starts_with [45, 32, 42, 42] s then Some (drop 4 s)
      else if starts_with (str_of ''- <!--'') s then after_comment lines (drop 6 s) else None)"

definition section_under :: "ustr \<Rightarrow> ustr \<Rightarrow> ustr option" where
  "section_under heading page =
     (case cut_at (10 # heading) page of
        None \<Rightarrow> None
      | Some (_, r) \<Rightarrow>
          Some (case cut_at (10 # [35, 35, 32]) (heading @ r) of None \<Rightarrow> heading @ r | Some (a, _) \<Rightarrow> a))"

definition known_issues_section :: "ustr \<Rightarrow> ustr" where
  "known_issues_section page = (case section_under (str_of ''## Known issues'') page of None \<Rightarrow> [] | Some s \<Rightarrow> s)"

text \<open>Cut before each line that opens an entry.\<close>

fun issue_chunks :: "ustr \<Rightarrow> ustr \<Rightarrow> ustr list" where
  "issue_chunks cur [] = [cur]"
| "issue_chunks cur (c # cs) =
     (if c = 10 \<and> entry_open False cs \<noteq> None then cur # issue_chunks [] cs else issue_chunks (cur @ [c]) cs)"

definition issue_of :: "ustr \<Rightarrow> (ustr \<times> ustr) option" where
  "issue_of chunk =
     Option.bind (entry_open True (dropWhile u_space chunk))
       (\<lambda>r. map_option (\<lambda>(title, _). (title, chunk)) (cut_at [42, 42] r))"

definition known_issues :: "ustr \<Rightarrow> (ustr \<times> ustr) list" where
  "known_issues page = List.map_filter issue_of (issue_chunks [] (known_issues_section page))"

definition LAYER_SOAK_HEADING :: ustr where "LAYER_SOAK_HEADING = str_of ''The application layer''"

definition layer_soak_section :: "ustr \<Rightarrow> ustr option" where
  "layer_soak_section page = section_under (str_of ''## '' @ LAYER_SOAK_HEADING) page"

definition server_soak_text :: "ustr \<Rightarrow> ustr" where
  "server_soak_text page =
     (case layer_soak_section page of
        None \<Rightarrow> page
      | Some s \<Rightarrow> (case cut_at s page of None \<Rightarrow> page | Some (a, b) \<Rightarrow> a @ b))"

text \<open>\<open>against (?:m0serve|m0-http) \<close> and the version.\<close>

definition against_version :: "version pattern" where
  "against_version b s =
     (if starts_with (str_of ''against m0serve '') s then dotted_version (drop 16 s)
      else if starts_with (str_of ''against m0-http '') s then dotted_version (drop 16 s) else None)"

text \<open>\<open>Last run[^\n]*?\<close>, then the version on the same line.\<close>

definition last_run :: "version pattern" where
  "last_run b s =
     (if starts_with (str_of ''Last run'') s
      then map_option (\<lambda>v. (v, drop 8 s)) (search_at against_version (shell_line (drop 8 s))) else None)"

definition real_app_version :: "ustr \<Rightarrow> version option" where
  "real_app_version page = search_at last_run (server_soak_text page)"

definition layer_soak_version :: "ustr \<Rightarrow> version option" where
  "layer_soak_version page = Option.bind (layer_soak_section page) (search_at last_run)"

text \<open>\<open>^version = "\<close> and three numbers and a quote\<close>

definition version_line :: "version pattern" where
  "version_line b s =
     (if line_start b \<and> starts_with (str_of ''version = '' @ [34]) s
      then Option.bind (dotted_version (drop 11 s)) (\<lambda>(v, r). if starts_with [34] r then Some (v, r) else None) else None)"

definition current_version :: "ustr \<Rightarrow> version option" where
  "current_version pyproject = search_at version_line pyproject"

definition lag :: "version \<Rightarrow> version \<Rightarrow> int" where
  "lag cur soaked = (case (cur, soaked) of ((a, b, _), (c, d, _)) \<Rightarrow> (int a - int c) * 1000 + (int b - int d))"

text \<open>\<open>\*\*Closed by:\*\*\s*([^\n]+)\<close>: the rest of the first line with something on it, else one blank.\<close>

definition closed_by :: "ustr pattern" where
  "closed_by b s =
     (let r = drop 14 s; v = shell_line (dropWhile u_space r); blanks = filter (\<lambda>c. c \<noteq> 10) r
      in if \<not> starts_with (str_of ''**Closed by:**'') s then None
         else if v \<noteq> [] then Some (v, drop (length v) (dropWhile u_space r))
         else if blanks \<noteq> [] then Some ([last blanks], []) else None)"

text \<open>To the first dash that is a pair of hyphens or long.\<close>

fun before_dash :: "ustr \<Rightarrow> ustr" where
  "before_dash [] = []"
| "before_dash (c # cs) = (if c = 8212 \<or> starts_with [45, 45] (c # cs) then [] else c # before_dash cs)"

definition bare_id :: "ustr \<Rightarrow> ustr" where
  "bare_id t = (let q = (\<lambda>c. c = 32 \<or> c = 46 \<or> c = 96) in rev (dropWhile q (rev (dropWhile q t))))"

definition closing_ids :: "ustr \<Rightarrow> ustr list" where
  "closing_ids v = filter (\<lambda>t. t \<noteq> []) (map bare_id (split_on 44 (before_dash v)))"

datatype milestone_problem =
    NoClosedBy ustr
  | EmptyClosedBy ustr
  | NotARow ustr "ustr list"
  | Outlived ustr "ustr list"
  | NoVersion
  | NoSoakVersion
  | NoLayerSection
  | ReaderBlind
  | BadEntry ustr
  | EntriesLost nat nat

definition issue_problem :: "(ustr \<rightharpoonup> ustr) \<Rightarrow> ustr \<times> ustr \<Rightarrow> milestone_problem option" where
  "issue_problem status issue =
     (case search_at closed_by (snd issue) of
        None \<Rightarrow> Some (NoClosedBy (fst issue))
      | Some v \<Rightarrow>
          let ids = closing_ids v; unknown = filter (\<lambda>i. status i = None) ids
          in if ids = [] then Some (EmptyClosedBy (fst issue))
             else if ids = [str_of ''none''] then None
             else if unknown \<noteq> [] then Some (NotARow (fst issue) unknown)
             else if list_all (\<lambda>i. status i = Some (str_of ''verified'')) ids then Some (Outlived (fst issue) ids)
             else None)"

definition marked_entry :: ustr where
  "marked_entry =
     [10] @ str_of ''## Known issues'' @ [10, 10] @
     str_of ''- <!-- observed: a fixture, not a measurement -->**A marked entry.** It takes 4 s.'' @ [10, 10] @
     str_of ''**Closed by:** none'' @ [10, 10] @ str_of ''## After'' @ [10]"

definition bullets :: "ustr \<Rightarrow> ustr list" where
  "bullets page = filter (starts_with [45, 32]) (lines_of (known_issues_section page))"

definition milestone_check :: "ustr \<Rightarrow> ustr \<Rightarrow> ustr \<Rightarrow> (ustr \<rightharpoonup> ustr) \<Rightarrow> milestone_problem list" where
  "milestone_check roadmap record pyproject status =
     List.map_filter (issue_problem status) (known_issues roadmap) @
     (if current_version pyproject = None then [NoVersion] else []) @
     (if real_app_version record = None then [NoSoakVersion] else []) @
     (if layer_soak_section record = None then [NoLayerSection] else []) @
     (if map fst (known_issues marked_entry) = [str_of ''A marked entry.''] then [] else [ReaderBlind]) @
     map BadEntry (filter (\<lambda>h. entry_open False h = None) (bullets roadmap)) @
     (if length (bullets roadmap) = length (known_issues roadmap) then []
      else [EntriesLost (length (bullets roadmap)) (length (known_issues roadmap))])"

section \<open>What no problem means\<close>

text \<open>The train leaves on a Thursday, and the one after it a fortnight later, also on a Thursday.\<close>

lemma train_holds:
  assumes "train_problems (Some page) llms v = []"
  shows "\<exists>t d e. next_trains page = [t] \<and> tr_leaves t = Some d \<and> tr_then_leaves t = Some e \<and>
    tr_next t \<in> {next_minor v, next_major v} \<and> tr_then t = next_minor (tr_next t) \<and>
    weekday d = 3 \<and> ordinal e = ordinal d + 14 \<and>
    next_train_short (case llms of None \<Rightarrow> [] | Some l \<Rightarrow> l) = [(tr_next t, Some d)]"
proof -
  obtain t where t: "next_trains page = [t]"
    using assms by (auto simp: train_problems_def split: list.splits)
  have d: "day_problem True (tr_leaves t) = []" "day_problem False (tr_then_leaves t) = []"
    using assms t by (auto simp: train_problems_def)
  then obtain d e where de: "tr_leaves t = Some d" "tr_then_leaves t = Some e" "weekday d = 3"
    by (auto simp: day_problem_def split: option.splits if_splits)
  have "short_problem (case llms of None \<Rightarrow> [] | Some l \<Rightarrow> l) t = []"
    using assms t by (simp add: train_problems_def)
  then have "next_train_short (case llms of None \<Rightarrow> [] | Some l \<Rightarrow> l) = [(tr_next t, Some d)]"
    using de by (auto simp: short_problem_def split: list.splits if_splits)
  moreover have "tr_next t \<in> {next_minor v, next_major v}" "tr_then t = next_minor (tr_next t)" "ordinal e = ordinal d + 14"
    using assms t de by (auto simp: train_problems_def split: if_splits)
  ultimately show ?thesis using t de by blast
qed

text \<open>Once the train has left, the page that named it is refused.\<close>

lemma version_moves: "next_minor v \<noteq> v" "next_major v \<noteq> v"
  by (cases v; simp add: next_minor_def next_major_def)+

lemma released_page_refused:
  assumes "train_problems (Some page) llms v = []" "next_trains page = [t]"
  shows "train_problems (Some page) llms' (tr_next t) \<noteq> []"
  using assms(2) version_moves [of "tr_next t"] by (auto simp: train_problems_def)

text \<open>The ids of a ledger without a problem: one in each row, in order.\<close>

definition row_number :: "nat \<times> ustr list \<Rightarrow> nat option" where
  "row_number r = decision_id (snd r ! 0)"

definition five_cells :: "nat \<times> ustr list \<Rightarrow> bool" where
  "five_cells r \<longleftrightarrow> length (snd r) = 5"

lemma rows_in_order:
  "decision_rows notes headings ids latest rows = [] \<Longrightarrow>
     \<exists>ks. map row_number rows = map Some ks \<and> sorted_wrt (<) ks \<and> (\<forall>k \<in> set ks. latest < k) \<and> list_all five_cells rows"
proof (induction rows arbitrary: latest)
  case (Cons r rs)
  from Cons.prems obtain k where k: "row_number r = Some k" "latest < k" "five_cells r"
    "decision_rows notes headings ids (max latest k) rs = []"
    by (auto simp: decision_row_def row_number_def five_cells_def Let_def split: if_splits option.splits)
  obtain ks where "map row_number rs = map Some ks" "sorted_wrt (<) ks" "\<forall>j \<in> set ks. max latest k < j" "list_all five_cells rs"
    using Cons.IH [OF k(4)] by blast
  then have "map row_number (r # rs) = map Some (k # ks) \<and> sorted_wrt (<) (k # ks) \<and> (\<forall>j \<in> set (k # ks). latest < j) \<and>
      list_all five_cells (r # rs)"
    using k by auto
  then show ?case by blast
qed simp

text \<open>Each row says where it is recorded, what its status is and what retires it.\<close>

definition decision_stands :: "ustr list \<Rightarrow> ustr list \<Rightarrow> ustr list \<Rightarrow> nat \<times> ustr list \<Rightarrow> bool" where
  "decision_stands notes headings ids r \<longleftrightarrow>
     (case recorded_of (snd r ! 2) of None \<Rightarrow> False | Some (InNote f) \<Rightarrow> f \<in> set notes | Some (UnderHeading h) \<Rightarrow> h \<in> set headings) \<and>
     (case ledger_status_of (snd r ! 3) of None \<Rightarrow> False | Some (Superseded d) \<Rightarrow> d \<in> set ids \<and> d \<noteq> snd r ! 0 | Some _ \<Rightarrow> True) \<and>
     u_strip (snd r ! 1) \<noteq> [] \<and> u_strip (snd r ! 4) \<noteq> []"

lemma row_stands:
  "snd (decision_row notes headings ids latest r) = [] \<Longrightarrow> decision_stands notes headings ids r"
  by (auto simp: decision_row_def decision_stands_def recorded_problem_def status_problem_def Let_def
      split: if_splits option.splits recorded_in.splits ledger_status.splits)

lemma rows_stand:
  "decision_rows notes headings ids latest rows = [] \<Longrightarrow> list_all (decision_stands notes headings ids) rows"
  by (induction rows arbitrary: latest) (auto split: prod.splits, metis row_stands snd_conv)

lemma ledger_holds:
  assumes "ledger_problems (Some page) notes headings = []"
  shows "\<exists>ks. ks \<noteq> [] \<and> map row_number (ledger_rows page) = map Some ks \<and> sorted_wrt (<) ks \<and>
    list_all (decision_stands notes headings (row_ids (ledger_rows page))) (ledger_rows page)"
proof -
  have rows: "ledger_rows page \<noteq> []"
    "decision_rows notes headings (row_ids (ledger_rows page)) 0 (ledger_rows page) = []"
    using assms by (auto simp: ledger_problems_def Let_def split: if_splits)
  then show ?thesis using rows_in_order [OF rows(2)] rows_stand [OF rows(2)] by fastforce
qed

text \<open>A citation of what is not in the tree is found wherever it stands in backticks.\<close>

lemma cited_is_tracked:
  assumes "untracked_citations docs tracked = []" "(doc, t) \<in> set docs" "cited \<in> set (findall code_span t)"
  shows "\<not> citation_missing tracked cited"
  using assms by (auto simp: untracked_citations_def filter_empty_conv)

text \<open>A roadmap without a problem: each bullet is an issue, and each issue is still open.\<close>

definition issue_open :: "(ustr \<rightharpoonup> ustr) \<Rightarrow> ustr \<times> ustr \<Rightarrow> bool" where
  "issue_open status issue \<longleftrightarrow>
     (\<exists>v. search_at closed_by (snd issue) = Some v \<and>
        (closing_ids v = [str_of ''none''] \<or>
         (closing_ids v \<noteq> [] \<and> (\<forall>i \<in> set (closing_ids v). status i \<noteq> None) \<and>
          (\<exists>i \<in> set (closing_ids v). status i \<noteq> Some (str_of ''verified'')))))"

lemma issue_problem_none: "issue_problem status issue = None \<Longrightarrow> issue_open status issue"
  unfolding issue_problem_def issue_open_def
  by (auto simp: Let_def filter_empty_conv list_all_iff split: option.splits if_splits)

lemma milestones_hold:
  assumes "milestone_check roadmap record pyproject status = []"
  shows "length (bullets roadmap) = length (known_issues roadmap)"
    and "issue \<in> set (known_issues roadmap) \<Longrightarrow> issue_open status issue"
  using assms by (auto simp: milestone_check_def map_filter_none split: if_splits intro: issue_problem_none)

end
